(* ===== verification/Prelude.thy ===== *)
theory Prelude
  imports Main "HOL-Library.Word" "HOL-Library.Monad_Syntax"
begin

text \<open>
  Shared vocabulary of the development.

  \<^item> Types: addresses and return codes are \<open>32 word\<close> (the target is a 32-bit ARM), file
    offsets \<open>SceOff\<close> are \<open>64 word\<close> read as signed, \<open>SceSize\<close> is \<open>32 word\<close>
    read as unsigned.
  \<^item> Faults: a model of a C function returns an option; \<open>None\<close> stands for undefined
    behaviour (a dereference of NULL or of a freed object, an access outside a block) or for a loop
    that does not end.  A theorem with a \<open>Some\<close> on the right therefore also says that the
    code is memory safe and terminates.
  \<^item> Linked lists: \<open>chain\<close> abstracts a chain of \<open>next\<close> pointers to the list of its
    addresses; the two locales are the contracts of the two loop shapes the sources use on such
    chains (a search, and a walk with a pointer to the link).
  \<^item> C strings: a string is the list of its characters before the terminating NUL, a pointer
    into it is a suffix.
\<close>

unbundle bit_operations_syntax

section \<open>Machine types\<close>

type_synonym u8 = "8 word"
type_synonym u16 = "16 word"
type_synonym u32 = "32 word"
type_synonym s32 = "32 word"
type_synonym u64 = "64 word"
type_synonym SceOff = "64 word"
type_synonym SceSize = "32 word"
type_synonym addr = "32 word"

abbreviation (input) NULL :: addr where "NULL \<equiv> 0"

named_theorems op_defs \<open>definitions of the modelled operations\<close>
named_theorems deref \<open>reads of the typed heap after an update\<close>

text \<open>An error is a negative return code.\<close>

definition failed :: "s32 \<Rightarrow> bool" where
  "failed r \<longleftrightarrow> r <s 0"

lemma failed_numerals [simp]:
  "failed 0x80010002" "failed 0x80010011" "failed 0x80010014" "failed 0x80010016"
  "failed 0x80020005" "failed 0x8002000A" "failed 0x80010001" "failed 0x80010030"
  "failed (-1)" "failed (-2)" "failed (-3)" "\<not> failed 0" "\<not> failed 1"
  by (simp_all add: failed_def word_sless_alt)

lemma failed_iff_bit: "failed r \<longleftrightarrow> bit r 31"
  unfolding failed_def word_sless_alt
  using bit_last_iff [of r] by simp

text \<open>Signed 64-bit offsets that are not negative compare as their values.\<close>

lemma sint_small64:
  assumes "unat (a :: 64 word) < 2^63"
  shows "sint a = int (unat a)"
proof -
  have u: "uint a = int (unat a)" by simp
  have t: "take_bit 63 (int n) = int n" if "n < 2^63" for n
    using that by (simp add: take_bit_int_eq_self_iff)
  have s: "signed_take_bit 63 (int n) = int n" if "n < 2^63" for n
    using t [OF that] by (metis bit_take_bit_iff less_irrefl signed_take_bit_eq_if_positive)
  show ?thesis unfolding sint_uint u using s [OF assms] by simp
qed

lemma sless_small:
  "unat (a :: 64 word) < 2^63 \<Longrightarrow> unat b < 2^63 \<Longrightarrow> a <s b \<longleftrightarrow> unat a < unat b"
  by (simp only: word_sless_alt sint_small64 of_nat_less_iff)

lemma sle_small:
  "unat (a :: 64 word) < 2^63 \<Longrightarrow> unat b < 2^63 \<Longrightarrow> a \<le>s b \<longleftrightarrow> unat a \<le> unat b"
  by (simp only: word_sle_eq sint_small64 of_nat_le_iff)

lemma not_neg_small: "unat (a :: 64 word) < 2^63 \<Longrightarrow> \<not> a <s 0"
  by (simp add: sless_small)

lemma unat_ucast_32_64 [simp]: "unat (ucast (w :: 32 word) :: 64 word) = unat w"
  by (simp add: unsigned_ucast_eq take_bit_nat_eq_self_iff order_less_trans [OF unsigned_less])

lemma unat_ucast_64_32: "unat (ucast (w :: 64 word) :: 32 word) = unat w mod 2^32"
  by (simp add: unsigned_ucast_eq take_bit_eq_mod)

lemma unat_lt_32: "unat (w :: 32 word) < 4294967296"
  using unsigned_less [of w, where 'a = nat] by simp

lemma int_unat_less: "unat (w :: 64 word) < n \<Longrightarrow> uint w < int n"
  unfolding uint_nat by (simp only: of_nat_less_iff)

lemma unat_word_of_int_64: "0 \<le> t \<Longrightarrow> t < 2^64 \<Longrightarrow> unat (word_of_int t :: 64 word) = nat t"
  by (simp add: unsigned_of_int take_bit_int_eq_self)

lemma unat_add_64: "unat a + unat b < 2^64 \<Longrightarrow> unat (a + b :: 64 word) = unat a + unat b"
  by (simp add: unat_word_ariths)

lemma unat_push_drop_64: "unat (push_bit 9 (drop_bit 9 (y :: 64 word))) = unat y div 512 * 512"
proof -
  have l: "unat y < 2^64" using unsigned_less [of y, where 'a=nat] by simp
  then have tk: "take_bit 64 (unat y) = unat y" by (simp add: take_bit_nat_eq_self_iff)
  have "unat (push_bit 9 (drop_bit 9 y)) = take_bit 64 (push_bit 9 (drop_bit 9 (unat y)))"
    using tk by (simp only: unsigned_push_bit_eq unsigned_drop_bit_eq len_of_numeral_defs) simp
  also have "push_bit 9 (drop_bit 9 (unat y)) = unat y div 512 * 512"
    by (simp add: push_bit_eq_mult drop_bit_eq_div)
  also have "take_bit 64 (unat y div 512 * 512) = unat y div 512 * 512"
    using l by (simp add: take_bit_nat_eq_self_iff del: One_nat_def)
  finally show ?thesis .
qed

section \<open>Buffers\<close>

text \<open>\<open>memcpy(dst + off, src, length src)\<close> into a block, with the bounds of the block.\<close>

definition overwrite :: "nat \<Rightarrow> 'a list \<Rightarrow> 'a list \<Rightarrow> 'a list" where
  "overwrite off bs blk = take off blk @ bs @ drop (off + length bs) blk"

lemma length_overwrite [simp]:
  "off + length bs \<le> length blk \<Longrightarrow> length (overwrite off bs blk) = length blk"
  by (simp add: overwrite_def)

lemma overwrite_Nil [simp]: "overwrite off [] blk = blk"
  by (simp add: overwrite_def)

lemma take_overwrite:
  "off + length bs \<le> n \<Longrightarrow> n \<le> length blk \<Longrightarrow>
   take n (overwrite off bs blk) = overwrite off bs (take n blk)"
  by (simp add: overwrite_def drop_take min_absorb2 min_absorb1)

lemma read_overwrite:
  "off + length bs \<le> length blk \<Longrightarrow> take (length bs) (drop off (overwrite off bs blk)) = bs"
  by (simp add: overwrite_def)

lemma read_overwrite_before:
  "o2 + n \<le> off \<Longrightarrow> off \<le> length blk \<Longrightarrow>
   take n (drop o2 (overwrite off bs blk)) = take n (drop o2 blk)"
proof -
  assume "o2 + n \<le> off" "off \<le> length blk"
  then have "take n (drop o2 (overwrite off bs blk)) = take n (drop o2 (take off blk))"
    by (simp add: overwrite_def)
  then show ?thesis using \<open>o2 + n \<le> off\<close> by (simp add: drop_take)
qed

lemma length_overwrite_max: "off \<le> length blk \<Longrightarrow>
  length (overwrite off bs blk) = max (length blk) (off + length bs)"
  by (simp add: overwrite_def max_def)

lemma read_overwrite_ext:
  "off \<le> length blk \<Longrightarrow> take (length bs) (drop off (overwrite off bs blk)) = bs"
  by (simp add: overwrite_def)

lemma read_overwrite_after:
  "off \<le> length blk \<Longrightarrow> off + length bs \<le> o2 \<Longrightarrow>
   take n (drop o2 (overwrite off bs blk)) = take n (drop o2 blk)"
  by (simp add: overwrite_def)

text \<open>
  A file accessed by position: \<open>inv\<close> its invariant, \<open>content\<close> its bytes, \<open>limit\<close> the
  size up to which the operations are specified.
\<close>

locale random_access =
  fixes inv :: "'s \<Rightarrow> bool" and content :: "'s \<Rightarrow> 'b list" and limit :: nat
    and wr :: "nat \<Rightarrow> 'b list \<Rightarrow> 's \<Rightarrow> 's option"
    and rd :: "nat \<Rightarrow> nat \<Rightarrow> 's \<Rightarrow> 'b list option"
  assumes wr_law: "inv s \<Longrightarrow> off \<le> length (content s) \<Longrightarrow> length (content s) + length bs < limit \<Longrightarrow>
      wr off bs s = Some s' \<Longrightarrow> inv s' \<and> content s' = overwrite off bs (content s)"
    and rd_law: "inv s \<Longrightarrow> off \<le> length (content s) \<Longrightarrow> n < limit \<Longrightarrow>
      rd off n s = Some (take n (drop off (content s)))"
begin

lemma write_read:
  assumes "inv s" "off \<le> length (content s)" "length (content s) + length bs < limit"
    "wr off bs s = Some s'"
  shows "rd off (length bs) s' = Some bs"
  using wr_law [OF assms] assms rd_law [of s' off "length bs"]
  by (simp add: length_overwrite_max read_overwrite_ext)

lemma write_read_other:
  assumes "inv s" "off \<le> length (content s)" "length (content s) + length bs < limit"
    "wr off bs s = Some s'" "n < limit" "o2 \<le> length (content s)"
    and "o2 + n \<le> off \<or> off + length bs \<le> o2"
  shows "rd o2 n s' = rd o2 n s"
  using wr_law [OF assms(1-4)] assms rd_law [of s' o2 n] rd_law [of s o2 n]
    read_overwrite_before [of o2 n off "content s" bs]
    read_overwrite_after [of off "content s" bs o2 n]
  by (auto simp: length_overwrite_max)

lemma write_write:
  assumes "inv s" "off \<le> length (content s)" "length (content s) + length as + length bs < limit"
    "wr off as s = Some s1" "wr (off + length as) bs s1 = Some s2"
  shows "content s2 = overwrite off (as @ bs) (content s)"
proof -
  have "length (content s) + length as < limit" using assms(3) by simp
  from wr_law [OF assms(1,2) this assms(4)]
  have 1: "inv s1" "content s1 = overwrite off as (content s)" by simp_all
  moreover have l: "length (content s1) = max (length (content s)) (off + length as)"
    using assms(2) 1(2) by (simp add: length_overwrite_max)
  moreover have "length (content s1) + length bs < limit" using l assms(2,3) by simp
  ultimately have "content s2 = overwrite (off + length as) bs (overwrite off as (content s))"
    using wr_law [of s1 "off + length as" bs s2] assms(5) by simp
  then show ?thesis using assms(2) by (simp add: overwrite_def ac_simps)
qed

end

section \<open>Collecting what is printed\<close>

text \<open>The lines of a loop: \<open>f\<close> gives those of one turn, or nothing when the turn faults.\<close>

fun collect :: "('a \<Rightarrow> 'b list option) \<Rightarrow> 'a list \<Rightarrow> 'b list option" where
  "collect f [] = Some []"
| "collect f (x # xs) = do { a \<leftarrow> f x; b \<leftarrow> collect f xs; Some (a @ b) }"

lemma collect_Some:
  "collect f xs = Some ls \<longleftrightarrow> (\<forall>x\<in>set xs. f x \<noteq> None) \<and> ls = concat (map (\<lambda>x. the (f x)) xs)"
  by (induction xs arbitrary: ls) (auto simp: bind_eq_Some_conv)

lemma collect_member:
  assumes "collect f xs = Some ls"
  shows "l \<in> set ls \<longleftrightarrow> (\<exists>x\<in>set xs. \<exists>ys. f x = Some ys \<and> l \<in> set ys)"
  using assms unfolding collect_Some by force

lemma collect_defined: "collect f xs = Some ls \<Longrightarrow> x \<in> set xs \<Longrightarrow> \<exists>y. f x = Some y"
  unfolding collect_Some by blast

lemma collect_set: "collect g ns = Some ms \<Longrightarrow> i \<in> set ns \<Longrightarrow> \<exists>ls. g i = Some ls \<and> set ls \<subseteq> set ms"
  using collect_defined [of g ns ms i] collect_member [of g ns ms] by blast

lemma collect_lines:
  assumes g: "\<And>i. i < k \<Longrightarrow> \<exists>ls. g i = Some ls \<and> (\<forall>m \<in> set ls. P m)"
  shows "\<exists>ms. collect g [0 ..< k] = Some ms \<and> (\<forall>m \<in> set ms. P m)"
proof -
  have c: "collect g [0 ..< k] = Some (concat (map (\<lambda>i. the (g i)) [0 ..< k]))"
    unfolding collect_Some using g by force
  then show ?thesis using collect_member [OF c] g by fastforce
qed

section \<open>Linked chains\<close>

fun chain :: "(addr \<Rightarrow> addr option) \<Rightarrow> addr \<Rightarrow> addr list \<Rightarrow> bool" where
  "chain nx p [] \<longleftrightarrow> p = NULL"
| "chain nx p (a # as) \<longleftrightarrow> p = a \<and> a \<noteq> NULL \<and> (\<exists>q. nx a = Some q \<and> chain nx q as)"

lemma chain_NULL [simp]: "chain nx NULL xs \<longleftrightarrow> xs = []"
  by (cases xs) auto

lemma chain_unique: "chain nx p xs \<Longrightarrow> chain nx p ys \<Longrightarrow> xs = ys"
proof (induction xs arbitrary: p ys)
  case Nil
  then show ?case by simp
next
  case (Cons a xs)
  then show ?case by (cases ys) auto
qed

lemma chain_cong:
  "(\<And>a. a \<in> set xs \<Longrightarrow> nx a = nx' a) \<Longrightarrow> chain nx p xs = chain nx' p xs"
  by (induction xs arbitrary: p) auto

lemma chain_suffix:
  "chain nx p (as @ a # bs) \<Longrightarrow> \<exists>q. nx a = Some q \<and> chain nx q bs"
  by (induction as arbitrary: p) auto

lemma chain_hd_notin: "chain nx p (a # as) \<Longrightarrow> a \<notin> set as"
proof
  assume c: "chain nx p (a # as)" and "a \<in> set as"
  then obtain us vs where as: "as = us @ a # vs" by (meson split_list)
  from c obtain q where q: "nx a = Some q" "chain nx q as" by auto
  from q as obtain q' where "nx a = Some q'" "chain nx q' vs" by (metis chain_suffix)
  with q have "as = vs" by (metis chain_unique option.inject)
  with as show False by simp
qed

lemma chain_distinct: "chain nx p xs \<Longrightarrow> distinct xs"
proof (induction xs arbitrary: p)
  case (Cons a xs)
  then show ?case using chain_hd_notin [of nx p a xs] by auto
qed simp

lemma chain_NULL_notin: "chain nx p xs \<Longrightarrow> NULL \<notin> set xs"
  by (induction xs arbitrary: p) auto

lemma chain_upd_other:
  "a \<notin> set xs \<Longrightarrow> chain (nx(a := v)) p xs = chain nx p xs"
  by (rule chain_cong) auto

text \<open>Unlinking: the link before the removed node is redirected to the node after it.\<close>

lemma chain_unlink:
  assumes "chain nx p (as @ a # bs)" and "nx a = Some q"
  shows "as = [] \<Longrightarrow> chain nx q bs"
    and "as \<noteq> [] \<Longrightarrow> chain (nx(last as := Some q)) p (as @ bs)"
proof -
  show "as = [] \<Longrightarrow> chain nx q bs" using assms by auto
  show "as \<noteq> [] \<Longrightarrow> chain (nx(last as := Some q)) p (as @ bs)"
    using assms
  proof (induction as arbitrary: p)
    case (Cons b as)
    have nb: "b \<notin> set (as @ a # bs)"
      using chain_hd_notin [of nx p b "as @ a # bs"] Cons.prems(2) by simp
    show ?case
    proof (cases "as = []")
      case True
      from Cons.prems(2,3) True have "chain nx q bs" by auto
      then have c: "chain (nx(b := Some q)) q bs" using nb by (simp add: chain_upd_other)
      have b0: "b \<noteq> NULL" using Cons.prems(2) by simp
      have "(nx(b := Some q)) b = Some q" by simp
      with c have "chain (nx(b := Some q)) b (b # bs)"
        using b0 by (simp only: chain.simps) blast
      moreover have "p = b" "last (b # as) = b" using Cons.prems(2) True by simp_all
      ultimately show ?thesis by (simp only: True append.simps)
    next
      case False
      from Cons.prems(2) obtain r where r: "nx b = Some r" "chain nx r (as @ a # bs)"
        and pb: "p = b" "b \<noteq> NULL" by auto
      from Cons.IH [OF False r(2) Cons.prems(3)]
      have c: "chain (nx(last as := Some q)) r (as @ bs)" .
      have "(nx(last as := Some q)) b = Some r" using nb False r(1) by auto
      with c have "chain (nx(last as := Some q)) b (b # as @ bs)"
        using pb(2) by (simp only: chain.simps) blast
      moreover have "last (b # as) = last as" using False by simp
      ultimately show ?thesis using pb(1) by (simp only: append.simps)
    qed
  qed simp
qed

text \<open>Abstract removal: the first node with the key leaves both lists.\<close>

lemma remove1_map_Some:
  assumes "map f (as @ a # bs) = map Some ks" "f a = Some key" "\<And>x. x \<in> set as \<Longrightarrow> f x \<noteq> Some key"
  shows "map f (as @ bs) = map Some (remove1 key ks)"
  using assms
proof (induction as arbitrary: ks)
  case Nil
  then show ?case by (cases ks) auto
next
  case (Cons x as)
  then obtain k ks' where "ks = k # ks'" "f x = Some k" by (cases ks) auto
  moreover have "k \<noteq> key" using Cons.prems(3) [of x] calculation(2) by auto
  ultimately show ?case using Cons by simp
qed

text \<open>The first loop shape: follow \<open>next\<close> from a pointer until a node fits.\<close>

locale chain_search =
  fixes nx :: "'s \<Rightarrow> addr \<Rightarrow> addr option"
    and hit :: "'s \<Rightarrow> 'k \<Rightarrow> addr \<Rightarrow> bool option"
    and loop :: "'s \<Rightarrow> 'k \<Rightarrow> addr \<Rightarrow> addr option"
  assumes loop_eq: "loop s k p =
      (if p = NULL then Some NULL
       else case hit s k p of None \<Rightarrow> None
            | Some b \<Rightarrow> if b then Some p
                        else (case nx s p of None \<Rightarrow> None | Some q \<Rightarrow> loop s k q))"
begin

lemma not_found:
  "chain (nx s) p xs \<Longrightarrow> (\<And>x. x \<in> set xs \<Longrightarrow> hit s k x = Some False) \<Longrightarrow> loop s k p = Some NULL"
proof (induction xs arbitrary: p)
  case Nil
  then show ?case by (subst loop_eq) simp
next
  case (Cons a xs)
  then show ?case by (subst loop_eq) auto
qed

lemma found:
  "chain (nx s) p (xs @ a # ys) \<Longrightarrow> (\<And>x. x \<in> set xs \<Longrightarrow> hit s k x = Some False) \<Longrightarrow>
   hit s k a = Some True \<Longrightarrow> loop s k p = Some a"
proof (induction xs arbitrary: p)
  case Nil
  then show ?case by (subst loop_eq) simp
next
  case (Cons b xs)
  then show ?case by (subst loop_eq) auto
qed

lemma search_find:
  assumes "chain (nx s) p xs" and "\<And>x. x \<in> set xs \<Longrightarrow> hit s k x = Some (P x)"
  shows "loop s k p = Some (case find P xs of None \<Rightarrow> NULL | Some a \<Rightarrow> a)"
  using assms
proof (induction xs arbitrary: p)
  case Nil
  then show ?case by (subst loop_eq) simp
next
  case (Cons a xs)
  then show ?case by (subst loop_eq) auto
qed

end

text \<open>
  The second loop shape: walk with a pointer to the link (\<open>T **pp\<close>), so that the node found
  can be unlinked by assigning through it.  A link is the head field or the \<open>next\<close> field of a
  node (\<open>lk\<close>).
\<close>

locale link_walk =
  fixes nx :: "'s \<Rightarrow> addr \<Rightarrow> addr option"
    and rd :: "'s \<Rightarrow> 'l \<Rightarrow> addr option"
    and lk :: "addr \<Rightarrow> 'l"
    and hit :: "'s \<Rightarrow> 'k \<Rightarrow> addr \<Rightarrow> bool option"
    and loop :: "'s \<Rightarrow> 'k \<Rightarrow> 'l \<Rightarrow> ('l \<times> addr) option option"
  assumes rd_lk: "rd s (lk p) = nx s p"
    and loop_eq: "loop s k l =
      (case rd s l of None \<Rightarrow> None
       | Some p \<Rightarrow>
         if p = NULL then Some None
         else case hit s k p of None \<Rightarrow> None
              | Some b \<Rightarrow> if b then Some (Some (l, p)) else loop s k (lk p))"
begin

lemma walk_none:
  "rd s l = Some p \<Longrightarrow> chain (nx s) p xs \<Longrightarrow>
   (\<And>x. x \<in> set xs \<Longrightarrow> hit s k x = Some False) \<Longrightarrow> loop s k l = Some None"
proof (induction xs arbitrary: p l)
  case Nil
  then show ?case by (subst loop_eq) simp
next
  case (Cons a xs)
  from Cons.prems obtain q where "nx s a = Some q" "chain (nx s) q xs" by auto
  then have "loop s k (lk a) = Some None" using Cons.IH [of "lk a" q] Cons.prems(3)
    by (auto simp: rd_lk)
  then show ?case using Cons.prems by (subst loop_eq) auto
qed

lemma walk_found:
  "rd s l = Some p \<Longrightarrow> chain (nx s) p (xs @ a # ys) \<Longrightarrow>
   (\<And>x. x \<in> set xs \<Longrightarrow> hit s k x = Some False) \<Longrightarrow> hit s k a = Some True \<Longrightarrow>
   loop s k l = Some (Some (if xs = [] then l else lk (last xs), a))"
proof (induction xs arbitrary: p l)
  case Nil
  then show ?case by (subst loop_eq) simp
next
  case (Cons b xs)
  from Cons.prems(2) obtain q where "nx s b = Some q" "chain (nx s) q (xs @ a # ys)" by auto
  then have "loop s k (lk b) = Some (Some (if xs = [] then lk b else lk (last xs), a))"
    using Cons.IH [of "lk b" q] Cons.prems(3,4) by (auto simp: rd_lk)
  then show ?case using Cons.prems by (subst loop_eq) auto
qed

end

section \<open>C strings\<close>

text \<open>\<open>strchr\<close> for a character other than NUL: the suffix at its first occurrence.\<close>

fun strchr :: "string \<Rightarrow> char \<Rightarrow> string option" where
  "strchr [] c = None"
| "strchr (x # xs) c = (if x = c then Some (x # xs) else strchr xs c)"

lemma strchr_dropWhile:
  "strchr s c = (case dropWhile (\<lambda>x. x \<noteq> c) s of [] \<Rightarrow> None | t \<Rightarrow> Some t)"
  by (induction s) (auto split: list.splits)

lemma strchr_nonempty: "strchr s c = Some t \<Longrightarrow> t \<noteq> []"
  by (induction s) (auto split: if_splits)

lemma strchr_length: "strchr s c = Some t \<Longrightarrow> length t \<le> length s"
  by (induction s) (auto split: if_splits)

text \<open>The character of a NUL-terminated string at an index up to its terminator.\<close>

definition cstr_char :: "string \<Rightarrow> nat \<Rightarrow> char" where
  "cstr_char s i = (if i < length s then s ! i else CHR 0x00)"

text \<open>
  \<open>memcmp(s, t, length t) == 0\<close> for a NUL-terminated \<open>s\<close>, where \<open>t\<close> has no NUL:
  the comparison stops at the first difference, at the latest at the terminator of \<open>s\<close>.
\<close>

definition memcmp_eq :: "string \<Rightarrow> string \<Rightarrow> bool" where
  "memcmp_eq s t \<longleftrightarrow> take (length t) (s @ [CHR 0x00]) = t"

lemma memcmp_eq_name:
  assumes "CHR 0x00 \<notin> set t" "CHR 0x00 \<notin> set s"
  shows "memcmp_eq s t \<and> cstr_char s (length t) = CHR 0x00 \<longleftrightarrow> s = t"
proof
  assume l: "memcmp_eq s t \<and> cstr_char s (length t) = CHR 0x00"
  have "length t \<le> length s"
  proof (rule ccontr)
    assume "\<not> length t \<le> length s"
    with l have "t = s @ [CHR 0x00]" by (simp add: memcmp_eq_def)
    with assms show False by simp
  qed
  moreover have "\<not> length t < length s"
    using l assms(2) by (auto simp: cstr_char_def in_set_conv_nth)
  ultimately show "s = t" using l by (simp add: memcmp_eq_def)
qed (auto simp: memcmp_eq_def cstr_char_def)

end
