(* ===== verification/Dmass_Types.thy ===== *)
theory Dmass_Types
  imports Prelude
begin

text \<open>
  Data of \<open>kernel/SceVfsMountPoC\<close> (a RAM file system behind the kernel's virtual file
  system): the structures of \<open>fs_tool.h\<close>, \<open>dmass_process.h\<close> and the fields of
  \<open>vfs.h\<close> that the module reads or writes, the state it works on, and the kernel functions
  and SDK constants it calls, which are not part of the repository and therefore parameters
  (the record \<open>sce_kernel\<close>).
\<close>

section \<open>Structures\<close>

record SceDateTime =
  dt_year :: u16
  dt_month :: u16
  dt_day :: u16
  dt_hour :: u16
  dt_minute :: u16
  dt_second :: u16
  dt_microsecond :: u32

record SceIoStat =
  st_mode :: u32
  st_attr :: u32
  st_size :: SceOff
  st_ctime :: SceDateTime
  st_atime :: SceDateTime
  st_mtime :: SceDateTime

record SceIoDevInfo =
  di_max_size :: u64
  di_free_size :: u64
  di_cluster_size :: u32
  di_unk :: addr

definition FAPS_DMASS_DEVICE_NAME :: string where "FAPS_DMASS_DEVICE_NAME = ''vsd0:''"

record FapsDmassFs =
  fs_next :: addr
  fs_next_dir :: addr
  fs_pNode :: addr
  fs_pDmassFsX :: addr
  fs_refer :: u32
  fs_name :: addr
  fs_stat :: SceIoStat
  fs_data :: addr

record FapsDmassFsX =
  fsx_next :: addr
  fsx_handler_index :: s32
  fsx_current :: addr

record FapsDmassProcessContext =
  pc_next :: addr
  pc_pid :: s32
  pc_memid :: s32
  pc_membase :: addr
  pc_heap_id :: s32

text \<open>The fields of \<open>SceVfsNode.core\<close> that the module touches.\<close>

record SceVfsNode =
  vn_dev_info :: addr
  vn_mount :: addr
  vn_prev_node :: addr
  vn_some_counter_58 :: u32
  vn_unk_60 :: u32
  vn_unk_64 :: u32
  vn_unk_74 :: u32
  vn_unk_78 :: u32
  vn_st_size :: SceOff
  vn_st_attr :: u32
  vn_unk_8C :: u32

record SceVfsFileObject =
  fo_flags :: u32
  fo_offset :: SceOff
  fo_node :: addr

section \<open>State\<close>

text \<open>
  Every block of the module's heap holds one of: a directory entry, a handle record, a process
  context, a NUL-terminated name, raw bytes.  The kernel's own objects (vnodes, file objects)
  live outside that heap.
\<close>

datatype hobj =
    FsObj FapsDmassFs
  | FsXObj FapsDmassFsX
  | ProcObj FapsDmassProcessContext
  | Str string
  | Buf "u8 list"

type_synonym dheap = "addr \<Rightarrow> hobj option"

record 'k vfs_state =
  heap :: dheap
  vnodes :: "addr \<Rightarrow> SceVfsNode option"
  fobjs :: "addr \<Rightarrow> SceVfsFileObject option"
  pTree :: addr
  test_heap_uid :: s32
  pProcContextTop :: addr
  kst :: 'k

section \<open>The kernel and the SDK\<close>

text \<open>
  \<open>'k\<close> is the state of the kernel.  \<open>k_alloc\<close> is \<open>ksceKernelAllocHeapMemory\<close> (it is told
  which addresses are in use), \<open>k_junk\<close> the contents of a fresh block.
\<close>

record 'k sce_kernel =
  k_create_heap :: "'k \<Rightarrow> s32 \<times> 'k"
  k_alloc :: "'k \<Rightarrow> s32 \<Rightarrow> (addr \<Rightarrow> bool) \<Rightarrow> SceSize \<Rightarrow> addr \<times> 'k"
  k_junk :: "'k \<Rightarrow> addr \<Rightarrow> nat \<Rightarrow> u8 list"
  k_free :: "'k \<Rightarrow> addr \<Rightarrow> 'k"
  k_rtc_tick :: "'k \<Rightarrow> s32 \<times> u64 \<times> 'k"
  k_rtc_convert :: "u64 \<Rightarrow> s32 \<times> SceDateTime"
  k_zero_date :: SceDateTime
  k_new_node :: "'k \<Rightarrow> addr \<Rightarrow> (addr \<Rightarrow> bool) \<Rightarrow> s32 \<times> addr \<times> SceVfsNode \<times> 'k"
  k_node_wait :: "'k \<Rightarrow> addr \<Rightarrow> s32 \<times> 'k"
  sizeof_fs :: SceSize
  sizeof_fsx :: SceSize
  sizeof_proc :: SceSize
  S_IFMT :: u32
  S_IFDIR :: u32
  S_IFREG :: u32
  S_IRUSR :: u32
  S_IWUSR :: u32
  S_IXUSR :: u32
  SO_IROTH :: u32
  SO_IWOTH :: u32
  SO_IXOTH :: u32
  SO_IFDIR :: u32
  O_APPEND :: u32
  SEEK_SET :: s32
  SEEK_CUR :: s32
  SEEK_END :: s32

text \<open>
  What the module relies on: an allocation is NULL or a block not in use, and a fresh block has
  the size asked for.
\<close>

definition alloc_contract :: "'k sce_kernel \<Rightarrow> bool" where
  "alloc_contract K \<longleftrightarrow>
     (\<forall>k uid used n. fst (k_alloc K k uid used n) \<noteq> NULL \<longrightarrow> \<not> used (fst (k_alloc K k uid used n)))
   \<and> (\<forall>k p n. length (k_junk K k p n) = n)"

text \<open>A new vnode is not one in use, and is not NULL.\<close>

definition node_contract :: "'k sce_kernel \<Rightarrow> bool" where
  "node_contract K \<longleftrightarrow>
     (\<forall>k m used r p v k'. k_new_node K k m used = (r, p, v, k') \<longrightarrow> \<not> failed r \<longrightarrow>
        p \<noteq> NULL \<and> \<not> used p)"

text \<open>The file type bits of the SDK: two values of the type field, apart from the permissions.\<close>

definition mode_contract :: "'k sce_kernel \<Rightarrow> bool" where
  "mode_contract K \<longleftrightarrow>
     S_IFDIR K AND S_IFMT K = S_IFDIR K \<and> S_IFREG K AND S_IFMT K = S_IFREG K \<and>
     S_IFDIR K \<noteq> S_IFREG K \<and>
     S_IRUSR K AND S_IFMT K = 0 \<and> S_IWUSR K AND S_IFMT K = 0"

definition S_ISDIR :: "'k sce_kernel \<Rightarrow> u32 \<Rightarrow> bool" where
  "S_ISDIR K m \<longleftrightarrow> m AND S_IFMT K = S_IFDIR K"

definition S_ISREG :: "'k sce_kernel \<Rightarrow> u32 \<Rightarrow> bool" where
  "S_ISREG K m \<longleftrightarrow> m AND S_IFMT K = S_IFREG K"

section \<open>Typed access\<close>

text \<open>Reading through NULL, a freed block or a block of another type is a fault.\<close>

definition fs_of :: "dheap \<Rightarrow> addr \<Rightarrow> FapsDmassFs option" where
  "fs_of h p = (if p = NULL then None else case h p of Some (FsObj e) \<Rightarrow> Some e | _ \<Rightarrow> None)"

definition fsx_of :: "dheap \<Rightarrow> addr \<Rightarrow> FapsDmassFsX option" where
  "fsx_of h p = (if p = NULL then None else case h p of Some (FsXObj x) \<Rightarrow> Some x | _ \<Rightarrow> None)"

definition proc_of :: "dheap \<Rightarrow> addr \<Rightarrow> FapsDmassProcessContext option" where
  "proc_of h p = (if p = NULL then None else case h p of Some (ProcObj c) \<Rightarrow> Some c | _ \<Rightarrow> None)"

definition str_of :: "dheap \<Rightarrow> addr \<Rightarrow> string option" where
  "str_of h p = (if p = NULL then None else case h p of Some (Str s) \<Rightarrow> Some s | _ \<Rightarrow> None)"

definition buf_of :: "dheap \<Rightarrow> addr \<Rightarrow> u8 list option" where
  "buf_of h p = (if p = NULL then None else case h p of Some (Buf b) \<Rightarrow> Some b | _ \<Rightarrow> None)"

definition put :: "addr \<Rightarrow> hobj \<Rightarrow> 'k vfs_state \<Rightarrow> 'k vfs_state" where
  "put p x s = s\<lparr>heap := (heap s)(p \<mapsto> x)\<rparr>"

definition node_of :: "'k vfs_state \<Rightarrow> addr \<Rightarrow> SceVfsNode option" where
  "node_of s n = (if n = NULL then None else vnodes s n)"

definition put_node :: "addr \<Rightarrow> SceVfsNode \<Rightarrow> 'k vfs_state \<Rightarrow> 'k vfs_state" where
  "put_node n v s = s\<lparr>vnodes := (vnodes s)(n \<mapsto> v)\<rparr>"

definition fobj_of :: "'k vfs_state \<Rightarrow> addr \<Rightarrow> SceVfsFileObject option" where
  "fobj_of s f = (if f = NULL then None else fobjs s f)"

definition put_fobj :: "addr \<Rightarrow> SceVfsFileObject \<Rightarrow> 'k vfs_state \<Rightarrow> 'k vfs_state" where
  "put_fobj f v s = s\<lparr>fobjs := (fobjs s)(f \<mapsto> v)\<rparr>"

lemma fs_of_upd [deref]:
  "fs_of (h(p \<mapsto> x)) q =
     (if q = p \<and> p \<noteq> NULL then (case x of FsObj e \<Rightarrow> Some e | _ \<Rightarrow> None) else fs_of h q)"
  by (simp add: fs_of_def)

lemma fsx_of_upd [deref]:
  "fsx_of (h(p \<mapsto> x)) q =
     (if q = p \<and> p \<noteq> NULL then (case x of FsXObj e \<Rightarrow> Some e | _ \<Rightarrow> None) else fsx_of h q)"
  by (simp add: fsx_of_def)

lemma proc_of_upd [deref]:
  "proc_of (h(p \<mapsto> x)) q =
     (if q = p \<and> p \<noteq> NULL then (case x of ProcObj e \<Rightarrow> Some e | _ \<Rightarrow> None) else proc_of h q)"
  by (simp add: proc_of_def)

lemma str_of_upd [deref]:
  "str_of (h(p \<mapsto> x)) q =
     (if q = p \<and> p \<noteq> NULL then (case x of Str e \<Rightarrow> Some e | _ \<Rightarrow> None) else str_of h q)"
  by (simp add: str_of_def)

lemma buf_of_upd [deref]:
  "buf_of (h(p \<mapsto> x)) q =
     (if q = p \<and> p \<noteq> NULL then (case x of Buf e \<Rightarrow> Some e | _ \<Rightarrow> None) else buf_of h q)"
  by (simp add: buf_of_def)

lemma of_del [deref]:
  "fs_of (h(p := None)) q = (if q = p then None else fs_of h q)"
  "fsx_of (h(p := None)) q = (if q = p then None else fsx_of h q)"
  "proc_of (h(p := None)) q = (if q = p then None else proc_of h q)"
  "str_of (h(p := None)) q = (if q = p then None else str_of h q)"
  "buf_of (h(p := None)) q = (if q = p then None else buf_of h q)"
  by (simp_all add: fs_of_def fsx_of_def proc_of_def str_of_def buf_of_def)

lemma fs_ofD: "fs_of h p = Some e \<Longrightarrow> p \<noteq> NULL \<and> h p = Some (FsObj e)"
  by (auto simp: fs_of_def split: if_splits option.splits hobj.splits)

lemma fsx_ofD: "fsx_of h p = Some e \<Longrightarrow> p \<noteq> NULL \<and> h p = Some (FsXObj e)"
  by (auto simp: fsx_of_def split: if_splits option.splits hobj.splits)

lemma proc_ofD: "proc_of h p = Some e \<Longrightarrow> p \<noteq> NULL \<and> h p = Some (ProcObj e)"
  by (auto simp: proc_of_def split: if_splits option.splits hobj.splits)

lemma str_ofD: "str_of h p = Some e \<Longrightarrow> p \<noteq> NULL \<and> h p = Some (Str e)"
  by (auto simp: str_of_def split: if_splits option.splits hobj.splits)

lemma buf_ofD: "buf_of h p = Some e \<Longrightarrow> p \<noteq> NULL \<and> h p = Some (Buf e)"
  by (auto simp: buf_of_def split: if_splits option.splits hobj.splits)

lemma fs_not_buf: "fs_of h p = Some e \<Longrightarrow> buf_of h p = None"
  by (auto simp: buf_of_def dest: fs_ofD)

lemma fs_not_others: "fs_of h p = Some e \<Longrightarrow> fsx_of h p = None \<and> buf_of h p = None \<and> str_of h p = None"
  by (auto simp: fsx_of_def buf_of_def str_of_def dest: fs_ofD)

lemma heap_put [simp]: "heap (put p x s) = (heap s)(p \<mapsto> x)"
  and put_other [simp]: "vnodes (put p x s) = vnodes s" "fobjs (put p x s) = fobjs s"
    "pTree (put p x s) = pTree s" "kst (put p x s) = kst s"
    "test_heap_uid (put p x s) = test_heap_uid s"
    "pProcContextTop (put p x s) = pProcContextTop s"
  by (simp_all add: put_def)

lemma put_node_sel [simp]:
  "vnodes (put_node n v s) = (vnodes s)(n \<mapsto> v)" "heap (put_node n v s) = heap s"
  "fobjs (put_node n v s) = fobjs s" "pTree (put_node n v s) = pTree s"
  "kst (put_node n v s) = kst s" "test_heap_uid (put_node n v s) = test_heap_uid s"
  by (simp_all add: put_node_def)

lemma put_fobj_sel [simp]:
  "fobjs (put_fobj n v s) = (fobjs s)(n \<mapsto> v)" "heap (put_fobj n v s) = heap s"
  "vnodes (put_fobj n v s) = vnodes s" "pTree (put_fobj n v s) = pTree s"
  "kst (put_fobj n v s) = kst s" "test_heap_uid (put_fobj n v s) = test_heap_uid s"
  by (simp_all add: put_fobj_def)

lemma node_of_put [deref]:
  "node_of (put_node n v s) m = (if m = n \<and> n \<noteq> NULL then Some v else node_of s m)"
  "node_of (put p x s) m = node_of s m" "node_of (put_fobj f w s) m = node_of s m"
  by (auto simp: node_of_def)

lemma fobj_of_put [deref]:
  "fobj_of (put_fobj n v s) m = (if m = n \<and> n \<noteq> NULL then Some v else fobj_of s m)"
  "fobj_of (put p x s) m = fobj_of s m" "fobj_of (put_node f w s) m = fobj_of s m"
  by (auto simp: fobj_of_def)

end
