(* ===== verification/Dmass_Fs_Tool.thy ===== *)
theory Dmass_Fs_Tool
  imports Dmass_Types
begin

text \<open>
  \<open>kernel/SceVfsMountPoC/src/fs_tool.c\<close>: the module heap, names, directory entries, the path
  walk and the list of open handles of an entry.  \<open>ksceDebugPrintf\<close> has no effect here.
\<close>

section \<open>The module heap\<close>

definition dmass_heap_init :: "'k sce_kernel \<Rightarrow> 'k vfs_state \<Rightarrow> s32 \<times> 'k vfs_state" where
  "dmass_heap_init K s =
     (let (res, k) = k_create_heap K (kst s); s = s\<lparr>kst := k\<rparr> in
      if failed res then (res, s) else (0, s\<lparr>test_heap_uid := res\<rparr>))"

text \<open>A fresh block is raw memory until a structure is written over it.\<close>

definition dmass_malloc ::
    "'k sce_kernel \<Rightarrow> SceSize \<Rightarrow> 'k vfs_state \<Rightarrow> addr \<times> 'k vfs_state" where
  "dmass_malloc K n s =
     (let (p, k) = k_alloc K (kst s) (test_heap_uid s) (\<lambda>a. heap s a \<noteq> None) n;
          s = s\<lparr>kst := k\<rparr>
      in if p = NULL then (NULL, s) else (p, put p (Buf (k_junk K k p (unat n))) s))"

text \<open>Freeing NULL is harmless; freeing a block that is not allocated is a fault.\<close>

definition dmass_free :: "'k sce_kernel \<Rightarrow> addr \<Rightarrow> 'k vfs_state \<Rightarrow> 'k vfs_state option" where
  "dmass_free K p s =
     (if p = NULL then Some s
      else if heap s p = None then None
      else Some (s\<lparr>heap := (heap s)(p := None), kst := k_free K (kst s) p\<rparr>))"

definition set_fs_root :: "addr \<Rightarrow> 'k vfs_state \<Rightarrow> s32 \<times> 'k vfs_state" where
  "set_fs_root pEntry s = (if pTree s \<noteq> NULL then (-1, s) else (0, s\<lparr>pTree := pEntry\<rparr>))"

definition name_cpy ::
    "'k sce_kernel \<Rightarrow> string \<Rightarrow> 'k vfs_state \<Rightarrow> addr \<times> 'k vfs_state" where
  "name_cpy K str s =
     (if length str = 0 then (NULL, s)
      else let (res, s) = dmass_malloc K (word_of_nat (length str + 1)) s
           in if res = NULL then (NULL, s) else (res, put res (Str str) s))"

section \<open>The path walk\<close>

definition entry_is :: "dheap \<Rightarrow> string \<Rightarrow> addr \<Rightarrow> bool option" where
  "entry_is h cname p = do {
     e \<leftarrow> fs_of h p;
     nm \<leftarrow> str_of h (fs_name e);
     Some (memcmp_eq nm cname \<and> cstr_char nm (length cname) = CHR 0x00)
   }"

definition next_of :: "dheap \<Rightarrow> addr \<Rightarrow> addr option" where
  "next_of h p = map_option fs_next (fs_of h p)"

partial_function (option) match_sibling :: "dheap \<Rightarrow> string \<Rightarrow> addr \<Rightarrow> addr option" where
  "match_sibling h cname p =
     (if p = NULL then Some NULL
      else case entry_is h cname p of None \<Rightarrow> None
           | Some b \<Rightarrow>
               if b then Some p
               else (case next_of h p of None \<Rightarrow> None | Some q \<Rightarrow> match_sibling h cname q))"

text \<open>The suffix after the component that starts after \<open>s1\<close>: \<open>s2\<close> of the source.\<close>

definition after_component :: "string \<Rightarrow> string" where
  "after_component s1 = (case strchr (tl s1) (CHR ''/'') of Some t \<Rightarrow> t | None \<Rightarrow> [])"

lemma length_after_component: "s1 \<noteq> [] \<Longrightarrow> length (after_component s1) < length s1"
  using strchr_length [of "tl s1" "CHR ''/''"]
  by (cases s1) (auto simp: after_component_def le_imp_less_Suc split: option.splits)

lemma walk_decreases: "strchr cur c = Some s1 \<Longrightarrow> length (after_component s1) < length cur"
  using length_after_component [of s1] strchr_nonempty [of cur c s1] strchr_length [of cur c s1]
  by auto

function path_walk :: "dheap \<Rightarrow> string \<Rightarrow> addr \<Rightarrow> (s32 \<times> addr) option" where
  "path_walk h cur pTreeLoc =
     (if cur = [] then Some (0, pTreeLoc)
      else case strchr cur (CHR ''/'') of
        None \<Rightarrow> Some (-2, NULL)
      | Some s1 \<Rightarrow>
          let s2 = after_component s1;
              len = length s1 - length s2 - 1
          in if len = 0 then Some (-2, NULL)
             else (case match_sibling h (take len (tl s1)) pTreeLoc of
                None \<Rightarrow> None
              | Some p \<Rightarrow>
                  if p = NULL then Some (0x80010002, NULL)
                  else if s2 = [] then path_walk h s2 p
                  else (case fs_of h p of None \<Rightarrow> None
                        | Some e \<Rightarrow> path_walk h s2 (fs_next_dir e))))"
  by pat_completeness auto
termination
  by (relation "measure (\<lambda>(h, cur, p). length cur)") (auto intro: walk_decreases)

declare path_walk.simps [simp del]

text \<open>
  The result is the return code and, when it is 0, the value stored in \<open>*ppEntry\<close>.  A NULL
  path is \<open>None\<close>.
\<close>

definition get_fs_entry_internal ::
    "string option \<Rightarrow> 'k vfs_state \<Rightarrow> (s32 \<times> addr) option" where
  "get_fs_entry_internal path s =
     (case path of
        None \<Rightarrow> Some (-1, NULL)
      | Some p \<Rightarrow>
          if p = [] \<or> hd p \<noteq> CHR ''/'' then Some (-1, NULL)
          else path_walk (heap s) p (pTree s))"

definition get_fs_entry :: "string option \<Rightarrow> 'k vfs_state \<Rightarrow> (s32 \<times> addr) option" where
  "get_fs_entry path s = get_fs_entry_internal path s"

section \<open>Names\<close>

fun check_name_internal :: "char \<Rightarrow> string \<Rightarrow> s32" where
  "check_name_internal ch [] = 0"
| "check_name_internal ch (c # list) =
     (if ch = c then 0x80020005 else check_name_internal ch list)"

definition forbidden :: string where
  "forbidden = [CHR 0x5C, CHR ''/'', CHR '':'', CHR ''*'', CHR ''?'', CHR 0x22, CHR ''<'',
                CHR ''>'', CHR ''|'']"

fun check_name :: "string \<Rightarrow> s32" where
  "check_name [] = 0"
| "check_name (c # cs) =
     (let res = check_name_internal c forbidden in if failed res then res else check_name cs)"

section \<open>Directory entries\<close>

definition init_entry_date ::
    "'k sce_kernel \<Rightarrow> SceIoStat \<Rightarrow> 'k vfs_state \<Rightarrow> s32 \<times> SceIoStat \<times> 'k vfs_state" where
  "init_entry_date K st s =
     (let (res, tick, k) = k_rtc_tick K (kst s); s = s\<lparr>kst := k\<rparr> in
      if failed res then (res, st, s)
      else let (res, datetime) = k_rtc_convert K tick in
           if failed res then (res, st, s)
           else (0, \<lparr>st_mode = 0, st_attr = 0, st_size = 0, st_ctime = datetime,
                     st_atime = datetime, st_mtime = datetime\<rparr>, s))"

definition zero_stat :: "'k sce_kernel \<Rightarrow> SceIoStat" where
  "zero_stat K = \<lparr>st_mode = 0, st_attr = 0, st_size = 0, st_ctime = k_zero_date K,
                  st_atime = k_zero_date K, st_mtime = k_zero_date K\<rparr>"

text \<open>
  The two constructors differ in the mode only.  The copy \<open>new_name\<close> of the name only serves
  as a test; the entry gets a second copy.
\<close>

definition create_dmass_info ::
    "'k sce_kernel \<Rightarrow> u32 \<Rightarrow> string \<Rightarrow> 'k vfs_state \<Rightarrow> (addr \<times> 'k vfs_state) option" where
  "create_dmass_info K mode nm s =
     (let (pDmassFs, s) = dmass_malloc K (sizeof_fs K) s in
      if pDmassFs = NULL then Some (NULL, s)
      else let (new_name, s) = name_cpy K nm s in
        if new_name = NULL then do { s \<leftarrow> dmass_free K pDmassFs s; Some (NULL, s) }
        else let (nmp, s) = name_cpy K nm s;
                 (_, st, s) = init_entry_date K (zero_stat K) s
             in Some (pDmassFs,
                  put pDmassFs (FsObj \<lparr>fs_next = NULL, fs_next_dir = NULL, fs_pNode = NULL,
                    fs_pDmassFsX = NULL, fs_refer = 0, fs_name = nmp,
                    fs_stat = st\<lparr>st_mode := mode\<rparr>, fs_data = NULL\<rparr>) s))"

definition create_dmass_file_info ::
    "'k sce_kernel \<Rightarrow> string \<Rightarrow> 'k vfs_state \<Rightarrow> (addr \<times> 'k vfs_state) option" where
  "create_dmass_file_info K nm s =
     create_dmass_info K (S_IWUSR K OR S_IRUSR K OR S_IFREG K) nm s"

definition create_dmass_dir_info ::
    "'k sce_kernel \<Rightarrow> string \<Rightarrow> 'k vfs_state \<Rightarrow> (addr \<times> 'k vfs_state) option" where
  "create_dmass_dir_info K nm s =
     create_dmass_info K (S_IWUSR K OR S_IRUSR K OR S_IFDIR K) nm s"

definition delete_dmass_info ::
    "'k sce_kernel \<Rightarrow> addr \<Rightarrow> 'k vfs_state \<Rightarrow> (s32 \<times> 'k vfs_state) option" where
  "delete_dmass_info K p s = do {
     e \<leftarrow> fs_of (heap s) p;
     if fs_refer e \<noteq> 0 then Some (-1, s)
     else if fs_pDmassFsX e \<noteq> NULL then Some (-2, s)
     else do {
       s \<leftarrow> dmass_free K (fs_name e) s;
       let s = put p (FsObj (e\<lparr>fs_name := NULL\<rparr>)) s;
       s \<leftarrow> dmass_free K (fs_data e) s;
       let s = put p (FsObj (e\<lparr>fs_name := NULL, fs_data := NULL\<rparr>)) s;
       s \<leftarrow> dmass_free K p s;
       Some (0, s)
     }
   }"

section \<open>Open handles of an entry\<close>

definition create_dmass_ctl_data ::
    "'k sce_kernel \<Rightarrow> addr \<Rightarrow> s32 \<Rightarrow> 'k vfs_state \<Rightarrow> (addr \<times> 'k vfs_state) option" where
  "create_dmass_ctl_data K pDmassFs key s =
     (let (pObject, s) = dmass_malloc K (sizeof_fsx K) s in
      if pObject = NULL then Some (NULL, s)
      else do {
        e \<leftarrow> fs_of (heap s) pDmassFs;
        let s = put pObject (FsXObj \<lparr>fsx_next = fs_pDmassFsX e, fsx_handler_index = key,
                                     fsx_current = NULL\<rparr>) s;
        Some (pObject,
              put pDmassFs (FsObj (e\<lparr>fs_pDmassFsX := pObject, fs_refer := fs_refer e + 1\<rparr>)) s)
      })"

text \<open>A pointer to the link that leads to a handle: the head field, or a \<open>next\<close> field.\<close>

datatype ctl_link = CtlHead addr | CtlNext addr

fun read_ctl :: "dheap \<Rightarrow> ctl_link \<Rightarrow> addr option" where
  "read_ctl h (CtlHead d) = map_option fs_pDmassFsX (fs_of h d)"
| "read_ctl h (CtlNext x) = map_option fsx_next (fsx_of h x)"

fun write_ctl :: "ctl_link \<Rightarrow> addr \<Rightarrow> 'k vfs_state \<Rightarrow> 'k vfs_state option" where
  "write_ctl (CtlHead d) v s =
     map_option (\<lambda>e. put d (FsObj (e\<lparr>fs_pDmassFsX := v\<rparr>)) s) (fs_of (heap s) d)"
| "write_ctl (CtlNext x) v s =
     map_option (\<lambda>e. put x (FsXObj (e\<lparr>fsx_next := v\<rparr>)) s) (fsx_of (heap s) x)"

definition ctl_next_of :: "dheap \<Rightarrow> addr \<Rightarrow> addr option" where
  "ctl_next_of h p = map_option fsx_next (fsx_of h p)"

definition ctl_is :: "dheap \<Rightarrow> s32 \<Rightarrow> addr \<Rightarrow> bool option" where
  "ctl_is h key p = map_option (\<lambda>x. key = fsx_handler_index x) (fsx_of h p)"

partial_function (option) find_ctl_link ::
    "dheap \<Rightarrow> s32 \<Rightarrow> ctl_link \<Rightarrow> (ctl_link \<times> addr) option option" where
  "find_ctl_link h key l =
     (case read_ctl h l of None \<Rightarrow> None
      | Some p \<Rightarrow>
        if p = NULL then Some None
        else case ctl_is h key p of None \<Rightarrow> None
             | Some b \<Rightarrow> if b then Some (Some (l, p)) else find_ctl_link h key (CtlNext p))"

definition delete_dmass_ctl_data ::
    "'k sce_kernel \<Rightarrow> addr \<Rightarrow> s32 \<Rightarrow> 'k vfs_state \<Rightarrow> (s32 \<times> 'k vfs_state) option" where
  "delete_dmass_ctl_data K pDmassFs key s = do {
     r \<leftarrow> find_ctl_link (heap s) key (CtlHead pDmassFs);
     case r of
       None \<Rightarrow> Some (-2, s)
     | Some (l, pObject) \<Rightarrow> do {
         x \<leftarrow> fsx_of (heap s) pObject;
         s \<leftarrow> write_ctl l (fsx_next x) s;
         e \<leftarrow> fs_of (heap s) pDmassFs;
         let s = put pDmassFs (FsObj (e\<lparr>fs_refer := fs_refer e - 1\<rparr>)) s;
         s \<leftarrow> dmass_free K pObject s;
         Some (0, s)
       }
   }"

partial_function (option) ctl_search :: "dheap \<Rightarrow> s32 \<Rightarrow> addr \<Rightarrow> addr option" where
  "ctl_search h key p =
     (if p = NULL then Some NULL
      else case ctl_is h key p of None \<Rightarrow> None
           | Some b \<Rightarrow>
               if b then Some p
               else (case ctl_next_of h p of None \<Rightarrow> None | Some q \<Rightarrow> ctl_search h key q))"

definition search_dmass_ctl_data :: "addr \<Rightarrow> s32 \<Rightarrow> 'k vfs_state \<Rightarrow> addr option" where
  "search_dmass_ctl_data pDmassFs key s = do {
     e \<leftarrow> fs_of (heap s) pDmassFs;
     ctl_search (heap s) key (fs_pDmassFsX e)
   }"

section \<open>The loops are the generic ones\<close>

interpretation sibling: chain_search next_of entry_is match_sibling
  by unfold_locales (rule match_sibling.simps)

interpretation ctl: chain_search ctl_next_of ctl_is ctl_search
  by unfold_locales (rule ctl_search.simps)

interpretation ctl_link: link_walk ctl_next_of read_ctl CtlNext ctl_is find_ctl_link
  by unfold_locales (simp add: ctl_next_of_def, rule find_ctl_link.simps)

end
