(* ===== verification/Vop_Dir.thy ===== *)
theory Vop_Dir
  imports Dmass_Fs_Tool
begin

text \<open>
  The namespace operations of \<open>kernel/SceVfsMountPoC/src/main.c\<close>: mounting the root, lookup,
  create, remove, mkdir, rmdir, rename, and the directory streams.  A result that the source stores
  through a pointer (\<open>ppNewNode\<close>, \<open>new_node\<close>, \<open>dir\<close>) is part of the returned tuple.
\<close>

section \<open>Vnodes from the kernel\<close>

text \<open>
  \<open>ksceVfsGetNewNode(mount, mount->pVfsAddParam->pVopTable, 0, &pNode)\<close> (a NULL mount is a
  fault), \<open>ksceVfsNodeWaitEventFlag\<close> and \<open>ksceVfsFreeVnode\<close>.
\<close>

definition get_new_node ::
    "'k sce_kernel \<Rightarrow> addr \<Rightarrow> 'k vfs_state \<Rightarrow> (s32 \<times> addr \<times> 'k vfs_state) option" where
  "get_new_node K mount s =
     (if mount = NULL then None
      else let (r, p, v, k) = k_new_node K (kst s) mount (\<lambda>a. vnodes s a \<noteq> None);
               s = s\<lparr>kst := k\<rparr>
           in if failed r then Some (r, NULL, s) else Some (r, p, put_node p v s))"

definition node_wait :: "'k sce_kernel \<Rightarrow> addr \<Rightarrow> 'k vfs_state \<Rightarrow> s32 \<times> 'k vfs_state" where
  "node_wait K p s = (let (r, k) = k_node_wait K (kst s) p in (r, s\<lparr>kst := k\<rparr>))"

definition free_vnode :: "addr \<Rightarrow> 'k vfs_state \<Rightarrow> 'k vfs_state" where
  "free_vnode p s = s\<lparr>vnodes := (vnodes s)(p := None)\<rparr>"

text \<open>The sequence the operations share: get a node, wait for it, give it back on an error.\<close>

definition new_vnode ::
    "'k sce_kernel \<Rightarrow> addr \<Rightarrow> 'k vfs_state \<Rightarrow> (s32 \<times> addr \<times> 'k vfs_state) option" where
  "new_vnode K mount s = do {
     (res, p, s) \<leftarrow> get_new_node K mount s;
     if failed res then Some (res, NULL, s)
     else let (res, s) = node_wait K p s in
          if failed res then Some (res, NULL, free_vnode p s) else Some (0, p, s)
   }"

section \<open>The root\<close>

text \<open>A NULL \<open>argp\<close> is \<open>None\<close>.\<close>

definition vfs_set_root ::
    "'k sce_kernel \<Rightarrow> (addr \<times> addr) option \<Rightarrow> 'k vfs_state \<Rightarrow> (s32 \<times> 'k vfs_state) option" where
  "vfs_set_root K argp s =
     (case argp of
        None \<Rightarrow> Some (0x80010016, s)
      | Some (pMount, pNode) \<Rightarrow>
          if pMount = NULL then Some (0x80010016, s)
          else do {
            (pDmassFs, s) \<leftarrow> create_dmass_dir_info K ''md'' s;
            if pDmassFs = NULL then Some (-1, s)
            else do {
              e \<leftarrow> fs_of (heap s) pDmassFs;
              let s = put pDmassFs (FsObj (e\<lparr>fs_pNode := pNode\<rparr>)) s;
              let (_, s) = set_fs_root pDmassFs s;
              n \<leftarrow> node_of s pNode;
              Some (0, put_node pNode (n\<lparr>vn_dev_info := pDmassFs, vn_mount := pMount,
                vn_prev_node := NULL, vn_unk_60 := 0, vn_unk_64 := 0, vn_unk_74 := 1,
                vn_unk_78 := 0x1002, vn_st_size := 0, vn_st_attr := 0, vn_unk_8C := 0\<rparr>) s)
            }
          })"

section \<open>Create and mkdir\<close>

text \<open>The new entry becomes the first one of the directory \<open>dir\<close>.\<close>

definition link_first :: "addr \<Rightarrow> addr \<Rightarrow> 'k vfs_state \<Rightarrow> 'k vfs_state option" where
  "link_first dir p s = do {
     d \<leftarrow> fs_of (heap s) dir;
     e \<leftarrow> fs_of (heap s) p;
     let s = put p (FsObj (e\<lparr>fs_next := fs_next_dir d\<rparr>)) s;
     d \<leftarrow> fs_of (heap s) dir;
     Some (put dir (FsObj (d\<lparr>fs_next_dir := p\<rparr>)) s)
   }"

text \<open>
  The common end of \<open>vop_create\<close> and \<open>vop_mkdir\<close>: link the entry, get it a vnode, fill the vnode
  in.  \<open>n\<close> is the vnode \<open>parent\<close> of the directory.
\<close>

definition attach_entry ::
    "'k sce_kernel \<Rightarrow> SceVfsNode \<Rightarrow> addr \<Rightarrow> addr \<Rightarrow> u32 \<Rightarrow> u32 \<Rightarrow> 'k vfs_state \<Rightarrow>
     (s32 \<times> addr \<times> 'k vfs_state) option" where
  "attach_entry K n parent pDmassFs unk78 attr s = do {
     s \<leftarrow> link_first (vn_dev_info n) pDmassFs s;
     (res, p, s) \<leftarrow> new_vnode K (vn_mount n) s;
     if failed res then Some (res, NULL, s)
     else do {
       e \<leftarrow> fs_of (heap s) pDmassFs;
       let s = put pDmassFs (FsObj (e\<lparr>fs_pNode := p\<rparr>)) s;
       v \<leftarrow> node_of s p;
       Some (0, p, put_node p (v\<lparr>vn_mount := vn_mount n, vn_st_size := 0,
         vn_dev_info := pDmassFs, vn_prev_node := parent, vn_unk_74 := 1, vn_unk_78 := unk78,
         vn_st_attr := attr, vn_unk_8C := 0, vn_some_counter_58 := 1\<rparr>) s)
     }
   }"

definition vop_create ::
    "'k sce_kernel \<Rightarrow> string option \<Rightarrow> string \<Rightarrow> addr \<Rightarrow> 'k vfs_state \<Rightarrow>
     (s32 \<times> addr \<times> 'k vfs_state) option" where
  "vop_create K path nm pNode s = do {
     (res, _) \<leftarrow> get_fs_entry path s;
     if \<not> failed res then Some (0x80010011, NULL, s)
     else do {
       (pDmassFs, s) \<leftarrow> create_dmass_file_info K nm s;
       if pDmassFs = NULL then Some (-1, NULL, s)
       else do {
         n \<leftarrow> node_of s pNode;
         attach_entry K n pNode pDmassFs (S_IXUSR K OR S_IWUSR K OR S_IRUSR K)
           (SO_IXOTH K OR SO_IWOTH K OR SO_IROTH K) s
       }
     }
   }"

definition vop_mkdir ::
    "'k sce_kernel \<Rightarrow> string option \<Rightarrow> string \<Rightarrow> addr \<Rightarrow> 'k vfs_state \<Rightarrow>
     (s32 \<times> addr \<times> 'k vfs_state) option" where
  "vop_mkdir K path nm node s = do {
     n \<leftarrow> node_of s node;
     d \<leftarrow> fs_of (heap s) (vn_dev_info n);
     if \<not> S_ISDIR K (st_mode (fs_stat d)) then Some (0x80010014, NULL, s)
     else do {
       (res, _) \<leftarrow> get_fs_entry path s;
       if \<not> failed res then Some (0x80010011, NULL, s)
       else do {
         (pDmassFs, s) \<leftarrow> create_dmass_dir_info K nm s;
         if pDmassFs = NULL then Some (-1, NULL, s)
         else attach_entry K n node pDmassFs (S_IWUSR K)
                (SO_IXOTH K OR SO_IWOTH K OR SO_IROTH K OR SO_IFDIR K) s
       }
     }
   }"

section \<open>Lookup\<close>

definition vop_part_init ::
    "'k sce_kernel \<Rightarrow> string option \<Rightarrow> string \<Rightarrow> addr \<Rightarrow> 'k vfs_state \<Rightarrow>
     (s32 \<times> addr \<times> 'k vfs_state) option" where
  "vop_part_init K path nm node s =
     (let res = check_name nm in
      if res = 0x80020005 then Some (0x80010002, NULL, s)
      else if failed res then Some (res, NULL, s)
      else do {
        n \<leftarrow> node_of s node;
        if vn_mount n = NULL then Some (0x80010016, NULL, s)
        else do {
          (res, pEntry) \<leftarrow> get_fs_entry path s;
          if failed res then Some (res, NULL, s)
          else do {
            (res, p, s) \<leftarrow> new_vnode K (vn_mount n) s;
            if failed res then Some (res, NULL, s)
            else do {
              e \<leftarrow> fs_of (heap s) pEntry;
              let s = put pEntry (FsObj (e\<lparr>fs_pNode := p\<rparr>)) s;
              v \<leftarrow> node_of s p;
              n \<leftarrow> node_of s node;
              Some (0, p, put_node p (v\<lparr>vn_dev_info := pEntry, vn_mount := vn_mount n,
                vn_prev_node := node, vn_unk_74 := 1, vn_st_attr := st_attr (fs_stat e),
                vn_st_size := st_size (fs_stat e), vn_unk_8C := 0, vn_some_counter_58 := 1,
                vn_unk_78 := (if S_ISDIR K (st_mode (fs_stat e)) then S_IWUSR K else S_IXUSR K)\<rparr>) s)
            }
          }
        }
      })"

section \<open>Links to an entry\<close>

text \<open>\<open>FapsDmassFs **\<close>: the \<open>next_dir\<close> field of a directory or the \<open>next\<close> field of an entry.\<close>

datatype dir_link = DirHead addr | SibNext addr

fun read_dir :: "dheap \<Rightarrow> dir_link \<Rightarrow> addr option" where
  "read_dir h (DirHead d) = map_option fs_next_dir (fs_of h d)"
| "read_dir h (SibNext e) = map_option fs_next (fs_of h e)"

fun write_dir :: "dir_link \<Rightarrow> addr \<Rightarrow> 'k vfs_state \<Rightarrow> 'k vfs_state option" where
  "write_dir (DirHead d) v s =
     map_option (\<lambda>e. put d (FsObj (e\<lparr>fs_next_dir := v\<rparr>)) s) (fs_of (heap s) d)"
| "write_dir (SibNext p) v s =
     map_option (\<lambda>e. put p (FsObj (e\<lparr>fs_next := v\<rparr>)) s) (fs_of (heap s) p)"

partial_function (option) find_dir_link ::
    "dheap \<Rightarrow> addr \<Rightarrow> dir_link \<Rightarrow> (dir_link \<times> addr) option option" where
  "find_dir_link h target l =
     (case read_dir h l of None \<Rightarrow> None
      | Some p \<Rightarrow>
        if p = NULL then Some None
        else case Some (target = p) of None \<Rightarrow> None
             | Some b \<Rightarrow> if b then Some (Some (l, p)) else find_dir_link h target (SibNext p))"

interpretation dir: link_walk next_of read_dir SibNext "\<lambda>_ t p. Some (t = p)" find_dir_link
  by unfold_locales (simp add: next_of_def, rule find_dir_link.simps)

text \<open>\<open>*ppFsInfo = (*ppFsInfo)->next\<close>\<close>

definition unlink_dir :: "dir_link \<Rightarrow> addr \<Rightarrow> 'k vfs_state \<Rightarrow> 'k vfs_state option" where
  "unlink_dir l p s = do { e \<leftarrow> fs_of (heap s) p; write_dir l (fs_next e) s }"

section \<open>Remove and rmdir\<close>

text \<open>The loop of both: find the entry among those of the directory, unlink and delete it.\<close>

definition unlink_and_delete ::
    "'k sce_kernel \<Rightarrow> addr \<Rightarrow> addr \<Rightarrow> 'k vfs_state \<Rightarrow> (s32 \<times> 'k vfs_state) option" where
  "unlink_and_delete K dir pEntry s = do {
     r \<leftarrow> find_dir_link (heap s) pEntry (DirHead dir);
     case r of
       None \<Rightarrow> Some (0x80010002, s)
     | Some (l, p) \<Rightarrow> do {
         s \<leftarrow> unlink_dir l p s;
         delete_dmass_info K pEntry s
       }
   }"

definition vop_remove ::
    "'k sce_kernel \<Rightarrow> string option \<Rightarrow> addr \<Rightarrow> 'k vfs_state \<Rightarrow> (s32 \<times> 'k vfs_state) option" where
  "vop_remove K path node s = do {
     (res, pEntry) \<leftarrow> get_fs_entry path s;
     if failed res then Some (0x80010002, s)
     else do {
       e \<leftarrow> fs_of (heap s) pEntry;
       if \<not> S_ISREG K (st_mode (fs_stat e)) then Some (-1, s)
       else do {
         n \<leftarrow> node_of s node;
         unlink_and_delete K (vn_dev_info n) pEntry s
       }
     }
   }"

definition vop_rmdir ::
    "'k sce_kernel \<Rightarrow> string option \<Rightarrow> addr \<Rightarrow> 'k vfs_state \<Rightarrow> (s32 \<times> 'k vfs_state) option" where
  "vop_rmdir K path node s = do {
     (res, pEntry) \<leftarrow> get_fs_entry path s;
     if failed res then Some (res, s)
     else do {
       e \<leftarrow> fs_of (heap s) pEntry;
       if fs_next_dir e \<noteq> NULL then Some (0x80010011, s)
       else if \<not> S_ISDIR K (st_mode (fs_stat e)) then Some (0x80010014, s)
       else do {
         n \<leftarrow> node_of s node;
         unlink_and_delete K (vn_dev_info n) pEntry s
       }
     }
   }"

section \<open>Rename\<close>

text \<open>\<open>node\<close> is the old directory, \<open>node3\<close> the new one.\<close>

definition vop_rename ::
    "'k sce_kernel \<Rightarrow> string option \<Rightarrow> string \<Rightarrow> addr \<Rightarrow> addr \<Rightarrow> addr \<Rightarrow> 'k vfs_state \<Rightarrow>
     (s32 \<times> addr \<times> 'k vfs_state) option" where
  "vop_rename K old_path new_name node node2 node3 s = do {
     n \<leftarrow> node_of s node;
     n2 \<leftarrow> node_of s node2;
     if vn_mount n \<noteq> vn_mount n2 then Some (0x80010001, NULL, s)
     else do {
       (res, pEntryOld) \<leftarrow> get_fs_entry old_path s;
       if failed res then Some (res, NULL, s)
       else do {
         r \<leftarrow> find_dir_link (heap s) pEntryOld (DirHead (vn_dev_info n));
         case r of
           None \<Rightarrow> Some (0x80010002, NULL, s)
         | Some (l, p) \<Rightarrow> do {
             (res, pNode, s) \<leftarrow> new_vnode K (vn_mount n) s;
             if failed res then Some (res, NULL, s)
             else do {
               s \<leftarrow> unlink_dir l p s;
               n3 \<leftarrow> node_of s node3;
               s \<leftarrow> link_first (vn_dev_info n3) pEntryOld s;
               e \<leftarrow> fs_of (heap s) pEntryOld;
               s \<leftarrow> dmass_free K (fs_name e) s;
               let (nmp, s) = name_cpy K new_name s;
               e \<leftarrow> fs_of (heap s) pEntryOld;
               let s = put pEntryOld (FsObj (e\<lparr>fs_name := nmp\<rparr>)) s;
               w \<leftarrow> node_of s (fs_pNode e);
               v \<leftarrow> node_of s pNode;
               let s = put_node pNode (v\<lparr>vn_mount := vn_mount w, vn_st_size := vn_st_size w,
                 vn_dev_info := pEntryOld, vn_prev_node := fs_pNode e, vn_unk_74 := 1,
                 vn_unk_78 := vn_unk_78 w, vn_st_attr := vn_st_attr w, vn_unk_8C := vn_unk_8C w,
                 vn_some_counter_58 := 1\<rparr>) s;
               Some (0, pNode, put pEntryOld (FsObj (e\<lparr>fs_name := nmp, fs_pNode := pNode\<rparr>)) s)
             }
           }
       }
     }
   }"

section \<open>Directory streams\<close>

definition vop_dopen ::
    "'k sce_kernel \<Rightarrow> addr \<Rightarrow> addr \<Rightarrow> 'k vfs_state \<Rightarrow> (s32 \<times> 'k vfs_state) option" where
  "vop_dopen K node fo s = do {
     n \<leftarrow> node_of s node;
     let pEntry = vn_dev_info n;
     if pEntry = NULL then Some (-1, s)
     else do {
       (pObject, s) \<leftarrow> create_dmass_ctl_data K pEntry fo s;
       if pObject = NULL then Some (0x80010016, s)
       else do {
         e \<leftarrow> fs_of (heap s) pEntry;
         x \<leftarrow> fsx_of (heap s) pObject;
         Some (0, put pObject (FsXObj (x\<lparr>fsx_current := fs_next_dir e\<rparr>)) s)
       }
     }
   }"

definition vop_dclose ::
    "'k sce_kernel \<Rightarrow> addr \<Rightarrow> addr \<Rightarrow> 'k vfs_state \<Rightarrow> (s32 \<times> 'k vfs_state) option" where
  "vop_dclose K node fo s = do {
     n \<leftarrow> node_of s node;
     let pEntry = vn_dev_info n;
     if pEntry = NULL then Some (-1, s)
     else do {
       pObject \<leftarrow> search_dmass_ctl_data pEntry fo s;
       if pObject = NULL then Some (0x80010016, s)
       else do {
         (res, s) \<leftarrow> delete_dmass_ctl_data K pEntry fo s;
         if failed res then Some (0x80010016, s) else Some (0, s)
       }
     }
   }"

text \<open>
  \<open>vop_dread\<close> fills \<open>d_name\<close> with at most 255 characters of the name, and \<open>d_stat\<close>.
\<close>

definition vop_dread ::
    "addr \<Rightarrow> addr \<Rightarrow> 'k vfs_state \<Rightarrow> (s32 \<times> (string \<times> SceIoStat) option \<times> 'k vfs_state) option" where
  "vop_dread node fo s = do {
     n \<leftarrow> node_of s node;
     let pEntry = vn_dev_info n;
     if pEntry = NULL then Some (-1, None, s)
     else do {
       pObject \<leftarrow> search_dmass_ctl_data pEntry fo s;
       if pObject = NULL then Some (0x80010016, None, s)
       else do {
         x \<leftarrow> fsx_of (heap s) pObject;
         if fsx_current x = NULL then Some (0, None, s)
         else do {
           c \<leftarrow> fs_of (heap s) (fsx_current x);
           nm \<leftarrow> str_of (heap s) (fs_name c);
           Some (1, Some (take 0xFF nm, fs_stat c),
                 put pObject (FsXObj (x\<lparr>fsx_current := fs_next c\<rparr>)) s)
         }
       }
     }
   }"

end
