(* ===== verification/Namespace.thy ===== *)
theory Namespace
  imports Dmass_Fs_Tool
begin

text \<open>
  The abstract name space: a forest of named nodes, each at the address of its entry.  \<open>forest\<close>
  relates it to the pointers of the heap, \<open>resolve\<close> is the meaning of a path, \<open>add_kid\<close> and
  \<open>del_kid\<close> are what the operations do to it.
\<close>

section \<open>Trees\<close>

datatype dtree = DNode (d_addr: addr) (d_name: string) (d_kids: "dtree list")

fun addrs :: "dtree list \<Rightarrow> addr list" where
  "addrs [] = []"
| "addrs (DNode a nm ks # ts) = a # addrs ks @ addrs ts"

fun resolve :: "dtree list \<Rightarrow> string list \<Rightarrow> dtree option" where
  "resolve ts [] = None"
| "resolve ts (c # cs) =
     (case find (\<lambda>t. d_name t = c) ts of
        None \<Rightarrow> None
      | Some t \<Rightarrow> if cs = [] then Some t else resolve (d_kids t) cs)"

fun add_kid :: "addr \<Rightarrow> dtree \<Rightarrow> dtree list \<Rightarrow> dtree list" where
  "add_kid d t [] = []"
| "add_kid d t (DNode a nm ks # ts) =
     DNode a nm (if a = d then t # ks else add_kid d t ks) # add_kid d t ts"

fun del_kid :: "addr \<Rightarrow> addr \<Rightarrow> dtree list \<Rightarrow> dtree list" where
  "del_kid d b [] = []"
| "del_kid d b (DNode a nm ks # ts) =
     DNode a nm (if a = d then filter (\<lambda>t. d_addr t \<noteq> b) ks else del_kid d b ks) # del_kid d b ts"

fun subtrees :: "dtree list \<Rightarrow> dtree set" where
  "subtrees [] = {}"
| "subtrees (DNode a nm ks # ts) = insert (DNode a nm ks) (subtrees ks \<union> subtrees ts)"

lemma addrs_append [simp]: "addrs (xs @ ys) = addrs xs @ addrs ys"
  by (induction xs rule: addrs.induct) auto

lemma set_addrs: "set (addrs ts) = d_addr ` subtrees ts"
  by (induction ts rule: addrs.induct) auto

lemma roots_subtrees: "t \<in> set ts \<Longrightarrow> t \<in> subtrees ts"
  by (induction ts rule: addrs.induct) auto

lemma roots_addrs: "t \<in> set ts \<Longrightarrow> d_addr t \<in> set (addrs ts)"
  using roots_subtrees set_addrs by auto

lemma kids_subtrees: "DNode a nm ks \<in> subtrees ts \<Longrightarrow> subtrees ks \<subseteq> subtrees ts"
proof (induction ts rule: subtrees.induct)
  case (2 b nmb kb ts)
  then show ?case by (auto 0 3)
qed simp

lemma subtree_unique:
  "distinct (addrs ts) \<Longrightarrow> t \<in> subtrees ts \<Longrightarrow> t' \<in> subtrees ts \<Longrightarrow> d_addr t = d_addr t' \<Longrightarrow> t = t'"
proof (induction ts rule: addrs.induct)
  case (2 a nm ks ts)
  have "d_addr x \<in> set (addrs ks)" if "x \<in> subtrees ks" for x using that by (simp add: set_addrs)
  moreover have "d_addr x \<in> set (addrs ts)" if "x \<in> subtrees ts" for x using that by (simp add: set_addrs)
  ultimately show ?case using 2 by (auto; metis dtree.sel(1) disjoint_iff)
qed simp

lemma resolve_subtree: "resolve ts cs = Some t \<Longrightarrow> t \<in> subtrees ts"
proof (induction ts cs rule: resolve.induct)
  case (2 ts c cs)
  then obtain u where u: "find (\<lambda>t. d_name t = c) ts = Some u" by (auto split: option.splits)
  then have us: "u \<in> subtrees ts" by (auto simp: find_Some_iff intro!: roots_subtrees)
  show ?case
  proof (cases "cs = []")
    case False
    then have "t \<in> subtrees (d_kids u)" using 2 u by auto
    then show ?thesis using us kids_subtrees [of "d_addr u" "d_name u" "d_kids u" ts] by auto
  qed (use 2 u us in auto)
qed simp

lemma add_kid_other: "d \<notin> set (addrs ts) \<Longrightarrow> add_kid d t ts = ts"
  by (induction ts rule: addrs.induct) auto

lemma del_kid_other: "d \<notin> set (addrs ts) \<Longrightarrow> del_kid d b ts = ts"
  by (induction ts rule: addrs.induct) auto

lemma add_kid_map: "add_kid d t ts =
   map (\<lambda>u. DNode (d_addr u) (d_name u) (if d_addr u = d then t # d_kids u else add_kid d t (d_kids u))) ts"
  by (induction ts rule: addrs.induct) auto

lemma set_addrs_add_kid:
  "d \<in> set (addrs ts) \<Longrightarrow> set (addrs (add_kid d t ts)) = set (addrs [t]) \<union> set (addrs ts)"
proof (induction ts rule: addrs.induct)
  case (2 a nm ks ts)
  then show ?case
    by (cases "d \<in> set (addrs ks)"; cases "d \<in> set (addrs ts)"; cases t)
      (auto simp: add_kid_other)
qed simp

lemma distinct_add_kid:
  assumes "distinct (addrs ts)" "distinct (addrs [t])" "set (addrs [t]) \<inter> set (addrs ts) = {}"
  shows "distinct (addrs (add_kid d t ts))"
proof (cases "d \<in> set (addrs ts)")
  case True
  then show ?thesis using assms
  proof (induction ts rule: addrs.induct)
    case (2 a nm ks ts)
    obtain b nmb kb where t: "t = DNode b nmb kb" by (cases t)
    have k: "set (addrs (add_kid d t us)) = set (addrs [t]) \<union> set (addrs us)" if "d \<in> set (addrs us)" for us
      using set_addrs_add_kid [OF that] .
    show ?case
    proof (cases "a = d")
      case True
      then show ?thesis using 2 t by (auto simp: add_kid_other)
    next
      case False
      then show ?thesis using 2 t k
        by (cases "d \<in> set (addrs ks)"; cases "d \<in> set (addrs ts)") (auto simp: add_kid_other)
    qed
  qed simp
qed (use assms in \<open>simp add: add_kid_other\<close>)

text \<open>A path to the directory followed by the new name leads to the new node.\<close>

lemma resolve_add_kid:
  assumes "resolve ts cs = Some u" "distinct (addrs ts)"
  shows "resolve (add_kid (d_addr u) t ts) (cs @ [d_name t]) = Some t"
  using assms
proof (induction ts cs rule: resolve.induct)
  case (2 ts c cs)
  then obtain w where w: "find (\<lambda>t. d_name t = c) ts = Some w" by (auto split: option.splits)
  let ?f = "\<lambda>u'. DNode (d_addr u') (d_name u')
     (if d_addr u' = d_addr u then t # d_kids u' else add_kid (d_addr u) t (d_kids u'))"
  have fd: "find (\<lambda>t. d_name t = c) (add_kid (d_addr u) t ts) = Some (?f w)"
  proof -
    have "find (\<lambda>t. d_name t = c) (map ?f us) = map_option ?f (find (\<lambda>t. d_name t = c) us)" for us
      by (induction us) auto
    then show ?thesis using w by (simp add: add_kid_map [of _ _ ts])
  qed
  have ws: "w \<in> subtrees ts" using w by (auto simp: find_Some_iff intro!: roots_subtrees)
  show ?case
  proof (cases "cs = []")
    case True
    then have "u = w" using 2 w by simp
    then show ?thesis using fd True by simp
  next
    case False
    then have r: "resolve (d_kids w) cs = Some u" using 2 w by simp
    have dk: "distinct (addrs (d_kids w)) \<and> d_addr w \<notin> set (addrs (d_kids w))"
      using ws 2(3)
      by (induction ts rule: addrs.induct) auto
    have "d_addr u \<in> set (addrs (d_kids w))" using resolve_subtree [OF r] by (simp add: set_addrs)
    then have "d_addr u \<noteq> d_addr w" using dk by auto
    then show ?thesis using fd False 2(1) [OF w False r] dk by simp
  qed
qed simp

section \<open>Forests in the heap\<close>

text \<open>What the name space depends on: \<open>next\<close>, \<open>next_dir\<close> and the name of each entry.\<close>

type_synonym dview = "addr \<Rightarrow> (addr \<times> addr \<times> string) option"

definition dview :: "dheap \<Rightarrow> dview" where
  "dview h a = (case fs_of h a of None \<Rightarrow> None
     | Some e \<Rightarrow> (case str_of h (fs_name e) of None \<Rightarrow> None
        | Some nm \<Rightarrow> Some (fs_next e, fs_next_dir e, nm)))"

fun forest :: "dview \<Rightarrow> addr \<Rightarrow> dtree list \<Rightarrow> bool" where
  "forest v p [] \<longleftrightarrow> p = NULL"
| "forest v p (DNode a nm ks # ts) \<longleftrightarrow>
     p = a \<and> a \<noteq> NULL \<and> CHR 0x00 \<notin> set nm \<and>
     (\<exists>nx nd. v a = Some (nx, nd, nm) \<and> forest v nd ks \<and> forest v nx ts)"

text \<open>The name space of the mounted file system: a forest, whose entries do not share names.\<close>

definition name_of :: "dheap \<Rightarrow> addr \<Rightarrow> addr option" where
  "name_of h a = map_option fs_name (fs_of h a)"

definition names_owned :: "dheap \<Rightarrow> addr set \<Rightarrow> bool" where
  "names_owned h A \<longleftrightarrow> (\<forall>x \<in> A. \<forall>y \<in> A. name_of h x \<noteq> None \<longrightarrow> name_of h x = name_of h y \<longrightarrow> x = y)"

lemma names_owned_cong: "(\<And>a. a \<in> A \<Longrightarrow> name_of h a = name_of h' a) \<Longrightarrow> names_owned h A = names_owned h' A"
  by (simp add: names_owned_def)

lemma names_ownedD:
  "names_owned h A \<Longrightarrow> x \<in> A \<Longrightarrow> y \<in> A \<Longrightarrow> name_of h x = Some n \<Longrightarrow> name_of h y = Some n \<Longrightarrow> x = y"
  by (simp add: names_owned_def)

lemma names_owned_mono: "names_owned h A \<Longrightarrow> B \<subseteq> A \<Longrightarrow> names_owned h B"
  unfolding names_owned_def by blast

lemma names_owned_insert:
  assumes "names_owned h A" "\<forall>x \<in> A. name_of h' x = name_of h x \<and> name_of h x \<noteq> name_of h' p"
  shows "names_owned h' (insert p A)"
  unfolding names_owned_def
proof (intro ballI impI)
  fix x y assume *: "x \<in> insert p A" "y \<in> insert p A" "name_of h' x \<noteq> None" "name_of h' x = name_of h' y"
  show "x = y"
  proof (cases "x = p \<or> y = p")
    case True
    then show ?thesis using * assms(2) by fastforce
  next
    case False
    then have "x \<in> A" "y \<in> A" using * by auto
    then show ?thesis using * assms by (metis names_owned_def)
  qed
qed

definition ns :: "'k vfs_state \<Rightarrow> dtree list \<Rightarrow> bool" where
  "ns s ts \<longleftrightarrow> forest (dview (heap s)) (pTree s) ts \<and> distinct (addrs ts) \<and>
     names_owned (heap s) (set (addrs ts))"

lemma forest_cong:
  "(\<And>a. a \<in> set (addrs ts) \<Longrightarrow> v a = v' a) \<Longrightarrow> forest v p ts = forest v' p ts"
  by (induction ts arbitrary: p rule: addrs.induct) auto

lemma forest_upd_other [simp]: "a \<notin> set (addrs ts) \<Longrightarrow> forest (v(a := x)) p ts = forest v p ts"
  by (rule forest_cong) auto

lemma forest_if_other [simp]:
  "a \<notin> set (addrs ts) \<Longrightarrow> forest (\<lambda>b. if b = a then x else v b) p ts = forest v p ts"
  using forest_upd_other unfolding fun_upd_def .

lemma forest_subtree:
  "forest v p ts \<Longrightarrow> DNode a nm ks \<in> subtrees ts \<Longrightarrow>
   \<exists>nx nd. v a = Some (nx, nd, nm) \<and> forest v nd ks \<and> a \<noteq> NULL \<and> CHR 0x00 \<notin> set nm"
  by (induction ts arbitrary: p rule: addrs.induct) auto

lemma forest_dview_Some: "forest v p ts \<Longrightarrow> a \<in> set (addrs ts) \<Longrightarrow> \<exists>x. v a = Some x"
  by (induction ts arbitrary: p rule: addrs.induct) auto

lemma forest_chain: "forest v p ts \<Longrightarrow> chain (\<lambda>a. map_option fst (v a)) p (map d_addr ts)"
  by (induction ts arbitrary: p rule: addrs.induct) auto

lemma forest_add_node:
  assumes "forest v p ts" "distinct (addrs ts)" "d \<in> set (addrs ts)" "v d = Some (nx, nd, nm)"
    and "b \<notin> set (addrs ts)" "b \<noteq> NULL" "v b = Some (nd, ndb, nmb)" "CHR 0x00 \<notin> set nmb"
    and "forest v ndb kb" "d \<notin> set (addrs kb)"
  shows "forest (v(d := Some (nx, b, nm))) p (add_kid d (DNode b nmb kb) ts)"
  using assms(1-5)
proof (induction ts arbitrary: p rule: addrs.induct)
  case (2 a nma ks ts)
  then obtain nxa nda where v: "v a = Some (nxa, nda, nma)" "forest v nda ks" "forest v nxa ts"
    and a: "a \<noteq> NULL" "p = a" "CHR 0x00 \<notin> set nma" by auto
  have bd: "b \<noteq> d" using 2 by auto
  show ?case
  proof (cases "a = d")
    case True
    then show ?thesis using 2 v a assms(6-10) bd by (auto simp: add_kid_other)
  next
    case False
    show ?thesis
    proof (cases "d \<in> set (addrs ks)")
      case True
      then have "d \<notin> set (addrs ts)" using 2(4) by auto
      then show ?thesis using 2(1) [OF v(2)] 2(4-7) v a False True by (auto simp: add_kid_other)
    next
      case nk: False
      then show ?thesis using 2(2) [OF v(3)] 2(4-7) v a False by (auto simp: add_kid_other)
    qed
  qed
qed simp

lemma forest_add_kid:
  assumes "forest v p ts" "distinct (addrs ts)" "d \<in> set (addrs ts)" "v d = Some (nx, nd, nm)"
    and "b \<notin> set (addrs ts)" "b \<noteq> NULL" "v b = Some (nd, NULL, nmb)" "CHR 0x00 \<notin> set nmb"
  shows "forest (v(d := Some (nx, b, nm))) p (add_kid d (DNode b nmb []) ts)"
  using forest_add_node [OF assms, of "[]"] by simp

text \<open>Unlinking one of the siblings.\<close>

lemma forest_unlink:
  assumes "forest v p (pre @ DNode a nm ks # post)" "distinct (addrs (pre @ DNode a nm ks # post))"
    and "v a = Some (nx, nd, nm)"
  shows "pre = [] \<Longrightarrow> p = a \<and> forest v nx post"
    and "pre \<noteq> [] \<Longrightarrow> v (d_addr (last pre)) = Some (q, ndl, nml) \<Longrightarrow>
       q = a \<and> forest (v(d_addr (last pre) := Some (nx, ndl, nml))) p (pre @ post)"
proof -
  show "pre = [] \<Longrightarrow> p = a \<and> forest v nx post" using assms by auto
  show "pre \<noteq> [] \<Longrightarrow> v (d_addr (last pre)) = Some (q, ndl, nml) \<Longrightarrow>
       q = a \<and> forest (v(d_addr (last pre) := Some (nx, ndl, nml))) p (pre @ post)"
    using assms
  proof (induction pre arbitrary: p)
    case (Cons t pre)
    obtain b nmb kb where t: "t = DNode b nmb kb" by (cases t)
    show ?case
    proof (cases "pre = []")
      case True
      then show ?thesis using Cons t by auto
    next
      case False
      have l: "d_addr (last pre) \<in> set (addrs pre)" using False by (intro roots_addrs) simp
      then have nb: "d_addr (last pre) \<noteq> b" "d_addr (last pre) \<notin> set (addrs kb)"
        using Cons.prems(4) t by auto
      from Cons.prems(3) t obtain nxb ndb where f: "v b = Some (nxb, ndb, nmb)" "forest v ndb kb"
        "forest v nxb (pre @ DNode a nm ks # post)" "b \<noteq> NULL" "p = b" "CHR 0x00 \<notin> set nmb" by auto
      have lv: "v (d_addr (last pre)) = Some (q, ndl, nml)" using Cons.prems(2) False by simp
      have dp: "distinct (addrs (pre @ DNode a nm ks # post))" using Cons.prems(4) t by simp
      define v' where "v' = v(d_addr (last pre) := Some (nx, ndl, nml))"
      have q: "q = a" "forest v' nxb (pre @ post)"
        using Cons.IH [OF False lv f(3) dp Cons.prems(5)] unfolding v'_def by blast+
      have "v' b = v b" "forest v' ndb kb" using nb f(2) by (simp_all add: v'_def)
      then have "forest v' p ((t # pre) @ post)" using f q(2) t by simp
      moreover have "last (t # pre) = last pre" using False by simp
      ultimately show ?thesis using q(1) unfolding v'_def by presburger
    qed
  qed simp
qed

text \<open>Replacing the children of one node.\<close>

fun set_kids :: "addr \<Rightarrow> dtree list \<Rightarrow> dtree list \<Rightarrow> dtree list" where
  "set_kids d ks' [] = []"
| "set_kids d ks' (DNode a nm ks # ts) =
     DNode a nm (if a = d then ks' else set_kids d ks' ks) # set_kids d ks' ts"

lemma set_kids_other: "d \<notin> set (addrs ts) \<Longrightarrow> set_kids d ks' ts = ts"
  by (induction ts rule: addrs.induct) auto

lemma subtree_addr: "DNode d nm ks \<in> subtrees ts \<Longrightarrow> d \<in> set (addrs ts)"
  by (force simp: set_addrs)

lemma kids_addrs: "DNode d nm ks \<in> subtrees ts \<Longrightarrow> set (addrs ks) \<subseteq> set (addrs ts)"
  using kids_subtrees [of d nm ks ts] unfolding set_addrs by blast

lemma forest_set_kids:
  assumes "forest v p ts" "distinct (addrs ts)" "DNode d nm ks \<in> subtrees ts"
    and "\<And>x. x \<in> set (addrs ts) \<Longrightarrow> x \<noteq> d \<Longrightarrow> x \<notin> set (addrs ks) \<Longrightarrow> v' x = v x"
    and "v d = Some (nx, nd, nm)" "v' d = Some (nx, nd', nm)" "forest v' nd' ks'"
  shows "forest v' p (set_kids d ks' ts)"
  using assms(1-4)
proof (induction ts arbitrary: p rule: addrs.induct)
  case (2 a nma ka ts)
  then obtain nxa nda where v: "v a = Some (nxa, nda, nma)" "forest v nda ka" "forest v nxa ts"
    and a: "a \<noteq> NULL" "p = a" "CHR 0x00 \<notin> set nma" by auto
  have same: "forest v' q us = forest v q us"
    if "set (addrs us) \<subseteq> set (addrs (DNode a nma ka # ts))" "d \<notin> set (addrs us)"
      "set (addrs us) \<inter> set (addrs ks) = {}" for q us
    using that 2(6) by (intro forest_cong) blast
  show ?case
  proof (cases "a = d")
    case True
    then have nt: "d \<notin> set (addrs ts)" "d \<notin> set (addrs ka)" using 2(4) by auto
    then have "ka = ks" using 2(4,5) True subtree_addr by fastforce
    then have "set (addrs ts) \<inter> set (addrs ks) = {}" using 2(4) by auto
    then have "forest v' nxa ts" using same [of ts nxa] nt v(3) by auto
    then show ?thesis using True a v assms(5-7) nt by (auto simp: set_kids_other)
  next
    case False
    have va: "v' a = v a" if "a \<notin> set (addrs ks)" using that 2(6) False by simp
    show ?thesis
    proof (cases "DNode d nm ks \<in> subtrees ka")
      case True
      have k: "d \<in> set (addrs ka)" "set (addrs ks) \<subseteq> set (addrs ka)"
        using subtree_addr [OF True] kids_addrs [OF True] by auto
      then have nt: "d \<notin> set (addrs ts)" "set (addrs ts) \<inter> set (addrs ks) = {}" "a \<notin> set (addrs ks)"
        using 2(4) by auto
      have "forest v' nda (set_kids d ks' ka)" using 2(1) [OF v(2) _ True] 2(4,6) by auto
      moreover have "forest v' nxa ts" using same [of ts nxa] nt v(3) by auto
      ultimately show ?thesis using False a v va nt by (auto simp: set_kids_other)
    next
      case nk: False
      then have tt: "DNode d nm ks \<in> subtrees ts" using 2(5) False by auto
      have k: "d \<in> set (addrs ts)" "set (addrs ks) \<subseteq> set (addrs ts)"
        using subtree_addr [OF tt] kids_addrs [OF tt] by auto
      then have nt: "d \<notin> set (addrs ka)" "set (addrs ka) \<inter> set (addrs ks) = {}" "a \<notin> set (addrs ks)"
        using 2(4) by auto
      have "forest v' nxa (set_kids d ks' ts)" using 2(2) [OF v(3) _ tt] 2(4,6) by auto
      moreover have "forest v' nda ka" using same [of ka nda] nt v(2) by auto
      ultimately show ?thesis using False a v va nt by (auto simp: set_kids_other)
    qed
  qed
qed simp

lemma del_kid_set:
  "distinct (addrs ts) \<Longrightarrow> DNode d nm ks \<in> subtrees ts \<Longrightarrow>
   del_kid d b ts = set_kids d (filter (\<lambda>t. d_addr t \<noteq> b) ks) ts"
proof (induction ts rule: addrs.induct)
  case (2 a nma ka ts)
  show ?case
  proof (cases "a = d")
    case True
    then have "d \<notin> set (addrs ts)" "d \<notin> set (addrs ka)" using 2(3) by auto
    then show ?thesis using 2(4) True subtree_addr
      by (fastforce simp: set_kids_other del_kid_other)
  next
    case False
    show ?thesis
    proof (cases "DNode d nm ks \<in> subtrees ka")
      case True
      then have "d \<notin> set (addrs ts)" using 2(3) subtree_addr [OF True] by auto
      then show ?thesis using 2 True False by (simp add: set_kids_other del_kid_other)
    next
      case nk: False
      then have tt: "DNode d nm ks \<in> subtrees ts" using 2(4) False by auto
      then have "d \<notin> set (addrs ka)" using 2(3) subtree_addr [OF tt] by auto
      then show ?thesis using 2 tt False by (simp add: set_kids_other del_kid_other)
    qed
  qed
qed simp

lemma addrs_del_kid:
  "set (addrs (del_kid d b ts)) \<subseteq> set (addrs ts) \<and>
   (distinct (addrs ts) \<longrightarrow> distinct (addrs (del_kid d b ts)))"
proof (induction ts rule: addrs.induct)
  case (2 a nm ks ts)
  have f: "set (addrs (filter P ks)) \<subseteq> set (addrs ks) \<and>
      (distinct (addrs ks) \<longrightarrow> distinct (addrs (filter P ks)))" for P
    by (induction ks rule: addrs.induct) auto
  show ?case using 2 f [of "\<lambda>t. d_addr t \<noteq> b"] by (auto 4 3)
qed simp

lemma addrs_del_kid_notin:
  "distinct (addrs ts) \<Longrightarrow> DNode d nm ks \<in> subtrees ts \<Longrightarrow> a \<in> d_addr ` set ks \<Longrightarrow>
   a \<notin> set (addrs (del_kid d a ts))"
proof (induction ts rule: addrs.induct)
  case (2 x nmx kx ts)
  have ak: "a \<in> set (addrs ks)" using 2(5) roots_addrs by auto
  have sub: "set (addrs (del_kid d a us)) \<subseteq> set (addrs us)" for us using addrs_del_kid by blast
  have f: "distinct (addrs us) \<Longrightarrow> a \<in> d_addr ` set us \<Longrightarrow>
      a \<notin> set (addrs (filter (\<lambda>t. d_addr t \<noteq> a) us))" for us
  proof (induction us rule: addrs.induct)
    case (2 y nmy ky us)
    have "d_addr ` set us \<subseteq> set (addrs us)" using roots_addrs by auto
    moreover have "set (addrs (filter P us)) \<subseteq> set (addrs us)" for P
      by (induction us rule: addrs.induct) auto
    ultimately show ?case using 2 by (cases "y = a") (auto; blast)+
  qed simp
  show ?case
  proof (cases "x = d")
    case True
    then have nt: "d \<notin> set (addrs ts)" "d \<notin> set (addrs kx)" using 2(3) by auto
    then have "kx = ks" using 2(4) True subtree_addr by fastforce
    then show ?thesis using f [of ks] 2(3,5) nt ak True by (auto simp: del_kid_other)
  next
    case False
    show ?thesis
    proof (cases "DNode d nm ks \<in> subtrees kx")
      case True
      then have "set (addrs ks) \<subseteq> set (addrs kx)" by (rule kids_addrs)
      then show ?thesis using 2(1) [OF _ True 2(5)] 2(3) False ak sub [of ts] by auto
    next
      case nk: False
      then have tt: "DNode d nm ks \<in> subtrees ts" using 2(4) False by auto
      then have "set (addrs ks) \<subseteq> set (addrs ts)" by (rule kids_addrs)
      then show ?thesis using 2(2) [OF _ tt 2(5)] 2(3) False ak sub [of kx] by auto
    qed
  qed
qed simp

section \<open>The path walk computes \<open>resolve\<close>\<close>

definition good_comp :: "string \<Rightarrow> bool" where
  "good_comp c \<longleftrightarrow> c \<noteq> [] \<and> CHR ''/'' \<notin> set c \<and> CHR 0x00 \<notin> set c"

fun join_path :: "string list \<Rightarrow> string" where
  "join_path [] = []"
| "join_path (c # cs) = CHR ''/'' # c @ join_path cs"

lemma strchr_comp:
  "CHR ''/'' \<notin> set c \<Longrightarrow> strchr (c @ CHR ''/'' # r) (CHR ''/'') = Some (CHR ''/'' # r)"
  "CHR ''/'' \<notin> set c \<Longrightarrow> strchr c (CHR ''/'') = None"
  by (induction c) auto

lemma after_comp:
  assumes "CHR ''/'' \<notin> set c" "r = [] \<or> hd r = CHR ''/''"
  shows "after_component (CHR ''/'' # c @ r) = r"
  using assms by (cases r) (auto simp: after_component_def strchr_comp)

lemma dview_Some:
  "dview h a = Some (nx, nd, nm) \<longleftrightarrow>
   (\<exists>e. fs_of h a = Some e \<and> str_of h (fs_name e) = Some nm \<and> nx = fs_next e \<and> nd = fs_next_dir e)"
  by (auto simp: dview_def split: option.splits)

lemma find_map_opt: "find P (map f xs) = map_option f (find (\<lambda>x. P (f x)) xs)"
  by (induction xs) auto

lemma find_cong_in: "(\<And>x. x \<in> set xs \<Longrightarrow> P x = Q x) \<Longrightarrow> find P xs = find Q xs"
  by (induction xs) auto

lemma forest_next_chain:
  assumes f: "forest (dview h) p ts"
  shows "chain (next_of h) p (map d_addr ts)"
proof -
  have "chain (next_of h) p (map d_addr ts) = chain (\<lambda>a. map_option fst (dview h a)) p (map d_addr ts)"
  proof (rule chain_cong)
    fix a assume "a \<in> set (map d_addr ts)"
    then have "a \<in> set (addrs ts)" by (auto intro: roots_addrs)
    then obtain x where "dview h a = Some x" using forest_dview_Some [OF f] by blast
    then show "next_of h a = map_option fst (dview h a)"
      by (auto simp: next_of_def dview_def split: option.splits)
  qed
  then show ?thesis using forest_chain [OF f] by simp
qed

lemma match_forest:
  assumes f: "forest (dview h) p ts" and c: "good_comp c"
  shows "match_sibling h c p =
    Some (case find (\<lambda>t. d_name t = c) ts of None \<Rightarrow> NULL | Some t \<Rightarrow> d_addr t)"
proof -
  let ?P = "\<lambda>a. \<exists>nx nd. dview h a = Some (nx, nd, c)"
  have v: "\<exists>nx nd. dview h (d_addr t) = Some (nx, nd, d_name t) \<and> CHR 0x00 \<notin> set (d_name t)"
    if "t \<in> set ts" for t
    using forest_subtree [OF f, of "d_addr t" "d_name t" "d_kids t"] roots_subtrees [OF that] by auto
  note ch = forest_next_chain [OF f]
  have "entry_is h c a = Some (?P a)" if "a \<in> set (map d_addr ts)" for a
  proof -
    from that obtain t where t: "t \<in> set ts" "a = d_addr t" by auto
    obtain nx nd where d: "dview h a = Some (nx, nd, d_name t)" "CHR 0x00 \<notin> set (d_name t)"
      using v [OF t(1)] t(2) by auto
    then obtain e where e: "fs_of h a = Some e" "str_of h (fs_name e) = Some (d_name t)"
      by (auto simp: dview_Some)
    have "memcmp_eq (d_name t) c \<and> cstr_char (d_name t) (length c) = CHR 0x00 \<longleftrightarrow> d_name t = c"
      using c d(2) by (intro memcmp_eq_name) (auto simp: good_comp_def)
    then show ?thesis using e d(1) by (auto simp: entry_is_def)
  qed
  from sibling.search_find [OF ch this]
  have "match_sibling h c p = Some (case find ?P (map d_addr ts) of None \<Rightarrow> NULL | Some a \<Rightarrow> a)" .
  moreover have "find ?P (map d_addr ts) = map_option d_addr (find (\<lambda>t. d_name t = c) ts)"
    unfolding find_map_opt using v by (intro arg_cong [of _ _ "map_option d_addr"] find_cong_in) fastforce
  ultimately show ?thesis by (simp split: option.splits)
qed

text \<open>The walk over a prefix of good components, with what is left of the path.\<close>

lemma walk_resolve:
  assumes "forest (dview h) p ts" "cs \<noteq> []" "\<And>c. c \<in> set cs \<Longrightarrow> good_comp c"
    and "r = [] \<or> hd r = CHR ''/''"
  shows "case resolve ts cs of
      None \<Rightarrow> path_walk h (join_path cs @ r) p = Some (0x80010002, NULL)
    | Some t \<Rightarrow> if r = [] then path_walk h (join_path cs @ r) p = Some (0, d_addr t)
        else \<exists>nd. forest (dview h) nd (d_kids t) \<and> path_walk h (join_path cs @ r) p = path_walk h r nd"
  using assms(1-3)
proof (induction cs arbitrary: p ts)
  case (Cons c cs)
  let ?r = "join_path cs @ r"
  have gc: "good_comp c" using Cons.prems(3) by simp
  have r: "?r = [] \<or> hd ?r = CHR ''/''" using assms(4) by (cases cs) auto
  have len: "length (CHR ''/'' # c @ ?r) - length ?r - 1 = length c" by simp
  have ac: "after_component (CHR ''/'' # c @ ?r) = ?r"
    using gc r by (intro after_comp) (auto simp: good_comp_def)
  have W: "path_walk h (join_path (c # cs) @ r) p =
     (let q = (case find (\<lambda>t. d_name t = c) ts of None \<Rightarrow> NULL | Some t \<Rightarrow> d_addr t) in
      if q = NULL then Some (0x80010002, NULL)
      else if ?r = [] then path_walk h ?r q
      else (case fs_of h q of None \<Rightarrow> None | Some e \<Rightarrow> path_walk h ?r (fs_next_dir e)))"
    using gc match_forest [OF Cons.prems(1) gc] unfolding join_path.simps append_Cons append_assoc
    by (subst path_walk.simps) (simp add: ac good_comp_def Let_def)
  show ?case
  proof (cases "find (\<lambda>t. d_name t = c) ts")
    case None
    then show ?thesis unfolding W by simp
  next
    case (Some t)
    then have t: "t \<in> set ts" "d_name t = c" by (auto simp: find_Some_iff)
    from forest_subtree [OF Cons.prems(1), of "d_addr t" "d_name t" "d_kids t"] roots_subtrees [OF t(1)]
    obtain nx nd where d: "dview h (d_addr t) = Some (nx, nd, d_name t)"
        "forest (dview h) nd (d_kids t)" "d_addr t \<noteq> NULL" by auto
    then obtain e where e: "fs_of h (d_addr t) = Some e" "nd = fs_next_dir e" by (auto simp: dview_Some)
    have W': "path_walk h (join_path (c # cs) @ r) p =
        (if ?r = [] then path_walk h ?r (d_addr t) else path_walk h ?r nd)"
      unfolding W Some using d(3) e by (simp add: Let_def)
    show ?thesis
    proof (cases "cs = []")
      case True
      then show ?thesis using W' Some d(2) by (auto simp: path_walk.simps [of h "[]"])
    next
      case False
      then have "?r \<noteq> []" by (cases cs) auto
      then have E: "path_walk h (join_path (c # cs) @ r) p = path_walk h ?r nd" unfolding W' by (rule if_not_P)
      have R: "resolve ts (c # cs) = resolve (d_kids t) cs" using Some False by simp
      have "\<And>c. c \<in> set cs \<Longrightarrow> good_comp c" using Cons.prems(3) by simp
      then show ?thesis unfolding E R by (rule Cons.IH [OF d(2) False])
    qed
  qed
qed simp

lemma lookup_resolve:
  assumes "ns s ts" "cs \<noteq> []" "\<forall>c \<in> set cs. good_comp c"
  shows "get_fs_entry (Some (join_path cs)) s =
     Some (case resolve ts cs of None \<Rightarrow> (0x80010002, NULL) | Some t \<Rightarrow> (0, d_addr t))"
proof -
  have "join_path cs \<noteq> [] \<and> hd (join_path cs) = CHR ''/''" using assms(2) by (cases cs) auto
  then show ?thesis
    using walk_resolve [of "heap s" "pTree s" ts cs "[]"] assms
    by (simp add: get_fs_entry_def get_fs_entry_internal_def ns_def split: option.splits)
qed

text \<open>
  C10: looking up a path of good components gives the node that \<open>resolve\<close> finds, or 0x80010002 when
  there is none; the walk terminates and is memory safe.
\<close>

theorem get_fs_entry_resolve:
  assumes "ns s ts" "cs \<noteq> []" "\<forall>c \<in> set cs. good_comp c"
  shows "get_fs_entry (Some (join_path cs)) s =
     Some (case resolve ts cs of None \<Rightarrow> (0x80010002, NULL) | Some t \<Rightarrow> (0, d_addr t))"
  using assms by (rule lookup_resolve)

text \<open>
  A malformed path is refused: NULL, empty or relative with -1; one with an empty component
  after components that exist, such as a doubled or a trailing slash, with -2.
\<close>

theorem get_fs_entry_malformed:
  assumes "ns s ts"
  shows "(path = None \<or> (\<exists>p. path = Some p \<and> (p = [] \<or> hd p \<noteq> CHR ''/''))
       \<longrightarrow> get_fs_entry path s = Some (-1, NULL)) \<and>
    (\<forall>cs r t. path = Some (join_path cs @ CHR ''/'' # r) \<longrightarrow> (r = [] \<or> hd r = CHR ''/'') \<longrightarrow>
       (\<forall>c \<in> set cs. good_comp c) \<longrightarrow> resolve ts cs = Some t \<longrightarrow>
       get_fs_entry path s = Some (-2, NULL))"
proof (intro conjI allI impI)
  assume "path = None \<or> (\<exists>p. path = Some p \<and> (p = [] \<or> hd p \<noteq> CHR ''/''))"
  then show "get_fs_entry path s = Some (-1, NULL)"
    by (auto simp: get_fs_entry_def get_fs_entry_internal_def)
next
  fix cs r t
  assume a: "path = Some (join_path cs @ CHR ''/'' # r)" "r = [] \<or> hd r = CHR ''/''"
    "\<forall>c \<in> set cs. good_comp c" "resolve ts cs = Some t"
  then have cs: "cs \<noteq> []" by auto
  then have hd: "hd (join_path cs @ CHR ''/'' # r) = CHR ''/''" by (cases cs) auto
  have e: "path_walk h (CHR ''/'' # r) nd = Some (-2, NULL)" for h nd
    using after_comp [of "[]" r] a(2) by (subst path_walk.simps) auto
  show "get_fs_entry path s = Some (-2, NULL)"
    using walk_resolve [of "heap s" "pTree s" ts cs "CHR ''/'' # r"] assms a hd cs e
    by (auto simp: get_fs_entry_def get_fs_entry_internal_def ns_def)
qed

text \<open>
  A name passes exactly when it has none of the nine forbidden characters; every other
  outcome is 0x80020005.
\<close>

theorem check_name_spec:
  "check_name nm = (if set nm \<inter> {CHR 0x5C, CHR ''/'', CHR '':'', CHR ''*'', CHR ''?'', CHR 0x22,
     CHR ''<'', CHR ''>'', CHR ''|''} = {} then 0 else 0x80020005)"
proof -
  have i: "check_name_internal c l = (if c \<in> set l then 0x80020005 else 0)" for c l
    by (induction l) auto
  show ?thesis by (induction nm) (auto simp: i forbidden_def)
qed

end
