(* ===== verification/Vop_File.thy ===== *)
theory Vop_File
  imports Dmass_Fs_Tool
begin

text \<open>
  The file operations of \<open>kernel/SceVfsMountPoC/src/main.c\<close>: open, close, read, write, lseek,
  pread, pwrite.  The argument structure of an operation is passed field by field; the bytes a
  read stores into \<open>argp->data\<close> are part of its result.
\<close>

section \<open>Copying to and from blocks\<close>

text \<open>\<open>memcpy\<close> of \<open>n\<close> bytes from \<open>p + off\<close>; copying nothing touches no memory.\<close>

definition read_block :: "dheap \<Rightarrow> addr \<Rightarrow> nat \<Rightarrow> nat \<Rightarrow> u8 list option" where
  "read_block h p off n =
     (if n = 0 then Some []
      else case buf_of h p of None \<Rightarrow> None
           | Some b \<Rightarrow> if off + n \<le> length b then Some (take n (drop off b)) else None)"

definition write_block :: "addr \<Rightarrow> nat \<Rightarrow> u8 list \<Rightarrow> 'k vfs_state \<Rightarrow> 'k vfs_state option" where
  "write_block p off bs s =
     (if bs = [] then Some s
      else case buf_of (heap s) p of None \<Rightarrow> None
           | Some b \<Rightarrow> if off + length bs \<le> length b then Some (put p (Buf (overwrite off bs b)) s)
                     else None)"

text \<open>\<open>FAPS_DMASS_BLOCK_ALIGN\<close>\<close>

definition block_align :: "SceOff \<Rightarrow> SceOff" where
  "block_align v = (v + (0x200 - 1)) AND NOT (0x200 - 1)"

section \<open>Open and close\<close>

definition vop_open ::
    "'k sce_kernel \<Rightarrow> addr \<Rightarrow> addr \<Rightarrow> 'k vfs_state \<Rightarrow> (s32 \<times> 'k vfs_state) option" where
  "vop_open K node fo s = do {
     n \<leftarrow> node_of s node;
     let pEntry = vn_dev_info n;
     if pEntry = NULL then Some (-1, s)
     else do {
       (pObject, s) \<leftarrow> create_dmass_ctl_data K pEntry fo s;
       if pObject = NULL then Some (-1, s)
       else do {
         f \<leftarrow> fobj_of s fo;
         if fo_flags f AND O_APPEND K \<noteq> 0
         then do {
           e \<leftarrow> fs_of (heap s) pEntry;
           Some (0, put_fobj fo (f\<lparr>fo_offset := st_size (fs_stat e)\<rparr>) s)
         }
         else Some (0, s)
       }
     }
   }"

definition vop_close ::
    "'k sce_kernel \<Rightarrow> addr \<Rightarrow> addr \<Rightarrow> 'k vfs_state \<Rightarrow> (s32 \<times> 'k vfs_state) option" where
  "vop_close K node fo s = do {
     n \<leftarrow> node_of s node;
     let pEntry = vn_dev_info n;
     if pEntry = NULL then Some (-1, s)
     else do {
       pObject \<leftarrow> search_dmass_ctl_data pEntry fo s;
       if pObject = NULL then Some (-1, s)
       else do {
         (res, s) \<leftarrow> delete_dmass_ctl_data K pEntry fo s;
         if failed res then Some (res, s) else Some (0, s)
       }
     }
   }"

section \<open>Read and write at the current offset\<close>

definition vop_read ::
    "addr \<Rightarrow> addr \<Rightarrow> SceSize \<Rightarrow> 'k vfs_state \<Rightarrow> (s32 \<times> u8 list \<times> 'k vfs_state) option" where
  "vop_read node fo nbyte s = do {
     n \<leftarrow> node_of s node;
     f \<leftarrow> fobj_of s fo;
     let pEntry = vn_dev_info n;
     if pEntry = NULL then Some (-1, [], s)
     else do {
       pObject \<leftarrow> search_dmass_ctl_data pEntry fo s;
       if pObject = NULL then Some (-1, [], s)
       else do {
         e \<leftarrow> fs_of (heap s) pEntry;
         let size = st_size (fs_stat e);
         if 0xFFFFFFFF <s size \<or> 0xFFFFFFFF <s fo_offset f then Some (-1, [], s)
         else if node \<noteq> fo_node f then Some (-3, [], s)
         else if nbyte = 0xdeadbeef then Some (-2, [], s)
         else do {
           let remain_size = size - fo_offset f;
           if 0xFFFFFFFF <s remain_size \<or> remain_size <s 0 then Some (-1, [], s)
           else do {
             let r_size = (if ucast remain_size \<le> nbyte then ucast remain_size else nbyte);
             bs \<leftarrow> read_block (heap s) (fs_data e) (unat (fo_offset f)) (unat r_size);
             Some (r_size, bs, put_fobj fo (f\<lparr>fo_offset := fo_offset f + ucast r_size\<rparr>) s)
           }
         }
       }
     }
   }"

text \<open>
  The step shared by \<open>vop_write\<close> and \<open>vop_pwrite\<close> before they copy: when the write would
  not fit the blocks of the current size, the data moves to a larger block.  The new size is
  passed as a \<open>SceSize\<close>, so it is cut to 32 bits.
\<close>

definition grow_data ::
    "'k sce_kernel \<Rightarrow> addr \<Rightarrow> SceSize \<Rightarrow> 'k vfs_state \<Rightarrow> (s32 \<times> 'k vfs_state) option" where
  "grow_data K pEntry w_size s = do {
     e \<leftarrow> fs_of (heap s) pEntry;
     let size = st_size (fs_stat e);
     if block_align size <s block_align (size + ucast w_size)
     then do {
       let (temp_data, s) = dmass_malloc K (ucast (block_align (size + ucast w_size))) s;
       if temp_data = NULL then Some (-2, s)
       else do {
         bs \<leftarrow> read_block (heap s) (fs_data e) 0 (unat (ucast size :: u32));
         s \<leftarrow> write_block temp_data 0 bs s;
         s \<leftarrow> dmass_free K (fs_data e) s;
         Some (0, put pEntry (FsObj (e\<lparr>fs_data := temp_data\<rparr>)) s)
       }
     }
     else Some (0, s)
   }"

definition vop_write ::
    "'k sce_kernel \<Rightarrow> addr \<Rightarrow> addr \<Rightarrow> u8 list \<Rightarrow> SceSize \<Rightarrow> 'k vfs_state \<Rightarrow>
     (s32 \<times> 'k vfs_state) option" where
  "vop_write K node fo src nbyte s = do {
     n \<leftarrow> node_of s node;
     f \<leftarrow> fobj_of s fo;
     let pEntry = vn_dev_info n;
     if pEntry = NULL then Some (-1, s)
     else do {
       pObject \<leftarrow> search_dmass_ctl_data pEntry fo s;
       if pObject = NULL then Some (-1, s)
       else if 0xFFFFFFFF <s vn_st_size n \<or> 0xFFFFFFFF <s fo_offset f then Some (-1, s)
       else if node \<noteq> fo_node f then Some (-3, s)
       else do {
         (res, s) \<leftarrow> grow_data K pEntry nbyte s;
         if failed res then Some (res, s)
         else if length src < unat nbyte then None
         else do {
           e \<leftarrow> fs_of (heap s) pEntry;
           s \<leftarrow> write_block (fs_data e) (unat (fo_offset f)) (take (unat nbyte) src) s;
           let off = fo_offset f + ucast nbyte;
           let s = put_fobj fo (f\<lparr>fo_offset := off\<rparr>) s;
           if st_size (fs_stat e) \<le>s off
           then Some (nbyte,
             put_node node (n\<lparr>vn_st_size := off\<rparr>)
               (put pEntry (FsObj (e\<lparr>fs_stat := (fs_stat e)\<lparr>st_size := off\<rparr>\<rparr>)) s))
           else Some (nbyte, s)
         }
       }
     }
   }"

section \<open>Seek\<close>

definition vop_lseek ::
    "'k sce_kernel \<Rightarrow> addr \<Rightarrow> addr \<Rightarrow> SceOff \<Rightarrow> s32 \<Rightarrow> 'k vfs_state \<Rightarrow>
     (SceOff \<times> 'k vfs_state) option" where
  "vop_lseek K node fo off wh s = do {
     n \<leftarrow> node_of s node;
     f \<leftarrow> fobj_of s fo;
     let target =
       (if wh = SEEK_SET K then Some off
        else if wh = SEEK_CUR K then Some (fo_offset f + off)
        else if wh = SEEK_END K then Some (vn_st_size n + off)
        else None);
     case target of
       None \<Rightarrow> Some (0xFFFFFFFF80010016, s)
     | Some offset \<Rightarrow>
         if vn_st_size n <s offset \<or> offset <s 0 then Some (0xFFFFFFFF80010016, s)
         else Some (offset, put_fobj fo (f\<lparr>fo_offset := offset\<rparr>) s)
   }"

section \<open>Read and write at a given offset\<close>

definition vop_pread ::
    "addr \<Rightarrow> addr \<Rightarrow> SceSize \<Rightarrow> SceOff \<Rightarrow> 'k vfs_state \<Rightarrow>
     (s32 \<times> u8 list \<times> 'k vfs_state) option" where
  "vop_pread node fo nbyte offset s = do {
     n \<leftarrow> node_of s node;
     let pEntry = vn_dev_info n;
     if pEntry = NULL then Some (-1, [], s)
     else do {
       pObject \<leftarrow> search_dmass_ctl_data pEntry fo s;
       if pObject = NULL then Some (-1, [], s)
       else if 0xFFFFFFFF <s vn_st_size n \<or> 0xFFFFFFFF <s offset then Some (-1, [], s)
       else if vn_st_size n <s offset then Some (-1, [], s)
       else do {
         f \<leftarrow> fobj_of s fo;
         if node \<noteq> fo_node f then Some (-3, [], s)
         else if vn_st_size n \<le>s offset then Some (0, [], s)
         else do {
           e \<leftarrow> fs_of (heap s) pEntry;
           let remain_size = vn_st_size n - offset;
           let r_size = (if ucast remain_size \<le> nbyte then ucast remain_size else nbyte);
           bs \<leftarrow> read_block (heap s) (fs_data e) (unat offset) (unat r_size);
           Some (r_size, bs, s)
         }
       }
     }
   }"

definition vop_pwrite ::
    "'k sce_kernel \<Rightarrow> addr \<Rightarrow> addr \<Rightarrow> u8 list \<Rightarrow> SceSize \<Rightarrow> SceOff \<Rightarrow> 'k vfs_state \<Rightarrow>
     (s32 \<times> 'k vfs_state) option" where
  "vop_pwrite K node fo src nbyte offset s = do {
     n \<leftarrow> node_of s node;
     f \<leftarrow> fobj_of s fo;
     let pEntry = vn_dev_info n;
     if pEntry = NULL then Some (-1, s)
     else do {
       pObject \<leftarrow> search_dmass_ctl_data pEntry fo s;
       if pObject = NULL then Some (-1, s)
       else if 0xFFFFFFFF <s vn_st_size n \<or> 0xFFFFFFFF <s offset then Some (-1, s)
       else if vn_st_size n <s offset then Some (-1, s)
       else if node \<noteq> fo_node f then Some (-3, s)
       else do {
         (res, s) \<leftarrow> grow_data K pEntry nbyte s;
         if failed res then Some (res, s)
         else if length src < unat nbyte then None
         else do {
           e \<leftarrow> fs_of (heap s) pEntry;
           s \<leftarrow> write_block (fs_data e) (unat offset) (take (unat nbyte) src) s;
           let off = offset + ucast nbyte;
           if st_size (fs_stat e) <s off
           then Some (nbyte,
             put_node node (n\<lparr>vn_st_size := off\<rparr>)
               (put pEntry (FsObj (e\<lparr>fs_stat := (fs_stat e)\<lparr>st_size := off\<rparr>\<rparr>)) s))
           else Some (nbyte, s)
         }
       }
     }
   }"

end
