(* ===== verification/Vop_File_Props.thy ===== *)
theory Vop_File_Props
  imports Vop_File
begin

text \<open>
  What the file operations promise.  The abstract view of an open file is its bytes and its
  offset; \<open>file_ok\<close> is the invariant that relates the vnode, the file object, the entry and
  its data block.
\<close>

section \<open>The abstract file\<close>

definition capacity :: "dheap \<Rightarrow> FapsDmassFs \<Rightarrow> nat" where
  "capacity h e = (case buf_of h (fs_data e) of None \<Rightarrow> 0 | Some b \<Rightarrow> length b)"

definition entry_size :: "FapsDmassFs \<Rightarrow> nat" where
  "entry_size e = unat (st_size (fs_stat e))"

definition entry_bytes :: "dheap \<Rightarrow> FapsDmassFs \<Rightarrow> u8 list" where
  "entry_bytes h e =
     (case buf_of h (fs_data e) of None \<Rightarrow> [] | Some b \<Rightarrow> take (entry_size e) b)"

text \<open>The data block holds the size rounded up to whole blocks of 0x200 bytes.\<close>

definition data_ok :: "dheap \<Rightarrow> FapsDmassFs \<Rightarrow> bool" where
  "data_ok h e \<longleftrightarrow>
     entry_size e < 2^32 \<and> (fs_data e = NULL \<or> buf_of h (fs_data e) \<noteq> None) \<and>
     (entry_size e + 511) div 512 * 512 \<le> capacity h e"

definition has_handle :: "dheap \<Rightarrow> FapsDmassFs \<Rightarrow> s32 \<Rightarrow> bool" where
  "has_handle h e key \<longleftrightarrow>
     (\<exists>xs. chain (ctl_next_of h) (fs_pDmassFsX e) xs \<and>
           (\<exists>x \<in> set xs. map_option fsx_handler_index (fsx_of h x) = Some key))"

definition file_ok :: "'k vfs_state \<Rightarrow> addr \<Rightarrow> addr \<Rightarrow> bool" where
  "file_ok s node fo \<longleftrightarrow>
     (\<exists>n f e. node_of s node = Some n \<and> fobj_of s fo = Some f \<and>
        fs_of (heap s) (vn_dev_info n) = Some e \<and> has_handle (heap s) e fo \<and>
        fo_node f = node \<and> vn_st_size n = st_size (fs_stat e) \<and> data_ok (heap s) e \<and>
        unat (fo_offset f) \<le> entry_size e)"

definition file_bytes :: "'k vfs_state \<Rightarrow> addr \<Rightarrow> u8 list" where
  "file_bytes s node =
     (case node_of s node of None \<Rightarrow> []
      | Some n \<Rightarrow> (case fs_of (heap s) (vn_dev_info n) of None \<Rightarrow> []
                 | Some e \<Rightarrow> entry_bytes (heap s) e))"

definition file_off :: "'k vfs_state \<Rightarrow> addr \<Rightarrow> nat" where
  "file_off s fo = (case fobj_of s fo of None \<Rightarrow> 0 | Some f \<Rightarrow> unat (fo_offset f))"

text \<open>All that an operation of the module leaves alone in the state around the heap.\<close>

definition frame :: "'k vfs_state \<Rightarrow> 'k vfs_state \<Rightarrow> bool" where
  "frame s s' \<longleftrightarrow> vnodes s' = vnodes s \<and> fobjs s' = fobjs s \<and> pTree s' = pTree s \<and>
     test_heap_uid s' = test_heap_uid s \<and> pProcContextTop s' = pProcContextTop s"

text \<open>Allocated blocks outside \<open>A\<close> keep their contents.\<close>

definition untouched :: "addr set \<Rightarrow> dheap \<Rightarrow> dheap \<Rightarrow> bool" where
  "untouched A h h' \<longleftrightarrow> (\<forall>a. h a \<noteq> None \<longrightarrow> a \<notin> A \<longrightarrow> h' a = h a)"

lemma frame_simps [simp]:
  "frame s s" "frame s (put p x s)" "frame s (s\<lparr>kst := k\<rparr>)" "frame s (s\<lparr>heap := h\<rparr>)"
  by (simp_all add: frame_def)

lemma frame_trans: "frame s t \<Longrightarrow> frame t u \<Longrightarrow> frame s u"
  by (simp add: frame_def)

lemma frame_of: "frame s s' \<Longrightarrow> node_of s' = node_of s" "frame s s' \<Longrightarrow> fobj_of s' = fobj_of s"
  by (auto simp: frame_def node_of_def fobj_of_def)

lemma malloc_cases:
  assumes "alloc_contract K" and "dmass_malloc K n s = (p, s')"
  obtains (null) "p = NULL" "heap s' = heap s" "frame s s'"
  | (block) b where "p \<noteq> NULL" "heap s p = None" "length b = unat n"
      "heap s' = (heap s)(p \<mapsto> Buf b)" "frame s s'"
proof -
  obtain q k where a: "k_alloc K (kst s) (test_heap_uid s) (\<lambda>a. heap s a \<noteq> None) n = (q, k)"
    by fastforce
  have f: "q \<noteq> NULL \<Longrightarrow> heap s q = None"
    using assms(1) a unfolding alloc_contract_def
    by (metis (mono_tags, lifting) fst_conv)
  show thesis
  proof (cases "q = NULL")
    case True
    then show ?thesis using assms(2) a by (intro null) (auto simp: dmass_malloc_def)
  next
    case False
    then show ?thesis using assms a f
      by (intro block [of "k_junk K k q (unat n)"])
        (auto simp: dmass_malloc_def alloc_contract_def frame_def)
  qed
qed

lemma free_some:
  assumes "heap s p \<noteq> None \<or> p = NULL"
  obtains s' where "dmass_free K p s = Some s'" "frame s s'"
    "heap s' = (if p = NULL then heap s else (heap s)(p := None))"
proof (cases "p = NULL")
  case True
  then show ?thesis using that [of s] by (simp add: dmass_free_def)
next
  case False
  then show ?thesis using assms that [of "s\<lparr>heap := (heap s)(p := None), kst := k_free K (kst s) p\<rparr>"]
    by (simp add: dmass_free_def frame_def)
qed

lemma block_align_unat:
  assumes "unat x + 511 < 2^64"
  shows "unat (block_align x) = (unat x + 511) div 512 * 512"
proof -
  let ?y = "x + (0x200 - 1)"
  have y: "unat ?y = unat x + 511" using assms by (simp add: unat_word_ariths)
  have "?y AND NOT (0x200 - 1) = push_bit 9 (drop_bit 9 ?y)"
  proof -
    have m: "(0x200 - 1 :: 64 word) = mask 9" by (simp add: mask_numeral)
    show ?thesis unfolding m by (rule bit_eqI) (auto simp: bit_simps)
  qed
  then show ?thesis using unat_push_drop_64 [of ?y] by (simp only: block_align_def y)
qed

lemma search_handle:
  assumes "fs_of (heap s) p = Some e" and "has_handle (heap s) e key"
  shows "\<exists>q. search_dmass_ctl_data p key s = Some q \<and> q \<noteq> NULL"
proof -
  from assms(2) obtain xs x where c: "chain (ctl_next_of (heap s)) (fs_pDmassFsX e) xs"
    and x: "x \<in> set xs" "map_option fsx_handler_index (fsx_of (heap s) x) = Some key"
    by (auto simp: has_handle_def)
  let ?P = "\<lambda>y. map_option fsx_handler_index (fsx_of (heap s) y) = Some key"
  have "ctl_is (heap s) key y = Some (?P y)" if "y \<in> set xs" for y
  proof -
    from that c have "ctl_next_of (heap s) y \<noteq> None"
      by (metis chain_suffix option.distinct(1) split_list)
    then show ?thesis by (auto simp: ctl_is_def ctl_next_of_def)
  qed
  from ctl.search_find [OF c this]
  have "ctl_search (heap s) key (fs_pDmassFsX e)
      = Some (case find ?P xs of None \<Rightarrow> NULL | Some a \<Rightarrow> a)" .
  moreover have "find ?P xs \<noteq> None" using x by (auto simp: find_None_iff)
  then obtain a where a: "find ?P xs = Some a" by auto
  then have "a \<noteq> NULL" using chain_NULL_notin [OF c] by (metis find_Some_iff nth_mem)
  ultimately show ?thesis using a assms(1) by (simp add: search_dmass_ctl_data_def)
qed

lemma has_handle_cong:
  "fsx_of h' = fsx_of h \<Longrightarrow> fs_pDmassFsX e' = fs_pDmassFsX e \<Longrightarrow>
   has_handle h' e' key = has_handle h e key"
proof -
  assume a: "fsx_of h' = fsx_of h" "fs_pDmassFsX e' = fs_pDmassFsX e"
  then have "ctl_next_of h' = ctl_next_of h" by (simp add: ctl_next_of_def fun_eq_iff)
  with a show ?thesis by (simp add: has_handle_def)
qed

lemma file_okE:
  assumes "file_ok s node fo"
  obtains n f e where "node_of s node = Some n" "fobj_of s fo = Some f"
    "fs_of (heap s) (vn_dev_info n) = Some e" "has_handle (heap s) e fo" "fo_node f = node"
    "vn_st_size n = st_size (fs_stat e)" "data_ok (heap s) e"
    "unat (fo_offset f) \<le> entry_size e" "vn_dev_info n \<noteq> NULL"
  using assms by (auto simp: file_ok_def dest: fs_ofD)

section \<open>Growing the data block\<close>

lemma read_prefix:
  assumes "data_ok h e"
  shows "read_block h (fs_data e) 0 (entry_size e) = Some (entry_bytes h e)"
    and "length (entry_bytes h e) = entry_size e"
proof -
  have le: "entry_size e \<le> capacity h e" using assms unfolding data_ok_def by linarith
  then show "read_block h (fs_data e) 0 (entry_size e) = Some (entry_bytes h e)"
    and "length (entry_bytes h e) = entry_size e"
    by (auto simp: read_block_def entry_bytes_def capacity_def split: option.splits)
qed

lemma write_fresh:
  assumes "heap s t = Some (Buf b)" "t \<noteq> NULL" "length bs \<le> length b"
  obtains c where "write_block t 0 bs s = Some (put t (Buf (bs @ c)) s)"
    "length (bs @ c) = length b"
proof (cases "bs = []")
  case True
  have "put t (Buf b) s = s" using assms(1) by (simp add: put_def fun_upd_idem)
  then show ?thesis using that [of b] True by (simp add: write_block_def)
next
  case False
  then show ?thesis using that [of "drop (length bs) b"] assms
    by (simp add: write_block_def buf_of_def overwrite_def)
qed

lemma grow_ok:
  assumes K: "alloc_contract K" and e: "fs_of (heap s) p = Some e"
    and d: "data_ok (heap s) e" and sz: "entry_size e + unat w + 511 < 2^32"
  obtains (nomem) s' where "grow_data K p w s = Some (-2, s')" "heap s' = heap s" "frame s s'"
  | (ok) s' e' where "grow_data K p w s = Some (0, s')" "frame s s'"
      "fs_of (heap s') p = Some e'" "e' = e\<lparr>fs_data := fs_data e'\<rparr>"
      "entry_bytes (heap s') e' = entry_bytes (heap s) e" "data_ok (heap s') e'"
      "(entry_size e + unat w + 511) div 512 * 512 \<le> capacity (heap s') e'"
      "fsx_of (heap s') = fsx_of (heap s)" "untouched {p, fs_data e} (heap s) (heap s')"
      "fs_data e' = fs_data e \<or> heap s (fs_data e') = None"
proof -
  let ?size = "st_size (fs_stat e)" and ?d = "fs_data e"
  let ?n = "(entry_size e + unat w + 511) div 512 * 512"
  have n32: "?n < 2^32" using sz by linarith
  have sum: "unat (?size + ucast w) = entry_size e + unat w"
    using sz by (subst unat_add_64) (simp_all add: entry_size_def)
  have al: "unat (block_align (?size + ucast w)) = ?n"
    using sz by (subst block_align_unat) (simp_all add: sum)
  have al0: "unat (block_align ?size) = (entry_size e + 511) div 512 * 512"
    using sz by (subst block_align_unat) (simp_all add: entry_size_def)
  have cmp: "block_align ?size <s block_align (?size + ucast w) \<longleftrightarrow>
      (entry_size e + 511) div 512 * 512 < ?n"
    using sz by (subst sless_small) (simp_all add: al al0)
  show thesis
  proof (cases "(entry_size e + 511) div 512 * 512 < ?n")
    case False
    then have "grow_data K p w s = Some (0, s)" using e cmp by (simp add: grow_data_def)
    moreover have "?n \<le> capacity (heap s) e" using False d unfolding data_ok_def by linarith
    ultimately show thesis using e d by (intro ok [of s e]) (simp_all add: untouched_def)
  next
    case True
    obtain t s1 where m: "dmass_malloc K (ucast (block_align (?size + ucast w))) s = (t, s1)"
      by fastforce
    have un: "unat (ucast (block_align (?size + ucast w)) :: u32) = ?n"
      using n32 by (simp add: unat_ucast_64_32 al)
    have us: "unat (ucast ?size :: u32) = entry_size e"
      using sz by (simp add: unat_ucast_64_32 entry_size_def)
    from K m show thesis
    proof (cases rule: malloc_cases)
      case null
      then show thesis using e cmp True m by (intro nomem [of s1]) (simp_all add: grow_data_def)
    next
      case (block b)
      have tp: "t \<noteq> p" "t \<noteq> ?d \<or> ?d = NULL"
        using block(1,2) e d by (auto simp: data_ok_def dest: fs_ofD buf_ofD)
      have dp: "?d \<noteq> p \<or> ?d = NULL" using e d fs_not_buf [OF e] by (auto simp: data_ok_def)
      let ?bs = "entry_bytes (heap s) e"
      have rd: "read_block (heap s1) ?d 0 (entry_size e) = Some ?bs"
      proof -
        have "buf_of (heap s1) ?d = buf_of (heap s) ?d"
          using tp(2) block(4) by (auto simp: buf_of_def)
        then show ?thesis using read_prefix(1) [OF d] by (simp only: read_block_def)
      qed
      have lb: "length ?bs = entry_size e" by (rule read_prefix(2) [OF d])
      have lnb: "length b = ?n" using block(3) un by simp
      obtain c where wr: "write_block t 0 ?bs s1 = Some (put t (Buf (?bs @ c)) s1)"
        and lc: "length (?bs @ c) = length b"
      proof -
        have "heap s1 t = Some (Buf b)" "length ?bs \<le> length b"
          using block(4) lnb lb by simp_all
        then show thesis using write_fresh [of s1 t b ?bs] block(1) that by blast
      qed
      obtain s3 where fr: "dmass_free K ?d (put t (Buf (?bs @ c)) s1) = Some s3"
          "frame (put t (Buf (?bs @ c)) s1) s3"
          "heap s3 = (if ?d = NULL then heap (put t (Buf (?bs @ c)) s1)
                      else (heap (put t (Buf (?bs @ c)) s1))(?d := None))"
      proof -
        have "heap (put t (Buf (?bs @ c)) s1) ?d \<noteq> None \<or> ?d = NULL"
          using d block(4) by (auto simp: data_ok_def dest: buf_ofD)
        then show thesis using that by (rule free_some)
      qed
      let ?e' = "e\<lparr>fs_data := t\<rparr>"
      let ?s' = "put p (FsObj ?e') s3"
      have h3: "heap s3 = (if ?d = NULL then (heap s)(t \<mapsto> Buf (?bs @ c))
                  else ((heap s)(t \<mapsto> Buf (?bs @ c)))(?d := None))"
        using fr(3) block(4) by simp
      have res: "grow_data K p w s = Some (0, ?s')"
        using e cmp True m block(1) us rd wr fr(1) by (simp add: grow_data_def)
      have p0: "p \<noteq> NULL" using e by (auto dest: fs_ofD)
      have buf: "buf_of (heap ?s') t = Some (?bs @ c)"
        using tp block(1) by (auto simp: h3 deref)
      have esz: "entry_size ?e' = entry_size e" by (simp add: entry_size_def)
      have cap: "capacity (heap ?s') ?e' = ?n" using buf lc lnb by (simp add: capacity_def)
      show thesis
      proof (rule ok [of ?s' ?e'])
        show "frame s ?s'" using block(5) fr(2) by (auto simp: frame_def)
        show "entry_bytes (heap ?s') ?e' = ?bs"
          unfolding entry_bytes_def [of "heap ?s'" ?e'] using buf lb esz by simp
        show "data_ok (heap ?s') ?e'" using buf cap esz True d by (simp add: data_ok_def)
        show "fsx_of (heap ?s') = fsx_of (heap s)"
          using e d tp block(2) p0 unfolding data_ok_def
          by (auto simp: h3 fun_eq_iff fsx_of_def dest!: fs_ofD buf_ofD)
        show "untouched {p, ?d} (heap s) (heap ?s')"
          using block(2) by (auto simp: untouched_def h3)
        show "?n \<le> capacity (heap ?s') ?e'" using cap by simp
      qed (use res block(2) p0 in \<open>simp_all add: deref\<close>)
    qed
  qed
qed

section \<open>Copying into the data block\<close>

lemma overwrite_extend:
  assumes "off \<le> n" "n \<le> length b" "off + length bs \<le> length b"
  shows "take (max n (off + length bs)) (overwrite off bs b) = overwrite off bs (take n b)"
proof (cases "off + length bs \<le> n")
  case True
  then show ?thesis using assms take_overwrite [of off bs n b] by (simp add: max_def)
next
  case False
  then show ?thesis using assms by (simp add: overwrite_def max_def min_absorb1 min_absorb2)
qed

lemma write_entry:
  assumes e: "fs_of (heap s) p = Some e" and d: "data_ok (heap s) e"
    and off: "off \<le> entry_size e" and sz: "entry_size e + length bs < 2^32"
    and cap: "(entry_size e + length bs + 511) div 512 * 512 \<le> capacity (heap s) e"
  obtains s' where "write_block (fs_data e) off bs s = Some s'" "frame s s'"
    "fs_of (heap s') = fs_of (heap s)" "fsx_of (heap s') = fsx_of (heap s)"
    "untouched {fs_data e} (heap s) (heap s')"
    "\<And>h2 e2. fs_data e2 = fs_data e \<Longrightarrow> buf_of h2 (fs_data e) = buf_of (heap s') (fs_data e) \<Longrightarrow>
       entry_size e2 = max (entry_size e) (off + length bs) \<Longrightarrow>
       entry_bytes h2 e2 = overwrite off bs (entry_bytes (heap s) e) \<and> data_ok h2 e2"
proof -
  have capn: "entry_size e + length bs \<le> capacity (heap s) e" using cap by linarith
  have m: "(max (entry_size e) (off + length bs) + 511) div 512 * 512 \<le> capacity (heap s) e"
    "max (entry_size e) (off + length bs) < 2^32"
    using off sz by (auto intro: order_trans [OF _ cap] simp: div_le_mono)
  show thesis
  proof (cases "bs = []")
    case True
    then have "write_block (fs_data e) off bs s = Some s" by (simp add: write_block_def)
    then show thesis
    proof (rule that)
      fix h2 e2
      assume "fs_data e2 = fs_data e" "buf_of h2 (fs_data e) = buf_of (heap s) (fs_data e)"
        "entry_size e2 = max (entry_size e) (off + length bs)"
      then show "entry_bytes h2 e2 = overwrite off bs (entry_bytes (heap s) e) \<and> data_ok h2 e2"
        using off True d
        by (simp add: entry_bytes_def capacity_def data_ok_def max_def split: option.splits)
    qed (simp_all add: untouched_def)
  next
    case False
    with capn obtain b where b: "buf_of (heap s) (fs_data e) = Some b"
      by (cases "buf_of (heap s) (fs_data e)") (auto simp: capacity_def)
    then have lb: "entry_size e + length bs \<le> length b" and h: "heap s (fs_data e) = Some (Buf b)"
      and d0: "fs_data e \<noteq> NULL" and lc: "capacity (heap s) e = length b"
      using capn by (auto simp: capacity_def dest: buf_ofD)
    let ?s' = "put (fs_data e) (Buf (overwrite off bs b)) s"
    have w: "write_block (fs_data e) off bs s = Some ?s'"
      using False b lb off by (simp add: write_block_def)
    have b': "buf_of (heap ?s') (fs_data e) = Some (overwrite off bs b)"
      using d0 by (simp add: deref)
    show thesis
    proof (rule that [OF w])
      show "fs_of (heap ?s') = fs_of (heap s)" "fsx_of (heap ?s') = fsx_of (heap s)"
        using h by (auto simp: fun_eq_iff fs_of_def fsx_of_def)
      show "untouched {fs_data e} (heap s) (heap ?s')" by (simp add: untouched_def)
      fix h2 e2
      assume a: "fs_data e2 = fs_data e" "buf_of h2 (fs_data e) = buf_of (heap ?s') (fs_data e)"
        "entry_size e2 = max (entry_size e) (off + length bs)"
      then have "capacity h2 e2 = length b" using b' lb off by (simp add: capacity_def)
      then have "data_ok h2 e2" using a b' m lc by (simp add: data_ok_def)
      with a show "entry_bytes h2 e2 = overwrite off bs (entry_bytes (heap s) e) \<and> data_ok h2 e2"
        using b b' lb off overwrite_extend [of off "entry_size e" b bs]
        by (simp add: entry_bytes_def)
    qed simp
  qed
qed

lemma has_handle_fsx:
  "has_handle h e key \<Longrightarrow> fsx_of h' = fsx_of h \<Longrightarrow> fs_pDmassFsX e' = fs_pDmassFsX e \<Longrightarrow>
   has_handle h' e' key"
  using has_handle_cong by blast

lemma entry_upd:
  "fs_of (heap s) p = Some e \<Longrightarrow>
   fsx_of (heap (put p (FsObj e') s)) = fsx_of (heap s) \<and>
   buf_of (heap (put p (FsObj e') s)) = buf_of (heap s)"
  by (auto simp: fun_eq_iff fsx_of_def buf_of_def dest!: fs_ofD)

lemma untouched_trans:
  assumes "untouched A h h1" "untouched B h1 h2" "\<And>b. b \<in> B \<Longrightarrow> b \<in> A \<or> h b = None"
  shows "untouched A h h2"
  unfolding untouched_def
proof (intro allI impI)
  fix a assume a: "h a \<noteq> None" "a \<notin> A"
  then have h1: "h1 a = h a" using assms(1) by (simp add: untouched_def)
  have "a \<notin> B" using a assms(3) [of a] by (cases "a \<in> B") simp_all
  then have "h2 a = h1 a" using assms(2) a(1) h1 by (simp add: untouched_def)
  then show "h2 a = h a" using h1 by simp
qed

text \<open>Growing the block and copying into it: the part shared by the two writes.\<close>

lemma store_ok:
  assumes K: "alloc_contract K" and e: "fs_of (heap s) p = Some e"
    and d: "data_ok (heap s) e" and off: "off \<le> entry_size e"
    and sz: "entry_size e + unat w + 511 < 2^32" and lbs: "length bs = unat w"
  obtains (nomem) s' where "grow_data K p w s = Some (-2, s')" "heap s' = heap s" "frame s s'"
  | (ok) s1 e1 s2 where "grow_data K p w s = Some (0, s1)" "fs_of (heap s1) p = Some e1"
      "write_block (fs_data e1) off bs s1 = Some s2" "frame s s2" "fs_of (heap s2) p = Some e1"
      "fs_stat e1 = fs_stat e" "fs_pDmassFsX e1 = fs_pDmassFsX e"
      "fsx_of (heap s2) = fsx_of (heap s)" "untouched {p, fs_data e} (heap s) (heap s2)"
      "\<And>h2 e2. fs_data e2 = fs_data e1 \<Longrightarrow> buf_of h2 = buf_of (heap s2) \<Longrightarrow>
         entry_size e2 = max (entry_size e) (off + unat w) \<Longrightarrow>
         entry_bytes h2 e2 = overwrite off bs (entry_bytes (heap s) e) \<and> data_ok h2 e2"
  using K e d sz
proof (cases rule: grow_ok [of K s p e w])
  case (nomem s')
  then show thesis by (rule that(1))
next
  case (ok s1 e1)
  obtain t where t: "e1 = e\<lparr>fs_data := t\<rparr>" using ok(4) by blast
  then have es: "fs_stat e1 = fs_stat e" "fs_pDmassFsX e1 = fs_pDmassFsX e" by simp_all
  then have esz: "entry_size e1 = entry_size e" by (simp add: entry_size_def)
  have 1: "off \<le> entry_size e1" "entry_size e1 + length bs < 2^32"
    "(entry_size e1 + length bs + 511) div 512 * 512 \<le> capacity (heap s1) e1"
    using off sz lbs esz ok(7) by simp_all
  show thesis
  proof (rule write_entry [OF ok(3) ok(6) 1])
    fix s2
    assume w: "write_block (fs_data e1) off bs s1 = Some s2" "frame s1 s2"
      "fs_of (heap s2) = fs_of (heap s1)" "fsx_of (heap s2) = fsx_of (heap s1)"
      "untouched {fs_data e1} (heap s1) (heap s2)"
      and b: "\<And>h2 e2. fs_data e2 = fs_data e1 \<Longrightarrow>
         buf_of h2 (fs_data e1) = buf_of (heap s2) (fs_data e1) \<Longrightarrow>
         entry_size e2 = max (entry_size e1) (off + length bs) \<Longrightarrow>
         entry_bytes h2 e2 = overwrite off bs (entry_bytes (heap s1) e1) \<and> data_ok h2 e2"
    have "untouched {p, fs_data e} (heap s) (heap s2)"
      using untouched_trans [OF ok(9) w(5)] ok(10) by auto
    then show thesis
      using that(2) [of s1 e1 s2] ok(1,3,5,8) w(1,3,4) frame_trans [OF ok(2) w(2)] es b esz lbs
      by simp
  qed
qed

section \<open>Write\<close>

text \<open>How the state around the data changes when the entry gets a new size.\<close>

definition set_size :: "addr \<Rightarrow> SceVfsNode \<Rightarrow> addr \<Rightarrow> FapsDmassFs \<Rightarrow> SceOff \<Rightarrow> 'k vfs_state \<Rightarrow>
    'k vfs_state" where
  "set_size node n p e z s = put_node node (n\<lparr>vn_st_size := z\<rparr>)
     (put p (FsObj (e\<lparr>fs_stat := (fs_stat e)\<lparr>st_size := z\<rparr>\<rparr>)) s)"

lemma set_size_sel:
  assumes "fs_of (heap s) (vn_dev_info n) = Some e" "node \<noteq> NULL"
  shows "fs_of (heap (set_size node n (vn_dev_info n) e z s)) (vn_dev_info n)
      = Some (e\<lparr>fs_stat := (fs_stat e)\<lparr>st_size := z\<rparr>\<rparr>)"
    "node_of (set_size node n (vn_dev_info n) e z s) node = Some (n\<lparr>vn_st_size := z\<rparr>)"
    "fobj_of (set_size node n (vn_dev_info n) e z s) = fobj_of s"
    "fsx_of (heap (set_size node n (vn_dev_info n) e z s)) = fsx_of (heap s)"
    "buf_of (heap (set_size node n (vn_dev_info n) e z s)) = buf_of (heap s)"
  using assms entry_upd [OF assms(1)] by (auto simp: set_size_def deref fun_eq_iff dest: fs_ofD)

lemma store_result:
  fixes n e1 z s3 B node
  defines "s4 \<equiv> if B then set_size node n (vn_dev_info n) e1 z s3 else s3"
  assumes n: "node_of s3 node = Some n" and e: "fs_of (heap s3) (vn_dev_info n) = Some e1"
    and f: "fobj_of s3 fo = Some f'" "fo_node f' = node" "unat (fo_offset f') \<le> m"
    and vs: "vn_st_size n = st_size (fs_stat e1)" and hh: "has_handle (heap s3) e1 fo"
    and R: "\<And>h2 e2. fs_data e2 = fs_data e1 \<Longrightarrow> buf_of h2 = buf_of (heap s3) \<Longrightarrow>
              entry_size e2 = m \<Longrightarrow> entry_bytes h2 e2 = bs \<and> data_ok h2 e2"
    and z: "B \<Longrightarrow> unat z = m" "\<not> B \<Longrightarrow> entry_size e1 = m"
  shows "file_ok s4 node fo" "file_bytes s4 node = bs" "fobj_of s4 = fobj_of s3"
proof -
  have n0: "node \<noteq> NULL" using n by (auto simp: node_of_def)
  have "file_ok s4 node fo \<and> file_bytes s4 node = bs \<and> fobj_of s4 = fobj_of s3"
  proof (cases B)
    case True
    let ?e = "e1\<lparr>fs_stat := (fs_stat e1)\<lparr>st_size := z\<rparr>\<rparr>"
    note S = set_size_sel [OF e n0, of z]
    have s4: "s4 = set_size node n (vn_dev_info n) e1 z s3" using True by (simp add: s4_def)
    have sz: "entry_size ?e = m" using z(1) [OF True] by (simp add: entry_size_def)
    have r: "entry_bytes (heap s4) ?e = bs" "data_ok (heap s4) ?e"
      using R [of ?e "heap s4"] S(5) sz by (simp_all add: s4)
    have "has_handle (heap s4) ?e fo" using has_handle_fsx [OF hh] S(4) by (simp add: s4)
    then show ?thesis using S(1-3) f r sz
      unfolding file_ok_def file_bytes_def s4 by (simp add: entry_size_def)
  next
    case False
    then have "s4 = s3" by (simp add: s4_def)
    then show ?thesis using n e f vs hh R [of e1 "heap s3"] z(2) [OF False]
      unfolding file_ok_def file_bytes_def by simp
  qed
  then show "file_ok s4 node fo" "file_bytes s4 node = bs" "fobj_of s4 = fobj_of s3" by simp_all
qed

lemma file_bytes_entry:
  "node_of s node = Some n \<Longrightarrow> fs_of (heap s) (vn_dev_info n) = Some e \<Longrightarrow>
   file_bytes s node = entry_bytes (heap s) e"
  by (simp add: file_bytes_def)

lemma file_bytes_put_fobj [simp]: "file_bytes (put_fobj fo v s) node = file_bytes s node"
  by (simp add: file_bytes_def deref cong: option.case_cong)

lemma nomem_result:
  assumes "heap s1 = heap s" "frame s s1" "file_ok s node fo"
  shows "file_ok s1 node fo" "file_bytes s1 node = file_bytes s node" "file_off s1 fo = file_off s fo"
  using assms(1,3) frame_of [OF assms(2)]
  by (simp_all add: file_ok_def file_bytes_def file_off_def cong: option.case_cong)

lemma file_limits:
  assumes "data_ok h e" "vn_st_size n = st_size (fs_stat e)" "unat o' \<le> entry_size e"
  shows "\<not> 0xFFFFFFFF <s vn_st_size n" "\<not> 0xFFFFFFFF <s st_size (fs_stat e)" "\<not> 0xFFFFFFFF <s o'"
    "vn_st_size n <s o' \<longleftrightarrow> False" "vn_st_size n \<le>s o' \<longleftrightarrow> entry_size e = unat o'"
    "unat (st_size (fs_stat e) - o') = entry_size e - unat o'"
    "\<not> 0xFFFFFFFF <s st_size (fs_stat e) - o'" "\<not> st_size (fs_stat e) - o' <s 0"
proof -
  have l: "entry_size e < 2^32" using assms(1) by (simp add: data_ok_def)
  have d: "unat (st_size (fs_stat e) - o') = entry_size e - unat o'"
    using assms(3) by (simp add: entry_size_def unat_sub word_le_nat_alt)
  then show "unat (st_size (fs_stat e) - o') = entry_size e - unat o'" .
  show "\<not> 0xFFFFFFFF <s vn_st_size n" "\<not> 0xFFFFFFFF <s st_size (fs_stat e)" "\<not> 0xFFFFFFFF <s o'"
    "vn_st_size n <s o' \<longleftrightarrow> False" "vn_st_size n \<le>s o' \<longleftrightarrow> entry_size e = unat o'"
    using l assms(2,3) by (auto simp: sless_small sle_small entry_size_def)
  show "\<not> 0xFFFFFFFF <s st_size (fs_stat e) - o'" "\<not> st_size (fs_stat e) - o' <s 0"
    using l d by (simp_all add: sless_small not_neg_small)
qed


text \<open>Reading a window of the abstract file.\<close>

lemma read_window:
  assumes d: "data_ok h e" and n: "off + n \<le> entry_size e"
  shows "read_block h (fs_data e) off n = Some (take n (drop off (entry_bytes h e)))"
proof -
  have "entry_size e \<le> capacity h e" using d unfolding data_ok_def by linarith
  then show ?thesis using n
    by (auto simp: read_block_def entry_bytes_def capacity_def drop_take min_def
        split: option.splits)
qed

lemma min_remaining:
  assumes "off \<le> sz" "sz < 2^32" "unat rem = sz - off"
  shows "unat (if ucast (rem :: 64 word) \<le> nbyte then ucast rem else nbyte :: 32 word)
      = min (unat nbyte) (sz - off)"
    and "length bs = sz \<Longrightarrow>
      take (min (unat nbyte) (sz - off)) (drop off bs) = take (unat nbyte) (drop off bs)"
proof -
  have u: "unat (ucast rem :: 32 word) = sz - off" using assms by (simp add: unat_ucast_64_32)
  show "unat (if ucast rem \<le> nbyte then ucast rem else nbyte) = min (unat nbyte) (sz - off)"
    using u by (auto simp: word_le_nat_alt min_def)
  show "length bs = sz \<Longrightarrow>
      take (min (unat nbyte) (sz - off)) (drop off bs) = take (unat nbyte) (drop off bs)"
    by (auto simp: min_def)
qed

text \<open>
  C2: a read at the current offset returns the bytes of the abstract file from the offset, as many
  as asked for or as are left, and advances the offset by their number; the file is unchanged.
\<close>

theorem vop_read_refines:
  assumes ok: "file_ok s node fo" and nb: "nbyte \<noteq> 0xdeadbeef"
  shows "\<exists>r s'. vop_read node fo nbyte s =
           Some (r, take (unat nbyte) (drop (file_off s fo) (file_bytes s node)), s') \<and>
         unat r = min (unat nbyte) (length (file_bytes s node) - file_off s fo) \<and>
         file_ok s' node fo \<and> file_bytes s' node = file_bytes s node \<and>
         file_off s' fo = file_off s fo + unat r"
proof -
  from ok obtain n f e where n: "node_of s node = Some n" and f: "fobj_of s fo = Some f"
    and e: "fs_of (heap s) (vn_dev_info n) = Some e" and hh: "has_handle (heap s) e fo"
    and fn: "fo_node f = node" and vs: "vn_st_size n = st_size (fs_stat e)"
    and d: "data_ok (heap s) e" and off: "unat (fo_offset f) \<le> entry_size e"
    and p0: "vn_dev_info n \<noteq> NULL" by (rule file_okE)
  obtain q where q: "search_dmass_ctl_data (vn_dev_info n) fo s = Some q" "q \<noteq> NULL"
    using search_handle [OF e hh] by blast
  have fo0: "fo \<noteq> NULL" using f by (auto simp: fobj_of_def)
  note lim = file_limits [OF d vs off]
  have es: "entry_size e < 2^32" using d by (simp add: data_ok_def)
  let ?rem = "st_size (fs_stat e) - fo_offset f"
  let ?r = "if ucast ?rem \<le> nbyte then ucast ?rem else nbyte"
  note m = min_remaining [OF off es lim(6), where nbyte = nbyte]
  have rd: "read_block (heap s) (fs_data e) (unat (fo_offset f)) (unat ?r)
      = Some (take (unat nbyte) (drop (unat (fo_offset f)) (entry_bytes (heap s) e)))"
    using read_window [OF d, of "unat (fo_offset f)" "unat ?r"] m(2) read_prefix(2) [OF d] off
    unfolding m(1) by simp
  let ?s' = "put_fobj fo (f\<lparr>fo_offset := fo_offset f + ucast ?r\<rparr>) s"
  have uo: "unat (fo_offset f + ucast ?r) = unat (fo_offset f) + unat ?r"
    using off es m(1) by (subst unat_add_64) auto
  have res: "vop_read node fo nbyte s
      = Some (?r, take (unat nbyte) (drop (unat (fo_offset f)) (entry_bytes (heap s) e)), ?s')"
    using n f q p0 lim fn nb rd e by (simp add: vop_read_def Let_def del: if_split)
  have fb: "file_bytes s node = entry_bytes (heap s) e" by (rule file_bytes_entry [OF n e])
  have so: "file_ok ?s' node fo"
    unfolding file_ok_def
    using n e hh fn vs d fo0 uo m(1) off
    by (intro exI [of _ n] exI [of _ "f\<lparr>fo_offset := fo_offset f + ucast ?r\<rparr>"] exI [of _ e])
      (simp add: deref del: if_split)
  show ?thesis
    using res so uo m(1) fb f fo0 read_prefix(2) [OF d]
    by (intro exI [of _ ?r] exI [of _ ?s']) (simp add: file_off_def deref del: if_split)
qed

lemma pread_window:
  assumes ok: "file_ok s node fo" and o: "unat offset \<le> length (file_bytes s node)"
  shows "\<exists>r. vop_pread node fo nbyte offset s =
           Some (r, take (unat nbyte) (drop (unat offset) (file_bytes s node)), s) \<and>
         unat r = min (unat nbyte) (length (file_bytes s node) - unat offset)"
proof -
  from ok obtain n f e where n: "node_of s node = Some n" and f: "fobj_of s fo = Some f"
    and e: "fs_of (heap s) (vn_dev_info n) = Some e" and hh: "has_handle (heap s) e fo"
    and fn: "fo_node f = node" and vs: "vn_st_size n = st_size (fs_stat e)"
    and d: "data_ok (heap s) e" and p0: "vn_dev_info n \<noteq> NULL" by (rule file_okE)
  obtain q where q: "search_dmass_ctl_data (vn_dev_info n) fo s = Some q" "q \<noteq> NULL"
    using search_handle [OF e hh] by blast
  have fb: "file_bytes s node = entry_bytes (heap s) e" by (rule file_bytes_entry [OF n e])
  have len: "length (entry_bytes (heap s) e) = entry_size e" by (rule read_prefix(2) [OF d])
  have off: "unat offset \<le> entry_size e" using o by (simp add: fb len)
  note lim = file_limits [OF d vs off]
  have es: "entry_size e < 2^32" using d by (simp add: data_ok_def)
  show ?thesis
  proof (cases "entry_size e = unat offset")
    case True
    then show ?thesis using n f q p0 lim fn fb len
      by (intro exI [of _ 0]) (simp add: vop_pread_def)
  next
    case False
    let ?rem = "vn_st_size n - offset"
    let ?r = "if ucast ?rem \<le> nbyte then ucast ?rem else nbyte"
    note m = min_remaining [OF off es lim(6) [folded vs], where nbyte = nbyte]
    have "read_block (heap s) (fs_data e) (unat offset) (unat ?r)
        = Some (take (unat nbyte) (drop (unat offset) (entry_bytes (heap s) e)))"
      using read_window [OF d, of "unat offset" "unat ?r"] m(2) len off unfolding m(1) by simp
    then show ?thesis using n f q p0 lim fn False e m(1) fb len
      by (intro exI [of _ ?r]) (simp add: vop_pread_def Let_def del: if_split)
  qed
qed

text \<open>
  A read at a given offset inside the file returns that window and changes nothing.
\<close>

theorem vop_pread_refines:
  assumes ok: "file_ok s node fo" and o: "unat offset \<le> length (file_bytes s node)"
  shows "\<exists>r. vop_pread node fo nbyte offset s =
           Some (r, take (unat nbyte) (drop (unat offset) (file_bytes s node)), s) \<and>
         unat r = min (unat nbyte) (length (file_bytes s node) - unat offset)"
  using assms by (rule pread_window)

lemma pwrite_overwrites:
  assumes K: "alloc_contract K" and ok: "file_ok s node fo" and src: "unat nbyte \<le> length src"
    and o: "unat offset \<le> length (file_bytes s node)"
    and sz: "length (file_bytes s node) + unat nbyte + 511 < 2^32"
  shows "\<exists>r s'. vop_pwrite K node fo src nbyte offset s = Some (r, s') \<and> file_ok s' node fo \<and>
    file_off s' fo = file_off s fo \<and>
    (r = -2 \<and> file_bytes s' node = file_bytes s node \<or>
     r = nbyte \<and>
     file_bytes s' node = overwrite (unat offset) (take (unat nbyte) src) (file_bytes s node))"
proof -
  from ok obtain n f e where n: "node_of s node = Some n" and f: "fobj_of s fo = Some f"
    and e: "fs_of (heap s) (vn_dev_info n) = Some e" and hh: "has_handle (heap s) e fo"
    and fn: "fo_node f = node" and vs: "vn_st_size n = st_size (fs_stat e)"
    and d: "data_ok (heap s) e" and fo: "unat (fo_offset f) \<le> entry_size e"
    and p0: "vn_dev_info n \<noteq> NULL" by (rule file_okE)
  let ?p = "vn_dev_info n" and ?bs = "take (unat nbyte) src"
  obtain q where q: "search_dmass_ctl_data ?p fo s = Some q" "q \<noteq> NULL"
    using search_handle [OF e hh] by blast
  have fb: "file_bytes s node = entry_bytes (heap s) e" by (rule file_bytes_entry [OF n e])
  have len: "length (entry_bytes (heap s) e) = entry_size e" by (rule read_prefix(2) [OF d])
  have off: "unat offset \<le> entry_size e" using o by (simp add: fb len)
  have sz': "entry_size e + unat nbyte + 511 < 2^32" using sz len by (simp add: fb)
  note lim = file_limits [OF d vs off]
  have lbs: "length ?bs = unat nbyte" using src by simp
  from K e d off sz' lbs show ?thesis
  proof (cases rule: store_ok)
    case (nomem s1)
    then have "vop_pwrite K node fo src nbyte offset s = Some (-2, s1)"
      using n f q p0 lim fn by (simp add: vop_pwrite_def)
    with nomem_result [OF nomem(2,3) ok] show ?thesis by blast
  next
    case (ok s1 e1 s2)
    let ?o = "offset + ucast nbyte" and ?m = "max (entry_size e) (unat offset + unat nbyte)"
    let ?B = "st_size (fs_stat e1) <s ?o"
    let ?s4 = "if ?B then set_size node n ?p e1 ?o s2 else s2"
    have uo: "unat ?o = unat offset + unat nbyte" using off sz' by (subst unat_add_64) simp_all
    have cmp: "?B \<longleftrightarrow> entry_size e < unat ?o"
      using off sz' ok(6) by (subst sless_small) (simp_all add: uo entry_size_def)
    have res: "vop_pwrite K node fo src nbyte offset s = Some (nbyte, ?s4)"
      using n f q p0 lim fn ok(1,2,3) src by (simp add: vop_pwrite_def Let_def set_size_def)
    have R: "file_ok ?s4 node fo"
        "file_bytes ?s4 node = overwrite (unat offset) ?bs (entry_bytes (heap s) e)"
        "fobj_of ?s4 = fobj_of s2"
      by (rule store_result [where m = ?m and f' = f];
          use frame_of [OF ok(4)] n f fo ok(5,6,10) fn uo vs cmp has_handle_fsx [OF hh ok(8,7)]
          in \<open>auto simp: entry_size_def max_def\<close>)+
    then show ?thesis using res frame_of [OF ok(4)] fb by (auto simp: file_off_def)
  qed
qed

text \<open>
  C5: a write at a given offset inside the file overwrites (and may extend) the abstract file there
  and leaves the current offset alone, or there is no memory and nothing changes.
\<close>

theorem vop_pwrite_refines:
  assumes K: "alloc_contract K" and ok: "file_ok s node fo" and src: "unat nbyte \<le> length src"
    and o: "unat offset \<le> length (file_bytes s node)"
    and sz: "length (file_bytes s node) + unat nbyte + 511 < 2^32"
  shows "\<exists>r s'. vop_pwrite K node fo src nbyte offset s = Some (r, s') \<and> file_ok s' node fo \<and>
    file_off s' fo = file_off s fo \<and>
    (r = -2 \<and> file_bytes s' node = file_bytes s node \<or>
     r = nbyte \<and>
     file_bytes s' node = overwrite (unat offset) (take (unat nbyte) src) (file_bytes s node))"
  using assms by (rule pwrite_overwrites)

end
