(* ===== verification/Vop_File_Laws.thy ===== *)
theory Vop_File_Laws
  imports Vop_File_Props
begin

text \<open>
  Laws of an open file that follow from the refinements: seeking, what two positioned accesses do to
  each other (proved once in the locale \<open>random_access\<close> and obtained for \<open>vop_pread\<close> and
  \<open>vop_pwrite\<close> by interpretation), independence of different files.
\<close>

section \<open>Seek\<close>

lemma sint_add_small:
  fixes b off :: "64 word"
  assumes b: "unat b < 2^32"
  shows "sint (b + off) =
    (if int (unat b) + sint off < 2^63 then int (unat b) + sint off
     else int (unat b) + sint off - 2^64)"
proof -
  let ?t = "int (unat b) + sint off"
  have r: "- (2^63) \<le> sint off" "sint off < 2^63"
    using sint_range_size [of off] by (simp_all add: word_size)
  have sb: "sint b = int (unat b)" using b by (intro sint_small64) simp
  have s: "sint (b + off) = signed_take_bit 63 ?t" by (simp add: sint_word_ariths(1) sb)
  show ?thesis
  proof (cases "?t < 2^63")
    case True
    have "- (2^63) \<le> ?t" using r(1) by linarith
    then have "signed_take_bit 63 ?t = ?t" using True by (rule signed_take_bit_int_eq_self)
    then show ?thesis using True unfolding s by simp
  next
    case False
    have "(?t + 2^63) mod 2^64 = ?t + 2^63 - 2^64"
    proof -
      have "(?t + 2^63) mod 2^64 = (?t + 2^63 - 2^64) mod 2^64"
        by (rule minus_mod_self2 [symmetric])
      also have "\<dots> = ?t + 2^63 - 2^64" using False r int_unat_less [OF b]
        by (intro mod_pos_pos_trivial) simp_all
      finally show ?thesis .
    qed
    then show ?thesis using False unfolding s
      by (simp add: signed_take_bit_eq_take_bit_shift take_bit_eq_mod)
  qed
qed

text \<open>Where a seek starts from.\<close>

definition seek_base :: "'k sce_kernel \<Rightarrow> s32 \<Rightarrow> nat \<Rightarrow> nat \<Rightarrow> nat option" where
  "seek_base K wh cur sz =
     (if wh = SEEK_SET K then Some 0 else if wh = SEEK_CUR K then Some cur
      else if wh = SEEK_END K then Some sz else None)"

text \<open>
  A seek sets the offset to base plus displacement, computed without wrap-around, exactly when
  that position lies inside the file; otherwise, and for an unknown \<open>where\<close>, it returns
  0xFFFFFFFF80010016 and changes nothing.
\<close>

theorem vop_lseek_spec:
  assumes ok: "file_ok s node fo"
  shows "\<exists>s'. vop_lseek K node fo off wh s =
      (case seek_base K wh (file_off s fo) (length (file_bytes s node)) of
         None \<Rightarrow> Some (0xFFFFFFFF80010016, s)
       | Some b \<Rightarrow>
           if 0 \<le> int b + sint off \<and> int b + sint off \<le> int (length (file_bytes s node))
           then Some (word_of_int (int b + sint off), s')
           else Some (0xFFFFFFFF80010016, s)) \<and>
    (\<forall>b. seek_base K wh (file_off s fo) (length (file_bytes s node)) = Some b \<longrightarrow>
       0 \<le> int b + sint off \<longrightarrow> int b + sint off \<le> int (length (file_bytes s node)) \<longrightarrow>
       file_ok s' node fo \<and> file_bytes s' node = file_bytes s node \<and>
       int (file_off s' fo) = int b + sint off)"
proof -
  from ok obtain n f e where n: "node_of s node = Some n" and f: "fobj_of s fo = Some f"
    and e: "fs_of (heap s) (vn_dev_info n) = Some e" and hh: "has_handle (heap s) e fo"
    and fn: "fo_node f = node" and vs: "vn_st_size n = st_size (fs_stat e)"
    and d: "data_ok (heap s) e" and fo: "unat (fo_offset f) \<le> entry_size e" by (rule file_okE)
  have es: "entry_size e < 2^32" using d by (simp add: data_ok_def)
  have fo0: "fo \<noteq> NULL" using f by (auto simp: fobj_of_def)
  have len: "length (file_bytes s node) = entry_size e"
    using file_bytes_entry [OF n e] read_prefix(2) [OF d] by simp
  have cur: "file_off s fo = unat (fo_offset f)" using f by (simp add: file_off_def)
  define wb where "wb = (if wh = SEEK_SET K then Some 0 else if wh = SEEK_CUR K then Some (fo_offset f)
      else if wh = SEEK_END K then Some (vn_st_size n) else None)"
  have B: "seek_base K wh (file_off s fo) (entry_size e) = map_option unat wb"
    by (simp add: seek_base_def wb_def cur len vs entry_size_def)
  have L: "vop_lseek K node fo off wh s = (case wb of
       None \<Rightarrow> Some (0xFFFFFFFF80010016, s)
     | Some w \<Rightarrow> if vn_st_size n <s w + off \<or> w + off <s 0 then Some (0xFFFFFFFF80010016, s)
         else Some (w + off, put_fobj fo (f\<lparr>fo_offset := w + off\<rparr>) s))"
    using n f by (simp add: vop_lseek_def wb_def)
  show ?thesis
  proof (cases wb)
    case None
    then show ?thesis unfolding len using L B by simp
  next
    case (Some w)
    have w32: "unat w < 2^32" using Some es fo vs
      by (auto simp: wb_def entry_size_def split: if_splits)
    let ?t = "int (unat w) + sint off"
    have sz: "sint (vn_st_size n) = int (entry_size e)"
      using es vs by (simp add: sint_small64 entry_size_def)
    have r: "sint off < 2^63" using sint_range_size [of off] by (simp add: word_size)
    have bad: "(vn_st_size n <s w + off \<or> w + off <s 0) \<longleftrightarrow> \<not> (0 \<le> ?t \<and> ?t \<le> int (entry_size e))"
    proof -
      define i where "i = int (unat w)"
      have "int (unat w) < int (2^32)" using w32 by (simp only: of_nat_less_iff)
      then have "i < 2^32" "0 \<le> i" by (simp_all add: i_def)
      then show ?thesis
        unfolding word_sless_alt sz sint_add_small [OF w32] i_def [symmetric] using es r by auto
    qed
    have eq: "word_of_int ?t = w + off" by (simp add: wi_hom_syms)
    let ?s' = "put_fobj fo (f\<lparr>fo_offset := w + off\<rparr>) s"
    have u: "unat (w + off) = nat ?t" if "0 \<le> ?t" "?t \<le> int (entry_size e)"
      unfolding eq [symmetric] using that es by (intro unat_word_of_int_64) simp_all
    have k: "file_ok ?s' node fo \<and> int (file_off ?s' fo) = ?t"
      if "0 \<le> ?t" "?t \<le> int (entry_size e)"
      using u [OF that] that n e hh fn vs d fo0
      by (auto simp: file_ok_def file_off_def deref nat_le_iff)
    have v: "vop_lseek K node fo off wh s = (if 0 \<le> ?t \<and> ?t \<le> int (entry_size e)
        then Some (word_of_int ?t, ?s') else Some (0xFFFFFFFF80010016, s))"
      unfolding L Some eq option.case bad by (simp only: if_not_P not_not split: if_split) blast
    show ?thesis
      unfolding len B Some option.map option.case v
      using k by (intro exI [of _ ?s']) auto
  qed
qed

section \<open>Positioned access\<close>

definition pwrite_at ::
    "'k sce_kernel \<Rightarrow> addr \<Rightarrow> addr \<Rightarrow> nat \<Rightarrow> u8 list \<Rightarrow> 'k vfs_state \<Rightarrow> 'k vfs_state option" where
  "pwrite_at K node fo off bs s =
     (case vop_pwrite K node fo bs (word_of_nat (length bs)) (word_of_nat off) s of
        None \<Rightarrow> None
      | Some (r, s') \<Rightarrow> if r = word_of_nat (length bs) then Some s' else None)"

definition pread_at :: "addr \<Rightarrow> addr \<Rightarrow> nat \<Rightarrow> nat \<Rightarrow> 'k vfs_state \<Rightarrow> u8 list option" where
  "pread_at node fo off n s =
     map_option (fst \<circ> snd) (vop_pread node fo (word_of_nat n) (word_of_nat off) s)"

lemma unat_of_small: "n < 2^32 \<Longrightarrow> unat (word_of_nat n :: 32 word) = n"
  "n < 2^32 \<Longrightarrow> unat (word_of_nat n :: 64 word) = n"
  by (simp_all add: unat_of_nat)

lemma file_bytes_32: "file_ok s node fo \<Longrightarrow> length (file_bytes s node) < 2^32"
  by (erule file_okE) (simp add: file_bytes_entry read_prefix(2) data_ok_def)

interpretation positioned: random_access
  "\<lambda>s. alloc_contract K \<and> file_ok s node fo" "\<lambda>s. file_bytes s node" "2^32 - 511"
  "pwrite_at K node fo" "pread_at node fo"
  for K node fo
proof (unfold_locales, goal_cases)
  case (1 s off bs s')
  let ?w = "word_of_nat (length bs) :: u32"
  have u: "unat ?w = length bs" "unat (word_of_nat off :: u64) = off"
    using 1 by (simp_all add: unat_of_small)
  have "?w \<noteq> - 2"
  proof
    assume "?w = - 2"
    then have "unat ?w = unat (- 2 :: u32)" by simp
    then show False using 1(3) u(1) by simp
  qed
  with pwrite_overwrites [of K s node fo ?w bs "word_of_nat off"] 1 u show ?case
    by (auto simp: pwrite_at_def split: if_splits)
next
  case (2 s off n)
  have u: "unat (word_of_nat n :: u32) = n" "unat (word_of_nat off :: u64) = off"
    using 2 file_bytes_32 [of s node fo] by (simp_all add: unat_of_small)
  with pread_window [of s node fo "word_of_nat off" "word_of_nat n"] 2 show ?case
    by (auto simp: pread_at_def)
qed

text \<open>
  C6: after a successful positioned write the same window reads back as the bytes written, and every
  disjoint window of the old file reads as before.
\<close>

theorem pwrite_pread_roundtrip:
  assumes K: "alloc_contract K" and ok: "file_ok s node fo"
    and o: "off \<le> length (file_bytes s node)"
    and sz: "length (file_bytes s node) + length bs + 511 < 2^32"
    and w: "vop_pwrite K node fo bs (word_of_nat (length bs)) (word_of_nat off) s
        = Some (word_of_nat (length bs), s')"
  shows "pread_at node fo off (length bs) s' = Some bs \<and>
    (\<forall>o2 n. o2 \<le> length (file_bytes s node) \<longrightarrow> n < 2^32 - 511 \<longrightarrow>
       o2 + n \<le> off \<or> off + length bs \<le> o2 \<longrightarrow> pread_at node fo o2 n s' = pread_at node fo o2 n s)"
proof -
  have p: "pwrite_at K node fo off bs s = Some s'" using w by (simp add: pwrite_at_def)
  have i: "alloc_contract K \<and> file_ok s node fo" using K ok by simp
  have l: "length (file_bytes s node) + length bs < 2^32 - 511" using sz by simp
  show ?thesis
    using positioned.write_read [OF i o l p] positioned.write_read_other [OF i o l p] by blast
qed

section \<open>Different files\<close>

lemma entry_frame:
  assumes u: "untouched {p, d} h h'" and e: "fs_of h q = Some e2" and k: "data_ok h e2"
    and n: "q \<noteq> p" "q \<noteq> d" "fs_data e2 \<noteq> p \<or> fs_data e2 = NULL" "fs_data e2 \<noteq> d \<or> fs_data e2 = NULL"
  shows "fs_of h' q = Some e2 \<and> entry_bytes h' e2 = entry_bytes h e2"
proof -
  have "fs_of h' q = Some e2"
    using u n fs_ofD [OF e] by (simp add: untouched_def fs_of_def)
  moreover have "buf_of h' (fs_data e2) = buf_of h (fs_data e2)"
  proof (cases "fs_data e2 = NULL")
    case False
    then obtain b where "buf_of h (fs_data e2) = Some b" using k by (auto simp: data_ok_def)
    then have "h (fs_data e2) \<noteq> None" by (auto dest: buf_ofD)
    then show ?thesis using u n(3,4) False by (simp add: untouched_def buf_of_def)
  qed (simp add: buf_of_def)
  ultimately show ?thesis by (simp add: entry_bytes_def)
qed

text \<open>
  C7: a write to one file leaves the contents of every other file alone, when the two have different
  vnodes, entries and data blocks.
\<close>

theorem vop_write_other_file:
  assumes K: "alloc_contract K" and ok: "file_ok s node fo" and src: "unat nbyte \<le> length src"
    and sz: "length (file_bytes s node) + unat nbyte + 511 < 2^32"
    and w: "vop_write K node fo src nbyte s = Some (r, s')"
    and n: "node_of s node = Some n" "node_of s m = Some n2" "m \<noteq> node"
    and e: "fs_of (heap s) (vn_dev_info n) = Some e" "fs_of (heap s) (vn_dev_info n2) = Some e2"
    and d2: "data_ok (heap s) e2"
    and dis: "vn_dev_info n2 \<noteq> vn_dev_info n" "fs_data e2 \<noteq> fs_data e \<or> fs_data e2 = NULL"
  shows "file_bytes s' m = file_bytes s m"
proof -
  let ?p = "vn_dev_info n" and ?q = "vn_dev_info n2"
  from ok n e obtain f where f: "fobj_of s fo = Some f" and hh: "has_handle (heap s) e fo"
    and fn: "fo_node f = node" and vs: "vn_st_size n = st_size (fs_stat e)"
    and d: "data_ok (heap s) e" and off: "unat (fo_offset f) \<le> entry_size e"
    and p0: "?p \<noteq> NULL" by (auto elim!: file_okE)
  obtain q where q: "search_dmass_ctl_data ?p fo s = Some q" "q \<noteq> NULL"
    using search_handle [OF e(1) hh] by blast
  have lbs: "length (take (unat nbyte) src) = unat nbyte" using src by simp
  have sz': "entry_size e + unat nbyte + 511 < 2^32"
    using sz read_prefix(2) [OF d] by (simp add: file_bytes_entry [OF n(1) e(1)])
  note lim = file_limits [OF d vs off]
  have sep: "?q \<noteq> fs_data e" "fs_data e2 \<noteq> ?p \<or> fs_data e2 = NULL"
    using d d2 fs_not_buf [OF e(1)] fs_not_buf [OF e(2)] fs_ofD [OF e(2)]
    by (auto simp: data_ok_def)
  have fb: "file_bytes s m = entry_bytes (heap s) e2" by (rule file_bytes_entry [OF n(2) e(2)])
  from K e(1) d off sz' lbs show ?thesis
  proof (cases rule: store_ok)
    case (nomem s1)
    then have "s' = s1" using w n f q p0 lim fn by (simp add: vop_write_def)
    then show ?thesis using nomem(2) frame_of [OF nomem(3)]
      by (simp add: file_bytes_def cong: option.case_cong)
  next
    case (ok s1 e1 s2)
    let ?o = "fo_offset f + ucast nbyte"
    let ?s3 = "put_fobj fo (f\<lparr>fo_offset := ?o\<rparr>) s2" and ?B = "st_size (fs_stat e1) <=s ?o"
    have s': "s' = (if ?B then set_size node n ?p e1 ?o ?s3 else ?s3)"
      using w n f q p0 lim fn ok(1,2,3) src
      by (auto simp: vop_write_def Let_def set_size_def split: if_splits)
    have t: "fs_of (heap s2) ?q = Some e2 \<and> entry_bytes (heap s2) e2 = entry_bytes (heap s) e2"
      using entry_frame [OF ok(9) e(2) d2] dis sep by simp
    have "fs_of (heap s') ?q = Some e2 \<and> node_of s' m = Some n2 \<and> buf_of (heap s') = buf_of (heap s2)"
      unfolding s' using t dis(1) n(2,3) frame_of [OF ok(4)] entry_upd [of ?s3 ?p e1] ok(5)
      by (simp add: set_size_def deref)
    then show ?thesis using t fb by (simp add: file_bytes_def entry_bytes_def)
  qed
qed

end
