(* ===== verification/Vop_Handles.thy ===== *)
theory Vop_Handles
  imports Vop_File_Laws
begin

text \<open>
  Open and close against the abstract list of the handles of an entry: the list of file objects
  that have it open, most recent first, with \<open>refer\<close> its length.
\<close>

definition key_of :: "dheap \<Rightarrow> addr \<Rightarrow> s32 option" where
  "key_of h x = map_option fsx_handler_index (fsx_of h x)"

definition handles :: "dheap \<Rightarrow> addr \<Rightarrow> s32 list \<Rightarrow> bool" where
  "handles h p ks \<longleftrightarrow>
     (\<exists>e xs. fs_of h p = Some e \<and> chain (ctl_next_of h) (fs_pDmassFsX e) xs \<and>
        map (key_of h) xs = map Some ks \<and> fs_refer e = word_of_nat (length ks))"

lemma handlesE:
  assumes "handles h p ks"
  obtains e xs where "fs_of h p = Some e" "chain (ctl_next_of h) (fs_pDmassFsX e) xs"
    "map (key_of h) xs = map Some ks" "fs_refer e = word_of_nat (length ks)" "p \<noteq> NULL"
    "\<And>x key. x \<in> set xs \<Longrightarrow> ctl_is h key x = Some (key_of h x = Some key)"
    "\<And>x. x \<in> set xs \<Longrightarrow> fsx_of h x \<noteq> None"
proof -
  from assms obtain e xs where *: "fs_of h p = Some e" "chain (ctl_next_of h) (fs_pDmassFsX e) xs"
    "map (key_of h) xs = map Some ks" "fs_refer e = word_of_nat (length ks)"
    by (auto simp: handles_def)
  have k: "fsx_of h x \<noteq> None" if "x \<in> set xs" for x
  proof -
    have "key_of h x \<in> set (map Some ks)" using that *(3) by (metis imageI list.set_map)
    then show ?thesis by (auto simp: key_of_def)
  qed
  then have "ctl_is h key x = Some (key_of h x = Some key)" if "x \<in> set xs" for x key
    using that by (fastforce simp: ctl_is_def key_of_def)
  with * k that show thesis by (auto dest: fs_ofD)
qed

lemma handles_has_handle:
  "handles h p ks \<Longrightarrow> fs_of h p = Some e \<Longrightarrow> has_handle h e key \<longleftrightarrow> key \<in> set ks"
proof (erule handlesE)
  fix e' xs
  assume *: "fs_of h p = Some e" "fs_of h p = Some e'" "chain (ctl_next_of h) (fs_pDmassFsX e') xs"
    "map (key_of h) xs = map Some ks"
  then have c: "chain (ctl_next_of h) (fs_pDmassFsX e) ys \<longleftrightarrow> ys = xs" for ys
    using chain_unique by auto
  have "key \<in> set ks \<longleftrightarrow> Some key \<in> set (map (key_of h) xs)" unfolding *(4) by auto
  also have "\<dots> \<longleftrightarrow> (\<exists>x \<in> set xs. key_of h x = Some key)"
    by (auto simp: image_iff) metis
  also have "\<dots> \<longleftrightarrow> has_handle h e key" unfolding has_handle_def key_of_def c by simp
  finally show ?thesis by simp
qed

lemma search_handles:
  assumes "handles (heap s) p ks"
  shows "\<exists>q. search_dmass_ctl_data p key s = Some q \<and> (q = NULL \<longleftrightarrow> key \<notin> set ks)"
  using assms
proof (rule handlesE)
  fix e xs
  assume *: "fs_of (heap s) p = Some e" "chain (ctl_next_of (heap s)) (fs_pDmassFsX e) xs"
    "map (key_of (heap s)) xs = map Some ks"
    "\<And>x key. x \<in> set xs \<Longrightarrow> ctl_is (heap s) key x = Some (key_of (heap s) x = Some key)"
  show ?thesis
  proof (cases "key \<in> set ks")
    case True
    then show ?thesis using search_handle [OF *(1)] handles_has_handle [OF assms *(1)] by blast
  next
    case False
    then have "Some key \<notin> set (map (key_of (heap s)) xs)" unfolding *(3) by auto
    then have "ctl_is (heap s) key x = Some False" if "x \<in> set xs" for x
      using that *(4) [OF that, of key] by force
    then have "ctl_search (heap s) key (fs_pDmassFsX e) = Some NULL" by (rule ctl.not_found [OF *(2)])
    then show ?thesis using False *(1) by (simp add: search_dmass_ctl_data_def)
  qed
qed

text \<open>
  C8: opening a file either finds no memory, returns -1 and leaves the heap alone, or returns 0, puts
  the file object in front of the entry's handles, and sets the offset to the size for an append.
\<close>

theorem vop_open_handles:
  assumes K: "alloc_contract K" and n: "node_of s node = Some n" and f: "fobj_of s fo = Some f"
    and h: "handles (heap s) (vn_dev_info n) ks"
  shows "\<exists>r s'. vop_open K node fo s = Some (r, s') \<and>
    (r = -1 \<and> heap s' = heap s \<and> fobjs s' = fobjs s \<or>
     r = 0 \<and> handles (heap s') (vn_dev_info n) (fo # ks) \<and>
     untouched {vn_dev_info n} (heap s) (heap s') \<and>
     fobj_of s' fo = Some (if fo_flags f AND O_APPEND K \<noteq> 0
       then f\<lparr>fo_offset := st_size (fs_stat (the (fs_of (heap s) (vn_dev_info n))))\<rparr> else f))"
  using h
proof (rule handlesE)
  fix e xs
  assume *: "fs_of (heap s) (vn_dev_info n) = Some e"
    "chain (ctl_next_of (heap s)) (fs_pDmassFsX e) xs" "map (key_of (heap s)) xs = map Some ks"
    "fs_refer e = word_of_nat (length ks)" "vn_dev_info n \<noteq> NULL"
    "\<And>x. x \<in> set xs \<Longrightarrow> fsx_of (heap s) x \<noteq> None"
  let ?p = "vn_dev_info n"
  have fo0: "fo \<noteq> NULL" using f by (auto simp: fobj_of_def)
  obtain t s1 where m: "dmass_malloc K (sizeof_fsx K) s = (t, s1)" by fastforce
  from K m show ?thesis
  proof (cases rule: malloc_cases)
    case null
    then show ?thesis using n *(5) m
      by (intro exI [of _ "-1"] exI [of _ s1])
        (simp add: vop_open_def create_dmass_ctl_data_def frame_def)
  next
    case (block b)
    have tp: "t \<noteq> ?p" "t \<notin> set xs"
      using block(2) fs_ofD [OF *(1)] *(6) [of t] fsx_ofD [of "heap s" t] by auto
    let ?x = "\<lparr>fsx_next = fs_pDmassFsX e, fsx_handler_index = fo, fsx_current = NULL\<rparr>"
    let ?e = "e\<lparr>fs_pDmassFsX := t, fs_refer := fs_refer e + 1\<rparr>"
    let ?s2 = "put ?p (FsObj ?e) (put t (FsXObj ?x) s1)"
    have c: "create_dmass_ctl_data K ?p fo s = Some (t, ?s2)"
      using m block * tp by (simp add: create_dmass_ctl_data_def Let_def deref)
    have xs: "fsx_of (heap ?s2) x = fsx_of (heap s) x" if "x \<in> set xs" for x
      using that tp block(4) *(6) [OF that] fs_not_others [OF *(1)] by (auto simp: deref)
    have nx: "chain (ctl_next_of (heap ?s2)) t (t # xs)"
    proof -
      have "chain (ctl_next_of (heap ?s2)) (fs_pDmassFsX e) xs"
        using *(2) chain_cong [of xs "ctl_next_of (heap s)" "ctl_next_of (heap ?s2)"] xs
        by (simp add: ctl_next_of_def)
      moreover have "ctl_next_of (heap ?s2) t = Some (fs_pDmassFsX e)"
        using tp(1) block(1) by (simp add: ctl_next_of_def deref)
      ultimately show ?thesis using block(1) by simp
    qed
    have "map (key_of (heap ?s2)) (t # xs) = map Some (fo # ks)"
    proof -
      have "map (key_of (heap ?s2)) xs = map (key_of (heap s)) xs" using xs by (simp add: key_of_def)
      moreover have "key_of (heap ?s2) t = Some fo" using tp(1) block(1) by (simp add: key_of_def deref)
      ultimately show ?thesis using *(3) by simp
    qed
    then have H: "handles (heap ?s2) ?p (fo # ks)"
      unfolding handles_def using nx *(4,5)
      by (intro exI [of _ ?e] exI [of _ "t # xs"]) (simp add: deref)
    have U: "untouched {?p} (heap s) (heap ?s2)" using block(2,4) by (auto simp: untouched_def)
    have fo1: "fobj_of ?s2 fo = Some f" using f frame_of [OF block(5)] by (simp add: deref)
    let ?s3 = "if fo_flags f AND O_APPEND K \<noteq> 0
       then put_fobj fo (f\<lparr>fo_offset := st_size (fs_stat e)\<rparr>) ?s2 else ?s2"
    have "vop_open K node fo s = Some (0, ?s3)"
      using n *(5) c block(1) fo1 by (simp add: vop_open_def deref)
    moreover have "fobj_of ?s3 fo = Some (if fo_flags f AND O_APPEND K \<noteq> 0
       then f\<lparr>fo_offset := st_size (fs_stat e)\<rparr> else f)" using fo1 fo0 by (simp add: deref)
    ultimately show ?thesis using H U *(1)
      by (intro exI [of _ 0] exI [of _ ?s3]) simp
  qed
qed

text \<open>The key searched for, if any, splits the list at its first occurrence.\<close>

lemma find_link_handles:
  assumes e: "fs_of h p = Some e" and c: "chain (ctl_next_of h) (fs_pDmassFsX e) (as @ a # bs)"
    and k: "\<And>x. x \<in> set as \<Longrightarrow> ctl_is h key x = Some False" "ctl_is h key a = Some True"
  shows "find_ctl_link h key (CtlHead p) = Some (Some (if as = [] then CtlHead p else CtlNext (last as), a))"
  using ctl_link.walk_found [of h "CtlHead p" "fs_pDmassFsX e" as a bs key] assms by simp

text \<open>
  C9: closing a file object that has the entry open succeeds, takes exactly its most recent handle off
  the list and touches nothing but the entry, the handle and its neighbour; closing any other file
  object returns -1 and changes nothing.
\<close>

theorem vop_close_handles:
  assumes n: "node_of s node = Some n" and h: "handles (heap s) (vn_dev_info n) ks"
  shows "\<exists>s'. vop_close K node fo s = (if fo \<in> set ks then Some (0, s') else Some (-1, s)) \<and>
    (fo \<in> set ks \<longrightarrow> handles (heap s') (vn_dev_info n) (remove1 fo ks) \<and> frame s s' \<and>
       (\<forall>a. fs_of (heap s) a = None \<longrightarrow> fsx_of (heap s) a = None \<longrightarrow> heap s' a = heap s a) \<and>
       (\<forall>a. a \<noteq> vn_dev_info n \<longrightarrow> fs_of (heap s') a = fs_of (heap s) a))"
  using h
proof (rule handlesE)
  let ?p = "vn_dev_info n"
  fix e xs
  assume *: "fs_of (heap s) ?p = Some e"
    "chain (ctl_next_of (heap s)) (fs_pDmassFsX e) xs" "map (key_of (heap s)) xs = map Some ks"
    "fs_refer e = word_of_nat (length ks)" "?p \<noteq> NULL"
    "\<And>x key. x \<in> set xs \<Longrightarrow> ctl_is (heap s) key x = Some (key_of (heap s) x = Some key)"
    "\<And>x. x \<in> set xs \<Longrightarrow> fsx_of (heap s) x \<noteq> None"
  obtain q where q: "search_dmass_ctl_data ?p fo s = Some q" "q = NULL \<longleftrightarrow> fo \<notin> set ks"
    using search_handles [OF h] by blast
  show ?thesis
  proof (cases "fo \<in> set ks")
    case False
    then show ?thesis using n *(5) q by (simp add: vop_close_def)
  next
    case True
    then have "Some fo \<in> set (map (key_of (heap s)) xs)" unfolding *(3) by auto
    then have "\<exists>x \<in> set xs. key_of (heap s) x = Some fo" by auto
    then obtain as a bs where xs: "xs = as @ a # bs" "key_of (heap s) a = Some fo"
      "\<And>x. x \<in> set as \<Longrightarrow> key_of (heap s) x \<noteq> Some fo"
      using split_list_first_prop [of xs "\<lambda>x. key_of (heap s) x = Some fo"] by blast
    have c: "chain (ctl_next_of (heap s)) (fs_pDmassFsX e) (as @ a # bs)" using *(2) xs(1) by simp
    have pn: "?p \<notin> set xs" using *(7) [of ?p] fs_not_others [OF *(1)] by auto
    moreover have ls: "as = [] \<or> last as \<in> set xs" using xs(1) last_in_set [of as] by auto
    ultimately have ap: "a \<noteq> ?p" "last as \<noteq> ?p \<or> as = []" using xs(1) by auto
    obtain x where x: "fsx_of (heap s) a = Some x" using *(7) [of a] xs(1) by auto
    have nx: "ctl_next_of (heap s) a = Some (fsx_next x)" using x by (simp add: ctl_next_of_def)
    have dis: "distinct xs" using chain_distinct [OF *(2)] .
    have fl: "find_ctl_link (heap s) fo (CtlHead ?p)
        = Some (Some (if as = [] then CtlHead ?p else CtlNext (last as), a))"
      using *(6) xs by (intro find_link_handles [OF *(1) c]) auto
    have rk: "map (key_of (heap s)) (as @ bs) = map Some (remove1 fo ks)"
      using remove1_map_Some [of "key_of (heap s)" as a bs ks fo] *(3) xs by simp
    have len: "fs_refer e - 1 = word_of_nat (length (remove1 fo ks))"
    proof -
      have "length ks = Suc (length (remove1 fo ks))"
        using True length_pos_if_in_set [OF True] by (simp add: length_remove1)
      then show ?thesis using *(4) by simp
    qed
    have a0: "a \<noteq> NULL" using chain_NULL_notin [OF *(2)] xs(1) by auto
    text \<open>The state in which the entry's link to the handle is gone.\<close>
    define hd' where "hd' = (if as = [] then fsx_next x else fs_pDmassFsX e)"
    define h1 where "h1 = (if as = [] then heap s
        else (heap s)(last as \<mapsto> FsXObj (the (fsx_of (heap s) (last as))\<lparr>fsx_next := fsx_next x\<rparr>)))"
    define s' where "s' = s\<lparr>heap := (h1(?p \<mapsto> FsObj (e\<lparr>fs_pDmassFsX := hd', fs_refer := fs_refer e - 1\<rparr>)))(a := None),
        kst := k_free K (kst s) a\<rparr>"
    have "vop_close K node fo s = Some (0, s')"
    proof (cases "as = []")
      case True
      then show ?thesis
        using n *(1,5) q \<open>fo \<in> set ks\<close> fl x ap a0
        by (simp add: vop_close_def delete_dmass_ctl_data_def deref dmass_free_def s'_def h1_def
            hd'_def put_def fsx_ofD fun_upd_twist)
    next
      case False
      then obtain y where y: "fsx_of (heap s) (last as) = Some y" using *(7) [of "last as"] xs(1) by auto
      have "last as \<noteq> a" using dis xs(1) False by auto
      with False y show ?thesis
        using n *(1,5) q \<open>fo \<in> set ks\<close> fl x ap a0
        by (simp add: vop_close_def delete_dmass_ctl_data_def deref dmass_free_def s'_def h1_def
            hd'_def put_def fsx_ofD fun_upd_twist)
    qed
    moreover have fx: "fsx_of (heap s') b =
        (if as \<noteq> [] \<and> b = last as then map_option (\<lambda>y. y\<lparr>fsx_next := fsx_next x\<rparr>) (fsx_of (heap s) b)
         else fsx_of (heap s) b)" if "b \<in> set (as @ bs)" for b
    proof -
      have "b \<noteq> a" "b \<noteq> ?p" "b \<in> set xs" using that dis pn xs(1) by auto
      then show ?thesis using *(7) [of b] fsx_ofD [of "heap s" b]
        by (auto simp: s'_def h1_def deref)
    qed
    have "handles (heap s') ?p (remove1 fo ks)"
    proof -
      have "map (key_of (heap s')) (as @ bs) = map Some (remove1 fo ks)"
        unfolding rk [symmetric] using fx by (simp add: key_of_def option.map_comp o_def)
      moreover have "chain (ctl_next_of (heap s')) hd' (as @ bs)"
      proof (cases "as = []")
        case True
        then have "chain (ctl_next_of (heap s')) p bs = chain (ctl_next_of (heap s)) p bs" for p
          using fx by (intro chain_cong) (simp add: ctl_next_of_def)
        then show ?thesis using chain_unlink(1) [OF c nx True] True by (simp add: hd'_def)
      next
        case False
        have "chain (ctl_next_of (heap s')) (fs_pDmassFsX e) (as @ bs) =
            chain ((ctl_next_of (heap s))(last as := Some (fsx_next x))) (fs_pDmassFsX e) (as @ bs)"
        proof (rule chain_cong)
          fix b assume b: "b \<in> set (as @ bs)"
          have "fsx_of (heap s) b \<noteq> None" using *(7) [of b] b xs(1) by auto
          then show "ctl_next_of (heap s') b = ((ctl_next_of (heap s))(last as := Some (fsx_next x))) b"
            using fx [OF b] False by (auto simp: ctl_next_of_def)
        qed
        then show ?thesis using chain_unlink(2) [OF c nx False] False by (simp add: hd'_def)
      qed
      moreover have "fs_of (heap s') ?p = Some (e\<lparr>fs_pDmassFsX := hd', fs_refer := fs_refer e - 1\<rparr>)"
        using ap *(5) by (simp add: s'_def deref)
      ultimately show ?thesis unfolding handles_def using len
        by (intro exI [of _ "e\<lparr>fs_pDmassFsX := hd', fs_refer := fs_refer e - 1\<rparr>"]
            exI [of _ "as @ bs"] conjI) simp_all
    qed
    moreover have "frame s s'" by (simp add: s'_def frame_def)
    moreover have "\<forall>b. fs_of (heap s) b = None \<longrightarrow> fsx_of (heap s) b = None \<longrightarrow> heap s' b = heap s b"
      using *(1) x *(7) [of "last as"] xs(1) last_in_set [of as] by (auto simp: s'_def h1_def)
    moreover have "\<forall>b. b \<noteq> ?p \<longrightarrow> fs_of (heap s') b = fs_of (heap s) b"
    proof (intro allI impI)
      fix b assume "b \<noteq> ?p"
      moreover have "fs_of (heap s) b = None" if "b = a \<or> as \<noteq> [] \<and> b = last as"
        using that *(7) [of b] xs(1) last_in_set [of as] fs_not_others [of "heap s" b]
        by (cases "fs_of (heap s) b") auto
      ultimately show "fs_of (heap s') b = fs_of (heap s) b" by (auto simp: s'_def h1_def deref)
    qed
    ultimately show ?thesis using True by auto
  qed
qed

text \<open>
  Closing a file object right after opening it gives the heap back exactly as it was.
\<close>

theorem open_close_restores:
  assumes K: "alloc_contract K" and n: "node_of s node = Some n"
    and o: "vop_open K node fo s = Some (0, s1)"
  shows "\<exists>s2. vop_close K node fo s1 = Some (0, s2) \<and> heap s2 = heap s \<and> vnodes s2 = vnodes s"
proof -
  let ?p = "vn_dev_info n"
  obtain t m1 where m: "dmass_malloc K (sizeof_fsx K) s = (t, m1)" by fastforce
  from K m show ?thesis
  proof (cases rule: malloc_cases)
    case null
    then show ?thesis using n m o
      by (simp add: vop_open_def create_dmass_ctl_data_def Let_def split: if_splits)
  next
    case (block b)
    have p0: "?p \<noteq> NULL" using o n by (auto simp: vop_open_def)
    then obtain e where e: "fs_of (heap m1) ?p = Some e"
      using o n m block(1)
      by (auto simp: vop_open_def create_dmass_ctl_data_def Let_def split: Option.bind_splits)
    then have tp: "t \<noteq> ?p" and es: "fs_of (heap s) ?p = Some e"
      using block(1,4) by (auto simp: deref split: if_splits)
    let ?x = "\<lparr>fsx_next = fs_pDmassFsX e, fsx_handler_index = fo, fsx_current = NULL\<rparr>"
    let ?e = "e\<lparr>fs_pDmassFsX := t, fs_refer := fs_refer e + 1\<rparr>"
    let ?h = "(heap s)(t \<mapsto> FsXObj ?x, ?p \<mapsto> FsObj ?e)"
    have "create_dmass_ctl_data K ?p fo s = Some (t, put ?p (FsObj ?e) (put t (FsXObj ?x) m1))"
      using m block e tp by (simp add: create_dmass_ctl_data_def Let_def deref)
    then have h1: "heap s1 = ?h" and v1: "vnodes s1 = vnodes s"
      using o n p0 block(1,4,5)
      by (auto simp: vop_open_def Let_def frame_def split: if_splits Option.bind_splits)
    have n1: "node_of s1 node = Some n" using n v1 by (simp add: node_of_def split: if_splits)
    have r: "fs_of ?h ?p = Some ?e" "fsx_of ?h t = Some ?x"
      using p0 tp block(1) by (simp_all add: deref)
    have "search_dmass_ctl_data ?p fo s1 = Some t"
      using r h1 block(1) by (simp add: search_dmass_ctl_data_def ctl_search.simps ctl_is_def)
    moreover have "find_ctl_link (heap s1) fo (CtlHead ?p) = Some (Some (CtlHead ?p, t))"
      using r h1 block(1) by (simp add: find_ctl_link.simps ctl_is_def)
    moreover have "e = ?e\<lparr>fs_pDmassFsX := fs_pDmassFsX e, fs_refer := fs_refer ?e - 1\<rparr>" by simp
    moreover have "(heap s)(t := None, ?p \<mapsto> FsObj e) = heap s"
      using es block(2) tp by (auto simp: fun_eq_iff dest: fs_ofD)
    ultimately show ?thesis
      using n1 p0 block(1) r tp v1 unfolding vop_close_def delete_dmass_ctl_data_def
      by (simp add: h1 deref dmass_free_def put_def fun_upd_twist)
  qed
qed

end
