(* ===== verification/Vop_Dir_Props.thy ===== *)
theory Vop_Dir_Props
  imports Vop_Dir Namespace Vop_Handles
begin

text \<open>
  What the name space operations do to the abstract forest of \<open>Namespace\<close>.
\<close>

section \<open>Making an entry\<close>

lemma name_cpy_cases:
  assumes "alloc_contract K" and "name_cpy K nm s = (p, s')"
  obtains (null) "p = NULL" "heap s' = heap s" "frame s s'"
  | (block) "p \<noteq> NULL" "heap s p = None" "heap s' = (heap s)(p \<mapsto> Str nm)" "frame s s'" "nm \<noteq> []"
proof (cases "nm = []")
  case True
  then show thesis using assms(2) null by (simp add: name_cpy_def)
next
  case False
  obtain q t where m: "dmass_malloc K (word_of_nat (length nm + 1)) s = (q, t)" by fastforce
  from assms(1) m show thesis
  proof (cases rule: malloc_cases)
    case null
    then show thesis using assms(2) False m that(1) by (simp add: name_cpy_def)
  next
    case (block b)
    then show thesis using assms(2) False m that(2) by (auto simp: name_cpy_def frame_def)
  qed
qed

lemma init_entry_frame:
  "init_entry_date K st s = (r, st', s') \<Longrightarrow>
   heap s' = heap s \<and> frame s s' \<and> (st_size st = 0 \<longrightarrow> st_size st' = 0)"
  by (auto simp: init_entry_date_def Let_def frame_def split: prod.splits if_splits)

lemma create_info_cases:
  assumes K: "alloc_contract K"
  obtains (null) s' where "create_dmass_info K mode nm s = Some (NULL, s')" "heap s' = heap s" "frame s s'"
  | (entry) p s' e where "create_dmass_info K mode nm s = Some (p, s')" "p \<noteq> NULL" "heap s p = None"
      "frame s s'" "untouched {} (heap s) (heap s')" "fs_of (heap s') p = Some e"
      "fs_next_dir e = NULL" "fs_pDmassFsX e = NULL" "fs_refer e = 0" "fs_data e = NULL"
      "st_mode (fs_stat e) = mode" "st_size (fs_stat e) = 0"
      "fs_name e = NULL \<or> heap s (fs_name e) = None \<and> str_of (heap s') (fs_name e) = Some nm"
      "fs_next e = NULL" "\<And>a. a \<noteq> p \<Longrightarrow> fs_of (heap s') a = fs_of (heap s) a"
proof -
  obtain p s1 where m: "dmass_malloc K (sizeof_fs K) s = (p, s1)" by fastforce
  obtain n1 s2 where c1: "name_cpy K nm s1 = (n1, s2)" by fastforce
  obtain n2 s3 where c2: "name_cpy K nm s2 = (n2, s3)" by fastforce
  obtain r st s4 where i: "init_entry_date K (zero_stat K) s3 = (r, st, s4)" by (metis prod_cases3)
  have I: "heap s4 = heap s3" "frame s3 s4" "st_size st = 0"
    using init_entry_frame [OF i] by (simp_all add: zero_stat_def)
  from K m show thesis
  proof (cases rule: malloc_cases)
    case null
    then show thesis using m that(1) by (simp add: create_dmass_info_def)
  next
    case (block b)
    note B = block
    from K c1 show thesis
    proof (cases rule: name_cpy_cases)
      case null
      have "heap s2 p \<noteq> None \<or> p = NULL" using null B by simp
      then obtain t where f: "dmass_free K p s2 = Some t" "frame s2 t"
          "heap t = (if p = NULL then heap s2 else (heap s2)(p := None))"
        by (rule free_some)
      have "heap t = heap s" using f(3) null B by (simp add: fun_upd_idem)
      then show thesis using m c1 null B f that(1) [of t] frame_trans [OF frame_trans [OF B(5) null(3)] f(2)]
        by (simp add: create_dmass_info_def Let_def)
    next
      case block
      note N = block
      let ?e = "\<lparr>fs_next = NULL, fs_next_dir = NULL, fs_pNode = NULL, fs_pDmassFsX = NULL,
         fs_refer = 0, fs_name = n2, fs_stat = st\<lparr>st_mode := mode\<rparr>, fs_data = NULL\<rparr>"
      let ?t = "put p (FsObj ?e) s4"
      have c: "create_dmass_info K mode nm s = Some (p, ?t)"
        using m c1 c2 i B(1) N(1) by (simp add: create_dmass_info_def Let_def)
      have fr: "frame s ?t"
        using B(5) N(4) I(2) name_cpy_cases [OF K c2] by (metis frame_simps(2) frame_trans)
      have u: "untouched {} (heap s) (heap ?t) \<and>
          (n2 = NULL \<or> heap s n2 = None \<and> str_of (heap ?t) n2 = Some nm) \<and>
          (\<forall>a. a \<noteq> p \<longrightarrow> fs_of (heap ?t) a = fs_of (heap s) a)"
        using K c2
      proof (cases rule: name_cpy_cases)
        case null
        then show ?thesis using B(2,4) N(2,3) I(1) by (auto simp: untouched_def fs_of_def)
      next
        case block
        then show ?thesis using B(1,2,4) N(2,3) I(1)
          by (auto simp: untouched_def deref str_of_def fs_of_def split: if_splits)
      qed
      show thesis
        by (rule that(2) [where e = ?e, OF c B(1,2) fr]) (use u I(3) B(1) in \<open>simp_all add: deref\<close>)
    qed
  qed
qed

section \<open>Linking an entry\<close>

lemma untouched_view:
  assumes "untouched A h h'" "dview h a = Some x" "a \<notin> A"
    "\<And>e. fs_of h a = Some e \<Longrightarrow> fs_name e \<notin> A"
  shows "dview h' a = Some x"
proof -
  obtain e nm where e: "fs_of h a = Some e" "str_of h (fs_name e) = Some nm"
    "x = (fs_next e, fs_next_dir e, nm)"
    using assms(2) by (auto simp: dview_def split: option.splits)
  then have "fs_of h' a = Some e" "str_of h' (fs_name e) = Some nm"
    using assms(1,3) assms(4) [OF e(1)] fs_ofD [OF e(1)] str_ofD [OF e(2)]
    by (auto simp: untouched_def fs_of_def str_of_def)
  then show ?thesis using e(3) by (simp add: dview_def)
qed

lemma dview_put_fs:
  assumes "fs_of h p = Some e" "fs_name e' = fs_name e"
  shows "dview (h(p \<mapsto> FsObj e')) a =
    (if a = p then (case str_of h (fs_name e) of None \<Rightarrow> None
       | Some nm \<Rightarrow> Some (fs_next e', fs_next_dir e', nm)) else dview h a)"
proof -
  have "str_of (h(p \<mapsto> FsObj e')) = str_of h"
    using assms(1) by (auto simp: fun_eq_iff str_of_def dest!: fs_ofD)
  then show ?thesis using assms fs_ofD [OF assms(1)] by (auto simp: dview_def deref cong: option.case_cong)
qed

lemma dview_put_same:
  assumes "fs_of h p = Some e" "fs_name e' = fs_name e" "fs_next e' = fs_next e"
    "fs_next_dir e' = fs_next_dir e"
  shows "dview (h(p \<mapsto> FsObj e')) = dview h"
proof
  fix a show "dview (h(p \<mapsto> FsObj e')) a = dview h a"
    using dview_put_fs [OF assms(1,2), of a] assms by (auto simp: dview_def split: option.splits)
qed

lemma names_owned_put:
  assumes "fs_of h p = Some e" "fs_name e' = fs_name e"
  shows "names_owned (h(p \<mapsto> FsObj e')) A = names_owned h A"
  by (rule names_owned_cong) (use assms fs_ofD [OF assms(1)] in \<open>auto simp: name_of_def deref\<close>)

lemma ns_put_same:
  assumes "fs_of (heap s) p = Some e" "fs_name e' = fs_name e" "fs_next e' = fs_next e"
    "fs_next_dir e' = fs_next_dir e"
  shows "ns (put p (FsObj e') s) ts = ns s ts"
  unfolding ns_def heap_put put_other dview_put_same [OF assms] names_owned_put [OF assms(1,2)] ..

lemma ns_heap: "heap s' = heap s \<Longrightarrow> pTree s' = pTree s \<Longrightarrow> ns s' ts = ns s ts"
  by (simp add: ns_def)

lemma link_first_ok:
  assumes d: "fs_of (heap s) dir = Some d" and e: "fs_of (heap s) p = Some e" and "p \<noteq> dir"
  obtains s' where "link_first dir p s = Some s'" "frame s s'"
    "heap s' = (heap s)(p \<mapsto> FsObj (e\<lparr>fs_next := fs_next_dir d\<rparr>), dir \<mapsto> FsObj (d\<lparr>fs_next_dir := p\<rparr>))"
proof -
  have "p \<noteq> NULL" "dir \<noteq> NULL" using d e by (auto dest: fs_ofD)
  then show thesis using assms that by (simp add: link_first_def deref frame_def)
qed

text \<open>A new entry put in front of a directory of the forest.\<close>

lemma link_new_entry:
  assumes n: "ns s ts" and dd: "dir \<in> set (addrs ts)" and f: "frame s s1"
    and u: "untouched {} (heap s) (heap s1)" and p: "heap s p = None" "p \<noteq> NULL"
    and e: "fs_of (heap s1) p = Some e" "fs_next_dir e = NULL"
  obtains s2 where "link_first dir p s1 = Some s2" "frame s s2" "untouched {dir} (heap s) (heap s2)"
    "\<exists>e'. fs_of (heap s2) p = Some e' \<and> fs_data e' = fs_data e \<and> fs_stat e' = fs_stat e \<and>
       fs_pDmassFsX e' = fs_pDmassFsX e \<and> fs_refer e' = fs_refer e \<and> fs_name e' = fs_name e"
    "str_of (heap s1) (fs_name e) = Some nm \<Longrightarrow> heap s (fs_name e) = None \<Longrightarrow> CHR 0x00 \<notin> set nm \<Longrightarrow>
       ns s2 (add_kid dir (DNode p nm []) ts)"
proof -
  have F: "forest (dview (heap s)) (pTree s) ts" and D: "distinct (addrs ts)"
    and O: "names_owned (heap s) (set (addrs ts))" using n by (auto simp: ns_def)
  have pf: "p \<notin> set (addrs ts)"
  proof
    assume "p \<in> set (addrs ts)"
    then obtain t where "t \<in> subtrees ts" "d_addr t = p" by (auto simp: set_addrs)
    then show False using forest_subtree [OF F, of p "d_name t" "d_kids t"] p
      by (cases t) (auto simp: dview_Some dest: fs_ofD)
  qed
  have v1: "dview (heap s1) a = dview (heap s) a" if "a \<in> set (addrs ts)" for a
  proof -
    from that obtain t where "t \<in> subtrees ts" "d_addr t = a" by (auto simp: set_addrs)
    then obtain x where "dview (heap s) a = Some x"
      using forest_subtree [OF F, of a "d_name t" "d_kids t"] by (cases t) auto
    then show ?thesis using untouched_view [OF u] by simp
  qed
  then have F1: "forest (dview (heap s1)) (pTree s) ts" using F forest_cong by blast
  from dd obtain td where td: "td \<in> subtrees ts" "d_addr td = dir" by (auto simp: set_addrs)
  obtain nx nd dn where vd: "dview (heap s1) dir = Some (nx, nd, dn)"
    using forest_subtree [OF F1, of dir "d_name td" "d_kids td"] td by (cases td) auto
  then obtain d where d: "fs_of (heap s1) dir = Some d" "str_of (heap s1) (fs_name d) = Some dn"
    "nx = fs_next d" "nd = fs_next_dir d" by (auto simp: dview_Some)
  have pd: "p \<noteq> dir" using pf dd by auto
  let ?e' = "e\<lparr>fs_next := fs_next_dir d\<rparr>" and ?d' = "d\<lparr>fs_next_dir := p\<rparr>"
  show thesis
  proof (rule link_first_ok [OF d(1) e(1) pd])
    fix s2
    assume l: "link_first dir p s1 = Some s2" "frame s1 s2"
      "heap s2 = (heap s1)(p \<mapsto> FsObj ?e', dir \<mapsto> FsObj ?d')"
    have 1: "fs_of ((heap s1)(p \<mapsto> FsObj ?e')) dir = Some d" using d(1) pd by (simp add: deref)
    have st: "str_of ((heap s1)(p \<mapsto> FsObj ?e')) = str_of (heap s1)"
      using e(1) by (auto simp: fun_eq_iff str_of_def dest!: fs_ofD)
    have "dview (heap s2) a = ((dview ((heap s1)(p \<mapsto> FsObj ?e')))(dir := Some (nx, p, dn))) a" for a
      unfolding l(3) using dview_put_fs [OF 1, of ?d'] d st by simp
    then have V: "dview (heap s2) = (dview ((heap s1)(p \<mapsto> FsObj ?e')))(dir := Some (nx, p, dn))"
      by blast
    let ?v = "dview ((heap s1)(p \<mapsto> FsObj ?e'))"
    have vo: "?v a = dview (heap s1) a" if "a \<noteq> p" for a
      using that dview_put_fs [OF e(1), of ?e'] by simp
    have "forest ?v (pTree s) ts"
      using F1 forest_cong [of ts ?v "dview (heap s1)"] vo pf by metis
    moreover have "?v dir = Some (nx, nd, dn)" using vd vo pd by simp
    moreover have "?v p = Some (nd, NULL, nm)" if "str_of (heap s1) (fs_name e) = Some nm"
      using that dview_put_fs [OF e(1), of ?e'] d(4) e(2) by simp
    ultimately have "forest (dview (heap s2)) (pTree s) (add_kid dir (DNode p nm []) ts)"
      if "str_of (heap s1) (fs_name e) = Some nm" "CHR 0x00 \<notin> set nm"
      unfolding V using forest_add_kid [of ?v "pTree s" ts dir nx nd dn p nm] D dd pf p(2) that by blast
    moreover have "distinct (addrs (add_kid dir (DNode p nm []) ts))"
      using pf by (intro distinct_add_kid [OF D]) auto
    moreover have fr: "frame s s2" by (rule frame_trans [OF f l(2)])
    moreover have "names_owned (heap s2) (set (addrs (add_kid dir (DNode p nm []) ts)))"
      if "heap s (fs_name e) = None"
    proof -
      have nm: "name_of (heap s2) x = name_of (heap s) x \<and> name_of (heap s) x \<noteq> Some (fs_name e)"
        if x: "x \<in> set (addrs ts)" for x
      proof -
        obtain y where "dview (heap s) x = Some y" using forest_dview_Some [OF F x] by blast
        then obtain e0 where e0: "fs_of (heap s) x = Some e0" "heap s (fs_name e0) \<noteq> None"
          by (cases y) (auto simp: dview_Some dest!: str_ofD)
        have "heap s1 x = heap s x" using u fs_ofD [OF e0(1)] by (simp add: untouched_def)
        then have "fs_of (heap s1) x = Some e0" using e0(1) by (simp add: fs_of_def split: if_splits)
        moreover have "x \<noteq> p" using x pf by auto
        ultimately have "name_of (heap s2) x = Some (fs_name e0)"
          using d(1) fs_ofD [OF d(1)] unfolding l(3) by (auto simp: deref name_of_def)
        then show ?thesis using e0 that by (auto simp: name_of_def \<open>heap s (fs_name e) = None\<close>)
      qed
      have "name_of (heap s2) p = Some (fs_name e)"
        using pd p(2) unfolding l(3) by (simp add: deref name_of_def)
      then have "names_owned (heap s2) (insert p (set (addrs ts)))"
        using nm by (intro names_owned_insert [OF O]) simp
      then show ?thesis using set_addrs_add_kid [OF dd, of "DNode p nm []"] by simp
    qed
    ultimately have N: "ns s2 (add_kid dir (DNode p nm []) ts)"
      if "str_of (heap s1) (fs_name e) = Some nm" "heap s (fs_name e) = None" "CHR 0x00 \<notin> set nm"
      using that by (simp add: ns_def frame_def)
    have U: "untouched {dir} (heap s) (heap s2)"
      using u p(1) unfolding l(3) by (auto simp: untouched_def)
    have P: "fs_of (heap s2) p = Some ?e'" using pd p(2) unfolding l(3) by (simp add: deref)
    show thesis by (rule that [OF l(1) fr U _ N]) (simp_all add: P)
  qed
qed

section \<open>Vnodes\<close>

lemma new_vnode_cases:
  assumes N: "node_contract K" and m: "m \<noteq> NULL"
  obtains (fail) r s' where "new_vnode K m s = Some (r, NULL, s')" "failed r" "heap s' = heap s"
      "pTree s' = pTree s" "fobjs s' = fobjs s" "\<And>a. node_of s a \<noteq> None \<Longrightarrow> node_of s' a = node_of s a"
  | (ok) p s' v where "new_vnode K m s = Some (0, p, s')" "heap s' = heap s"
      "pTree s' = pTree s" "fobjs s' = fobjs s" "p \<noteq> NULL" "node_of s p = None" "node_of s' p = Some v"
      "\<And>a. node_of s a \<noteq> None \<Longrightarrow> node_of s' a = node_of s a"
proof -
  obtain r p v k where g: "k_new_node K (kst s) m (\<lambda>a. vnodes s a \<noteq> None) = (r, p, v, k)"
    by (metis prod_cases4)
  obtain r2 k2 where w: "k_node_wait K k p = (r2, k2)" by fastforce
  have c: "p \<noteq> NULL \<and> vnodes s p = None" if "\<not> failed r"
    using N g that unfolding node_contract_def by (metis (mono_tags, lifting))
  have gn: "get_new_node K m s = (if failed r then Some (r, NULL, s\<lparr>kst := k\<rparr>)
      else Some (r, p, put_node p v (s\<lparr>kst := k\<rparr>)))"
    using m g by (simp add: get_new_node_def)
  show thesis
  proof (cases "failed r")
    case True
    then show thesis using gn
      by (intro fail [of r "s\<lparr>kst := k\<rparr>"]) (simp_all add: new_vnode_def node_of_def)
  next
    case False
    note F = c [OF False]
    show thesis
    proof (cases "failed r2")
      case True
      then show thesis using gn False F w
        by (intro fail [of r2 "free_vnode p (put_node p v (s\<lparr>kst := k2\<rparr>))"])
          (auto simp: new_vnode_def node_wait_def free_vnode_def put_node_def node_of_def)
    next
      case nf: False
      show thesis
        by (rule ok [of p "put_node p v (s\<lparr>kst := k2\<rparr>)" v])
          (use gn False nf F w in \<open>auto simp: new_vnode_def node_wait_def put_node_def node_of_def\<close>)
    qed
  qed
qed

text \<open>The end of create and mkdir, on a fresh entry \<open>p\<close> of the state \<open>s1\<close>.\<close>

definition attached where
  "attached s ts dir nm parent p e mode r q s' \<longleftrightarrow>
     heap s p = None \<and> untouched {dir} (heap s) (heap s') \<and> fs_of (heap s') p = Some e \<and>
     st_mode (fs_stat e) = mode \<and> st_size (fs_stat e) = 0 \<and> fs_data e = NULL \<and> fs_refer e = 0 \<and>
     (fs_name e = NULL \<or> ns s' (add_kid dir (DNode p nm []) ts)) \<and>
     (failed r \<or> r = 0 \<and> fs_pNode e = q \<and>
        (\<exists>v. node_of s' q = Some v \<and> vn_dev_info v = p \<and> vn_prev_node v = parent))"

lemma attach_new_entry:
  assumes K: "alloc_contract K" "node_contract K" and n: "ns s ts" "node_of s node = Some n"
    and d: "vn_dev_info n \<in> set (addrs ts)" "vn_mount n \<noteq> NULL" and nm: "CHR 0x00 \<notin> set nm"
  obtains (null) s' where "create_dmass_info K mode nm s = Some (NULL, s')" "heap s' = heap s"
  | (made) p s1 r q s' e where "create_dmass_info K mode nm s = Some (p, s1)" "p \<noteq> NULL"
      "node_of s1 node = Some n" "attach_entry K n node p u a s1 = Some (r, q, s')"
      "attached s ts (vn_dev_info n) nm node p e mode r q s'"
  using K(1)
proof (cases rule: create_info_cases [of K mode nm s])
  case (null s')
  then show thesis using that(1) by blast
next
  case (entry p s1 e)
  have nd: "node_of s1 node = Some n" using n(2) frame_of [OF entry(4)] by simp
  show thesis
  proof (rule link_new_entry [OF n(1) d(1) entry(4,5,3,2,6,7), of nm])
    fix s2
    assume l: "link_first (vn_dev_info n) p s1 = Some s2" "frame s s2"
        "untouched {vn_dev_info n} (heap s) (heap s2)"
      and e2: "\<exists>e'. fs_of (heap s2) p = Some e' \<and> fs_data e' = fs_data e \<and> fs_stat e' = fs_stat e \<and>
       fs_pDmassFsX e' = fs_pDmassFsX e \<and> fs_refer e' = fs_refer e \<and> fs_name e' = fs_name e"
      and N: "str_of (heap s1) (fs_name e) = Some nm \<Longrightarrow> heap s (fs_name e) = None \<Longrightarrow> CHR 0x00 \<notin> set nm \<Longrightarrow>
         ns s2 (add_kid (vn_dev_info n) (DNode p nm []) ts)"
    from e2 obtain e' where e': "fs_of (heap s2) p = Some e'" "fs_data e' = NULL"
      "st_mode (fs_stat e') = mode" "st_size (fs_stat e') = 0" "fs_refer e' = 0" "fs_name e' = fs_name e"
      using entry by auto
    have N': "fs_name e' = NULL \<or> ns s2 (add_kid (vn_dev_info n) (DNode p nm []) ts)"
      using N nm entry(13) e'(6) by auto
    from K(2) d(2) show thesis
    proof (cases rule: new_vnode_cases [of K "vn_mount n" s2])
      case (fail r s3)
      have "attach_entry K n node p u a s1 = Some (r, NULL, s3)"
        using l(1) fail(1,2) by (simp add: attach_entry_def)
      then show thesis
        by (rule that(2) [where e = e', OF entry(1,2) nd])
          (use l(3) e' N' fail entry(3) in \<open>simp add: attached_def ns_def\<close>)
    next
      case (ok q s3 v)
      let ?e = "e'\<lparr>fs_pNode := q\<rparr>"
      have f3: "fs_of (heap s3) p = Some e'" using e'(1) ok(2) by simp
      let ?s4 = "put p (FsObj ?e) s3"
      have V: "ns ?s4 us = ns s2 us" for us
        using ns_put_same [OF f3, of ?e us] ns_heap [OF ok(2,3), of us] by simp
      have v4: "node_of ?s4 q = Some v" using ok(7) by (simp add: deref)
      have "\<exists>w. attach_entry K n node p u a s1 = Some (0, q, put_node q w ?s4) \<and>
          vn_dev_info w = p \<and> vn_prev_node w = node"
        unfolding attach_entry_def
        by (intro exI [of _ "v\<lparr>vn_mount := vn_mount n, vn_st_size := 0, vn_dev_info := p,
             vn_prev_node := node, vn_unk_74 := 1, vn_unk_78 := u, vn_st_attr := a,
             vn_unk_8C := 0, vn_some_counter_58 := 1\<rparr>"])
          (use l(1) ok(1) f3 v4 in \<open>simp add: Let_def\<close>)
      then obtain w where w: "attach_entry K n node p u a s1 = Some (0, q, put_node q w ?s4)"
        "vn_dev_info w = p" "vn_prev_node w = node" by blast
      have "ns (put_node q w ?s4) us = ns s2 us" for us unfolding V [symmetric] by (simp add: ns_def)
      then have "attached s ts (vn_dev_info n) nm node p ?e mode 0 q (put_node q w ?s4)"
        unfolding attached_def
        using l(3) e' N' ok(2,3,5) entry(2,3) w(2,3) by (auto simp: deref untouched_def)
      then show thesis by (rule that(2) [OF entry(1,2) nd w(1)])
    qed
  qed
qed

section \<open>Create and mkdir\<close>

lemma create_attached:
  assumes K: "alloc_contract K" "node_contract K" and n: "ns s ts" "node_of s node = Some n"
    and d: "vn_dev_info n \<in> set (addrs ts)" "vn_mount n \<noteq> NULL"
    and p: "cs \<noteq> []" "\<forall>c \<in> set cs. good_comp c" and nm: "CHR 0x00 \<notin> set nm"
  shows "\<exists>r q s'. vop_create K (Some (join_path cs)) nm node s = Some (r, q, s') \<and>
    (if resolve ts cs \<noteq> None then r = 0x80010011 \<and> s' = s
     else r = -1 \<and> heap s' = heap s \<or>
          (\<exists>e x. attached s ts (vn_dev_info n) nm node x e
              (S_IWUSR K OR S_IRUSR K OR S_IFREG K) r q s'))"
proof (cases "resolve ts cs")
  case None
  then have g: "get_fs_entry (Some (join_path cs)) s = Some (0x80010002, NULL)"
    using lookup_resolve [OF n(1) p] by simp
  from K n d nm show ?thesis
  proof (cases rule: attach_new_entry [where u = "S_IXUSR K OR S_IWUSR K OR S_IRUSR K"
        and a = "SO_IXOTH K OR SO_IWOTH K OR SO_IROTH K"
        and mode = "S_IWUSR K OR S_IRUSR K OR S_IFREG K"])
    case (null s')
    then show ?thesis using g None by (simp add: vop_create_def create_dmass_file_info_def)
  next
    case (made x s1 r q s' e)
    then show ?thesis using g None by (auto simp: vop_create_def create_dmass_file_info_def)
  qed
next
  case (Some t)
  then show ?thesis using lookup_resolve [OF n(1) p] by (simp add: vop_create_def)
qed

text \<open>
  C11: \<open>vop_create\<close> on a path of good components.  When the path exists it returns 0x80010011 and
  changes nothing.  Otherwise it returns -1 with the heap unchanged (no memory), or a new empty
  regular file is linked in front of the directory's entries and nothing else in the heap but the
  directory changes; the name space becomes \<open>add_kid\<close> of the old one unless the second copy of the
  name could not be allocated; the code 0 comes with a vnode of the entry.
\<close>

theorem vop_create_spec:
  assumes K: "alloc_contract K" "node_contract K" and n: "ns s ts" "node_of s node = Some n"
    and d: "vn_dev_info n \<in> set (addrs ts)" "vn_mount n \<noteq> NULL"
    and p: "cs \<noteq> []" "\<forall>c \<in> set cs. good_comp c" and nm: "CHR 0x00 \<notin> set nm"
  shows "\<exists>r q s'. vop_create K (Some (join_path cs)) nm node s = Some (r, q, s') \<and>
    (if resolve ts cs \<noteq> None then r = 0x80010011 \<and> s' = s
     else r = -1 \<and> heap s' = heap s \<or>
          (\<exists>e x. attached s ts (vn_dev_info n) nm node x e
              (S_IWUSR K OR S_IRUSR K OR S_IFREG K) r q s'))"
  using assms by (rule create_attached)

text \<open>
  \<open>vop_mkdir\<close> likewise makes an empty directory, after refusing with 0x80010014 when the parent
  is not a directory and with 0x80010011 when the path exists, both without a change.
\<close>

theorem vop_mkdir_spec:
  assumes K: "alloc_contract K" "node_contract K" and n: "ns s ts" "node_of s node = Some n"
    and d: "vn_dev_info n \<in> set (addrs ts)" "vn_mount n \<noteq> NULL"
    and p: "cs \<noteq> []" "\<forall>c \<in> set cs. good_comp c" and nm: "CHR 0x00 \<notin> set nm"
    and dd: "fs_of (heap s) (vn_dev_info n) = Some d"
  shows "\<exists>r q s'. vop_mkdir K (Some (join_path cs)) nm node s = Some (r, q, s') \<and>
    (if \<not> S_ISDIR K (st_mode (fs_stat d)) then r = 0x80010014 \<and> s' = s
     else if resolve ts cs \<noteq> None then r = 0x80010011 \<and> s' = s
     else r = -1 \<and> heap s' = heap s \<or>
          (\<exists>e x. attached s ts (vn_dev_info n) nm node x e
              (S_IWUSR K OR S_IRUSR K OR S_IFDIR K) r q s'))"
proof (cases "S_ISDIR K (st_mode (fs_stat d))")
  case D: True
  show ?thesis
  proof (cases "resolve ts cs")
    case None
    then have g: "get_fs_entry (Some (join_path cs)) s = Some (0x80010002, NULL)"
      using lookup_resolve [OF n(1) p] by simp
    from K n assms(5,6) nm show ?thesis
    proof (cases rule: attach_new_entry [where u = "S_IWUSR K"
          and a = "SO_IXOTH K OR SO_IWOTH K OR SO_IROTH K OR SO_IFDIR K"
          and mode = "S_IWUSR K OR S_IRUSR K OR S_IFDIR K"])
      case (null s')
      then show ?thesis using g None n(2) dd D
        by (simp add: vop_mkdir_def create_dmass_dir_info_def)
    next
      case (made x s1 r q s' e)
      then show ?thesis using g None n(2) dd D
        by (auto simp: vop_mkdir_def create_dmass_dir_info_def)
    qed
  next
    case (Some t)
    then show ?thesis using lookup_resolve [OF n(1) p] n(2) dd D by (simp add: vop_mkdir_def)
  qed
qed (use n(2) dd in \<open>simp add: vop_mkdir_def\<close>)


end
