(* ===== verification/Vop_Remove_Props.thy ===== *)
theory Vop_Remove_Props
  imports Vop_Dir_Props
begin

text \<open>
  Removing and renaming: the link walk finds the entry among the children of its directory, and
  unlinking it is \<open>del_kid\<close> on the forest.
\<close>

section \<open>Unlinking\<close>

lemma kid_split:
  assumes "a \<in> d_addr ` set ks"
  obtains pre nma ka post where "ks = pre @ DNode a nma ka # post" "a \<notin> d_addr ` set pre"
proof -
  from assms have "\<exists>t \<in> set ks. d_addr t = a" by auto
  then obtain pre t post where "ks = pre @ t # post" "d_addr t = a" "\<forall>x \<in> set pre. d_addr x \<noteq> a"
    using split_list_first_prop [of ks "\<lambda>t. d_addr t = a"] by blast
  then show thesis using that [of pre "d_name t" "d_kids t" post] by (cases t) auto
qed

lemma dir_entry:
  assumes "ns s ts" "DNode d dn ks \<in> subtrees ts"
  obtains ed where "fs_of (heap s) d = Some ed" "forest (dview (heap s)) (fs_next_dir ed) ks"
    "str_of (heap s) (fs_name ed) = Some dn" "dview (heap s) d = Some (fs_next ed, fs_next_dir ed, dn)"
  using assms forest_subtree [of "dview (heap s)" "pTree s" ts d dn ks]
  by (auto simp: ns_def dview_Some)

lemma find_kid:
  assumes n: "ns s ts" and d: "DNode d dn ks \<in> subtrees ts"
  shows "a \<notin> d_addr ` set ks \<Longrightarrow> find_dir_link (heap s) a (DirHead d) = Some None"
    and "ks = pre @ DNode a nma ka # post \<Longrightarrow> a \<notin> d_addr ` set pre \<Longrightarrow>
      find_dir_link (heap s) a (DirHead d) =
        Some (Some (if pre = [] then DirHead d else SibNext (d_addr (last pre)), a))"
proof -
  obtain ed where ed: "fs_of (heap s) d = Some ed" "forest (dview (heap s)) (fs_next_dir ed) ks"
    using dir_entry [OF n d] by metis
  have rd: "read_dir (heap s) (DirHead d) = Some (fs_next_dir ed)" using ed(1) by simp
  note c = forest_next_chain [OF ed(2)]
  show "a \<notin> d_addr ` set ks \<Longrightarrow> find_dir_link (heap s) a (DirHead d) = Some None"
    using dir.walk_none [OF rd c, of a] by auto
  show "find_dir_link (heap s) a (DirHead d) =
        Some (Some (if pre = [] then DirHead d else SibNext (d_addr (last pre)), a))"
    if "ks = pre @ DNode a nma ka # post" "a \<notin> d_addr ` set pre"
  proof -
    have c': "chain (next_of (heap s)) (fs_next_dir ed) (map d_addr pre @ a # map d_addr post)"
      using c that(1) by simp
    have "find_dir_link (heap s) a (DirHead d) =
        Some (Some (if map d_addr pre = [] then DirHead d else SibNext (last (map d_addr pre)), a))"
      by (rule dir.walk_found [OF rd c']) (use that(2) in auto)
    then show ?thesis by (simp add: last_map split: if_splits)
  qed
qed

lemma unlink_kid:
  assumes n: "ns s ts" and d: "DNode d dn ks \<in> subtrees ts"
    and ks: "ks = pre @ DNode a nma ka # post" "a \<notin> d_addr ` set pre"
  obtains l s' el where
    "unlink_dir (if pre = [] then DirHead d else SibNext (d_addr (last pre))) a s = Some s'"
    "ns s' (del_kid d a ts)" "frame s s'" "l \<in> set (addrs ts)" "l \<noteq> a" "l = d \<or> l \<in> d_addr ` set ks"
    "fs_of (heap s) l = Some el" "\<exists>nx nd. heap s' = (heap s)(l \<mapsto> FsObj (el\<lparr>fs_next := nx, fs_next_dir := nd\<rparr>))"
proof -
  have F: "forest (dview (heap s)) (pTree s) ts" and D: "distinct (addrs ts)"
    and O: "names_owned (heap s) (set (addrs ts))" using n by (auto simp: ns_def)
  obtain ed where ed: "fs_of (heap s) d = Some ed" "forest (dview (heap s)) (fs_next_dir ed) ks"
    "str_of (heap s) (fs_name ed) = Some dn" "dview (heap s) d = Some (fs_next ed, fs_next_dir ed, dn)"
    using dir_entry [OF n d] by metis
  have dk: "distinct (addrs ks)" "d \<notin> set (addrs ks)"
    using D d by (induction ts rule: addrs.induct) auto
  have fk: "filter (\<lambda>t. d_addr t \<noteq> a) ks = pre @ post"
  proof -
    have "a \<notin> d_addr ` set post" using dk(1) ks roots_addrs by (auto simp: image_iff)
    then have "filter (\<lambda>t. d_addr t \<noteq> a) pre = pre" "filter (\<lambda>t. d_addr t \<noteq> a) post = post"
      using ks(2) by (auto simp: filter_id_conv image_iff)
    then show ?thesis using ks by simp
  qed
  have "DNode a nma ka \<in> subtrees ks" using ks by (intro roots_subtrees) simp
  then obtain ea where ea: "fs_of (heap s) a = Some ea"
      "dview (heap s) a = Some (fs_next ea, fs_next_dir ea, nma)"
    using forest_subtree [OF ed(2), of a nma ka] by (auto simp: dview_Some)
  have ka: "set (addrs ks) \<subseteq> set (addrs ts)" by (rule kids_addrs [OF d])
  have del: "del_kid d a ts = set_kids d (pre @ post) ts"
    using del_kid_set [OF D d] fk by simp
  show thesis
  proof (cases "pre = []")
    case True
    let ?e = "ed\<lparr>fs_next_dir := fs_next ea\<rparr>"
    let ?s = "put d (FsObj ?e) s"
    have u: "unlink_dir (DirHead d) a s = Some ?s" using ea(1) ed(1) by (simp add: unlink_dir_def)
    have v: "dview (heap ?s) x = (if x = d then Some (fs_next ed, fs_next ea, dn) else dview (heap s) x)" for x
      using dview_put_fs [OF ed(1), of ?e x] ed(3) by simp
    have "forest (dview (heap s)) (fs_next ea) post"
      using forest_unlink(1) [of "dview (heap s)" "fs_next_dir ed" pre a nma ka post] ed(2) dk(1) ks ea(2) True
      by auto
    moreover have "dview (heap ?s) x = dview (heap s) x" if "x \<in> set (addrs post)" for x
      using that v [of x] dk(2) ks by auto
    ultimately have "forest (dview (heap ?s)) (fs_next ea) (pre @ post)"
      using forest_cong [of post "dview (heap ?s)" "dview (heap s)"] True by simp
    then have "forest (dview (heap ?s)) (pTree s) (set_kids d (pre @ post) ts)"
      using forest_set_kids [OF F D d _ ed(4), of "dview (heap ?s)"] v by auto
    moreover have "names_owned (heap ?s) (set (addrs (del_kid d a ts)))"
      using names_owned_mono [OF O] names_owned_put [OF ed(1), of ?e] addrs_del_kid [of d a ts] by simp
    ultimately have "ns ?s (del_kid d a ts)"
      using D addrs_del_kid [of d a ts] by (simp add: ns_def del [symmetric])
    moreover have "d \<noteq> a" using dk(2) ks by auto
    moreover have "\<exists>nx nd. heap ?s = (heap s)(d \<mapsto> FsObj (ed\<lparr>fs_next := nx, fs_next_dir := nd\<rparr>))"
      by (rule exI [of _ "fs_next ed"], rule exI [of _ "fs_next ea"]) simp
    ultimately show thesis using True u ed(1) subtree_addr [OF d]
      by (intro that [of ?s d ed]) simp_all
  next
    case False
    let ?l = "d_addr (last pre)"
    have lk: "last pre \<in> set ks" using ks False by simp
    then have sk: "DNode ?l (d_name (last pre)) (d_kids (last pre)) \<in> subtrees ks"
      by (simp add: roots_subtrees)
    obtain el where el: "fs_of (heap s) ?l = Some el" "str_of (heap s) (fs_name el) = Some (d_name (last pre))"
        "dview (heap s) ?l = Some (fs_next el, fs_next_dir el, d_name (last pre))"
      using forest_subtree [OF ed(2) sk] by (auto simp: dview_Some)
    have la: "?l \<noteq> a" "?l \<in> set (addrs ks)" "?l \<noteq> d"
      using ks False roots_addrs [OF lk] dk(2) by auto
    let ?e = "el\<lparr>fs_next := fs_next ea\<rparr>"
    let ?s = "put ?l (FsObj ?e) s"
    have u: "unlink_dir (SibNext ?l) a s = Some ?s" using ea(1) el(1) by (simp add: unlink_dir_def)
    have v: "dview (heap ?s) = (dview (heap s))(?l := Some (fs_next ea, fs_next_dir el, d_name (last pre)))"
      using dview_put_fs [OF el(1), of ?e] el(2) by (auto simp: fun_eq_iff)
    have fp: "forest (dview (heap ?s)) (fs_next_dir ed) (pre @ post)"
    proof -
      have "forest (dview (heap s)) (fs_next_dir ed) (pre @ DNode a nma ka # post)"
        "distinct (addrs (pre @ DNode a nma ka # post))" using ed(2) dk(1) ks(1) by simp_all
      from forest_unlink(2) [where v = "dview (heap s)" and a = a, OF this ea(2) False el(3)]
      show ?thesis unfolding v by blast
    qed
    have vd: "dview (heap ?s) d = Some (fs_next ed, fs_next_dir ed, dn)" using v la ed(4) by simp
    have "forest (dview (heap ?s)) (pTree s) (set_kids d (pre @ post) ts)"
      by (rule forest_set_kids [OF F D d _ ed(4) vd fp]) (use v la in auto)
    moreover have "names_owned (heap ?s) (set (addrs (del_kid d a ts)))"
      using names_owned_mono [OF O] names_owned_put [OF el(1), of ?e] addrs_del_kid [of d a ts] by simp
    ultimately have "ns ?s (del_kid d a ts)"
      using D addrs_del_kid [of d a ts] by (simp add: ns_def del [symmetric])
    moreover have "\<exists>nx nd. heap ?s = (heap s)(?l \<mapsto> FsObj (el\<lparr>fs_next := nx, fs_next_dir := nd\<rparr>))"
      by (rule exI [of _ "fs_next ea"], rule exI [of _ "fs_next_dir el"]) simp
    ultimately show thesis using False u el(1) la ka lk
      by (intro that [of ?s ?l el]) auto
  qed
qed

section \<open>Deleting an entry that is no longer linked\<close>

text \<open>An entry that owns its name and its data block.\<close>

definition entry_ok :: "dheap \<Rightarrow> FapsDmassFs \<Rightarrow> bool" where
  "entry_ok h e \<longleftrightarrow> str_of h (fs_name e) \<noteq> None \<and> (fs_data e = NULL \<or> buf_of h (fs_data e) \<noteq> None)"

lemma delete_ok:
  assumes n: "ns s ts" and e: "fs_of (heap s) a = Some e" "entry_ok (heap s) e" "a \<notin> set (addrs ts)"
    and r: "fs_refer e = 0" "fs_pDmassFsX e = NULL"
    and u: "\<forall>x \<in> set (addrs ts). name_of (heap s) x \<noteq> Some (fs_name e)"
  obtains s' where "delete_dmass_info K a s = Some (0, s')" "ns s' ts" "frame s s'"
    "heap s' a = None" "heap s' (fs_name e) = None" "fs_data e \<noteq> NULL \<longrightarrow> heap s' (fs_data e) = None"
    "untouched {a, fs_name e, fs_data e} (heap s) (heap s')"
proof -
  let ?n = "fs_name e" and ?d = "fs_data e"
  obtain nm where nm: "heap s ?n = Some (Str nm)" "?n \<noteq> NULL"
    using e(2) by (auto simp: entry_ok_def dest: str_ofD)
  have d: "?d = NULL \<or> (\<exists>b. heap s ?d = Some (Buf b))"
    using e(2) by (auto simp: entry_ok_def dest: buf_ofD)
  have a: "heap s a = Some (FsObj e)" "a \<noteq> NULL" using fs_ofD [OF e(1)] by auto
  have ne: "?n \<noteq> a" "?d \<noteq> a" "?d \<noteq> ?n" using nm a d by auto
  let ?h = "(heap s)(?n := None, a := None)"
  let ?g = "if ?d = NULL then ?h else ?h(?d := None)"
  have "\<exists>s'. delete_dmass_info K a s = Some (0, s') \<and> frame s s' \<and> heap s' = ?g"
    using a e(1) r nm d ne
    by (auto simp: delete_dmass_info_def dmass_free_def deref Let_def frame_def fun_upd_twist)
  then obtain s' where s': "delete_dmass_info K a s = Some (0, s')" "frame s s'" "heap s' = ?g" by blast
  have F: "forest (dview (heap s)) (pTree s) ts" using n by (simp add: ns_def)
  have keep: "dview (heap s') x = dview (heap s) x \<and> name_of (heap s') x = name_of (heap s) x"
    if x: "x \<in> set (addrs ts)" for x
  proof -
    obtain y where "dview (heap s) x = Some y" using forest_dview_Some [OF F x] by blast
    then obtain ex xn where ex: "fs_of (heap s) x = Some ex" "str_of (heap s) (fs_name ex) = Some xn"
      by (cases y) (auto simp: dview_Some)
    have nx: "fs_name ex \<noteq> ?n" using u x ex(1) by (auto simp: name_of_def)
    have "x \<notin> {a, ?n}" "x = ?d \<longrightarrow> ?d = NULL" using e(3) x nm d fs_ofD [OF ex(1)] by auto
    moreover have "fs_name ex \<noteq> a" "fs_name ex = ?d \<longrightarrow> ?d = NULL" using str_ofD [OF ex(2)] a d by auto
    ultimately have "fs_of (heap s') x = Some ex" "str_of (heap s') (fs_name ex) = Some xn"
      using ex nx by (auto simp: s'(3) fs_of_def str_of_def)
    then show ?thesis using ex by (simp add: dview_def name_of_def)
  qed
  have "forest (dview (heap s')) (pTree s') ts"
    using F forest_cong [of ts "dview (heap s')" "dview (heap s)"] keep s'(2) by (simp add: frame_def)
  moreover have "names_owned (heap s') (set (addrs ts))"
    using n names_owned_cong [of "set (addrs ts)" "heap s'" "heap s"] keep by (simp add: ns_def)
  ultimately have "ns s' ts" using n by (simp add: ns_def)
  then show thesis using s' ne nm
    by (intro that [of s']) (auto simp: untouched_def)
qed

section \<open>Remove and rmdir\<close>

text \<open>
  What \<open>unlink_and_delete\<close> does to a child of the directory.  The entry leaves the name space in
  every case; its memory is freed only when no handle is open.
\<close>

lemma unlink_and_delete_kid:
  assumes n: "ns s ts" and d: "DNode d dn ks \<in> subtrees ts" and a: "a \<in> d_addr ` set ks"
    and e: "fs_of (heap s) a = Some e" "entry_ok (heap s) e"
  shows "\<exists>r s'. unlink_and_delete K d a s = Some (r, s') \<and> ns s' (del_kid d a ts) \<and>
    (if fs_refer e \<noteq> 0 then r = -1 \<and> fs_of (heap s') a = Some e
     else if fs_pDmassFsX e \<noteq> NULL then r = -2 \<and> fs_of (heap s') a = Some e
     else r = 0 \<and> heap s' a = None \<and> heap s' (fs_name e) = None \<and>
          (fs_data e \<noteq> NULL \<longrightarrow> heap s' (fs_data e) = None) \<and>
          untouched (insert d (d_addr ` set ks \<union> {fs_name e, fs_data e})) (heap s) (heap s'))"
proof -
  obtain pre nma ka post where ks: "ks = pre @ DNode a nma ka # post" "a \<notin> d_addr ` set pre"
    using kid_split [OF a] by metis
  let ?l = "if pre = [] then DirHead d else SibNext (d_addr (last pre))"
  note fk = find_kid(2) [OF n d ks]
  show ?thesis
  proof (rule unlink_kid [OF n d ks])
    fix l s1 el
    assume u: "unlink_dir ?l a s = Some s1" "ns s1 (del_kid d a ts)" "frame s s1" "l \<in> set (addrs ts)"
      "l \<noteq> a" "l = d \<or> l \<in> d_addr ` set ks" "fs_of (heap s) l = Some el"
      "\<exists>nx nd. heap s1 = (heap s)(l \<mapsto> FsObj (el\<lparr>fs_next := nx, fs_next_dir := nd\<rparr>))"
    have U: "unlink_and_delete K d a s = delete_dmass_info K a s1"
      using fk u(1) by (simp add: unlink_and_delete_def)
    have e1: "fs_of (heap s1) a = Some e" using e(1) u(5,8) by (auto simp: deref)
    have ok1: "entry_ok (heap s1) e" proof -
      have "str_of (heap s) l = None" "buf_of (heap s) l = None" using fs_not_others [OF u(7)] by auto
      then show ?thesis using e(2) u(8) by (auto simp: entry_ok_def deref split: if_splits)
    qed
    have al: "a \<in> set (addrs ts)"
    proof -
      have "a \<in> set (addrs ks)" using ks by simp
      then show ?thesis using kids_addrs [OF d] by blast
    qed
    have nm1: "name_of (heap s1) x = name_of (heap s) x" for x
      using u(7,8) fs_ofD [OF u(7)] by (auto simp: name_of_def deref)
    show ?thesis
    proof (cases "fs_refer e \<noteq> 0 \<or> fs_pDmassFsX e \<noteq> NULL")
      case True
      then show ?thesis using U u(2) e1 by (auto simp: delete_dmass_info_def)
    next
      case False
      have sub: "set (addrs (del_kid d a ts)) \<subseteq> set (addrs ts)" using addrs_del_kid by blast
      have na: "a \<notin> set (addrs (del_kid d a ts))"
        using addrs_del_kid_notin [OF _ d a] n by (simp add: ns_def)
      have "names_owned (heap s) (set (addrs ts))" using n by (simp add: ns_def)
      then have uq: "\<forall>x \<in> set (addrs (del_kid d a ts)). name_of (heap s1) x \<noteq> Some (fs_name e)"
        unfolding nm1
      proof (intro ballI notI)
        assume O: "names_owned (heap s) (set (addrs ts))"
        fix x assume x: "x \<in> set (addrs (del_kid d a ts))" "name_of (heap s) x = Some (fs_name e)"
        have "name_of (heap s) a = Some (fs_name e)" using e(1) by (simp add: name_of_def)
        then have "x = a" using names_ownedD [OF O _ al x(2)] x(1) sub by blast
        then show False using x(1) na by simp
      qed
      show ?thesis
      proof (rule delete_ok [OF u(2) e1 ok1 na _ _ uq])
        fix s2
        assume s2: "delete_dmass_info K a s1 = Some (0, s2)" "ns s2 (del_kid d a ts)"
          "heap s2 a = None" "heap s2 (fs_name e) = None"
          "fs_data e \<noteq> NULL \<longrightarrow> heap s2 (fs_data e) = None"
          "untouched {a, fs_name e, fs_data e} (heap s1) (heap s2)"
        have "untouched (insert d (d_addr ` set ks \<union> {fs_name e, fs_data e})) (heap s) (heap s2)"
          unfolding untouched_def
        proof (intro allI impI)
          fix x assume x: "heap s x \<noteq> None" "x \<notin> insert d (d_addr ` set ks \<union> {fs_name e, fs_data e})"
          then have "x \<noteq> a" "x \<noteq> l" using a u(6) by auto
          then have "heap s1 x = heap s x" using u(8) by auto
          then show "heap s2 x = heap s x" using s2(6) x \<open>x \<noteq> a\<close> by (auto simp: untouched_def)
        qed
        then show ?thesis using U s2 False by auto
      qed (use False in auto)
    qed
  qed
qed


text \<open>
  \<open>vop_rmdir\<close> refuses, without a change, a path that does not exist, a directory with entries and
  an entry that is not a directory; an empty directory is unlinked like a file, so a non-empty
  directory is never lost.
\<close>

theorem vop_rmdir_spec:
  assumes n: "ns s ts" "node_of s node = Some n" and d: "DNode (vn_dev_info n) dn ks \<in> subtrees ts"
    and p: "cs \<noteq> []" "\<forall>c \<in> set cs. good_comp c"
    and ok: "\<forall>t e. resolve ts cs = Some t \<longrightarrow> fs_of (heap s) (d_addr t) = Some e \<longrightarrow> entry_ok (heap s) e"
  shows "case resolve ts cs of
      None \<Rightarrow> vop_rmdir K (Some (join_path cs)) node s = Some (0x80010002, s)
    | Some t \<Rightarrow> \<exists>e. fs_of (heap s) (d_addr t) = Some e \<and>
       (if d_kids t \<noteq> [] then vop_rmdir K (Some (join_path cs)) node s = Some (0x80010011, s)
        else if \<not> S_ISDIR K (st_mode (fs_stat e))
        then vop_rmdir K (Some (join_path cs)) node s = Some (0x80010014, s)
        else if d_addr t \<notin> d_addr ` set ks
        then vop_rmdir K (Some (join_path cs)) node s = Some (0x80010002, s)
        else \<exists>r s'. vop_rmdir K (Some (join_path cs)) node s = Some (r, s') \<and>
          ns s' (del_kid (vn_dev_info n) (d_addr t) ts) \<and>
          (if fs_refer e \<noteq> 0 then r = -1
           else fs_pDmassFsX e = NULL \<longrightarrow> r = 0 \<and> heap s' (d_addr t) = None))"
proof (cases "resolve ts cs")
  case None
  then show ?thesis using lookup_resolve [OF n(1) p] by (simp add: vop_rmdir_def)
next
  case (Some t)
  have g: "get_fs_entry (Some (join_path cs)) s = Some (0, d_addr t)"
    using lookup_resolve [OF n(1) p] Some by simp
  have "DNode (d_addr t) (d_name t) (d_kids t) \<in> subtrees ts" using resolve_subtree [OF Some] by simp
  then obtain e where e: "fs_of (heap s) (d_addr t) = Some e"
    and f: "forest (dview (heap s)) (fs_next_dir e) (d_kids t)" using dir_entry [OF n(1)] by metis
  have nd: "fs_next_dir e \<noteq> NULL \<longleftrightarrow> d_kids t \<noteq> []"
    using f by (cases "d_kids t" rule: addrs.cases) auto
  have R: "vop_rmdir K (Some (join_path cs)) node s =
     (if d_kids t \<noteq> [] then Some (0x80010011, s)
      else if \<not> S_ISDIR K (st_mode (fs_stat e)) then Some (0x80010014, s)
      else unlink_and_delete K (vn_dev_info n) (d_addr t) s)"
    using g e n(2) nd by (auto simp: vop_rmdir_def)
  have "d_addr t \<notin> d_addr ` set ks \<Longrightarrow>
      unlink_and_delete K (vn_dev_info n) (d_addr t) s = Some (0x80010002, s)"
    using find_kid(1) [OF n(1) d] by (simp add: unlink_and_delete_def)
  moreover have "entry_ok (heap s) e" using ok Some e by blast
  ultimately show ?thesis
    using unlink_and_delete_kid [OF n(1) d _ e, of K] e Some R by (auto split: if_splits)
qed

end
