(* ===== verification/Vop_Dread_Props.thy ===== *)
theory Vop_Dread_Props
  imports Vop_Dir_Props
begin

text \<open>
  Directory streams: \<open>stream s node fo ts\<close> says that the stream \<open>fo\<close> on \<open>node\<close> is open and still
  has the children \<open>ts\<close> to deliver.
\<close>

definition stream :: "'k vfs_state \<Rightarrow> addr \<Rightarrow> addr \<Rightarrow> dtree list \<Rightarrow> bool" where
  "stream s node fo ts \<longleftrightarrow>
     (\<exists>n e as q bs x. node_of s node = Some n \<and> fs_of (heap s) (vn_dev_info n) = Some e \<and>
        chain (ctl_next_of (heap s)) (fs_pDmassFsX e) (as @ q # bs) \<and>
        (\<forall>y \<in> set as. ctl_is (heap s) fo y = Some False) \<and>
        fsx_of (heap s) q = Some x \<and> fsx_handler_index x = fo \<and>
        forest (dview (heap s)) (fsx_current x) ts)"

lemma put_fsx_views:
  assumes "fsx_of h q = Some x" "fsx_next x' = fsx_next x" "fsx_handler_index x' = fsx_handler_index x"
  shows "fs_of (h(q \<mapsto> FsXObj x')) = fs_of h" "str_of (h(q \<mapsto> FsXObj x')) = str_of h"
    "ctl_next_of (h(q \<mapsto> FsXObj x')) = ctl_next_of h" "ctl_is (h(q \<mapsto> FsXObj x')) = ctl_is h"
    "dview (h(q \<mapsto> FsXObj x')) = dview h" "fsx_of (h(q \<mapsto> FsXObj x')) q = Some x'"
proof -
  let ?h = "h(q \<mapsto> FsXObj x')"
  note q = fsx_ofD [OF assms(1)]
  show f: "fs_of ?h = fs_of h" and s: "str_of ?h = str_of h"
    using q by (auto simp: fun_eq_iff fs_of_def str_of_def)
  show "ctl_next_of ?h = ctl_next_of h" "ctl_is ?h = ctl_is h"
    using q assms by (auto simp: fun_eq_iff ctl_next_of_def ctl_is_def fsx_of_def)
  show "dview ?h = dview h" unfolding dview_def f s ..
  show "fsx_of ?h q = Some x'" using q by (simp add: fsx_of_def)
qed

text \<open>
  A successful \<open>vop_dopen\<close> leaves the name space alone and opens a stream that will deliver
  exactly the children of the directory.
\<close>

theorem vop_dopen_stream:
  assumes K: "alloc_contract K" and n: "ns s ts" "node_of s node = Some n"
    and d: "DNode (vn_dev_info n) dn ks \<in> subtrees ts" and h: "handles (heap s) (vn_dev_info n) keys"
  shows "\<exists>r s'. vop_dopen K node fo s = Some (r, s') \<and>
    (r = 0x80010016 \<and> heap s' = heap s \<or> r = 0 \<and> ns s' ts \<and> stream s' node fo ks)"
proof -
  let ?p = "vn_dev_info n"
  have F: "forest (dview (heap s)) (pTree s) ts" using n by (simp add: ns_def)
  obtain ed where ed: "fs_of (heap s) ?p = Some ed" "forest (dview (heap s)) (fs_next_dir ed) ks"
    using forest_subtree [OF F d] by (auto simp: dview_Some)
  have p0: "?p \<noteq> NULL" using ed by (auto dest: fs_ofD)
  obtain t s1 where m: "dmass_malloc K (sizeof_fsx K) s = (t, s1)" by fastforce
  from K m show ?thesis
  proof (cases rule: malloc_cases)
    case null
    then show ?thesis using n(2) p0 m
      by (intro exI [of _ "0x80010016"] exI [of _ s1])
        (simp add: vop_dopen_def create_dmass_ctl_data_def)
  next
    case (block b)
    have tp: "t \<noteq> ?p" using block(2) ed(1) by (auto dest: fs_ofD)
    let ?x = "\<lparr>fsx_next = fs_pDmassFsX ed, fsx_handler_index = fo, fsx_current = fs_next_dir ed\<rparr>"
    let ?e = "ed\<lparr>fs_pDmassFsX := t, fs_refer := fs_refer ed + 1\<rparr>"
    let ?h = "(heap s)(?p \<mapsto> FsObj ?e)"
    let ?g = "?h(t \<mapsto> FsXObj ?x)"
    have "\<exists>s'. vop_dopen K node fo s = Some (0, s') \<and> heap s' = ?g \<and> frame s s'"
      using n(2) p0 m block(1,4,5) ed(1) tp
      by (simp add: vop_dopen_def create_dmass_ctl_data_def Let_def deref frame_def fun_upd_twist)
    then obtain s' where s': "vop_dopen K node fo s = Some (0, s')" "heap s' = ?g" "frame s s'" by blast
    have gt: "?h t = None" using tp block(2) by simp
    have v: "dview ?g a = dview (heap s) a" if "dview (heap s) a \<noteq> None" for a
    proof -
      from that obtain y where "dview ?h a = Some y" "dview (heap s) a = Some y"
        using dview_put_same [OF ed(1), of ?e] by auto
      moreover have "untouched {} ?h ?g" using gt by (auto simp: untouched_def)
      ultimately show ?thesis using untouched_view [of "{}" ?h ?g a y] by simp
    qed
    have nm: "name_of ?g a = name_of (heap s) a" if "name_of (heap s) a \<noteq> None" for a
      using that ed(1) block(2) tp p0 by (auto simp: name_of_def deref fs_of_def)
    have fc: "forest (dview ?g) p us" if "forest (dview (heap s)) p us" for p us
      using that forest_cong [of us "dview ?g" "dview (heap s)"] v forest_dview_Some [OF that] by fastforce
    have "names_owned ?g (set (addrs ts))"
    proof -
      have "name_of ?g a = name_of (heap s) a" if "a \<in> set (addrs ts)" for a
        using forest_dview_Some [OF F that] nm [of a] by (auto simp: name_of_def dview_def split: option.splits)
      then show ?thesis using n(1) names_owned_cong [of "set (addrs ts)" ?g "heap s"] by (simp add: ns_def)
    qed
    then have N: "ns s' ts" using n(1) fc [OF F] s'(2,3) by (simp add: ns_def frame_def)
    from h obtain xs where xs: "chain (ctl_next_of (heap s)) (fs_pDmassFsX ed) xs"
      "\<And>x. x \<in> set xs \<Longrightarrow> fsx_of (heap s) x \<noteq> None"
      by (rule handlesE) (use ed(1) in auto)
    have "chain (ctl_next_of ?g) (fs_pDmassFsX ed) xs = chain (ctl_next_of (heap s)) (fs_pDmassFsX ed) xs"
    proof (rule chain_cong)
      fix x assume x: "x \<in> set xs"
      have "x \<noteq> ?p" "x \<noteq> t"
        using xs(2) [OF x] fs_not_others [OF ed(1)] fsx_ofD [of "heap s" x] block(2) by auto
      then show "ctl_next_of ?g x = ctl_next_of (heap s) x" by (simp add: ctl_next_of_def deref)
    qed
    then have "chain (ctl_next_of ?g) t (t # xs)"
      using xs(1) block(1) tp by (simp add: ctl_next_of_def deref)
    then have "stream s' node fo ks"
      unfolding stream_def
      using n(2) frame_of [OF s'(3)] tp p0 block(1) fc [OF ed(2)]
      by (intro exI [of _ n] exI [of _ ?e] exI [of _ "[]"] exI [of _ t] exI [of _ xs] exI [of _ ?x])
        (simp add: s'(2) deref)
    with s' N show ?thesis by blast
  qed
qed

text \<open>
  \<open>vop_dread\<close> delivers the next child (at most 255 characters of its name, and its stat) with
  the code 1 and moves on, or the code 0 when all have been delivered; it never changes the name
  space.
\<close>

theorem vop_dread_stream:
  assumes st: "stream s node fo ks"
  shows "case ks of
      [] \<Rightarrow> vop_dread node fo s = Some (0, None, s)
    | t # rest \<Rightarrow> \<exists>e s'. fs_of (heap s) (d_addr t) = Some e \<and>
        vop_dread node fo s = Some (1, Some (take 255 (d_name t), fs_stat e), s') \<and>
        stream s' node fo rest \<and> (\<forall>ts. ns s' ts = ns s ts)"
proof -
  from st obtain n e as q bs x where n: "node_of s node = Some n"
    and e: "fs_of (heap s) (vn_dev_info n) = Some e"
    and c: "chain (ctl_next_of (heap s)) (fs_pDmassFsX e) (as @ q # bs)"
    and k: "\<forall>y \<in> set as. ctl_is (heap s) fo y = Some False"
    and x: "fsx_of (heap s) q = Some x" "fsx_handler_index x = fo"
    and f: "forest (dview (heap s)) (fsx_current x) ks"
    by (auto simp: stream_def)
  have p0: "vn_dev_info n \<noteq> NULL" "q \<noteq> NULL" using fs_ofD [OF e] fsx_ofD [OF x(1)] by auto
  have "ctl_is (heap s) fo q = Some True" using x by (simp add: ctl_is_def)
  then have se: "search_dmass_ctl_data (vn_dev_info n) fo s = Some q"
    using ctl.found [OF c, of fo] k e by (simp add: search_dmass_ctl_data_def)
  show ?thesis
  proof (cases ks)
    case Nil
    then show ?thesis using f n p0 se x by (simp add: vop_dread_def)
  next
    case (Cons t rest)
    obtain a nm kk where t: "t = DNode a nm kk" by (cases t)
    obtain ea where ea: "fs_of (heap s) a = Some ea" "str_of (heap s) (fs_name ea) = Some nm"
      "forest (dview (heap s)) (fs_next ea) rest" "fsx_current x = a" "a \<noteq> NULL"
      using f Cons t by (auto simp: dview_Some)
    let ?x = "x\<lparr>fsx_current := fs_next ea\<rparr>"
    let ?s = "put q (FsXObj ?x) s"
    have v: "fs_of (heap ?s) = fs_of (heap s)" "ctl_next_of (heap ?s) = ctl_next_of (heap s)"
      "ctl_is (heap ?s) = ctl_is (heap s)" "dview (heap ?s) = dview (heap s)"
      "fsx_of (heap ?s) q = Some ?x"
      using put_fsx_views [OF x(1), of ?x] by simp_all
    have "vop_dread node fo s = Some (1, Some (take 255 nm, fs_stat ea), ?s)"
      using n p0 se x ea by (simp add: vop_dread_def)
    moreover have "stream ?s node fo rest"
      unfolding stream_def v using n e c k x(2) ea(3) v(5)
      by (intro exI [of _ n] exI [of _ e] exI [of _ as] exI [of _ q] exI [of _ bs] exI [of _ ?x])
        (simp add: deref)
    moreover have "ns ?s us = ns s us" for us
      unfolding ns_def v names_owned_def name_of_def by simp
    ultimately show ?thesis using ea(1) Cons t by auto
  qed
qed

end
