(* ===== verification/Vop_Stat.thy ===== *)
theory Vop_Stat
  imports Vop_File
begin

text \<open>
  The remaining operations of \<open>kernel/SceVfsMountPoC/src/main.c\<close>: reading and changing the status of
  an entry, giving a vnode up, the operations that only answer with a code, and the module entry.
\<close>

section \<open>Status\<close>

text \<open>The bits of \<open>argp->bit\<close>.\<close>

definition SCE_CST_MODE :: u32 where "SCE_CST_MODE = 0x0001"
definition SCE_CST_SIZE :: u32 where "SCE_CST_SIZE = 0x0004"
definition SCE_CST_CT :: u32 where "SCE_CST_CT = 0x0008"
definition SCE_CST_AT :: u32 where "SCE_CST_AT = 0x0010"
definition SCE_CST_MT :: u32 where "SCE_CST_MT = 0x0020"

text \<open>A path lookup; the stat of the entry is the result.\<close>

definition vop_get_stat :: "string option \<Rightarrow> 'k vfs_state \<Rightarrow> (s32 \<times> SceIoStat option) option" where
  "vop_get_stat path s = do {
     (res, pEntry) \<leftarrow> get_fs_entry path s;
     if failed res then Some (res, None)
     else do { e \<leftarrow> fs_of (heap s) pEntry; Some (0, Some (fs_stat e)) }
   }"

definition vop_get_stat_by_fd :: "addr \<Rightarrow> 'k vfs_state \<Rightarrow> (s32 \<times> SceIoStat option) option" where
  "vop_get_stat_by_fd node s = do {
     n \<leftarrow> node_of s node;
     if vn_dev_info n = NULL then Some (-2, None)
     else do { e \<leftarrow> fs_of (heap s) (vn_dev_info n); Some (0, Some (fs_stat e)) }
   }"

text \<open>The new data block of a size change, shared by \<open>vop_chstat\<close> and \<open>vop_chstat_by_fd\<close>.\<close>

definition chstat_size ::
    "'k sce_kernel \<Rightarrow> addr \<Rightarrow> SceOff \<Rightarrow> addr \<Rightarrow> 'k vfs_state \<Rightarrow> (s32 \<times> 'k vfs_state) option" where
  "chstat_size K pEntry z node s =
     (if z <s 0 then Some (-1, s)
      else do {
        e \<leftarrow> fs_of (heap s) pEntry;
        (res, s) \<leftarrow>
          (if z = 0
           then do {
             s \<leftarrow> dmass_free K (fs_data e) s;
             Some (0, put pEntry (FsObj (e\<lparr>fs_data := NULL\<rparr>)) s)
           }
           else if 0xFFFFFFFF <s z then Some (-1, s)
           else let (temp_data, s) = dmass_malloc K (ucast z) s in
                if temp_data = NULL then Some (-2, s)
                else do {
                  bs \<leftarrow> read_block (heap s) (fs_data e) 0 (unat (ucast (st_size (fs_stat e)) :: u32));
                  s \<leftarrow> write_block temp_data 0 bs s;
                  s \<leftarrow> dmass_free K (fs_data e) s;
                  Some (0, put pEntry (FsObj (e\<lparr>fs_data := temp_data\<rparr>)) s)
                });
        if failed res then Some (res, s)
        else do {
          e \<leftarrow> fs_of (heap s) pEntry;
          let s = put pEntry (FsObj (e\<lparr>fs_stat := (fs_stat e)\<lparr>st_size := z\<rparr>\<rparr>)) s;
          n \<leftarrow> node_of s node;
          Some (0, put_node node (n\<lparr>vn_st_size := z\<rparr>) s)
        }
      })"

text \<open>What both do once the entry is known: mode, size, times, in this order.\<close>

definition apply_chstat ::
    "'k sce_kernel \<Rightarrow> addr \<Rightarrow> u32 \<Rightarrow> SceIoStat \<Rightarrow> addr \<Rightarrow> 'k vfs_state \<Rightarrow> (s32 \<times> 'k vfs_state) option" where
  "apply_chstat K pEntry b st node s = do {
     e \<leftarrow> fs_of (heap s) pEntry;
     if b AND SCE_CST_MODE \<noteq> 0 \<and> st_mode (fs_stat e) AND S_IFMT K \<noteq> st_mode st AND S_IFMT K
     then Some (-1, s)
     else do {
       let s = (if b AND SCE_CST_MODE \<noteq> 0
                then put pEntry (FsObj (e\<lparr>fs_stat := (fs_stat e)\<lparr>st_mode := st_mode st\<rparr>\<rparr>)) s
                else s);
       (res, s) \<leftarrow> (if b AND SCE_CST_SIZE \<noteq> 0 then chstat_size K pEntry (st_size st) node s
                   else Some (0, s));
       if failed res then Some (res, s)
       else do {
         e \<leftarrow> fs_of (heap s) pEntry;
         let t = fs_stat e;
         let t = (if b AND SCE_CST_CT \<noteq> 0 then t\<lparr>st_ctime := st_ctime st\<rparr> else t);
         let t = (if b AND SCE_CST_AT \<noteq> 0 then t\<lparr>st_atime := st_atime st\<rparr> else t);
         let t = (if b AND SCE_CST_MT \<noteq> 0 then t\<lparr>st_mtime := st_mtime st\<rparr> else t);
         Some (0, put pEntry (FsObj (e\<lparr>fs_stat := t\<rparr>)) s)
       }
     }
   }"

definition vop_chstat ::
    "'k sce_kernel \<Rightarrow> string option \<Rightarrow> u32 \<Rightarrow> SceIoStat \<Rightarrow> addr \<Rightarrow> 'k vfs_state \<Rightarrow>
     (s32 \<times> 'k vfs_state) option" where
  "vop_chstat K path b st node s = do {
     (res, pEntry) \<leftarrow> get_fs_entry path s;
     if failed res then Some (res, s) else apply_chstat K pEntry b st node s
   }"

definition vop_chstat_by_fd ::
    "'k sce_kernel \<Rightarrow> u32 \<Rightarrow> SceIoStat \<Rightarrow> addr \<Rightarrow> 'k vfs_state \<Rightarrow> (s32 \<times> 'k vfs_state) option" where
  "vop_chstat_by_fd K b st node s = do {
     n \<leftarrow> node_of s node;
     if vn_dev_info n = NULL then Some (-1, s)
     else apply_chstat K (vn_dev_info n) b st node s
   }"

section \<open>Giving a vnode up\<close>

definition vop_inactive :: "addr \<Rightarrow> 'k vfs_state \<Rightarrow> (s32 \<times> 'k vfs_state) option" where
  "vop_inactive node s =
     (if node = NULL then Some (0x80010016, s)
      else do {
        n \<leftarrow> node_of s node;
        s \<leftarrow> (if vn_dev_info n \<noteq> NULL
             then do {
               e \<leftarrow> fs_of (heap s) (vn_dev_info n);
               Some (put (vn_dev_info n) (FsObj (e\<lparr>fs_pNode := NULL\<rparr>)) s)
             }
             else Some s);
        Some (0, put_node node (n\<lparr>vn_dev_info := NULL\<rparr>) s)
      })"

section \<open>Operations that only answer\<close>

text \<open>\<open>sz\<close> is \<open>sizeof(SceIoDevInfo)\<close>; the structure written to \<open>outdata\<close> is part of the result.\<close>

definition vfs_devctl :: "SceSize \<Rightarrow> string \<Rightarrow> u32 \<Rightarrow> SceSize \<Rightarrow> s32 \<times> SceIoDevInfo option" where
  "vfs_devctl sz dev cmd outlen =
     (if dev \<noteq> FAPS_DMASS_DEVICE_NAME then (-1, None)
      else if cmd = 0x3001 \<and> outlen = sz
      then (0, Some \<lparr>di_max_size = 0xFFFFFFFFFFFFFFFF, di_free_size = 0x123456789ABCDEF0,
                     di_cluster_size = 0, di_unk = NULL\<rparr>)
      else (-1, None))"

definition vfs_mount_func :: s32 where "vfs_mount_func = 0"
definition vfs_umount_func :: s32 where "vfs_umount_func = 0"
definition vfs_init :: s32 where "vfs_init = 0"
definition vfs_deinit :: s32 where "vfs_deinit = 0"
definition vop_ioctl :: s32 where "vop_ioctl = 0x80010030"
definition vop_func54 :: s32 where "vop_func54 = 0x80010016"
definition vop_func58 :: s32 where "vop_func58 = 0x80010016"
definition vop_func68 :: s32 where "vop_func68 = 0x80010016"
definition vop_func6C :: s32 where "vop_func6C = 0x80010016"

definition vop_sync :: "u32 \<Rightarrow> s32" where
  "vop_sync flags = (if flags \<noteq> 0 then 0x8002000A else 0)"

section \<open>Module entry\<close>

text \<open>
  The kernel calls of \<open>module_start\<close> that are not used elsewhere: registering and mounting the file
  system, and the file it writes through the mounted file system (which comes back to the
  operations above; here it is one step of the kernel).
\<close>

record 'k start_env =
  k_add_vfs :: "'k \<Rightarrow> s32 \<times> 'k"
  k_mount :: "'k \<Rightarrow> s32 \<times> 'k"
  k_io_open :: "'k \<Rightarrow> string \<Rightarrow> s32 \<times> 'k"
  k_io_write :: "'k \<Rightarrow> s32 \<Rightarrow> s32 \<times> 'k"
  k_io_close :: "'k \<Rightarrow> s32 \<Rightarrow> s32 \<times> 'k"
  START_SUCCESS :: s32
  START_FAILED :: s32

definition module_start ::
    "'k sce_kernel \<Rightarrow> 'k start_env \<Rightarrow> 'k vfs_state \<Rightarrow> s32 \<times> 'k vfs_state" where
  "module_start K E s =
     (let (res, s) = dmass_heap_init K s in
      if failed res then (START_FAILED E, s)
      else let (res, k) = k_add_vfs E (kst s); s = s\<lparr>kst := k\<rparr> in
        if failed res then (START_SUCCESS E, s)
        else let (res, k) = k_mount E (kst s); s = s\<lparr>kst := k\<rparr> in
          if failed res then (START_SUCCESS E, s)
          else let (fd, k) = k_io_open E (kst s) ''vsd0:file.bin'';
                   (_, k) = k_io_write E k fd;
                   (_, k) = k_io_close E k fd
               in (START_SUCCESS E, s\<lparr>kst := k\<rparr>))"

end
