(* ===== verification/Vop_Stat_Props.thy ===== *)
theory Vop_Stat_Props
  imports Vop_Stat Vop_File_Props Namespace
begin

text \<open>
  Size changes.  \<open>vop_chstat\<close> allocates exactly the size asked for, while the writes rely on whole
  blocks; the theorems say what each size change does and what a later write then meets.
\<close>

text \<open>The data block covers the size, not necessarily whole blocks.\<close>

definition size_ok :: "dheap \<Rightarrow> FapsDmassFs \<Rightarrow> bool" where
  "size_ok h e \<longleftrightarrow>
     entry_size e < 2^32 \<and> (fs_data e = NULL \<or> buf_of h (fs_data e) \<noteq> None) \<and>
     entry_size e \<le> capacity h e"

lemma data_size_ok: "data_ok h e \<Longrightarrow> size_ok h e"
  unfolding data_ok_def size_ok_def by linarith

lemma read_all:
  assumes "size_ok h e"
  shows "read_block h (fs_data e) 0 (entry_size e) = Some (entry_bytes h e)"
    and "length (entry_bytes h e) = entry_size e"
  using assms by (auto simp: size_ok_def read_block_def entry_bytes_def capacity_def split: option.splits)

text \<open>
  C14: the size part of a status change.  A negative size or one above 32 bits is refused (-1); size 0
  frees the data; otherwise there is no memory (-2), or growing keeps the old bytes in front of a block
  of exactly the new size, or shrinking to a size that is not 0 copies the old size into the smaller
  block, a write outside it.
\<close>

theorem chstat_size_spec:
  assumes K: "alloc_contract K" and e: "fs_of (heap s) p = Some e" and ok: "size_ok (heap s) e"
    and n: "node_of s node = Some n"
  shows "(z <s 0 \<longrightarrow> chstat_size K p z node s = Some (-1, s)) \<and>
    (0xFFFFFFFF <s z \<longrightarrow> chstat_size K p z node s = Some (-1, s)) \<and>
    (z = 0 \<longrightarrow> (\<exists>s' e'. chstat_size K p z node s = Some (0, s') \<and> fs_of (heap s') p = Some e' \<and>
       fs_data e' = NULL \<and> entry_size e' = 0 \<and> (fs_data e \<noteq> NULL \<longrightarrow> heap s' (fs_data e) = None))) \<and>
    (0 < unat z \<longrightarrow> unat z < 2^32 \<longrightarrow>
       (\<exists>s'. chstat_size K p z node s = Some (-2, s') \<and> heap s' = heap s) \<or>
       (if unat z < entry_size e \<and> entry_size e \<noteq> 0 then chstat_size K p z node s = None
        else \<exists>s' e'. chstat_size K p z node s = Some (0, s') \<and> fs_of (heap s') p = Some e' \<and>
           entry_size e' = unat z \<and> capacity (heap s') e' = unat z \<and>
           take (entry_size e) (entry_bytes (heap s') e') = entry_bytes (heap s) e \<and>
           (\<exists>n'. node_of s' node = Some n' \<and> vn_st_size n' = z)))"
    (is "?neg \<and> ?big \<and> ?zero \<and> ?mid")
proof (intro conjI)
  have p0: "p \<noteq> NULL" and n0: "node \<noteq> NULL"
    using e n by (auto simp: node_of_def dest: fs_ofD)
  have d: "heap s (fs_data e) \<noteq> None \<or> fs_data e = NULL"
    using ok by (auto simp: size_ok_def dest: buf_ofD)
  have dp: "fs_data e \<noteq> p \<or> fs_data e = NULL"
    using ok fs_not_buf [OF e] by (auto simp: size_ok_def)
  show ?neg by (simp add: chstat_size_def)
  show ?big
  proof
    assume big: "0xFFFFFFFF <s z"
    then have "\<not> z <s 0" "z \<noteq> 0" by (auto simp: word_sless_alt)
    then show "chstat_size K p z node s = Some (-1, s)" using big e by (simp add: chstat_size_def)
  qed
  show ?zero
  proof
    assume z: "z = 0"
    obtain s1 where f: "dmass_free K (fs_data e) s = Some s1" "frame s s1"
        "heap s1 = (if fs_data e = NULL then heap s else (heap s)(fs_data e := None))"
      using free_some [OF d] by metis
    have n1: "node_of s1 node = Some n" using n frame_of [OF f(2)] by simp
    show "\<exists>s' e'. chstat_size K p z node s = Some (0, s') \<and> fs_of (heap s') p = Some e' \<and>
       fs_data e' = NULL \<and> entry_size e' = 0 \<and> (fs_data e \<noteq> NULL \<longrightarrow> heap s' (fs_data e) = None)"
      using z e f(1,3) n1 p0 dp by (auto simp: chstat_size_def deref Let_def entry_size_def)
  qed
  show ?mid
  proof (intro impI)
    assume z: "0 < unat z" "unat z < 2^32"
    have zn: "\<not> z <s 0" "\<not> 0xFFFFFFFF <s z" "z \<noteq> 0"
      using z by (auto simp: not_neg_small sless_small)
    have us: "unat (ucast (st_size (fs_stat e)) :: u32) = entry_size e"
      using ok by (simp add: unat_ucast_64_32 entry_size_def size_ok_def)
    have uz: "unat (ucast z :: u32) = unat z" using z(2) by (simp add: unat_ucast_64_32)
    obtain t s1 where m: "dmass_malloc K (ucast z) s = (t, s1)" by fastforce
    from K m show "(\<exists>s'. chstat_size K p z node s = Some (-2, s') \<and> heap s' = heap s) \<or>
       (if unat z < entry_size e \<and> entry_size e \<noteq> 0 then chstat_size K p z node s = None
        else \<exists>s' e'. chstat_size K p z node s = Some (0, s') \<and> fs_of (heap s') p = Some e' \<and>
           entry_size e' = unat z \<and> capacity (heap s') e' = unat z \<and>
           take (entry_size e) (entry_bytes (heap s') e') = entry_bytes (heap s) e \<and>
           (\<exists>n'. node_of s' node = Some n' \<and> vn_st_size n' = z))"
    proof (cases rule: malloc_cases)
      case null
      then have "chstat_size K p z node s = Some (-2, s1)" using e zn m by (simp add: chstat_size_def)
      then show ?thesis using null(2) by blast
    next
      case (block b)
      let ?bs = "entry_bytes (heap s) e"
      have lb: "length b = unat z" "length ?bs = entry_size e"
        using block(3) uz read_all(2) [OF ok] by simp_all
      have tp: "t \<noteq> p" "t \<noteq> fs_data e \<or> fs_data e = NULL" using block(1,2) d fs_ofD [OF e] by auto
      have rd: "read_block (heap s1) (fs_data e) 0 (entry_size e) = Some ?bs"
      proof -
        have "buf_of (heap s1) (fs_data e) = buf_of (heap s) (fs_data e)"
          using tp(2) block(4) by (auto simp: buf_of_def)
        then show ?thesis using read_all(1) [OF ok] by (simp only: read_block_def)
      qed
      show ?thesis
      proof (cases "unat z < entry_size e")
        case True
        have "write_block t 0 ?bs s1 = None"
          using True lb block(1,4) by (auto simp: write_block_def deref)
        then have "chstat_size K p z node s = None"
          using e zn m block(1) us rd by (simp add: chstat_size_def)
        then show ?thesis using True by simp
      next
        case False
        obtain c where w: "write_block t 0 ?bs s1 = Some (put t (Buf (?bs @ c)) s1)"
            "length (?bs @ c) = length b"
          using write_fresh [of s1 t b ?bs] block(1,4) lb False by auto
        have "heap (put t (Buf (?bs @ c)) s1) (fs_data e) \<noteq> None \<or> fs_data e = NULL"
          using d block(4) by auto
        then obtain s3 where f: "dmass_free K (fs_data e) (put t (Buf (?bs @ c)) s1) = Some s3"
            "frame (put t (Buf (?bs @ c)) s1) s3"
            "heap s3 = (if fs_data e = NULL then heap (put t (Buf (?bs @ c)) s1)
               else (heap (put t (Buf (?bs @ c)) s1))(fs_data e := None))"
          using free_some by metis
        have nd: "node_of s3 node = Some n"
          using n frame_of [OF frame_trans [OF block(5) frame_trans [OF _ f(2)]]] by simp
        let ?e = "e\<lparr>fs_data := t, fs_stat := (fs_stat e)\<lparr>st_size := z\<rparr>\<rparr>"
        let ?s = "put_node node (n\<lparr>vn_st_size := z\<rparr>) (put p (FsObj ?e) (put p (FsObj (e\<lparr>fs_data := t\<rparr>)) s3))"
        have r: "chstat_size K p z node s = Some (0, ?s)"
          using e zn m block(1) us rd w(1) f(1) nd p0 by (simp add: chstat_size_def deref Let_def)
        have bf: "buf_of (heap ?s) t = Some (?bs @ c)"
          using f(3) block(1,4) tp by (auto simp: deref)
        have g: "fs_of (heap ?s) p = Some ?e" using p0 by (simp add: deref)
        have q: "entry_size ?e = unat z" "capacity (heap ?s) ?e = unat z"
          "entry_bytes (heap ?s) ?e = ?bs @ c"
          using bf w(2) lb
          unfolding capacity_def [of _ ?e] entry_bytes_def [of _ ?e] entry_size_def [of ?e] by simp_all
        have v: "node_of ?s node = Some (n\<lparr>vn_st_size := z\<rparr>)" using n0 by (simp add: deref)
        have "take (entry_size e) (entry_bytes (heap ?s) ?e) = ?bs" using q(3) lb(2) by simp
        then have "\<exists>s' e'. chstat_size K p z node s = Some (0, s') \<and> fs_of (heap s') p = Some e' \<and>
           entry_size e' = unat z \<and> capacity (heap s') e' = unat z \<and>
           take (entry_size e) (entry_bytes (heap s') e') = ?bs \<and>
           (\<exists>n'. node_of s' node = Some n' \<and> vn_st_size n' = z)"
          using r g q(1,2) v by (intro exI [of _ ?s] exI [of _ ?e]) simp
        then show ?thesis using False by simp
      qed
    qed
  qed
qed


text \<open>
  \<open>vop_get_stat\<close> of a path of good components returns the stat of the entry \<open>resolve\<close> finds, or
  0x80010002.
\<close>

theorem vop_get_stat_spec:
  assumes "ns s ts" "cs \<noteq> []" "\<forall>c \<in> set cs. good_comp c"
  shows "case resolve ts cs of
      None \<Rightarrow> vop_get_stat (Some (join_path cs)) s = Some (0x80010002, None)
    | Some t \<Rightarrow> \<exists>e. fs_of (heap s) (d_addr t) = Some e \<and>
        vop_get_stat (Some (join_path cs)) s = Some (0, Some (fs_stat e))"
proof (cases "resolve ts cs")
  case None
  then show ?thesis using lookup_resolve [OF assms] by (simp add: vop_get_stat_def)
next
  case (Some t)
  then have sub: "DNode (d_addr t) (d_name t) (d_kids t) \<in> subtrees ts" using resolve_subtree by auto
  have "forest (dview (heap s)) (pTree s) ts" using assms(1) by (simp add: ns_def)
  from forest_subtree [OF this sub] obtain e where "fs_of (heap s) (d_addr t) = Some e"
    by (auto simp: dview_Some)
  then show ?thesis using lookup_resolve [OF assms] Some by (simp add: vop_get_stat_def)
qed

end
