(* ===== verification/Dmass_Process.thy ===== *)
theory Dmass_Process
  imports Vop_File_Props
begin

text \<open>
  \<open>kernel/SceVfsMountPoC/src/dmass_process.c\<close> and the process resources of \<open>main.c\<close>: a list of
  process contexts, each owning a kernel memory block.  Its loops are the ones of the prelude's
  locales.
\<close>

section \<open>The list of contexts\<close>

definition proc_next :: "'k vfs_state \<Rightarrow> addr \<Rightarrow> addr option" where
  "proc_next s p = map_option pc_next (proc_of (heap s) p)"

definition proc_is :: "'k vfs_state \<Rightarrow> s32 \<Rightarrow> addr \<Rightarrow> bool option" where
  "proc_is s pid p = map_option (\<lambda>c. pid = pc_pid c) (proc_of (heap s) p)"

partial_function (option) proc_search :: "'k vfs_state \<Rightarrow> s32 \<Rightarrow> addr \<Rightarrow> addr option" where
  "proc_search s pid p =
     (if p = NULL then Some NULL
      else case proc_is s pid p of None \<Rightarrow> None
           | Some b \<Rightarrow>
               if b then Some p
               else (case proc_next s p of None \<Rightarrow> None | Some q \<Rightarrow> proc_search s pid q))"

text \<open>The code and, when it is 0, the value stored in \<open>*ppContext\<close>.\<close>

definition dmass_search_proc_context :: "s32 \<Rightarrow> 'k vfs_state \<Rightarrow> (s32 \<times> addr) option" where
  "dmass_search_proc_context pid s = do {
     p \<leftarrow> proc_search s pid (pProcContextTop s);
     Some (if p = NULL then (-1, NULL) else (0, p))
   }"

text \<open>\<open>u\<close> is what the fields that are not set hold in the fresh block.\<close>

definition dmass_create_proc_context ::
    "'k sce_kernel \<Rightarrow> FapsDmassProcessContext \<Rightarrow> s32 \<Rightarrow> 'k vfs_state \<Rightarrow>
     (s32 \<times> addr \<times> 'k vfs_state) option" where
  "dmass_create_proc_context K u pid s = do {
     (res, _) \<leftarrow> dmass_search_proc_context pid s;
     if \<not> failed res then Some (-1, NULL, s)
     else let (p, s) = dmass_malloc K (sizeof_proc K) s in
          if p = NULL then Some (-2, NULL, s)
          else Some (0, p, (put p (ProcObj (u\<lparr>pc_next := pProcContextTop s, pc_pid := pid\<rparr>)) s)
                            \<lparr>pProcContextTop := p\<rparr>)
   }"

datatype proc_link = ProcTop | ProcNext addr

fun read_proc :: "'k vfs_state \<Rightarrow> proc_link \<Rightarrow> addr option" where
  "read_proc s ProcTop = Some (pProcContextTop s)"
| "read_proc s (ProcNext p) = map_option pc_next (proc_of (heap s) p)"

fun write_proc :: "proc_link \<Rightarrow> addr \<Rightarrow> 'k vfs_state \<Rightarrow> 'k vfs_state option" where
  "write_proc ProcTop v s = Some (s\<lparr>pProcContextTop := v\<rparr>)"
| "write_proc (ProcNext p) v s =
     map_option (\<lambda>c. put p (ProcObj (c\<lparr>pc_next := v\<rparr>)) s) (proc_of (heap s) p)"

partial_function (option) find_proc_link ::
    "'k vfs_state \<Rightarrow> s32 \<Rightarrow> proc_link \<Rightarrow> (proc_link \<times> addr) option option" where
  "find_proc_link s pid l =
     (case read_proc s l of None \<Rightarrow> None
      | Some p \<Rightarrow>
        if p = NULL then Some None
        else case proc_is s pid p of None \<Rightarrow> None
             | Some b \<Rightarrow> if b then Some (Some (l, p)) else find_proc_link s pid (ProcNext p))"

definition dmass_delete_proc_context ::
    "'k sce_kernel \<Rightarrow> s32 \<Rightarrow> 'k vfs_state \<Rightarrow> (s32 \<times> 'k vfs_state) option" where
  "dmass_delete_proc_context K pid s = do {
     r \<leftarrow> find_proc_link s pid ProcTop;
     case r of
       None \<Rightarrow> Some (-2, s)
     | Some (l, p) \<Rightarrow> do {
         c \<leftarrow> proc_of (heap s) p;
         s \<leftarrow> write_proc l (pc_next c) s;
         s \<leftarrow> dmass_free K p s;
         Some (0, s)
       }
   }"

interpretation proc: chain_search proc_next proc_is proc_search
  by unfold_locales (rule proc_search.simps)

interpretation proc_link: link_walk proc_next read_proc ProcNext proc_is find_proc_link
  by unfold_locales (simp add: proc_next_def, rule find_proc_link.simps)

section \<open>Process resources\<close>

text \<open>
  The kernel's memory blocks.  \<open>k_memset\<close> fills a block of \<open>TEST_MEMORY_SIZE\<close> bytes with 0xAA.
\<close>

record 'k proc_env =
  k_alloc_block :: "'k \<Rightarrow> s32 \<times> 'k"
  k_block_base :: "'k \<Rightarrow> s32 \<Rightarrow> addr"
  k_memset :: "'k \<Rightarrow> addr \<Rightarrow> 'k"
  k_free_block :: "'k \<Rightarrow> s32 \<Rightarrow> 'k"
  KERNEL_PROCESS_ID :: s32

text \<open>
  When the context cannot be made, \<open>pContext\<close> is used without a value: a fault.
\<close>

definition dmass_create_process_resource ::
    "'k sce_kernel \<Rightarrow> 'k proc_env \<Rightarrow> FapsDmassProcessContext \<Rightarrow> s32 \<Rightarrow> 'k vfs_state \<Rightarrow>
     (s32 \<times> 'k vfs_state) option" where
  "dmass_create_process_resource K P u pid s = do {
     (res, p, s) \<leftarrow> dmass_create_proc_context K u pid s;
     if failed res then None
     else do {
       let (memid, k) = k_alloc_block P (kst s);
       let s = s\<lparr>kst := k\<rparr>;
       c \<leftarrow> proc_of (heap s) p;
       let c = c\<lparr>pc_memid := memid\<rparr>;
       let c = (if \<not> failed memid then c\<lparr>pc_membase := k_block_base P (kst s) memid\<rparr> else c);
       Some (0, put p (ProcObj c) s)
     }
   }"

definition dmass_delete_process_resource ::
    "'k sce_kernel \<Rightarrow> 'k proc_env \<Rightarrow> s32 \<Rightarrow> 'k vfs_state \<Rightarrow> (s32 \<times> 'k vfs_state) option" where
  "dmass_delete_process_resource K P pid s = do {
     (res, p) \<leftarrow> dmass_search_proc_context (KERNEL_PROCESS_ID P) s;
     s \<leftarrow> (if \<not> failed res
          then do {
            c \<leftarrow> proc_of (heap s) p;
            Some (if pc_membase c \<noteq> NULL then s\<lparr>kst := k_memset P (kst s) (pc_membase c)\<rparr> else s)
          }
          else Some s);
     (res, p) \<leftarrow> dmass_search_proc_context pid s;
     if failed res then Some (res, s)
     else do {
       c \<leftarrow> proc_of (heap s) p;
       let s = (if \<not> failed (pc_memid c)
                then put p (ProcObj (c\<lparr>pc_memid := -1\<rparr>))
                  (s\<lparr>kst := k_free_block P (k_memset P (kst s) (pc_membase c)) (pc_memid c)\<rparr>)
                else s);
       (res, s) \<leftarrow> dmass_delete_proc_context K pid s;
       if failed res then Some (res, s) else Some (0, s)
     }
   }"

definition dmass_proc_create where
  "dmass_proc_create K P u pid s =
     map_option (\<lambda>(_, s). (0 :: s32, s)) (dmass_create_process_resource K P u pid s)"

definition dmass_proc_exit where
  "dmass_proc_exit K P pid s =
     map_option (\<lambda>(_, s). (0 :: s32, s)) (dmass_delete_process_resource K P pid s)"

definition dmass_proc_kill where
  "dmass_proc_kill K P pid s =
     map_option (\<lambda>(_, s). (0 :: s32, s)) (dmass_delete_process_resource K P pid s)"

section \<open>The abstract list\<close>

text \<open>\<open>procs s ps\<close>: the contexts are those of the processes \<open>ps\<close>, latest first, each once.\<close>

definition pid_of :: "'k vfs_state \<Rightarrow> addr \<Rightarrow> s32 option" where
  "pid_of s p = map_option pc_pid (proc_of (heap s) p)"

definition procs :: "'k vfs_state \<Rightarrow> s32 list \<Rightarrow> bool" where
  "procs s ps \<longleftrightarrow> (\<exists>xs. chain (proc_next s) (pProcContextTop s) xs \<and>
      map (pid_of s) xs = map Some ps \<and> distinct ps)"

lemma procsE:
  assumes "procs s ps"
  obtains xs where "chain (proc_next s) (pProcContextTop s) xs" "map (pid_of s) xs = map Some ps"
    "distinct ps" "\<And>x. x \<in> set xs \<Longrightarrow> \<exists>c. proc_of (heap s) x = Some c"
    "\<And>x. x \<in> set xs \<Longrightarrow> proc_is s pid x = Some (pid_of s x = Some pid)"
proof -
  from assms obtain xs where xs: "chain (proc_next s) (pProcContextTop s) xs"
    "map (pid_of s) xs = map Some ps" "distinct ps" by (auto simp: procs_def)
  have k: "\<exists>c. proc_of (heap s) x = Some c" if "x \<in> set xs" for x
  proof -
    have "pid_of s x \<in> set (map Some ps)" using that xs(2) by (metis imageI list.set_map)
    then show ?thesis by (auto simp: pid_of_def)
  qed
  have "proc_is s pid x = Some (pid_of s x = Some pid)" if "x \<in> set xs" for x
    using k [OF that] by (auto simp: proc_is_def pid_of_def)
  with xs k that show thesis by blast
qed

lemma search_procs:
  assumes "procs s ps"
  shows "\<exists>p. proc_search s pid (pProcContextTop s) = Some p \<and>
    (if pid \<in> set ps then p \<noteq> NULL \<and> pid_of s p = Some pid else p = NULL)"
  using assms
proof (rule procsE [where pid = pid])
  fix xs
  assume xs: "chain (proc_next s) (pProcContextTop s) xs" "map (pid_of s) xs = map Some ps"
    "\<And>x. x \<in> set xs \<Longrightarrow> proc_is s pid x = Some (pid_of s x = Some pid)"
  have iff: "pid \<in> set ps \<longleftrightarrow> (\<exists>x \<in> set xs. pid_of s x = Some pid)"
  proof -
    have "pid \<in> set ps \<longleftrightarrow> Some pid \<in> set (map (pid_of s) xs)" unfolding xs(2) by auto
    then show ?thesis by (auto simp: image_iff eq_commute [of "Some pid"])
  qed
  from proc.search_find [OF xs(1) xs(3)]
  have s: "proc_search s pid (pProcContextTop s) =
    Some (case find (\<lambda>x. pid_of s x = Some pid) xs of None \<Rightarrow> NULL | Some a \<Rightarrow> a)" .
  show ?thesis
  proof (cases "find (\<lambda>x. pid_of s x = Some pid) xs")
    case None
    then have "pid \<notin> set ps" using iff by (auto simp: find_None_iff)
    then show ?thesis using s None by simp
  next
    case (Some a)
    then have "a \<in> set xs" "pid_of s a = Some pid" by (auto simp: find_Some_iff)
    then show ?thesis using s iff Some chain_NULL_notin [OF xs(1)] by auto
  qed
qed

text \<open>
  Making a context refuses a process that has one (-1, no change) and otherwise puts the new one
  first, or reports -2 when there is no memory; the list keeps one context per process.
\<close>

theorem create_proc_context_spec:
  assumes K: "alloc_contract K" and p: "procs s ps"
  shows "\<exists>r q s'. dmass_create_proc_context K u pid s = Some (r, q, s') \<and>
    (if pid \<in> set ps then r = -1 \<and> s' = s
     else r = -2 \<and> procs s' ps \<or> r = 0 \<and> procs s' (pid # ps) \<and> pid_of s' q = Some pid)"
proof -
  obtain x where x: "proc_search s pid (pProcContextTop s) = Some x"
    "if pid \<in> set ps then x \<noteq> NULL \<and> pid_of s x = Some pid else x = NULL"
    using search_procs [OF p] by blast
  show ?thesis
  proof (cases "pid \<in> set ps")
    case True
    then show ?thesis using x by (simp add: dmass_create_proc_context_def dmass_search_proc_context_def)
  next
    case False
    obtain t s1 where m: "dmass_malloc K (sizeof_proc K) s = (t, s1)" by fastforce
    from K m show ?thesis
    proof (cases rule: malloc_cases)
      case null
      have "procs s1 ps" using p null(2,3)
        by (auto simp: procs_def proc_next_def pid_of_def frame_def cong: map_cong)
          (metis (no_types, lifting) proc_next_def chain_cong)
      then show ?thesis using x False m null
        by (simp add: dmass_create_proc_context_def dmass_search_proc_context_def)
    next
      case (block b)
      let ?c = "u\<lparr>pc_next := pProcContextTop s1, pc_pid := pid\<rparr>"
      let ?s = "(put t (ProcObj ?c) s1)\<lparr>pProcContextTop := t\<rparr>"
      have r: "dmass_create_proc_context K u pid s = Some (0, t, ?s)"
        using x False m block(1) by (simp add: dmass_create_proc_context_def dmass_search_proc_context_def)
      from p obtain xs where xs: "chain (proc_next s) (pProcContextTop s) xs"
        "map (pid_of s) xs = map Some ps" "distinct ps" "\<And>x. x \<in> set xs \<Longrightarrow> \<exists>c. proc_of (heap s) x = Some c"
        by (rule procsE [where pid = pid]) blast
      have k: "proc_of (heap ?s) y = proc_of (heap s) y" if "y \<in> set xs" for y
        using xs(4) [OF that] block(2,4) by (auto simp: deref dest: proc_ofD)
      have "chain (proc_next ?s) (pProcContextTop s) xs"
        using xs(1) chain_cong [of xs "proc_next ?s" "proc_next s"] k by (simp add: proc_next_def)
      then have "chain (proc_next ?s) t (t # xs)"
        using block(1,5) by (simp add: proc_next_def deref frame_def)
      moreover have "map (pid_of ?s) xs = map (pid_of s) xs" using k by (simp add: pid_of_def)
      moreover have pt: "pid_of ?s t = Some pid" using block(1) by (simp add: pid_of_def deref)
      ultimately have "procs ?s (pid # ps)"
        unfolding procs_def using xs(2,3) False by (intro exI [of _ "t # xs"]) simp
      then show ?thesis using r False pt by simp
    qed
  qed
qed

text \<open>
  Deleting the context of a process removes exactly that one and frees it; when the process has
  none the result is -2 without a change.
\<close>

theorem delete_proc_context_spec:
  assumes p: "procs s ps"
  shows "\<exists>r s'. dmass_delete_proc_context K pid s = Some (r, s') \<and>
    (if pid \<in> set ps then r = 0 \<and> procs s' (remove1 pid ps) else r = -2 \<and> s' = s)"
  using p
proof (rule procsE [where pid = pid])
  fix xs
  assume xs: "chain (proc_next s) (pProcContextTop s) xs" "map (pid_of s) xs = map Some ps" "distinct ps"
    "\<And>x. x \<in> set xs \<Longrightarrow> \<exists>c. proc_of (heap s) x = Some c"
    "\<And>x. x \<in> set xs \<Longrightarrow> proc_is s pid x = Some (pid_of s x = Some pid)"
  have rd: "read_proc s ProcTop = Some (pProcContextTop s)" by simp
  show ?thesis
  proof (cases "pid \<in> set ps")
    case False
    then have "pid_of s x \<noteq> Some pid" if "x \<in> set xs" for x
      using that xs(2) by (metis (no_types, lifting) image_eqI image_iff list.set_map option.inject)
    then have "find_proc_link s pid ProcTop = Some None"
      using proc_link.walk_none [OF rd xs(1)] xs(5) by simp
    then show ?thesis using False by (simp add: dmass_delete_proc_context_def)
  next
    case True
    then have "Some pid \<in> set (map (pid_of s) xs)" unfolding xs(2) by auto
    then have "\<exists>x \<in> set xs. pid_of s x = Some pid" by auto
    then obtain as a bs where sp: "xs = as @ a # bs" "pid_of s a = Some pid"
      "\<And>x. x \<in> set as \<Longrightarrow> pid_of s x \<noteq> Some pid"
      using split_list_first_prop [of xs "\<lambda>x. pid_of s x = Some pid"] by blast
    have c: "chain (proc_next s) (pProcContextTop s) (as @ a # bs)" using xs(1) sp(1) by simp
    obtain ca where ca: "proc_of (heap s) a = Some ca" using xs(4) [of a] sp(1) by auto
    have nx: "proc_next s a = Some (pc_next ca)" using ca by (simp add: proc_next_def)
    have dis: "distinct xs" "a \<noteq> NULL"
      using chain_distinct [OF xs(1)] chain_NULL_notin [OF xs(1)] sp(1) by auto
    have fl: "find_proc_link s pid ProcTop
        = Some (Some (if as = [] then ProcTop else ProcNext (last as), a))"
      by (rule proc_link.walk_found [OF rd c]) (use xs(5) sp in auto)
    have rk: "map (pid_of s) (as @ bs) = map Some (remove1 pid ps)"
      using remove1_map_Some [of "pid_of s" as a bs ps pid] xs(2) sp by simp
    define s' where "s' = (if as = []
       then s\<lparr>pProcContextTop := pc_next ca, heap := (heap s)(a := None), kst := k_free K (kst s) a\<rparr>
       else s\<lparr>heap := (heap s)(last as \<mapsto> ProcObj (the (proc_of (heap s) (last as))\<lparr>pc_next := pc_next ca\<rparr>),
                a := None), kst := k_free K (kst s) a\<rparr>)"
    have ls: "as = [] \<or> last as \<in> set xs \<and> last as \<noteq> a"
      using dis sp(1) last_in_set [of as] by auto
    have "dmass_delete_proc_context K pid s = Some (0, s')"
    proof (cases "as = []")
      case True
      then show ?thesis using fl ca dis(2) proc_ofD [OF ca]
        by (simp add: dmass_delete_proc_context_def dmass_free_def s'_def)
    next
      case False
      then obtain cl where cl: "proc_of (heap s) (last as) = Some cl" using ls xs(4) by blast
      then show ?thesis using False fl ca dis(2) proc_ofD [OF ca] ls
        by (simp add: dmass_delete_proc_context_def dmass_free_def s'_def put_def)
    qed
    moreover have "procs s' (remove1 pid ps)"
    proof -
      have k: "proc_of (heap s') y = (if as \<noteq> [] \<and> y = last as
          then map_option (\<lambda>c. c\<lparr>pc_next := pc_next ca\<rparr>) (proc_of (heap s) y) else proc_of (heap s) y)"
        if "y \<in> set (as @ bs)" for y
      proof -
        have "y \<noteq> a" "y \<in> set xs" using that dis sp(1) by auto
        then show ?thesis using xs(4) [of y] proc_ofD [of "heap s" y] by (auto simp: s'_def deref)
      qed
      have "map (pid_of s') (as @ bs) = map Some (remove1 pid ps)"
        unfolding rk [symmetric] using k by (simp add: pid_of_def option.map_comp o_def)
      moreover have "chain (proc_next s') (pProcContextTop s') (as @ bs)"
      proof (cases "as = []")
        case True
        then have "chain (proc_next s') q bs = chain (proc_next s) q bs" for q
          using k by (intro chain_cong) (simp add: proc_next_def)
        then show ?thesis using chain_unlink(1) [OF c nx True] True by (simp add: s'_def)
      next
        case False
        have "chain (proc_next s') q (as @ bs) = chain ((proc_next s)(last as := Some (pc_next ca))) q (as @ bs)"
          for q
        proof (rule chain_cong)
          fix y assume y: "y \<in> set (as @ bs)"
          have "\<exists>c. proc_of (heap s) y = Some c" using xs(4) [of y] y sp(1) by auto
          then show "proc_next s' y = ((proc_next s)(last as := Some (pc_next ca))) y"
            using k [OF y] False by (auto simp: proc_next_def)
        qed
        moreover have "pProcContextTop s' = pProcContextTop s" using False by (simp add: s'_def)
        ultimately show ?thesis using chain_unlink(2) [OF c nx False] by simp
      qed
      ultimately show ?thesis unfolding procs_def using xs(3) by (intro exI [of _ "as @ bs"]) simp
    qed
    ultimately show ?thesis using True by auto
  qed
qed

end
