(* ===== verification/Sample_State.thy ===== *)
theory Sample_State
  imports Vop_Remove_Props Vop_Dread_Props Vop_Stat_Props Dmass_Process
begin

text \<open>
  A concrete kernel and a concrete mounted file system, on which the witnesses of the properties
  evaluate: the root directory \<open>md\<close> with an empty file \<open>b\<close>, an empty directory \<open>d\<close> and a file
  \<open>a\<close> of three bytes that is open.
\<close>

definition date0 :: SceDateTime where
  "date0 = \<lparr>dt_year = 2020, dt_month = 1, dt_day = 1, dt_hour = 0, dt_minute = 0, dt_second = 0,
            dt_microsecond = 0\<rparr>"

definition vnode0 :: SceVfsNode where
  "vnode0 = \<lparr>vn_dev_info = 0, vn_mount = 0, vn_prev_node = 0, vn_some_counter_58 = 0, vn_unk_60 = 0,
     vn_unk_64 = 0, vn_unk_74 = 0, vn_unk_78 = 0, vn_st_size = 0, vn_st_attr = 0, vn_unk_8C = 0\<rparr>"

text \<open>The kernel state is the number of objects handed out.\<close>

definition K0 :: "nat sce_kernel" where
  "K0 = \<lparr>k_create_heap = (\<lambda>k. (5, k)),
     k_alloc = (\<lambda>k uid used n. let a = word_of_nat (0x1000 + k) in (if used a then 0 else a, k + 1)),
     k_junk = (\<lambda>k p n. replicate n 0xAA), k_free = (\<lambda>k p. k), k_rtc_tick = (\<lambda>k. (0, 0, k)),
     k_rtc_convert = (\<lambda>t. (0, date0)), k_zero_date = date0,
     k_new_node = (\<lambda>k m used. let a = word_of_nat (0x8000 + k) in
        if a = 0 \<or> used a then (-1, 0, vnode0, k) else (0, a, vnode0, k + 1)),
     k_node_wait = (\<lambda>k p. (0, k)), sizeof_fs = 0x80, sizeof_fsx = 0xC, sizeof_proc = 0x14,
     S_IFMT = 0xF000, S_IFDIR = 0x1000, S_IFREG = 0x2000, S_IRUSR = 0x100, S_IWUSR = 0x80,
     S_IXUSR = 0x40, SO_IROTH = 4, SO_IWOTH = 2, SO_IXOTH = 1, SO_IFDIR = 0x10, O_APPEND = 0x100,
     SEEK_SET = 0, SEEK_CUR = 1, SEEK_END = 2\<rparr>"

lemma K0_contracts: "alloc_contract K0" "node_contract K0" "mode_contract K0"
  by (auto simp: K0_def alloc_contract_def node_contract_def mode_contract_def Let_def split: if_splits)

definition stat0 :: "u32 \<Rightarrow> SceOff \<Rightarrow> SceIoStat" where
  "stat0 m z = \<lparr>st_mode = m, st_attr = 0, st_size = z, st_ctime = date0, st_atime = date0, st_mtime = date0\<rparr>"

definition entry0 :: "addr \<Rightarrow> addr \<Rightarrow> addr \<Rightarrow> u32 \<Rightarrow> addr \<Rightarrow> SceIoStat \<Rightarrow> addr \<Rightarrow> FapsDmassFs" where
  "entry0 nx nd fx r nm st d = \<lparr>fs_next = nx, fs_next_dir = nd, fs_pNode = 0, fs_pDmassFsX = fx,
     fs_refer = r, fs_name = nm, fs_stat = st, fs_data = d\<rparr>"

definition heap0 :: dheap where
  "heap0 = [1 \<mapsto> FsObj (entry0 0 7 0 0 2 (stat0 0x1180 0) 0), 2 \<mapsto> Str ''md'',
     7 \<mapsto> FsObj (entry0 9 0 0 0 8 (stat0 0x2180 0) 0), 8 \<mapsto> Str ''b'',
     9 \<mapsto> FsObj (entry0 3 0 0 0 12 (stat0 0x1180 0) 0), 12 \<mapsto> Str ''d'',
     3 \<mapsto> FsObj (entry0 0 0 5 1 4 (stat0 0x2180 3) 6), 4 \<mapsto> Str ''a'',
     5 \<mapsto> FsXObj \<lparr>fsx_next = 0, fsx_handler_index = 20, fsx_current = 0\<rparr>,
     6 \<mapsto> Buf (replicate 512 7),
     13 \<mapsto> ProcObj \<lparr>pc_next = 14, pc_pid = 100, pc_memid = 0, pc_membase = 0, pc_heap_id = 0\<rparr>,
     14 \<mapsto> ProcObj \<lparr>pc_next = 0, pc_pid = 200, pc_memid = 0, pc_membase = 0, pc_heap_id = 0\<rparr>]"

definition S0 :: "nat vfs_state" where
  "S0 = \<lparr>heap = heap0,
     vnodes = [10 \<mapsto> vnode0\<lparr>vn_dev_info := 1, vn_mount := 99\<rparr>,
               11 \<mapsto> vnode0\<lparr>vn_dev_info := 3, vn_mount := 99, vn_st_size := 3\<rparr>,
               15 \<mapsto> vnode0\<lparr>vn_dev_info := 7, vn_mount := 99\<rparr>],
     fobjs = [20 \<mapsto> \<lparr>fo_flags = 0, fo_offset = 1, fo_node = 11\<rparr>,
              21 \<mapsto> \<lparr>fo_flags = 0, fo_offset = 0, fo_node = 15\<rparr>],
     pTree = 1, test_heap_uid = 5, pProcContextTop = 13, kst = 0\<rparr>"

definition ts0 :: "dtree list" where
  "ts0 = [DNode 1 ''md'' [DNode 7 ''b'' [], DNode 9 ''d'' [], DNode 3 ''a'' []]]"

lemma S0_sel [simp]:
  "pTree S0 = 1" "pProcContextTop S0 = 13" "heap S0 = heap0" "kst S0 = 0"
  by (simp_all add: S0_def)

lemma S0_nodes [simp]:
  "node_of S0 10 = Some (vnode0\<lparr>vn_dev_info := 1, vn_mount := 99\<rparr>)"
  "node_of S0 11 = Some (vnode0\<lparr>vn_dev_info := 3, vn_mount := 99, vn_st_size := 3\<rparr>)"
  "node_of S0 15 = Some (vnode0\<lparr>vn_dev_info := 7, vn_mount := 99\<rparr>)"
  "fobj_of S0 20 = Some \<lparr>fo_flags = 0, fo_offset = 1, fo_node = 11\<rparr>"
  "fobj_of S0 21 = Some \<lparr>fo_flags = 0, fo_offset = 0, fo_node = 15\<rparr>"
  by (simp_all add: S0_def node_of_def fobj_of_def)

lemma heap0_reads [simp]:
  "fs_of heap0 1 = Some (entry0 0 7 0 0 2 (stat0 0x1180 0) 0)"
  "fs_of heap0 7 = Some (entry0 9 0 0 0 8 (stat0 0x2180 0) 0)"
  "fs_of heap0 9 = Some (entry0 3 0 0 0 12 (stat0 0x1180 0) 0)"
  "fs_of heap0 3 = Some (entry0 0 0 5 1 4 (stat0 0x2180 3) 6)"
  "str_of heap0 2 = Some ''md''" "str_of heap0 8 = Some ''b''" "str_of heap0 12 = Some ''d''"
  "str_of heap0 4 = Some ''a''"
  "fsx_of heap0 5 = Some \<lparr>fsx_next = 0, fsx_handler_index = 20, fsx_current = 0\<rparr>"
  "buf_of heap0 6 = Some (replicate 512 7)"
  "proc_of heap0 13 = Some \<lparr>pc_next = 14, pc_pid = 100, pc_memid = 0, pc_membase = 0, pc_heap_id = 0\<rparr>"
  "proc_of heap0 14 = Some \<lparr>pc_next = 0, pc_pid = 200, pc_memid = 0, pc_membase = 0, pc_heap_id = 0\<rparr>"
  "heap0 6 = Some (Buf (replicate 512 7))" "fs_of heap0 0 = None" "buf_of heap0 0 = None"
  by (simp_all add: heap0_def fs_of_def str_of_def fsx_of_def buf_of_def proc_of_def)

lemma entry0_sel [simp]:
  "fs_next (entry0 nx nd fx r nm st d) = nx" "fs_next_dir (entry0 nx nd fx r nm st d) = nd"
  "fs_pDmassFsX (entry0 nx nd fx r nm st d) = fx" "fs_refer (entry0 nx nd fx r nm st d) = r"
  "fs_name (entry0 nx nd fx r nm st d) = nm" "fs_stat (entry0 nx nd fx r nm st d) = st"
  "fs_data (entry0 nx nd fx r nm st d) = d" "st_mode (stat0 m z) = m" "st_size (stat0 m z) = z"
  "vn_dev_info vnode0 = 0" "vn_mount vnode0 = 0" "vn_st_size vnode0 = 0"
  by (simp_all add: entry0_def stat0_def vnode0_def)

lemma ns0: "ns S0 ts0"
  by (simp add: ns_def ts0_def names_owned_def name_of_def dview_def)

lemma handles0: "handles heap0 3 [20]" "handles heap0 1 []" "handles heap0 7 []"
  by (simp_all add: handles_def ctl_next_of_def key_of_def)
    (intro exI [of _ "[5]"], simp add: ctl_next_of_def key_of_def)

lemma file_ok0: "file_ok S0 11 20"
proof -
  have "has_handle heap0 (entry0 0 0 5 1 4 (stat0 0x2180 3) 6) 20"
    using handles_has_handle [OF handles0(1), of _ 20] by simp
  moreover have "data_ok heap0 (entry0 0 0 5 1 4 (stat0 0x2180 3) 6)"
    by (simp add: data_ok_def entry_size_def capacity_def)
  ultimately show ?thesis by (simp add: file_ok_def entry_size_def)
qed

lemma file_bytes0: "file_bytes S0 11 = [7, 7, 7]" "file_off S0 20 = 1"
proof -
  have "file_bytes S0 11 = replicate 3 7"
    by (simp add: file_bytes_def entry_bytes_def entry_size_def)
  also have "\<dots> = [7, 7, 7]" by (simp add: eval_nat_numeral)
  finally show "file_bytes S0 11 = [7, 7, 7]" .
  show "file_off S0 20 = 1" by (simp add: file_off_def)
qed

lemma procs0: "procs S0 [100, 200]"
  unfolding procs_def
  by (rule exI [of _ "[13, 14]"]) (simp add: proc_next_def pid_of_def)

end
