(* ===== verification/Sample_Runs.thy ===== *)
theory Sample_Runs
  imports Sample_State
begin

text \<open>
  Each property of the file system applied at the concrete state of \<open>Sample_State\<close>, where its
  hypotheses hold.
\<close>

lemmas state_evals = Let_def deref entry_size_def capacity_def node_of_def fobj_of_def


lemma vop_read_refines_witness:
  "\<exists>r s'. vop_read 11 20 9 S0 = Some (r, [7, 7], s') \<and> unat r = Suc (Suc 0) \<and> file_ok s' 11 20 \<and>
     file_bytes s' 11 = [7, 7, 7] \<and> file_off s' 20 = 1 + unat r"
  using vop_read_refines [OF file_ok0, of 9] by (simp add: file_bytes0)

lemma vop_pread_refines_witness:
  "\<exists>r. vop_pread 11 20 1 2 S0 = Some (r, [7], S0) \<and> unat r = 1"
  using vop_pread_refines [OF file_ok0, of 2 1] by (simp add: file_bytes0)

lemma vop_pwrite_refines_witness:
  "\<exists>r s'. vop_pwrite K0 11 20 [1] 1 3 S0 = Some (r, s') \<and> file_ok s' 11 20 \<and> file_off s' 20 = 1 \<and>
    (r = -2 \<and> file_bytes s' 11 = [7, 7, 7] \<or> r = 1 \<and> file_bytes s' 11 = [7, 7, 7, 1])"
  using vop_pwrite_refines [OF K0_contracts(1) file_ok0, of 1 "[1]" 3]
  by (simp add: file_bytes0 overwrite_def)

lemma vop_lseek_spec_witness:
  "\<exists>s'. vop_lseek K0 11 20 2 1 S0 = Some (3, s') \<and> file_ok s' 11 20 \<and>
      file_bytes s' 11 = [7, 7, 7] \<and> int (file_off s' 20) = 3"
  using vop_lseek_spec [OF file_ok0, of K0 2 1] by (auto simp: file_bytes0 seek_base_def K0_def)

text \<open>A run of \<open>vop_pwrite\<close> and one of \<open>vop_write\<close>, evaluated.\<close>

lemma search0: "search_dmass_ctl_data 3 20 S0 = Some 5"
  by (simp add: search_dmass_ctl_data_def ctl_search.simps ctl_is_def)

lemma pwrite_run: "\<exists>s'. vop_pwrite K0 11 20 [1, 2] 2 1 S0 = Some (2, s')"
  by (simp add: vop_pwrite_def search0 grow_data_def block_align_def write_block_def Let_def
      word_sless_alt word_sle_eq)

lemma pwrite_pread_roundtrip_witness:
  "\<exists>s'. vop_pwrite K0 11 20 [1, 2] 2 1 S0 = Some (2, s') \<and> pread_at 11 20 1 (Suc (Suc 0)) s' = Some [1, 2] \<and>
     pread_at 11 20 0 1 s' = pread_at 11 20 0 1 S0"
proof -
  obtain s' where r: "vop_pwrite K0 11 20 [1, 2] 2 1 S0 = Some (2, s')" using pwrite_run by blast
  from pwrite_pread_roundtrip [OF K0_contracts(1) file_ok0, of 1 "[1, 2]" s'] r
  have "pread_at 11 20 1 (Suc (Suc 0)) s' = Some [1, 2]" "pread_at 11 20 0 1 s' = pread_at 11 20 0 1 S0"
    by (simp_all add: file_bytes0)
  with r show ?thesis by blast
qed

lemma write_run: "\<exists>s'. vop_write K0 11 20 [1, 2] 2 S0 = Some (2, s')"
  by (simp add: vop_write_def search0 grow_data_def block_align_def write_block_def Let_def
      word_sless_alt word_sle_eq)

lemma vop_write_other_file_witness:
  "\<exists>s'. vop_write K0 11 20 [1, 2] 2 S0 = Some (2, s') \<and> file_bytes s' 15 = file_bytes S0 15"
proof -
  obtain s' where r: "vop_write K0 11 20 [1, 2] 2 S0 = Some (2, s')" using write_run by blast
  have d: "data_ok heap0 (entry0 9 0 0 0 8 (stat0 0x2180 0) 0)"
    by (simp add: data_ok_def entry_size_def)
  have "file_bytes s' 15 = file_bytes S0 15"
    using vop_write_other_file [OF K0_contracts(1) file_ok0 _ _ r S0_nodes(2) S0_nodes(3)] d
    by (simp add: file_bytes0)
  with r show ?thesis by blast
qed

section \<open>Open and close\<close>

lemma vop_open_handles_witness:
  "\<exists>r s'. vop_open K0 11 21 S0 = Some (r, s') \<and> (r = -1 \<or> r = 0 \<and> handles (heap s') 3 [21, 20])"
  using vop_open_handles [OF K0_contracts(1) S0_nodes(2) S0_nodes(5), of "[20]"] handles0(1)
  by auto

lemma vop_close_handles_witness:
  "\<exists>s'. vop_close K0 11 20 S0 = Some (0, s') \<and> handles (heap s') 3 []"
  using vop_close_handles [OF S0_nodes(2), of "[20]" K0 20] handles0(1) by auto

lemma open_run: "\<exists>s1. vop_open K0 15 21 S0 = Some (0, s1)"
  by (simp add: vop_open_def create_dmass_ctl_data_def dmass_malloc_def K0_def S0_def heap0_def
      deref fs_of_def node_of_def fobj_of_def Let_def put_def vnode0_def)

lemma open_close_restores_witness:
  "\<exists>s1 s2. vop_open K0 15 21 S0 = Some (0, s1) \<and> vop_close K0 15 21 s1 = Some (0, s2) \<and> heap s2 = heap0"
proof -
  obtain s1 where r: "vop_open K0 15 21 S0 = Some (0, s1)" using open_run by blast
  from open_close_restores [OF K0_contracts(1) S0_nodes(3) r] r show ?thesis by auto
qed

section \<open>The name space\<close>

lemma good0 [simp]: "good_comp ''md''" "good_comp ''a''" "good_comp ''b''" "good_comp ''d''" "good_comp ''x''"
  by (simp_all add: good_comp_def)

lemma resolve0 [simp]:
  "resolve ts0 [''md''] = Some (DNode 1 ''md'' [DNode 7 ''b'' [], DNode 9 ''d'' [], DNode 3 ''a'' []])"
  "resolve ts0 [''md'', ''b''] = Some (DNode 7 ''b'' [])" "resolve ts0 [''md'', ''d''] = Some (DNode 9 ''d'' [])"
  "resolve ts0 [''md'', ''x''] = None"
  by (simp_all add: ts0_def)

lemma root0: "DNode 1 ''md'' [DNode 7 ''b'' [], DNode 9 ''d'' [], DNode 3 ''a'' []] \<in> subtrees ts0"
  by (simp add: ts0_def)

lemma get_fs_entry_resolve_witness:
  "get_fs_entry (Some ''/md/b'') S0 = Some (0, 7) \<and> get_fs_entry (Some ''/md/x'') S0 = Some (0x80010002, 0)"
  using get_fs_entry_resolve [OF ns0, of "[''md'', ''b'']"] get_fs_entry_resolve [OF ns0, of "[''md'', ''x'']"]
  by (simp add: ts0_def)

lemma get_fs_entry_malformed_witness:
  "get_fs_entry (Some ''md'') S0 = Some (-1, 0) \<and> get_fs_entry (Some ''/md//b'') S0 = Some (-2, 0)"
proof
  show "get_fs_entry (Some ''md'') S0 = Some (-1, 0)"
    using get_fs_entry_malformed [OF ns0, of "Some ''md''"] by simp
  show "get_fs_entry (Some ''/md//b'') S0 = Some (-2, 0)"
    using get_fs_entry_malformed [OF ns0, of "Some ''/md//b''", THEN conjunct2, rule_format,
        of "[''md'']" "''/b''"] by (simp add: ts0_def)
qed

lemma vop_create_spec_witness:
  "\<exists>r q s'. vop_create K0 (Some ''/md/b'') ''b'' 10 S0 = Some (r, q, s') \<and> r = 0x80010011 \<and> s' = S0"
  using vop_create_spec [OF K0_contracts(1,2) ns0 S0_nodes(1), of "[''md'', ''b'']" "''b''"]
  by (simp add: ts0_def)

lemma vop_mkdir_spec_witness:
  "\<exists>r q s'. vop_mkdir K0 (Some ''/md/b'') ''b'' 10 S0 = Some (r, q, s') \<and> r = 0x80010011 \<and> s' = S0"
  using vop_mkdir_spec [OF K0_contracts(1,2) ns0 S0_nodes(1), of "[''md'', ''b'']" "''b''"]
  by (simp add: ts0_def S_ISDIR_def K0_def)


lemma vop_rmdir_spec_witness:
  "\<exists>s'. vop_rmdir K0 (Some ''/md/d'') 10 S0 = Some (0, s') \<and>
     ns s' [DNode 1 ''md'' [DNode 7 ''b'' [], DNode 3 ''a'' []]] \<and> heap s' 9 = None"
proof -
  have "entry_ok heap0 (entry0 3 0 0 0 12 (stat0 0x1180 0) 0)" by (simp add: entry_ok_def)
  then show ?thesis
    using vop_rmdir_spec [OF ns0 S0_nodes(1), of "''md''" _ "[''md'', ''d'']" K0] root0
    by (auto simp: S_ISDIR_def K0_def ts0_def)
qed

lemma vop_dopen_stream_witness:
  "\<exists>r s'. vop_dopen K0 10 20 S0 = Some (r, s') \<and>
     (r = 0x80010016 \<or> r = 0 \<and> stream s' 10 20 [DNode 7 ''b'' [], DNode 9 ''d'' [], DNode 3 ''a'' []])"
  using vop_dopen_stream [OF K0_contracts(1) ns0 S0_nodes(1), where dn = "''md''" and keys = "[]"
      and ks = "[DNode 7 ''b'' [], DNode 9 ''d'' [], DNode 3 ''a'' []]" and fo = 20] root0 handles0(2)
  by auto

section \<open>Status and processes\<close>

lemma chstat_size_spec_witness:
  "chstat_size K0 3 (-1) 11 S0 = Some (-1, S0) \<and> (\<exists>s' e'. chstat_size K0 3 0 11 S0 = Some (0, s') \<and>
     fs_of (heap s') 3 = Some e' \<and> fs_data e' = 0 \<and> heap s' 6 = None)"
proof -
  have ok: "size_ok heap0 (entry0 0 0 5 1 4 (stat0 0x2180 3) 6)"
    by (simp add: size_ok_def entry_size_def capacity_def)
  have e: "fs_of (heap S0) 3 = Some (entry0 0 0 5 1 4 (stat0 0x2180 3) 6)" by simp
  from chstat_size_spec [OF K0_contracts(1) e _ S0_nodes(2), of "-1"]
    chstat_size_spec [OF K0_contracts(1) e _ S0_nodes(2), of 0] ok
  show ?thesis by (auto simp: word_sless_alt)
qed

lemma vop_get_stat_spec_witness: "vop_get_stat (Some ''/md/b'') S0 = Some (0, Some (stat0 0x2180 0))"
  using vop_get_stat_spec [OF ns0, of "[''md'', ''b'']"] by (simp add: ts0_def)

lemma create_proc_context_spec_witness:
  "\<exists>r q s'. dmass_create_proc_context K0 \<lparr>pc_next = 0, pc_pid = 0, pc_memid = 0, pc_membase = 0,
      pc_heap_id = 0\<rparr> 100 S0 = Some (r, q, s') \<and> r = -1 \<and> s' = S0"
  using create_proc_context_spec [OF K0_contracts(1) procs0, of _ 100] by simp

lemma delete_proc_context_spec_witness:
  "\<exists>r s'. dmass_delete_proc_context K0 200 S0 = Some (r, s') \<and> r = 0 \<and> procs s' [100]"
  using delete_proc_context_spec [OF procs0, of K0 200] by simp

section \<open>Runs on changed states\<close>

text \<open>A stream in the middle of a directory.\<close>

definition S1 :: "nat vfs_state" where
  "S1 = put 5 (FsXObj \<lparr>fsx_next = 0, fsx_handler_index = 20, fsx_current = 9\<rparr>) S0"

lemma stream1: "stream S1 11 20 [DNode 9 ''d'' [], DNode 3 ''a'' []]"
proof -
  have v: "fs_of (heap S1) = fs_of heap0" "ctl_next_of (heap S1) = ctl_next_of heap0"
    "dview (heap S1) = dview heap0"
    "fsx_of (heap S1) 5 = Some \<lparr>fsx_next = 0, fsx_handler_index = 20, fsx_current = 9\<rparr>"
    using put_fsx_views [OF heap0_reads(9), of "\<lparr>fsx_next = 0, fsx_handler_index = 20, fsx_current = 9\<rparr>"]
    by (simp_all add: S1_def)
  have c: "chain (ctl_next_of heap0) 5 ([] @ 5 # [])" by (simp add: ctl_next_of_def)
  have f: "forest (dview heap0) 9 [DNode 9 ''d'' [], DNode 3 ''a'' []]" by (simp add: dview_def)
  have n: "node_of S1 11 = Some (vnode0\<lparr>vn_dev_info := 3, vn_mount := 99, vn_st_size := 3\<rparr>)"
    by (simp add: S1_def deref)
  show ?thesis unfolding stream_def v
    by (intro exI conjI) (rule n, simp, simp only: entry0_sel, rule c, simp, rule v, simp, use f in simp)
qed

lemma vop_dread_stream_witness:
  "\<exists>s'. vop_dread 11 20 S1 = Some (1, Some (''d'', stat0 0x1180 0), s') \<and>
     stream s' 11 20 [DNode 3 ''a'' []]"
proof -
  have "fs_of (heap S1) 9 = Some (entry0 3 0 0 0 12 (stat0 0x1180 0) 0)" by (simp add: S1_def deref)
  then show ?thesis using vop_dread_stream [OF stream1] by auto
qed

text \<open>A file whose block is as long as its contents, as \<open>vop_chstat\<close> leaves it.\<close>

definition S2 :: "nat vfs_state" where
  "S2 = put_fobj 20 \<lparr>fo_flags = 0, fo_offset = 3, fo_node = 11\<rparr> (put 6 (Buf (replicate 3 7)) S0)"


text \<open>Creating a file.\<close>

lemma heap0_free [simp]: "heap0 0x1000 = None" "heap0 0x1001 = None" "heap0 0x1002 = None"
  "vnodes S0 0x8003 = None"
  by (simp_all add: heap0_def S0_def)

lemma malloc_K0:
  assumes "heap s a = None" "a = word_of_nat (0x1000 + kst s)" "a \<noteq> 0"
  obtains b where "dmass_malloc K0 n s = (a, put a (Buf b) (s\<lparr>kst := kst s + 1\<rparr>))"
proof -
  have "k_alloc K0 (kst s) (test_heap_uid s) (\<lambda>a. heap s a \<noteq> None) n = (a, kst s + 1)"
    using assms(1) by (simp add: K0_def Let_def assms(2) [symmetric] del: of_nat_add)
  then show thesis
    using assms(3) by (intro that) (simp add: dmass_malloc_def)
qed

lemma put_put [simp]: "put a x (put a y s) = put a x s"
  by (simp add: put_def)

lemma name_cpy_K0:
  assumes "heap s a = None" "a = word_of_nat (0x1000 + kst s)" "a \<noteq> 0" "str \<noteq> []"
  shows "name_cpy K0 str s = (a, put a (Str str) (s\<lparr>kst := kst s + 1\<rparr>))"
proof -
  obtain b where "dmass_malloc K0 (word_of_nat (length str + 1)) s =
      (a, put a (Buf b) (s\<lparr>kst := kst s + 1\<rparr>))"
    using malloc_K0 [OF assms(1-3)] .
  then show ?thesis using assms(3,4) by (simp add: name_cpy_def)
qed

lemma date_K0: "init_entry_date K0 st s = (0, stat0 0 0, s)"
  by (simp add: init_entry_date_def stat0_def K0_def)

lemma create_info_run:
  "\<exists>s. create_dmass_file_info K0 ''x'' S0 = Some (0x1000, put 0x1000
      (FsObj (entry0 0 0 0 0 0x1002 (stat0 0x2180 0) 0)) s) \<and>
    vnodes s = vnodes S0 \<and> kst s = 3 \<and> heap s 1 = heap0 1 \<and>
    (\<forall>x. x \<noteq> 0x1000 \<longrightarrow> heap0 x = None \<longrightarrow> fs_of (heap s) x = None)"
proof -
  have "heap S0 0x1000 = None" "0x1000 = word_of_nat (0x1000 + kst S0)" "0x1000 \<noteq> (0 :: addr)"
    by simp_all
  from malloc_K0 [OF this] obtain b where m: "dmass_malloc K0 (sizeof_fs K0) S0 =
      (0x1000, put 0x1000 (Buf b) (S0\<lparr>kst := kst S0 + 1\<rparr>))" .
  define s1 where "s1 = put 0x1000 (Buf b) (S0\<lparr>kst := kst S0 + 1\<rparr>)"
  have m': "dmass_malloc K0 (sizeof_fs K0) S0 = (0x1000, s1)" using m by (simp only: s1_def)
  define s2 where "s2 = put 0x1001 (Str ''x'') (s1\<lparr>kst := kst s1 + 1\<rparr>)"
  define s3 where "s3 = put 0x1002 (Str ''x'') (s2\<lparr>kst := kst s2 + 1\<rparr>)"
  have r: "kst s1 = 1" "heap s1 0x1001 = None" "kst s2 = 2" "heap s2 0x1002 = None"
    by (simp_all add: s1_def s2_def put_def)
  have "name_cpy K0 ''x'' s1 = (0x1001, s2)" unfolding s2_def
    by (rule name_cpy_K0) (simp_all add: r)
  moreover have "name_cpy K0 ''x'' s2 = (0x1002, s3)" unfolding s3_def
    by (rule name_cpy_K0) (simp_all add: r)
  moreover have "S_IWUSR K0 OR S_IRUSR K0 OR S_IFREG K0 = 0x2180" by (simp add: K0_def)
  ultimately have "create_dmass_file_info K0 ''x'' S0 = Some (0x1000, put 0x1000
      (FsObj (entry0 0 0 0 0 0x1002 (stat0 0x2180 0) 0)) s3)"
    by (simp add: create_dmass_file_info_def create_dmass_info_def m' date_K0
        entry0_def stat0_def)
  moreover have "vnodes s3 = vnodes S0" "kst s3 = 3" "heap s3 1 = heap0 1"
    "\<forall>x. x \<noteq> 0x1000 \<longrightarrow> heap0 x = None \<longrightarrow> fs_of (heap s3) x = None"
    by (simp_all add: s1_def s2_def s3_def put_def fs_of_def)
  ultimately show ?thesis by blast
qed

lemma create_run:
  "\<exists>q s'. vop_create K0 (Some ''/md/x'') ''x'' 10 S0 = Some (0, q, s') \<and>
     (\<forall>x e. heap S0 x = None \<longrightarrow> fs_of (heap s') x = Some e \<longrightarrow> fs_name e \<noteq> 0)"
proof -
  have g: "get_fs_entry (Some ''/md/x'') S0 = Some (0x80010002, 0)"
    using lookup_resolve [OF ns0, of "[''md'', ''x'']"] by (simp add: ts0_def)
  define e where "e = entry0 0 0 0 0 0x1002 (stat0 0x2180 0) 0"
  define d where "d = entry0 0 7 0 0 2 (stat0 0x1180 0) 0"
  obtain s where s: "create_dmass_file_info K0 ''x'' S0 = Some (0x1000, put 0x1000 (FsObj e) s)"
    "vnodes s = vnodes S0" "kst s = 3" "heap s 1 = heap0 1"
    "\<forall>x. x \<noteq> 0x1000 \<longrightarrow> heap0 x = None \<longrightarrow> fs_of (heap s) x = None"
    using create_info_run unfolding e_def by blast
  define s1 where "s1 = put 1 (FsObj (d\<lparr>fs_next_dir := 0x1000\<rparr>))
    (put 0x1000 (FsObj (e\<lparr>fs_next := 7\<rparr>)) s)"
  have l: "link_first 1 0x1000 (put 0x1000 (FsObj e) s) = Some s1"
    using s(4) heap0_reads(1)
    by (simp add: link_first_def s1_def deref d_def fs_of_def)
  define s2 where "s2 = put_node 0x8003 vnode0 (s1\<lparr>kst := 4\<rparr>)"
  have n: "new_vnode K0 99 s1 = Some (0, 0x8003, s2)"
    using s(2,3)
    by (simp add: new_vnode_def get_new_node_def node_wait_def K0_def Let_def s1_def s2_def put_def put_node_def)
  define s3 where "s3 = put 0x1000 (FsObj (e\<lparr>fs_next := 7, fs_pNode := 0x8003\<rparr>)) s2"
  have e: "fs_of (heap s2) 0x1000 = Some (e\<lparr>fs_next := 7\<rparr>)" "node_of s3 0x8003 = Some vnode0"
    by (simp_all add: s1_def s2_def s3_def put_def put_node_def fs_of_def node_of_def)
  have "\<exists>v. attach_entry K0 (vnode0\<lparr>vn_dev_info := 1, vn_mount := 99\<rparr>) 10 0x1000
      (S_IXUSR K0 OR S_IWUSR K0 OR S_IRUSR K0) (SO_IXOTH K0 OR SO_IWOTH K0 OR SO_IROTH K0)
      (put 0x1000 (FsObj e) s) = Some (0, 0x8003, put_node 0x8003 v s3)"
    using e by (simp add: attach_entry_def l n s3_def [symmetric]) blast
  then obtain v where "vop_create K0 (Some ''/md/x'') ''x'' 10 S0 = Some (0, 0x8003, put_node 0x8003 v s3)"
    using s(1) s(2) S0_nodes(1) by (auto simp: vop_create_def g node_of_def put_def)
  moreover have "fs_name y \<noteq> 0"
    if "heap0 x = None" "fs_of (heap (put_node 0x8003 v s3)) x = Some y" for x y
  proof -
    have "x \<noteq> 1" using that(1) by (auto simp: heap0_def)
    then have "x = 0x1000 \<Longrightarrow> ?thesis" "x \<noteq> 0x1000 \<Longrightarrow> fs_of (heap s) x = Some y"
      using that(2) by (auto simp: s1_def s2_def s3_def e_def put_node_def put_def fs_of_def)
    then show ?thesis using that(1) s(5) by fastforce
  qed
  ultimately show ?thesis by simp
qed


end
