(* ===== verification/Bytes.thy ===== *)
theory Bytes
  imports Prelude
begin

text \<open>
  Byte strings seen as machine words: the little-endian 32-bit words that the sources read through
  \<open>uint32_t *\<close>, and big-endian numbers, which the cryptographic standards use.
\<close>

section \<open>Shifts and masks as arithmetic\<close>

lemma unat_drop: "unat (drop_bit n (w :: 'a :: len word)) = unat w div 2 ^ n"
  by (simp only: unat_drop_bit_eq drop_bit_eq_div [of n "unat w"])

lemma unat_take: "unat (take_bit n (w :: 'a :: len word)) = unat w mod 2 ^ n"
  by (simp only: unsigned_take_bit_eq take_bit_eq_mod [of n "unat w"])

lemma unat_push:
  assumes "unat (w :: 'a :: len word) * 2 ^ n < 2 ^ LENGTH('a)"
  shows "unat (push_bit n w) = unat w * 2 ^ n"
proof -
  have "unat (push_bit n w) = take_bit LENGTH('a) (push_bit n (unat w))"
    by (simp only: unsigned_push_bit_eq)
  also have "\<dots> = take_bit LENGTH('a) (unat w * 2 ^ n)" by (simp only: push_bit_eq_mult [of n "unat w"])
  finally show ?thesis using assms by (simp only: take_bit_nat_eq_self_iff)
qed

lemma unat_and_not_mask: "unat (w AND NOT (mask n) :: 'a :: len word) = unat w div 2 ^ n * 2 ^ n"
proof -
  have "w AND NOT (mask n) = push_bit n (drop_bit n w)" by (rule bit_eqI) (auto simp: bit_simps)
  moreover have "unat w div 2 ^ n * 2 ^ n < 2 ^ LENGTH('a)"
    using unsigned_less [of w, where 'a = nat] by (meson div_times_less_eq_dividend le_less_trans)
  ultimately show ?thesis using unat_push [of "drop_bit n w" n] by (simp only: unat_drop)
qed

section \<open>Little-endian words\<close>

definition le32 :: "u8 \<Rightarrow> u8 \<Rightarrow> u8 \<Rightarrow> u8 \<Rightarrow> u32" where
  "le32 a b c d =
     ucast a OR push_bit 8 (ucast b) OR push_bit 16 (ucast c) OR push_bit 24 (ucast d)"

definition bytes32 :: "u32 \<Rightarrow> u8 list" where
  "bytes32 w = [ucast w, ucast (drop_bit 8 w), ucast (drop_bit 16 w), ucast (drop_bit 24 w)]"

lemma length_bytes32 [simp]: "length (bytes32 w) = 4"
  by (simp add: bytes32_def)

lemma bit_le32: "bit (le32 a b c d) n \<longleftrightarrow>
    n < 8 \<and> bit a n \<or> 8 \<le> n \<and> n < 16 \<and> bit b (n - 8) \<or> 16 \<le> n \<and> n < 24 \<and> bit c (n - 16) \<or>
    24 \<le> n \<and> n < 32 \<and> bit d (n - 24)"
  using bit_imp_le_length [of a n] bit_imp_le_length [of b "n - 8"] bit_imp_le_length [of c "n - 16"]
    bit_imp_le_length [of d "n - 24"]
  by (auto simp: le32_def bit_simps)

lemma bytes32_le32 [simp]: "bytes32 (le32 a b c d) = [a, b, c, d]"
  by (auto simp: bytes32_def bit_eq_iff bit_le32 bit_simps intro!: bit_word_eqI)

lemma bytes32_xor: "bytes32 (v XOR w) = map2 (XOR) (bytes32 v) (bytes32 w)"
  by (simp add: bytes32_def) (auto intro!: bit_word_eqI simp: bit_simps)

lemma unat_word_of_nat: "n < 2 ^ LENGTH('a) \<Longrightarrow> unat (word_of_nat n :: 'a :: len word) = n"
  by (simp only: unsigned_of_nat of_nat_id take_bit_nat_eq_self)

lemma unat_le32:
  "unat (le32 a b c d) = unat a + 256 * unat b + 65536 * unat c + 16777216 * unat d"
proof -
  have s1: "push_bit 16 (ucast c) OR push_bit 24 (ucast d) = (push_bit 16 (ucast c) + push_bit 24 (ucast d) :: u32)"
    by (rule disjunctive_add [symmetric]) (auto simp: bit_simps dest: bit_imp_le_length)
  have s2: "push_bit 8 (ucast b) OR x = push_bit 8 (ucast b) + x"
    if "x = push_bit 16 (ucast c) OR push_bit 24 (ucast d)" for x :: u32
    unfolding that by (rule disjunctive_add [symmetric]) (auto simp: bit_simps dest: bit_imp_le_length)
  have s3: "ucast a OR x = ucast a + x"
    if "x = push_bit 8 (ucast b) OR push_bit 16 (ucast c) OR push_bit 24 (ucast d)" for x :: u32
    unfolding that by (rule disjunctive_add [symmetric]) (auto simp: bit_simps dest: bit_imp_le_length)
  have "le32 a b c d = word_of_nat (unat a + 256 * unat b + 65536 * unat c + 16777216 * unat d)"
    unfolding le32_def by (subst s3 [OF refl], subst s2 [OF refl], subst s1) (simp add: push_bit_eq_mult ac_simps)
  moreover have "unat a + 256 * unat b + 65536 * unat c + 16777216 * unat d < 2 ^ LENGTH(32)"
    using unsigned_less [of a, where 'a = nat] unsigned_less [of b, where 'a = nat]
      unsigned_less [of c, where 'a = nat] unsigned_less [of d, where 'a = nat] by simp
  ultimately show ?thesis by (simp only: unat_word_of_nat)
qed

text \<open>The bytes as an array of words, and back.\<close>

fun words32 :: "u8 list \<Rightarrow> u32 list" where
  "words32 (a # b # c # d # bs) = le32 a b c d # words32 bs"
| "words32 bs = []"

definition unwords32 :: "u32 list \<Rightarrow> u8 list" where
  "unwords32 ws = concat (map bytes32 ws)"

lemma unwords32_simps [simp]:
  "unwords32 [] = []" "unwords32 (w # ws) = bytes32 w @ unwords32 ws"
  "unwords32 (us @ ws) = unwords32 us @ unwords32 ws"
  by (simp_all add: unwords32_def)

lemma length_unwords32 [simp]: "length (unwords32 ws) = 4 * length ws"
  by (induction ws) auto

lemma length_words32: "length (words32 bs) = length bs div 4"
  by (induction bs rule: words32.induct) auto

lemma unwords32_words32: "length bs mod 4 = 0 \<Longrightarrow> unwords32 (words32 bs) = bs"
  by (induction bs rule: words32.induct) auto

section \<open>Characters\<close>

definition bytes_of :: "string \<Rightarrow> u8 list" where
  "bytes_of s = map (\<lambda>c. word_of_nat (of_char c)) s"

definition chars_of :: "u8 list \<Rightarrow> string" where
  "chars_of bs = map (\<lambda>b. char_of (unat b)) bs"

lemma chars_of_bytes_of [simp]: "chars_of (bytes_of s) = s"
proof -
  have "char_of (unat (word_of_nat (of_char c) :: u8)) = c" for c
    by (simp add: unsigned_of_nat take_bit_eq_mod)
  then show ?thesis by (simp add: chars_of_def bytes_of_def map_idI)
qed

section \<open>Big-endian numbers\<close>

text \<open>\<open>le_nat\<close> reads the least significant byte first; \<open>be_nat\<close> the most significant one.\<close>

fun le_nat :: "u8 list \<Rightarrow> nat" where
  "le_nat [] = 0"
| "le_nat (b # bs) = unat b + 256 * le_nat bs"

definition be_nat :: "u8 list \<Rightarrow> nat" where
  "be_nat bs = le_nat (rev bs)"

lemma unat_lt_256: "unat (b :: u8) < 256"
  using unsigned_less [of b, where 'a = nat] by simp

lemma le_nat_less: "le_nat bs < 256 ^ length bs"
proof (induction bs)
  case (Cons b bs)
  then have "le_nat bs + 1 \<le> 256 ^ length bs" by simp
  then have "256 * (le_nat bs + 1) \<le> 256 * 256 ^ length bs" by (rule mult_le_mono2)
  then show ?case using unat_lt_256 [of b] by simp
qed simp

lemma le_nat_append: "le_nat (as @ bs) = le_nat as + 256 ^ length as * le_nat bs"
  by (induction as) (auto simp: algebra_simps)

lemma le_nat_inj: "length as = length bs \<Longrightarrow> le_nat as = le_nat bs \<Longrightarrow> as = bs"
proof (induction as bs rule: list_induct2)
  case (Cons a as b bs)
  have "le_nat (a # as) mod 256 = unat a" "le_nat (b # bs) mod 256 = unat b"
    "le_nat (a # as) div 256 = le_nat as" "le_nat (b # bs) div 256 = le_nat bs"
    using unat_lt_256 [of a] unat_lt_256 [of b] by simp_all
  then show ?case using Cons by (metis word_unat_eq_iff)
qed simp

lemma be_nat_inj: "length as = length bs \<Longrightarrow> be_nat as = be_nat bs \<Longrightarrow> as = bs"
  using le_nat_inj [of "rev as" "rev bs"] by (simp add: be_nat_def)

lemma be_nat_less: "be_nat bs < 256 ^ length bs"
  using le_nat_less [of "rev bs"] by (simp add: be_nat_def)

text \<open>The \<open>n\<close> big-endian bytes of a number.\<close>

fun le_bytes :: "nat \<Rightarrow> nat \<Rightarrow> u8 list" where
  "le_bytes 0 x = []"
| "le_bytes (Suc n) x = word_of_nat x # le_bytes n (x div 256)"

definition be_bytes :: "nat \<Rightarrow> nat \<Rightarrow> u8 list" where
  "be_bytes n x = rev (le_bytes n x)"

lemma length_le_bytes [simp]: "length (le_bytes n x) = n"
  by (induction n arbitrary: x) auto

lemma length_be_bytes [simp]: "length (be_bytes n x) = n"
  by (simp add: be_bytes_def)

lemma le_nat_le_bytes: "le_nat (le_bytes n x) = x mod 256 ^ n"
proof (induction n arbitrary: x)
  case (Suc n)
  have "unat (word_of_nat x :: u8) = x mod 256" by (simp add: unsigned_of_nat take_bit_eq_mod)
  then show ?case using Suc by (simp add: mod_mult2_eq)
qed simp

lemma be_nat_be_bytes: "be_nat (be_bytes n x) = x mod 256 ^ n"
  by (simp add: be_nat_def be_bytes_def le_nat_le_bytes)

lemma be_bytes_be_nat: "be_bytes (length bs) (be_nat bs) = bs"
  by (rule be_nat_inj) (simp_all add: be_nat_be_bytes be_nat_less)

end
