(* ===== verification/Aes_Cmac.thy ===== *)
theory Aes_Cmac
  imports Bytes
begin

text \<open>
  \<open>kernel/act_verifier/src/aes256cmac.c\<close>: the message authentication code of the activation data,
  and the specification it is checked against, RFC 4493 over an arbitrary block cipher.

  The block cipher is the kernel's (\<open>ksceAesInit1\<close>, \<open>ksceAesEncrypt1\<close>, \<open>ksceAesDecrypt1\<close>): a
  parameter, of which only the length of the result matters here.
\<close>

section \<open>The block cipher\<close>

record 'c sce_aes =
  aes_init :: "u32 \<Rightarrow> u32 \<Rightarrow> u8 list \<Rightarrow> s32 \<times> 'c"
  aes_encrypt :: "'c \<Rightarrow> u8 list \<Rightarrow> u8 list"
  aes_decrypt :: "'c \<Rightarrow> u8 list \<Rightarrow> u8 list"

definition aes_contract :: "'c sce_aes \<Rightarrow> bool" where
  "aes_contract A \<longleftrightarrow> (\<forall>c b. length b = 16 \<longrightarrow>
     length (aes_encrypt A c b) = 16 \<and> length (aes_decrypt A c b) = 16)"

text \<open>A read of \<open>n\<close> bytes at an offset; outside the array it is a fault.\<close>

definition bytes_at :: "u8 list \<Rightarrow> nat \<Rightarrow> nat \<Rightarrow> u8 list option" where
  "bytes_at bs off n = (if off + n \<le> length bs then Some (take n (drop off bs)) else None)"

section \<open>The code\<close>

definition subkey_base :: "u8 list" where
  "subkey_base = [0, 0, 0, 0, 0, 0, 0, 0, 0, 0, 0, 0, 0, 0, 0, 0x87]"

text \<open>The loop goes from the last byte to the first; here the list is the reversed array.\<close>

fun shift_loop :: "u8 \<Rightarrow> u8 list \<Rightarrow> u8 list" where
  "shift_loop carry [] = []"
| "shift_loop carry (val # vs) =
     (push_bit 1 val OR carry) # shift_loop (drop_bit 7 val AND 1) vs"

definition actVerifierAes256cmacShiftLOne :: "u8 list \<Rightarrow> u8 list" where
  "actVerifierAes256cmacShiftLOne src = rev (shift_loop 0 (rev (take 16 src)))"

text \<open>Four 32-bit words.\<close>

definition actVerifierAes256cmacXor :: "u8 list \<Rightarrow> u8 list \<Rightarrow> u8 list" where
  "actVerifierAes256cmacXor a b =
     unwords32 (map2 (XOR) (words32 (take 16 a)) (words32 (take 16 b)))"

text \<open>The array \<open>pad\<close> after the call.\<close>

definition actVerifierAes256cmacPadding :: "u8 list \<Rightarrow> u8 list" where
  "actVerifierAes256cmacPadding src = src @ [0x80] @ replicate (0xF - length src) 0"

definition actVerifierAes256cmacGenSubKey :: "'c sce_aes \<Rightarrow> 'c \<Rightarrow> u8 list \<times> u8 list" where
  "actVerifierAes256cmacGenSubKey A ctx =
     (let tmp = aes_encrypt A ctx (replicate 16 0);
          subkey1 = actVerifierAes256cmacShiftLOne tmp;
          subkey1 = (if tmp ! 0 AND 0x80 \<noteq> 0 then actVerifierAes256cmacXor subkey1 subkey_base else subkey1);
          subkey2 = actVerifierAes256cmacShiftLOne subkey1;
          subkey2 = (if subkey1 ! 0 AND 0x80 \<noteq> 0 then actVerifierAes256cmacXor subkey2 subkey_base else subkey2)
      in (subkey1, subkey2))"

text \<open>The loop over the blocks before the last; \<open>pInput\<close> is what the pointer has ahead of it.\<close>

fun cmac_loop :: "'c sce_aes \<Rightarrow> 'c \<Rightarrow> nat \<Rightarrow> u8 list \<Rightarrow> u8 list \<Rightarrow> u8 list option" where
  "cmac_loop A ctx 0 pInput X = Some X"
| "cmac_loop A ctx (Suc k) pInput X = do {
     b \<leftarrow> bytes_at pInput 0 16;
     cmac_loop A ctx k (drop 16 pInput) (aes_encrypt A ctx (actVerifierAes256cmacXor X b))
   }"

text \<open>
  \<open>key\<close> is the key, \<open>src\<close> the memory at the message, \<open>len\<close> its length.  In the incomplete case the
  padded block is written over \<open>subkey2\<close>, which is then added to itself, as in the source.
\<close>

definition actVerifierAes256cmac :: "'c sce_aes \<Rightarrow> u8 list \<Rightarrow> u8 list \<Rightarrow> SceSize \<Rightarrow> u8 list option" where
  "actVerifierAes256cmac A key src len =
     (let ctx = snd (aes_init A 128 256 key);
          (subkey1, subkey2) = actVerifierAes256cmacGenSubKey A ctx;
          n = drop_bit 4 (len + 0xF);
          (flag, n) = (if n \<noteq> 0 then (len AND 0xF = 0, n - 1) else (False, n))
      in do {
        M \<leftarrow> (if flag
             then do {
               b \<leftarrow> bytes_at src (unat (push_bit 4 n)) 16;
               Some (actVerifierAes256cmacXor b subkey1)
             }
             else do {
               b \<leftarrow> bytes_at src (unat (push_bit 4 n)) (unat (len AND 0xF));
               let subkey2 = actVerifierAes256cmacPadding b;
               Some (actVerifierAes256cmacXor subkey2 subkey2)
             });
        X \<leftarrow> cmac_loop A ctx (unat n) src (replicate 16 0);
        Some (aes_encrypt A ctx (actVerifierAes256cmacXor X M))
      })"

section \<open>RFC 4493\<close>

definition xorb :: "u8 list \<Rightarrow> u8 list \<Rightarrow> u8 list" where
  "xorb = map2 (XOR)"

text \<open>Doubling in the field of 128-bit strings, with \<open>const_Rb\<close>.\<close>

definition const_Rb :: "u8 list" where
  "const_Rb = be_bytes 16 0x87"

definition dbl :: "u8 list \<Rightarrow> u8 list" where
  "dbl L = (if be_nat L < 2 ^ 127 then be_bytes 16 (2 * be_nat L)
            else xorb (be_bytes 16 (2 * be_nat L)) const_Rb)"

definition pad16 :: "u8 list \<Rightarrow> u8 list" where
  "pad16 bs = bs @ [0x80] @ replicate (15 - length bs) 0"

text \<open>\<open>E\<close> is the block cipher under the key, \<open>m\<close> the message.\<close>

definition rfc4493_cmac :: "(u8 list \<Rightarrow> u8 list) \<Rightarrow> u8 list \<Rightarrow> u8 list" where
  "rfc4493_cmac E m =
     (let K1 = dbl (E (replicate 16 0));
          K2 = dbl K1;
          n = (if m = [] then 1 else (length m + 15) div 16);
          tail = drop (16 * (n - 1)) m;
          M_last = (if m \<noteq> [] \<and> length m mod 16 = 0 then xorb tail K1 else xorb (pad16 tail) K2);
          X = foldl (\<lambda>X i. E (xorb X (take 16 (drop (16 * i) m)))) (replicate 16 0) [0..<n - 1]
      in E (xorb M_last X))"

section \<open>The parts against the specification\<close>

lemma words32_xor:
  "length as mod 4 = 0 \<Longrightarrow> length bs = length as \<Longrightarrow>
   unwords32 (map2 (XOR) (words32 as) (words32 bs)) = map2 (XOR) as bs"
proof (induction as arbitrary: bs rule: words32.induct)
  case (1 a b c d as)
  obtain a' b' c' d' bs' where "bs = a' # b' # c' # d' # bs'"
    using 1(3) by (auto simp: length_Suc_conv)
  then show ?case using 1 by (simp add: bytes32_xor)
qed auto

lemma xor_eq: "length a = 16 \<Longrightarrow> length b = 16 \<Longrightarrow> actVerifierAes256cmacXor a b = xorb a b"
  by (simp add: actVerifierAes256cmacXor_def words32_xor xorb_def)

lemma length_xorb [simp]: "length (xorb a b) = min (length a) (length b)"
  by (simp add: xorb_def)

lemma xorb_commute: "xorb a b = xorb b a"
  by (rule nth_equalityI) (simp_all add: xorb_def xor.commute)

lemma xorb_self: "xorb a a = replicate (length a) 0"
  by (rule nth_equalityI) (simp_all add: xorb_def)

lemma xorb_zero: "length a = n \<Longrightarrow> xorb a (replicate n 0) = a"
  by (rule nth_equalityI) (simp_all add: xorb_def)

lemma length_shift_loop [simp]: "length (shift_loop c vs) = length vs"
  by (induction c vs rule: shift_loop.induct) auto

lemma shl_carry:
  assumes "unat (c :: u8) \<le> 1"
  shows "unat (push_bit 1 (v :: u8) OR c) = (2 * unat v + unat c) mod 256"
    "unat (drop_bit 7 v AND 1) = unat v div 128"
proof -
  have "unat c = 0 \<or> unat c = 1" using assms by linarith
  then have c: "c = 0 \<or> c = 1" by (simp add: word_unat_eq_iff)
  have "push_bit 1 v OR 1 = push_bit 1 v + 1"
    by (rule disjunctive_add_eq_or [symmetric]) (simp add: and_one_eq push_bit_eq_mult mod_2_eq_odd)
  then have "push_bit 1 v OR c = 2 * v + c" using c by (auto simp: push_bit_eq_mult)
  then show "unat (push_bit 1 v OR c) = (2 * unat v + unat c) mod 256"
    by (simp add: unat_word_ariths mod_simps)
  have "unat v div 128 < 2" using unat_lt_256 [of v] by (simp add: div_less_iff_less_mult)
  then have v: "unat v div 128 mod 2 = unat v div 128" by simp
  have d: "unat (drop_bit 7 v) = unat v div 128" by (simp only: unat_drop) simp
  have "unat (drop_bit 7 v AND 1) = unat (drop_bit 7 v mod 2)" by (simp only: and_one_eq)
  also have "\<dots> = unat (drop_bit 7 v) mod 2" by (simp only: unat_mod_distrib) simp
  finally show "unat (drop_bit 7 v AND 1) = unat v div 128" unfolding d v .
qed

lemma le_nat_shift_loop:
  "unat c \<le> 1 \<Longrightarrow> le_nat (shift_loop c vs) = (2 * le_nat vs + unat c) mod 256 ^ length vs"
proof (induction c vs rule: shift_loop.induct)
  case (2 carry v vs)
  let ?d = "drop_bit 7 v AND 1" and ?n = "length vs"
  have d: "unat ?d = unat v div 128" "unat ?d \<le> 1"
    using shl_carry(2) [OF 2(2), of v] unat_lt_256 [of v] by linarith+
  have "2 * le_nat (v # vs) + unat carry = 256 * (2 * le_nat vs) + (2 * unat v + unat carry)" by simp
  moreover have "(2 * unat v + unat carry) div 256 = unat v div 128"
    using 2(2) by linarith
  ultimately have "(2 * le_nat (v # vs) + unat carry) div 256 = 2 * le_nat vs + unat v div 128"
    "(2 * le_nat (v # vs) + unat carry) mod 256 = (2 * unat v + unat carry) mod 256"
    by (simp_all only: div_mult_self3 mod_mult_self4)
  then show ?case using 2(1) [OF d(2)] shl_carry(1) [OF 2(2), of v] d(1)
    by (simp add: mod_mult2_eq)
qed simp

lemma shift_eq:
  assumes "length L = 16"
  shows "actVerifierAes256cmacShiftLOne L = be_bytes 16 (2 * be_nat L)"
proof (rule be_nat_inj)
  have "be_nat (actVerifierAes256cmacShiftLOne L) = (2 * be_nat L) mod 256 ^ 16"
    using assms by (simp add: actVerifierAes256cmacShiftLOne_def be_nat_def le_nat_shift_loop)
  then show "be_nat (actVerifierAes256cmacShiftLOne L) = be_nat (be_bytes 16 (2 * be_nat L))"
    by (simp only: be_nat_be_bytes)
qed (simp add: actVerifierAes256cmacShiftLOne_def assms)

lemma msb_eq:
  assumes "length L = 16"
  shows "L ! 0 AND 0x80 \<noteq> 0 \<longleftrightarrow> \<not> be_nat L < 2 ^ 127"
proof -
  obtain b bs where L: "L = b # bs" "length bs = 15" using assms by (cases L) auto
  have v: "be_nat L = be_nat bs + 256 ^ 15 * unat b" by (simp add: L be_nat_def le_nat_append)
  have "b AND 0x80 \<noteq> 0 \<longleftrightarrow> bit b 7"
  proof -
    have "(0x80 :: u8) = push_bit 7 1" by simp
    then show ?thesis by (metis and_exp_eq_0_iff_not_bit push_bit_of_1)
  qed
  also have "\<dots> \<longleftrightarrow> 128 \<le> unat b"
  proof -
    have "bit b 7 \<longleftrightarrow> bit (unat b) 7" by (simp add: bit_unsigned_iff)
    also have "\<dots> \<longleftrightarrow> odd (unat b div 128)" by (simp add: bit_iff_odd)
    also have "unat b div 128 = (if 128 \<le> unat b then 1 else 0)"
      using unat_lt_256 [of b] by (auto simp: div_if)
    finally show ?thesis by simp
  qed
  also have "\<dots> \<longleftrightarrow> \<not> be_nat L < 2 ^ 127"
    using be_nat_less [of bs] unfolding v L(2) by auto
  finally show ?thesis by (simp add: L)
qed

lemma Rb_eq: "subkey_base = const_Rb"
  by code_simp

lemma length_dbl [simp]: "length (dbl L) = 16"
  by (simp add: dbl_def const_Rb_def)

lemma subkey_eq:
  assumes "length L = 16"
  shows "(if L ! 0 AND 0x80 \<noteq> 0
          then actVerifierAes256cmacXor (actVerifierAes256cmacShiftLOne L) subkey_base
          else actVerifierAes256cmacShiftLOne L) = dbl L"
  using msb_eq [OF assms] by (simp add: dbl_def shift_eq [OF assms] Rb_eq xor_eq const_Rb_def)

lemma gen_subkey_eq:
  assumes "aes_contract A"
  shows "actVerifierAes256cmacGenSubKey A ctx =
    (let K1 = dbl (aes_encrypt A ctx (replicate 16 0)) in (K1, dbl K1))"
proof -
  have "length (aes_encrypt A ctx (replicate 16 0)) = 16" using assms by (simp add: aes_contract_def)
  from subkey_eq [OF this] subkey_eq [OF length_dbl]
  show ?thesis by (simp only: actVerifierAes256cmacGenSubKey_def Let_def)
qed

section \<open>The code against the specification\<close>

definition chain_blocks :: "(u8 list \<Rightarrow> u8 list) \<Rightarrow> u8 list \<Rightarrow> nat \<Rightarrow> u8 list \<Rightarrow> u8 list" where
  "chain_blocks E m k X = foldl (\<lambda>X i. E (xorb X (take 16 (drop (16 * i) m)))) X [0..<k]"

lemma chain_blocks_simps [simp]:
  "chain_blocks E m 0 X = X"
  "chain_blocks E m (Suc k) X = chain_blocks E (drop 16 m) k (E (xorb X (take 16 m)))"
proof -
  have "[0..<Suc k] = 0 # map Suc [0..<k]" by (simp add: map_Suc_upt upt_conv_Cons del: upt_Suc)
  then show "chain_blocks E m (Suc k) X = chain_blocks E (drop 16 m) k (E (xorb X (take 16 m)))"
    by (simp add: chain_blocks_def foldl_map add.commute del: upt_Suc)
qed (simp add: chain_blocks_def)

lemma cmac_loop_eq:
  assumes "aes_contract A"
  shows "length X = 16 \<Longrightarrow> 16 * k \<le> length p \<Longrightarrow>
    cmac_loop A ctx k p X = Some (chain_blocks (aes_encrypt A ctx) p k X)"
proof (induction k arbitrary: p X)
  case (Suc k)
  have x: "actVerifierAes256cmacXor X (take 16 p) = xorb X (take 16 p)"
    using Suc.prems by (intro xor_eq) simp_all
  have "length (aes_encrypt A ctx (xorb X (take 16 p))) = 16"
    using assms Suc.prems by (simp add: aes_contract_def)
  then show ?case using Suc by (simp add: bytes_at_def x)
qed simp

lemma length_chain_blocks:
  assumes "aes_contract A" "16 * k \<le> length p" "length X = 16"
  shows "length (chain_blocks (aes_encrypt A ctx) p k X) = 16"
  using assms(2,3)
proof (induction k arbitrary: p X)
  case (Suc k)
  then show ?case using assms(1) by (simp add: aes_contract_def)
qed simp

text \<open>The word arithmetic of the length.\<close>

lemma low_nibble: "unat (len AND 0xF :: u32) = unat len mod 16" "len AND 0xF = 0 \<longleftrightarrow> unat len mod 16 = 0"
proof -
  have "mask 4 = (0xF :: u32)" by (simp add: mask_eq_exp_minus_1)
  then have "len AND 0xF = take_bit 4 len" by (simp only: take_bit_eq_mask)
  then show "unat (len AND 0xF) = unat len mod 16" by (simp only: unat_take) simp
  then show "len AND 0xF = 0 \<longleftrightarrow> unat len mod 16 = 0" by (simp flip: unat_eq_0)
qed

lemma block_count:
  assumes "unat (len :: u32) + 15 < 2 ^ 32"
  shows "unat (drop_bit 4 (len + 0xF)) = (unat len + 15) div 16"
proof -
  have "unat (len + 0xF) = unat len + 15" using assms by (simp add: unat_word_ariths)
  then show ?thesis by (simp only: unat_drop) simp
qed

lemma unat_push4: "16 * unat k < 2 ^ 32 \<Longrightarrow> unat (push_bit 4 k :: u32) = 16 * unat k"
  using unat_push [of k 4] by (simp del: push_bit_of_0 add: mult.commute)

text \<open>What the two branches compute, for a length that does not wrap around.\<close>

lemma cmac_complete:
  fixes key :: "u8 list"
  assumes A: "aes_contract A" and len: "unat len \<le> length m" "unat len + 15 < 2 ^ 32"
    and l: "unat len = 16 * Suc q"
  defines "E \<equiv> aes_encrypt A (snd (aes_init A 128 256 key))"
  defines "X0 \<equiv> replicate 16 0"
  shows "actVerifierAes256cmac A key m len =
    Some (E (xorb (chain_blocks E m q X0) (xorb (take 16 (drop (16 * q) m)) (dbl (E X0)))))"
proof -
  define ctx where "ctx = snd (aes_init A 128 256 key)"
  have E: "E = aes_encrypt A ctx" by (simp add: E_def ctx_def)
  define n where "n = drop_bit 4 (len + 0xF)"
  have q: "unat n = Suc q" unfolding n_def block_count [OF len(2)] using l by simp
  then have n0: "n \<noteq> 0" by auto
  have n1: "unat (n - 1) = q" using q n0 by (simp add: unat_minus_one)
  have p: "unat (push_bit 4 (n - 1)) = 16 * q" using unat_push4 [of "n - 1"] n1 l len(2) by simp
  have b: "bytes_at m (16 * q) 16 = Some (take 16 (drop (16 * q) m))"
    using l len(1) by (simp add: bytes_at_def)
  have x: "actVerifierAes256cmacXor (take 16 (drop (16 * q) m)) (dbl (E X0)) =
      xorb (take 16 (drop (16 * q) m)) (dbl (E X0))"
    using l len(1) by (intro xor_eq) simp_all
  have c: "cmac_loop A ctx q m X0 = Some (chain_blocks E m q X0)"
    unfolding E using l len(1) by (intro cmac_loop_eq [OF A]) (simp_all add: X0_def)
  have y: "actVerifierAes256cmacXor (chain_blocks E m q X0) v = xorb (chain_blocks E m q X0) v"
    if "length v = 16" for v
    using that l len(1) length_chain_blocks [OF A, of q m X0 ctx]
    by (intro xor_eq) (simp_all add: E X0_def)
  have f: "(if n \<noteq> 0 then (len AND 0xF = 0, n - 1) else (False, n)) = (True, n - 1)"
    using n0 l by (simp add: low_nibble)
  have "length (take 16 (drop (16 * q) m)) = 16" using l len(1) by simp
  then show ?thesis
    unfolding actVerifierAes256cmac_def [of A key m len, folded ctx_def n_def] gen_subkey_eq [OF A]
      Let_def case_prod_conv f if_True p b n1
    by (simp add: x y c E [symmetric] X0_def [symmetric])
qed

lemma cmac_partial:
  fixes key :: "u8 list"
  assumes A: "aes_contract A" and len: "unat len \<le> length m" "unat len + 15 < 2 ^ 32"
    and l: "unat len mod 16 \<noteq> 0 \<or> unat len = 0"
  defines "E \<equiv> aes_encrypt A (snd (aes_init A 128 256 key))"
  defines "X0 \<equiv> replicate 16 0" and "q \<equiv> unat len div 16"
  shows "actVerifierAes256cmac A key m len = Some (E (chain_blocks E m q X0))"
proof -
  define ctx where "ctx = snd (aes_init A 128 256 key)"
  have E: "E = aes_encrypt A ctx" by (simp add: E_def ctx_def)
  define n where "n = drop_bit 4 (len + 0xF)"
  define n' where "n' = (if n = 0 then n else n - 1)"
  have n: "unat n = (unat len + 15) div 16" unfolding n_def by (rule block_count [OF len(2)])
  have n': "unat n' = q"
  proof (cases "unat len = 0")
    case False
    then have "unat len mod 16 \<noteq> 0" using l by simp
    then have u: "unat n = Suc q"
      unfolding n q_def using div_mult_mod_eq [of "unat len" 16] by linarith
    then have "n \<noteq> 0" by auto
    then show ?thesis using u by (simp add: n'_def unat_minus_one)
  next
    case True
    then have "n = 0" using n by (simp flip: unat_eq_0)
    then show ?thesis using True by (simp add: n'_def q_def)
  qed
  have f: "(if n \<noteq> 0 then (len AND 0xF = 0, n - 1) else (False, n)) = (False, n')"
    using l n by (auto simp: n'_def low_nibble unat_eq_0 [symmetric])
  have le: "16 * q \<le> unat len" by (simp add: q_def)
  then have k: "16 * q \<le> length m" using len(1) by simp
  have p: "unat (push_bit 4 n') = 16 * q" using unat_push4 [of n'] le n' len(2) by simp
  let ?b = "take (unat len mod 16) (drop (16 * q) m)"
  have b: "bytes_at m (16 * q) (unat len mod 16) = Some ?b"
    using len(1) by (simp add: bytes_at_def q_def)
  have "length (actVerifierAes256cmacPadding ?b) = 16"
    using mod_less_divisor [of 16 "unat len"] by (simp add: actVerifierAes256cmacPadding_def)
  then have x: "actVerifierAes256cmacXor (actVerifierAes256cmacPadding ?b) (actVerifierAes256cmacPadding ?b) = X0"
    by (simp add: xor_eq xorb_self X0_def)
  have c: "cmac_loop A ctx q m X0 = Some (chain_blocks E m q X0)"
    unfolding E using k by (intro cmac_loop_eq [OF A]) (simp_all add: X0_def)
  have y: "actVerifierAes256cmacXor (chain_blocks E m q X0) X0 = chain_blocks E m q X0"
    using length_chain_blocks [OF A k, of X0 ctx]
    by (simp add: E X0_def xor_eq xorb_zero)
  show ?thesis
    unfolding actVerifierAes256cmac_def [of A key m len, folded ctx_def n_def] gen_subkey_eq [OF A]
      Let_def case_prod_conv f if_False
    unfolding p low_nibble b n'
    by (simp add: x y c E [symmetric] X0_def [symmetric])
qed

text \<open>Only the whole blocks of the memory enter the chain.\<close>

lemma chain_blocks_cong:
  assumes "take (16 * q) m = take (16 * q) m'"
  shows "chain_blocks E m q X = chain_blocks E m' q X"
proof -
  have "take 16 (drop (16 * i) m) = take 16 (drop (16 * i) m')" if "i < q" for i
    using arg_cong [OF assms, of "\<lambda>x. take 16 (drop (16 * i) x)"] that
    by (simp add: drop_take min_def split: if_splits)
  then show ?thesis unfolding chain_blocks_def by (intro foldl_cong) auto
qed

lemma cmac_rfc4493:
  assumes "aes_contract A" "unat len \<le> length m" "unat len mod 16 = 0" "len \<noteq> 0"
  shows "actVerifierAes256cmac A key m len =
    Some (rfc4493_cmac (aes_encrypt A (snd (aes_init A 128 256 key))) (take (unat len) m))"
proof -
  have "unat len \<noteq> 0" using assms(4) by (simp add: unat_eq_0)
  then obtain q where q: "unat len = 16 * Suc q"
    using assms(3) by (metis add_0_right mult_div_mod_eq mult_0_right not0_implies_Suc)
  have "16 * Suc q < 4294967296" using unat_lt_32 [of len] q by simp
  then have "Suc q < 268435456" by simp
  then have small: "unat len + 15 < 2 ^ 32" unfolding q by simp
  have "(16 * Suc q + 15) div 16 - 1 = q" by simp
  moreover have "take (unat len) m \<noteq> []" using q assms(2) by auto
  moreover have "chain_blocks E m q X = chain_blocks E (take (unat len) m) q X" for E X
    by (rule chain_blocks_cong) (simp add: q)
  moreover have "take 16 (drop (16 * q) m) = drop (16 * q) (take (unat len) m)"
    using q by (simp add: drop_take)
  ultimately show ?thesis
    using cmac_complete [OF assms(1,2) small q, of key] q assms(2,3)
    by (simp add: rfc4493_cmac_def Let_def chain_blocks_def xorb_commute min_absorb2)
qed

section \<open>Properties\<close>

text \<open>
  C18: for a message of one or more whole blocks the code computes the RFC 4493 CMAC of the message
  under the block cipher and key it was given.
\<close>

theorem cmac_equals_rfc4493:
  assumes "aes_contract A" "m \<noteq> []" "length m mod 16 = 0" "length m < 2 ^ 32"
  shows "actVerifierAes256cmac A key m (word_of_nat (length m)) =
    Some (rfc4493_cmac (aes_encrypt A (snd (aes_init A 128 256 key))) m)"
proof -
  have u: "unat (word_of_nat (length m) :: u32) = length m"
    using assms(4) by (simp add: unsigned_of_nat take_bit_nat_eq_self_iff)
  then have "word_of_nat (length m) \<noteq> (0 :: u32)" using assms(2) by (metis length_0_conv unat_0)
  then show ?thesis
    using cmac_rfc4493 [OF assms(1), of "word_of_nat (length m)" m key] assms(3) u by simp
qed

text \<open>
  For any other length the tail after the last whole block does not enter the result: two
  messages that agree on their whole blocks get the same code.
\<close>

theorem cmac_ignores_tail:
  assumes "aes_contract A" "unat len \<le> length m" "unat len \<le> length m'" "unat len + 15 < 2 ^ 32"
    and "unat len mod 16 \<noteq> 0" "take (16 * (unat len div 16)) m = take (16 * (unat len div 16)) m'"
  shows "actVerifierAes256cmac A key m len = actVerifierAes256cmac A key m' len \<and>
    actVerifierAes256cmac A key m len \<noteq> None"
  using assms chain_blocks_cong [OF assms(6)] by (simp add: cmac_partial)

end
