(* ===== verification/Sce_Io.thy ===== *)
theory Sce_Io
  imports Bytes
begin

text \<open>
  The file and thread functions of the kernel (\<open>ksceIoOpen\<close>, \<open>ksceIoRead\<close>, ...) that the tools
  call: parameters of the model, as a record of functions on the state \<open>'k\<close> of the kernel.  What the
  tools rely on of reads and writes is \<open>io_contract\<close>, stated over the contents and the position of
  the open files.
\<close>

text \<open>The results of \<open>module_start\<close>.\<close>

datatype start_result = START_SUCCESS | START_NO_RESIDENT | START_FAILED

record 'k sce_io =
  io_open :: "'k \<Rightarrow> string \<Rightarrow> u32 \<Rightarrow> u32 \<Rightarrow> s32 \<times> 'k"
  io_read :: "'k \<Rightarrow> s32 \<Rightarrow> SceSize \<Rightarrow> s32 \<times> u8 list \<times> 'k"
  io_write :: "'k \<Rightarrow> s32 \<Rightarrow> u8 list \<Rightarrow> s32 \<times> 'k"
  io_lseek :: "'k \<Rightarrow> s32 \<Rightarrow> SceOff \<Rightarrow> s32 \<Rightarrow> SceOff \<times> 'k"
  io_close :: "'k \<Rightarrow> s32 \<Rightarrow> s32 \<times> 'k"
  io_getstat :: "'k \<Rightarrow> string \<Rightarrow> s32 \<times> 'k"
  io_mkdir :: "'k \<Rightarrow> string \<Rightarrow> u32 \<Rightarrow> s32 \<times> 'k"
  io_chstat_size :: "'k \<Rightarrow> s32 \<Rightarrow> SceOff \<Rightarrow> s32 \<times> 'k"
  SCE_O_RDONLY :: u32
  SCE_O_WRONLY :: u32
  SCE_O_RDWR :: u32
  SCE_O_CREAT :: u32
  SCE_O_TRUNC :: u32
  SCE_O_APPEND :: u32
  SCE_SEEK_SET :: s32
  SCE_SEEK_END :: s32

text \<open>A read stores the bytes it got at the front of the buffer.\<close>

definition sce_read ::
    "'k sce_io \<Rightarrow> s32 \<Rightarrow> SceSize \<Rightarrow> u8 list \<Rightarrow> 'k \<Rightarrow> s32 \<times> u8 list \<times> 'k" where
  "sce_read IO fd n buf k =
     (let (res, data, k) = io_read IO k fd n in (res, overwrite 0 data buf, k))"

definition close_fd :: "'k sce_io \<Rightarrow> s32 \<Rightarrow> 'k \<Rightarrow> 'k" where
  "close_fd IO fd k = (if failed fd then k else snd (io_close IO k fd))"

text \<open>\<open>snprintf\<close> into a buffer of \<open>n\<close> bytes keeps at most \<open>n - 1\<close> characters.\<close>

definition snprintf :: "nat \<Rightarrow> string \<Rightarrow> string" where
  "snprintf n s = take (n - 1) s"

text \<open>The thread functions that \<open>run_on_thread\<close> calls; \<open>th_wait\<close> also gives the exit status.\<close>

record 'k sce_thread =
  th_create :: "'k \<Rightarrow> s32 \<times> 'k"
  th_start :: "'k \<Rightarrow> s32 \<Rightarrow> s32 \<times> 'k"
  th_wait :: "'k \<Rightarrow> s32 \<Rightarrow> s32 \<times> s32 \<times> 'k"
  th_delete :: "'k \<Rightarrow> s32 \<Rightarrow> s32 \<times> 'k"
  th_success :: s32
  th_failed :: s32

section \<open>Sequential files\<close>

text \<open>
  \<open>view k fd\<close> is the contents and the position of the open file \<open>fd\<close>.  A read returns an error
  and does nothing, or a part of what is ahead, not more than asked for, and moves past it.  A write
  returns an error and does nothing, or stores a part of the data and moves past it.
\<close>

type_synonym 'k view = "'k \<Rightarrow> s32 \<Rightarrow> (u8 list \<times> nat) option"

definition io_contract :: "'k sce_io \<Rightarrow> 'k view \<Rightarrow> bool" where
  "io_contract IO view \<longleftrightarrow>
     (\<forall>k fd n bs pos. view k fd = Some (bs, pos) \<longrightarrow>
        (\<exists>r data k'. io_read IO k fd n = (r, data, k') \<and> length data \<le> unat n \<and>
           (if failed r then view k' = view k
            else unat r = length data \<and> data = take (length data) (drop pos bs) \<and>
                 view k' = (view k)(fd \<mapsto> (bs, pos + length data)))))
   \<and> (\<forall>k fd d bs pos. view k fd = Some (bs, pos) \<longrightarrow> pos \<le> length bs \<longrightarrow>
        (\<exists>r k'. io_write IO k fd d = (r, k') \<and>
           (if failed r then view k' = view k
            else unat r \<le> length d \<and>
                 view k' = (view k)(fd \<mapsto> (overwrite pos (take (unat r) d) bs, pos + unat r)))))"

text \<open>
  Opening, moving, resizing and closing: a file that is opened was not open under that number and
  starts at 0, empty when it is opened with \<open>SCE_O_TRUNC\<close>.
\<close>

definition file_contract :: "'k sce_io \<Rightarrow> 'k view \<Rightarrow> bool" where
  "file_contract IO view \<longleftrightarrow>
     (\<forall>k path fl md. \<exists>fd k'. io_open IO k path fl md = (fd, k') \<and>
        (if failed fd then view k' = view k
         else view k fd = None \<and> (\<exists>bs. view k' = (view k)(fd \<mapsto> (bs, 0)) \<and>
           (fl AND SCE_O_TRUNC IO \<noteq> 0 \<longrightarrow> bs = []))))
   \<and> (\<forall>k fd bs pos sz. view k fd = Some (bs, pos) \<longrightarrow>
        (\<exists>r k'. io_chstat_size IO k fd sz = (r, k') \<and>
           view k' = (if failed r then view k
             else (view k)(fd \<mapsto> (take (unat sz) bs @ replicate (unat sz - length bs) 0, pos)))))
   \<and> (\<forall>k fd bs pos. view k fd = Some (bs, pos) \<longrightarrow>
        (\<exists>r k'. io_lseek IO k fd 0 (SCE_SEEK_SET IO) = (r, k') \<and> view k' = (view k)(fd \<mapsto> (bs, 0))))"

lemma file_contractD:
  assumes "file_contract IO view"
  shows "\<exists>fd k'. io_open IO k path fl md = (fd, k') \<and>
      (if failed fd then view k' = view k
       else view k fd = None \<and> (\<exists>bs. view k' = (view k)(fd \<mapsto> (bs, 0)) \<and>
         (fl AND SCE_O_TRUNC IO \<noteq> 0 \<longrightarrow> bs = [])))"
    and "view k fd = Some (bs, pos) \<Longrightarrow> \<exists>r k'. io_chstat_size IO k fd sz = (r, k') \<and>
      view k' = (if failed r then view k
        else (view k)(fd \<mapsto> (take (unat sz) bs @ replicate (unat sz - length bs) 0, pos)))"
    and "view k fd = Some (bs, pos) \<Longrightarrow>
      \<exists>r k'. io_lseek IO k fd 0 (SCE_SEEK_SET IO) = (r, k') \<and> view k' = (view k)(fd \<mapsto> (bs, 0))"
  using assms unfolding file_contract_def by blast+

lemma io_readE:
  assumes "io_contract IO view" "view k fd = Some (bs, pos)"
  obtains (fail) r data k' where "io_read IO k fd n = (r, data, k')" "failed r"
      "length data \<le> unat n" "view k' = view k"
    | (ok) r data k' where "io_read IO k fd n = (r, data, k')" "\<not> failed r" "length data \<le> unat n"
      "unat r = length data" "data = take (length data) (drop pos bs)"
      "view k' = (view k)(fd \<mapsto> (bs, pos + length data))"
proof -
  obtain r data k' where "io_read IO k fd n = (r, data, k')" "length data \<le> unat n"
    "if failed r then view k' = view k
     else unat r = length data \<and> data = take (length data) (drop pos bs) \<and>
       view k' = (view k)(fd \<mapsto> (bs, pos + length data))"
    using assms unfolding io_contract_def by blast
  then show thesis using that by (cases "failed r") auto
qed

lemma io_writeE:
  assumes "io_contract IO view" "view k fd = Some (bs, pos)" "pos \<le> length bs"
  obtains (fail) r k' where "io_write IO k fd d = (r, k')" "failed r" "view k' = view k"
    | (ok) r k' where "io_write IO k fd d = (r, k')" "\<not> failed r" "unat r \<le> length d"
      "view k' = (view k)(fd \<mapsto> (overwrite pos (take (unat r) d) bs, pos + unat r))"
proof -
  obtain r k' where "io_write IO k fd d = (r, k')"
    "if failed r then view k' = view k
     else unat r \<le> length d \<and>
       view k' = (view k)(fd \<mapsto> (overwrite pos (take (unat r) d) bs, pos + unat r))"
    using assms unfolding io_contract_def by blast
  then show thesis using that by (cases "failed r") auto
qed

section \<open>Copying between two open files\<close>

text \<open>
  The loop of every \<open>write_file_from_fd\<close>: \<open>B\<close> is its \<open>BUFFER_SIZE\<close> (never 0 in the sources),
  \<open>buf\<close> the global buffer.  The result is the value of \<open>res\<close> at the label \<open>error\<close>.
\<close>

definition copy_step ::
    "'k sce_io \<Rightarrow> s32 \<Rightarrow> s32 \<Rightarrow> SceSize \<Rightarrow> u8 list \<Rightarrow> 'k \<Rightarrow> s32 \<times> u8 list \<times> 'k" where
  "copy_step IO read_fd fd n buf k =
     (let (res, buf, k) = sce_read IO read_fd n buf k in
      if failed res then (res, buf, k)
      else if res \<noteq> n then (-1, buf, k)
      else let (res, k) = io_write IO k fd (take (unat n) buf) in
        if failed res then (res, buf, k)
        else if res \<noteq> n then (-1, buf, k)
        else (0, buf, k))"

lemma unat_minus_less: "B \<noteq> 0 \<Longrightarrow> B \<le> sz \<Longrightarrow> unat (sz - B) < unat (sz :: u32)"
  by (simp add: unat_sub_if' word_le_nat_alt unat_eq_0 [symmetric] diff_less)

function copy_loop ::
    "'k sce_io \<Rightarrow> SceSize \<Rightarrow> s32 \<Rightarrow> s32 \<Rightarrow> SceSize \<Rightarrow> u8 list \<Rightarrow> 'k \<Rightarrow> s32 \<times> u8 list \<times> 'k" where
  "copy_loop IO B read_fd fd sz buf k =
     (if B \<noteq> 0 \<and> B \<le> sz
      then let (res, buf, k) = copy_step IO read_fd fd B buf k in
           if res \<noteq> 0 then (res, buf, k) else copy_loop IO B read_fd fd (sz - B) buf k
      else if 0 < sz then copy_step IO read_fd fd sz buf k
      else (0, buf, k))"
  by pat_completeness auto

termination
  by (relation "measure (\<lambda>(IO, B, read_fd, fd, sz, buf, k). unat sz)") (simp_all add: unat_minus_less)

declare copy_loop.simps [simp del]

text \<open>
  \<open>copied view src dst n r k k'\<close>: from \<open>k\<close> to \<open>k'\<close> some \<open>m \<le> n\<close> bytes ahead in \<open>src\<close> were
  stored in \<open>dst\<close>, nothing else changed but the position in \<open>src\<close>; \<open>r\<close> is 0 exactly when all \<open>n\<close>
  bytes were, and then \<open>src\<close> stands right after them, and otherwise an error.
\<close>

definition copied :: "'k view \<Rightarrow> s32 \<Rightarrow> s32 \<Rightarrow> nat \<Rightarrow> s32 \<Rightarrow> 'k \<Rightarrow> 'k \<Rightarrow> bool" where
  "copied view src dst n r k k' \<longleftrightarrow>
     (\<exists>bs pos ds q m p. view k src = Some (bs, pos) \<and> view k dst = Some (ds, q) \<and>
        m \<le> n \<and> m \<le> length (drop pos bs) \<and> (r = 0 \<longleftrightarrow> m = n) \<and> (r = 0 \<longrightarrow> p = pos + n) \<and>
        (r \<noteq> 0 \<longrightarrow> failed r) \<and>
        view k' = (view k)(src \<mapsto> (bs, p), dst \<mapsto> (overwrite q (take m (drop pos bs)) ds, q + m)))"

lemma overwrite_twice:
  assumes "q \<le> length ds"
  shows "overwrite (q + length as) bs (overwrite q as ds) = overwrite q (as @ bs) ds"
proof -
  have "drop (q + length as + length bs) (overwrite q as ds) = drop (q + length as + length bs) ds"
    using assms by (simp add: overwrite_def min_def) (simp add: ac_simps)
  moreover have "take (q + length as) (overwrite q as ds) = take q ds @ as"
    using assms by (simp add: overwrite_def)
  ultimately show ?thesis by (simp add: overwrite_def add.assoc)
qed

lemma length_overwrite0: "length data \<le> length buf \<Longrightarrow> length (overwrite 0 data buf) = length buf"
  by simp

lemma copy_step_copied:
  assumes C: "io_contract IO view" and v: "view k src = Some (bs, pos)" "view k dst = Some (ds, q)"
    and ne: "src \<noteq> dst" and q: "q \<le> length ds" and n: "0 < n" "unat n \<le> length buf"
  obtains r buf' k' where "copy_step IO src dst n buf k = (r, buf', k')" "length buf' = length buf"
    "copied view src dst (unat n) r k k'"
proof -
  have n0: "0 < unat n" using n(1) by (simp add: word_less_nat_alt)
  have idle: "copied view src dst (unat n) r k k'"
    if "view k' = (view k)(src \<mapsto> (bs, p))" "failed r" for r k' p
  proof -
    have "((view k)(src \<mapsto> (bs, p))) dst = Some (ds, q)" using v(2) ne by simp
    then have "view k' = (view k)(src \<mapsto> (bs, p), dst \<mapsto> (ds, q))"
      unfolding that(1) by (rule fun_upd_idem [symmetric])
    moreover have "r \<noteq> 0" using that(2) by auto
    ultimately show ?thesis unfolding copied_def using v that(2) n0
      by (intro exI [of _ bs] exI [of _ pos] exI [of _ ds] exI [of _ q] exI [of _ 0] exI [of _ p]) simp
  qed
  from C v(1) show thesis
  proof (cases rule: io_readE [where n = n])
    case (fail r data k')
    moreover have "view k' = (view k)(src \<mapsto> (bs, pos))" using fail(4) v(1) by (simp add: fun_upd_idem)
    ultimately show thesis using n(2) idle [of k' pos r]
      by (intro that [of r "overwrite 0 data buf" k']) (simp_all add: copy_step_def sce_read_def)
  next
    case (ok r data k1)
    note rd = this
    have len: "length (overwrite 0 data buf) = length buf" using ok(3) n(2) by simp
    have v1: "view k1 src = Some (bs, pos + length data)" "view k1 dst = Some (ds, q)"
      using ok(6) v(2) ne by simp_all
    show thesis
    proof (cases "r = n")
      case False
      then show thesis using ok idle [OF ok(6), of "-1"] len
        by (intro that [of "-1" "overwrite 0 data buf" k1]) (simp_all add: copy_step_def sce_read_def)
    next
      case True
      then have ld: "length data = unat n" "take (unat n) (drop pos bs) = data"
        "take (unat n) (overwrite 0 data buf) = data"
        using ok(4,5) by (simp_all add: overwrite_def)
      then have le: "unat n \<le> length (drop pos bs)" by (metis length_take min.absorb_iff2)
      from C v1(2) q show thesis
      proof (cases rule: io_writeE [where d = data])
        case (fail w k')
        have "copied view src dst (unat n) w k k'"
          by (rule idle [OF trans [OF fail(3) ok(6)] fail(2)])
        then show thesis using fail ok True len ld
          by (intro that [of w "overwrite 0 data buf" k']) (simp_all add: copy_step_def sce_read_def)
      next
        case (ok w k')
        define r' :: s32 where "r' = (if w = n then 0 else -1)"
        have vk: "view k' = (view k)(src \<mapsto> (bs, pos + unat n),
            dst \<mapsto> (overwrite q (take (unat w) (drop pos bs)) ds, q + unat w))"
        proof -
          have "take (unat w) data = take (unat w) (drop pos bs)"
            using ok(3) unfolding ld(1) by (subst ld(2) [symmetric]) (simp add: min_absorb1)
          then show ?thesis by (simp only: ok(4) rd(6) ld(1))
        qed
        have "r' = 0 \<longleftrightarrow> unat w = unat n" "r' \<noteq> 0 \<longrightarrow> failed r'" "unat w \<le> unat n"
          using ok(3) ld(1) by (simp_all add: r'_def word_unat_eq_iff [of w n])
        then have "copied view src dst (unat n) r' k k'"
          unfolding copied_def using v le vk order_trans [of "unat w" "unat n"] by blast
        moreover have "copy_step IO src dst n buf k = (r', overwrite 0 data buf, k')"
          using rd(1,2) True ok(1,2) ld
          by (simp add: copy_step_def sce_read_def r'_def)
        ultimately show thesis using that len by blast
      qed
    qed
  qed
qed

lemma copied_trans:
  assumes c: "copied view src dst m 0 k k1" "copied view src dst n r k1 k2" and ne: "src \<noteq> dst"
    and q: "\<And>ds q. view k dst = Some (ds, q) \<Longrightarrow> q \<le> length ds"
  shows "copied view src dst (m + n) r k k2"
proof -
  obtain bs pos ds q where 1: "view k src = Some (bs, pos)" "view k dst = Some (ds, q)"
    "m \<le> length (drop pos bs)"
    "view k1 = (view k)(src \<mapsto> (bs, pos + m), dst \<mapsto> (overwrite q (take m (drop pos bs)) ds, q + m))"
    using c(1) unfolding copied_def by auto
  define ds1 where "ds1 = overwrite q (take m (drop pos bs)) ds"
  have v1: "view k1 src = Some (bs, pos + m)" "view k1 dst = Some (ds1, q + m)"
    using 1(4) ne by (simp_all add: ds1_def)
  then obtain j p where 2: "j \<le> n" "j \<le> length (drop (pos + m) bs)" "r = 0 \<longleftrightarrow> j = n"
    "r = 0 \<longrightarrow> p = pos + m + n" "r \<noteq> 0 \<longrightarrow> failed r"
    "view k2 = (view k1)(src \<mapsto> (bs, p),
       dst \<mapsto> (overwrite (q + m) (take j (drop (pos + m) bs)) ds1, q + m + j))"
    using c(2) unfolding copied_def by auto
  have "take (m + j) (drop pos bs) = take m (drop pos bs) @ take j (drop (pos + m) bs)"
    by (subst take_add) (simp add: add.commute)
  moreover have "length (take m (drop pos bs)) = m" using 1(3) by simp
  ultimately have ow:
    "overwrite (q + m) (take j (drop (pos + m) bs)) ds1 = overwrite q (take (m + j) (drop pos bs)) ds"
    using overwrite_twice [OF q [OF 1(2)], of "take m (drop pos bs)" "take j (drop (pos + m) bs)"]
    by (simp only: ds1_def)
  have vk: "view k2 = (view k)(src \<mapsto> (bs, p),
      dst \<mapsto> (overwrite q (take (m + j) (drop pos bs)) ds, q + (m + j)))"
    unfolding 2(6) ow 1(4) by (rule ext) (simp add: add.assoc)
  have "m + j \<le> m + n" "m + j \<le> length (drop pos bs)" "r = 0 \<longleftrightarrow> m + j = m + n"
    "r = 0 \<longrightarrow> p = pos + (m + n)" "r \<noteq> 0 \<longrightarrow> failed r"
    using 2(1-5) 1(3) by simp_all
  then show ?thesis unfolding copied_def using 1(1,2) vk by blast
qed

text \<open>
  The loop copies every byte, or stops at the first short or failing read or write with an error.
\<close>

lemma copy_loop_copied:
  assumes C: "io_contract IO view" and ne: "src \<noteq> dst" and B: "B \<noteq> 0"
  shows "view k src = Some (bs, pos) \<Longrightarrow> view k dst = Some (ds, q) \<Longrightarrow> q \<le> length ds \<Longrightarrow>
    unat B \<le> length buf \<Longrightarrow> \<exists>r buf' k'. copy_loop IO B src dst sz buf k = (r, buf', k') \<and>
      length buf' = length buf \<and> copied view src dst (unat sz) r k k'"
proof (induction "unat sz" arbitrary: sz buf k pos ds q rule: less_induct)
  case less
  show ?case
  proof (cases "B \<le> sz")
    case True
    have B0: "0 < B" using B by (simp add: word_neq_0_conv)
    from C less.prems(1,2) ne less.prems(3) B0 less.prems(4)
    obtain r buf1 k1 where 1: "copy_step IO src dst B buf k = (r, buf1, k1)" "length buf1 = length buf"
      "copied view src dst (unat B) r k k1" by (rule copy_step_copied)
    have sz: "unat B + unat (sz - B) = unat sz" using True by (simp add: unat_sub word_le_nat_alt)
    show ?thesis
    proof (cases "r = 0")
      case r: True
      let ?ds = "overwrite q (take (unat B) (drop pos bs)) ds"
      have v1: "view k1 src = Some (bs, pos + unat B)" "view k1 dst = Some (?ds, q + unat B)"
        and l: "unat B \<le> length (drop pos bs)"
        using 1(3) less.prems(1,2) ne r by (auto simp: copied_def)
      have "q + unat B \<le> length ?ds"
        using l less.prems(3) by (simp add: length_overwrite_max)
      note v1 = v1 this
      obtain r2 buf2 k2 where 2: "copy_loop IO B src dst (sz - B) buf1 k1 = (r2, buf2, k2)"
        "length buf2 = length buf1" "copied view src dst (unat (sz - B)) r2 k1 k2"
        using less.hyps [OF unat_minus_less [OF B True] v1, of buf1] less.prems(4) 1(2) by auto
      have "copied view src dst (unat sz) r2 k k2"
        using copied_trans [OF 1(3) [unfolded r] 2(3) ne] less.prems(2,3) sz by auto
      then show ?thesis using 1 2 r True B
        by (subst copy_loop.simps) simp
    next
      case False
      obtain bs0 pos0 ds0 q0 m p where c: "view k src = Some (bs0, pos0)" "view k dst = Some (ds0, q0)"
        "m \<le> unat B" "m \<le> length (drop pos0 bs0)" "m \<noteq> unat B" "failed r"
        "view k1 = (view k)(src \<mapsto> (bs0, p), dst \<mapsto> (overwrite q0 (take m (drop pos0 bs0)) ds0, q0 + m))"
        using 1(3) False unfolding copied_def by blast
      have "m \<le> unat sz" "m \<noteq> unat sz" using c(3,5) sz by linarith+
      then have "copied view src dst (unat sz) r k k1"
        unfolding copied_def using c(1,2,4,6,7) False by blast
      then show ?thesis using 1 False True B by (subst copy_loop.simps) simp
    qed
  next
    case False
    show ?thesis
    proof (cases "sz = 0")
      case True
      have "((view k)(src \<mapsto> (bs, pos), dst \<mapsto> (overwrite q (take 0 (drop pos bs)) ds, q + 0))) = view k"
        using less.prems(1,2) by (simp add: fun_upd_idem)
      then have "copied view src dst 0 0 k k"
        unfolding copied_def using less.prems(1,2)
        by (intro exI [of _ bs] exI [of _ pos] exI [of _ ds] exI [of _ q] exI [of _ 0] exI [of _ pos]) simp
      then show ?thesis using True False by (subst copy_loop.simps) simp
    next
      case sz: False
      have n: "0 < sz" "unat sz \<le> length buf"
        using sz False less.prems(4) by (simp_all add: word_neq_0_conv word_le_nat_alt)
      from C less.prems(1,2) ne less.prems(3) n
      obtain r buf1 k1 where "copy_step IO src dst sz buf k = (r, buf1, k1)" "length buf1 = length buf"
        "copied view src dst (unat sz) r k k1" by (rule copy_step_copied)
      then show ?thesis using False n(1) by (subst copy_loop.simps) simp
    qed
  qed
qed

end
