(* ===== verification/Act_Verifier.thy ===== *)
theory Act_Verifier
  imports Aes_Cmac Sce_Io
begin

text \<open>
  \<open>kernel/act_verifier/src/main.c\<close> and \<open>kernel/np_act_verifier/src/main.c\<close>: the checks of the
  activation data of a console.  The RSA, AES-CBC, SHA, NVS and module functions of the kernel are
  parameters.
\<close>

section \<open>Byte order\<close>

definition bswap32 :: "u32 \<Rightarrow> u32" where
  "bswap32 w = (case bytes32 w of [a, b, c, d] \<Rightarrow> le32 d c b a | _ \<Rightarrow> w)"

text \<open>
  The loop of \<open>__swap_data32\<close>, for \<open>dst\<close> = \<open>src\<close> as in every call: \<open>i\<close> is the counter, \<open>k\<close> what
  is left of it, \<open>m\<close> the number of words.
\<close>

fun swap_loop :: "nat \<Rightarrow> nat \<Rightarrow> nat \<Rightarrow> u32 list \<Rightarrow> u32 list" where
  "swap_loop m i 0 ws = ws"
| "swap_loop m i (Suc k) ws =
     (let val = bswap32 (ws ! (m - i - 1));
          ws = ws[m - i - 1 := bswap32 (ws ! i)];
          ws = ws[i := val]
      in swap_loop m (Suc i) k ws)"

text \<open>A length beyond the array is a fault.\<close>

definition swap_data32 :: "u32 list \<Rightarrow> SceSize \<Rightarrow> u32 list option" where
  "swap_data32 ws len =
     (if length ws < unat (drop_bit 2 len) then None
      else let ws = swap_loop (unat (drop_bit 2 len)) 0 (unat (drop_bit 3 len)) ws
           in Some (if len AND 4 \<noteq> 0
                    then ws[unat (drop_bit 3 len) := bswap32 (ws ! unat (drop_bit 3 len))]
                    else ws))"

section \<open>The kernel of the verifiers\<close>

record 'k act_kernel =
  act_io :: "'k sce_io"
  ak_fw_version :: "'k \<Rightarrow> s32 \<times> u32"
  ak_search_module :: "'k \<Rightarrow> string \<Rightarrow> s32"
  ak_get_offset :: "'k \<Rightarrow> s32 \<Rightarrow> u32 \<Rightarrow> u32 \<Rightarrow> s32 \<times> addr"
  ak_rsa_mod_power :: "'k \<Rightarrow> addr \<Rightarrow> u8 list \<Rightarrow> u32 list \<Rightarrow> u32 list \<Rightarrow> u8 list"
  ak_ecdsa_verify :: "'k \<Rightarrow> addr \<Rightarrow> u8 list \<Rightarrow> u8 list \<Rightarrow> s32"
  ak_sha1 :: "u8 list \<Rightarrow> u8 list"
  ak_sha256 :: "u8 list \<Rightarrow> u8 list"
  ak_cbc_dec :: "u8 list \<Rightarrow> u8 list \<Rightarrow> u8 list \<Rightarrow> u8 list"
  ak_nvs_read :: "'k \<Rightarrow> u32 \<Rightarrow> u32 \<Rightarrow> s32 \<times> u8 list \<times> 'k"
  ak_words_at :: "'k \<Rightarrow> addr \<Rightarrow> u32 list"
  ak_bytes_at :: "'k \<Rightarrow> addr \<Rightarrow> u8 list"
  act_START_NO_RESIDENT :: s32
  act_START_FAILED :: s32

text \<open>
  Digests have their length, a public-key operation and a decryption keep the length of the data, a
  read is not longer than asked for.
\<close>

definition act_contract :: "'k act_kernel \<Rightarrow> bool" where
  "act_contract Q \<longleftrightarrow>
     (\<forall>bs. length (ak_sha256 Q bs) = 32) \<and>
     (\<forall>k f bs n e. length (ak_rsa_mod_power Q k f bs n e) = length bs) \<and>
     (\<forall>bs key iv. length (ak_cbc_dec Q bs key iv) = length bs) \<and>
     (\<forall>k off n. length (fst (snd (ak_nvs_read Q k off n))) \<le> unat n) \<and>
     (\<forall>k fd n. length (fst (snd (io_read (act_io Q) k fd n))) \<le> unat n)"

section \<open>Constants of act\_verifier\<close>

definition act_rsa_n :: "u32 list" where
  "act_rsa_n =
     [0x47245239, 0xDD3EBC17, 0x681E0577, 0x981B7CFB, 0x7179289B, 0x20C2642A, 0x893B93C6, 0x3FFEA5A3,
      0x9FA212A0, 0xB62BDC64, 0x434B549B, 0xFC2A3E63, 0x6FD74277, 0x5BD4041A, 0xC7A3E8A6, 0x5181E51C,
      0xB28E037C, 0xD5847215, 0xDE2713E6, 0x5A79B0C8, 0x5B424263, 0x1E871E47, 0x819F5E31, 0x1C8AF859,
      0x16B249B6, 0x58F71FDD, 0xB3EB113A, 0xD9B65FA6, 0x76CAF6FC, 0x9BCE59FC, 0xF74CBC17, 0x28DBCD99,
      0x66EA6EE2, 0x84DC3999, 0x19395124, 0x6939E722, 0x977D7A0C, 0x85F86C86, 0x77EFA707, 0xACB808C5,
      0x9CD1EC70, 0x4C2C8D2F, 0x3C6C3848, 0x971D5406, 0x6060E96B, 0xFFC6CD6B, 0x8677A0AC, 0x9E1CC8DC,
      0x4469D58E, 0xE8B6AD26, 0x7B6BB7CE, 0x41466E16, 0x96B1FFAF, 0xBB18B5A5, 0x2226B027, 0x92BBA884,
      0xB5D9610E, 0x55DCDD07, 0xC3602643, 0x431AFECF, 0xFF257FA6, 0x113FA511, 0x308B55E9, 0xA844CC0E]"

definition act_aes_key_key :: "u8 list" where
  "act_aes_key_key =
     [0x84, 0x6D, 0x2D, 0xFD, 0x77, 0xD3, 0xC2, 0xE5, 0xF0, 0xE1, 0x7E, 0xB1, 0x8C, 0xC7, 0x86, 0x92,
      0x8B, 0x88, 0x1E, 0x2E, 0x17, 0xAE, 0x0C, 0xD8, 0xFD, 0xE8, 0x88, 0x09, 0xD0, 0xD0, 0x33, 0xC5]"

definition act_aes_key_iv :: "u8 list" where
  "act_aes_key_iv =
     [0xC8, 0xA0, 0x40, 0x66, 0x2B, 0x10, 0xA1, 0x98, 0x6A, 0x18, 0x94, 0xE9, 0x4F, 0xBE, 0xFC, 0xF0]"

definition act_aes_cmac_key :: "u8 list" where
  "act_aes_cmac_key =
     [0x5A, 0x91, 0xFC, 0x74, 0xA8, 0x2B, 0xE3, 0xF2, 0xB8, 0xF4, 0xDB, 0x60, 0x70, 0xA0, 0x99, 0xA2,
      0xBD, 0xF0, 0x0E, 0x7B, 0xF0, 0x0E, 0x7B, 0xF0, 0x8B, 0x68, 0x55, 0x34, 0xA0, 0x64, 0x6D, 0x87]"

definition act_rsa_e :: "u32 list" where
  "act_rsa_e = 0x10001 # replicate 63 0"

section \<open>act\_verifier\<close>

definition actVerifierCheckSystemFw :: "'k act_kernel \<Rightarrow> 'k \<Rightarrow> s32" where
  "actVerifierCheckSystemFw Q k =
     (let (res, version) = ak_fw_version Q k in
      if failed res then res
      else if 0x140000 \<le> (version AND NOT 0xFFF) - 0x3600000 then -1 else 0)"

text \<open>
  The arrays are \<open>act_data\<close> (0x80 bytes) and \<open>actsig\<close> (0x100 bytes).
\<close>

definition actVerifierReadActData ::
    "'k act_kernel \<Rightarrow> u8 list \<Rightarrow> u8 list \<Rightarrow> 'k \<Rightarrow> s32 \<times> u8 list \<times> u8 list \<times> 'k" where
  "actVerifierReadActData Q act_data actsig k =
     (let IO = act_io Q;
          (fd, k) = io_open IO k ''tm0:activate/act.dat'' (SCE_O_RDONLY IO) 0
      in if failed fd then (fd, act_data, actsig, k)
         else let (_, act_data, k) = sce_read IO fd 0x80 act_data k;
                  (_, k) = io_close IO k fd;
                  (fd, k) = io_open IO k ''tm0:activate/actsig.dat'' (SCE_O_RDONLY IO) 0
           in if failed fd then (fd, act_data, actsig, k)
              else let (_, actsig, k) = sce_read IO fd 0x100 actsig k;
                       (_, k) = io_close IO k fd
                in (0, act_data, actsig, k))"

definition swap_bytes :: "u8 list \<Rightarrow> SceSize \<Rightarrow> u8 list option" where
  "swap_bytes bs len = map_option unwords32 (swap_data32 (words32 bs) len)"

text \<open>
  \<open>A\<close> is the block cipher of the CMAC.  The result also has the two arrays and the NVS block that
  were checked.
\<close>

definition actVerifierMain ::
    "'k act_kernel \<Rightarrow> 'c sce_aes \<Rightarrow> 'k \<Rightarrow> (s32 \<times> u8 list \<times> u8 list \<times> 'k) option" where
  "actVerifierMain Q A k =
     (let act_data = replicate 0x80 0; nvs_act_data = replicate 0x20 0;
          res = actVerifierCheckSystemFw Q k
      in if failed res then Some (res, act_data, nvs_act_data, k)
      else let modid = ak_search_module Q k ''SceNpDrm'' in
      if failed modid then Some (modid, act_data, nvs_act_data, k)
      else let (res, modpow) = ak_get_offset Q k modid 0 (0xEDD4 OR 1) in
      if failed res then Some (res, act_data, nvs_act_data, k)
      else let (res, act_data, actsig, k) = actVerifierReadActData Q act_data (replicate 0x100 0) k in
      if failed res then Some (res, act_data, nvs_act_data, k)
      else do {
        actsig \<leftarrow> swap_bytes actsig 0x100;
        let actsig = ak_rsa_mod_power Q k modpow actsig act_rsa_n act_rsa_e;
        actsig \<leftarrow> swap_bytes actsig 0x20;
        let hash = ak_sha256 Q act_data;
        if hash \<noteq> take 0x20 actsig then Some (-1, act_data, nvs_act_data, k)
        else do {
          let act_data = take 0x40 act_data
                @ ak_cbc_dec Q (drop 0x40 act_data) act_aes_key_key act_aes_key_iv;
          mac \<leftarrow> actVerifierAes256cmac A act_aes_key_key act_data 0x70;
          if drop 0x70 act_data \<noteq> mac then Some (-1, act_data, nvs_act_data, k)
          else do {
            let (res, data, k) = ak_nvs_read Q k 0x520 0x20;
            if failed res then Some (res, act_data, nvs_act_data, k)
            else do {
              let nvs_act_data = overwrite 0 data nvs_act_data;
              mac \<leftarrow> actVerifierAes256cmac A act_aes_cmac_key nvs_act_data 0x10;
              if drop 0x10 nvs_act_data \<noteq> mac then Some (-1, act_data, nvs_act_data, k)
              else Some (0, act_data, nvs_act_data, k)
            }
          }
        }
      })"

definition act_module_start :: "'k act_kernel \<Rightarrow> s32 \<Rightarrow> s32" where
  "act_module_start Q res = (if failed res then act_START_FAILED Q else act_START_NO_RESIDENT Q)"

section \<open>np\_act\_verifier\<close>

text \<open>
  The file has its own copies of \<open>__swap_data32\<close> and \<open>actVerifierCheckSystemFw\<close>, the same text.
  \<open>act_data\<close> has 0x1038 bytes; a failed open falls back to a second path.
\<close>

definition np_write_file :: "'k sce_io \<Rightarrow> string \<Rightarrow> u8 list option \<Rightarrow> SceSize \<Rightarrow> 'k \<Rightarrow> s32 \<times> 'k" where
  "np_write_file IO path data sz k =
     (case data of None \<Rightarrow> (-1, k)
      | Some bs \<Rightarrow>
          if sz = 0 then (-1, k)
          else let (fd, k) = io_open IO k path (SCE_O_WRONLY IO OR SCE_O_CREAT IO OR SCE_O_TRUNC IO) 438 in
            if failed fd then (fd, k)
            else let (_, k) = io_write IO k fd (take (unat sz) bs); (_, k) = io_close IO k fd in (0, k))"

definition np_actVerifierReadActData ::
    "'k act_kernel \<Rightarrow> u8 list \<Rightarrow> 'k \<Rightarrow> s32 \<times> u8 list \<times> 'k" where
  "np_actVerifierReadActData Q act_data k =
     (let IO = act_io Q;
          (fd, k) = io_open IO k ''host0:act.dat'' (SCE_O_RDONLY IO) 0;
          (fd, k) = (if failed fd then io_open IO k ''tm0:npdrm/act.dat'' (SCE_O_RDONLY IO) 0 else (fd, k))
      in if failed fd then (fd, act_data, k)
         else let (_, act_data, k) = sce_read IO fd 0x1038 act_data k;
                  (_, k) = io_close IO k fd
              in (0, act_data, k))"

text \<open>\<open>aes_dec\<close> works in place, block by block; \<open>data\<close> is what the pointer has ahead of it.\<close>

fun aes_dec_loop :: "'c sce_aes \<Rightarrow> 'c \<Rightarrow> nat \<Rightarrow> u8 list \<Rightarrow> u8 list option" where
  "aes_dec_loop A ctx 0 data = Some data"
| "aes_dec_loop A ctx (Suc k) data = do {
     b \<leftarrow> bytes_at data 0 16;
     rest \<leftarrow> aes_dec_loop A ctx k (drop 16 data);
     Some (aes_decrypt A ctx b @ rest)
   }"

definition aes_dec :: "'c sce_aes \<Rightarrow> u8 list \<Rightarrow> SceSize \<Rightarrow> u8 list \<Rightarrow> (s32 \<times> u8 list) option" where
  "aes_dec A data sz key =
     (let (res, ctx) = aes_init A 0x80 0x80 key in
      if failed res then Some (res, data)
      else map_option (Pair 0) (aes_dec_loop A ctx (unat (drop_bit 4 (sz AND NOT (0x10 - 1)))) data))"

text \<open>The result of the ECDSA check is printed and then overwritten, as in the source.\<close>

definition np_actVerifierMain ::
    "'k act_kernel \<Rightarrow> 'c sce_aes \<Rightarrow> 'k \<Rightarrow> (s32 \<times> u8 list \<times> 'k) option" where
  "np_actVerifierMain Q A k =
     (let act_data = replicate 0x1038 0;
          res = actVerifierCheckSystemFw Q k
      in if failed res then Some (res, act_data, k)
      else let modid = ak_search_module Q k ''SceNpDrm'' in
      if failed modid then Some (modid, act_data, k)
      else let (res, modpow) = ak_get_offset Q k modid 0 (0xEDD4 OR 1) in
      if failed res then Some (res, act_data, k)
      else let (res, verify) = ak_get_offset Q k modid 0 (0xA024 OR 1) in
      if failed res then Some (res, act_data, k)
      else let (res, act_data, k) = np_actVerifierReadActData Q act_data k in
      if failed res then Some (res, act_data, k)
      else let hash_sha1 = ak_sha1 Q (take 0x1010 act_data);
               res = ak_ecdsa_verify Q k verify hash_sha1 (drop 0x1010 act_data);
               (res, act_rsa_n) = ak_get_offset Q k modid 0 0xFD64 in
      if failed res then Some (res, act_data, k)
      else let (res, act_aes_key) = ak_get_offset Q k modid 1 0x10 in
      if failed res then Some (res, act_data, k)
      else do {
        sig \<leftarrow> swap_bytes (take 0x100 (drop 0xED0 act_data)) 0x100;
        let sig = ak_rsa_mod_power Q k modpow sig (ak_words_at Q k act_rsa_n) act_rsa_e;
        sig \<leftarrow> swap_bytes sig 0x20;
        let act_data = overwrite 0xED0 sig act_data;
        let hash = ak_sha256 Q (take 0xED0 act_data);
        if hash \<noteq> take 0x20 (drop 0xED0 act_data) then Some (-1, act_data, k)
        else do {
          (_, dec) \<leftarrow> aes_dec A (drop 0x10 act_data) 0x800 (ak_bytes_at Q k act_aes_key);
          Some (0, take 0x10 act_data @ dec, k)
        }
      })"

section \<open>Byte order: the loop reverses the bytes\<close>

lemma bytes32_bswap32 [simp]: "bytes32 (bswap32 w) = rev (bytes32 w)"
proof -
  obtain a b c d where "bytes32 w = [a, b, c, d]" by (simp add: bytes32_def)
  then show ?thesis by (simp add: bswap32_def)
qed

lemma length_swap_loop [simp]: "length (swap_loop m i k ws) = length ws"
  by (induction m i k ws rule: swap_loop.induct) (simp_all add: Let_def)

lemma swap_loop_nth:
  "2 * (i + k) \<le> m \<Longrightarrow> m \<le> length ws \<Longrightarrow> j < length ws \<Longrightarrow>
   swap_loop m i k ws ! j =
     (if i \<le> j \<and> j < i + k \<or> m - i - k \<le> j \<and> j < m - i then bswap32 (ws ! (m - 1 - j)) else ws ! j)"
proof (induction m i k ws rule: swap_loop.induct)
  case (2 m i k ws)
  let ?ws = "ws[m - i - 1 := bswap32 (ws ! i), i := bswap32 (ws ! (m - i - 1))]"
  have len: "i < length ws" "m - i - 1 < length ws" "i < m - i - 1"
    using 2(2,3) by auto
  have IH: "swap_loop m (Suc i) k ?ws ! j =
      (if Suc i \<le> j \<and> j < Suc i + k \<or> m - Suc i - k \<le> j \<and> j < m - Suc i
       then bswap32 (?ws ! (m - 1 - j)) else ?ws ! j)"
    using 2(2-4) by (intro 2(1) [OF refl refl refl]) simp_all
  consider "j = i" | "j = m - i - 1" | "j \<noteq> i" "j \<noteq> m - i - 1" by blast
  then show ?case
  proof cases
    case 3
    then have "?ws ! j = ws ! j" "j < m - i \<Longrightarrow> i < j \<Longrightarrow> ?ws ! (m - 1 - j) = ws ! (m - 1 - j)"
      using 2(2-4) by (auto simp: nth_list_update)
    then show ?thesis using IH 3 2(2-4) by (auto simp: Let_def)
  qed (use IH 2(2-4) len in \<open>auto simp: Let_def nth_list_update\<close>)
qed auto

lemma and4_odd:
  assumes "unat (len :: u32) = 4 * m"
  shows "len AND 4 \<noteq> 0 \<longleftrightarrow> odd m"
proof -
  have "(4 :: u32) = 2 ^ 2" by simp
  then have "len AND 4 \<noteq> 0 \<longleftrightarrow> bit len 2" by (metis and_exp_eq_0_iff_not_bit)
  also have "\<dots> \<longleftrightarrow> bit (unat len) 2" by (simp add: bit_unsigned_iff)
  finally show ?thesis by (simp add: bit_iff_odd assms)
qed

lemma swap_data32_rev:
  assumes l: "unat len = 4 * m" and m: "m \<le> length ws"
  shows "swap_data32 ws len = Some (rev (map bswap32 (take m ws)) @ drop m ws)"
proof -
  have d: "unat (drop_bit 2 len) = m" "unat (drop_bit 3 len) = m div 2"
    by (simp_all only: unat_drop l) simp_all
  define vs where "vs = swap_loop m 0 (m div 2) ws"
  have vs: "vs ! j = (if j < m div 2 \<or> m - m div 2 \<le> j \<and> j < m then bswap32 (ws ! (m - 1 - j)) else ws ! j)"
    if "j < length ws" for j
    using swap_loop_nth [of 0 "m div 2" m ws j] m that by (simp add: vs_def)
  have len: "length vs = length ws" by (simp add: vs_def)
  have "(if len AND 4 \<noteq> 0 then vs[m div 2 := bswap32 (vs ! (m div 2))] else vs) =
      rev (map bswap32 (take m ws)) @ drop m ws" (is "?l = ?r")
  proof (rule nth_equalityI)
    show "length ?l = length ?r" using m len by simp
    fix j assume "j < length ?l"
    then have j: "j < length ws" using len by (simp split: if_splits)
    have r: "?r ! j = (if j < m then bswap32 (ws ! (m - 1 - j)) else ws ! j)"
      using j m by (auto simp: nth_append rev_nth)
    have "odd m \<Longrightarrow> m - 1 - m div 2 = m div 2" by presburger
    moreover have "odd m \<Longrightarrow> m div 2 < m" by presburger
    moreover have "j < m \<Longrightarrow> j < m div 2 \<or> m - m div 2 \<le> j \<or> odd m \<and> j = m div 2" by presburger
    ultimately show "?l ! j = ?r ! j"
      unfolding r and4_odd [OF l] using vs [OF j] vs [of "m div 2"] j len m
      by (cases "odd m \<and> j = m div 2") (auto simp: nth_list_update)
  qed
  then show ?thesis using m
    unfolding swap_data32_def d Let_def vs_def [symmetric] by simp
qed

lemma unwords32_rev: "unwords32 (rev (map bswap32 ws)) = rev (unwords32 ws)"
  by (induction ws) simp_all

lemma unwords32_take: "unwords32 (take n ws) = take (4 * n) (unwords32 ws)"
  and unwords32_drop: "unwords32 (drop n ws) = drop (4 * n) (unwords32 ws)"
proof -
  have "unwords32 (take n ws) = take (4 * n) (unwords32 ws) \<and>
      unwords32 (drop n ws) = drop (4 * n) (unwords32 ws)"
    by (induction ws arbitrary: n) (auto simp: take_Cons drop_Cons split: nat.split)
  then show "unwords32 (take n ws) = take (4 * n) (unwords32 ws)"
    "unwords32 (drop n ws) = drop (4 * n) (unwords32 ws)" by auto
qed

lemma swap_bytes_eq:
  assumes "length bs mod 4 = 0" "unat len mod 4 = 0" "unat len \<le> length bs"
  shows "swap_bytes bs len = Some (rev (take (unat len) bs) @ drop (unat len) bs)"
proof -
  define m where "m = unat len div 4"
  have l: "unat len = 4 * m" using div_mult_mod_eq [of "unat len" 4] assms(2) unfolding m_def by linarith
  moreover have "m \<le> length (words32 bs)" using assms(3) by (simp add: m_def length_words32 div_le_mono)
  ultimately have "swap_data32 (words32 bs) len =
      Some (rev (map bswap32 (take m (words32 bs))) @ drop m (words32 bs))"
    by (rule swap_data32_rev)
  then show ?thesis using unwords32_words32 [OF assms(1)]
    by (simp add: swap_bytes_def unwords32_rev unwords32_take unwords32_drop l)
qed

section \<open>Properties\<close>

text \<open>
  \<open>__swap_data32\<close> on an array in place, for a length in bytes of whole words (an odd number of
  words included), reverses the bytes of that part of the array, and so undoes itself.
\<close>

theorem swap_reverses:
  assumes "length bs mod 4 = 0" "unat len mod 4 = 0" "unat len \<le> length bs"
  shows "swap_bytes bs len = Some (rev (take (unat len) bs) @ drop (unat len) bs) \<and>
    Option.bind (swap_bytes bs len) (\<lambda>bs. swap_bytes bs len) = Some bs"
  using assms swap_bytes_eq [OF assms]
    swap_bytes_eq [of "rev (take (unat len) bs) @ drop (unat len) bs" len]
  by (simp add: min_absorb2)

text \<open>
  The firmware check passes exactly for the versions 3.60 to 3.73, the ones whose \<open>SceNpDrm\<close>
  the offsets fit.
\<close>

theorem check_fw_range:
  "actVerifierCheckSystemFw Q k = 0 \<longleftrightarrow>
     \<not> failed (fst (ak_fw_version Q k)) \<and>
     0x3600000 \<le> snd (ak_fw_version Q k) \<and> snd (ak_fw_version Q k) < 0x3740000"
proof -
  obtain r v where rv: "ak_fw_version Q k = (r, v)" by force
  let ?w = "v AND NOT 0xFFF"
  have "mask 12 = (0xFFF :: u32)" by (simp add: mask_eq_exp_minus_1)
  then have w: "unat ?w = unat v div 4096 * 4096" using unat_and_not_mask [of v 12] by simp
  have s: "unat (?w - 0x3600000) = (if 0x3600000 \<le> unat ?w then unat ?w - 0x3600000
      else unat ?w + 4294967296 - 0x3600000)"
    by (simp only: unat_sub_if_size word_size) simp
  have "(0x140000 \<le> ?w - 0x3600000) = (0x140000 \<le> unat (?w - 0x3600000))"
    by (simp add: word_le_nat_alt)
  also have "\<dots> = (unat v < 0x3600000 \<or> 0x3740000 \<le> unat v)"
  proof -
    define q where "q = unat v div 4096"
    have "q * 4096 + unat v mod 4096 = unat v" "unat v mod 4096 < 4096" by (simp_all add: q_def)
    moreover have "q < 13824 \<or> 13824 \<le> q \<and> q < 14144 \<or> 14144 \<le> q" by linarith
    ultimately show ?thesis unfolding s w q_def [symmetric] by (elim disjE) auto
  qed
  finally have "(0x140000 \<le> ?w - 0x3600000) = (unat v < 0x3600000 \<or> 0x3740000 \<le> unat v)" .
  then show ?thesis
    by (auto simp: actVerifierCheckSystemFw_def rv word_le_nat_alt word_less_nat_alt)
qed

text \<open>The steps of the two main functions that always go through: the swaps and the codes.\<close>

lemma act_lengths:
  assumes "act_contract Q"
  shows "length (ak_sha256 Q bs) = 32" "length (ak_rsa_mod_power Q k f bs n e) = length bs"
    "length (ak_cbc_dec Q bs key iv) = length bs"
    "ak_nvs_read Q k off m = (r, data, k') \<Longrightarrow> length data \<le> unat m"
    "sce_read (act_io Q) fd m buf k = (r, buf', k') \<Longrightarrow> unat m \<le> length buf \<Longrightarrow> length buf' = length buf"
proof -
  show "length data \<le> unat m" if "ak_nvs_read Q k off m = (r, data, k')"
    using assms that unfolding act_contract_def by (metis fst_conv snd_conv)
  show "length buf' = length buf" if "sce_read (act_io Q) fd m buf k = (r, buf', k')" "unat m \<le> length buf"
  proof -
    have "length (fst (snd (io_read (act_io Q) k fd m))) \<le> unat m"
      using assms unfolding act_contract_def by blast
    then show ?thesis using that by (auto simp: sce_read_def split: prod.splits)
  qed
qed (use assms in \<open>auto simp: act_contract_def\<close>)

lemma act_read_lengths:
  assumes "act_contract Q" "actVerifierReadActData Q a b k = (r, a', b', k')"
    "length a = 0x80" "length b = 0x100"
  shows "length a' = 0x80 \<and> length b' = 0x100"
  using assms(2-4) act_lengths(5) [OF assms(1)]
  by (auto simp: actVerifierReadActData_def Let_def split: prod.splits if_splits)

lemma act_codes:
  "\<not> failed (actVerifierCheckSystemFw Q k) \<Longrightarrow> actVerifierCheckSystemFw Q k = 0"
  "actVerifierReadActData Q a b k = (r, a', b', k') \<Longrightarrow> \<not> failed r \<Longrightarrow> r = 0"
  by (auto simp: actVerifierCheckSystemFw_def actVerifierReadActData_def Let_def
      split: prod.splits if_splits)

text \<open>The main function as one chain of checks, when the reads gave \<open>raw\<close>, \<open>sig\<close> and \<open>data\<close>.\<close>

definition act_decrypted :: "'k act_kernel \<Rightarrow> u8 list \<Rightarrow> u8 list" where
  "act_decrypted Q raw = take 0x40 raw @ ak_cbc_dec Q (drop 0x40 raw) act_aes_key_key act_aes_key_iv"

abbreviation act_mac :: "'c sce_aes \<Rightarrow> u8 list \<Rightarrow> u8 list \<Rightarrow> u8 list" where
  "act_mac A key m \<equiv> rfc4493_cmac (aes_encrypt A (snd (aes_init A 128 256 key))) m"

lemma actVerifierMain_run:
  assumes Q: "act_contract Q" and A: "aes_contract A"
    and o: "ak_get_offset Q k (ak_search_module Q k ''SceNpDrm'') 0 (0xEDD4 OR 1) = (m, f)"
    and rd: "actVerifierReadActData Q (replicate 0x80 0) (replicate 0x100 0) k = (r, raw, sig, k1)"
    and nv: "ak_nvs_read Q k1 0x520 0x20 = (nr, data, k2)"
  shows "actVerifierMain Q A k =
    (let z = replicate 0x20 0; act = act_decrypted Q raw; nvs = overwrite 0 data z in
     if failed (actVerifierCheckSystemFw Q k) then Some (actVerifierCheckSystemFw Q k, replicate 0x80 0, z, k)
     else if failed (ak_search_module Q k ''SceNpDrm'')
     then Some (ak_search_module Q k ''SceNpDrm'', replicate 0x80 0, z, k)
     else if failed m then Some (m, replicate 0x80 0, z, k)
     else if failed r then Some (r, raw, z, k1)
     else if ak_sha256 Q raw \<noteq> rev (take 32 (ak_rsa_mod_power Q k1 f (rev sig) act_rsa_n act_rsa_e))
     then Some (-1, raw, z, k1)
     else if drop 0x70 act \<noteq> act_mac A act_aes_key_key (take 0x70 act) then Some (-1, act, z, k1)
     else if failed nr then Some (nr, act, z, k2)
     else if drop 0x10 nvs \<noteq> act_mac A act_aes_cmac_key (take 0x10 nvs) then Some (-1, act, nvs, k2)
     else Some (0, act, nvs, k2))"
proof -
  have len: "length raw = 0x80" "length sig = 0x100" using act_read_lengths [OF Q rd] by simp_all
  let ?sig = "ak_rsa_mod_power Q k1 f (rev sig) act_rsa_n act_rsa_e"
  have s1: "swap_bytes sig 0x100 = Some (rev sig)" using swap_bytes_eq [of sig "0x100"] len by simp
  have s2: "swap_bytes ?sig 0x20 = Some (rev (take 32 ?sig) @ drop 32 ?sig)"
    using swap_bytes_eq [of ?sig "0x20"] len by (simp add: act_lengths(2) [OF Q])
  have t2: "take 0x20 (rev (take 32 ?sig) @ drop 32 ?sig) = rev (take 32 ?sig)"
    using len by (simp add: act_lengths(2) [OF Q] min_def)
  define act where "act = take 0x40 raw @ ak_cbc_dec Q (drop 0x40 raw) act_aes_key_key act_aes_key_iv"
  have la: "length act = 0x80" using len by (simp add: act_def act_lengths(3) [OF Q])
  have c1: "actVerifierAes256cmac A act_aes_key_key act 0x70 = Some (act_mac A act_aes_key_key (take 0x70 act))"
    using cmac_rfc4493 [OF A, of "0x70" act act_aes_key_key] la by simp
  define nvs where "nvs = overwrite 0 data (replicate 0x20 (0 :: u8))"
  have ln: "length nvs = 0x20" using act_lengths(4) [OF Q nv] by (simp add: nvs_def)
  have c2: "actVerifierAes256cmac A act_aes_cmac_key nvs 0x10 = Some (act_mac A act_aes_cmac_key (take 0x10 nvs))"
    using cmac_rfc4493 [OF A, of "0x10" nvs act_aes_cmac_key] ln by simp
  show ?thesis
    unfolding actVerifierMain_def Let_def o rd case_prod_conv s1 s2 bind.bind_lunit t2 act_decrypted_def
      act_def [symmetric] c1 nv nvs_def [symmetric] c2 by (rule refl)
qed

text \<open>
  C16: \<open>actVerifierMain\<close> never faults, and it returns 0 only for genuine data: the SHA-256 of the
  file \<open>act.dat\<close> is the first 32 bytes, last byte first, of the signature raised to 65537; the last
  16 bytes of the data, its second half decrypted, are the RFC 4493 CMAC of the rest; and so for the
  block in the NVS.
\<close>

theorem actVerifierMain_verdict:
  assumes Q: "act_contract Q" and A: "aes_contract A"
  shows "\<exists>r act nvs k'. actVerifierMain Q A k = Some (r, act, nvs, k') \<and>
    (r = 0 \<longrightarrow> actVerifierCheckSystemFw Q k = 0 \<and>
      (\<exists>f raw sig k1. actVerifierReadActData Q (replicate 0x80 0) (replicate 0x100 0) k = (0, raw, sig, k1) \<and>
        ak_sha256 Q raw = rev (take 32 (ak_rsa_mod_power Q k1 f (rev sig) act_rsa_n act_rsa_e)) \<and>
        act = take 0x40 raw @ ak_cbc_dec Q (drop 0x40 raw) act_aes_key_key act_aes_key_iv \<and>
        drop 0x70 act = act_mac A act_aes_key_key (take 0x70 act) \<and>
        drop 0x10 nvs = act_mac A act_aes_cmac_key (take 0x10 nvs)))"
proof -
  obtain m f where o: "ak_get_offset Q k (ak_search_module Q k ''SceNpDrm'') 0 (0xEDD4 OR 1) = (m, f)"
    by force
  obtain r raw sig k1 where rd:
    "actVerifierReadActData Q (replicate 0x80 0) (replicate 0x100 0) k = (r, raw, sig, k1)"
    by (metis prod_cases4)
  obtain nr data k2 where nv: "ak_nvs_read Q k1 0x520 0x20 = (nr, data, k2)" by (metis prod_cases3)
  define act where "act = act_decrypted Q raw"
  define nvs where "nvs = overwrite 0 data (replicate 0x20 (0 :: u8))"
  note run = actVerifierMain_run [OF Q A o rd nv, unfolded Let_def, folded act_def nvs_def]
  then have "actVerifierMain Q A k \<noteq> None" by (simp split: if_splits)
  then obtain r' act' nvs' k' where R: "actVerifierMain Q A k = Some (r', act', nvs', k')" by auto
  have "actVerifierCheckSystemFw Q k = 0 \<and> r = 0 \<and>
      ak_sha256 Q raw = rev (take 32 (ak_rsa_mod_power Q k1 f (rev sig) act_rsa_n act_rsa_e)) \<and>
      act' = act \<and> nvs' = nvs \<and> drop 0x70 act = act_mac A act_aes_key_key (take 0x70 act) \<and>
      drop 0x10 nvs = act_mac A act_aes_cmac_key (take 0x10 nvs)" if "r' = 0"
    using R that act_codes(1) [of Q k] act_codes(2) [OF rd] unfolding run by (auto split: if_splits)
  then show ?thesis using R rd act_def [unfolded act_decrypted_def] by blast
qed

section \<open>np\_act\_verifier\<close>

lemma aes_dec_loop_blocks:
  assumes "aes_contract A"
  shows "16 * n \<le> length data \<Longrightarrow> \<exists>out. aes_dec_loop A ctx n data = Some out \<and>
    length out = length data \<and> drop (16 * n) out = drop (16 * n) data \<and>
    (\<forall>i < n. take 16 (drop (16 * i) out) = aes_decrypt A ctx (take 16 (drop (16 * i) data)))"
proof (induction n arbitrary: data)
  case (Suc n)
  let ?b = "aes_decrypt A ctx (take 16 data)"
  have b: "length ?b = 16" using assms Suc.prems by (simp add: aes_contract_def)
  obtain out where out: "aes_dec_loop A ctx n (drop 16 data) = Some out"
    "length out = length data - 16" "drop (16 * n) out = drop (16 * n + 16) data"
    "\<forall>i < n. take 16 (drop (16 * i) out) = aes_decrypt A ctx (take 16 (drop (16 * i + 16) data))"
  proof -
    have "16 * n \<le> length (drop 16 data)" using Suc.prems by simp
    from Suc.IH [OF this] show thesis using that by (auto simp: add.commute)
  qed
  have "take 16 (drop (16 * i) (?b @ out)) = aes_decrypt A ctx (take 16 (drop (16 * i) data))"
    if "i < Suc n" for i
    using that b out(4) by (cases i) (auto simp: add.commute)
  moreover have "aes_dec_loop A ctx (Suc n) data = Some (?b @ out)"
    using Suc.prems out(1) by (simp add: bytes_at_def)
  ultimately show ?case using b out(2,3) Suc.prems by (intro exI [of _ "?b @ out"]) (simp add: add.commute)
qed simp

text \<open>
  \<open>aes_dec\<close> decrypts each of the whole blocks of the size it is given on its own and leaves the
  rest of the data alone; a key that is refused leaves everything alone.
\<close>

theorem aes_dec_blocks:
  assumes "aes_contract A" "unat sz \<le> length data"
  shows "\<exists>r out. aes_dec A data sz key = Some (r, out) \<and> length out = length data \<and>
    (if failed (fst (aes_init A 128 128 key)) then out = data
     else r = 0 \<and> drop (16 * (unat sz div 16)) out = drop (16 * (unat sz div 16)) data \<and>
       (\<forall>i < unat sz div 16. take 16 (drop (16 * i) out) =
          aes_decrypt A (snd (aes_init A 128 128 key)) (take 16 (drop (16 * i) data))))"
proof -
  obtain r ctx where c: "aes_init A 128 128 key = (r, ctx)" by force
  have "mask 4 = (0x10 - 1 :: u32)" by (simp add: mask_eq_exp_minus_1)
  then have n: "unat (drop_bit 4 (sz AND NOT (0x10 - 1))) = unat sz div 16"
    using unat_and_not_mask [of sz 4] by (simp only: unat_drop) simp
  have "16 * (unat sz div 16) \<le> length data"
    using assms(2) by (meson le_trans times_div_less_eq_dividend)
  from aes_dec_loop_blocks [OF assms(1) this, of ctx] show ?thesis
    unfolding aes_dec_def c case_prod_conv Let_def n by auto
qed

text \<open>The verdict of the ECDSA check has no effect.\<close>

lemma np_ignores_ecdsa:
  "np_actVerifierMain (Q\<lparr>ak_ecdsa_verify := f\<rparr>) A k = np_actVerifierMain Q A k"
proof -
  have "actVerifierCheckSystemFw (Q\<lparr>ak_ecdsa_verify := f\<rparr>) k = actVerifierCheckSystemFw Q k"
    "np_actVerifierReadActData (Q\<lparr>ak_ecdsa_verify := f\<rparr>) a k = np_actVerifierReadActData Q a k" for a
    by (simp_all add: actVerifierCheckSystemFw_def np_actVerifierReadActData_def)
  moreover have "ak_search_module (Q\<lparr>ak_ecdsa_verify := f\<rparr>) = ak_search_module Q"
    "ak_get_offset (Q\<lparr>ak_ecdsa_verify := f\<rparr>) = ak_get_offset Q"
    "ak_words_at (Q\<lparr>ak_ecdsa_verify := f\<rparr>) = ak_words_at Q"
    "ak_bytes_at (Q\<lparr>ak_ecdsa_verify := f\<rparr>) = ak_bytes_at Q"
    "ak_sha256 (Q\<lparr>ak_ecdsa_verify := f\<rparr>) = ak_sha256 Q"
    "ak_rsa_mod_power (Q\<lparr>ak_ecdsa_verify := f\<rparr>) = ak_rsa_mod_power Q"
    by simp_all
  ultimately show ?thesis unfolding np_actVerifierMain_def Let_def by (simp only:)
qed

end
