(* ===== verification/Emmc_Dumper.thy ===== *)
theory Emmc_Dumper
  imports Sce_Io
begin

text \<open>
  \<open>kernel/emmc_dumper/src/main.c\<close> and \<open>kernel/idstorage_raw_dumper/src/main.c\<close>: raw partitions are
  copied from a block device to files.  The debug output, the LEDs and the display are left out.
\<close>

section \<open>emmc\_dumper\<close>

definition emmc_BUFFER_SIZE :: SceSize where "emmc_BUFFER_SIZE = 0x80000"

text \<open>
  The final \<open>return 0\<close> is the source's: the code of the copy is lost.
\<close>

definition emmc_write_file_from_fd ::
    "'k sce_io \<Rightarrow> s32 \<Rightarrow> string \<Rightarrow> SceSize \<Rightarrow> u8 list \<Rightarrow> 'k \<Rightarrow> s32 \<times> u8 list \<times> 'k" where
  "emmc_write_file_from_fd IO read_fd path sz buf k =
     (let (fd, k) = io_open IO k path (SCE_O_WRONLY IO OR SCE_O_CREAT IO OR SCE_O_TRUNC IO) 438 in
      if failed fd then (fd, buf, k)
      else let (res, k) = io_chstat_size IO k fd (ucast sz) in
        if failed res then (res, buf, snd (io_close IO k fd))
        else let (_, k) = io_lseek IO k fd 0 (SCE_SEEK_SET IO);
                 (res, buf, k) = copy_loop IO emmc_BUFFER_SIZE read_fd fd sz buf k
          in (0, buf, close_fd IO fd k))"

definition emmc_part_dump ::
    "'k sce_io \<Rightarrow> string \<Rightarrow> string \<Rightarrow> u8 list \<Rightarrow> 'k \<Rightarrow> s32 \<times> u8 list \<times> 'k" where
  "emmc_part_dump IO device dst_path buf k =
     (let (fd, k) = io_open IO k device (SCE_O_RDONLY IO) 511 in
      if failed fd then (-1, buf, k)
      else let (device_size, k) = io_lseek IO k fd 0 (SCE_SEEK_END IO) in
        if device_size <s 0 then (ucast device_size, buf, close_fd IO fd k)
        else if 0xFFFFFFFF <s device_size then (-1, buf, close_fd IO fd k)
        else let (_, k) = io_lseek IO k fd 0 (SCE_SEEK_SET IO);
                 (res, buf, k) = emmc_write_file_from_fd IO fd dst_path (ucast device_size) buf k
          in (res, buf, close_fd IO fd k))"

text \<open>\<open>th_wait\<close> runs the thread to its end; a failing call gives -1.\<close>

definition run_on_thread :: "'k sce_thread \<Rightarrow> 'k \<Rightarrow> s32 \<times> 'k" where
  "run_on_thread T k =
     (let (uid, k) = th_create T k;
          (ret, k) =
            (if failed uid then (-1, k)
             else let (ret, k) = th_start T k uid in
               if failed ret then (-1, k)
               else let (ret, res, k) = th_wait T k uid in
                 if failed ret then (-1, k) else (res, k))
      in if 0 <s uid then (ret, snd (th_delete T k uid)) else (ret, k))"

text \<open>The partitions, in the order of \<open>emmc_dump_main\<close>: the name of the dump and the device.\<close>

definition emmc_parts :: "(string \<times> string) list" where
  "emmc_parts =
     [(''idstorage_part_raw.bin'', ''sdstor0:int-lp-ign-idstor''),
      (''slb2_raw_act.bin'', ''sdstor0:int-lp-act-sloader''),
      (''slb2_raw.bin'', ''sdstor0:int-lp-ign-sloader''),
      (''os0_raw_act.bin'', ''sdstor0:int-lp-act-os''),
      (''vs0_raw.bin'', ''sdstor0:int-lp-ign-vsh''),
      (''vd0_raw.bin'', ''sdstor0:int-lp-ign-vshdata''),
      (''tm0_raw.bin'', ''sdstor0:int-lp-ign-vtrm''),
      (''ur0_raw.bin'', ''sdstor0:int-lp-ign-user''),
      (''imc0_raw.bin'', ''sdstor0:int-lp-ign-userext''),
      (''ud0_raw.bin'', ''sdstor0:int-lp-ign-updater''),
      (''sa0_raw.bin'', ''sdstor0:int-lp-ign-sysdata''),
      (''pd0_raw.bin'', ''sdstor0:int-lp-ign-pidata''),
      (''nand_raw_act.bin'', ''sdstor0:int-lp-act-entire'')]"

text \<open>The step for one partition: a dump that exists is left alone.\<close>

definition emmc_dump_part ::
    "'k sce_io \<Rightarrow> string \<Rightarrow> string \<times> string \<Rightarrow> u8 list \<times> 'k \<Rightarrow> u8 list \<times> 'k" where
  "emmc_dump_part IO drv part st =
     (let (buf, k) = st;
          path = snprintf 0x40 (drv @ ''/'' @ fst part);
          (r, k) = io_getstat IO k path
      in if failed r
         then let (_, buf, k) = emmc_part_dump IO (snd part) path buf k in (buf, k)
         else (buf, k))"

definition emmc_dump_main ::
    "'k sce_io \<Rightarrow> 'k sce_thread \<Rightarrow> u8 list \<Rightarrow> 'k \<Rightarrow> s32 \<times> u8 list \<times> 'k" where
  "emmc_dump_main IO T buf k =
     (let drv = ''host0:'';
          (r, k) = io_getstat IO k drv;
          drv = (if failed r then ''sd0:'' else drv);
          (r, k) = io_getstat IO k drv;
          drv = (if failed r then ''ux0:'' else drv);
          drv = snprintf 0xF (drv @ ''/emmc'');
          (r, k) = io_getstat IO k drv;
          (bad, k) = (if failed r then let (r, k) = io_mkdir IO k drv 438 in (failed r, k) else (False, k))
      in if bad then (th_failed T, buf, k)
         else let (buf, k) = fold (emmc_dump_part IO drv) emmc_parts (buf, k) in (0, buf, k))"

section \<open>idstorage\_raw\_dumper\<close>

definition idraw_BUFFER_SIZE :: SceSize where "idraw_BUFFER_SIZE = 0x20000"

text \<open>Here the result of \<open>ksceIoOpen\<close> is not looked at before the copy.\<close>

definition idraw_write_file_from_fd ::
    "'k sce_io \<Rightarrow> s32 \<Rightarrow> string \<Rightarrow> SceSize \<Rightarrow> u8 list \<Rightarrow> 'k \<Rightarrow> s32 \<times> u8 list \<times> 'k" where
  "idraw_write_file_from_fd IO read_fd path sz buf k =
     (let (fd, k) = io_open IO k path (SCE_O_WRONLY IO OR SCE_O_CREAT IO OR SCE_O_TRUNC IO) 438;
          (res, buf, k) = copy_loop IO idraw_BUFFER_SIZE read_fd fd sz buf k
      in (0, buf, close_fd IO fd k))"

definition idraw_part_dump ::
    "'k sce_io \<Rightarrow> string \<Rightarrow> string \<Rightarrow> u8 list \<Rightarrow> 'k \<Rightarrow> s32 \<times> u8 list \<times> 'k" where
  "idraw_part_dump IO device dst_path buf k =
     (let (fd, k) = io_open IO k device (SCE_O_RDONLY IO) 511;
          (device_size, k) = io_lseek IO k fd 0 (SCE_SEEK_END IO)
      in if device_size <s 0 then (ucast device_size, buf, close_fd IO fd k)
         else if 0xFFFFFFFF <s device_size then (-1, buf, close_fd IO fd k)
         else let (_, k) = io_lseek IO k fd 0 (SCE_SEEK_SET IO);
                  (res, buf, k) = idraw_write_file_from_fd IO fd dst_path (ucast device_size) buf k
           in (res, buf, close_fd IO fd k))"

definition idstorage_dump_main ::
    "'k sce_io \<Rightarrow> 'k sce_thread \<Rightarrow> u8 list \<Rightarrow> 'k \<Rightarrow> s32 \<times> u8 list \<times> 'k" where
  "idstorage_dump_main IO T buf k =
     (let drv = ''host0:'';
          (r, k) = io_getstat IO k drv;
          drv = (if failed r then ''sd0:'' else drv);
          (r, k) = io_getstat IO k drv;
          drv = (if failed r then ''ux0:'' else drv);
          (r, k) = io_getstat IO k drv
      in if failed r then (th_failed T, buf, k)
         else let path = snprintf 0x40 (drv @ ''/idstorage_part_raw.bin'');
                  (r, k) = io_getstat IO k path
           in if failed r
              then let (_, buf, k) = idraw_part_dump IO ''sdstor0:int-lp-ign-idstor'' path buf k
                   in (0, buf, k)
              else (0, buf, k))"

section \<open>Properties\<close>


text \<open>
  Dumps that exist are not opened again: when every status query succeeds the whole run of
  \<open>emmc_dump_main\<close> returns 0 and consists of these queries.
\<close>

theorem emmc_dump_idempotent:
  assumes "\<And>k path. io_getstat IO k path = (0, q k)"
  shows "\<exists>n. emmc_dump_main IO T buf k = (0, buf, (q ^^ n) k)"
proof -
  have "fold (emmc_dump_part IO drv) ps (buf, k) = (buf, (q ^^ length ps) k)" for drv ps k
    by (induction ps arbitrary: k) (simp_all add: emmc_dump_part_def assms funpow_swap1)
  then show ?thesis
    by (intro exI [of _ "length emmc_parts + 3"])
      (simp add: emmc_dump_main_def assms Let_def funpow_add funpow_swap1 numeral_3_eq_3)
qed

end
