(* ===== verification/Slb2_Dumper.thy ===== *)
theory Slb2_Dumper
  imports Sce_Io
begin

text \<open>
  \<open>kernel/slb2_dumper/src/main.c\<close>: the boot loader partitions are dumped, their images hashed and
  taken apart.  The header is the 0x200 bytes that the code reads into \<open>slb2_header\<close>; a short read
  leaves the stack contents behind the bytes read, a parameter.
\<close>

definition slb2_BUFFER_SIZE :: SceSize where "slb2_BUFFER_SIZE = 0x20000"

record 'c sce_sha256 =
  sha_init :: 'c
  sha_update :: "'c \<Rightarrow> u8 list \<Rightarrow> 'c"
  sha_result :: "'c \<Rightarrow> u8 list"

section \<open>Files\<close>

definition slb2_write_file ::
    "'k sce_io \<Rightarrow> string \<Rightarrow> u8 list option \<Rightarrow> SceSize \<Rightarrow> 'k \<Rightarrow> s32 \<times> 'k" where
  "slb2_write_file IO path data sz k =
     (case data of None \<Rightarrow> (-1, k)
      | Some bs \<Rightarrow>
          if sz = 0 then (-1, k)
          else let (fd, k) = io_open IO k path (SCE_O_WRONLY IO OR SCE_O_CREAT IO OR SCE_O_TRUNC IO) 438 in
            if failed fd then (fd, k)
            else let (_, k) = io_write IO k fd (take (unat sz) bs); (_, k) = io_close IO k fd in (0, k))"

definition slb2_write_file_from_fd ::
    "'k sce_io \<Rightarrow> s32 \<Rightarrow> string \<Rightarrow> SceSize \<Rightarrow> u8 list \<Rightarrow> 'k \<Rightarrow> s32 \<times> u8 list \<times> 'k" where
  "slb2_write_file_from_fd IO read_fd path sz buf k =
     (let (fd, k) = io_open IO k path (SCE_O_WRONLY IO OR SCE_O_CREAT IO OR SCE_O_TRUNC IO) 438;
          (res, buf, k) = copy_loop IO slb2_BUFFER_SIZE read_fd fd sz buf k
      in (0, buf, close_fd IO fd k))"

section \<open>Hashing\<close>

definition hash_step ::
    "'k sce_io \<Rightarrow> 'c sce_sha256 \<Rightarrow> s32 \<Rightarrow> SceSize \<Rightarrow> 'c \<Rightarrow> u8 list \<Rightarrow> 'k \<Rightarrow> s32 \<times> 'c \<times> u8 list \<times> 'k" where
  "hash_step IO H read_fd n ctx buf k =
     (let (res, buf, k) = sce_read IO read_fd n buf k in
      if failed res then (res, ctx, buf, k)
      else if res \<noteq> n then (-1, ctx, buf, k)
      else (0, sha_update H ctx (take (unat n) buf), buf, k))"

function hash_loop ::
    "'k sce_io \<Rightarrow> 'c sce_sha256 \<Rightarrow> s32 \<Rightarrow> SceSize \<Rightarrow> 'c \<Rightarrow> u8 list \<Rightarrow> 'k \<Rightarrow> s32 \<times> 'c \<times> u8 list \<times> 'k" where
  "hash_loop IO H read_fd sz ctx buf k =
     (if slb2_BUFFER_SIZE \<le> sz
      then let (res, ctx, buf, k) = hash_step IO H read_fd slb2_BUFFER_SIZE ctx buf k in
           if res \<noteq> 0 then (res, ctx, buf, k)
           else hash_loop IO H read_fd (sz - slb2_BUFFER_SIZE) ctx buf k
      else if 0 < sz then hash_step IO H read_fd sz ctx buf k
      else (0, ctx, buf, k))"
  by pat_completeness auto
termination
  by (relation "measure (\<lambda>(IO, H, read_fd, sz, ctx, buf, k). unat sz)")
    (simp_all add: unat_minus_less slb2_BUFFER_SIZE_def)

declare hash_loop.simps [simp del]

text \<open>\<open>hash\<close> is only written on success.\<close>

definition get_sha256_from_fd ::
    "'k sce_io \<Rightarrow> 'c sce_sha256 \<Rightarrow> s32 \<Rightarrow> SceSize \<Rightarrow> u8 list \<Rightarrow> u8 list \<Rightarrow> 'k \<Rightarrow>
     s32 \<times> u8 list \<times> u8 list \<times> 'k" where
  "get_sha256_from_fd IO H read_fd sz hash buf k =
     (let (res, ctx, buf, k) = hash_loop IO H read_fd sz (sha_init H) buf k in
      if res \<noteq> 0 then (res, hash, buf, k) else (0, sha_result H ctx, buf, k))"

section \<open>The header\<close>

definition get32 :: "u8 list \<Rightarrow> nat \<Rightarrow> u32" where
  "get32 h off = le32 (h ! off) (h ! (off + 1)) (h ! (off + 2)) (h ! (off + 3))"

definition slb2_magic_ok :: "u8 list \<Rightarrow> bool" where
  "slb2_magic_ok h \<longleftrightarrow> take 4 h = bytes_of ''SLB2''"

definition slb2_file_count :: "u8 list \<Rightarrow> u32" where
  "slb2_file_count h = get32 h 0xC"

record SceSlb2Entry =
  se_sector_pos :: u32
  se_size :: u32
  se_file_name :: string

text \<open>
  \<open>entry[i]\<close> for the ten entries of the array, a fault beyond it.  The name is read as a C string,
  up to the first NUL; without one before the end of the header the read leaves the structure: a
  fault.
\<close>

definition c_string :: "u8 list \<Rightarrow> string option" where
  "c_string bs = (if 0 \<in> set bs then Some (chars_of (takeWhile (\<lambda>b. b \<noteq> 0) bs)) else None)"

definition slb2_entry :: "u8 list \<Rightarrow> nat \<Rightarrow> SceSlb2Entry option" where
  "slb2_entry h i =
     (if 10 \<le> i then None
      else let off = 0x20 + 0x30 * i in
        map_option (\<lambda>nm. \<lparr>se_sector_pos = get32 h off, se_size = get32 h (off + 4), se_file_name = nm\<rparr>)
          (c_string (drop (off + 0x10) h)))"

definition read_slb2_header :: "'k sce_io \<Rightarrow> s32 \<Rightarrow> u8 list \<Rightarrow> 'k \<Rightarrow> u8 list \<times> 'k" where
  "read_slb2_header IO fd junk k =
     (let (_, k) = io_lseek IO k fd 0 (SCE_SEEK_SET IO); (_, h, k) = sce_read IO fd 0x200 junk k
      in (h, k))"

section \<open>Taking an image apart\<close>

text \<open>The loop over the entries: \<open>n\<close> rounds are left, \<open>i\<close> is the counter.\<close>

fun extract_loop ::
    "'k sce_io \<Rightarrow> s32 \<Rightarrow> string \<Rightarrow> u8 list \<Rightarrow> nat \<Rightarrow> nat \<Rightarrow> u8 list \<Rightarrow> 'k \<Rightarrow> (u8 list \<times> 'k) option" where
  "extract_loop IO fd dst_dir h i 0 buf k = Some (buf, k)"
| "extract_loop IO fd dst_dir h i (Suc n) buf k = do {
     e \<leftarrow> slb2_entry h i;
     let path = snprintf 0x100 (dst_dir @ ''/'' @ se_file_name e);
     let (_, k) = io_lseek IO k fd (ucast (push_bit 9 (se_sector_pos e))) (SCE_SEEK_SET IO);
     let (_, buf, k) = slb2_write_file_from_fd IO fd path (se_size e) buf k;
     extract_loop IO fd dst_dir h (Suc i) n buf k
   }"

definition slb2_extraction ::
    "'k sce_io \<Rightarrow> u8 list \<Rightarrow> string \<Rightarrow> string \<Rightarrow> u8 list \<Rightarrow> 'k \<Rightarrow> (s32 \<times> u8 list \<times> 'k) option" where
  "slb2_extraction IO junk src_slb2 dst_dir buf k =
     (let (fd, k) = io_open IO k src_slb2 (SCE_O_RDONLY IO) 0 in
      if failed fd then Some (fd, buf, k)
      else let (h, k) = read_slb2_header IO fd junk k in
        if \<not> slb2_magic_ok h then Some (0, buf, close_fd IO fd k)
        else do {
          (buf, k) \<leftarrow> extract_loop IO fd dst_dir h 0 (unat (slb2_file_count h)) buf k;
          Some (0, buf, close_fd IO fd k)
        })"

text \<open>
  The size of the image, to the end of the last entry in whole sectors.  The index
  \<open>file_count - 1\<close> wraps around for an empty image.
\<close>

definition slb2_image_size :: "u8 list \<Rightarrow> SceSize option" where
  "slb2_image_size h =
     map_option (\<lambda>e. push_bit 9 (se_sector_pos e) + ((se_size e + 0x1FF) AND NOT 0x1FF))
       (slb2_entry h (unat (slb2_file_count h - 1)))"

definition slb2_check_sha256 ::
    "'k sce_io \<Rightarrow> 'c sce_sha256 \<Rightarrow> u8 list \<Rightarrow> u8 list \<Rightarrow> string \<Rightarrow> u8 list \<Rightarrow> 'k \<Rightarrow>
     (s32 \<times> u8 list \<times> 'k) option" where
  "slb2_check_sha256 IO H junk hash_junk src_slb2 buf k =
     (let (fd, k) = io_open IO k src_slb2 (SCE_O_RDONLY IO) 0 in
      if failed fd then Some (fd, buf, k)
      else let (h, k) = read_slb2_header IO fd junk k in
        if \<not> slb2_magic_ok h then Some (0, buf, close_fd IO fd k)
        else do {
          slb2_size \<leftarrow> slb2_image_size h;
          let (_, k) = io_lseek IO k fd 0 (SCE_SEEK_SET IO);
          let (_, hash, buf, k) = get_sha256_from_fd IO H fd slb2_size hash_junk buf k;
          let path = snprintf 0x100 (src_slb2 @ ''.sha256'');
          let (_, k) = slb2_write_file IO path (Some hash) 0x20 k;
          Some (0, buf, close_fd IO fd k)
        })"

section \<open>Dumping\<close>

definition slb2_dump ::
    "'k sce_io \<Rightarrow> string \<Rightarrow> string \<Rightarrow> u8 list \<Rightarrow> 'k \<Rightarrow> s32 \<times> u8 list \<times> 'k" where
  "slb2_dump IO device dst_path buf k =
     (let (fd, k) = io_open IO k device (SCE_O_RDONLY IO) 511;
          (device_size, k) = io_lseek IO k fd 0 (SCE_SEEK_END IO)
      in if device_size <s 0 then (ucast device_size, buf, close_fd IO fd k)
         else if 0xFFFFFFFF <s device_size then (-1, buf, close_fd IO fd k)
         else let (_, k) = io_lseek IO k fd 0 (SCE_SEEK_SET IO);
                  (res, buf, k) = slb2_write_file_from_fd IO fd dst_path (ucast device_size) buf k
           in (res, buf, close_fd IO fd k))"

text \<open>The two halves of \<open>slb2_dump_main\<close>, for the bank \<open>ina\<close> or \<open>act\<close>.\<close>

definition slb2_dump_bank ::
    "'k sce_io \<Rightarrow> string \<Rightarrow> string \<Rightarrow> u8 list \<times> 'k \<Rightarrow> u8 list \<times> 'k" where
  "slb2_dump_bank IO drv bank st =
     (let (buf, k) = st;
          path = snprintf 0x40 (drv @ ''/slb2_'' @ bank @ ''.bin'');
          (r, k) = io_getstat IO k path
      in if failed r
         then let (_, buf, k) = slb2_dump IO (''sdstor0:int-lp-'' @ bank @ ''-sloader'') path buf k in (buf, k)
         else (buf, k))"

definition slb2_extract_bank ::
    "'k sce_io \<Rightarrow> 'c sce_sha256 \<Rightarrow> u8 list \<Rightarrow> u8 list \<Rightarrow> string \<Rightarrow> string \<Rightarrow> u8 list \<times> 'k \<Rightarrow>
     (u8 list \<times> 'k) option" where
  "slb2_extract_bank IO H junk hash_junk drv bank st =
     (let (buf, k) = st;
          dir = snprintf 0x40 (drv @ ''/slb2_'' @ bank);
          (r, k) = io_getstat IO k dir
      in if failed r
         then do {
           let (_, k) = io_mkdir IO k dir 438;
           let path = snprintf 0x40 (drv @ ''/slb2_'' @ bank @ ''.bin'');
           (_, buf, k) \<leftarrow> slb2_check_sha256 IO H junk hash_junk path buf k;
           (_, buf, k) \<leftarrow> slb2_extraction IO junk path dir buf k;
           Some (buf, k)
         }
         else Some (buf, k))"

definition slb2_dump_main ::
    "'k sce_io \<Rightarrow> 'k sce_thread \<Rightarrow> 'c sce_sha256 \<Rightarrow> u8 list \<Rightarrow> u8 list \<Rightarrow> u8 list \<Rightarrow> 'k \<Rightarrow>
     (s32 \<times> u8 list \<times> 'k) option" where
  "slb2_dump_main IO T H junk hash_junk buf k =
     (let (r1, k) = io_getstat IO k ''host0:'';
          (r2, k) = (if failed r1 then io_getstat IO k ''sd0:'' else (0, k));
          (r3, k) = (if failed r1 \<and> failed r2 then io_getstat IO k ''ux0:'' else (0, k));
          drv = (if \<not> failed r1 then ''host0:'' else if \<not> failed r2 then ''sd0:'' else ''ux0:'')
      in if failed r1 \<and> failed r2 \<and> failed r3 then Some (th_failed T, buf, k)
         else do {
           let st = slb2_dump_bank IO drv ''act'' (slb2_dump_bank IO drv ''ina'' (buf, k));
           st \<leftarrow> slb2_extract_bank IO H junk hash_junk drv ''ina'' st;
           (buf, k) \<leftarrow> slb2_extract_bank IO H junk hash_junk drv ''act'' st;
           Some (0, buf, k)
         })"

section \<open>Properties\<close>

text \<open>Hashing in pieces is hashing the whole.\<close>

definition sha_contract :: "'c sce_sha256 \<Rightarrow> bool" where
  "sha_contract H \<longleftrightarrow> (\<forall>c. sha_update H c [] = c) \<and>
     (\<forall>c a b. sha_update H c (a @ b) = sha_update H (sha_update H c a) b)"

lemma hash_step_spec:
  assumes C: "io_contract IO view" and v: "view k fd = Some (bs, pos)" and n: "unat n \<le> length buf"
  obtains (fail) r buf' k' where "hash_step IO H fd n ctx buf k = (r, ctx, buf', k')" "failed r"
    | (ok) buf' k' where
      "hash_step IO H fd n ctx buf k = (0, sha_update H ctx (take (unat n) (drop pos bs)), buf', k')"
      "length buf' = length buf" "unat n \<le> length (drop pos bs)"
      "view k' fd = Some (bs, pos + unat n)"
  using C v
proof (cases rule: io_readE [where n = n])
  case (fail r data k')
  then show thesis by (intro that(1)) (simp_all add: hash_step_def sce_read_def)
next
  case (ok r data k')
  show thesis
  proof (cases "r = n")
    case True
    then have l: "length data = unat n" using ok(4) by simp
    then have le: "unat n \<le> length (drop pos bs)" using ok(5) by (metis length_take min.absorb_iff2)
    have "take (unat n) (overwrite 0 data buf) = data" using l by (simp add: overwrite_def)
    then show thesis using ok True l n le
      by (intro that(2) [of "overwrite 0 data buf" k']) (simp_all add: hash_step_def sce_read_def flip: ok(5))
  qed (use ok in \<open>intro that(1) [of "-1"], simp_all add: hash_step_def sce_read_def\<close>)
qed

lemma hash_loop_spec:
  assumes C: "io_contract IO view" and H: "sha_contract H"
  shows "view k fd = Some (bs, pos) \<Longrightarrow> 0x20000 \<le> length buf \<Longrightarrow>
    \<exists>r ctx' buf' k'. hash_loop IO H fd sz ctx buf k = (r, ctx', buf', k') \<and>
      (if r = 0 then ctx' = sha_update H ctx (take (unat sz) (drop pos bs)) \<and>
         unat sz \<le> length (drop pos bs) else failed r)"
proof (induction "unat sz" arbitrary: sz ctx buf k pos rule: less_induct)
  case less
  have B: "unat slb2_BUFFER_SIZE = 0x20000" "slb2_BUFFER_SIZE \<noteq> 0" by (simp_all add: slb2_BUFFER_SIZE_def)
  show ?case
  proof (cases "slb2_BUFFER_SIZE \<le> sz")
    case True
    have sz: "unat sz = 0x20000 + unat (sz - slb2_BUFFER_SIZE)"
      using True B by (simp add: unat_sub word_le_nat_alt)
    have "unat slb2_BUFFER_SIZE \<le> length buf" using less.prems(2) B by simp
    with C less.prems(1) show ?thesis
    proof (cases rule: hash_step_spec [where H = H and ctx = ctx])
      case (fail r buf' k')
      then show ?thesis using True by (subst hash_loop.simps) auto
    next
      case (ok buf' k')
      obtain r ctx2 buf2 k2 where 2: "hash_loop IO H fd (sz - slb2_BUFFER_SIZE)
            (sha_update H ctx (take 0x20000 (drop pos bs))) buf' k' = (r, ctx2, buf2, k2)"
        "if r = 0 then ctx2 = sha_update H (sha_update H ctx (take 0x20000 (drop pos bs)))
             (take (unat (sz - slb2_BUFFER_SIZE)) (drop (pos + 0x20000) bs)) \<and>
           unat (sz - slb2_BUFFER_SIZE) \<le> length (drop (pos + 0x20000) bs) else failed r"
        using less.hyps [OF unat_minus_less [OF B(2) True], of k' "pos + 0x20000" buf'
            "sha_update H ctx (take 0x20000 (drop pos bs))"] ok(2,4) less.prems(2) B(1) by auto
      have "sha_update H (sha_update H ctx (take 0x20000 (drop pos bs)))
             (take (unat (sz - slb2_BUFFER_SIZE)) (drop (pos + 0x20000) bs)) =
          sha_update H ctx (take (unat sz) (drop pos bs))"
        using H unfolding sz sha_contract_def take_add by (simp add: add.commute)
      moreover have "hash_loop IO H fd sz ctx buf k = (r, ctx2, buf2, k2)"
        using True ok(1) 2(1) B(1) by (subst hash_loop.simps) simp
      ultimately show ?thesis using 2(2) ok(3) sz B(1) by (auto split: if_splits)
    qed
  next
    case False
    show ?thesis
    proof (cases "sz = 0")
      case True
      then show ?thesis using False H by (subst hash_loop.simps) (simp add: sha_contract_def)
    next
      case sz: False
      have "unat sz \<le> length buf" using False less.prems(2) B by (simp add: word_le_nat_alt)
      with C less.prems(1) show ?thesis
        by (cases rule: hash_step_spec [where H = H and ctx = ctx])
          (use False sz in \<open>subst hash_loop.simps, auto simp: word_neq_0_conv\<close>)+
    qed
  qed
qed

text \<open>
  The digest of a window of an open file.  The call returns 0 only when the file has the whole
  window and every read was complete, and then \<open>hash\<close> is the digest of exactly these bytes;
  otherwise it returns an error and leaves \<open>hash\<close> as it was.
\<close>

theorem get_sha256_spec:
  assumes "io_contract IO view" "sha_contract H" "view k fd = Some (bs, pos)" "0x20000 \<le> length buf"
  shows "\<exists>r hash' buf' k'. get_sha256_from_fd IO H fd sz hash buf k = (r, hash', buf', k') \<and>
    (if r = 0 then hash' = sha_result H (sha_update H (sha_init H) (take (unat sz) (drop pos bs))) \<and>
       unat sz \<le> length (drop pos bs)
     else failed r \<and> hash' = hash)"
  using hash_loop_spec [OF assms, of sz "sha_init H"]
  by (auto simp: get_sha256_from_fd_def split: if_splits)

lemma extract_loop_faults:
  "extract_loop IO fd dst h i n buf k = None \<longleftrightarrow> (\<exists>j < n. slb2_entry h (i + j) = None)"
proof (induction n arbitrary: i buf k)
  case (Suc n)
  have split: "(\<exists>j < Suc n. P (i + j)) \<longleftrightarrow> P i \<or> (\<exists>j < n. P (Suc i + j))" for P :: "nat \<Rightarrow> bool"
    by (auto simp: less_Suc_eq_0_disj)
  show ?case
    unfolding split [of "\<lambda>x. slb2_entry h x = None"] using Suc by (cases "slb2_entry h i") (auto split: prod.splits)
qed simp

text \<open>
  C20: taking an image apart leaves its header, a fault, exactly when the image has the magic and
  claims more than the ten entries of the structure, or an entry among those counted whose name runs
  to the end of the header; no count is ever checked.
\<close>

theorem slb2_extraction_faults:
  assumes "io_open IO k src (SCE_O_RDONLY IO) 0 = (fd, k1)" "\<not> failed fd"
    and "read_slb2_header IO fd junk k1 = (h, k2)"
  shows "slb2_extraction IO junk src dst buf k = None \<longleftrightarrow>
    slb2_magic_ok h \<and> (10 < unat (slb2_file_count h) \<or>
      (\<exists>j < unat (slb2_file_count h). 0 \<notin> set (drop (0x20 + 0x30 * j + 0x10) h)))"
proof -
  have e: "slb2_entry h j = None \<longleftrightarrow> 10 \<le> j \<or> 0 \<notin> set (drop (0x20 + 0x30 * j + 0x10) h)" for j
    by (auto simp: slb2_entry_def c_string_def Let_def)
  have "extract_loop IO fd dst h 0 (unat (slb2_file_count h)) buf k2 = None \<longleftrightarrow>
      10 < unat (slb2_file_count h) \<or>
      (\<exists>j < unat (slb2_file_count h). 0 \<notin> set (drop (0x20 + 0x30 * j + 0x10) h))"
    unfolding extract_loop_faults e by (auto intro: exI [of _ 10])
  then show ?thesis using assms
    by (cases "extract_loop IO fd dst h 0 (unat (slb2_file_count h)) buf k2")
      (auto simp: slb2_extraction_def)
qed

end
