(* ===== verification/Sce_Log.thy ===== *)
theory Sce_Log
  imports Sce_Io
begin

text \<open>
  \<open>log.c\<close>, the buffered log of \<open>SceIofilemgrAnalysis\<close>, \<open>SceExfatfsAnalysis\<close> and \<open>SceSdstorAnalysis\<close>
  (the same text in all three).  A message is the string that its format and arguments stand for;
  \<open>vsnprintf\<close> stores what fits of it and returns its whole length.
\<close>

definition LOG_BUFF_SIZE :: nat where "LOG_BUFF_SIZE = 0x400"
definition STRING_SIZE :: nat where "STRING_SIZE = 0x200"

record 'k log_state =
  log_fd :: s32
  log_pos :: SceSize
  log_buff :: "u8 list"
  log_kst :: 'k

definition LogIsOpened :: "'k log_state \<Rightarrow> s32" where
  "LogIsOpened s = (if failed (log_fd s) then 0 else if log_fd s = 0 then 0 else 1)"

definition LogOpen :: "'k sce_io \<Rightarrow> string \<Rightarrow> 'k log_state \<Rightarrow> s32 \<times> 'k log_state" where
  "LogOpen IO path s =
     (if log_fd s = 0
      then let (fd, k) = io_open IO (log_kst s) path (SCE_O_WRONLY IO OR SCE_O_CREAT IO OR SCE_O_APPEND IO) 438
           in (0, s\<lparr>log_fd := fd, log_pos := 0, log_kst := k\<rparr>)
      else (-1, s))"

text \<open>The write of the buffer and its clearing, as in \<open>LogWrite\<close> and \<open>LogClose\<close>.\<close>

definition log_flush :: "'k sce_io \<Rightarrow> 'k log_state \<Rightarrow> 'k log_state" where
  "log_flush IO s =
     (let n = unat (log_pos s); (_, k) = io_write IO (log_kst s) (log_fd s) (take n (log_buff s))
      in s\<lparr>log_buff := overwrite 0 (replicate n 0) (log_buff s), log_pos := 0, log_kst := k\<rparr>)"

text \<open>The array \<open>string\<close> after \<open>vsnprintf(string, sizeof(string) - 1, ...)\<close>.\<close>

definition log_string :: "u8 list \<Rightarrow> u8 list" where
  "log_string msg = (let t = take (STRING_SIZE - 2) msg in t @ replicate (STRING_SIZE - length t) 0)"

text \<open>The copy reads \<open>len\<close> bytes of \<open>string\<close> and stores them in the buffer; outside either is a fault.\<close>

definition LogWrite :: "'k sce_io \<Rightarrow> u8 list \<Rightarrow> 'k log_state \<Rightarrow> (s32 \<times> 'k log_state) option" where
  "LogWrite IO msg s =
     (if 0 <s log_fd s
      then let len = word_of_nat (length msg) :: s32;
               s = (if word_of_nat LOG_BUFF_SIZE \<le> log_pos s + len then log_flush IO s else s)
           in if STRING_SIZE < unat len \<or> LOG_BUFF_SIZE < unat (log_pos s) + unat len then None
              else Some (0, s\<lparr>log_buff := overwrite (unat (log_pos s)) (take (unat len) (log_string msg)) (log_buff s),
                              log_pos := log_pos s + len\<rparr>)
      else Some (0, s))"

definition LogClose :: "'k sce_io \<Rightarrow> 'k log_state \<Rightarrow> s32 \<times> 'k log_state" where
  "LogClose IO s =
     (if 0 <s log_fd s
      then let s = (if log_pos s \<noteq> 0 then log_flush IO s else s);
               (_, k) = io_close IO (log_kst s) (log_fd s)
           in (0, s\<lparr>log_fd := 0, log_kst := k\<rparr>)
      else (0, s))"

section \<open>The log as a byte stream\<close>

text \<open>
  \<open>out k fd\<close> is what was written to the file; writes to the log file are complete.  The abstract
  log is the file followed by the used part of the buffer.
\<close>

definition append_contract :: "'k sce_io \<Rightarrow> ('k \<Rightarrow> u8 list) \<Rightarrow> bool" where
  "append_contract IO out \<longleftrightarrow> (\<forall>k fd d. out (snd (io_write IO k fd d)) = out k @ d) \<and>
     (\<forall>k fd. out (snd (io_close IO k fd)) = out k) \<and>
     (\<forall>k path fl md. out (snd (io_open IO k path fl md)) = out k)"

definition log_ok :: "'k log_state \<Rightarrow> bool" where
  "log_ok s \<longleftrightarrow> 0 <s log_fd s \<and> length (log_buff s) = LOG_BUFF_SIZE \<and> unat (log_pos s) < LOG_BUFF_SIZE"

definition log_bytes :: "('k \<Rightarrow> u8 list) \<Rightarrow> 'k log_state \<Rightarrow> u8 list" where
  "log_bytes out s = out (log_kst s) @ take (unat (log_pos s)) (log_buff s)"

lemma log_flush_ok:
  assumes "append_contract IO out" "log_ok s"
  shows "log_ok (log_flush IO s)" "log_bytes out (log_flush IO s) = log_bytes out s"
    "log_pos (log_flush IO s) = 0" "log_fd (log_flush IO s) = log_fd s"
  using assms
  by (auto simp: log_flush_def log_ok_def log_bytes_def append_contract_def split_beta LOG_BUFF_SIZE_def Let_def)

lemma log_string_small: "length msg \<le> 0x1FE \<Longrightarrow> take (length msg) (log_string msg) = msg"
  by (simp add: log_string_def STRING_SIZE_def Let_def)

lemma log_write_ok:
  assumes A: "append_contract IO out" and s: "log_ok s" and m: "length msg \<le> 0x1FE"
  shows "\<exists>s'. LogWrite IO msg s = Some (0, s') \<and> log_ok s' \<and> log_bytes out s' = log_bytes out s @ msg"
proof -
  let ?len = "word_of_nat (length msg) :: s32"
  have len: "unat ?len = length msg" using m by (simp add: unsigned_of_nat take_bit_nat_eq_self_iff)
  have store: "\<exists>s2. (if STRING_SIZE < unat ?len \<or> LOG_BUFF_SIZE < unat (log_pos s1) + unat ?len then None
        else Some (0, s1\<lparr>log_buff := overwrite (unat (log_pos s1)) (take (unat ?len) (log_string msg)) (log_buff s1),
                         log_pos := log_pos s1 + ?len\<rparr>)) = Some (0 :: s32, s2) \<and>
      log_ok s2 \<and> log_bytes out s2 = log_bytes out s1 @ msg"
    if s1: "log_ok s1" "unat (log_pos s1) + length msg < LOG_BUFF_SIZE" for s1
  proof -
    have p: "unat (log_pos s1 + ?len) = unat (log_pos s1) + length msg"
      using s1(2) len by (subst unat_add_lem [THEN iffD1]) (simp_all add: LOG_BUFF_SIZE_def)
    have l: "length (log_buff s1) = LOG_BUFF_SIZE" using s1(1) by (simp add: log_ok_def)
    have "take (unat (log_pos s1) + length msg) (overwrite (unat (log_pos s1)) msg (log_buff s1)) =
        take (unat (log_pos s1)) (log_buff s1) @ msg"
      using l s1(2) by (simp add: overwrite_def)
    then show ?thesis using s1 l m p len log_string_small [OF m]
      by (simp add: log_ok_def log_bytes_def STRING_SIZE_def LOG_BUFF_SIZE_def)
  qed
  have fd: "0 <s log_fd s" using s by (simp add: log_ok_def)
  have cmp: "word_of_nat LOG_BUFF_SIZE \<le> log_pos s + ?len \<longleftrightarrow> LOG_BUFF_SIZE \<le> unat (log_pos s) + length msg"
  proof -
    have "unat (log_pos s + ?len) = unat (log_pos s) + length msg"
      using s m len by (subst unat_add_lem [THEN iffD1]) (simp_all add: log_ok_def LOG_BUFF_SIZE_def)
    then show ?thesis by (simp add: word_le_nat_alt LOG_BUFF_SIZE_def)
  qed
  show ?thesis
  proof (cases "LOG_BUFF_SIZE \<le> unat (log_pos s) + length msg")
    case True
    note f = log_flush_ok [OF A s]
    have "unat (log_pos (log_flush IO s)) + length msg < LOG_BUFF_SIZE"
      using f(3) m by (simp add: LOG_BUFF_SIZE_def)
    from store [OF f(1) this] show ?thesis
      unfolding LogWrite_def Let_def if_P [OF fd] cmp if_P [OF True] f(2) .
  next
    case False
    from store [OF s] show ?thesis
      using False unfolding LogWrite_def Let_def if_P [OF fd] cmp if_not_P [OF False] by simp
  qed
qed

text \<open>Messages in a row.\<close>

fun log_all :: "'k sce_io \<Rightarrow> u8 list list \<Rightarrow> 'k log_state \<Rightarrow> 'k log_state option" where
  "log_all IO [] s = Some s"
| "log_all IO (m # ms) s = Option.bind (LogWrite IO m s) (\<lambda>(_, s). log_all IO ms s)"

lemma log_all_ok:
  assumes "append_contract IO out"
  shows "log_ok s \<Longrightarrow> \<forall>m \<in> set ms. length m \<le> 0x1FE \<Longrightarrow>
    \<exists>s'. log_all IO ms s = Some s' \<and> log_ok s' \<and> log_bytes out s' = log_bytes out s @ concat ms"
proof (induction ms arbitrary: s)
  case (Cons m ms)
  from Cons.prems obtain s1 where 1: "LogWrite IO m s = Some (0, s1)" "log_ok s1"
    "log_bytes out s1 = log_bytes out s @ m"
    using log_write_ok [OF assms, of s m] by auto
  then show ?case using Cons.IH [OF 1(2)] Cons.prems by auto
qed simp

lemma log_close_ok:
  assumes A: "append_contract IO out" and s: "log_ok s"
  shows "out (log_kst (snd (LogClose IO s))) = log_bytes out s" "log_fd (snd (LogClose IO s)) = 0"
proof -
  have fd: "0 <s log_fd s" using s by (simp add: log_ok_def)
  have "out (log_kst (snd (LogClose IO s))) = log_bytes out s \<and> log_fd (snd (LogClose IO s)) = 0"
  proof (cases "log_pos s = 0")
    case True
    then show ?thesis using fd A by (simp add: LogClose_def log_bytes_def append_contract_def split_beta)
  next
    case False
    note f = log_flush_ok [OF A s]
    have "log_bytes out (log_flush IO s) = out (log_kst (log_flush IO s))" using f(3) by (simp add: log_bytes_def)
    then show ?thesis using fd A False f(2) by (simp add: LogClose_def append_contract_def split_beta Let_def)
  qed
  then show "out (log_kst (snd (LogClose IO s))) = log_bytes out s" "log_fd (snd (LogClose IO s)) = 0"
    by simp_all
qed

text \<open>
  C26: a session of the log.  After \<open>LogOpen\<close> got a file, any number of messages of at most 0x1FE
  bytes each, and \<open>LogClose\<close>, exactly the messages in their order have been written; no step faults.
  A message longer than the array \<open>string\<close> is copied past its end, a fault, since the length that
  \<open>vsnprintf\<close> returns is not checked.
\<close>

theorem log_session:
  assumes A: "append_contract IO out" and s: "log_fd s = 0" "length (log_buff s) = LOG_BUFF_SIZE"
    and o: "LogOpen IO path s = (0, s1)" "0 <s log_fd s1" and m: "\<forall>m \<in> set ms. length m \<le> 0x1FE"
  shows "(\<exists>s2. log_all IO ms s1 = Some s2 \<and>
      out (log_kst (snd (LogClose IO s2))) = out (log_kst s) @ concat ms \<and> log_fd (snd (LogClose IO s2)) = 0) \<and>
    (\<forall>msg. STRING_SIZE < length msg \<longrightarrow> length msg < 2 ^ 31 \<longrightarrow> LogWrite IO msg s1 = None)"
proof -
  obtain fd k where fk: "io_open IO (log_kst s) path (SCE_O_WRONLY IO OR SCE_O_CREAT IO OR SCE_O_APPEND IO) 438
      = (fd, k)" by force
  then have s1: "s1 = s\<lparr>log_fd := fd, log_pos := 0, log_kst := k\<rparr>" using o(1) s(1) by (simp add: LogOpen_def)
  have "out k = out (log_kst s)" using A fk unfolding append_contract_def by (metis snd_conv)
  then have b: "log_bytes out s1 = out (log_kst s)" by (simp add: s1 log_bytes_def)
  have ok: "log_ok s1" using o(2) s(2) by (simp add: s1 log_ok_def LOG_BUFF_SIZE_def)
  obtain s2 where 2: "log_all IO ms s1 = Some s2" "log_ok s2" "log_bytes out s2 = out (log_kst s) @ concat ms"
    using log_all_ok [OF A ok m] b by auto
  have "out (log_kst (snd (LogClose IO s2))) = log_bytes out s2 \<and> log_fd (snd (LogClose IO s2)) = 0"
    using log_close_ok [OF A 2(2)] by simp
  moreover have "LogWrite IO msg s1 = None" if "STRING_SIZE < length msg" "length msg < 2 ^ 31" for msg
  proof -
    have "unat (word_of_nat (length msg) :: s32) = length msg"
      using that(2) by (simp add: unsigned_of_nat take_bit_nat_eq_self_iff)
    then show ?thesis using that(1) o(2) by (simp add: LogWrite_def Let_def)
  qed
  ultimately show ?thesis using 2 by auto
qed

end
