(* ===== verification/Sample_Tools.thy ===== *)
theory Sample_Tools
  imports Act_Verifier Emmc_Dumper Slb2_Dumper Sce_Log
begin

text \<open>
  A concrete kernel for the tools, and their properties applied to it: a table of open files, a block
  cipher, a digest and the functions of the verifiers that meet the contracts.
\<close>

section \<open>Files\<close>

type_synonym file_table = "s32 \<Rightarrow> (u8 list \<times> nat) option"

definition t_read :: "file_table \<Rightarrow> s32 \<Rightarrow> SceSize \<Rightarrow> s32 \<times> u8 list \<times> file_table" where
  "t_read k fd n = (case k fd of None \<Rightarrow> (-1, [], k)
     | Some (bs, pos) \<Rightarrow> let data = take (min (unat n) 0x7FFFFFFF) (drop pos bs)
                      in (word_of_nat (length data), data, k(fd \<mapsto> (bs, pos + length data))))"

definition t_write :: "file_table \<Rightarrow> s32 \<Rightarrow> u8 list \<Rightarrow> s32 \<times> file_table" where
  "t_write k fd d = (case k fd of None \<Rightarrow> (-1, k)
     | Some (bs, pos) \<Rightarrow> let d = take 0x7FFFFFFF d
                      in (word_of_nat (length d), k(fd \<mapsto> (overwrite pos d bs, pos + length d))))"

definition IO0 :: "file_table sce_io" where
  "IO0 = \<lparr>io_open = \<lambda>k path fl md. if k 2 = None then (2, k(2 \<mapsto> ([], 0))) else (-1, k),
     io_read = t_read, io_write = t_write,
     io_lseek = \<lambda>k fd off whence. (off, case k fd of None \<Rightarrow> k | Some (bs, _) \<Rightarrow> k(fd \<mapsto> (bs, unat off))),
     io_close = \<lambda>k fd. (0, k(fd := None)),
     io_getstat = \<lambda>k path. (0, k), io_mkdir = \<lambda>k path md. (0, k),
     io_chstat_size = \<lambda>k fd sz. (0, case k fd of None \<Rightarrow> k
       | Some (bs, pos) \<Rightarrow> k(fd \<mapsto> (take (unat sz) bs @ replicate (unat sz - length bs) 0, pos))),
     SCE_O_RDONLY = 1, SCE_O_WRONLY = 2, SCE_O_RDWR = 3, SCE_O_CREAT = 0x200, SCE_O_TRUNC = 0x400,
     SCE_O_APPEND = 0x100, SCE_SEEK_SET = 0, SCE_SEEK_END = 2\<rparr>"

lemma small_result:
  assumes "n \<le> 0x7FFFFFFF"
  shows "unat (word_of_nat n :: s32) = n" "\<not> failed (word_of_nat n)"
proof -
  show u: "unat (word_of_nat n :: s32) = n"
    using assms by (simp add: unsigned_of_nat take_bit_nat_eq_self_iff)
  have "\<not> bit n 31" using assms by (simp add: bit_iff_odd)
  then show "\<not> failed (word_of_nat n)" by (simp add: failed_iff_bit bit_simps)
qed

lemma IO0_contract: "io_contract IO0 (\<lambda>k. k)"
proof -
  have "length (take (min (unat n) 0x7FFFFFFF) xs) \<le> 0x7FFFFFFF" for n :: SceSize and xs :: "u8 list"
    by simp
  note small = small_result [OF this]
  have "length (take 0x7FFFFFFF xs) \<le> 0x7FFFFFFF" for xs :: "u8 list" by simp
  note small2 = small_result [OF this]
  have "take (length (take 0x7FFFFFFF d)) d = take 0x7FFFFFFF d" for d :: "u8 list"
    by (simp add: min_def)
  note tk = this
  show ?thesis
    unfolding io_contract_def
  proof (intro conjI allI impI)
    fix k :: file_table and fd and n :: SceSize and bs pos assume v: "k fd = Some (bs, pos)"
    let ?d = "take (min (unat n) 0x7FFFFFFF) (drop pos bs)"
    have "t_read k fd n = (word_of_nat (length ?d), ?d, k(fd \<mapsto> (bs, pos + length ?d)))"
      using v by (simp add: t_read_def Let_def)
    moreover have "?d = take (length ?d) (drop pos bs)" by (simp add: min_def)
    ultimately show "\<exists>r data k'. io_read IO0 k fd n = (r, data, k') \<and> length data \<le> unat n \<and>
        (if failed r then k' = k
         else unat r = length data \<and> data = take (length data) (drop pos bs) \<and>
              k' = k(fd \<mapsto> (bs, pos + length data)))"
      using small [of n "drop pos bs"]
      by (intro exI [of _ "word_of_nat (length ?d)"] exI [of _ ?d] exI [of _ "k(fd \<mapsto> (bs, pos + length ?d))"])
        (simp only: IO0_def sce_io.simps if_False simp_thms, simp)
  next
    fix k :: file_table and fd and d :: "u8 list" and bs pos assume v: "k fd = Some (bs, pos)"
    let ?d = "take 0x7FFFFFFF d"
    have "t_write k fd d = (word_of_nat (length ?d), k(fd \<mapsto> (overwrite pos ?d bs, pos + length ?d)))"
      using v by (simp add: t_write_def Let_def)
    then show "\<exists>r k'. io_write IO0 k fd d = (r, k') \<and>
        (if failed r then k' = k
         else unat r \<le> length d \<and>
              k' = k(fd \<mapsto> (overwrite pos (take (unat r) d) bs, pos + unat r)))"
      using small2 [of d] tk [of d]
      by (intro exI [of _ "word_of_nat (length ?d)"]
            exI [of _ "k(fd \<mapsto> (overwrite pos ?d bs, pos + length ?d))"])
        (simp only: IO0_def sce_io.simps if_False simp_thms, simp)
  qed
qed

lemma IO0_file_contract: "file_contract IO0 (\<lambda>k. k)"
  unfolding file_contract_def by (auto simp: IO0_def failed_def word_sless_alt)

text \<open>File 7 holds three bytes, the second is next.\<close>

definition k0 :: file_table where "k0 = [7 \<mapsto> ([1, 2, 3], 1)]"


definition T0 :: "file_table sce_thread" where
  "T0 = \<lparr>th_create = \<lambda>k. (0x40, k), th_start = \<lambda>k u. (0, k), th_wait = \<lambda>k u. (0, 0, k),
     th_delete = \<lambda>k u. (0, k), th_success = 0, th_failed = 1\<rparr>"

lemma emmc_dump_idempotent_witness:
  "\<exists>n. emmc_dump_main IO0 T0 [] k0 = (0, [], (id ^^ n) k0)"
  by (rule emmc_dump_idempotent) (simp add: IO0_def)

section \<open>Digests\<close>

text \<open>The digest of the samples keeps all the bytes.\<close>

definition H0 :: "u8 list sce_sha256" where
  "H0 = \<lparr>sha_init = [], sha_update = (@), sha_result = \<lambda>c. c\<rparr>"

lemma get_sha256_spec_witness:
  "\<exists>r hash' buf' k'. get_sha256_from_fd IO0 H0 7 2 [9] (replicate 0x20000 0) k0 = (r, hash', buf', k') \<and>
    (if r = 0 then hash' = [2, 3] else failed r \<and> hash' = [9])"
proof -
  have "sha_contract H0" by (simp add: sha_contract_def H0_def)
  from get_sha256_spec [OF IO0_contract this, of k0 7 "[1, 2, 3]" 1 "replicate 0x20000 0" 2 "[9]"]
  show ?thesis by (simp add: k0_def H0_def split: if_splits cong: if_cong)
qed

text \<open>An image whose header claims eleven entries.\<close>

definition slb2_bad :: "u8 list" where
  "slb2_bad = bytes_of ''SLB2'' @ replicate 8 0 @ [11, 0, 0, 0] @ replicate 0x1F0 0"

lemma slb2_extraction_faults_witness:
  "slb2_extraction IO0 slb2_bad ''a'' ''b'' [] k0 = None"
proof -
  have r: "read_slb2_header IO0 2 slb2_bad (k0(2 \<mapsto> ([], 0))) = (slb2_bad, k0(2 \<mapsto> ([], 0)))"
    by (simp add: read_slb2_header_def sce_read_def IO0_def t_read_def)
  have c: "slb2_magic_ok slb2_bad" "unat (slb2_file_count slb2_bad) = 11"
    by (simp_all add: slb2_magic_ok_def slb2_bad_def bytes_of_def slb2_file_count_def get32_def le32_def
        nth_append)
  have "io_open IO0 k0 ''a'' (SCE_O_RDONLY IO0) 0 = (2, k0(2 \<mapsto> ([], 0)))" "\<not> failed 2"
    by (simp_all add: IO0_def k0_def failed_def word_sless_alt)
  from slb2_extraction_faults [OF this r, of "''b''" "[]"] c show ?thesis by simp
qed

section \<open>The verifiers\<close>

text \<open>Every block is enciphered to zeros; the digest and the public-key operation likewise.\<close>

definition A0 :: "u8 list sce_aes" where
  "A0 = \<lparr>aes_init = \<lambda>bl kl key. (0, key), aes_encrypt = \<lambda>key b. replicate 16 0,
     aes_decrypt = \<lambda>key b. rev b\<rparr>"

definition Q0 :: "file_table act_kernel" where
  "Q0 = \<lparr>act_io = IO0, ak_fw_version = \<lambda>k. (0, 0x3650000), ak_search_module = \<lambda>k n. 1,
     ak_get_offset = \<lambda>k m seg off. (0, 0x1000 + off), ak_rsa_mod_power = \<lambda>k f bs n e. bs,
     ak_ecdsa_verify = \<lambda>k f h s. 0, ak_sha1 = \<lambda>bs. replicate 20 0, ak_sha256 = \<lambda>bs. replicate 32 0,
     ak_cbc_dec = \<lambda>bs key iv. bs, ak_nvs_read = \<lambda>k off n. (0, replicate (unat n) 0, k),
     ak_words_at = \<lambda>k a. [], ak_bytes_at = \<lambda>k a. [],
     act_START_NO_RESIDENT = 1, act_START_FAILED = 2\<rparr>"

lemma A0_contract: "aes_contract A0"
  by (simp add: aes_contract_def A0_def)

lemma Q0_contract: "act_contract Q0"
  by (auto simp: act_contract_def Q0_def IO0_def t_read_def Let_def split: option.splits)

lemma cmac_equals_rfc4493_witness:
  "actVerifierAes256cmac A0 [] (replicate 32 5) 32 =
    Some (rfc4493_cmac (\<lambda>b. replicate 16 0) (replicate 32 5))"
  using cmac_equals_rfc4493 [OF A0_contract, of "replicate 32 5" "[]"] by (simp add: A0_def)

lemma cmac_ignores_tail_witness:
  "actVerifierAes256cmac A0 [] (replicate 16 5 @ [1]) 17 = actVerifierAes256cmac A0 [] (replicate 16 5 @ [2]) 17"
  using cmac_ignores_tail [OF A0_contract, of 17 "replicate 16 5 @ [1]" "replicate 16 5 @ [2]" "[]"] by simp

lemma swap_reverses_witness:
  "swap_bytes [1, 2, 3, 4, 5, 6, 7, 8, 9, 10, 11, 12] 8 = Some [8, 7, 6, 5, 4, 3, 2, 1, 9, 10, 11, 12]"
  using swap_reverses [of "[1, 2, 3, 4, 5, 6, 7, 8, 9, 10, 11, 12]" 8] by simp

text \<open>With these parameters the verifier accepts.\<close>

lemma act_read0: "actVerifierReadActData Q0 (replicate 0x80 0) (replicate 0x100 0) (\<lambda>_. None) =
    (0, replicate 0x80 0, replicate 0x100 0, (\<lambda>_. None))"
proof -
  have s: "SCE_O_RDONLY IO0 = 1" "\<not> failed 2" by (simp_all add: IO0_def failed_def word_sless_alt)
  have "io_open IO0 (\<lambda>_. None) path fl md = (2, [2 \<mapsto> ([], 0)])" for path fl md
    by (simp add: IO0_def)
  moreover have "sce_read IO0 2 n buf [2 \<mapsto> ([], 0)] = (0, buf, [2 \<mapsto> ([], 0)])" for n buf
    by (simp add: sce_read_def IO0_def t_read_def)
  moreover have "io_close IO0 [2 \<mapsto> ([], 0)] 2 = (0, (\<lambda>_. None))" by (auto simp: IO0_def)
  moreover have "act_io Q0 = IO0" by (simp add: Q0_def)
  ultimately show ?thesis using s(2) by (simp only: actVerifierReadActData_def Let_def case_prod_conv if_False)
qed

lemma actVerifierMain_accepts:
  "\<exists>act nvs k'. actVerifierMain Q0 A0 (\<lambda>_. None) = Some (0, act, nvs, k')"
proof -
  have o: "ak_get_offset Q0 k m seg off = (0, 0x1000 + off)" "ak_search_module Q0 k nm = 1"
    "ak_nvs_read Q0 k1 off2 n = (0, replicate (unat n) 0, k1)"
    "ak_sha256 Q0 bs = replicate 32 0" "ak_rsa_mod_power Q0 k1 f bs nn e = bs"
    "act_decrypted Q0 (replicate 0x80 0) = replicate 0x80 0" for k m seg off nm k1 off2 n bs f nn e
    by (simp_all add: Q0_def act_decrypted_def flip: replicate_add)
  have fw: "actVerifierCheckSystemFw Q0 k = 0" for k by (simp add: actVerifierCheckSystemFw_def Q0_def)
  have mac: "act_mac A0 key m = replicate 16 0" for key m by (simp add: rfc4493_cmac_def A0_def)
  have "overwrite 0 (replicate 32 0) (replicate 32 (0 :: u8)) = replicate 32 0" by (simp add: overwrite_def)
  with actVerifierMain_run [OF Q0_contract A0_contract o(1) act_read0 o(3)] show ?thesis
    unfolding fw mac o Let_def by simp
qed

lemma actVerifierMain_verdict_witness:
  "\<exists>act nvs k'. actVerifierMain Q0 A0 (\<lambda>_. None) = Some (0, act, nvs, k') \<and>
    drop 0x70 act = act_mac A0 act_aes_key_key (take 0x70 act)"
  using actVerifierMain_verdict [OF Q0_contract A0_contract, of "\<lambda>_. None"] actVerifierMain_accepts
  by auto

lemma aes_dec_blocks_witness:
  "\<exists>out. aes_dec A0 (replicate 8 1 @ replicate 8 2 @ [3]) 0x11 [] = Some (0, out) \<and> drop 16 out = [3] \<and>
    take 16 out = replicate 8 2 @ replicate 8 1"
proof -
  have "unat (0x11 :: u32) \<le> length (replicate 8 1 @ replicate 8 2 @ [3 :: u8])" by simp
  from aes_dec_blocks [OF A0_contract this, of "[]"]
  show ?thesis by (auto simp: A0_def)
qed

section \<open>The log\<close>

text \<open>The state is what was written so far.\<close>

definition IOL :: "u8 list sce_io" where
  "IOL = \<lparr>io_open = \<lambda>k path fl md. (2, k), io_read = \<lambda>k fd n. (0, [], k),
     io_write = \<lambda>k fd d. (word_of_nat (length d), k @ d), io_lseek = \<lambda>k fd off whence. (0, k),
     io_close = \<lambda>k fd. (0, k), io_getstat = \<lambda>k path. (0, k), io_mkdir = \<lambda>k path md. (0, k),
     io_chstat_size = \<lambda>k fd sz. (0, k), SCE_O_RDONLY = 1, SCE_O_WRONLY = 2, SCE_O_RDWR = 3,
     SCE_O_CREAT = 0x200, SCE_O_TRUNC = 0x400, SCE_O_APPEND = 0x100, SCE_SEEK_SET = 0, SCE_SEEK_END = 2\<rparr>"

definition L0 :: "u8 list log_state" where
  "L0 = \<lparr>log_fd = 0, log_pos = 0, log_buff = replicate 0x400 0, log_kst = []\<rparr>"

lemma log_session_witness:
  "\<exists>s2. log_all IOL [[1, 2], [3]] (L0\<lparr>log_fd := 2\<rparr>) = Some s2 \<and> log_kst (snd (LogClose IOL s2)) = [1, 2, 3]"
proof -
  have A: "append_contract IOL (\<lambda>k. k)" by (simp add: append_contract_def IOL_def)
  have "log_fd L0 = 0" "length (log_buff L0) = LOG_BUFF_SIZE" "LogOpen IOL ''uma0:a'' L0 = (0, L0\<lparr>log_fd := 2\<rparr>)"
    "0 <s log_fd (L0\<lparr>log_fd := 2\<rparr>)" "\<forall>m \<in> set [[1, 2], [3 :: u8]]. length m \<le> 0x1FE"
    by (simp_all add: L0_def LOG_BUFF_SIZE_def LogOpen_def IOL_def word_sless_alt)
  from log_session [OF A this] show ?thesis by (auto simp: L0_def)
qed

end
