(* ===== verification/Old_Vfs.thy ===== *)
theory Old_Vfs
  imports Dmass_Types
begin

text \<open>
  \<open>kernel/SceVfsMountPoC_old\<close>, data and tools: \<open>fs_mgr.h\<close>, \<open>item_mgr.c\<close> (the list of open items,
  doubly linked, kept by the class callbacks) and \<open>fs_mgr.c\<close> (the tree of files, its walks and the
  creation of entries).  A callback pointer is a constructor naming the function, or \<open>None\<close> for NULL.
\<close>

section \<open>Structures\<close>

datatype open_cb = Open_map_mem1 | Open_module
datatype read_cb = Read_random | Read_map_mem1 | Read_map_conf1 | Read_kblparam | Read_module
datatype write_cb = Write_map_mem1 | Write_map_conf1 | Write_kblparam | Write_module
datatype stat_cb = Stat_map_mem1 | Stat_module
datatype dopen_cb = Dopen_module

record FileEntry =
  fe_next :: addr
  fe_next_dir :: addr
  fe_flags :: u32
  fe_open_allow_flags :: u32
  fe_name :: addr
  fe_stat :: addr
  fe_size :: SceOff
  fe_open_cb :: "open_cb option"
  fe_read_cb :: "read_cb option"
  fe_write_cb :: "write_cb option"
  fe_get_io_stat_cb :: "stat_cb option"
  fe_dopen_cb :: "dopen_cb option"
  fe_args_for_stat :: addr

record DataPack =
  dp_next :: addr
  dp_prev :: addr
  dp_uid :: s32
  dp_node :: addr
  dp_seek :: SceOff
  dp_size :: SceOff
  dp_dir_entry_root :: addr
  dp_dir_entry :: addr

record ModuleStat =
  ms_name :: addr
  ms_seg :: nat

text \<open>A block of the module's heap; \<open>ORaw\<close> is one not written yet.\<close>

datatype oobj = OFile FileEntry | OStat SceIoStat | OStr string | OMod ModuleStat | ORaw

record 'k old_state =
  oheap :: "addr \<Rightarrow> oobj option"
  packs :: "addr \<Rightarrow> DataPack option"
  onodes :: "addr \<Rightarrow> SceVfsNode option"
  last_obj :: addr
  root_node :: addr
  map_conf1_data :: "u8 list"
  okst :: 'k

text \<open>
  The kernel: its heap, UID objects, vnodes, modules, random numbers and memory.  A module's name is
  the string in \<open>module_name\<close>; \<open>om_segs\<close> gives start and size of its segments.
\<close>

record module_info =
  om_name :: string
  om_segs :: "nat \<Rightarrow> addr \<times> u32"

record 'k old_kernel =
  ok_alloc :: "'k \<Rightarrow> (addr \<Rightarrow> bool) \<Rightarrow> SceSize \<Rightarrow> addr \<times> 'k"
  ok_create_uid :: "'k \<Rightarrow> (addr \<Rightarrow> bool) \<Rightarrow> s32 \<times> addr \<times> 'k"
  ok_delete_uid :: "'k \<Rightarrow> s32 \<Rightarrow> s32 \<times> 'k"
  ok_new_node :: "'k \<Rightarrow> addr \<Rightarrow> (addr \<Rightarrow> bool) \<Rightarrow> s32 \<times> addr \<times> SceVfsNode \<times> 'k"
  ok_node_wait :: "'k \<Rightarrow> addr \<Rightarrow> 'k"
  ok_random :: "'k \<Rightarrow> nat \<Rightarrow> u8 list \<times> 'k"
  ok_mem_read :: "'k \<Rightarrow> addr \<Rightarrow> nat \<Rightarrow> u8 list"
  ok_mem_write :: "'k \<Rightarrow> addr \<Rightarrow> u8 list \<Rightarrow> 'k"
  ok_dcache_wb :: "'k \<Rightarrow> addr \<Rightarrow> SceSize \<Rightarrow> 'k"
  ok_dcache_wbinv :: "'k \<Rightarrow> addr \<Rightarrow> SceSize \<Rightarrow> 'k"
  ok_icache_wbinv :: "'k \<Rightarrow> addr \<Rightarrow> SceSize \<Rightarrow> 'k"
  ok_sysroot_buffer :: "'k \<Rightarrow> addr"
  ok_search_module :: "'k \<Rightarrow> string \<Rightarrow> s32"
  ok_module_info :: "'k \<Rightarrow> s32 \<Rightarrow> module_info"
  ok_module_list :: "'k \<Rightarrow> s32 list"
  ok_S_IFDIR :: u32
  ok_S_IFREG :: u32
  ok_S_IROTH :: u32
  ok_S_IRUSR :: u32
  ok_S_IWUSR :: u32
  ok_SO_IFREG :: u32
  ok_O_RDONLY :: u32
  ok_O_WRONLY :: u32
  ok_O_DIROPEN :: u32
  sz_FileEntry :: SceSize
  sz_SceIoStat :: SceSize
  sz_ModuleStat :: SceSize

section \<open>Typed access\<close>

definition file_of :: "'k old_state \<Rightarrow> addr \<Rightarrow> FileEntry option" where
  "file_of s p = (if p = NULL then None else case oheap s p of Some (OFile e) \<Rightarrow> Some e | _ \<Rightarrow> None)"

definition stat_of :: "'k old_state \<Rightarrow> addr \<Rightarrow> SceIoStat option" where
  "stat_of s p = (if p = NULL then None else case oheap s p of Some (OStat e) \<Rightarrow> Some e | _ \<Rightarrow> None)"

definition ostr_of :: "'k old_state \<Rightarrow> addr \<Rightarrow> string option" where
  "ostr_of s p = (if p = NULL then None else case oheap s p of Some (OStr e) \<Rightarrow> Some e | _ \<Rightarrow> None)"

definition mod_of :: "'k old_state \<Rightarrow> addr \<Rightarrow> ModuleStat option" where
  "mod_of s p = (if p = NULL then None else case oheap s p of Some (OMod e) \<Rightarrow> Some e | _ \<Rightarrow> None)"

lemma heap_reads_cong:
  assumes "oheap s' = oheap s"
  shows "file_of s' = file_of s" "stat_of s' = stat_of s" "ostr_of s' = ostr_of s" "mod_of s' = mod_of s"
  using assms by (simp_all add: fun_eq_iff file_of_def stat_of_def ostr_of_def mod_of_def)

definition pack_of :: "'k old_state \<Rightarrow> addr \<Rightarrow> DataPack option" where
  "pack_of s p = (if p = NULL then None else packs s p)"

definition onode_of :: "'k old_state \<Rightarrow> addr \<Rightarrow> SceVfsNode option" where
  "onode_of s p = (if p = NULL then None else onodes s p)"

definition oput :: "addr \<Rightarrow> oobj \<Rightarrow> 'k old_state \<Rightarrow> 'k old_state" where
  "oput p x s = s\<lparr>oheap := (oheap s)(p \<mapsto> x)\<rparr>"

definition put_pack :: "addr \<Rightarrow> DataPack \<Rightarrow> 'k old_state \<Rightarrow> 'k old_state" where
  "put_pack p x s = s\<lparr>packs := (packs s)(p \<mapsto> x)\<rparr>"

definition put_onode :: "addr \<Rightarrow> SceVfsNode \<Rightarrow> 'k old_state \<Rightarrow> 'k old_state" where
  "put_onode p x s = s\<lparr>onodes := (onodes s)(p \<mapsto> x)\<rparr>"

definition oalloc :: "'k old_kernel \<Rightarrow> SceSize \<Rightarrow> 'k old_state \<Rightarrow> addr \<times> 'k old_state" where
  "oalloc K n s =
     (let (p, k) = ok_alloc K (okst s) (\<lambda>a. oheap s a \<noteq> None) n; s = s\<lparr>okst := k\<rparr>
      in if p = NULL then (NULL, s) else (p, oput p ORaw s))"

text \<open>A store through a pointer to a block not allocated, NULL included, is a fault.\<close>

definition ostore :: "addr \<Rightarrow> oobj \<Rightarrow> 'k old_state \<Rightarrow> 'k old_state option" where
  "ostore p x s = (if p = NULL \<or> oheap s p = None then None else Some (oput p x s))"

definition ofree :: "addr \<Rightarrow> 'k old_state \<Rightarrow> 'k old_state option" where
  "ofree p s =
     (if p = NULL then Some s
      else if oheap s p = None then None else Some (s\<lparr>oheap := (oheap s)(p := None)\<rparr>))"

section \<open>item\_mgr.c\<close>

text \<open>The callbacks of the class: a new object goes in front, a deleted one is unlinked.\<close>

definition zero_pack :: DataPack where
  "zero_pack = \<lparr>dp_next = NULL, dp_prev = NULL, dp_uid = 0, dp_node = NULL, dp_seek = 0, dp_size = 0,
     dp_dir_entry_root = NULL, dp_dir_entry = NULL\<rparr>"

definition init_patch :: "addr \<Rightarrow> 'k old_state \<Rightarrow> 'k old_state option" where
  "init_patch p s =
     (let s = put_pack p zero_pack s in do {
        s \<leftarrow> (if last_obj s \<noteq> NULL
             then do { l \<leftarrow> pack_of s (last_obj s); Some (put_pack (last_obj s) (l\<lparr>dp_prev := p\<rparr>) s) }
             else Some s);
        d \<leftarrow> pack_of s p;
        Some ((put_pack p (d\<lparr>dp_next := last_obj s\<rparr>) s)\<lparr>last_obj := p\<rparr>)
      })"

definition free_patch :: "addr \<Rightarrow> 'k old_state \<Rightarrow> 'k old_state option" where
  "free_patch p s = do {
     d \<leftarrow> pack_of s p;
     s \<leftarrow> (if dp_prev d = NULL then Some (s\<lparr>last_obj := dp_next d\<rparr>)
          else do { q \<leftarrow> pack_of s (dp_prev d); Some (put_pack (dp_prev d) (q\<lparr>dp_next := dp_next d\<rparr>) s) });
     if dp_next d \<noteq> NULL
     then do { n \<leftarrow> pack_of s (dp_next d); Some (put_pack (dp_next d) (n\<lparr>dp_prev := dp_prev d\<rparr>) s) }
     else Some s
   }"

definition pack_next :: "'k old_state \<Rightarrow> addr \<Rightarrow> addr option" where
  "pack_next s p = map_option dp_next (pack_of s p)"

definition pack_is :: "'k old_state \<Rightarrow> addr \<Rightarrow> addr \<Rightarrow> bool option" where
  "pack_is s node p = map_option (\<lambda>d. dp_node d = node) (pack_of s p)"

partial_function (option) pack_search :: "'k old_state \<Rightarrow> addr \<Rightarrow> addr \<Rightarrow> addr option" where
  "pack_search s node p =
     (if p = NULL then Some NULL
      else case pack_is s node p of None \<Rightarrow> None
           | Some b \<Rightarrow>
               if b then Some p
               else (case pack_next s p of None \<Rightarrow> None | Some q \<Rightarrow> pack_search s node q))"

definition getFileEntryByNode :: "'k old_state \<Rightarrow> addr \<Rightarrow> addr option" where
  "getFileEntryByNode s node = pack_search s node (last_obj s)"

interpretation pack: chain_search pack_next pack_is pack_search
  by unfold_locales (rule pack_search.simps)

text \<open>
  The kernel makes the object and calls \<open>init_patch\<close> on it; on deletion it calls \<open>free_patch\<close> and
  takes the object away.  When no object can be had the caller's pointer keeps no value: NULL here.
\<close>

definition create_file_item :: "'k old_kernel \<Rightarrow> addr \<Rightarrow> 'k old_state \<Rightarrow> (s32 \<times> addr \<times> 'k old_state) option" where
  "create_file_item K node s =
     (let (res, p, k) = ok_create_uid K (okst s) (\<lambda>a. packs s a \<noteq> None); s = s\<lparr>okst := k\<rparr> in
      if failed res then Some (res, NULL, s)
      else do {
        s \<leftarrow> init_patch p s;
        d \<leftarrow> pack_of s p;
        Some (0, p, put_pack p (d\<lparr>dp_uid := res, dp_node := node\<rparr>) s)
      })"

definition delete_item :: "'k old_kernel \<Rightarrow> addr \<Rightarrow> 'k old_state \<Rightarrow> (s32 \<times> 'k old_state) option" where
  "delete_item K p s = do {
     d \<leftarrow> pack_of s p;
     let (res, k) = ok_delete_uid K (okst s) (dp_uid d);
     let s = s\<lparr>okst := k\<rparr>;
     if failed res then Some (res, s)
     else do { s \<leftarrow> free_patch p s; Some (res, s\<lparr>packs := (packs s)(p := None)\<rparr>) }
   }"

section \<open>fs\_mgr.c: names\<close>

fun PathCheck :: "string \<Rightarrow> char \<Rightarrow> s32" where
  "PathCheck [] c = 0"
| "PathCheck (x # xs) c = (if x = c then -1 else PathCheck xs c)"

text \<open>\<open>strncmp(path, name, strlen(name)) == 0\<close>\<close>

fun starts_with :: "string \<Rightarrow> string \<Rightarrow> bool" where
  "starts_with path [] = True"
| "starts_with [] (c # cs) = False"
| "starts_with (p # ps) (c # cs) = (p = c \<and> starts_with ps cs)"

definition is_dir_entry :: "'k old_kernel \<Rightarrow> 'k old_state \<Rightarrow> FileEntry \<Rightarrow> bool option" where
  "is_dir_entry K s e = map_option (\<lambda>st. st_mode st AND ok_S_IFDIR K \<noteq> 0) (stat_of s (fe_stat e))"

definition is_reg_entry :: "'k old_kernel \<Rightarrow> 'k old_state \<Rightarrow> FileEntry \<Rightarrow> bool option" where
  "is_reg_entry K s e = map_option (\<lambda>st. st_mode st AND ok_S_IFREG K \<noteq> 0) (stat_of s (fe_stat e))"

section \<open>fs\_mgr.c: walks\<close>

text \<open>
  The loops of \<open>getDirEntry\<close> and \<open>getFileEntry\<close>.  The condition \<open>path[0] != '0'\<close> compares with the
  digit, as the source does.  The result is the code and the entry.
\<close>

partial_function (option) dir_walk ::
    "'k old_kernel \<Rightarrow> 'k old_state \<Rightarrow> string \<Rightarrow> addr \<Rightarrow> addr \<Rightarrow> (s32 \<times> addr) option" where
  "dir_walk K s path dir_entry e2 =
     (if cstr_char path 0 = CHR ''0'' then Some (0, e2)
      else if dir_entry = NULL then Some (-1, NULL)
      else do {
        e \<leftarrow> file_of s dir_entry;
        nm \<leftarrow> ostr_of s (fe_name e);
        if starts_with path nm
        then do {
          d \<leftarrow> (if cstr_char path (length nm) = CHR 0x00 then is_dir_entry K s e else Some False);
          if d then Some (0, dir_entry)
          else if cstr_char path (length nm) = CHR ''/''
          then dir_walk K s (drop (length nm + 1) path) (fe_next_dir e) dir_entry
          else Some (-1, NULL)
        }
        else dir_walk K s path (fe_next e) dir_entry
      })"

partial_function (option) file_walk ::
    "'k old_kernel \<Rightarrow> 'k old_state \<Rightarrow> string \<Rightarrow> addr \<Rightarrow> addr \<Rightarrow> (s32 \<times> addr) option" where
  "file_walk K s path dir_entry e2 =
     (if cstr_char path 0 = CHR ''0'' then Some (0, e2)
      else if dir_entry = NULL then Some (-1, NULL)
      else do {
        e \<leftarrow> file_of s dir_entry;
        nm \<leftarrow> ostr_of s (fe_name e);
        if starts_with path nm
        then do {
          r \<leftarrow> (if cstr_char path (length nm) = CHR 0x00 then is_reg_entry K s e else Some False);
          if r then Some (0, dir_entry)
          else do {
            d \<leftarrow> (if cstr_char path (length nm) = CHR ''/'' then is_dir_entry K s e else Some False);
            if d then file_walk K s (drop (length nm + 1) path) (fe_next_dir e) dir_entry
            else Some (-1, NULL)
          }
        }
        else file_walk K s path (fe_next e) dir_entry
      })"


definition getDirEntry :: "'k old_kernel \<Rightarrow> string \<Rightarrow> 'k old_state \<Rightarrow> (s32 \<times> addr) option" where
  "getDirEntry K path s = do {
     p \<leftarrow> getFileEntryByNode s (root_node s);
     if p = NULL then Some (-1, NULL)
     else do { d \<leftarrow> pack_of s p; dir_walk K s path (dp_dir_entry_root d) (dp_dir_entry_root d) }
   }"

definition getFileEntry :: "'k old_kernel \<Rightarrow> string \<Rightarrow> 'k old_state \<Rightarrow> (s32 \<times> addr) option" where
  "getFileEntry K path s = do {
     p \<leftarrow> getFileEntryByNode s (root_node s);
     if p = NULL then Some (-1, NULL)
     else do { d \<leftarrow> pack_of s p; file_walk K s path (dp_dir_entry_root d) (dp_dir_entry_root d) }
   }"

section \<open>fs\_mgr.c: creation\<close>

text \<open>\<open>ppEntry\<close>: the field that will point to the new entry.\<close>

datatype entry_link = RootOf addr | NextOf addr | DirOf addr

fun write_entry_link :: "entry_link \<Rightarrow> addr \<Rightarrow> 'k old_state \<Rightarrow> 'k old_state option" where
  "write_entry_link (RootOf p) v s =
     map_option (\<lambda>d. put_pack p (d\<lparr>dp_dir_entry_root := v\<rparr>) s) (pack_of s p)"
| "write_entry_link (NextOf p) v s =
     map_option (\<lambda>e. oput p (OFile (e\<lparr>fe_next := v\<rparr>)) s) (file_of s p)"
| "write_entry_link (DirOf p) v s =
     map_option (\<lambda>e. oput p (OFile (e\<lparr>fe_next_dir := v\<rparr>)) s) (file_of s p)"

definition zero_entry :: FileEntry where
  "zero_entry = \<lparr>fe_next = NULL, fe_next_dir = NULL, fe_flags = 0, fe_open_allow_flags = 0,
     fe_name = NULL, fe_stat = NULL, fe_size = 0, fe_open_cb = None, fe_read_cb = None,
     fe_write_cb = None, fe_get_io_stat_cb = None, fe_dopen_cb = None, fe_args_for_stat = NULL\<rparr>"

text \<open>
  The end of both branches that make an entry: the (zeroed) entry is stored in the link, gets its
  successor and a copy of the path as its name.
\<close>

definition new_entry ::
    "'k old_kernel \<Rightarrow> entry_link \<Rightarrow> addr \<Rightarrow> addr \<Rightarrow> string \<Rightarrow> 'k old_state \<Rightarrow> (s32 \<times> addr \<times> 'k old_state) option" where
  "new_entry K ppEntry entry pNext path s = do {
     s \<leftarrow> ostore entry (OFile zero_entry) s;
     s \<leftarrow> write_entry_link ppEntry entry s;
     e \<leftarrow> file_of s entry;
     let s = oput entry (OFile (e\<lparr>fe_next := pNext\<rparr>)) s;
     let (name, s) = oalloc K (word_of_nat (length path + 1)) s;
     s \<leftarrow> ostore name (OStr path) s;
     e \<leftarrow> file_of s entry;
     Some (0, entry, oput entry (OFile (e\<lparr>fe_name := name\<rparr>)) s)
   }"

partial_function (option) create_walk ::
    "'k old_kernel \<Rightarrow> string \<Rightarrow> addr \<Rightarrow> entry_link \<Rightarrow> 'k old_state \<Rightarrow> (s32 \<times> addr \<times> 'k old_state) option" where
  "create_walk K path dir_entry ppEntry s =
     (if cstr_char path 0 = CHR ''0'' then Some (-1, NULL, s)
      else if dir_entry = NULL
      then (if failed (PathCheck path (CHR ''/'')) then Some (-1, NULL, s)
            else let (entry, s) = oalloc K (sz_FileEntry K) s in
              if entry = NULL then Some (-1, NULL, s)
              else new_entry K ppEntry entry NULL path s)
      else do {
        e \<leftarrow> file_of s dir_entry;
        nm \<leftarrow> ostr_of s (fe_name e);
        if starts_with path nm
        then do {
          d \<leftarrow> (if cstr_char path (length nm) = CHR ''/'' then is_dir_entry K s e else Some False);
          if d then create_walk K (drop (length nm + 1) path) (fe_next_dir e) (DirOf dir_entry) s
          else if cstr_char path (length nm) \<noteq> CHR ''/''
          then create_walk K path (fe_next e) (NextOf dir_entry) s
          else let (entry, s) = oalloc K (sz_FileEntry K) s in
            new_entry K (NextOf dir_entry) entry (fe_next e) path s
        }
        else create_walk K path (fe_next e) (NextOf dir_entry) s
      })"

definition createFileEntry :: "'k old_kernel \<Rightarrow> string \<Rightarrow> 'k old_state \<Rightarrow> (s32 \<times> addr \<times> 'k old_state) option" where
  "createFileEntry K path s = do {
     p \<leftarrow> getFileEntryByNode s (root_node s);
     if p = NULL then Some (-1, NULL, s)
     else do { d \<leftarrow> pack_of s p; create_walk K path (dp_dir_entry_root d) (RootOf p) s }
   }"

section \<open>fs\_mgr.c: status templates\<close>

definition tpl_time :: SceDateTime where
  "tpl_time = \<lparr>dt_year = 2020, dt_month = 7, dt_day = 5, dt_hour = 1, dt_minute = 33, dt_second = 0,
     dt_microsecond = 0\<rparr>"

definition stat_file_tpl :: "'k old_kernel \<Rightarrow> SceIoStat" where
  "stat_file_tpl K = \<lparr>st_mode = ok_S_IFREG K OR ok_S_IROTH K OR ok_S_IRUSR K OR ok_S_IWUSR K,
     st_attr = ok_SO_IFREG K, st_size = 0, st_ctime = tpl_time, st_atime = tpl_time, st_mtime = tpl_time\<rparr>"

definition stat_dir_tpl :: "'k old_kernel \<Rightarrow> SceIoStat" where
  "stat_dir_tpl K = \<lparr>st_mode = ok_S_IFDIR K OR ok_S_IRUSR K OR ok_S_IWUSR K,
     st_attr = 0, st_size = 0, st_ctime = tpl_time, st_atime = tpl_time, st_mtime = tpl_time\<rparr>"

definition setToDirEntry :: "'k old_kernel \<Rightarrow> addr \<Rightarrow> 'k old_state \<Rightarrow> (s32 \<times> 'k old_state) option" where
  "setToDirEntry K entry s = do {
     e \<leftarrow> file_of s entry;
     let e = e\<lparr>fe_open_allow_flags := ok_O_RDONLY K OR ok_O_DIROPEN K\<rparr>;
     let (st, s) = oalloc K (sz_SceIoStat K) (oput entry (OFile e) s);
     let s = oput entry (OFile (e\<lparr>fe_stat := st\<rparr>)) s;
     s \<leftarrow> ostore st (OStat (stat_dir_tpl K)) s;
     Some (0, s)
   }"

definition setToFileEntryTplStat :: "'k old_kernel \<Rightarrow> addr \<Rightarrow> 'k old_state \<Rightarrow> (s32 \<times> 'k old_state) option" where
  "setToFileEntryTplStat K entry s = do {
     e \<leftarrow> file_of s entry;
     s \<leftarrow> ostore (fe_stat e) (OStat (stat_file_tpl K)) s;
     Some (0, s)
   }"

end
