(* ===== verification/Old_Vfs_Files.thy ===== *)
theory Old_Vfs_Files
  imports Old_Vfs Sce_Io
begin

text \<open>
  \<open>kernel/SceVfsMountPoC_old\<close>, the files it shows: \<open>etc.c\<close>, \<open>map_conf1.c\<close>, \<open>sysroot_kblparam.c\<close>,
  \<open>module_kernel.c\<close>, and \<open>sce_cpu.c\<close>, which writes to code.  A callback gets the open item (an
  address), the \<open>args_for_stat\<close> of the entry, and data or a size; what a read stores in the caller's
  buffer is part of its result.  Interrupts being off during a copy is not visible here.
\<close>

section \<open>sce\_cpu.c\<close>

text \<open>The range of whole cache lines; both functions compute it.\<close>

definition cache_range :: "addr \<Rightarrow> SceSize \<Rightarrow> addr \<times> SceSize" where
  "cache_range addr sz =
     (let non_align = addr AND 0x1F;
          sz = (if non_align \<noteq> 0 then sz + non_align else sz)
      in (addr AND NOT 0x1F, (sz + 0x1F) AND NOT 0x1F))"

definition cache_flush :: "'k old_kernel \<Rightarrow> addr \<Rightarrow> SceSize \<Rightarrow> 'k \<Rightarrow> 'k" where
  "cache_flush K addr sz k =
     (let (addr, sz) = cache_range addr sz in ok_icache_wbinv K (ok_dcache_wbinv K k addr sz) addr sz)"

definition sceKernelCpuUnrestrictedMemcpy :: "'k old_kernel \<Rightarrow> addr \<Rightarrow> u8 list \<Rightarrow> SceSize \<Rightarrow> 'k \<Rightarrow> 'k" where
  "sceKernelCpuUnrestrictedMemcpy K dst src len k =
     (let k = ok_mem_write K k dst (take (unat len) src); (dst, len) = cache_range dst len
      in ok_dcache_wb K k dst len)"

definition memcpy_rx :: "'k old_kernel \<Rightarrow> addr \<Rightarrow> u8 list \<Rightarrow> SceSize \<Rightarrow> 'k \<Rightarrow> 'k" where
  "memcpy_rx K dst src len k = cache_flush K dst len (sceKernelCpuUnrestrictedMemcpy K dst src len k)"

section \<open>What the callbacks share\<close>

text \<open>
  \<open>int readable_byte = data->size - data->seek\<close>, and the cut of the size, where the comparison with
  the unsigned size makes it unsigned.
\<close>

definition readable_byte :: "DataPack \<Rightarrow> s32" where
  "readable_byte d = ucast (dp_size d - dp_seek d)"

definition clip_size :: "DataPack \<Rightarrow> SceSize \<Rightarrow> SceSize" where
  "clip_size d sz = (if readable_byte d < sz then readable_byte d else sz)"

definition advance :: "addr \<Rightarrow> SceSize \<Rightarrow> 'k old_state \<Rightarrow> 'k old_state option" where
  "advance p n s =
     map_option (\<lambda>d. put_pack p (d\<lparr>dp_seek := dp_seek d + ucast n\<rparr>) s) (pack_of s p)"

text \<open>\<open>memcpy\<close> from and to the eight bytes of \<open>map_conf1_data\<close>; beyond them it is a fault.\<close>

definition map_conf1_word :: "nat \<Rightarrow> 'k old_state \<Rightarrow> u32" where
  "map_conf1_word i s =
     (let m = map_conf1_data s in le32 (m ! (4 * i)) (m ! (4 * i + 1)) (m ! (4 * i + 2)) (m ! (4 * i + 3)))"

section \<open>etc.c\<close>

definition read_random_cb ::
    "'k old_kernel \<Rightarrow> addr \<Rightarrow> SceSize \<Rightarrow> 'k old_state \<Rightarrow> (s32 \<times> u8 list \<times> 'k old_state) option" where
  "read_random_cb K data sz s = do {
     d \<leftarrow> pack_of s data;
     if readable_byte d = 0 then Some (0, [], s)
     else do {
       let sz = clip_size d sz;
       let (bs, k) = ok_random K (okst s) (unat sz);
       s \<leftarrow> advance data sz (s\<lparr>okst := k\<rparr>);
       Some (sz, bs, s)
     }
   }"

section \<open>map\_conf1.c\<close>

definition open_map_mem1_cb :: "addr \<Rightarrow> 'k old_state \<Rightarrow> (s32 \<times> 'k old_state) option" where
  "open_map_mem1_cb data s =
     map_option (\<lambda>d. (0, put_pack data (d\<lparr>dp_size := ucast (map_conf1_word 1 s)\<rparr>) s)) (pack_of s data)"

definition get_io_stat_map_mem1_cb :: "FileEntry \<Rightarrow> 'k old_state \<Rightarrow> (s32 \<times> SceIoStat) option" where
  "get_io_stat_map_mem1_cb e s =
     map_option (\<lambda>st. (0, st\<lparr>st_size := ucast (map_conf1_word 1 s)\<rparr>)) (stat_of s (fe_stat e))"

definition read_map_mem1_cb ::
    "'k old_kernel \<Rightarrow> addr \<Rightarrow> SceSize \<Rightarrow> 'k old_state \<Rightarrow> (s32 \<times> u8 list \<times> 'k old_state) option" where
  "read_map_mem1_cb K data sz s = do {
     d \<leftarrow> pack_of s data;
     if readable_byte d = 0 then Some (0, [], s)
     else do {
       let sz = clip_size d sz;
       let bs = ok_mem_read K (okst s) (map_conf1_word 0 s) (unat sz);
       s \<leftarrow> advance data sz s;
       Some (sz, bs, s)
     }
   }"

definition write_map_mem1_cb ::
    "'k old_kernel \<Rightarrow> addr \<Rightarrow> u8 list \<Rightarrow> SceSize \<Rightarrow> 'k old_state \<Rightarrow> (s32 \<times> 'k old_state) option" where
  "write_map_mem1_cb K data pData sz s = do {
     d \<leftarrow> pack_of s data;
     if readable_byte d = 0 then Some (0, s)
     else do {
       let sz = clip_size d sz;
       let k = ok_mem_write K (okst s) (map_conf1_word 0 s) (take (unat sz) pData);
       s \<leftarrow> advance data sz (s\<lparr>okst := k\<rparr>);
       Some (sz, s)
     }
   }"

definition read_map_conf1_cb :: "addr \<Rightarrow> SceSize \<Rightarrow> 'k old_state \<Rightarrow> (s32 \<times> u8 list \<times> 'k old_state) option" where
  "read_map_conf1_cb data sz s = do {
     d \<leftarrow> pack_of s data;
     if readable_byte d = 0 then Some (0, [], s)
     else do {
       let sz = clip_size d sz;
       bs \<leftarrow> (if unat sz \<le> length (map_conf1_data s) then Some (take (unat sz) (map_conf1_data s)) else None);
       s \<leftarrow> advance data sz s;
       Some (sz, bs, s)
     }
   }"

definition write_map_conf1_cb ::
    "addr \<Rightarrow> u8 list \<Rightarrow> SceSize \<Rightarrow> 'k old_state \<Rightarrow> (s32 \<times> 'k old_state) option" where
  "write_map_conf1_cb data pData sz s = do {
     d \<leftarrow> pack_of s data;
     if readable_byte d = 0 then Some (0, s)
     else do {
       let sz = clip_size d sz;
       m \<leftarrow> (if unat sz \<le> length (map_conf1_data s)
            then Some (overwrite 0 (take (unat sz) pData) (map_conf1_data s)) else None);
       s \<leftarrow> advance data sz (s\<lparr>map_conf1_data := m\<rparr>);
       Some (sz, s)
     }
   }"

section \<open>sysroot\_kblparam.c\<close>

definition read_kblparam_cb ::
    "'k old_kernel \<Rightarrow> addr \<Rightarrow> SceSize \<Rightarrow> 'k old_state \<Rightarrow> (s32 \<times> u8 list \<times> 'k old_state) option" where
  "read_kblparam_cb K data sz s = do {
     d \<leftarrow> pack_of s data;
     if readable_byte d = 0 then Some (0, [], s)
     else do {
       let sz = clip_size d sz;
       let bs = ok_mem_read K (okst s) (ok_sysroot_buffer K (okst s)) (unat sz);
       s \<leftarrow> advance data sz s;
       Some (sz, bs, s)
     }
   }"

definition write_kblparam_cb ::
    "'k old_kernel \<Rightarrow> addr \<Rightarrow> u8 list \<Rightarrow> SceSize \<Rightarrow> 'k old_state \<Rightarrow> (s32 \<times> 'k old_state) option" where
  "write_kblparam_cb K data pData sz s = do {
     d \<leftarrow> pack_of s data;
     if readable_byte d = 0 then Some (0, s)
     else do {
       let sz = clip_size d sz;
       let k = ok_mem_write K (okst s) (ok_sysroot_buffer K (okst s)) (take (unat sz) pData);
       s \<leftarrow> advance data sz (s\<lparr>okst := k\<rparr>);
       Some (sz, s)
     }
   }"

section \<open>module\_kernel.c: segments as files\<close>

text \<open>The module that the argument names: its number (an error when it is gone).\<close>

definition arg_module :: "'k old_kernel \<Rightarrow> addr \<Rightarrow> 'k old_state \<Rightarrow> (s32 \<times> addr \<times> u32 \<times> nat) option" where
  "arg_module K args s = do {
     m \<leftarrow> mod_of s args;
     nm \<leftarrow> ostr_of s (ms_name m);
     let modid = ok_search_module K (okst s) nm;
     let (vaddr, memsz) = om_segs (ok_module_info K (okst s) modid) (ms_seg m);
     Some (modid, vaddr, memsz, ms_seg m)
   }"

definition get_io_stat_module_cb ::
    "'k old_kernel \<Rightarrow> FileEntry \<Rightarrow> addr \<Rightarrow> SceIoStat \<Rightarrow> 'k old_state \<Rightarrow> (s32 \<times> SceIoStat) option" where
  "get_io_stat_module_cb K e args st s = do {
     (modid, _, memsz, _) \<leftarrow> arg_module K args s;
     if failed modid then Some (modid, st)
     else map_option (\<lambda>st. (0, st\<lparr>st_size := ucast memsz\<rparr>)) (stat_of s (fe_stat e))
   }"

definition open_module_cb ::
    "'k old_kernel \<Rightarrow> addr \<Rightarrow> addr \<Rightarrow> 'k old_state \<Rightarrow> (s32 \<times> 'k old_state) option" where
  "open_module_cb K data args s = do {
     (modid, _, memsz, _) \<leftarrow> arg_module K args s;
     if failed modid then Some (modid, s)
     else map_option (\<lambda>d. (0, put_pack data (d\<lparr>dp_size := ucast memsz\<rparr>) s)) (pack_of s data)
   }"

definition read_module_cb ::
    "'k old_kernel \<Rightarrow> addr \<Rightarrow> addr \<Rightarrow> SceSize \<Rightarrow> 'k old_state \<Rightarrow> (s32 \<times> u8 list \<times> 'k old_state) option" where
  "read_module_cb K data args sz s = do {
     d \<leftarrow> pack_of s data;
     if readable_byte d = 0 then Some (0, [], s)
     else do {
       (modid, vaddr, _, _) \<leftarrow> arg_module K args s;
       if failed modid then Some (modid, [], s)
       else do {
         let sz = clip_size d sz;
         let bs = ok_mem_read K (okst s) (vaddr + ucast (dp_seek d)) (unat sz);
         s \<leftarrow> advance data sz s;
         Some (sz, bs, s)
       }
     }
   }"

definition write_module_cb ::
    "'k old_kernel \<Rightarrow> addr \<Rightarrow> addr \<Rightarrow> u8 list \<Rightarrow> SceSize \<Rightarrow> 'k old_state \<Rightarrow> (s32 \<times> 'k old_state) option" where
  "write_module_cb K data args pData sz s = do {
     d \<leftarrow> pack_of s data;
     if readable_byte d = 0 then Some (0, s)
     else do {
       (modid, vaddr, _, seg) \<leftarrow> arg_module K args s;
       if failed modid then Some (modid, s)
       else do {
         let sz = clip_size d sz;
         let k = (if seg = 0 then memcpy_rx K (vaddr + ucast (dp_seek d)) pData sz (okst s)
                  else ok_mem_write K (okst s) vaddr (take (unat sz) pData));
         s \<leftarrow> advance data sz (s\<lparr>okst := k\<rparr>);
         Some (sz, s)
       }
     }
   }"

text \<open>\<open>_moduleTimeInc\<close>, as a function of the time of creation.\<close>

definition time_inc :: "SceDateTime \<Rightarrow> SceDateTime" where
  "time_inc t =
     (let t = t\<lparr>dt_second := dt_second t + 1\<rparr> in
      if dt_second t \<noteq> 60 then t
      else let t = t\<lparr>dt_second := 0, dt_minute := dt_minute t + 1\<rparr> in
        if dt_minute t \<noteq> 60 then t
        else t\<lparr>dt_minute := 0, dt_hour := dt_hour t + 1\<rparr>)"

definition moduleTimeInc :: "SceIoStat \<Rightarrow> SceIoStat" where
  "moduleTimeInc st =
     (let t = time_inc (st_ctime st) in st\<lparr>st_ctime := t, st_atime := t, st_mtime := t\<rparr>)"

section \<open>module\_kernel.c: the directory\<close>

text \<open>The entries of the last time are freed; the argument of an entry is read before the test for NULL.\<close>

partial_function (option) free_module_entries :: "addr \<Rightarrow> 'k old_state \<Rightarrow> 'k old_state option" where
  "free_module_entries p s =
     (if p = NULL then Some s
      else do {
        e \<leftarrow> file_of s p;
        s \<leftarrow> ofree (fe_name e) s;
        s \<leftarrow> ofree (fe_stat e) s;
        m \<leftarrow> mod_of s (fe_args_for_stat e);
        s \<leftarrow> ofree (ms_name m) s;
        s \<leftarrow> ofree (fe_args_for_stat e) s;
        e \<leftarrow> file_of s p;
        s \<leftarrow> ofree p s;
        free_module_entries (fe_next e) s
      })"

definition module_tmp_stat :: "'k old_kernel \<Rightarrow> SceIoStat" where
  "module_tmp_stat K =
     (let t = \<lparr>dt_year = 2020, dt_month = 11, dt_day = 23, dt_hour = 21, dt_minute = 23, dt_second = 15,
                dt_microsecond = 0\<rparr>
      in \<lparr>st_mode = ok_S_IFREG K OR ok_S_IROTH K OR ok_S_IRUSR K OR ok_S_IWUSR K, st_attr = ok_SO_IFREG K,
          st_size = 0, st_ctime = t, st_atime = t, st_mtime = t\<rparr>)"

text \<open>The body for one segment; both are the same text but for the number and the word.\<close>

definition module_entry ::
    "'k old_kernel \<Rightarrow> module_info \<Rightarrow> nat \<Rightarrow> string \<Rightarrow> SceIoStat \<Rightarrow> entry_link \<times> 'k old_state \<Rightarrow>
     (entry_link \<times> 'k old_state) option" where
  "module_entry K info seg word tmp_stat st =
     (let (ppEntry, s) = st; memsz = snd (om_segs info seg) in
      if memsz = 0 then Some (ppEntry, s)
      else do {
        let (module_name, s) = oalloc K 0x20 s;
        let (module_args, s) = oalloc K (sz_ModuleStat K) s;
        let (module_info, s) = oalloc K (sz_FileEntry K) s;
        s \<leftarrow> write_entry_link ppEntry module_info s;
        s \<leftarrow> ostore module_info (OFile zero_entry) s;
        s \<leftarrow> ostore module_name (OStr (om_name info)) s;
        s \<leftarrow> ostore module_args (OMod \<lparr>ms_name = module_name, ms_seg = seg\<rparr>) s;
        let (name, s) = oalloc K 0x28 s;
        s \<leftarrow> ostore name (OStr (snprintf 0x27 (om_name info @ word))) s;
        let (stat, s) = oalloc K (sz_SceIoStat K) s;
        s \<leftarrow> ostore stat (OStat (tmp_stat\<lparr>st_size := ucast memsz\<rparr>)) s;
        let e = zero_entry\<lparr>fe_open_allow_flags := ok_O_RDONLY K OR ok_O_WRONLY K, fe_name := name,
                  fe_size := ucast memsz, fe_stat := stat, fe_open_cb := Some Open_module,
                  fe_read_cb := Some Read_module, fe_write_cb := Some Write_module,
                  fe_get_io_stat_cb := Some Stat_module, fe_args_for_stat := module_args\<rparr>;
        s \<leftarrow> ostore module_info (OFile e) s;
        Some (NextOf module_info, s)
      })"

fun modules_loop ::
    "'k old_kernel \<Rightarrow> SceIoStat \<Rightarrow> s32 list \<Rightarrow> entry_link \<times> 'k old_state \<Rightarrow> 'k old_state option" where
  "modules_loop K tmp_stat [] st = Some (snd st)"
| "modules_loop K tmp_stat (modid # ms) st = do {
     let info = ok_module_info K (okst (snd st)) modid;
     st \<leftarrow> module_entry K info 0 '' text'' tmp_stat st;
     st \<leftarrow> module_entry K info 1 '' data'' tmp_stat st;
     modules_loop K (moduleTimeInc tmp_stat) ms st
   }"

text \<open>
  The loop goes down from the last module; with none it starts below the array, a fault.
\<close>

definition dopen_cb_module :: "'k old_kernel \<Rightarrow> addr \<Rightarrow> 'k old_state \<Rightarrow> (s32 \<times> 'k old_state) option" where
  "dopen_cb_module K data s = do {
     d \<leftarrow> pack_of s data;
     s \<leftarrow> free_module_entries (dp_dir_entry_root d) s;
     s \<leftarrow> write_entry_link (RootOf data) NULL s;
     let mods = rev (ok_module_list K (okst s));
     if mods = [] then None
     else map_option (Pair 0) (modules_loop K (module_tmp_stat K) mods (RootOf data, s))
   }"

section \<open>Setting up the files\<close>

text \<open>\<open>entry\<close> keeps its value when \<open>createFileEntry\<close> fails.\<close>

definition create_at :: "'k old_kernel \<Rightarrow> string \<Rightarrow> addr \<Rightarrow> 'k old_state \<Rightarrow> (addr \<times> 'k old_state) option" where
  "create_at K path entry s = do {
     (res, p, s) \<leftarrow> createFileEntry K path s;
     Some (if failed res then entry else p, s)
   }"

definition upd_entry :: "addr \<Rightarrow> (FileEntry \<Rightarrow> FileEntry) \<Rightarrow> 'k old_state \<Rightarrow> 'k old_state option" where
  "upd_entry p f s = map_option (\<lambda>e. oput p (OFile (f e)) s) (file_of s p)"

definition new_dir :: "'k old_kernel \<Rightarrow> string \<Rightarrow> 'k old_state \<Rightarrow> (addr \<times> 'k old_state) option" where
  "new_dir K path s = do {
     (entry, s) \<leftarrow> create_at K path NULL s;
     (_, s) \<leftarrow> setToDirEntry K entry s;
     Some (entry, s)
   }"

definition new_file ::
    "'k old_kernel \<Rightarrow> string \<Rightarrow> u32 \<Rightarrow> SceOff \<Rightarrow> (FileEntry \<Rightarrow> FileEntry) \<Rightarrow> addr \<Rightarrow> 'k old_state \<Rightarrow>
     (addr \<times> 'k old_state) option" where
  "new_file K path flags sz cbs entry s = do {
     (entry, s) \<leftarrow> create_at K path entry s;
     s \<leftarrow> upd_entry entry (\<lambda>e. e\<lparr>fe_open_allow_flags := flags, fe_size := sz\<rparr>) s;
     let (st, s) = oalloc K (sz_SceIoStat K) s;
     s \<leftarrow> upd_entry entry (\<lambda>e. e\<lparr>fe_stat := st\<rparr>) s;
     (_, s) \<leftarrow> setToFileEntryTplStat K entry s;
     s \<leftarrow> ostore st (OStat ((stat_file_tpl K)\<lparr>st_size := sz\<rparr>)) s;
     s \<leftarrow> upd_entry entry cbs s;
     Some (entry, s)
   }"

definition init_etc :: "'k old_kernel \<Rightarrow> 'k old_state \<Rightarrow> (s32 \<times> 'k old_state) option" where
  "init_etc K s = do {
     (entry, s) \<leftarrow> new_dir K ''etc'' s;
     (entry, s) \<leftarrow> new_file K ''etc/random'' (ok_O_RDONLY K) 0x1000
       (\<lambda>e. e\<lparr>fe_read_cb := Some Read_random\<rparr>) entry s;
     Some (0, s)
   }"

definition init_map_conf1 :: "'k old_kernel \<Rightarrow> 'k old_state \<Rightarrow> (s32 \<times> 'k old_state) option" where
  "init_map_conf1 K s = do {
     (entry, s) \<leftarrow> new_dir K ''map_conf'' s;
     (entry, s) \<leftarrow> new_file K ''map_conf/map_conf1'' (ok_O_RDONLY K OR ok_O_WRONLY K) 8
       (\<lambda>e. e\<lparr>fe_read_cb := Some Read_map_conf1, fe_write_cb := Some Write_map_conf1\<rparr>) entry s;
     (entry, s) \<leftarrow> new_file K ''map_conf/map_mem1'' (ok_O_RDONLY K OR ok_O_WRONLY K) 0
       (\<lambda>e. e\<lparr>fe_open_cb := Some Open_map_mem1, fe_read_cb := Some Read_map_mem1,
              fe_write_cb := Some Write_map_mem1, fe_get_io_stat_cb := Some Stat_map_mem1\<rparr>) entry s;
     Some (0, s)
   }"

definition init_sysroot :: "'k old_kernel \<Rightarrow> 'k old_state \<Rightarrow> (s32 \<times> 'k old_state) option" where
  "init_sysroot K s = do {
     (entry, s) \<leftarrow> new_dir K ''sysroot'' s;
     (entry, s) \<leftarrow> new_file K ''sysroot/sysroot(kblparam)'' (ok_O_RDONLY K OR ok_O_WRONLY K) 0x200
       (\<lambda>e. e\<lparr>fe_read_cb := Some Read_kblparam, fe_write_cb := Some Write_kblparam\<rparr>) entry s;
     Some (0, s)
   }"

definition init_module_kernel :: "'k old_kernel \<Rightarrow> 'k old_state \<Rightarrow> (s32 \<times> 'k old_state) option" where
  "init_module_kernel K s = do {
     (entry, s) \<leftarrow> new_dir K ''kernel modules'' s;
     s \<leftarrow> upd_entry entry (\<lambda>e. e\<lparr>fe_dopen_cb := Some Dopen_module\<rparr>) s;
     Some (0, s)
   }"

end
