(* ===== verification/Old_Vfs_Ops.thy ===== *)
theory Old_Vfs_Ops
  imports Old_Vfs_Files
begin

text \<open>
  \<open>kernel/SceVfsMountPoC_old/src/main.c\<close>: the operations that the kernel calls, and the module entry.
  The functions have the prefix \<open>old\<close> to keep them apart from those of \<open>SceVfsMountPoC\<close>.  A status
  buffer of the caller goes in and comes out, since the code may leave it as it was.
\<close>

section \<open>Mounting\<close>

text \<open>The argument: \<open>None\<close> for NULL; the mount object (its address and its words) and the root vnode.\<close>

type_synonym words = "u32 \<Rightarrow> u32"

definition sub_81000008 :: "(addr \<times> words) option \<Rightarrow> s32 \<times> (addr \<times> words) option" where
  "sub_81000008 a1 =
     (case a1 of None \<Rightarrow> (0x80010016, a1)
      | Some (p, m) \<Rightarrow>
          if p = NULL then (0x80010016, a1) else (0, Some (p, m(0x68 := 0x80, 0xC0 := 0x10000))))"

definition sub_81000024 ::
    "'k old_kernel \<Rightarrow> (addr \<times> words \<times> addr) option \<Rightarrow> 'k old_state \<Rightarrow> (s32 \<times> 'k old_state) option" where
  "sub_81000024 K a1 s =
     (case a1 of None \<Rightarrow> Some (0x80010016, s)
      | Some (p, m, node) \<Rightarrow>
          if p = NULL then Some (0x80010016, s)
          else do {
            (_, item, s) \<leftarrow> create_file_item K node (s\<lparr>root_node := node\<rparr>);
            d \<leftarrow> pack_of s item;
            let s = put_pack item (d\<lparr>dp_dir_entry_root := NULL, dp_dir_entry := NULL, dp_seek := 0,
                                     dp_size := 0\<rparr>) s;
            (_, s) \<leftarrow> init_module_kernel K s;
            (_, s) \<leftarrow> init_sysroot K s;
            (_, s) \<leftarrow> init_etc K s;
            (_, s) \<leftarrow> init_map_conf1 K s;
            n \<leftarrow> onode_of s node;
            Some (0, put_onode node (n\<lparr>vn_dev_info := m 0xC4, vn_mount := p, vn_prev_node := NULL,
              vn_unk_60 := 0, vn_unk_64 := 0, vn_unk_74 := 1, vn_unk_78 := 0x1002, vn_st_size := 0,
              vn_st_attr := 0, vn_unk_8C := 0\<rparr>) s)
          })"

definition old_vfs_devctl :: "SceSize \<Rightarrow> string \<Rightarrow> u32 \<Rightarrow> SceSize \<Rightarrow> s32 \<times> SceIoDevInfo option" where
  "old_vfs_devctl sz dev cmd outlen =
     (if dev \<noteq> ''host0:'' \<and> dev \<noteq> ''vsd0:'' then (-1, None)
      else if cmd = 0x3001 \<and> outlen = sz
      then (0, Some \<lparr>di_max_size = 0xFFFFFFFFFFFFFFFF, di_free_size = 0x123456789ABCDEF0,
                     di_cluster_size = 0, di_unk = NULL\<rparr>)
      else (-1, None))"

definition sub_81000020 :: s32 where "sub_81000020 = 0"
definition sub_81000000 :: s32 where "sub_81000000 = 0"
definition sub_81000004 :: s32 where "sub_81000004 = 0"
definition sub_81001E42 :: s32 where "sub_81001E42 = 0x80010086"
definition sub_8100006C :: s32 where "sub_8100006C = 0"
definition sub_81000070 :: s32 where "sub_81000070 = 0"
definition old_vfs_part_deinit :: s32 where "old_vfs_part_deinit = 0x80010086"
definition old_vfs_sync :: s32 where "old_vfs_sync = 0"

section \<open>Calls through the pointers of an entry\<close>

fun call_open_cb ::
    "'k old_kernel \<Rightarrow> open_cb \<Rightarrow> addr \<Rightarrow> addr \<Rightarrow> 'k old_state \<Rightarrow> (s32 \<times> 'k old_state) option" where
  "call_open_cb K Open_map_mem1 data args s = open_map_mem1_cb data s"
| "call_open_cb K Open_module data args s = open_module_cb K data args s"

fun call_read_cb ::
    "'k old_kernel \<Rightarrow> read_cb \<Rightarrow> addr \<Rightarrow> addr \<Rightarrow> SceSize \<Rightarrow> 'k old_state \<Rightarrow>
     (s32 \<times> u8 list \<times> 'k old_state) option" where
  "call_read_cb K Read_random data args sz s = read_random_cb K data sz s"
| "call_read_cb K Read_map_mem1 data args sz s = read_map_mem1_cb K data sz s"
| "call_read_cb K Read_map_conf1 data args sz s = read_map_conf1_cb data sz s"
| "call_read_cb K Read_kblparam data args sz s = read_kblparam_cb K data sz s"
| "call_read_cb K Read_module data args sz s = read_module_cb K data args sz s"

fun call_write_cb ::
    "'k old_kernel \<Rightarrow> write_cb \<Rightarrow> addr \<Rightarrow> addr \<Rightarrow> u8 list \<Rightarrow> SceSize \<Rightarrow> 'k old_state \<Rightarrow>
     (s32 \<times> 'k old_state) option" where
  "call_write_cb K Write_map_mem1 data args bs sz s = write_map_mem1_cb K data bs sz s"
| "call_write_cb K Write_map_conf1 data args bs sz s = write_map_conf1_cb data bs sz s"
| "call_write_cb K Write_kblparam data args bs sz s = write_kblparam_cb K data bs sz s"
| "call_write_cb K Write_module data args bs sz s = write_module_cb K data args bs sz s"

fun call_stat_cb ::
    "'k old_kernel \<Rightarrow> stat_cb \<Rightarrow> FileEntry \<Rightarrow> SceIoStat \<Rightarrow> 'k old_state \<Rightarrow> (s32 \<times> SceIoStat) option" where
  "call_stat_cb K Stat_map_mem1 e st s = get_io_stat_map_mem1_cb e s"
| "call_stat_cb K Stat_module e st s = get_io_stat_module_cb K e (fe_args_for_stat e) st s"

text \<open>
  The status of an entry, as three operations get it: from its callback, whose result is ignored,
  or from its \<open>stat\<close> and \<open>size\<close>.
\<close>

definition entry_stat ::
    "'k old_kernel \<Rightarrow> FileEntry \<Rightarrow> SceIoStat \<Rightarrow> 'k old_state \<Rightarrow> SceIoStat option" where
  "entry_stat K e st s =
     (case fe_get_io_stat_cb e of
        None \<Rightarrow> map_option (\<lambda>t. t\<lparr>st_size := fe_size e\<rparr>) (stat_of s (fe_stat e))
      | Some cb \<Rightarrow> map_option snd (call_stat_cb K cb e st s))"

section \<open>Files\<close>

definition old_vfs_open ::
    "'k old_kernel \<Rightarrow> addr \<Rightarrow> string \<Rightarrow> u32 \<Rightarrow> 'k old_state \<Rightarrow> (s32 \<times> 'k old_state) option" where
  "old_vfs_open K node path flags s = do {
     n \<leftarrow> onode_of s node;
     pDataPack \<leftarrow> getFileEntryByNode s (vn_prev_node n);
     if pDataPack = NULL then Some (0x80010002, s)
     else do {
       (res, pDirEntry) \<leftarrow> getFileEntry K path s;
       if failed res then Some (0x80010002, s)
       else do {
         e \<leftarrow> file_of s pDirEntry;
         if flags AND NOT (fe_open_allow_flags e) \<noteq> 0 then Some (0x80010001, s)
         else do {
           (_, item, s) \<leftarrow> create_file_item K node s;
           d \<leftarrow> pack_of s item;
           let s = put_pack item (d\<lparr>dp_dir_entry_root := NULL, dp_dir_entry := pDirEntry, dp_seek := 0,
                                    dp_size := fe_size e\<rparr>) s;
           case fe_open_cb e of None \<Rightarrow> Some (0, s)
           | Some cb \<Rightarrow> map_option (\<lambda>(_, s). (0, s)) (call_open_cb K cb item (fe_args_for_stat e) s)
         }
       }
     }
   }"

definition old_vfs_close :: "'k old_kernel \<Rightarrow> addr \<Rightarrow> 'k old_state \<Rightarrow> (s32 \<times> 'k old_state) option" where
  "old_vfs_close K node s = do {
     pDataPack \<leftarrow> getFileEntryByNode s node;
     if pDataPack = NULL then Some (-1, s) else delete_item K pDataPack s
   }"

definition old_vfs_read ::
    "'k old_kernel \<Rightarrow> addr \<Rightarrow> SceSize \<Rightarrow> 'k old_state \<Rightarrow> (s32 \<times> u8 list \<times> 'k old_state) option" where
  "old_vfs_read K node sz s = do {
     pDataPack \<leftarrow> getFileEntryByNode s node;
     if pDataPack = NULL then Some (-1, [], s)
     else do {
       d \<leftarrow> pack_of s pDataPack;
       e \<leftarrow> file_of s (dp_dir_entry d);
       case fe_read_cb e of None \<Rightarrow> Some (-1, [], s)
       | Some cb \<Rightarrow> call_read_cb K cb pDataPack (fe_args_for_stat e) sz s
     }
   }"

definition old_vfs_write ::
    "'k old_kernel \<Rightarrow> addr \<Rightarrow> u8 list \<Rightarrow> SceSize \<Rightarrow> 'k old_state \<Rightarrow> (s32 \<times> 'k old_state) option" where
  "old_vfs_write K node bs sz s = do {
     pDataPack \<leftarrow> getFileEntryByNode s node;
     if pDataPack = NULL then Some (-1, s)
     else do {
       d \<leftarrow> pack_of s pDataPack;
       e \<leftarrow> file_of s (dp_dir_entry d);
       case fe_write_cb e of None \<Rightarrow> Some (-1, s)
       | Some cb \<Rightarrow> call_write_cb K cb pDataPack (fe_args_for_stat e) bs sz s
     }
   }"

section \<open>Directories\<close>

definition old_vfs_dopen ::
    "'k old_kernel \<Rightarrow> addr \<Rightarrow> string \<Rightarrow> 'k old_state \<Rightarrow> (s32 \<times> 'k old_state) option" where
  "old_vfs_dopen K node path s =
     (if node = root_node s
      then do {
        pDataPack \<leftarrow> getFileEntryByNode s node;
        if pDataPack = NULL then Some (0x80000000, s)
        else do {
          d \<leftarrow> pack_of s pDataPack;
          if dp_dir_entry_root d = NULL then Some (0x80000001, s)
          else Some (0, put_pack pDataPack (d\<lparr>dp_dir_entry := dp_dir_entry_root d\<rparr>) s)
        }
      }
      else do {
        (res, pDirEntry) \<leftarrow> getDirEntry K path s;
        if failed res then Some (-1, s)
        else do {
          (_, item, s) \<leftarrow> create_file_item K node s;
          e \<leftarrow> file_of s pDirEntry;
          d \<leftarrow> pack_of s item;
          let s = put_pack item (d\<lparr>dp_dir_entry_root := fe_next_dir e, dp_dir_entry := fe_next_dir e,
                                   dp_seek := 0, dp_size := fe_size e\<rparr>) s;
          case fe_dopen_cb e of None \<Rightarrow> Some (0, s)
          | Some Dopen_module \<Rightarrow> do {
              (_, s) \<leftarrow> dopen_cb_module K item s;
              d \<leftarrow> pack_of s item;
              s \<leftarrow> upd_entry pDirEntry (\<lambda>e. e\<lparr>fe_next_dir := dp_dir_entry_root d\<rparr>) s;
              Some (0, put_pack item (d\<lparr>dp_dir_entry := dp_dir_entry_root d\<rparr>) s)
            }
        }
      })"

definition old_vfs_dclose :: "'k old_kernel \<Rightarrow> addr \<Rightarrow> 'k old_state \<Rightarrow> (s32 \<times> 'k old_state) option" where
  "old_vfs_dclose K node s =
     (if node = root_node s then Some (0, s)
      else do {
        pDataPack \<leftarrow> getFileEntryByNode s node;
        if pDataPack = NULL then Some (-1, s) else delete_item K pDataPack s
      })"

text \<open>The result is the code and, when an entry is delivered, its status and name.\<close>

definition old_vfs_dread ::
    "'k old_kernel \<Rightarrow> addr \<Rightarrow> SceIoStat \<Rightarrow> 'k old_state \<Rightarrow>
     (s32 \<times> (SceIoStat \<times> string) option \<times> 'k old_state) option" where
  "old_vfs_dread K node st s = do {
     pDataPack \<leftarrow> getFileEntryByNode s node;
     if pDataPack = NULL then Some (-1, None, s)
     else do {
       d \<leftarrow> pack_of s pDataPack;
       if dp_dir_entry d = NULL then Some (0, None, s)
       else do {
         e \<leftarrow> file_of s (dp_dir_entry d);
         if fe_get_io_stat_cb e = None \<and> fe_stat e = NULL then Some (-1, None, s)
         else do {
           st \<leftarrow> entry_stat K e st s;
           nm \<leftarrow> ostr_of s (fe_name e);
           Some (1, Some (st, snprintf 255 nm), put_pack pDataPack (d\<lparr>dp_dir_entry := fe_next e\<rparr>) s)
         }
       }
     }
   }"

section \<open>Status\<close>

definition entry_next :: "'k old_state \<Rightarrow> addr \<Rightarrow> addr option" where
  "entry_next s p = map_option fe_next (file_of s p)"

definition entry_named :: "'k old_state \<Rightarrow> string \<Rightarrow> addr \<Rightarrow> bool option" where
  "entry_named s path p = do { e \<leftarrow> file_of s p; nm \<leftarrow> ostr_of s (fe_name e); Some (path = nm) }"

partial_function (option) stat_walk :: "'k old_state \<Rightarrow> string \<Rightarrow> addr \<Rightarrow> addr option" where
  "stat_walk s path p =
     (if p = NULL then Some NULL
      else case entry_named s path p of None \<Rightarrow> None
           | Some b \<Rightarrow>
               if b then Some p
               else (case entry_next s p of None \<Rightarrow> None | Some q \<Rightarrow> stat_walk s path q))"

interpretation entries: chain_search entry_next entry_named stat_walk
  by unfold_locales (rule stat_walk.simps)

definition old_vfs_get_stat ::
    "'k old_kernel \<Rightarrow> addr \<Rightarrow> string \<Rightarrow> SceIoStat \<Rightarrow> 'k old_state \<Rightarrow> (s32 \<times> SceIoStat) option" where
  "old_vfs_get_stat K node path st s =
     (if node = root_node s then Some (0, (stat_file_tpl K)\<lparr>st_size := 0x100000\<rparr>)
      else do {
        n \<leftarrow> onode_of s node;
        pDataPack \<leftarrow> getFileEntryByNode s (vn_prev_node n);
        if pDataPack = NULL then Some (-1, st)
        else do {
          d \<leftarrow> pack_of s pDataPack;
          p \<leftarrow> stat_walk s path (dp_dir_entry_root d);
          if p = NULL then Some (-1, st)
          else do { e \<leftarrow> file_of s p; st \<leftarrow> entry_stat K e st s; Some (0, st) }
        }
      })"

text \<open>The code ends with \<open>return -1\<close> also when the status was found.\<close>

definition old_vfs_get_stat_by_fd ::
    "'k old_kernel \<Rightarrow> addr \<Rightarrow> SceIoStat \<Rightarrow> 'k old_state \<Rightarrow> (s32 \<times> SceIoStat) option" where
  "old_vfs_get_stat_by_fd K node st s = do {
     pDataPack \<leftarrow> getFileEntryByNode s node;
     if pDataPack = NULL then Some (-1, st)
     else do {
       d \<leftarrow> pack_of s pDataPack;
       e \<leftarrow> file_of s (dp_dir_entry d);
       st \<leftarrow> entry_stat K e st s;
       Some (-1, st)
     }
   }"

text \<open>The result is the code and the new vnode.\<close>

definition old_vfs_part_init ::
    "'k old_kernel \<Rightarrow> addr \<Rightarrow> string \<Rightarrow> 'k old_state \<Rightarrow> (s32 \<times> addr \<times> 'k old_state) option" where
  "old_vfs_part_init K node path s = do {
     n \<leftarrow> onode_of s node;
     if vn_mount n = NULL then Some (0x80010016, NULL, s)
     else do {
       let (res, p, v, k) = ok_new_node K (okst s) (vn_mount n) (\<lambda>a. onodes s a \<noteq> None);
       let s = s\<lparr>okst := k\<rparr>;
       if failed res then Some (res, NULL, s)
       else if p = NULL then Some (0x80010016, NULL, s)
       else do {
         let s = put_onode p v (s\<lparr>okst := ok_node_wait K (okst s) p\<rparr>);
         n \<leftarrow> onode_of s node;
         let v = v\<lparr>vn_dev_info := NULL, vn_mount := vn_mount n, vn_prev_node := node, vn_unk_74 := 1,
                   vn_unk_78 := 0x2010\<rparr>;
         (res, _) \<leftarrow> getDirEntry K path s;
         let v = (if res = 0 then v\<lparr>vn_unk_78 := ok_S_IFDIR K OR ok_S_IWUSR K OR ok_S_IRUSR K\<rparr> else v);
         Some (0, p, put_onode p v s)
       }
     }
   }"

section \<open>Module entry\<close>

text \<open>
  \<open>oe_export\<close>: the result of looking up a function by module, library and function number.  The
  other functions are the calls of \<open>module_start\<close> with their arguments where they vary.
\<close>

record 'k old_env =
  oe_export :: "string \<Rightarrow> u32 \<Rightarrow> u32 \<Rightarrow> s32"
  oe_create_class :: "'k \<Rightarrow> string \<Rightarrow> 'k"
  oe_create_heap :: "'k \<Rightarrow> string \<Rightarrow> SceSize \<Rightarrow> s32 \<times> 'k"
  oe_alloc_paddr :: "'k \<Rightarrow> string \<Rightarrow> u32 \<Rightarrow> SceSize \<Rightarrow> addr \<Rightarrow> s32 \<times> 'k"
  oe_block_base :: "'k \<Rightarrow> s32 \<Rightarrow> addr"
  oe_is_tool :: "'k \<Rightarrow> s32"
  oe_manufacturing :: "'k \<Rightarrow> s32"
  oe_unmount :: "'k \<Rightarrow> string \<Rightarrow> s32 \<times> 'k"
  oe_delete_vfs :: "'k \<Rightarrow> string \<Rightarrow> s32 \<times> 'k"
  oe_add_vfs :: "'k \<Rightarrow> string \<Rightarrow> s32 \<times> 'k"
  oe_mount :: "'k \<Rightarrow> string \<Rightarrow> string \<Rightarrow> s32 \<times> 'k"
  oe_START_SUCCESS :: s32
  oe_START_FAILED :: s32

definition init_itemmgr :: "'k old_env \<Rightarrow> 'k \<Rightarrow> 'k" where
  "init_itemmgr E k = oe_create_class E k ''SceTestClass''"

definition init_l2_cache_reg :: "'k old_env \<Rightarrow> 'k \<Rightarrow> addr \<times> 'k" where
  "init_l2_cache_reg E k =
     (let (memid, k) = oe_alloc_paddr E k ''SceL2CacheRegVfs'' 0x20100206 0x1000 (push_bit 0xD 0xD001)
      in (oe_block_base E k memid, k))"

definition has_export :: "'k old_env \<Rightarrow> string \<Rightarrow> (u32 \<times> u32) \<Rightarrow> (u32 \<times> u32) \<Rightarrow> bool" where
  "has_export E m f g \<longleftrightarrow>
     \<not> (failed (oe_export E m (fst f) (snd f)) \<and> failed (oe_export E m (fst g) (snd g)))"

definition old_module_start :: "'k old_env \<Rightarrow> 'k \<Rightarrow> s32 \<times> 'k" where
  "old_module_start E k =
     (if \<not> has_export E ''SceKernelModulemgr'' (0xC445FA63, 0xD269F915) (0x92C9FFC2, 0xDAA90093)
      then (oe_START_FAILED E, k)
      else if \<not> has_export E ''SceKernelModulemgr'' (0xC445FA63, 0x97CF7B4E) (0x92C9FFC2, 0xB72C75A4)
      then (oe_START_FAILED E, k)
      else if \<not> has_export E ''SceSysmem'' (0x63A519E5, 0xDF0288D7) (0x02451F0F, 0xFB6390CE)
      then (oe_START_FAILED E, k)
      else let k = init_itemmgr E k;
               (heap_uid, k) = oe_create_heap E k ''FapsVfsHost0'' 0x10000;
               (_, k) = init_l2_cache_reg E k
        in if oe_is_tool E k = 0
           then let (_, k) = oe_unmount E k ''/host'';
                    (_, k) = oe_delete_vfs E k ''bsod_dummy_host_fs'';
                    (_, k) = oe_add_vfs E k ''faps_dummy_host_fs'';
                    (_, k) = oe_mount E k ''/host'' ''host0:''
             in (oe_START_SUCCESS E, k)
           else if oe_manufacturing E k \<noteq> 0 then (oe_START_FAILED E, k)
           else let (_, k) = oe_add_vfs E k ''faps_dummy_host_fs'';
                    (_, k) = oe_mount E k ''/md'' ''vsd0:''
             in (oe_START_SUCCESS E, k))"

end
