(* ===== verification/Old_Vfs_Items.thy ===== *)
theory Old_Vfs_Items
  imports Old_Vfs_Ops
begin

text \<open>
  The open items of \<open>item_mgr.c\<close> as an abstract list.  \<open>items s xs\<close>: the doubly linked list from
  \<open>last_obj\<close> has the items \<open>xs\<close> in this order, each with its address and its fields but the links,
  and every \<open>prev\<close> points to the item before.
\<close>

definition erase :: "DataPack \<Rightarrow> DataPack" where
  "erase d = d\<lparr>dp_next := NULL, dp_prev := NULL\<rparr>"

lemma erase_sel [simp]:
  "dp_uid (erase d) = dp_uid d" "dp_node (erase d) = dp_node d" "dp_seek (erase d) = dp_seek d"
  "dp_size (erase d) = dp_size d" "dp_dir_entry_root (erase d) = dp_dir_entry_root d"
  "dp_dir_entry (erase d) = dp_dir_entry d" "erase (d\<lparr>dp_next := p\<rparr>) = erase d"
  "erase (d\<lparr>dp_prev := p\<rparr>) = erase d" "erase (erase d) = erase d"
  by (simp_all add: erase_def)

text \<open>A segment: it starts at \<open>p\<close> after \<open>pr\<close>, ends with \<open>l\<close>, and \<open>e\<close> follows.\<close>

type_synonym item = "addr \<times> DataPack"

fun dseg :: "'k old_state \<Rightarrow> addr \<Rightarrow> addr \<Rightarrow> item list \<Rightarrow> addr \<Rightarrow> addr \<Rightarrow> bool" where
  "dseg s pr p [] l e \<longleftrightarrow> p = e \<and> pr = l"
| "dseg s pr p (x # xs) l e \<longleftrightarrow> p = fst x \<and> (\<exists>d. pack_of s p = Some d \<and> dp_prev d = pr \<and>
     erase d = snd x \<and> dseg s p (dp_next d) xs l e)"

definition items :: "'k old_state \<Rightarrow> item list \<Rightarrow> bool" where
  "items s xs \<longleftrightarrow> (\<exists>l. dseg s NULL (last_obj s) xs l NULL)"

abbreviation adrs :: "item list \<Rightarrow> addr set" where
  "adrs xs \<equiv> fst ` set xs"

lemma pack_of_NULL [simp]: "pack_of s NULL = None"
  by (simp add: pack_of_def)

lemma pack_of_put [simp]:
  "pack_of (put_pack p d s) q = (if q = NULL then None else if q = p then Some d else pack_of s q)"
  by (simp add: pack_of_def put_pack_def)

lemma pack_of_more [simp]:
  "pack_of (s\<lparr>last_obj := v\<rparr>) = pack_of s" "pack_of (s\<lparr>okst := k\<rparr>) = pack_of s"
  "pack_of (s\<lparr>root_node := v\<rparr>) = pack_of s"
  "last_obj (put_pack p d s) = last_obj s" "root_node (put_pack p d s) = root_node s"
  "oheap (put_pack p d s) = oheap s" "onodes (put_pack p d s) = onodes s"
  "okst (put_pack p d s) = okst s" "map_conf1_data (put_pack p d s) = map_conf1_data s"
  by (simp_all add: pack_of_def put_pack_def fun_eq_iff)

lemma dseg_append: "dseg s pr p (xs @ ys) l e \<longleftrightarrow> (\<exists>m n. dseg s pr p xs m n \<and> dseg s m n ys l e)"
  by (induction xs arbitrary: pr p) auto

lemma dseg_cong:
  "(\<And>a. a \<in> adrs xs \<Longrightarrow> pack_of s a = pack_of s' a) \<Longrightarrow> dseg s pr p xs l e = dseg s' pr p xs l e"
  by (induction xs arbitrary: pr p) auto

lemma dseg_put [simp]: "q \<notin> adrs xs \<Longrightarrow> dseg (put_pack q d s) pr p xs l e = dseg s pr p xs l e"
  by (rule dseg_cong) auto

lemma dseg_more [simp]:
  "dseg (s\<lparr>last_obj := v\<rparr>) pr p xs l e = dseg s pr p xs l e" "dseg (s\<lparr>okst := k\<rparr>) pr p xs l e = dseg s pr p xs l e"
  by (rule dseg_cong, simp)+

lemma dseg_chain: "dseg s pr p xs l NULL \<Longrightarrow> chain (pack_next s) p (map fst xs)"
  by (induction xs arbitrary: pr p) (auto simp: pack_next_def)

lemma dseg_last: "dseg s pr p xs l e \<Longrightarrow> xs \<noteq> [] \<Longrightarrow> l = fst (last xs)"
proof (induction xs arbitrary: pr p)
  case (Cons a xs)
  then show ?case by (cases "xs = []") auto
qed simp

lemma items_distinct: "items s xs \<Longrightarrow> distinct (map fst xs)"
  using dseg_chain chain_distinct unfolding items_def by blast

lemma items_pack: "items s xs \<Longrightarrow> (a, x) \<in> set xs \<Longrightarrow>
  \<exists>d. pack_of s a = Some d \<and> erase d = x \<and> dp_node d = dp_node x"
proof -
  have "dseg s pr p xs l e \<Longrightarrow> (a, x) \<in> set xs \<Longrightarrow> \<exists>d. pack_of s a = Some d \<and> erase d = x" for pr p l e
    by (induction xs arbitrary: pr p) auto
  then show "items s xs \<Longrightarrow> (a, x) \<in> set xs \<Longrightarrow> ?thesis"
    unfolding items_def using erase_sel(2) by metis
qed

text \<open>The two ends of a segment can be redirected.\<close>

lemma dseg_set_next:
  assumes "dseg s pr p xs m n" "xs \<noteq> []" "distinct (map fst xs)"
  shows "\<exists>d. pack_of s m = Some d \<and> dseg (put_pack m (d\<lparr>dp_next := n'\<rparr>) s) pr p xs m n'"
proof -
  obtain ys y where xs: "xs = ys @ [y]" using assms(2) by (meson rev_exhaust)
  from assms(1) obtain m1 n1 d where 1: "dseg s pr p ys m1 n1" "n1 = fst y" "m = n1" "pack_of s n1 = Some d"
    "dp_prev d = m1" "erase d = snd y"
    unfolding xs dseg_append by auto
  have "n1 \<noteq> NULL" using 1(4) by auto
  moreover have "dseg (put_pack n1 (d\<lparr>dp_next := n'\<rparr>) s) pr p ys m1 n1"
    using 1(1,2) assms(3) xs by simp
  ultimately show ?thesis using 1 unfolding xs dseg_append by auto
qed

lemma dseg_set_prev:
  assumes "dseg s m n xs l e" "xs \<noteq> []" "distinct (map fst xs)"
  shows "n \<noteq> NULL \<and> (\<exists>d. pack_of s n = Some d \<and> dseg (put_pack n (d\<lparr>dp_prev := m'\<rparr>) s) m' n xs l e)"
proof -
  obtain y ys where xs: "xs = y # ys" using assms(2) by (cases xs) auto
  with assms(1) obtain d where 1: "n = fst y" "pack_of s n = Some d" "erase d = snd y"
    "dseg s n (dp_next d) ys l e" by auto
  have "n \<noteq> NULL" using 1(2) by auto
  moreover have "dseg (put_pack n (d\<lparr>dp_prev := m'\<rparr>) s) n (dp_next d) ys l e"
    using 1 assms(3) xs by simp
  ultimately show ?thesis using 1 xs by auto
qed

section \<open>Reading\<close>

definition find_item :: "addr \<Rightarrow> item list \<Rightarrow> addr" where
  "find_item node xs = (case find (\<lambda>x. dp_node (snd x) = node) xs of None \<Rightarrow> NULL | Some x \<Rightarrow> fst x)"

lemma search_items:
  assumes "items s xs"
  shows "getFileEntryByNode s node = Some (find_item node xs)"
proof -
  let ?P = "\<lambda>a. pack_is s node a = Some True"
  have hit: "pack_is s node (fst x) = Some (dp_node (snd x) = node)" if "x \<in> set xs" for x
    using items_pack [OF assms, of "fst x" "snd x"] that by (auto simp: pack_is_def)
  have "chain (pack_next s) (last_obj s) (map fst xs)"
    using assms dseg_chain unfolding items_def by blast
  moreover have "pack_is s node a = Some (?P a)" if "a \<in> set (map fst xs)" for a
    using that hit by auto
  ultimately have "pack_search s node (last_obj s) =
      Some (case find ?P (map fst xs) of None \<Rightarrow> NULL | Some a \<Rightarrow> a)"
    by (rule pack.search_find)
  also have "find ?P (map fst xs) = map_option fst (find (\<lambda>x. dp_node (snd x) = node) xs)"
    using hit by (induction xs) auto
  finally show ?thesis
    by (simp add: getFileEntryByNode_def find_item_def map_option_case split: option.splits)
qed

lemma find_item_in:
  "find_item node xs \<noteq> NULL \<Longrightarrow>
   \<exists>as x bs. xs = as @ (find_item node xs, x) # bs \<and> dp_node x = node \<and>
     (\<forall>y \<in> set as. dp_node (snd y) \<noteq> node)"
proof (induction xs)
  case (Cons y xs)
  show ?case
  proof (cases "dp_node (snd y) = node")
    case True
    then show ?thesis by (intro exI [of _ "[]"] exI [of _ "snd y"] exI [of _ xs]) (simp add: find_item_def)
  next
    case False
    then have f: "find_item node (y # xs) = find_item node xs" by (simp add: find_item_def)
    then obtain as x bs where "xs = as @ (find_item node xs, x) # bs" "dp_node x = node"
      "\<forall>y \<in> set as. dp_node (snd y) \<noteq> node" using Cons by auto
    then show ?thesis using False f
      by (intro exI [of _ "y # as"] exI [of _ x] exI [of _ bs]) simp
  qed
qed (simp add: find_item_def)

section \<open>Making and deleting an item\<close>

text \<open>An object that can be had is at an address where there is none.\<close>

definition uid_contract :: "'k old_kernel \<Rightarrow> bool" where
  "uid_contract K \<longleftrightarrow> (\<forall>k used r p k'. ok_create_uid K k used = (r, p, k') \<longrightarrow> \<not> failed r \<longrightarrow>
     p \<noteq> NULL \<and> \<not> used p)"

lemma put_pack_twice [simp]: "put_pack p d (put_pack p e s) = put_pack p d s"
  by (simp add: put_pack_def)

lemma init_patch_items:
  assumes I: "items s xs" and p: "p \<noteq> NULL" "p \<notin> adrs xs"
  shows "\<exists>s'. init_patch p s = Some s' \<and> items s' ((p, zero_pack) # xs) \<and> oheap s' = oheap s \<and>
    onodes s' = onodes s \<and> root_node s' = root_node s \<and> okst s' = okst s \<and> map_conf1_data s' = map_conf1_data s"
proof -
  let ?s = "put_pack p zero_pack s"
  from I obtain l where l: "dseg s NULL (last_obj s) xs l NULL" by (auto simp: items_def)
  have z: "erase (zero_pack\<lparr>dp_next := q\<rparr>) = zero_pack" "dp_prev zero_pack = NULL" for q
    by (simp_all add: zero_pack_def erase_def)
  have 1: "dseg ?s NULL (last_obj s) xs l NULL"
    using l p by simp
  show ?thesis
  proof (cases "xs = []")
    case True
    then show ?thesis using l p z by (simp add: init_patch_def items_def)
  next
    case False
    with 1 items_distinct [OF I] obtain d where d: "last_obj s \<noteq> NULL" "pack_of ?s (last_obj s) = Some d"
      "dseg (put_pack (last_obj s) (d\<lparr>dp_prev := p\<rparr>) ?s) p (last_obj s) xs l NULL"
      using dseg_set_prev [of ?s NULL "last_obj s" xs l NULL p] by auto
    let ?s2 = "put_pack (last_obj s) (d\<lparr>dp_prev := p\<rparr>) ?s"
    let ?s3 = "put_pack p (zero_pack\<lparr>dp_next := last_obj s\<rparr>) ?s2"
    have ne: "last_obj s \<noteq> p" using l False p(2) by (cases xs) auto
    have "dseg (?s3\<lparr>last_obj := p\<rparr>) p (last_obj s) xs l NULL"
      using d(3) p by simp
    then have "items (?s3\<lparr>last_obj := p\<rparr>) ((p, zero_pack) # xs)"
      using p(1) z unfolding items_def by (intro exI [of _ l]) simp
    moreover have "init_patch p s = Some (?s3\<lparr>last_obj := p\<rparr>)"
      using d(1,2) p(1) ne by (simp add: init_patch_def)
    ultimately show ?thesis by simp
  qed
qed

lemma items_split:
  assumes "items s (as @ (p, x) # bs)"
  obtains m d l where "dseg s NULL (last_obj s) as m p" "pack_of s p = Some d" "dp_prev d = m"
    "erase d = x" "dseg s p (dp_next d) bs l NULL" "p \<notin> adrs as" "p \<notin> adrs bs"
proof -
  from assms obtain m d l where "dseg s NULL (last_obj s) as m p" "pack_of s p = Some d" "dp_prev d = m"
    "erase d = x" "dseg s p (dp_next d) bs l NULL"
    unfolding items_def dseg_append by auto
  with items_distinct [OF assms] show thesis using that by auto
qed

text \<open>The fields that are not links can be stored.\<close>

lemma items_put:
  assumes "items s (as @ (p, x) # bs)" "pack_of s p = Some d" "dp_next d' = dp_next d" "dp_prev d' = dp_prev d"
  shows "items (put_pack p d' s) (as @ (p, erase d') # bs)"
  using assms(1)
proof (rule items_split)
  fix m d0 l
  assume 1: "dseg s NULL (last_obj s) as m p" "pack_of s p = Some d0" "dp_prev d0 = m"
    "erase d0 = x" "dseg s p (dp_next d0) bs l NULL" "p \<notin> adrs as" "p \<notin> adrs bs"
  have "p \<noteq> NULL" using 1(2) by auto
  then show ?thesis
    using 1 assms(2-4) unfolding items_def dseg_append
    by (intro exI [of _ l] exI [of _ m] exI [of _ p]) auto
qed

lemma unlink_next:
  assumes I: "items s (as @ (p, x) # bs)" and d: "pack_of s p = Some d"
  obtains s1 l where
    "(if dp_prev d = NULL then Some (s\<lparr>last_obj := dp_next d\<rparr>)
      else Option.bind (pack_of s (dp_prev d))
        (\<lambda>q. Some (put_pack (dp_prev d) (q\<lparr>dp_next := dp_next d\<rparr>) s))) = Some s1"
    "dseg s1 NULL (last_obj s1) as (dp_prev d) (dp_next d)" "dseg s1 p (dp_next d) bs l NULL"
    "oheap s1 = oheap s" "onodes s1 = onodes s" "root_node s1 = root_node s" "okst s1 = okst s"
  using I
proof (rule items_split)
  fix m d0 l
  assume 1: "dseg s NULL (last_obj s) as m p" "pack_of s p = Some d0" "dp_prev d0 = m"
    "erase d0 = x" "dseg s p (dp_next d0) bs l NULL" "p \<notin> adrs as" "p \<notin> adrs bs"
  show thesis
  proof (cases "as = []")
    case True
    then show thesis using 1 d by (intro that [of "s\<lparr>last_obj := dp_next d\<rparr>" l]) auto
  next
    case False
    have dist: "distinct (map fst (as @ (p, x) # bs))" by (rule items_distinct [OF I])
    obtain q where q: "pack_of s m = Some q"
      "dseg (put_pack m (q\<lparr>dp_next := dp_next d\<rparr>) s) NULL (last_obj s) as m (dp_next d)"
      using dseg_set_next [OF 1(1) False, of "dp_next d"] dist by auto
    have "m \<in> adrs as" using dseg_last [OF 1(1) False] False by simp
    then have "m \<notin> adrs bs" using dist by auto
    moreover have "m \<noteq> NULL" using q(1) by auto
    ultimately show thesis using 1 d q
      by (intro that [of "put_pack m (q\<lparr>dp_next := dp_next d\<rparr>) s" l]) simp_all
  qed
qed

lemma unlink_prev:
  assumes "dseg s1 NULL (last_obj s1) as m n" "dseg s1 p n bs l NULL" "distinct (map fst (as @ bs))"
  obtains s2 where
    "(if n \<noteq> NULL
      then Option.bind (pack_of s1 n) (\<lambda>q. Some (put_pack n (q\<lparr>dp_prev := m\<rparr>) s1)) else Some s1) = Some s2"
    "items s2 (as @ bs)"
    "oheap s2 = oheap s1" "onodes s2 = onodes s1" "root_node s2 = root_node s1" "okst s2 = okst s1"
proof (cases "bs = []")
  case True
  then show thesis using assms by (intro that [of s1]) (auto simp: items_def)
next
  case False
  obtain q where q: "n \<noteq> NULL" "pack_of s1 n = Some q"
    "dseg (put_pack n (q\<lparr>dp_prev := m\<rparr>) s1) m n bs l NULL"
    using dseg_set_prev [OF assms(2) False, of m] assms(3) by auto
  have "n \<in> adrs bs" using assms(2) False by (cases bs) auto
  then have "n \<notin> adrs as" using assms(3) by auto
  then show thesis using q assms(1)
    by (intro that [of "put_pack n (q\<lparr>dp_prev := m\<rparr>) s1"]) (auto simp: items_def dseg_append)
qed

lemma free_patch_items:
  assumes I: "items s (as @ (p, x) # bs)"
  shows "\<exists>s'. free_patch p s = Some s' \<and> items (s'\<lparr>packs := (packs s')(p := None)\<rparr>) (as @ bs) \<and>
    oheap s' = oheap s \<and> onodes s' = onodes s \<and> root_node s' = root_node s \<and> okst s' = okst s"
proof -
  obtain d where d: "pack_of s p = Some d" using items_pack [OF I, of p x] by auto
  have dist: "distinct (map fst (as @ bs))" "p \<notin> adrs (as @ bs)" using items_distinct [OF I] by auto
  obtain s1 l where 1: "(if dp_prev d = NULL then Some (s\<lparr>last_obj := dp_next d\<rparr>)
      else Option.bind (pack_of s (dp_prev d))
        (\<lambda>q. Some (put_pack (dp_prev d) (q\<lparr>dp_next := dp_next d\<rparr>) s))) = Some s1"
    "dseg s1 NULL (last_obj s1) as (dp_prev d) (dp_next d)" "dseg s1 p (dp_next d) bs l NULL"
    "oheap s1 = oheap s" "onodes s1 = onodes s" "root_node s1 = root_node s" "okst s1 = okst s"
    using unlink_next [OF I d] by blast
  obtain s2 where 2: "(if dp_next d \<noteq> NULL
      then Option.bind (pack_of s1 (dp_next d)) (\<lambda>q. Some (put_pack (dp_next d) (q\<lparr>dp_prev := dp_prev d\<rparr>) s1))
      else Some s1) = Some s2" "items s2 (as @ bs)"
    "oheap s2 = oheap s1" "onodes s2 = onodes s1" "root_node s2 = root_node s1" "okst s2 = okst s1"
    using unlink_prev [OF 1(2,3) dist(1)] by blast
  have "free_patch p s = Some s2"
    unfolding free_patch_def d bind.bind_lunit 1(1) using 2(1) by simp
  moreover have "dseg (s2\<lparr>packs := (packs s2)(p := None)\<rparr>) pr q (as @ bs) l e = dseg s2 pr q (as @ bs) l e"
    for pr q l e
    by (rule dseg_cong) (use dist(2) in \<open>auto simp: pack_of_def\<close>)
  then have "items (s2\<lparr>packs := (packs s2)(p := None)\<rparr>) (as @ bs)"
    using 2(2) by (simp add: items_def)
  ultimately show ?thesis using 1 2 by simp
qed

lemma create_item_cases:
  assumes I: "items s xs" and K: "uid_contract K"
  obtains (fail) r s' where "create_file_item K node s = Some (r, NULL, s')" "failed r" "items s' xs"
      "failed (fst (ok_create_uid K (okst s) (\<lambda>a. packs s a \<noteq> None)))"
    | (ok) uid p s' where "create_file_item K node s = Some (0, p, s')"
      "\<not> failed (fst (ok_create_uid K (okst s) (\<lambda>a. packs s a \<noteq> None)))"
      "p \<noteq> NULL" "packs s p = None" "p \<notin> adrs xs"
      "items s' ((p, zero_pack\<lparr>dp_uid := uid, dp_node := node\<rparr>) # xs)"
      "oheap s' = oheap s" "onodes s' = onodes s" "root_node s' = root_node s"
      "map_conf1_data s' = map_conf1_data s"
proof -
  obtain r p k where u: "ok_create_uid K (okst s) (\<lambda>a. packs s a \<noteq> None) = (r, p, k)"
    by (metis prod_cases3)
  have I': "items (s\<lparr>okst := k\<rparr>) xs" using I by (simp add: items_def)
  show thesis
  proof (cases "failed r")
    case True
    then show thesis using u I' by (intro fail) (simp_all add: create_file_item_def)
  next
    case False
    then have p: "p \<noteq> NULL" "packs s p = None" using K [unfolded uid_contract_def, rule_format, OF u False] by auto
    have "p \<notin> adrs xs"
    proof
      assume "p \<in> adrs xs"
      then show False using items_pack [OF I] p by (fastforce simp: pack_of_def)
    qed
    note p = p this
    from init_patch_items [OF I' p(1,3)] obtain s1 where s1: "init_patch p (s\<lparr>okst := k\<rparr>) = Some s1"
      "items s1 ((p, zero_pack) # xs)" "oheap s1 = oheap s" "onodes s1 = onodes s"
      "root_node s1 = root_node s" "map_conf1_data s1 = map_conf1_data s" by auto
    obtain d where d: "pack_of s1 p = Some d" "erase d = zero_pack"
      using items_pack [OF s1(2), of p zero_pack] by auto
    have "items (put_pack p (d\<lparr>dp_uid := r, dp_node := node\<rparr>) s1)
        ((p, zero_pack\<lparr>dp_uid := r, dp_node := node\<rparr>) # xs)"
    proof -
      have "erase (d\<lparr>dp_uid := r, dp_node := node\<rparr>) = zero_pack\<lparr>dp_uid := r, dp_node := node\<rparr>"
        unfolding d(2) [symmetric] by (simp add: erase_def)
      then show ?thesis
        using items_put [of s1 "[]" p zero_pack xs d "d\<lparr>dp_uid := r, dp_node := node\<rparr>"] s1(2) d(1) by simp
    qed
    then show thesis using u False p s1 d
      by (intro ok [of p "put_pack p (d\<lparr>dp_uid := r, dp_node := node\<rparr>) s1" r])
        (simp_all add: create_file_item_def)
  qed
qed

section \<open>Properties\<close>

text \<open>
  C23: closing a file.  A vnode without an item is refused; otherwise the first item of the vnode
  leaves the list, and with it the store, and all others keep their place and contents; when the
  object cannot be deleted the list is as it was.
\<close>

theorem old_vfs_close_spec:
  assumes I: "items s xs"
  shows "\<exists>r s'. old_vfs_close K node s = Some (r, s') \<and> oheap s' = oheap s \<and>
    (if find_item node xs = NULL then r = -1 \<and> s' = s
     else \<exists>as x bs. xs = as @ (find_item node xs, x) # bs \<and> dp_node x = node \<and>
       (\<forall>y \<in> set as. dp_node (snd y) \<noteq> node) \<and> r = fst (ok_delete_uid K (okst s) (dp_uid x)) \<and>
       (if failed r then items s' xs
        else items s' (as @ bs) \<and> packs s' (find_item node xs) = None))"
proof (cases "find_item node xs = NULL")
  case True
  then show ?thesis using search_items [OF I] by (simp add: old_vfs_close_def)
next
  case False
  define p where "p = find_item node xs"
  obtain as x bs where xs: "xs = as @ (p, x) # bs" "dp_node x = node" "\<forall>y \<in> set as. dp_node (snd y) \<noteq> node"
    using find_item_in [OF False] unfolding p_def by blast
  obtain d where d: "pack_of s p = Some d" "erase d = x" using items_pack [OF I, of p x] xs(1) by auto
  then have uid: "dp_uid d = dp_uid x" by auto
  obtain r k where u: "ok_delete_uid K (okst s) (dp_uid x) = (r, k)" by force
  have I': "items (s\<lparr>okst := k\<rparr>) (as @ (p, x) # bs)" using I xs(1) by (simp add: items_def)
  have close: "old_vfs_close K node s = delete_item K p s"
    using search_items [OF I, of node] False by (simp add: old_vfs_close_def p_def)
  let ?D = "\<lambda>r s'. \<exists>as x bs. xs = as @ (p, x) # bs \<and> dp_node x = node \<and>
       (\<forall>y \<in> set as. dp_node (snd y) \<noteq> node) \<and> r = fst (ok_delete_uid K (okst s) (dp_uid x)) \<and>
       (if failed r then items s' xs else items s' (as @ bs) \<and> packs s' p = None)"
  have "\<exists>r s'. old_vfs_close K node s = Some (r, s') \<and> oheap s' = oheap s \<and> ?D r s'"
  proof (cases "failed r")
    case True
    then have "old_vfs_close K node s = Some (r, s\<lparr>okst := k\<rparr>)"
      unfolding close using d uid u by (simp add: delete_item_def)
    moreover have "?D r (s\<lparr>okst := k\<rparr>)"
      using I' xs u True by (intro exI [of _ as] exI [of _ x] exI [of _ bs]) simp
    moreover have "oheap (s\<lparr>okst := k\<rparr>) = oheap s" by simp
    ultimately show ?thesis by blast
  next
    case ok: False
    obtain s1 where s1: "free_patch p (s\<lparr>okst := k\<rparr>) = Some s1"
      "items (s1\<lparr>packs := (packs s1)(p := None)\<rparr>) (as @ bs)" "oheap s1 = oheap s"
      using free_patch_items [OF I'] by auto
    let ?s2 = "s1\<lparr>packs := (packs s1)(p := None)\<rparr>"
    have "old_vfs_close K node s = Some (r, ?s2)"
      unfolding close using d uid u ok s1(1) by (simp add: delete_item_def)
    moreover have "?D r ?s2"
      using s1 xs u ok by (intro exI [of _ as] exI [of _ x] exI [of _ bs]) simp
    moreover have "oheap ?s2 = oheap s" using s1(3) by simp
    ultimately show ?thesis by blast
  qed
  then show ?thesis unfolding p_def [symmetric] using False [folded p_def] by (simp only: if_False simp_thms)
qed

lemma put_pack_same: "pack_of s p = Some d \<Longrightarrow> put_pack p d s = s"
  by (auto simp: put_pack_def pack_of_def fun_upd_idem split: if_splits)

text \<open>An open callback of a well-formed entry sets at most the size.\<close>

definition open_cb_ok :: "'k old_state \<Rightarrow> FileEntry \<Rightarrow> bool" where
  "open_cb_ok s e \<longleftrightarrow> (fe_open_cb e = Some Open_module \<longrightarrow>
     (\<exists>m nm. mod_of s (fe_args_for_stat e) = Some m \<and> ostr_of s (ms_name m) = Some nm))"

lemma call_open_cb_size:
  assumes "open_cb_ok s e" "fe_open_cb e = Some cb" "pack_of s p = Some d"
  shows "\<exists>r sz. call_open_cb K cb p (fe_args_for_stat e) s = Some (r, put_pack p (d\<lparr>dp_size := sz\<rparr>) s)"
proof (cases cb)
  case Open_map_mem1
  then show ?thesis using assms(3) by (auto simp: open_map_mem1_cb_def)
next
  case Open_module
  then obtain m nm where m: "mod_of s (fe_args_for_stat e) = Some m" "ostr_of s (ms_name m) = Some nm"
    using assms by (auto simp: open_cb_ok_def)
  obtain v sz where "om_segs (ok_module_info K (okst s) (ok_search_module K (okst s) nm)) (ms_seg m) = (v, sz)"
    by force
  moreover have "put_pack p (d\<lparr>dp_size := dp_size d\<rparr>) s = s" using put_pack_same [OF assms(3)] by simp
  ultimately have "call_open_cb K cb p (fe_args_for_stat e) s =
      (if failed (ok_search_module K (okst s) nm)
       then Some (ok_search_module K (okst s) nm, put_pack p (d\<lparr>dp_size := dp_size d\<rparr>) s)
       else Some (0, put_pack p (d\<lparr>dp_size := ucast sz\<rparr>) s))"
    using assms(3) m Open_module by (simp add: open_module_cb_def arg_module_def)
  then show ?thesis by (cases "failed (ok_search_module K (okst s) nm)") (simp_all only: if_True if_False, blast+)
qed

text \<open>
  C22: opening a file on every branch.  The directory must be open and the path must lead to an
  entry, and the flags be among those the entry allows, else nothing changes.  When no object can be
  had the item pointer has no value and using it is a fault: the result is not looked at.  Otherwise
  a new item is in front of the list, for this vnode and entry, at offset 0, and with the size of the
  entry when it has no callback.
\<close>

theorem old_vfs_open_spec:
  assumes I: "items s xs" and K: "uid_contract K" and n: "onode_of s node = Some n"
    and g: "getFileEntry K path s = Some (res, q)"
    and e: "\<not> failed res \<Longrightarrow> file_of s q = Some e" "open_cb_ok s e"
  shows "if find_item (vn_prev_node n) xs = NULL \<or> failed res
    then old_vfs_open K node path flags s = Some (0x80010002, s)
    else if flags AND NOT (fe_open_allow_flags e) \<noteq> 0
    then old_vfs_open K node path flags s = Some (0x80010001, s)
    else if failed (fst (ok_create_uid K (okst s) (\<lambda>a. packs s a \<noteq> None)))
    then old_vfs_open K node path flags s = None
    else \<exists>s' p x. old_vfs_open K node path flags s = Some (0, s') \<and> p \<notin> adrs xs \<and>
      items s' ((p, x) # xs) \<and> oheap s' = oheap s \<and> dp_node x = node \<and> dp_dir_entry x = q \<and>
      dp_seek x = 0 \<and> (fe_open_cb e = None \<longrightarrow> dp_size x = fe_size e)"
proof (cases "find_item (vn_prev_node n) xs = NULL \<or> failed res \<or> flags AND NOT (fe_open_allow_flags e) \<noteq> 0")
  case True
  then show ?thesis using n g e search_items [OF I] by (auto simp: old_vfs_open_def)
next
  case False
  note go = False
  have start: "old_vfs_open K node path flags s = (do {
      (_, item, s) \<leftarrow> create_file_item K node s;
      d \<leftarrow> pack_of s item;
      let s = put_pack item (d\<lparr>dp_dir_entry_root := NULL, dp_dir_entry := q, dp_seek := 0,
                               dp_size := fe_size e\<rparr>) s;
      case fe_open_cb e of None \<Rightarrow> Some (0, s)
      | Some cb \<Rightarrow> map_option (\<lambda>(_, s). (0, s)) (call_open_cb K cb item (fe_args_for_stat e) s) })"
    using n g e(1) search_items [OF I] go by (simp add: old_vfs_open_def)
  have go': "\<not> (find_item (vn_prev_node n) xs = NULL \<or> failed res)" "\<not> flags AND NOT (fe_open_allow_flags e) \<noteq> 0"
    using go by simp_all
  from I K show ?thesis
  proof (cases rule: create_item_cases [where node = node])
    case (fail r s')
    then show ?thesis unfolding if_not_P [OF go'(1)] if_not_P [OF go'(2)] by (simp add: start)
  next
    case (ok uid p s')
    let ?x = "zero_pack\<lparr>dp_uid := uid, dp_node := node\<rparr>"
    obtain d where d: "pack_of s' p = Some d" "erase d = ?x" using items_pack [OF ok(6), of p ?x] by auto
    define d1 where "d1 = d\<lparr>dp_dir_entry_root := NULL, dp_dir_entry := q, dp_seek := 0, dp_size := fe_size e\<rparr>"
    let ?s1 = "put_pack p d1 s'"
    have "dp_node d = node" using d(2) erase_sel(2) [of d] by simp
    then have node: "dp_node d1 = node" by (simp add: d1_def)
    have put: "items (put_pack p d' s') ((p, erase d') # xs)"
      if "dp_next d' = dp_next d" "dp_prev d' = dp_prev d" for d'
      using items_put [of s' "[]" p ?x xs d d'] ok(6) d(1) that by simp
    show ?thesis
    proof (cases "fe_open_cb e")
      case None
      have "old_vfs_open K node path flags s = Some (0, ?s1)"
        using ok(1) d(1) None by (simp add: start d1_def)
      moreover have "items ?s1 ((p, erase d1) # xs)" by (rule put) (simp_all add: d1_def)
      ultimately show ?thesis unfolding if_not_P [OF go'(1)] if_not_P [OF go'(2)] if_not_P [OF ok(2)]
        using ok(5,7) node
        by (intro exI [of _ ?s1] exI [of _ p] exI [of _ "erase d1"] conjI) (simp_all add: d1_def)
    next
      case (Some cb)
      have "mod_of ?s1 = mod_of s" "ostr_of ?s1 = ostr_of s"
        by (rule heap_reads_cong, simp add: ok(7))+
      then have "open_cb_ok ?s1 e" using e(2) by (simp add: open_cb_ok_def)
      moreover have "pack_of ?s1 p = Some d1" using ok(3) by simp
      ultimately obtain r sz where cb: "call_open_cb K cb p (fe_args_for_stat e) ?s1 =
          Some (r, put_pack p (d1\<lparr>dp_size := sz\<rparr>) ?s1)"
        using call_open_cb_size [OF _ Some] by blast
      let ?s2 = "put_pack p (d1\<lparr>dp_size := sz\<rparr>) s'"
      have "old_vfs_open K node path flags s = Some (0, ?s2)"
        using ok(1) d(1) Some cb by (simp add: start d1_def)
      moreover have "items ?s2 ((p, erase (d1\<lparr>dp_size := sz\<rparr>)) # xs)" by (rule put) (simp_all add: d1_def)
      ultimately show ?thesis unfolding if_not_P [OF go'(1)] if_not_P [OF go'(2)] if_not_P [OF ok(2)]
        using ok(5,7) node Some
        by (intro exI [of _ ?s2] exI [of _ p] exI [of _ "erase (d1\<lparr>dp_size := sz\<rparr>)"] conjI) (simp_all add: d1_def)
    qed
  qed
qed

section \<open>Reading a file\<close>

text \<open>
  What the callbacks need: the module argument of a segment, an item not larger than the two words
  of \<open>map_conf1_data\<close>.
\<close>

definition read_cb_ok :: "'k old_state \<Rightarrow> FileEntry \<Rightarrow> DataPack \<Rightarrow> bool" where
  "read_cb_ok s e d \<longleftrightarrow>
     (fe_read_cb e = Some Read_module \<longrightarrow>
        (\<exists>m nm. mod_of s (fe_args_for_stat e) = Some m \<and> ostr_of s (ms_name m) = Some nm)) \<and>
     (fe_read_cb e = Some Read_map_conf1 \<longrightarrow> unat (dp_size d) \<le> length (map_conf1_data s))"

definition seek_ok :: "DataPack \<Rightarrow> bool" where
  "seek_ok d \<longleftrightarrow> unat (dp_seek d) \<le> unat (dp_size d) \<and> unat (dp_size d) < 2 ^ 31"

lemma seek_ok_erase [simp]: "seek_ok (erase d) = seek_ok d"
  by (simp add: seek_ok_def)

lemma unat_readable:
  assumes "seek_ok d"
  shows "unat (readable_byte d) = unat (dp_size d) - unat (dp_seek d)"
proof -
  have "unat (dp_size d - dp_seek d) = unat (dp_size d) - unat (dp_seek d)"
    using assms by (simp add: seek_ok_def unat_sub word_le_nat_alt)
  moreover have "unat (dp_size d) - unat (dp_seek d) < 2 ^ 32" using assms by (auto simp: seek_ok_def)
  ultimately show ?thesis by (simp add: readable_byte_def unat_ucast_64_32)
qed

lemma unat_clip:
  assumes "seek_ok d"
  shows "unat (clip_size d sz) = min (unat sz) (unat (dp_size d) - unat (dp_seek d))"
  using unat_readable [OF assms] by (simp add: clip_size_def word_less_nat_alt min_def)

lemma clip_not_failed:
  assumes "seek_ok d"
  shows "\<not> failed (clip_size d sz)"
proof -
  have "unat (clip_size d sz) < 2 ^ 31" using unat_clip [OF assms, of sz] assms by (auto simp: seek_ok_def)
  then have "take_bit 31 (unat (clip_size d sz)) = unat (clip_size d sz)"
    by (simp add: take_bit_nat_eq_self_iff)
  then have "\<not> bit (unat (clip_size d sz)) 31" by (metis bit_take_bit_iff less_irrefl)
  then show ?thesis by (simp add: failed_iff_bit bit_unsigned_iff)
qed

text \<open>A read callback fails without an effect, or moves the offset by the cut size.\<close>

lemma call_read_cb_cases:
  assumes d: "pack_of s p = Some d" and w: "read_cb_ok s e d" "seek_ok d" and cb: "fe_read_cb e = Some cb"
  obtains (fail) r where "call_read_cb K cb p (fe_args_for_stat e) sz s = Some (r, [], s)" "failed r"
    | (ok) bs k where "call_read_cb K cb p (fe_args_for_stat e) sz s = Some (clip_size d sz, bs,
        put_pack p (d\<lparr>dp_seek := dp_seek d + ucast (clip_size d sz)\<rparr>) (s\<lparr>okst := k\<rparr>))"
proof (cases "readable_byte d = 0")
  case True
  then have c: "clip_size d sz = 0" by (simp add: clip_size_def word_neq_0_conv [symmetric])
  have "put_pack p (d\<lparr>dp_seek := dp_seek d + ucast (0 :: SceSize)\<rparr>) (s\<lparr>okst := okst s\<rparr>) = s"
    using put_pack_same [OF d] by simp
  moreover have "call_read_cb K cb p (fe_args_for_stat e) sz s = Some (0, [], s)"
    using True d by (cases cb) (simp_all add: read_random_cb_def read_map_mem1_cb_def read_map_conf1_cb_def
        read_kblparam_cb_def read_module_cb_def)
  ultimately show thesis using that(2) [of "[]" "okst s"] c by metis
next
  case False
  let ?c = "clip_size d sz"
  let ?upd = "\<lambda>s. put_pack p (d\<lparr>dp_seek := dp_seek d + ucast ?c\<rparr>) s"
  have adv: "advance p ?c (s\<lparr>okst := k\<rparr>) = Some (?upd (s\<lparr>okst := k\<rparr>))" for k
    using d by (simp add: advance_def)
  have s: "s\<lparr>okst := okst s\<rparr> = s" by simp
  show thesis
  proof (cases cb)
    case Read_random
    obtain bs k where "ok_random K (okst s) (unat ?c) = (bs, k)" by force
    then show thesis using that(2) [of bs k] False d adv Read_random by (simp add: read_random_cb_def Let_def)
  next
    case Read_map_mem1
    then show thesis using that(2) [of _ "okst s"] False d adv [of "okst s"]
      by (simp add: read_map_mem1_cb_def Let_def)
  next
    case Read_map_conf1
    then have "unat ?c \<le> length (map_conf1_data s)"
      using w cb unat_clip [OF w(2), of sz] by (auto simp: read_cb_ok_def)
    then show thesis using that(2) [of _ "okst s"] False d adv [of "okst s"] Read_map_conf1
      by (simp add: read_map_conf1_cb_def Let_def)
  next
    case Read_kblparam
    then show thesis using that(2) [of _ "okst s"] False d adv [of "okst s"]
      by (simp add: read_kblparam_cb_def Let_def)
  next
    case Read_module
    then obtain m nm where m: "mod_of s (fe_args_for_stat e) = Some m" "ostr_of s (ms_name m) = Some nm"
      using w(1) cb by (auto simp: read_cb_ok_def)
    obtain v n where "om_segs (ok_module_info K (okst s) (ok_search_module K (okst s) nm)) (ms_seg m) = (v, n)"
      by force
    with m have a: "arg_module K (fe_args_for_stat e) s =
        Some (ok_search_module K (okst s) nm, v, n, ms_seg m)" by (simp add: arg_module_def)
    show thesis
    proof (cases "failed (ok_search_module K (okst s) nm)")
      case True
      then show thesis using that(1) False d a Read_module by (simp add: read_module_cb_def Let_def)
    next
      case f: False
      then show thesis using that(2) [of _ "okst s"] False d adv [of "okst s"] a Read_module
        by (simp add: read_module_cb_def Let_def)
    qed
  qed
qed

text \<open>
  C24: reading a file.  The call never faults for an item whose offset is inside its size; it fails
  without an effect, or returns the number of bytes asked for, cut at the size of the item, and moves
  the offset of exactly this item by that number, so that the offset stays inside the size.
\<close>

theorem old_vfs_read_bounds:
  assumes I: "items s (as @ (p, x) # bs)" and f: "find_item node (as @ (p, x) # bs) = p" "p \<noteq> NULL"
    and e: "file_of s (dp_dir_entry x) = Some e" "read_cb_ok s e x" and x: "seek_ok x"
  shows "\<exists>r data s'. old_vfs_read K node sz s = Some (r, data, s') \<and> oheap s' = oheap s \<and>
    (if failed r then s' = s
     else unat r = min (unat sz) (unat (dp_size x) - unat (dp_seek x)) \<and>
       items s' (as @ (p, x\<lparr>dp_seek := dp_seek x + ucast r\<rparr>) # bs) \<and>
       seek_ok (x\<lparr>dp_seek := dp_seek x + ucast r\<rparr>))"
proof -
  obtain d where d: "pack_of s p = Some d" "erase d = x" using items_pack [OF I, of p x] by auto
  then have x_sel: "dp_dir_entry x = dp_dir_entry d" "dp_size x = dp_size d" "dp_seek x = dp_seek d" "seek_ok d"
    using x by auto
  have start: "old_vfs_read K node sz s =
      (case fe_read_cb e of None \<Rightarrow> Some (-1, [], s)
       | Some cb \<Rightarrow> call_read_cb K cb p (fe_args_for_stat e) sz s)"
    using search_items [OF I, of node] f d(1) e(1) x_sel(1) by (simp add: old_vfs_read_def)
  show ?thesis
  proof (cases "fe_read_cb e")
    case None
    then show ?thesis by (simp add: start)
  next
    case (Some cb)
    have "read_cb_ok s e d" using e(2) x_sel(2) by (simp add: read_cb_ok_def)
    from d(1) this x_sel(4) Some show ?thesis
    proof (cases rule: call_read_cb_cases [where K = K and sz = sz])
      case (fail r)
      then show ?thesis using Some by (simp add: start)
    next
      case (ok data k)
      let ?r = "clip_size d sz" and ?d = "d\<lparr>dp_seek := dp_seek d + ucast (clip_size d sz)\<rparr>"
      let ?s = "put_pack p ?d (s\<lparr>okst := k\<rparr>)"
      note r = unat_clip [OF x_sel(4), of sz]
      have ed: "erase ?d = x\<lparr>dp_seek := dp_seek x + ucast ?r\<rparr>"
        unfolding d(2) [symmetric] by (simp add: erase_def)
      have "unat (dp_seek d + ucast ?r) = unat (dp_seek d) + unat ?r"
        using x_sel(4) r by (subst unat_add_64) (auto simp: seek_ok_def)
      then have so: "seek_ok ?d" using x_sel(4) r by (auto simp: seek_ok_def)
      have "items (s\<lparr>okst := k\<rparr>) (as @ (p, x) # bs)" using I by (simp add: items_def)
      then have it: "items ?s (as @ (p, erase ?d) # bs)" by (rule items_put [of _ _ _ _ _ d]) (simp_all add: d)
      have "seek_ok (x\<lparr>dp_seek := dp_seek x + ucast ?r\<rparr>)" using so unfolding ed [symmetric] by simp
      then show ?thesis using ok Some it [unfolded ed] r clip_not_failed [OF x_sel(4), of sz] x_sel(2,3)
        by (intro exI [of _ ?r] exI [of _ data] exI [of _ ?s]) (simp add: start)
    qed
  qed
qed

end
