(* ===== verification/Old_Vfs_Tree.thy ===== *)
theory Old_Vfs_Tree
  imports Old_Vfs_Items Namespace
begin

text \<open>
  The files of \<open>fs_mgr.c\<close> as an abstract tree, and the walks of \<open>getFileEntry\<close> and \<open>getDirEntry\<close>
  as resolution in it.  The contract that both loops meet is the locale \<open>name_walk\<close>.
\<close>

datatype otree = ONode (o_addr: addr) (o_name: string) (o_mode: u32) (o_kids: "otree list")

fun oforest :: "'k old_state \<Rightarrow> addr \<Rightarrow> otree list \<Rightarrow> bool" where
  "oforest s p [] \<longleftrightarrow> p = NULL"
| "oforest s p (ONode a nm m ks # ts) \<longleftrightarrow>
     p = a \<and> (\<exists>e st. file_of s a = Some e \<and> ostr_of s (fe_name e) = Some nm \<and>
       stat_of s (fe_stat e) = Some st \<and> st_mode st = m \<and>
       oforest s (fe_next_dir e) ks \<and> oforest s (fe_next e) ts)"

text \<open>
  Names are not empty and have no slash, and no name is a prefix of another one beside it: the code
  compares only as far as the name of the entry.
\<close>

fun tree_ok :: "otree list \<Rightarrow> bool" where
  "tree_ok [] \<longleftrightarrow> True"
| "tree_ok (ONode a nm m ks # ts) \<longleftrightarrow> nm \<noteq> [] \<and> CHR ''/'' \<notin> set nm \<and>
     (\<forall>t \<in> set ts. \<not> starts_with (o_name t) nm) \<and> tree_ok ks \<and> tree_ok ts"

fun tlookup :: "(u32 \<Rightarrow> bool) \<Rightarrow> (u32 \<Rightarrow> bool) \<Rightarrow> string list \<Rightarrow> otree list \<Rightarrow> addr option" where
  "tlookup fin desc [] ts = None"
| "tlookup fin desc (c # cs) ts =
     (case find (\<lambda>t. o_name t = c) ts of None \<Rightarrow> None
      | Some t \<Rightarrow>
          if cs = [] then (if fin (o_mode t) then Some (o_addr t) else None)
          else if desc (o_mode t) then tlookup fin desc cs (o_kids t) else None)"

definition walk_result :: "addr option \<Rightarrow> s32 \<times> addr" where
  "walk_result r = (case r of None \<Rightarrow> (-1, NULL) | Some a \<Rightarrow> (0, a))"

definition old_comp :: "string \<Rightarrow> bool" where
  "old_comp c \<longleftrightarrow> good_comp c \<and> hd c \<noteq> CHR ''0''"

lemma starts_with_iff: "starts_with p n \<longleftrightarrow> (\<exists>r. p = n @ r)"
  by (induction p n rule: starts_with.induct) auto

text \<open>A component and the rest after it, against a name.\<close>

lemma starts_with_comp:
  assumes "CHR ''/'' \<notin> set nm" "r = [] \<or> hd r = CHR ''/''"
  shows "starts_with (c @ r) nm \<longleftrightarrow> starts_with c nm"
proof
  assume "starts_with (c @ r) nm"
  then obtain q where q: "c @ r = nm @ q" by (auto simp: starts_with_iff)
  show "starts_with c nm"
  proof (cases "length nm \<le> length c")
    case True
    then have "nm = take (length nm) c" using q by (metis append_eq_append_conv_if)
    then show ?thesis unfolding starts_with_iff by (metis append_take_drop_id)
  next
    case False
    then have "\<not> length nm \<le> length c" .
    then obtain x where "nm = c @ x" "r = x @ q" "x \<noteq> []"
      using q by (auto simp: append_eq_append_conv2)
    then show ?thesis using assms by (cases x) auto
  qed
qed (auto simp: starts_with_iff)

lemma cstr_char_append:
  "cstr_char (n @ r) (length n) = (if r = [] then CHR 0x00 else hd r)"
  by (cases r) (simp_all add: cstr_char_def)

section \<open>The contract of the two loops\<close>

locale name_walk =
  fixes walk :: "'k old_state \<Rightarrow> string \<Rightarrow> addr \<Rightarrow> addr \<Rightarrow> (s32 \<times> addr) option"
    and fin desc :: "u32 \<Rightarrow> bool"
    and hit go :: "'k old_state \<Rightarrow> FileEntry \<Rightarrow> bool option"
  assumes walk_eq: "walk s path p e2 =
      (if cstr_char path 0 = CHR ''0'' then Some (0, e2)
       else if p = NULL then Some (-1, NULL)
       else do {
         e \<leftarrow> file_of s p;
         nm \<leftarrow> ostr_of s (fe_name e);
         if starts_with path nm
         then do {
           r \<leftarrow> (if cstr_char path (length nm) = CHR 0x00 then hit s e else Some False);
           if r then Some (0, p)
           else do {
             d \<leftarrow> (if cstr_char path (length nm) = CHR ''/'' then go s e else Some False);
             if d then walk s (drop (length nm + 1) path) (fe_next_dir e) p
             else Some (-1, NULL)
           }
         }
         else walk s path (fe_next e) p
       })"
    and hit_law: "stat_of s (fe_stat e) = Some st \<Longrightarrow> hit s e = Some (fin (st_mode st))"
    and go_law: "stat_of s (fe_stat e) = Some st \<Longrightarrow> go s e = Some (desc (st_mode st))"
begin

text \<open>One level: the first component picks its entry.\<close>

lemma walk_level:
  assumes "oforest s p ts" "tree_ok ts" "old_comp c" "r = [] \<or> hd r = CHR ''/''"
  shows "case find (\<lambda>t. o_name t = c) ts of
      None \<Rightarrow> walk s (c @ r) p e2 = Some (-1, NULL)
    | Some t \<Rightarrow>
        if r = [] then walk s (c @ r) p e2 = Some (walk_result (if fin (o_mode t) then Some (o_addr t) else None))
        else \<exists>nd. oforest s nd (o_kids t) \<and>
          walk s (c @ r) p e2 = (if desc (o_mode t) then walk s (tl r) nd (o_addr t) else Some (-1, NULL))"
  using assms(1,2)
proof (induction ts arbitrary: p e2)
  case Nil
  moreover have "cstr_char (c @ r) 0 \<noteq> CHR ''0''"
    using assms(3) by (cases c) (auto simp: old_comp_def good_comp_def cstr_char_def)
  ultimately show ?case by (subst walk_eq) simp
next
  case (Cons t ts)
  obtain a nm m ks where t: "t = ONode a nm m ks" by (cases t)
  with Cons.prems obtain e st where e: "p = a" "file_of s a = Some e" "ostr_of s (fe_name e) = Some nm"
    "stat_of s (fe_stat e) = Some st" "st_mode st = m" "oforest s (fe_next_dir e) ks" "oforest s (fe_next e) ts"
    by auto
  have ok: "nm \<noteq> []" "CHR ''/'' \<notin> set nm" "\<forall>u \<in> set ts. \<not> starts_with (o_name u) nm" "tree_ok ts"
    using Cons.prems(2) t by auto
  have p: "p \<noteq> NULL" using e(1,2) by (auto simp: file_of_def)
  have c0: "cstr_char (c @ r) 0 \<noteq> CHR ''0''"
    using assms(3) by (cases c) (auto simp: old_comp_def good_comp_def cstr_char_def)
  have c: "CHR ''/'' \<notin> set c" "CHR 0x00 \<notin> set c" using assms(3) by (simp_all add: old_comp_def good_comp_def)
  have hg: "hit s e = Some (fin m)" "go s e = Some (desc m)" using e(4,5) hit_law go_law by auto
  have step: "walk s (c @ r) p e2 =
      (if starts_with c nm
       then do {
         x \<leftarrow> (if cstr_char (c @ r) (length nm) = CHR 0x00 then Some (fin m) else Some False);
         if x then Some (0, p)
         else do {
           d \<leftarrow> (if cstr_char (c @ r) (length nm) = CHR ''/'' then Some (desc m) else Some False);
           if d then walk s (drop (length nm + 1) (c @ r)) (fe_next_dir e) p
           else Some (-1, NULL)
         }
       }
       else walk s (c @ r) (fe_next e) p)"
    using e(1-3) hg p c0 starts_with_comp [OF ok(2) assms(4), of c]
    by (subst walk_eq) (simp cong: if_cong)
  show ?case
  proof (cases "nm = c")
    case True
    then have "starts_with c nm" "cstr_char (c @ r) (length nm) = (if r = [] then CHR 0x00 else CHR ''/'')"
      using assms(4) by (auto simp: starts_with_iff cstr_char_append)
    moreover have "drop (length nm + 1) (c @ r) = tl r" using True by (cases r) simp_all
    ultimately show ?thesis using True t e(1,6) step by (auto simp: walk_result_def)
  next
    case ne: False
    show ?thesis
    proof (cases "starts_with c nm")
      case True
      then obtain q where q: "c = nm @ q" by (auto simp: starts_with_iff)
      with ne have "q \<noteq> []" by auto
      then have "cstr_char (c @ r) (length nm) = hd q" "hd q \<in> set c"
        unfolding q append_assoc by (simp_all add: cstr_char_append)
      with c have "walk s (c @ r) p e2 = Some (-1, NULL)" using True by (auto simp: step)
      moreover have "find (\<lambda>u. o_name u = c) ts = None"
        using ok(3) True by (auto simp: find_None_iff)
      ultimately show ?thesis using ne t by simp
    next
      case False
      then have w: "walk s (c @ r) p e2 = walk s (c @ r) (fe_next e) p" by (simp add: step)
      have f: "find (\<lambda>t. o_name t = c) (t # ts) = find (\<lambda>t. o_name t = c) ts" using ne t by simp
      show ?thesis unfolding f w by (rule Cons.IH [OF e(7) ok(4)])
    qed
  qed
qed

lemma tree_ok_kids: "tree_ok ts \<Longrightarrow> t \<in> set ts \<Longrightarrow> tree_ok (o_kids t)"
  by (induction ts rule: tree_ok.induct) auto

lemma walk_lookup:
  assumes "oforest s p ts" "tree_ok ts" "cs \<noteq> []" "\<forall>c \<in> set cs. old_comp c"
  shows "walk s (tl (join_path cs)) p e2 = Some (walk_result (tlookup fin desc cs ts))"
  using assms
proof (induction cs arbitrary: p e2 ts)
  case (Cons c cs)
  let ?r = "join_path cs"
  have r: "?r = [] \<or> hd ?r = CHR ''/''" "?r = [] \<longleftrightarrow> cs = []" by (cases cs; simp)+
  have c: "old_comp c" using Cons.prems(4) by simp
  note L = walk_level [OF Cons.prems(1,2) c r(1), of e2]
  show ?case
  proof (cases "find (\<lambda>t. o_name t = c) ts")
    case None
    then show ?thesis using L by (simp add: walk_result_def)
  next
    case (Some t)
    then have "t \<in> set ts" by (auto simp: find_Some_iff)
    then have k: "tree_ok (o_kids t)" by (rule tree_ok_kids [OF Cons.prems(2)])
    show ?thesis
    proof (cases "cs = []")
      case True
      then show ?thesis using L Some by simp
    next
      case False
      then obtain nd where "oforest s nd (o_kids t)" "walk s (c @ ?r) p e2 =
          (if desc (o_mode t) then walk s (tl ?r) nd (o_addr t) else Some (-1, NULL))"
        using L Some r(2) by auto
      then show ?thesis using Cons.IH [OF _ k False, of nd "o_addr t"] Cons.prems(4) False Some
        by (auto simp: walk_result_def)
    qed
  qed
qed simp

end

definition is_mode :: "u32 \<Rightarrow> u32 \<Rightarrow> bool" where
  "is_mode f m \<longleftrightarrow> m AND f \<noteq> 0"

interpretation filew: name_walk "file_walk K" "is_mode (ok_S_IFREG K)" "is_mode (ok_S_IFDIR K)"
    "is_reg_entry K" "is_dir_entry K" for K
  by unfold_locales (rule file_walk.simps, simp_all add: is_reg_entry_def is_dir_entry_def is_mode_def)

lemma bind_if_bool: "Option.bind (if b then Some True else Some False) (\<lambda>d. if d then x else y) = (if b then x else y)"
  by simp

interpretation dirw: name_walk "dir_walk K" "is_mode (ok_S_IFDIR K)" "\<lambda>_. True"
    "is_dir_entry K" "\<lambda>_ _. Some True" for K
proof unfold_locales
  fix s path p e2
  show "dir_walk K s path p e2 =
      (if cstr_char path 0 = CHR ''0'' then Some (0, e2)
       else if p = NULL then Some (-1, NULL)
       else do {
         e \<leftarrow> file_of s p;
         nm \<leftarrow> ostr_of s (fe_name e);
         if starts_with path nm
         then do {
           r \<leftarrow> (if cstr_char path (length nm) = CHR 0x00 then is_dir_entry K s e else Some False);
           if r then Some (0, p)
           else do {
             d \<leftarrow> (if cstr_char path (length nm) = CHR ''/'' then Some True else Some False);
             if d then dir_walk K s (drop (length nm + 1) path) (fe_next_dir e) p
             else Some (-1, NULL)
           }
         }
         else dir_walk K s path (fe_next e) p
       })"
    by (subst dir_walk.simps) (simp add: bind_if_bool cong: if_cong)
qed (simp_all add: is_dir_entry_def is_mode_def)

section \<open>Properties\<close>

text \<open>The tree that hangs at the item of the root vnode.\<close>

definition old_tree :: "'k old_state \<Rightarrow> item list \<Rightarrow> otree list \<Rightarrow> bool" where
  "old_tree s xs ts \<longleftrightarrow> items s xs \<and> (\<exists>x. (find_item (root_node s) xs, x) \<in> set xs \<and>
     oforest s (dp_dir_entry_root x) ts)"

lemma old_treeE:
  assumes "old_tree s xs ts"
  obtains p d where "getFileEntryByNode s (root_node s) = Some p" "p \<noteq> NULL" "pack_of s p = Some d"
    "oforest s (dp_dir_entry_root d) ts"
proof -
  from assms obtain x where x: "items s xs" "(find_item (root_node s) xs, x) \<in> set xs"
    "oforest s (dp_dir_entry_root x) ts" by (auto simp: old_tree_def)
  obtain d where d: "pack_of s (find_item (root_node s) xs) = Some d" "erase d = x"
    using items_pack [OF x(1,2)] by auto
  then have "find_item (root_node s) xs \<noteq> NULL" by auto
  then show thesis using that d x search_items [OF x(1)] by auto
qed

lemma get_entry_lookup:
  assumes "old_tree s xs ts" "tree_ok ts" "cs \<noteq> []" "\<forall>c \<in> set cs. old_comp c"
  shows "getFileEntry K (tl (join_path cs)) s =
      Some (walk_result (tlookup (is_mode (ok_S_IFREG K)) (is_mode (ok_S_IFDIR K)) cs ts))"
    and "getDirEntry K (tl (join_path cs)) s =
      Some (walk_result (tlookup (is_mode (ok_S_IFDIR K)) (\<lambda>_. True) cs ts))"
proof -
  from assms(1) obtain p d where "getFileEntryByNode s (root_node s) = Some p" "p \<noteq> NULL"
    "pack_of s p = Some d" "oforest s (dp_dir_entry_root d) ts" by (rule old_treeE)
  then show "getFileEntry K (tl (join_path cs)) s =
      Some (walk_result (tlookup (is_mode (ok_S_IFREG K)) (is_mode (ok_S_IFDIR K)) cs ts))"
    "getDirEntry K (tl (join_path cs)) s =
      Some (walk_result (tlookup (is_mode (ok_S_IFDIR K)) (\<lambda>_. True) cs ts))"
    using filew.walk_lookup [OF _ assms(2-4), of s "dp_dir_entry_root d" K]
      dirw.walk_lookup [OF _ assms(2-4), of s "dp_dir_entry_root d" K]
    by (simp_all add: getFileEntry_def getDirEntry_def)
qed

text \<open>
  C21: a path resolves like in the tree, for names of which none is a prefix of another one beside
  it, and components that do not start with the digit 0: \<open>getFileEntry\<close> finds exactly the regular
  files, through directories, \<open>getDirEntry\<close> the directories; all else is -1.
\<close>

theorem old_get_entry_resolve:
  assumes "old_tree s xs ts" "tree_ok ts" "cs \<noteq> []" "\<forall>c \<in> set cs. old_comp c"
  shows "getFileEntry K (tl (join_path cs)) s =
      Some (walk_result (tlookup (is_mode (ok_S_IFREG K)) (is_mode (ok_S_IFDIR K)) cs ts)) \<and>
    getDirEntry K (tl (join_path cs)) s =
      Some (walk_result (tlookup (is_mode (ok_S_IFDIR K)) (\<lambda>_. True) cs ts))"
  using get_entry_lookup [OF assms] by blast

text \<open>
  C25: without these conditions it does not.  An entry whose name is a prefix of a name hides all
  that come after it: the search ends with -1 at the prefix; and a path that starts with the digit 0
  leads to the first entry of the root directory, whatever that is.
\<close>

theorem old_get_entry_prefix:
  assumes "old_tree s xs (ONode a nm m ks # ts)" "nm \<noteq> []" "hd nm \<noteq> CHR ''0''"
    and "c \<noteq> CHR ''/''" "c \<noteq> CHR 0x00"
  shows "getFileEntry K (nm @ c # r) s = Some (-1, NULL) \<and> getDirEntry K (nm @ c # r) s = Some (-1, NULL) \<and>
    getFileEntry K (CHR ''0'' # r) s = Some (0, a)"
  using assms(1)
proof (rule old_treeE)
  fix p d
  assume d: "getFileEntryByNode s (root_node s) = Some p" "p \<noteq> NULL" "pack_of s p = Some d"
    "oforest s (dp_dir_entry_root d) (ONode a nm m ks # ts)"
  then obtain e where e: "dp_dir_entry_root d = a" "file_of s a = Some e" "ostr_of s (fe_name e) = Some nm"
    by auto
  have c0: "cstr_char (nm @ c # r) 0 \<noteq> CHR ''0''" using assms(2,3) by (cases nm) (auto simp: cstr_char_def)
  have "a \<noteq> NULL" using e(2) by (auto simp: file_of_def)
  moreover have "starts_with (nm @ c # r) nm" by (auto simp: starts_with_iff)
  moreover have "cstr_char (nm @ c # r) (length nm) = c" by (simp add: cstr_char_append)
  ultimately have "file_walk K s (nm @ c # r) a e2 = Some (-1, NULL)" "dir_walk K s (nm @ c # r) a e2 = Some (-1, NULL)"
    for e2
    using e c0 assms(4,5) by (subst file_walk.simps dir_walk.simps, simp)+
  moreover have "file_walk K s (CHR ''0'' # r) a a = Some (0, a)"
    by (subst file_walk.simps) (simp add: cstr_char_def)
  ultimately show ?thesis using d e(1) by (simp add: getFileEntry_def getDirEntry_def)
qed

end
