(* ===== verification/Sample_Old.thy ===== *)
theory Sample_Old
  imports Old_Vfs_Tree
begin

text \<open>
  A mounted \<open>SceVfsMountPoC_old\<close> with the directory \<open>map_conf\<close> and the file \<open>map_conf1\<close> in it, open
  once, and the properties applied to it.
\<close>

definition OK0 :: "unit old_kernel" where
  "OK0 = \<lparr>ok_alloc = \<lambda>k used n. (if used 100 then (0, k) else (100, k)),
     ok_create_uid = \<lambda>k used. if used 30 then (-1, 0, k) else (0x40, 30, k),
     ok_delete_uid = \<lambda>k uid. (0, k),
     ok_new_node = \<lambda>k m used. (-1, 0, undefined, k),
     ok_node_wait = \<lambda>k p. k, ok_random = \<lambda>k n. (replicate n 7, k),
     ok_mem_read = \<lambda>k a n. replicate n 0, ok_mem_write = \<lambda>k a bs. k,
     ok_dcache_wb = \<lambda>k a n. k, ok_dcache_wbinv = \<lambda>k a n. k, ok_icache_wbinv = \<lambda>k a n. k,
     ok_sysroot_buffer = \<lambda>k. 0, ok_search_module = \<lambda>k nm. -1,
     ok_module_info = \<lambda>k m. \<lparr>om_name = [], om_segs = \<lambda>i. (0, 0)\<rparr>, ok_module_list = \<lambda>k. [],
     ok_S_IFDIR = 0x1000, ok_S_IFREG = 0x2000, ok_S_IROTH = 4, ok_S_IRUSR = 0x100, ok_S_IWUSR = 0x80,
     ok_SO_IFREG = 0x20, ok_O_RDONLY = 1, ok_O_WRONLY = 2, ok_O_DIROPEN = 8,
     sz_FileEntry = 0x50, sz_SceIoStat = 0x40, sz_ModuleStat = 8\<rparr>"

definition odir :: FileEntry where
  "odir = zero_entry\<lparr>fe_next_dir := 4, fe_open_allow_flags := 9, fe_name := 2, fe_stat := 3\<rparr>"

definition ofile :: FileEntry where
  "ofile = zero_entry\<lparr>fe_open_allow_flags := 3, fe_name := 5, fe_stat := 6, fe_size := 8,
     fe_read_cb := Some Read_map_conf1, fe_write_cb := Some Write_map_conf1\<rparr>"

definition oitem :: DataPack where
  "oitem = zero_pack\<lparr>dp_uid := 0x41, dp_node := 60, dp_size := 8, dp_seek := 2, dp_dir_entry := 4\<rparr>"

definition oroot :: DataPack where
  "oroot = zero_pack\<lparr>dp_uid := 0x42, dp_node := 50, dp_dir_entry_root := 1\<rparr>"

definition onode0 :: SceVfsNode where
  "onode0 = \<lparr>vn_dev_info = 0, vn_mount = 9, vn_prev_node = 50, vn_some_counter_58 = 0, vn_unk_60 = 0,
     vn_unk_64 = 0, vn_unk_74 = 0, vn_unk_78 = 0, vn_st_size = 0, vn_st_attr = 0, vn_unk_8C = 0\<rparr>"

definition OS0 :: "unit old_state" where
  "OS0 = \<lparr>oheap = [1 \<mapsto> OFile odir, 2 \<mapsto> OStr ''map_conf'', 3 \<mapsto> OStat (stat_dir_tpl OK0),
       4 \<mapsto> OFile ofile, 5 \<mapsto> OStr ''map_conf1'', 6 \<mapsto> OStat (stat_file_tpl OK0)],
     packs = [20 \<mapsto> oitem\<lparr>dp_next := 10\<rparr>, 10 \<mapsto> oroot\<lparr>dp_prev := 20\<rparr>],
     onodes = [61 \<mapsto> onode0], last_obj = 20, root_node = 50, map_conf1_data = [1, 2, 3, 4, 5, 6, 7, 8],
     okst = ()\<rparr>"

definition oitems :: "item list" where
  "oitems = [(20, oitem), (10, oroot)]"

definition otree0 :: "otree list" where
  "otree0 = [ONode 1 ''map_conf'' 0x1180 [ONode 4 ''map_conf1'' 0x2184 []]]"

lemma items0: "items OS0 oitems"
  unfolding items_def
  by (intro exI [of _ 10])
    (simp add: OS0_def oitems_def pack_of_def oitem_def oroot_def zero_pack_def erase_def)

lemma find0: "find_item 60 oitems = 20" "find_item 50 oitems = 10"
  by (simp_all add: find_item_def oitems_def oitem_def oroot_def)

lemma uid0: "uid_contract OK0"
  by (simp add: uid_contract_def OK0_def)

lemma reads0:
  "file_of OS0 1 = Some odir" "file_of OS0 4 = Some ofile" "ostr_of OS0 2 = Some ''map_conf''"
  "ostr_of OS0 5 = Some ''map_conf1''" "stat_of OS0 3 = Some (stat_dir_tpl OK0)"
  "stat_of OS0 6 = Some (stat_file_tpl OK0)" "root_node OS0 = 50" "onode_of OS0 61 = Some onode0"
  by (simp_all add: OS0_def file_of_def ostr_of_def stat_of_def onode_of_def)

lemma tree0: "old_tree OS0 oitems otree0" "tree_ok otree0"
proof -
  have "(find_item (root_node OS0) oitems, oroot) \<in> set oitems"
    by (simp only: reads0 find0) (simp add: oitems_def)
  moreover have "oforest OS0 (dp_dir_entry_root oroot) otree0"
    by (simp add: otree0_def reads0 oroot_def odir_def ofile_def zero_entry_def stat_dir_tpl_def
        stat_file_tpl_def OK0_def)
  ultimately show "old_tree OS0 oitems otree0" using items0 unfolding old_tree_def by blast
qed (simp add: otree0_def)

lemma comps0: "\<forall>c \<in> set [''map_conf'', ''map_conf1'']. old_comp c"
  by (simp add: old_comp_def good_comp_def)

lemma get0: "getFileEntry OK0 ''map_conf/map_conf1'' OS0 = Some (0, 4)"
  using get_entry_lookup(1) [OF tree0 _ comps0, of OK0]
  by (simp add: otree0_def is_mode_def OK0_def walk_result_def)

lemma old_get_entry_resolve_witness:
  "getFileEntry OK0 ''map_conf/map_conf1'' OS0 = Some (0, 4) \<and>
   getDirEntry OK0 ''map_conf/map_conf1'' OS0 = Some (-1, 0)"
  using old_get_entry_resolve [OF tree0 _ comps0, of OK0]
  by (simp add: otree0_def is_mode_def OK0_def walk_result_def)

lemma old_get_entry_prefix_witness:
  "getFileEntry OK0 ''map_confusion'' OS0 = Some (-1, 0) \<and> getFileEntry OK0 ''0'' OS0 = Some (0, 1)"
  using old_get_entry_prefix [of OS0 oitems 1 "''map_conf''" _ _ _ "CHR ''u''"] tree0(1)
  by (simp add: otree0_def)

lemma old_vfs_close_spec_witness:
  "\<exists>s'. old_vfs_close OK0 60 OS0 = Some (0, s') \<and> items s' [(10, oroot)] \<and> packs s' 20 = None"
proof -
  from old_vfs_close_spec [OF items0, of OK0 60, unfolded find0(1)] obtain r s' as x bs where
    1: "old_vfs_close OK0 60 OS0 = Some (r, s')" "oitems = as @ (20, x) # bs"
    "r = fst (ok_delete_uid OK0 (okst OS0) (dp_uid x))"
    "if failed r then items s' oitems else items s' (as @ bs) \<and> packs s' 20 = None"
    by auto
  have "as = []" using 1(2) by (cases as) (auto simp: oitems_def Cons_eq_append_conv)
  then have "bs = [(10, oroot)]" using 1(2) by (simp add: oitems_def)
  then show ?thesis using 1 \<open>as = []\<close> by (simp add: OK0_def)
qed

lemma old_vfs_open_spec_witness:
  "\<exists>s' p x. old_vfs_open OK0 61 ''map_conf/map_conf1'' 1 OS0 = Some (0, s') \<and> p \<notin> {20, 10} \<and>
    items s' ((p, x) # oitems) \<and> dp_node x = 61 \<and> dp_dir_entry x = 4 \<and> dp_size x = 8"
proof -
  have e: "open_cb_ok OS0 ofile" by (simp add: open_cb_ok_def ofile_def zero_entry_def)
  have c: "\<not> failed (fst (ok_create_uid OK0 (okst OS0) (\<lambda>a. packs OS0 a \<noteq> None)))"
    by (simp add: OK0_def OS0_def failed_def word_sless_alt)
  have f: "find_item (vn_prev_node onode0) oitems = 10" by (simp add: onode0_def find0)
  have fl: "(1 :: u32) AND NOT (fe_open_allow_flags ofile) = 0" by (simp add: ofile_def)
  have cb: "fe_open_cb ofile = None" "fe_size ofile = 8" by (simp_all add: ofile_def zero_entry_def)
  from old_vfs_open_spec [OF items0 uid0 reads0(8) get0 reads0(2) e, of 1] f fl cb c
  obtain s' p x where "old_vfs_open OK0 61 ''map_conf/map_conf1'' 1 OS0 = Some (0, s')" "p \<notin> adrs oitems"
    "items s' ((p, x) # oitems)" "dp_node x = 61" "dp_dir_entry x = 4" "dp_size x = 8" by auto
  then show ?thesis by (intro exI [of _ s'] exI [of _ p] exI [of _ x]) (simp add: oitems_def)
qed

lemma old_vfs_read_bounds_witness:
  "\<exists>r data s'. old_vfs_read OK0 60 9 OS0 = Some (r, data, s') \<and>
    (\<not> failed r \<longrightarrow> unat r = 6 \<and> items s' [(20, oitem\<lparr>dp_seek := 2 + ucast r\<rparr>), (10, oroot)])"
proof -
  have I: "items OS0 ([] @ (20, oitem) # [(10, oroot)])" using items0 by (simp add: oitems_def)
  have f: "find_item 60 ([] @ (20, oitem) # [(10, oroot)]) = 20" using find0 by (simp add: oitems_def)
  have e: "file_of OS0 (dp_dir_entry oitem) = Some ofile" by (simp add: oitem_def reads0)
  have o: "read_cb_ok OS0 ofile oitem" "seek_ok oitem"
    by (simp_all add: read_cb_ok_def ofile_def zero_entry_def oitem_def OS0_def seek_ok_def)
  from old_vfs_read_bounds [OF I f _ e o, of OK0 9] show ?thesis
    by (auto simp: oitem_def)
qed

end
