(* ===== verification/C_Layout.thy ===== *)
theory C_Layout
  imports Prelude "HOL-Library.Char_ord"
begin

text \<open>
  The layout of C structures on the 32-bit target: every member stands at the next offset that its
  alignment allows, and the size of a structure is a multiple of its alignment.  The headers of the
  repository describe structures of the kernel and give offsets and sizes in comments and in the
  names of members (\<open>data_0x44\<close>); the definitions here let the declarations be read as data and
  those notes be checked.
\<close>

datatype ctype =
    Int8 | Int16 | Int32 | Int64 | Ptr
  | Array ctype nat
  | Struct "(string \<times> ctype) list"
  | Union "(string \<times> ctype) list"
  | Packed "(string \<times> ctype) list"

type_synonym fields = "(string \<times> ctype) list"

definition align_up :: "nat \<Rightarrow> nat \<Rightarrow> nat" where
  "align_up a n = (n + a - 1) div a * a"

fun calign :: "ctype \<Rightarrow> nat" and falign :: "fields \<Rightarrow> nat" where
  "calign Int8 = 1"
| "calign Int16 = 2"
| "calign Int32 = 4"
| "calign Int64 = 8"
| "calign Ptr = 4"
| "calign (Array t n) = calign t"
| "calign (Struct fs) = falign fs"
| "calign (Union fs) = falign fs"
| "calign (Packed fs) = 1"
| "falign [] = 1"
| "falign ((x, t) # fs) = max (calign t) (falign fs)"

fun csize :: "ctype \<Rightarrow> nat" and fsize :: "fields \<Rightarrow> nat \<Rightarrow> nat" and usize :: "fields \<Rightarrow> nat"
  and psize :: "fields \<Rightarrow> nat" where
  "csize Int8 = 1"
| "csize Int16 = 2"
| "csize Int32 = 4"
| "csize Int64 = 8"
| "csize Ptr = 4"
| "csize (Array t n) = csize t * n"
| "csize (Struct fs) = align_up (falign fs) (fsize fs 0)"
| "csize (Union fs) = align_up (falign fs) (usize fs)"
| "csize (Packed fs) = psize fs"
| "usize [] = 0"
| "usize ((x, t) # fs) = max (csize t) (usize fs)"
| "psize [] = 0"
| "psize ((x, t) # fs) = csize t + psize fs"
| "fsize [] n = n"
| "fsize ((x, t) # fs) n = fsize fs (align_up (calign t) n + csize t)"

text \<open>The members with their offsets, from offset \<open>n\<close> on; members of members by their path.\<close>

fun layout :: "fields \<Rightarrow> nat \<Rightarrow> (string \<times> nat) list" where
  "layout [] n = []"
| "layout ((x, t) # fs) n =
     (x, align_up (calign t) n) # layout fs (align_up (calign t) n + csize t)"

text \<open>A packed structure has no gaps; all members of a union stand at its start.\<close>

fun packed_layout :: "fields \<Rightarrow> nat \<Rightarrow> (string \<times> nat) list" where
  "packed_layout [] n = []"
| "packed_layout ((x, t) # fs) n = (x, n) # packed_layout fs (n + csize t)"

fun members :: "ctype \<Rightarrow> nat \<Rightarrow> (string \<times> nat) list" where
  "members (Struct fs) n = layout fs n"
| "members (Packed fs) n = packed_layout fs n"
| "members (Union fs) n = map (\<lambda>(x, t). (x, n)) fs"
| "members t n = []"

definition offset_of :: "ctype \<Rightarrow> string \<Rightarrow> nat" where
  "offset_of t x = (case map_of (members t 0) x of None \<Rightarrow> 0 | Some n \<Rightarrow> n)"

section \<open>What a layout guarantees\<close>

lemma align_up_ge: "0 < a \<Longrightarrow> n \<le> align_up a n"
proof -
  assume a: "0 < a"
  have "(n + a - 1) div a * a + (n + a - 1) mod a = n + a - 1" by simp
  moreover have "(n + a - 1) mod a \<le> a - 1" using a mod_less_divisor [of a "n + a - 1"] by linarith
  ultimately show ?thesis unfolding align_up_def using a by linarith
qed

lemma dvd_align_up: "a dvd align_up a n"
  by (simp add: align_up_def)

lemma calign_pos: "0 < calign t" and falign_pos: "0 < falign fs"
  by (induction t and fs rule: calign_falign.induct) auto

lemma fsize_ge: "n \<le> fsize fs n"
proof (induction fs arbitrary: n)
  case (Cons f fs)
  obtain x t where f: "f = (x, t)" by (cases f)
  have "n \<le> align_up (calign t) n" by (rule align_up_ge [OF calign_pos])
  also have "\<dots> \<le> align_up (calign t) n + csize t" by simp
  also have "\<dots> \<le> fsize fs (align_up (calign t) n + csize t)" by (rule Cons)
  finally show ?case by (simp add: f)
qed simp

lemma layout_ge: "(y, j) \<in> set (layout fs n) \<Longrightarrow> n \<le> j"
proof (induction fs arbitrary: n)
  case (Cons f fs)
  obtain x t where f: "f = (x, t)" by (cases f)
  have le: "n \<le> align_up (calign t) n" by (rule align_up_ge [OF calign_pos])
  show ?case
  proof (cases "(y, j) \<in> set (layout fs (align_up (calign t) n + csize t))")
    case True
    then show ?thesis using Cons.IH [OF True] le by linarith
  next
    case False
    then show ?thesis using Cons.prems le by (simp add: f)
  qed
qed simp

text \<open>
  Two members never overlap, every member is aligned, and the last one ends inside the structure:
  the \<open>i\<close>-th member with its offset is \<open>layout fs n ! i\<close>.
\<close>

lemma length_layout [simp]: "length (layout fs n) = length fs"
  by (induction fs n rule: layout.induct) auto

lemma layout_aligned:
  "i < length fs \<Longrightarrow> calign (snd (fs ! i)) dvd snd (layout fs n ! i)"
proof (induction fs arbitrary: n i)
  case (Cons f fs)
  obtain x t where f: "f = (x, t)" by (cases f)
  show ?case using Cons by (cases i) (simp_all add: f dvd_align_up)
qed simp

lemma layout_end:
  "i < length fs \<Longrightarrow> snd (layout fs n ! i) + csize (snd (fs ! i)) \<le> fsize fs n"
proof (induction fs arbitrary: n i)
  case (Cons f fs)
  obtain x t where f: "f = (x, t)" by (cases f)
  show ?case using Cons fsize_ge [of "align_up (calign t) n + csize t" fs]
    by (cases i) (simp_all add: f)
qed simp

lemma layout_disjoint:
  "i < j \<Longrightarrow> j < length fs \<Longrightarrow>
   snd (layout fs n ! i) + csize (snd (fs ! i)) \<le> snd (layout fs n ! j)"
proof (induction fs arbitrary: n i j)
  case (Cons f fs)
  obtain x t where f: "f = (x, t)" by (cases f)
  obtain j' where j: "j = Suc j'" using Cons.prems(1) by (cases j) auto
  let ?n = "align_up (calign t) n + csize t"
  show ?case
  proof (cases i)
    case 0
    have "layout fs ?n ! j' \<in> set (layout fs ?n)" using Cons.prems(2) by (simp add: j)
    then have "?n \<le> snd (layout fs ?n ! j')"
      using layout_ge [of "fst (layout fs ?n ! j')" "snd (layout fs ?n ! j')" fs ?n] by simp
    then show ?thesis by (simp add: 0 j f)
  next
    case (Suc i')
    then show ?thesis using Cons by (simp add: j f)
  qed
qed simp

section \<open>Offsets in names\<close>

text \<open>
  A name such as \<open>data_0x44\<close>, \<open>unk_5C\<close> or \<open>func28\<close> says where the member stands.
\<close>

definition hex_digit :: "char \<Rightarrow> nat option" where
  "hex_digit c =
     (let n = of_char c in
      if 48 \<le> n \<and> n \<le> 57 then Some (n - 48)
      else if 65 \<le> n \<and> n \<le> 70 then Some (n - 55) else None)"

fun hex_value :: "string \<Rightarrow> nat \<Rightarrow> nat option" where
  "hex_value [] acc = Some acc"
| "hex_value (c # cs) acc = (case hex_digit c of None \<Rightarrow> None | Some d \<Rightarrow> hex_value cs (16 * acc + d))"

fun strip_prefixes :: "string list \<Rightarrow> string \<Rightarrow> nat option" where
  "strip_prefixes [] s = None"
| "strip_prefixes (p # ps) s =
     (if take (length p) s = p \<and> length p < length s then hex_value (drop (length p) s) 0
      else strip_prefixes ps s)"

definition named_offset :: "string \<Rightarrow> nat option" where
  "named_offset s = strip_prefixes [''data_0x'', ''unk_0x'', ''unk_'', ''func''] s"

text \<open>The members of a structure at offset \<open>n\<close> whose name gives an offset that is not theirs.\<close>

definition misnamed :: "nat \<Rightarrow> ctype \<Rightarrow> string list" where
  "misnamed n t = map fst (filter (\<lambda>(x, i). named_offset x \<noteq> None \<and> named_offset x \<noteq> Some i)
     (members t n))"

text \<open>The structures of a table of documented sizes that have another size, with their size.\<close>

definition wrong_sizes :: "(string \<times> ctype \<times> nat) list \<Rightarrow> (string \<times> nat) list" where
  "wrong_sizes ss = map (\<lambda>(x, t, n). (x, csize t)) (filter (\<lambda>(x, t, n). csize t \<noteq> n) ss)"

lemma wrong_sizes_simps [simp]:
  "wrong_sizes [] = []"
  "wrong_sizes ((x, t, n) # ss) = (if csize t \<noteq> n then (x, csize t) # wrong_sizes ss else wrong_sizes ss)"
  by (simp_all add: wrong_sizes_def)

text \<open>Every type is aligned to 1, 2, 4 or 8.\<close>

lemma calign_values: "calign t \<in> {1, 2, 4, 8}" and falign_values: "falign fs \<in> {1, 2, 4, 8}"
  by (induction t and fs rule: calign_falign.induct) (auto simp: max_def)

end
