(* ===== verification/Layout_Module.thy ===== *)
theory Layout_Module
  imports C_Layout
begin

text \<open>
  The structures of the kernel module manager in
  \<open>src/tzs/SceTTBRParser/src/modulemgr_internal.h\<close>, member by member.
\<close>

section \<open>modulemgr_internal.h\<close>

definition SceModuleImport1_layout :: "ctype" where
  "SceModuleImport1_layout = Struct [
    (''size'', Int16), (''version'', Int16), (''flags'', Int16), (''entry_num_function'', Int16),
    (''entry_num_variable'', Int16), (''entry_num_tls'', Int16), (''rsvd1'', Int32),
    (''libnid'', Int32), (''libname'', Ptr), (''rsvd2'', Int32), (''table_func_nid'', Ptr),
    (''table_function'', Ptr), (''table_vars_nid'', Ptr), (''table_variable'', Ptr),
    (''table_tls_nid'', Ptr), (''table_tls'', Ptr)]"

definition SceModuleImport2_layout :: "ctype" where
  "SceModuleImport2_layout = Struct [
    (''size'', Int16), (''version'', Int16), (''flags'', Int16), (''entry_num_function'', Int16),
    (''entry_num_variable'', Int16), (''data_0x0A'', Int16), (''libnid'', Int32),
    (''libname'', Ptr), (''table_func_nid'', Ptr), (''table_function'', Ptr),
    (''table_vars_nid'', Ptr), (''table_variable'', Ptr)]"

definition SceModuleImport_layout :: "ctype" where
  "SceModuleImport_layout = Union [
    (''size'', Int16), (''type1'', SceModuleImport1_layout), (''type2'', SceModuleImport2_layout)]"

definition SceModuleExport_layout :: "ctype" where
  "SceModuleExport_layout = Struct [
    (''size'', Int16), (''version'', Int16), (''flags'', Int16), (''entry_num_function'', Int16),
    (''entry_num_variable'', Int16), (''data_0x0A'', Int16), (''data_0x0C'', Int32),
    (''libnid'', Int32), (''libname'', Ptr), (''table_nid'', Ptr), (''table_entry'', Ptr)]"

definition SceModuleLibraryImportInfo_layout :: "ctype" where
  "SceModuleLibraryImportInfo_layout = Struct [
    (''stubid'', Int32), (''pImportInfo'', Ptr), (''pLibraryInfo'', Ptr), (''pModuleInfo'', Ptr),
    (''data_0x10'', Int32)]"

definition SceModuleImportList_layout :: "ctype" where
  "SceModuleImportList_layout = Struct [
    (''next'', Ptr), (''list'', (Array SceModuleLibraryImportInfo_layout 0))]"

definition SceModuleImportedInfo_layout :: "ctype" where
  "SceModuleImportedInfo_layout = Struct [
    (''next'', Ptr), (''stubid'', Int32), (''pImportInfo'', Ptr), (''pLibraryInfo'', Ptr),
    (''pModuleInfo'', Ptr), (''data_0x14'', Int32)]"

definition SceModuleLibraryInfo_layout :: "ctype" where
  "SceModuleLibraryInfo_layout = Struct [
    (''next'', Ptr), (''data_0x04'', Ptr), (''pExportInfo'', Ptr), (''syscall_info'', Int16),
    (''data_0x0E'', Int16), (''number_of_imported'', Int32), (''pImportedInfo'', Ptr),
    (''libid_kernel'', Int32), (''libid_user'', Int32), (''pModuleInfo'', Ptr),
    (''data_0x24'', Int32), (''data_0x28'', Int32)]"

definition SceModuleSharedInfo_layout :: "ctype" where
  "SceModuleSharedInfo_layout = Struct [
    (''next'', Ptr), (''pModuleInfo'', Ptr), (''info_linked_number'', Int32),
    (''cached_segment_data'', Ptr)]"

definition SceSegmentInfoInternal_layout :: "ctype" where
  "SceSegmentInfoInternal_layout = Struct [
    (''filesz'', Int32), (''memsz'', Int32), (''perms'', (Array Int8 4)), (''vaddr'', Ptr),
    (''memblk_id'', Int32)]"

definition SceModuleInfoInternal_layout :: "ctype" where
  "SceModuleInfoInternal_layout = Struct [
    (''next'', Ptr), (''flags'', Int16), (''state'', Int8), (''data_0x07'', Int8),
    (''version'', Int32), (''modid_kernel'', Int32), (''modid_user'', Int32), (''pid'', Int32),
    (''attr'', Int16), (''minor'', Int8), (''major'', Int8), (''module_name'', Ptr),
    (''libent_top'', Ptr), (''libent_btm'', Ptr), (''libstub_top'', Ptr), (''libstub_btm'', Ptr),
    (''fingerprint'', Int32), (''tlsInit'', Ptr), (''tlsInitSize'', Int32),
    (''tlsAreaSize'', Int32), (''exidxTop'', Ptr), (''exidxBtm'', Ptr), (''extabTop'', Ptr),
    (''extabBtm'', Ptr), (''lib_export_num'', Int16), (''lib_import_num'', Int16),
    (''data_0x54'', Ptr), (''data_0x58'', Ptr), (''pLibraryInfo'', Ptr), (''data_0x60'', Ptr),
    (''imports'', Ptr), (''path'', Ptr), (''segments_num'', Int32),
    (''segments'', (Array SceSegmentInfoInternal_layout 3)), (''data_0xAC'', Int32),
    (''data_0xB0'', Int32), (''module_start'', Ptr), (''module_stop'', Ptr),
    (''module_exit'', Ptr), (''data_0xC0'', Int32), (''module_proc_param'', Ptr),
    (''data_0xC8'', Int32), (''data_0xCC'', Int32), (''data_0xD0'', Ptr), (''pSharedInfo'', Ptr),
    (''data_0xD8'', Int32), (''data_0xDC'', Int32), (''data_0xE0'', Int32),
    (''data_0xE4'', Int32), (''data_0xE8'', Int32)]"

definition SceModuleObject_layout :: "ctype" where
  "SceModuleObject_layout = Struct [
    (''sce_reserved'', (Array Int32 2)), (''obj_base'', SceModuleInfoInternal_layout)]"

definition SceModuleLibraryObject_layout :: "ctype" where
  "SceModuleLibraryObject_layout = Struct [
    (''sce_reserved'', (Array Int32 2)), (''pLibraryInfo'', Ptr), (''modid'', Int32)]"

definition SceModuleLibStubObject_layout :: "ctype" where
  "SceModuleLibStubObject_layout = Struct [
    (''sce_reserved'', (Array Int32 2)), (''modid'', Int32), (''num'', Int32)]"

definition SceModuleNonlinkedInfo_layout :: "ctype" where
  "SceModuleNonlinkedInfo_layout = Struct [
    (''next'', Ptr), (''stubid'', Int32), (''pImportInfo'', Ptr), (''data_0x0C'', Int32),
    (''pModuleInfo'', Ptr), (''data_0x14'', Int32)]"

definition SceKernelProcessModuleInfo_layout :: "ctype" where
  "SceKernelProcessModuleInfo_layout = Struct [
    (''pid'', Int32), (''pLibraryInfo'', Ptr), (''data_0x08'', Int32), (''pNonlinkedInfo'', Ptr),
    (''pModuleInfo'', Ptr), (''process_main_module_id'', Int32),
    (''process_module_count'', Int16), (''inhibit_state'', Int16), (''data_0x1C'', Ptr),
    (''cpu_addr'', Int32)]"

definition SceKernelPreloadModuleInfo_layout :: "ctype" where
  "SceKernelPreloadModuleInfo_layout = Struct [
    (''module_name'', Ptr), (''path'', (Array Ptr 6)), (''inhibit'', Int32), (''flags'', Int32)]"

definition SceLoadProcessParam_layout :: "ctype" where
  "SceLoadProcessParam_layout = Struct [
    (''sdk_version'', Int32), (''thread_name'', (Array Int8 0x20)), (''thread_priority'', Int32),
    (''stack_size'', Int32), (''data_174'', (Array Int8 0x8)), (''data_17C'', (Array Int8 0x1C)),
    (''data_198'', (Array Int8 0x4)), (''process_name'', (Array Int8 0x20)),
    (''preload_inhibit'', Int32), (''module_proc_param'', Ptr)]"

text \<open>The sizes that the header gives in comments.\<close>

definition module_sizes :: "(string \<times> ctype \<times> nat) list" where
  "module_sizes =
    [(''SceModuleLibraryInfo'', SceModuleLibraryInfo_layout, 0x2C),
     (''SceModuleSharedInfo'', SceModuleSharedInfo_layout, 0x10),
     (''SceSegmentInfoInternal'', SceSegmentInfoInternal_layout, 0x14),
     (''SceModuleInfoInternal'', SceModuleInfoInternal_layout, 0xEC),
     (''SceModuleObject'', SceModuleObject_layout, 0xF4),
     (''SceKernelProcessModuleInfo'', SceKernelProcessModuleInfo_layout, 0x24),
     (''SceKernelPreloadModuleInfo'', SceKernelPreloadModuleInfo_layout, 0x24),
     (''SceLoadProcessParam'', SceLoadProcessParam_layout, 0x7C)]"

lemmas module_layouts =
  SceModuleImport1_layout_def SceModuleImport2_layout_def SceModuleImport_layout_def SceModuleExport_layout_def
  SceModuleLibraryImportInfo_layout_def SceModuleImportList_layout_def
  SceModuleImportedInfo_layout_def SceModuleLibraryInfo_layout_def SceModuleSharedInfo_layout_def
  SceSegmentInfoInternal_layout_def SceModuleInfoInternal_layout_def SceModuleObject_layout_def
  SceModuleLibraryObject_layout_def SceModuleLibStubObject_layout_def
  SceModuleNonlinkedInfo_layout_def SceKernelProcessModuleInfo_layout_def
  SceKernelPreloadModuleInfo_layout_def SceLoadProcessParam_layout_def

end
