(* ===== verification/Ttbr_Parser.thy ===== *)
theory Ttbr_Parser
  imports Sce_Io Layout_Module
begin

text \<open>
  The translation table parser (\<open>src/tzs/SceTTBRParser/src/main.c\<close>): a dump of the secure kernel is
  loaded, its translation tables are walked by software, and the modules of the secure kernel are
  listed through addresses of that kernel.

  The three memory blocks are lists; \<open>None\<close> is an access outside a block, and the endless loop after
  \<open>mmuRead8:error\<close>.
\<close>

section \<open>The blocks\<close>

record tzs =
  pTzs :: "u8 list"
  pTTBR0 :: "u32 list"
  pTTBR1 :: "u32 list"

definition SCE_MEMORY_BASE :: u32 where
  "SCE_MEMORY_BASE = 0x40000000"

definition byte_at :: "u8 list \<Rightarrow> u32 \<Rightarrow> u8 option" where
  "byte_at blk off = (if unat off < length blk then Some (blk ! unat off) else None)"

definition word_at :: "u8 list \<Rightarrow> u32 \<Rightarrow> u32 option" where
  "word_at blk off =
     (let i = unat off in
      if i + 4 \<le> length blk
      then Some (le32 (blk ! i) (blk ! (i + 1)) (blk ! (i + 2)) (blk ! (i + 3))) else None)"

definition entry_at :: "u32 list \<Rightarrow> u32 \<Rightarrow> u32 option" where
  "entry_at tbl i = (if unat i < length tbl then Some (tbl ! unat i) else None)"

section \<open>Reading through the tables\<close>

definition mmuRead8 :: "tzs \<Rightarrow> u32 \<Rightarrow> u8 option" where
  "mmuRead8 m addr =
     (let pTTBR = (if addr < 0x40000000 then pTTBR0 m else pTTBR1 m) in
      do {
        ttbr \<leftarrow> entry_at pTTBR (drop_bit 20 addr AND 0xFFF);
        if ttbr AND 3 = 1 then
          (let second_level_section = ttbr AND 0xFFFFFC00;
               pTTBRSec = second_level_section - SCE_MEMORY_BASE in
           do {
             ttbr_sec \<leftarrow> word_at (pTzs m) (pTTBRSec + 4 * (drop_bit 12 addr AND 0xFF));
             if ttbr_sec AND 3 = 1 then
               byte_at (pTzs m) (((ttbr_sec AND 0xFFFF0000) - SCE_MEMORY_BASE) + (addr AND 0xFFFF))
             else if ttbr_sec AND 2 \<noteq> 0 then
               byte_at (pTzs m) (((ttbr_sec AND 0xFFFFF000) - SCE_MEMORY_BASE) + (addr AND 0xFFF))
             else None
           })
        else if ttbr AND 3 = 2 then
          (if ttbr = 0x1E0 then None
           else byte_at (pTzs m) (((ttbr AND 0xFFF00000) - SCE_MEMORY_BASE) + (addr AND 0xFFFFF)))
        else None
      })"

definition mmuRead16 :: "tzs \<Rightarrow> u32 \<Rightarrow> u16 option" where
  "mmuRead16 m addr =
     do {
       b0 \<leftarrow> mmuRead8 m (addr + 0);
       b1 \<leftarrow> mmuRead8 m (addr + 1);
       Some (ucast b0 OR push_bit 8 (ucast b1))
     }"

definition mmuRead32 :: "tzs \<Rightarrow> u32 \<Rightarrow> u32 option" where
  "mmuRead32 m addr =
     do {
       h0 \<leftarrow> mmuRead16 m (addr + 0);
       h1 \<leftarrow> mmuRead16 m (addr + 2);
       Some (ucast h0 OR push_bit 16 (ucast h1))
     }"

definition mmuRead32_ptr :: "tzs \<Rightarrow> u32 \<Rightarrow> addr option" where
  "mmuRead32_ptr m addr = mmuRead32 m addr"

text \<open>
  \<open>mmuStrcpy\<close> stores at index \<open>i\<close> of the block \<open>dst\<close>, and has no bound of its own.
\<close>

function mmuStrcpy :: "tzs \<Rightarrow> u8 list \<Rightarrow> nat \<Rightarrow> u32 \<Rightarrow> u8 list option" where
  "mmuStrcpy m dst i src =
     do {
       s \<leftarrow> mmuRead8 m src;
       if i < length dst then
         (let dst = dst[i := s] in
          if s \<noteq> 0 then mmuStrcpy m dst (i + 1) (src + 1) else Some dst)
       else None
     }"
  by pat_completeness auto

termination
  by (relation "measure (\<lambda>(m, dst, i, src). length dst - i)") auto

declare mmuStrcpy.simps [simp del]

section \<open>Printing the tables\<close>

datatype ttbr_line =
    Page_table_line u32 u32 u32
  | Section_line u32 u32 u32
  | Fault_line
  | Super_section_line

definition page_table_entry :: "u32 \<Rightarrow> u32 \<Rightarrow> u32 \<Rightarrow> u32 \<Rightarrow> ttbr_line list" where
  "page_table_entry ttbr_idx TTBR i ttbr_sec =
     (if ttbr_sec = 0 then []
      else if ttbr_sec AND 3 = 1 then
        [Page_table_line TTBR (push_bit 20 ttbr_idx OR push_bit 12 i) (ttbr_sec AND 0xFFFF0000)]
      else if ttbr_sec AND 2 \<noteq> 0 then
        [Page_table_line TTBR (push_bit 20 ttbr_idx OR push_bit 12 i) (ttbr_sec AND 0xFFFFF000)]
      else [])"

definition parse_ttbr_page_table :: "tzs \<Rightarrow> u32 \<Rightarrow> u32 \<Rightarrow> ttbr_line list option" where
  "parse_ttbr_page_table m ttbr_idx TTBR =
     (let second_level_section = TTBR AND 0xFFFFFC00;
          pTTBRSec = second_level_section - SCE_MEMORY_BASE
      in collect (\<lambda>i. do { ttbr_sec \<leftarrow> word_at (pTzs m) (pTTBRSec + 4 * word_of_nat i);
                           Some (page_table_entry ttbr_idx TTBR (word_of_nat i) ttbr_sec) })
           [0..<0x100])"

definition parse_ttbr_section :: "u32 \<Rightarrow> u32 \<Rightarrow> ttbr_line list" where
  "parse_ttbr_section ttbr_idx TTBR =
     [Section_line TTBR (push_bit 20 ttbr_idx) (TTBR AND 0xFFF00000)]"

definition parse_ttbr :: "tzs \<Rightarrow> u32 list \<Rightarrow> ttbr_line list option" where
  "parse_ttbr m pTTBR =
     collect (\<lambda>i. do {
         ttbr \<leftarrow> entry_at pTTBR (word_of_nat i);
         if ttbr = 0x1E0 then Some []
         else if ttbr AND 3 = 0 then Some [Fault_line]
         else if ttbr AND 3 = 1 then parse_ttbr_page_table m (word_of_nat i) ttbr
         else if ttbr AND 3 = 2 then Some (parse_ttbr_section (word_of_nat i) ttbr)
         else Some [Super_section_line] })
       [0..<0x1000]"

section \<open>The modules of the secure kernel\<close>

text \<open>The members of the structures that are read, at the offsets of their layout.\<close>

definition module_field :: "addr \<Rightarrow> string \<Rightarrow> u32" where
  "module_field p x = p + word_of_nat (offset_of SceModuleInfoInternal_layout x)"

definition segment_field :: "addr \<Rightarrow> nat \<Rightarrow> string \<Rightarrow> u32" where
  "segment_field p i x = module_field p ''segments'' +
     word_of_nat (i * csize SceSegmentInfoInternal_layout + offset_of SceSegmentInfoInternal_layout x)"

datatype module_line =
    Text_line "u8 list" u32 u32
  | Text_data_line "u8 list" u32 u32 u32 u32 u32

definition print_module_load_info :: "tzs \<Rightarrow> u8 list \<Rightarrow> addr \<Rightarrow> module_line option" where
  "print_module_load_info m module_name pModuleInfo =
     do {
       name \<leftarrow> mmuRead32_ptr m (module_field pModuleInfo ''module_name'');
       module_name \<leftarrow> mmuStrcpy m module_name 0 name;
       segments_num \<leftarrow> mmuRead32 m (module_field pModuleInfo ''segments_num'');
       if segments_num < 2 then do {
         vaddr \<leftarrow> mmuRead32 m (segment_field pModuleInfo 0 ''vaddr'');
         memsz \<leftarrow> mmuRead32 m (segment_field pModuleInfo 0 ''memsz'');
         Some (Text_line module_name vaddr memsz)
       } else do {
         vaddr0 \<leftarrow> mmuRead32 m (segment_field pModuleInfo 0 ''vaddr'');
         memsz0 \<leftarrow> mmuRead32 m (segment_field pModuleInfo 0 ''memsz'');
         vaddr1 \<leftarrow> mmuRead32 m (segment_field pModuleInfo 1 ''vaddr'');
         filesz1 \<leftarrow> mmuRead32 m (segment_field pModuleInfo 1 ''filesz'');
         memsz1 \<leftarrow> mmuRead32 m (segment_field pModuleInfo 1 ''memsz'');
         Some (Text_data_line module_name vaddr0 memsz0 vaddr1 filesz1 memsz1)
       }
     }"

text \<open>
  The walk over the list of modules; the list comes from the dump and may be cyclic.  The array
  \<open>char module_name[0x20]\<close> has no initial value; \<open>name0\<close> is what it holds.
\<close>

partial_function (option) module_walk :: "tzs \<Rightarrow> u8 list \<Rightarrow> addr \<Rightarrow> module_line list option" where
  "module_walk m name0 pModuleInfo =
     (if pModuleInfo = NULL then Some []
      else do {
        line \<leftarrow> print_module_load_info m name0 pModuleInfo;
        pModuleInfo \<leftarrow> mmuRead32_ptr m (module_field pModuleInfo ''next'');
        lines \<leftarrow> module_walk m name0 pModuleInfo;
        Some (line # lines)
      })"

definition list_modules :: "tzs \<Rightarrow> u8 list \<Rightarrow> (u32 \<times> module_line list) option" where
  "list_modules m name0 =
     (let process_module_info_address = 0x400737A4 in
      do {
        pProcModuleInfo \<leftarrow> word_at (pTzs m) (process_module_info_address - SCE_MEMORY_BASE);
        pid \<leftarrow> mmuRead32 m (pProcModuleInfo +
          word_of_nat (offset_of SceKernelProcessModuleInfo_layout ''pid''));
        pModuleInfo \<leftarrow> mmuRead32_ptr m (pProcModuleInfo +
          word_of_nat (offset_of SceKernelProcessModuleInfo_layout ''pModuleInfo''));
        lines \<leftarrow> module_walk m name0 pModuleInfo;
        Some (pid, lines)
      })"

text \<open>
  Loading the dump: the first of four files that can be opened; the results of the reads are not
  looked at, a block that is read short keeps what it held.
\<close>

fun open_first :: "'k sce_io \<Rightarrow> string list \<Rightarrow> 'k \<Rightarrow> s32 \<times> 'k" where
  "open_first IO [] k = (-1, k)"
| "open_first IO (p # ps) k =
     (let (fd, k) = io_open IO k p 1 0 in
      if failed fd \<and> ps \<noteq> [] then open_first IO ps k else (fd, k))"

definition load_at :: "'k sce_io \<Rightarrow> s32 \<Rightarrow> SceOff \<Rightarrow> SceSize \<Rightarrow> u8 list \<Rightarrow> 'k \<Rightarrow> u8 list \<times> 'k" where
  "load_at IO fd off n buf k =
     (let (_, k) = io_lseek IO k fd off (SCE_SEEK_SET IO);
          (_, buf, k) = sce_read IO fd n buf k
      in (buf, k))"

definition load_tables :: "'k sce_io \<Rightarrow> s32 \<Rightarrow> u8 list \<Rightarrow> u8 list \<Rightarrow> u8 list \<Rightarrow> 'k \<Rightarrow> tzs \<times> 'k" where
  "load_tables IO fd tzs0 t0 t1 k =
     (let (b, k) = load_at IO fd 0 0x200000 tzs0 k;
          (b0, k) = load_at IO fd 0x108000 0x4000 t0 k;
          (b1, k) = load_at IO fd 0x10C000 0x4000 t1 k;
          (_, k) = io_close IO k fd
      in (\<lparr>pTzs = b, pTTBR0 = words32 b0, pTTBR1 = words32 b1\<rparr>, k))"

definition ttbr_module_start ::
    "'k sce_io \<Rightarrow> u8 list \<Rightarrow> u8 list \<Rightarrow> u8 list \<Rightarrow> u8 list \<Rightarrow> 'k \<Rightarrow> (u32 \<times> module_line list) option" where
  "ttbr_module_start IO tzs0 t0 t1 name0 k =
     (let (fd, k) = open_first IO
            [''host0:tzs.bin'', ''sd0:tzs.bin'', ''uma0:tzs.bin'', ''ux0:tzs.bin''] k in
      if failed fd then None
      else let (m, k) = load_tables IO fd tzs0 t0 t1 k in list_modules m name0)"

end
