(* ===== verification/Ttbr_Props.thy ===== *)
theory Ttbr_Props
  imports Ttbr_Parser
begin

text \<open>
  The software walk computes the translation of the architecture (short descriptors: sections of
  1 MiB, large pages of 64 KiB, small pages of 4 KiB), stated over numbers; the strings and the list
  of modules are read completely or not at all.
\<close>

section \<open>The translation of the architecture\<close>

definition phys :: "tzs \<Rightarrow> nat \<Rightarrow> u8 option" where
  "phys m pa =
     (if 2^30 \<le> pa \<and> pa < 2^30 + length (pTzs m) then Some (pTzs m ! (pa - 2^30)) else None)"

definition phys_word :: "tzs \<Rightarrow> nat \<Rightarrow> u32 option" where
  "phys_word m pa =
     (if 2^30 \<le> pa \<and> pa + 4 \<le> 2^30 + length (pTzs m)
      then let i = pa - 2^30 in
        Some (le32 (pTzs m ! i) (pTzs m ! (i + 1)) (pTzs m ! (i + 2)) (pTzs m ! (i + 3)))
      else None)"

definition table_for :: "tzs \<Rightarrow> nat \<Rightarrow> u32 list" where
  "table_for m va = (if va < 2^30 then pTTBR0 m else pTTBR1 m)"

definition page_base :: "nat \<Rightarrow> u32 \<Rightarrow> nat" where
  "page_base n d = unat d div 2^n * 2^n"

definition arm_translate :: "tzs \<Rightarrow> nat \<Rightarrow> nat option" where
  "arm_translate m va =
     (let d = table_for m va ! (va div 2^20) in
      if unat d mod 4 = 2 then Some (page_base 20 d + va mod 2^20)
      else if unat d mod 4 = 1 then
        Option.bind (phys_word m (page_base 10 d + 4 * (va div 2^12 mod 2^8))) (\<lambda>e.
          if unat e mod 4 = 1 then Some (page_base 16 e + va mod 2^16)
          else if 2 \<le> unat e mod 4 then Some (page_base 12 e + va mod 2^12)
          else None)
      else None)"

definition tzs_ok :: "tzs \<Rightarrow> bool" where
  "tzs_ok m \<longleftrightarrow> length (pTzs m) \<le> 0x200000 \<and> length (pTTBR0 m) = 0x1000 \<and> length (pTTBR1 m) = 0x1000"

section \<open>Masks\<close>

lemma mask_numerals:
  "(0xFF :: u32) = mask 8" "(0xFFF :: u32) = mask 12" "(0xFFFF :: u32) = mask 16"
  "(0xFFFFF :: u32) = mask 20" "(3 :: u32) = mask 2"
  "(0xFFFFFC00 :: u32) = NOT (mask 10)" "(0xFFFFF000 :: u32) = NOT (mask 12)"
  "(0xFFFF0000 :: u32) = NOT (mask 16)" "(0xFFF00000 :: u32) = NOT (mask 20)"
  by (simp_all add: mask_eq_exp_minus_1)

lemma unat_and_mask: "unat (w AND mask n :: u32) = unat w mod 2 ^ n"
  by (simp add: unat_take flip: take_bit_eq_mask)

lemma and3_eq: "w AND 3 = (1 :: u32) \<longleftrightarrow> unat w mod 4 = 1" "w AND 3 = (2 :: u32) \<longleftrightarrow> unat w mod 4 = 2"
    "w AND 3 = (0 :: u32) \<longleftrightarrow> unat w mod 4 = 0"
proof -
  have u: "unat (w AND 3) = unat w mod 4"
    using unat_and_mask [of w 2] by (simp add: mask_numerals)
  show "w AND 3 = 1 \<longleftrightarrow> unat w mod 4 = 1" "w AND 3 = 2 \<longleftrightarrow> unat w mod 4 = 2"
    "w AND 3 = 0 \<longleftrightarrow> unat w mod 4 = 0"
    unfolding word_unat_eq_iff u by simp_all
qed

lemma and2_eq: "w AND 2 \<noteq> (0 :: u32) \<longleftrightarrow> 2 \<le> unat w mod 4"
proof -
  have "w AND 2 \<noteq> 0 \<longleftrightarrow> bit w 1"
    using and_exp_eq_0_iff_not_bit [of w 1] by simp
  also have "\<dots> \<longleftrightarrow> odd (unat w div 2)"
  proof -
    have "bit (unat w) 1 = bit w 1" by (simp add: bit_simps)
    then show ?thesis using bit_iff_odd [of "unat w" 1] by simp
  qed
  also have "\<dots> \<longleftrightarrow> 2 \<le> unat w mod 4" by presburger
  finally show ?thesis .
qed

lemma base_plus:
  assumes "k < 2 ^ n" "n \<le> 32" "unat (l :: u32) = k"
  shows "unat ((d AND NOT (mask n)) + l) = page_base n d + k"
proof -
  have b: "unat (d AND NOT (mask n)) = page_base n d" by (simp add: unat_and_not_mask page_base_def)
  have "page_base n d + k < 2 ^ 32"
  proof -
    have "unat d div 2 ^ n < 2 ^ (32 - n)"
      using unat_lt_32 [of d] assms(2)
      by (simp add: div_less_iff_less_mult power_add [symmetric])
    then have "(unat d div 2 ^ n + 1) * 2 ^ n \<le> 2 ^ (32 - n) * 2 ^ n" by (intro mult_le_mono1) simp
    also have "\<dots> = 2 ^ 32" using assms(2) by (simp add: power_add [symmetric])
    finally show ?thesis using assms(1) by (simp add: page_base_def)
  qed
  then show ?thesis using b assms(3) by (simp add: unat_word_ariths)
qed

section \<open>Physical memory\<close>

lemma offset_phys: "unat (p - 0x40000000 :: u32) =
    (if 2^30 \<le> unat p then unat p - 2^30 else unat p + 2^32 - 2^30)"
  by (simp add: unat_sub_if')

lemma byte_at_phys:
  assumes "length (pTzs m) \<le> 0x200000"
  shows "byte_at (pTzs m) (p - SCE_MEMORY_BASE) = phys m (unat p)"
  using assms unat_lt_32 [of p]
  by (auto simp: byte_at_def phys_def offset_phys SCE_MEMORY_BASE_def)

lemma word_at_phys:
  assumes "length (pTzs m) \<le> 0x200000"
  shows "word_at (pTzs m) (p - SCE_MEMORY_BASE) = phys_word m (unat p)"
  using assms unat_lt_32 [of p]
  by (auto simp: word_at_def phys_word_def offset_phys SCE_MEMORY_BASE_def Let_def)

lemma byte_at_base:
  assumes "length (pTzs m) \<le> 0x200000" "n \<le> 32"
  shows "byte_at (pTzs m) (((d AND NOT (mask n)) - SCE_MEMORY_BASE) + (va AND mask n)) =
    phys m (page_base n d + unat va mod 2 ^ n)"
proof -
  have "unat ((d AND NOT (mask n)) + (va AND mask n)) = page_base n d + unat va mod 2 ^ n"
    by (rule base_plus) (simp_all add: unat_and_mask assms(2))
  then show ?thesis using byte_at_phys [OF assms(1), of "(d AND NOT (mask n)) + (va AND mask n)"]
    by (simp add: algebra_simps)
qed

lemma word_at_base:
  assumes "length (pTzs m) \<le> 0x200000" "i < 256"
  shows "word_at (pTzs m) (((d AND NOT (mask 10)) - SCE_MEMORY_BASE) + 4 * word_of_nat i) =
    phys_word m (page_base 10 d + 4 * i)"
proof -
  have "unat (4 * word_of_nat i :: u32) = 4 * i"
    using assms(2) by (simp add: unat_word_ariths unsigned_of_nat take_bit_eq_mod)
  then have "unat ((d AND NOT (mask 10)) + 4 * word_of_nat i) = page_base 10 d + 4 * i"
    using assms(2) by (intro base_plus) simp_all
  then show ?thesis using word_at_phys [OF assms(1), of "(d AND NOT (mask 10)) + 4 * word_of_nat i"]
    by (simp add: algebra_simps)
qed

lemma va_index: "unat (drop_bit 20 va AND mask 12 :: u32) = unat va div 2^20"
proof -
  have "unat va div 2^20 < 2^12" using unat_lt_32 [of va] by (simp add: div_less_iff_less_mult)
  then show ?thesis by (simp add: unat_and_mask unat_drop)
qed

lemma va_second: "drop_bit 12 va AND mask 8 = (word_of_nat (unat va div 2^12 mod 2^8) :: u32)"
proof -
  have "unat (drop_bit 12 va AND mask 8) = unat va div 2^12 mod 2^8"
    by (simp add: unat_and_mask unat_drop)
  then show ?thesis unfolding word_unat_eq_iff by (simp only: unsigned_of_nat) (simp add: take_bit_eq_mod)
qed

lemma entry_at_table:
  assumes "tzs_ok m"
  shows "entry_at (if va < 0x40000000 then pTTBR0 m else pTTBR1 m) (drop_bit 20 va AND 0xFFF) =
    Some (table_for m (unat va) ! (unat va div 2^20))"
proof -
  have "unat va div 2^20 < 0x1000" using unat_lt_32 [of va] by (simp add: div_less_iff_less_mult)
  moreover have "va < 0x40000000 \<longleftrightarrow> unat va < 2^30" by (simp add: word_less_nat_alt)
  ultimately show ?thesis using assms
    by (auto simp: entry_at_def table_for_def tzs_ok_def mask_numerals va_index)
qed

lemma mmuRead8_arm:
  assumes "tzs_ok m"
  shows "mmuRead8 m va = Option.bind (arm_translate m (unat va)) (phys m)"
proof -
  have l: "length (pTzs m) \<le> 0x200000" using assms by (simp add: tzs_ok_def)
  have dead: "ttbr \<noteq> 0x1E0" if "unat (ttbr :: u32) mod 4 = 2" for ttbr
    using that by auto
  have w: "word_at (pTzs m) ((d AND NOT (mask 10)) - SCE_MEMORY_BASE +
      4 * (drop_bit 12 va AND mask 8)) =
      phys_word m (page_base 10 d + 4 * (unat va div 2^12 mod 2^8))" for d
    unfolding va_second by (rule word_at_base [OF l]) simp
  show ?thesis
    unfolding mmuRead8_def Let_def entry_at_table [OF assms] and3_eq and2_eq arm_translate_def
    by (simp add: mask_numerals w byte_at_base [OF l] dead split: option.split bind_split)
qed

section \<open>Words and strings\<close>

lemma mmuRead32_bytes:
  "mmuRead32 m a = do {
     b0 \<leftarrow> mmuRead8 m a; b1 \<leftarrow> mmuRead8 m (a + 1);
     b2 \<leftarrow> mmuRead8 m (a + 2); b3 \<leftarrow> mmuRead8 m (a + 3);
     Some (le32 b0 b1 b2 b3) }"
proof -
  have j: "ucast (ucast b0 OR push_bit 8 (ucast b1) :: u16) OR
      push_bit 16 (ucast (ucast b2 OR push_bit 8 (ucast b3) :: u16)) = le32 b0 b1 b2 b3"
    for b0 b1 b2 b3 :: u8
    by (rule bit_word_eqI) (auto simp: bit_le32 bit_simps dest: bit_imp_le_length)
  have a: "a + 2 + 1 = a + 3" by simp
  show ?thesis unfolding mmuRead32_def mmuRead16_def
    by (simp add: j a split: bind_split)
qed

text \<open>The string at an address of the secure kernel.\<close>

fun cstring_at :: "tzs \<Rightarrow> u32 \<Rightarrow> u8 list \<Rightarrow> bool" where
  "cstring_at m a [] \<longleftrightarrow> mmuRead8 m a = Some 0"
| "cstring_at m a (b # bs) \<longleftrightarrow> mmuRead8 m a = Some b \<and> b \<noteq> 0 \<and> cstring_at m (a + 1) bs"

lemma overwrite_Cons:
  "i < length dst \<Longrightarrow> overwrite (Suc i) bs (dst[i := s]) = overwrite i (s # bs) dst"
  by (simp add: overwrite_def take_Suc_conv_app_nth)

lemma strcpy_iff:
  "mmuStrcpy m dst i src = Some d \<longleftrightarrow>
   (\<exists>bs. cstring_at m src bs \<and> i + length bs < length dst \<and> d = overwrite i (bs @ [0]) dst)"
proof (induction m dst i src rule: mmuStrcpy.induct)
  case (1 m dst i src)
  show ?case
  proof (cases "mmuRead8 m src")
    case None
    then show ?thesis
      by (subst mmuStrcpy.simps) (auto elim: cstring_at.elims)
  next
    case (Some s)
    show ?thesis
    proof (cases "i < length dst")
      case i: True
      show ?thesis
      proof (cases "s = 0")
        case True
        have "(\<exists>bs. cstring_at m src bs \<and> i + length bs < length dst \<and> d = overwrite i (bs @ [0]) dst)
            \<longleftrightarrow> d = overwrite i [0] dst"
          using Some True i by (auto elim: cstring_at.elims intro: exI [of _ "[]"])
        moreover have "overwrite i [0] dst = dst[i := 0]"
          using i overwrite_Cons [of i dst "[]" 0] by simp
        ultimately show ?thesis using Some True i by (subst mmuStrcpy.simps) auto
      next
        case False
        have "(\<exists>bs. cstring_at m src bs \<and> i + length bs < length dst \<and> d = overwrite i (bs @ [0]) dst)
            \<longleftrightarrow> (\<exists>bs. cstring_at m (src + 1) bs \<and> i + 1 + length bs < length dst \<and>
                  d = overwrite i (s # bs @ [0]) dst)" (is "?l \<longleftrightarrow> ?r")
        proof
          assume ?l
          then obtain bs where bs: "cstring_at m src bs" "i + length bs < length dst"
            "d = overwrite i (bs @ [0]) dst" by blast
          with Some False obtain bs' where "bs = s # bs'" by (cases bs) auto
          with bs show ?r by auto
        next
          assume ?r
          then obtain bs where "cstring_at m (src + 1) bs" "i + 1 + length bs < length dst"
            "d = overwrite i (s # bs @ [0]) dst" by blast
          then show ?l using Some False by (intro exI [of _ "s # bs"]) simp
        qed
        then show ?thesis using Some False i 1 [OF Some i refl False]
          by (subst mmuStrcpy.simps) (simp add: overwrite_Cons)
      qed
    next
      case False
      then show ?thesis using Some by (subst mmuStrcpy.simps) auto
    qed
  qed
qed

section \<open>The list of modules\<close>

definition next_module :: "tzs \<Rightarrow> addr \<Rightarrow> addr option" where
  "next_module m p = mmuRead32_ptr m (module_field p ''next'')"

lemma module_walk_chain:
  "chain (next_module m) p ps \<Longrightarrow> map (print_module_load_info m name0) ps = map Some ls \<Longrightarrow>
   module_walk m name0 p = Some ls"
proof (induction ps arbitrary: p ls)
  case Nil
  then show ?case by (subst module_walk.simps) simp
next
  case (Cons a ps)
  then obtain l ls' q where "ls = l # ls'" "next_module m a = Some q" "chain (next_module m) q ps"
    by (cases ls) auto
  moreover from this Cons have "module_walk m name0 q = Some ls'" by simp
  ultimately show ?case using Cons.prems
    by (subst module_walk.simps) (simp add: next_module_def)
qed

lemma module_walk_Some:
  assumes "module_walk m name0 p = Some ls"
  shows "\<exists>ps. chain (next_module m) p ps \<and> map (print_module_load_info m name0) ps = map Some ls"
proof (rule module_walk.raw_induct [OF _ assms])
  fix walk m name0 p ls
  assume IH: "\<And>m name0 p ls. walk m name0 p = Some ls \<Longrightarrow>
      \<exists>ps. chain (next_module m) p ps \<and> map (print_module_load_info m name0) ps = map Some ls"
    and eq: "(if p = NULL then Some []
      else do { line \<leftarrow> print_module_load_info m name0 p;
        p \<leftarrow> mmuRead32_ptr m (module_field p ''next'');
        lines \<leftarrow> walk m name0 p; Some (line # lines) }) = Some ls"
  show "\<exists>ps. chain (next_module m) p ps \<and> map (print_module_load_info m name0) ps = map Some ls"
  proof (cases "p = NULL")
    case True
    then show ?thesis using eq by (intro exI [of _ "[]"]) simp
  next
    case False
    then obtain l q ls' where w: "print_module_load_info m name0 p = Some l"
      "next_module m p = Some q" "walk m name0 q = Some ls'" "ls = l # ls'"
      using eq by (auto simp: next_module_def bind_eq_Some_conv)
    from IH [OF w(3)] obtain ps where "chain (next_module m) q ps"
      "map (print_module_load_info m name0) ps = map Some ls'" by blast
    then show ?thesis using w False by (intro exI [of _ "p # ps"]) simp
  qed
qed

lemma module_walk_iff:
  "module_walk m name0 p = Some ls \<longleftrightarrow>
   (\<exists>ps. chain (next_module m) p ps \<and> map (print_module_load_info m name0) ps = map Some ls)"
  using module_walk_chain module_walk_Some by blast

end
