(* ===== verification/Ttbr_Tables.thy ===== *)
theory Ttbr_Tables
  imports Ttbr_Props
begin

text \<open>
  The printed tables agree with the translation: every address that is mapped lies in a page with a
  line, and no line is printed for a page that is not mapped.
\<close>

text \<open>Which page a line is about, and the physical address that it gives.\<close>

fun line_page :: "ttbr_line \<Rightarrow> nat \<Rightarrow> bool" where
  "line_page (Section_line d v p) va \<longleftrightarrow> va div 2^20 = unat v div 2^20"
| "line_page (Page_table_line d v p) va \<longleftrightarrow> va div 2^12 = unat v div 2^12"
| "line_page l va \<longleftrightarrow> False"

fun line_pa :: "ttbr_line \<Rightarrow> nat \<Rightarrow> nat \<Rightarrow> bool" where
  "line_pa (Section_line d v p) va pa \<longleftrightarrow> pa = unat p + va mod 2^20"
| "line_pa (Page_table_line d v p) va pa \<longleftrightarrow> pa = unat p + va mod 2^12 \<or> pa = unat p + va mod 2^16"
| "line_pa l va pa \<longleftrightarrow> False"

lemma unat_index: "i < 0x1000 \<Longrightarrow> unat (word_of_nat i :: u32) = i"
  by (simp add: unsigned_of_nat take_bit_nat_eq_self_iff)

lemma unat_section_va: "i < 0x1000 \<Longrightarrow> unat (push_bit 20 (word_of_nat i :: u32)) = i * 2^20"
  by (subst unat_push) (simp_all add: unat_index)

lemma unat_page_va:
  assumes i: "i < 0x1000" and j: "j < 0x100"
  shows "unat (push_bit 20 (word_of_nat i) OR push_bit 12 (word_of_nat j) :: u32) = i * 2^20 + j * 2^12"
proof -
  have u: "unat (push_bit 12 (word_of_nat j :: u32)) = j * 2^12"
    using j by (subst unat_push) (simp_all add: unat_index)
  have "\<not> bit (word_of_nat j :: u32) n" if "8 \<le> n" for n
  proof -
    have "j < 2 ^ n" using j that power_increasing [of 8 n "2::nat"] by simp
    then have "\<not> bit j n" by (simp add: bit_iff_odd)
    then show ?thesis by (simp add: bit_simps)
  qed
  then have "\<not> bit (push_bit 20 (word_of_nat i) :: u32) n \<or> \<not> bit (push_bit 12 (word_of_nat j) :: u32) n"
    for n by (cases "20 \<le> n") (auto simp: bit_simps)
  then have "push_bit 20 (word_of_nat i) OR push_bit 12 (word_of_nat j) =
      (push_bit 20 (word_of_nat i) + push_bit 12 (word_of_nat j) :: u32)"
    by (rule disjunctive_add [symmetric])
  then show ?thesis using u unat_section_va [OF i] i j by (simp add: unat_word_ariths)
qed

text \<open>The lines of one entry of the first level.\<close>

definition entry_lines :: "tzs \<Rightarrow> u32 list \<Rightarrow> nat \<Rightarrow> ttbr_line list option" where
  "entry_lines m tbl i = do {
     ttbr \<leftarrow> entry_at tbl (word_of_nat i);
     if ttbr = 0x1E0 then Some []
     else if ttbr AND 3 = 0 then Some [Fault_line]
     else if ttbr AND 3 = 1 then parse_ttbr_page_table m (word_of_nat i) ttbr
     else if ttbr AND 3 = 2 then Some (parse_ttbr_section (word_of_nat i) ttbr)
     else Some [Super_section_line] }"

lemma parse_ttbr_lines: "parse_ttbr m tbl = collect (entry_lines m tbl) [0..<0x1000]"
  unfolding parse_ttbr_def entry_lines_def [abs_def] by (rule refl)

text \<open>The line of one entry of the second level.\<close>

lemma page_table_member:
  assumes m: "length (pTzs m) \<le> 0x200000" and p: "parse_ttbr_page_table m idx d = Some ys"
  shows "l \<in> set ys \<longleftrightarrow> (\<exists>j<0x100. \<exists>e. phys_word m (page_base 10 d + 4 * j) = Some e \<and>
      l \<in> set (page_table_entry idx d (word_of_nat j) e))"
    and "j < 0x100 \<Longrightarrow> phys_word m (page_base 10 d + 4 * j) \<noteq> None"
proof -
  have w: "word_at (pTzs m) ((d AND 0xFFFFFC00) - SCE_MEMORY_BASE + 4 * word_of_nat j) =
      phys_word m (page_base 10 d + 4 * j)" if "j < 0x100" for j
    using word_at_base [OF m, of j d] that by (simp add: mask_numerals)
  note c = p [unfolded parse_ttbr_page_table_def Let_def]
  show "l \<in> set ys \<longleftrightarrow> (\<exists>j<0x100. \<exists>e. phys_word m (page_base 10 d + 4 * j) = Some e \<and>
      l \<in> set (page_table_entry idx d (word_of_nat j) e))"
    unfolding collect_member [OF c] by (simp add: w bind_eq_Some_conv Bex_def) metis
  assume j: "j < 0x100"
  then have "j \<in> set [0..<0x100]" by simp
  then show "phys_word m (page_base 10 d + 4 * j) \<noteq> None"
    using collect_defined [OF c, of j] w [OF j] by (auto simp: bind_eq_Some_conv)
qed

lemma entry_line_page:
  assumes "l \<in> set (page_table_entry (word_of_nat i) d (word_of_nat j) e)" "i < 0x1000" "j < 0x100"
  shows "line_page l va \<longleftrightarrow> va div 2^12 = i * 2^8 + j"
    and "unat e mod 4 = 1 \<Longrightarrow> line_pa l va (page_base 16 e + va mod 2^16)"
    and "2 \<le> unat e mod 4 \<Longrightarrow> line_pa l va (page_base 12 e + va mod 2^12)"
    and "unat e mod 4 \<noteq> 0"
proof -
  have "(i * 2^20 + j * 2^12) div 2^12 = i * 2^8 + j" by simp
  note v = unat_page_va [OF assms(2,3)] this
  have z: "unat e mod 4 = 0 \<longleftrightarrow> \<not> (unat e mod 4 = 1 \<or> 2 \<le> unat e mod 4)" by linarith
  have b: "unat (e AND NOT (mask n)) = page_base n e" for n
    by (simp add: unat_and_not_mask page_base_def)
  have l: "l = Page_table_line d (push_bit 20 (word_of_nat i) OR push_bit 12 (word_of_nat j))
      (if unat e mod 4 = 1 then e AND NOT (mask 16) else e AND NOT (mask 12))"
    and nz: "unat e mod 4 = 1 \<or> 2 \<le> unat e mod 4"
    using assms(1) by (auto simp: page_table_entry_def and3_eq and2_eq mask_numerals(7,8) split: if_splits)
  show "line_page l va \<longleftrightarrow> va div 2^12 = i * 2^8 + j" by (simp only: l line_page.simps v)
  show "unat e mod 4 = 1 \<Longrightarrow> line_pa l va (page_base 16 e + va mod 2^16)" by (simp add: l b)
  show "2 \<le> unat e mod 4 \<Longrightarrow> line_pa l va (page_base 12 e + va mod 2^12)" by (simp add: l b)
  show "unat e mod 4 \<noteq> 0" using nz z by simp
qed

lemma page_table_entry_nonempty: "unat e mod 4 \<noteq> 0 \<Longrightarrow> page_table_entry idx d j e \<noteq> []"
proof -
  assume "unat e mod 4 \<noteq> 0"
  moreover from this have "unat e mod 4 = 1 \<or> 2 \<le> unat e mod 4" by linarith
  moreover have "e \<noteq> 0" using calculation(1) by auto
  ultimately show ?thesis by (auto simp: page_table_entry_def and3_eq and2_eq)
qed

section \<open>All lines\<close>

lemma index_less: "(va :: nat) < 2^32 \<Longrightarrow> va div 2^20 < 0x1000"
  by (simp add: div_less_iff_less_mult)

lemma entry_read:
  "tzs_ok m \<Longrightarrow> i < 0x1000 \<Longrightarrow>
   entry_at (table_for m va) (word_of_nat i) = Some (table_for m va ! i)"
  by (auto simp: entry_at_def table_for_def tzs_ok_def unat_index)

lemma entry_lines_cases:
  assumes ok: "tzs_ok m" and tbl: "tbl = table_for m va"
    and "i < 0x1000" "entry_lines m tbl i = Some ys" "l \<in> set ys" "line_page l va"
  obtains (section_line) "unat (tbl ! i) mod 4 = 2" "va div 2^20 = i"
      "l = Section_line (tbl ! i) (push_bit 20 (word_of_nat i)) ((tbl ! i) AND NOT (mask 20))"
    | (page) j e where "unat (tbl ! i) mod 4 = 1" "j < 0x100" "va div 2^12 = i * 2^8 + j"
      "phys_word m (page_base 10 (tbl ! i) + 4 * j) = Some e"
      "l \<in> set (page_table_entry (word_of_nat i) (tbl ! i) (word_of_nat j) e)"
proof -
  have "(tbl ! i) AND 3 = 2 \<and> ys = parse_ttbr_section (word_of_nat i) (tbl ! i) \<or>
      (tbl ! i) AND 3 = 1 \<and> parse_ttbr_page_table m (word_of_nat i) (tbl ! i) = Some ys"
    using assms(4-6) by (auto simp: entry_lines_def tbl entry_read [OF ok assms(3)] split: if_splits)
  then show thesis
  proof
    assume a: "(tbl ! i) AND 3 = 2 \<and> ys = parse_ttbr_section (word_of_nat i) (tbl ! i)"
    then have l: "l = Section_line (tbl ! i) (push_bit 20 (word_of_nat i)) ((tbl ! i) AND NOT (mask 20))"
      using assms(5) by (simp add: parse_ttbr_section_def mask_numerals(9))
    then have "va div 2^20 = i" using assms(6) unat_section_va [OF assms(3)] by simp
    then show thesis using a l section_line by (simp add: and3_eq)
  next
    assume a: "(tbl ! i) AND 3 = 1 \<and> parse_ttbr_page_table m (word_of_nat i) (tbl ! i) = Some ys"
    have "length (pTzs m) \<le> 0x200000" using ok by (simp add: tzs_ok_def)
    from page_table_member(1) [OF this, of "word_of_nat i" "tbl ! i" ys l] a assms(5)
    obtain j e where j: "j < 0x100" "phys_word m (page_base 10 (tbl ! i) + 4 * j) = Some e"
      "l \<in> set (page_table_entry (word_of_nat i) (tbl ! i) (word_of_nat j) e)" by blast
    have "va div 2^12 = i * 2^8 + j"
      using entry_line_page(1) [OF j(3) assms(3) j(1), of va] assms(6) by simp
    then show thesis using page [of j e] a j by (simp add: and3_eq)
  qed
qed

lemma va_split: "(va :: nat) div 2^12 = va div 2^20 * 2^8 + va div 2^12 mod 2^8"
proof -
  have "va div 2^20 = va div 2^12 div 2^8" by (simp only: div_mult2_eq [symmetric]) simp
  then show ?thesis using div_mult_mod_eq [of "va div 2^12" "2^8"] by simp
qed

lemma va_join: "(va :: nat) div 2^12 = i * 2^8 + j \<Longrightarrow> j < 0x100 \<Longrightarrow> va div 2^20 = i \<and> va div 2^12 mod 2^8 = j"
proof -
  assume a: "va div 2^12 = i * 2^8 + j" "j < 0x100"
  have "va div 2^20 = va div 2^12 div 2^8" by (simp only: div_mult2_eq [symmetric]) simp
  then show ?thesis using a by simp
qed

lemma line_translates:
  assumes ok: "tzs_ok m" and tbl: "tbl = table_for m va"
    and p: "parse_ttbr m tbl = Some ls" and l: "l \<in> set ls" "line_page l va"
  shows "\<exists>pa. arm_translate m va = Some pa \<and> line_pa l va pa"
proof -
  obtain i ys where i: "i < 0x1000" "entry_lines m tbl i = Some ys" "l \<in> set ys"
    using l(1) p unfolding parse_ttbr_lines by (auto simp: collect_member)
  from ok tbl i l(2) show ?thesis
  proof (cases rule: entry_lines_cases)
    case section_line
    then show ?thesis
      by (simp add: arm_translate_def tbl [symmetric] unat_and_not_mask page_base_def)
  next
    case (page j e)
    note j = va_join [OF page(3,2)] and e = entry_line_page [OF page(5) i(1) page(2)]
    have "unat e mod 4 = 1 \<or> 2 \<le> unat e mod 4" using e(4) by linarith
    then show ?thesis using page(1,4) j e(2,3) [of va] 
      by (auto simp: arm_translate_def tbl [symmetric] Let_def)
  qed
qed

lemma translation_has_line:
  assumes ok: "tzs_ok m" and va: "va < 2^32" and tbl: "tbl = table_for m va"
    and p: "parse_ttbr m tbl = Some ls" and t: "arm_translate m va = Some pa"
  shows "\<exists>l\<in>set ls. line_page l va \<and> line_pa l va pa"
proof -
  let ?i = "va div 2^20" and ?j = "va div 2^12 mod 2^8"
  let ?d = "tbl ! ?i"
  have p': "collect (entry_lines m tbl) [0..<0x1000] = Some ls" using p by (simp only: parse_ttbr_lines)
  obtain ys where ys: "entry_lines m tbl ?i = Some ys"
    using collect_defined [OF p', of ?i] index_less [OF va] by auto
  have sub: "l \<in> set ls" if "l \<in> set ys" for l
  proof -
    have "?i \<in> set [0..<0x1000]" using index_less [OF va] by simp
    then show ?thesis using collect_member [OF p', of l] ys that by blast
  qed
  have l: "length (pTzs m) \<le> 0x200000" using ok by (simp add: tzs_ok_def)
  consider (a) "unat ?d mod 4 = 2" | (b) "unat ?d mod 4 = 1"
    using t by (auto simp: arm_translate_def tbl [symmetric] Let_def split: if_splits)
  then show ?thesis
  proof cases
    case a
    then have "?d AND 3 = 2" "?d \<noteq> 0x1E0" by (auto simp: and3_eq)
    then have "ys = parse_ttbr_section (word_of_nat ?i) ?d"
      using ys unfolding entry_lines_def tbl entry_read [OF ok index_less [OF va]] by simp
    moreover have "pa = page_base 20 ?d + va mod 2^20"
      using t a by (simp add: arm_translate_def tbl [symmetric])
    moreover have "line_page (Section_line d (push_bit 20 (word_of_nat ?i)) q) va" for d q
      unfolding line_page.simps unat_section_va [OF index_less [OF va]] by simp
    moreover have "line_pa (Section_line d v (?d AND NOT (mask 20))) va (page_base 20 ?d + va mod 2^20)" for d v
      by (simp add: unat_and_not_mask page_base_def)
    ultimately show ?thesis using sub unfolding parse_ttbr_section_def mask_numerals(9) by fastforce
  next
    case b
    then have "?d AND 3 = 1" "?d \<noteq> 0x1E0" by (auto simp: and3_eq)
    then have pt: "parse_ttbr_page_table m (word_of_nat ?i) ?d = Some ys"
      using ys unfolding entry_lines_def tbl entry_read [OF ok index_less [OF va]] by simp
    obtain e where e: "phys_word m (page_base 10 ?d + 4 * ?j) = Some e"
      "unat e mod 4 = 1 \<and> pa = page_base 16 e + va mod 2^16 \<or>
       2 \<le> unat e mod 4 \<and> pa = page_base 12 e + va mod 2^12"
      using t b by (auto simp: arm_translate_def tbl [symmetric] Let_def bind_eq_Some_conv split: if_splits)
    then have "unat e mod 4 \<noteq> 0" by auto
    from page_table_entry_nonempty [OF this, where idx = "word_of_nat ?i" and d = ?d and j = "word_of_nat ?j"]
    obtain x where x: "x \<in> set (page_table_entry (word_of_nat ?i) ?d (word_of_nat ?j) e)"
      using hd_in_set by blast
    have j: "?j < 0x100" by simp
    have "x \<in> set ys" using page_table_member(1) [OF l pt] j e(1) x by blast
    moreover note q = entry_line_page(1-3) [OF x index_less [OF va] j, of va]
    ultimately show ?thesis using e(2) va_split sub by blast
  qed
qed

section \<open>The parser\<close>



text \<open>
  The copy of a string from the secure kernel returns exactly when the string is readable with
  its terminator and fits the array, and then the array holds the string and the terminator at its
  front: a name of 0x20 characters or more is written beyond \<open>module_name\<close>.
\<close>

theorem mmuStrcpy_bound:
  "mmuStrcpy m dst 0 src = Some d \<longleftrightarrow>
   (\<exists>bs. cstring_at m src bs \<and> length bs < length dst \<and> d = overwrite 0 (bs @ [0]) dst)"
  using strcpy_iff [of m dst 0 src d] by simp

text \<open>
  The listing returns exactly when the list of modules is a finite chain from the pointer at
  0x737A4 of the dump whose modules can all be printed, and then it has one line for each of them in
  order; a cyclic list is walked for ever.
\<close>

theorem module_list_returns:
  "list_modules m name0 = Some (pid, lines) \<longleftrightarrow>
   (\<exists>info top ps. word_at (pTzs m) 0x737A4 = Some info \<and> mmuRead32 m info = Some pid \<and>
      mmuRead32 m (info + 0x10) = Some top \<and> chain (next_module m) top ps \<and>
      map (print_module_load_info m name0) ps = map Some lines)"
proof -
  have o: "offset_of SceKernelProcessModuleInfo_layout ''pid'' = 0"
    "offset_of SceKernelProcessModuleInfo_layout ''pModuleInfo'' = 0x10"
    by (simp_all add: offset_of_def SceKernelProcessModuleInfo_layout_def align_up_def)
  have b: "(0x400737A4 :: u32) - SCE_MEMORY_BASE = 0x737A4" by (simp add: SCE_MEMORY_BASE_def)
  show ?thesis unfolding list_modules_def Let_def b o
    by (auto simp: bind_eq_Some_conv mmuRead32_ptr_def module_walk_iff)
qed

end
