(* ===== verification/Module_Loader.thy ===== *)
theory Module_Loader
  imports Bytes
begin

text \<open>
  The loader of kernel modules (\<open>src/user/kernel_module_loader/src/main.c\<close>): a registry of module
  paths, a linked list with running numbers, and a command line that loads them.

  The state has the list nodes by address, the copied paths by address, the two global variables and
  the state \<open>'k\<close> of the system.  The calls of the system are parameters.  \<open>None\<close> is an invalid
  access or a loop that does not end.
\<close>

section \<open>State\<close>

record ModuleLoadParam =
  mp_next :: addr
  mp_path :: addr
  mp_path_length :: SceSize
  mp_modid :: s32
  mp_number :: u32

record 'k loader =
  mp_heap :: "addr \<Rightarrow> ModuleLoadParam option"
  mp_strs :: "addr \<Rightarrow> string option"
  module_num :: u32
  pModuleLoadParamTree :: addr
  ld_k :: 'k

text \<open>The calls: \<open>sceIoOpen(path, SCE_O_RDONLY, 0)\<close>, the heap of ScePaf, directories, taiHEN, the
  console and the search for a module of development kits.\<close>

record 'k loader_env =
  le_open :: "'k \<Rightarrow> string \<Rightarrow> s32 \<times> 'k"
  le_close :: "'k \<Rightarrow> s32 \<Rightarrow> 'k"
  le_malloc :: "'k \<Rightarrow> SceSize \<Rightarrow> addr \<times> 'k"
  le_free :: "'k \<Rightarrow> addr \<Rightarrow> 'k"
  le_dopen :: "'k \<Rightarrow> string \<Rightarrow> s32 \<times> 'k"
  le_dread :: "'k \<Rightarrow> s32 \<Rightarrow> s32 \<times> string \<times> 'k"
  le_dclose :: "'k \<Rightarrow> s32 \<Rightarrow> 'k"
  le_load :: "'k \<Rightarrow> string \<Rightarrow> s32 \<times> 'k"
  le_stdin :: "'k \<Rightarrow> SceSize \<Rightarrow> s32 \<times> u8 list \<times> 'k"
  le_search :: "'k \<Rightarrow> string \<Rightarrow> s32 \<times> 'k"

section \<open>The registry\<close>

definition load_module_add_path ::
    "'k loader_env \<Rightarrow> string option \<Rightarrow> 'k loader \<Rightarrow> s32 \<times> 'k loader" where
  "load_module_add_path E path s =
     (case path of None \<Rightarrow> (-3, s)
      | Some path \<Rightarrow>
        let (fd, k) = le_open E (ld_k s) path; s = s\<lparr>ld_k := k\<rparr> in
        if failed fd then (-4, s)
        else
        let k = le_close E (ld_k s) fd;
            (p, k) = le_malloc E k 0x14; s = s\<lparr>ld_k := k\<rparr> in
        if p = NULL then (-1, s)
        else let path_length = word_of_nat (length path) in
        if path_length = 0 then (-2, s)
        else let (tmp_path, k) = le_malloc E (ld_k s) (path_length + 1) in
        if tmp_path = NULL then (-1, s\<lparr>ld_k := le_free E k p\<rparr>)
        else
          let node = \<lparr>mp_next = pModuleLoadParamTree s, mp_path = tmp_path,
                      mp_path_length = path_length + 1, mp_modid = -1, mp_number = module_num s\<rparr>
          in (0, s\<lparr>mp_heap := (mp_heap s)(p \<mapsto> node), mp_strs := (mp_strs s)(tmp_path \<mapsto> path),
                   pModuleLoadParamTree := p, module_num := module_num s + 1, ld_k := k\<rparr>))"

partial_function (option) add_dir_loop ::
    "'k loader_env \<Rightarrow> string \<Rightarrow> s32 \<Rightarrow> 'k loader \<Rightarrow> 'k loader option" where
  "add_dir_loop E dir dd s =
     (let (res, d_name, k) = le_dread E (ld_k s) dd;
          s = s\<lparr>ld_k := k\<rparr>;
          s = (if \<not> failed res
               then snd (load_module_add_path E
                  (Some (take 0x3FE (dir @ ''/'' @ d_name))) s)
               else s)
      in if 0 <s res then add_dir_loop E dir dd s else Some s)"

definition load_module_add_path_by_dir ::
    "'k loader_env \<Rightarrow> string \<Rightarrow> 'k loader \<Rightarrow> (s32 \<times> 'k loader) option" where
  "load_module_add_path_by_dir E dir s =
     (let (dd, k) = le_dopen E (ld_k s) dir; s = s\<lparr>ld_k := k\<rparr> in
      if failed dd then Some (dd, s)
      else do {
        s \<leftarrow> add_dir_loop E dir dd s;
        Some (0, s\<lparr>ld_k := le_dclose E (ld_k s) dd\<rparr>)
      })"

section \<open>Searching\<close>

definition param_next :: "'k loader \<Rightarrow> addr \<Rightarrow> addr option" where
  "param_next s p = map_option mp_next (mp_heap s p)"

definition param_path :: "'k loader \<Rightarrow> addr \<Rightarrow> string option" where
  "param_path s p = do { n \<leftarrow> mp_heap s p; mp_strs s (mp_path n) }"

definition path_is :: "'k loader \<Rightarrow> string \<Rightarrow> addr \<Rightarrow> bool option" where
  "path_is s path p = map_option (\<lambda>q. path = q) (param_path s p)"

definition number_is :: "'k loader \<Rightarrow> u32 \<Rightarrow> addr \<Rightarrow> bool option" where
  "number_is s number p = map_option (\<lambda>n. number = mp_number n) (mp_heap s p)"

partial_function (option) path_search :: "'k loader \<Rightarrow> string \<Rightarrow> addr \<Rightarrow> addr option" where
  "path_search s path p =
     (if p = NULL then Some NULL
      else case path_is s path p of None \<Rightarrow> None
        | Some b \<Rightarrow> if b then Some p
          else case param_next s p of None \<Rightarrow> None | Some q \<Rightarrow> path_search s path q)"

partial_function (option) number_search :: "'k loader \<Rightarrow> u32 \<Rightarrow> addr \<Rightarrow> addr option" where
  "number_search s number p =
     (if p = NULL then Some NULL
      else case number_is s number p of None \<Rightarrow> None
        | Some b \<Rightarrow> if b then Some p
          else case param_next s p of None \<Rightarrow> None | Some q \<Rightarrow> number_search s number q)"

interpretation by_path: chain_search param_next path_is path_search
  by unfold_locales (rule path_search.simps)

interpretation by_number: chain_search param_next number_is number_search
  by unfold_locales (rule number_search.simps)

definition saerch_module_entry :: "'k loader \<Rightarrow> string \<Rightarrow> addr option" where
  "saerch_module_entry s path = path_search s path (pModuleLoadParamTree s)"

definition saerch_module_entry_by_number :: "'k loader \<Rightarrow> u32 \<Rightarrow> addr option" where
  "saerch_module_entry_by_number s number = number_search s number (pModuleLoadParamTree s)"

section \<open>Numbers\<close>

text \<open>
  \<open>char\<close> is unsigned on the target, so one comparison checks for a digit.  \<open>None\<close> stands for the
  return value -1, \<open>Some v\<close> for 0 with \<open>*dst = v\<close>.
\<close>

definition char8 :: "char \<Rightarrow> u8" where
  "char8 c = word_of_nat (of_char c)"

fun cvt_loop :: "string \<Rightarrow> u32 \<Rightarrow> u32 option" where
  "cvt_loop [] loc_val = Some loc_val"
| "cvt_loop (c # str) loc_val =
     (let ch = char8 c - 0x30 in
      if 9 < ch then None else cvt_loop str (ucast ch + loc_val * 10))"

definition cvtStrToDec :: "string \<Rightarrow> u32 option" where
  "cvtStrToDec str = (if str = [] then None else cvt_loop str 0)"

section \<open>Commands\<close>

text \<open>\<open>param->modid = taiLoadStartKernelModule(param->path, 0, NULL, 0)\<close>\<close>

definition load_param :: "'k loader_env \<Rightarrow> addr \<Rightarrow> 'k loader \<Rightarrow> 'k loader option" where
  "load_param E p s =
     do {
       path \<leftarrow> param_path s p;
       n \<leftarrow> mp_heap s p;
       let (modid, k) = le_load E (ld_k s) path in
       Some (s\<lparr>mp_heap := (mp_heap s)(p \<mapsto> n\<lparr>mp_modid := modid\<rparr>), ld_k := k\<rparr>)
     }"

text \<open>
  The string in a buffer of bytes ends at its first NUL.
\<close>

definition buf_string :: "u8 list \<Rightarrow> string" where
  "buf_string bs = chars_of (takeWhile (\<lambda>b. b \<noteq> 0) bs)"

definition starts :: "string \<Rightarrow> string \<Rightarrow> bool" where
  "starts s p \<longleftrightarrow> take (length p) s = p"

text \<open>
  The body of the loop of \<open>tty_in_thread\<close> after a line was read; the flag is set by \<open>exit\<close>.
\<close>

definition tty_command :: "'k loader_env \<Rightarrow> string \<Rightarrow> 'k loader \<Rightarrow> (bool \<times> 'k loader) option" where
  "tty_command E line s =
     (if starts line ''load '' then
        do {
          p \<leftarrow> saerch_module_entry s (drop 5 line);
          if p = NULL then Some (False, s)
          else do { s \<leftarrow> load_param E p s; Some (False, s) }
        }
      else if starts line ''load_by_number '' then
        (case cvtStrToDec (drop 15 line) of
           None \<Rightarrow> Some (False, s)
         | Some number \<Rightarrow>
           do {
             p \<leftarrow> saerch_module_entry_by_number s number;
             if p = NULL then Some (False, s)
             else do { s \<leftarrow> load_param E p s; Some (False, s) }
           })
      else if starts line ''exit'' then Some (True, s)
      else Some (False, s))"

definition tty_step :: "'k loader_env \<Rightarrow> 'k loader \<Rightarrow> (bool \<times> 'k loader) option" where
  "tty_step E s =
     (let (res, data, k) = le_stdin E (ld_k s) 0x7F;
          s = s\<lparr>ld_k := k\<rparr>;
          tty_buf = overwrite 0 data (replicate 0x80 0) in
      if failed res then Some (False, s)
      else if res = 0 then None
      else tty_command E (buf_string (tty_buf[unat (res - 1) := 0])) s)"

partial_function (option) tty_loop :: "'k loader_env \<Rightarrow> 'k loader \<Rightarrow> 'k loader option" where
  "tty_loop E s =
     do {
       (stop, s) \<leftarrow> tty_step E s;
       if stop then Some s else tty_loop E s
     }"

definition tty_in_thread :: "'k loader_env \<Rightarrow> 'k loader \<Rightarrow> (s32 \<times> 'k loader) option" where
  "tty_in_thread E s = do { s \<leftarrow> tty_loop E s; Some (0, s) }"

section \<open>The program\<close>

partial_function (option) print_params :: "'k loader \<Rightarrow> addr \<Rightarrow> (u32 \<times> string) list option" where
  "print_params s p =
     (if p = NULL then Some []
      else do {
        n \<leftarrow> mp_heap s p;
        path \<leftarrow> mp_strs s (mp_path n);
        out \<leftarrow> print_params s (mp_next n);
        Some ((mp_number n, path) # out)
      })"

text \<open>
  After the registry is filled: one module is loaded at once, also the most recent of several when
  the console of development kits is missing; otherwise the commands are read.  \<open>thread_ok\<close> is
  whether the thread for the commands could be made.
\<close>

definition add_paths :: "'k loader_env \<Rightarrow> string list \<Rightarrow> 'k loader \<Rightarrow> 'k loader" where
  "add_paths E paths s = fold (\<lambda>path s. snd (load_module_add_path E (Some path) s)) paths s"

definition fill_registry :: "'k loader_env \<Rightarrow> 'k loader \<Rightarrow> 'k loader option" where
  "fill_registry E s =
     do {
       (_, s) \<leftarrow> load_module_add_path_by_dir E ''host0:data/kernel_modules'' s;
       Some (add_paths E [''host0:module.skprx'', ''host0:baremetal-loader.skprx'',
         ''host0:kbl-loader.skprx'', ''ux0:module.skprx'', ''ux0:kbl-loader.skprx''] s)
     }"

definition loader_module_start ::
    "'k loader_env \<Rightarrow> bool \<Rightarrow> 'k loader \<Rightarrow> ((u32 \<times> string) list \<times> 'k loader) option" where
  "loader_module_start E thread_ok s =
     do {
       s \<leftarrow> fill_registry E s;
       out \<leftarrow> print_params s (pModuleLoadParamTree s);
       let p = pModuleLoadParamTree s in
       if p = NULL then Some (out, s)
       else if module_num s = 1 then do { s \<leftarrow> load_param E p s; Some (out, s) }
       else
         let (search_modid, k) = le_search E (ld_k s) ''SceDeci4pSTtyp''; s = s\<lparr>ld_k := k\<rparr> in
         if failed search_modid then do { s \<leftarrow> load_param E p s; Some (out, s) }
         else if thread_ok then do { (_, s) \<leftarrow> tty_in_thread E s; Some (out, s) }
         else Some (out, s)
     }"

end
