(* ===== verification/Loader_Props.thy ===== *)
theory Loader_Props
  imports Module_Loader
begin

text \<open>
  The registry of the module loader as a list of paths, the invariant of every state that the
  program can reach, what the commands do, and when the command line ends.
\<close>

section \<open>The registry as a list\<close>

text \<open>\<open>live k\<close> are the addresses of the heap of ScePaf that are allocated.\<close>

definition loader_contract :: "'k loader_env \<Rightarrow> ('k \<Rightarrow> addr set) \<Rightarrow> bool" where
  "loader_contract E live \<longleftrightarrow>
     (\<forall>k n p k'. le_malloc E k n = (p, k') \<longrightarrow>
        (if p = NULL then live k' = live k else p \<notin> live k \<and> live k' = insert p (live k)))
   \<and> (\<forall>k p. live k - {p} \<subseteq> live (le_free E k p))
   \<and> (\<forall>k path. live (snd (le_open E k path)) = live k)
   \<and> (\<forall>k fd. live (le_close E k fd) = live k)
   \<and> (\<forall>k path. live (snd (le_dopen E k path)) = live k)
   \<and> (\<forall>k dd. live (snd (snd (le_dread E k dd))) = live k)
   \<and> (\<forall>k dd. live (le_dclose E k dd) = live k)
   \<and> (\<forall>k path. live (snd (le_load E k path)) = live k)
   \<and> (\<forall>k n. live (snd (snd (le_stdin E k n))) = live k)"

definition param_number :: "'k loader \<Rightarrow> addr \<Rightarrow> u32 option" where
  "param_number s p = map_option mp_number (mp_heap s p)"

definition registry :: "('k \<Rightarrow> addr set) \<Rightarrow> 'k loader \<Rightarrow> addr list \<Rightarrow> string list \<Rightarrow> bool" where
  "registry live s ps xs \<longleftrightarrow>
     chain (param_next s) (pModuleLoadParamTree s) ps \<and>
     map (param_path s) ps = map Some xs \<and>
     map (param_number s) ps = map (\<lambda>i. Some (word_of_nat i)) (rev [0..<length ps]) \<and>
     module_num s = word_of_nat (length ps) \<and>
     dom (mp_heap s) \<subseteq> live (ld_k s) \<and> dom (mp_strs s) \<subseteq> live (ld_k s)"

lemma registry_k:
  "registry live s ps xs \<Longrightarrow> live (ld_k s) \<subseteq> live k \<Longrightarrow> registry live (s\<lparr>ld_k := k\<rparr>) ps xs"
proof -
  assume r: "registry live s ps xs" and l: "live (ld_k s) \<subseteq> live k"
  have "param_next (s\<lparr>ld_k := k\<rparr>) = param_next s" "param_path (s\<lparr>ld_k := k\<rparr>) = param_path s"
    "param_number (s\<lparr>ld_k := k\<rparr>) = param_number s"
    by (simp_all add: fun_eq_iff param_next_def param_path_def param_number_def)
  then show ?thesis using r l by (auto simp: registry_def)
qed

lemma registry_length: "registry live s ps xs \<Longrightarrow> length ps = length xs"
  unfolding registry_def by (metis length_map)

lemma registry_push:
  assumes r: "registry live s ps xs" and fresh: "p \<notin> live (ld_k s)" "t \<notin> live (ld_k s)"
    and p: "p \<noteq> NULL" and live: "insert p (insert t (live (ld_k s))) \<subseteq> live k"
    and n: "mp_next n = pModuleLoadParamTree s" "mp_path n = t" "mp_number n = module_num s"
  shows "registry live (s\<lparr>mp_heap := (mp_heap s)(p \<mapsto> n), mp_strs := (mp_strs s)(t \<mapsto> path),
      pModuleLoadParamTree := p, module_num := module_num s + 1, ld_k := k\<rparr>) (p # ps) (path # xs)"
    (is "registry live ?s _ _")
proof -
  have dom: "dom (mp_heap s) \<subseteq> live (ld_k s)" "dom (mp_strs s) \<subseteq> live (ld_k s)"
    using r by (simp_all add: registry_def)
  have P: "param_path s a \<noteq> None" if "a \<in> set ps" for a
  proof -
    have "map (param_path s) ps = map Some xs" using r by (simp add: registry_def)
    then have "set (map (param_path s) ps) = set (map Some xs)" by (rule arg_cong)
    moreover have "param_path s a \<in> set (map (param_path s) ps)" using that by simp
    ultimately have "param_path s a \<in> Some ` set xs" by (simp only: set_map)
    then show ?thesis by blast
  qed
  have old: "param_next ?s a = param_next s a \<and> param_path ?s a = param_path s a \<and>
      param_number ?s a = param_number s a" if a: "a \<in> set ps" for a
  proof -
    obtain m q where m: "mp_heap s a = Some m" "mp_strs s (mp_path m) = Some q"
      using P [OF a] by (auto simp: param_path_def bind_eq_Some_conv)
    then have "a \<noteq> p" "mp_path m \<noteq> t" using dom fresh by auto
    then show ?thesis using m by (simp add: param_next_def param_path_def param_number_def)
  qed
  have r': "module_num s = word_of_nat (length ps)" "map (param_path s) ps = map Some xs"
    "map (param_number s) ps = map (\<lambda>i. Some (word_of_nat i)) (rev [0..<length ps])"
    "chain (param_next s) (pModuleLoadParamTree s) ps"
    using r by (simp_all add: registry_def)
  have c: "chain (param_next ?s) (pModuleLoadParamTree s) ps"
    using r'(4) old chain_cong [of ps "param_next ?s" "param_next s"] by blast
  have new: "param_next ?s p = Some (pModuleLoadParamTree s)" "param_path ?s p = Some path"
    "param_number ?s p = Some (module_num s)"
    using n by (simp_all add: param_next_def param_path_def param_number_def)
  have maps: "map (param_path ?s) ps = map (param_path s) ps"
    "map (param_number ?s) ps = map (param_number s) ps" using old by (auto intro: map_cong)
  have sel: "pModuleLoadParamTree ?s = p" "module_num ?s = module_num s + 1" "ld_k ?s = k" by simp_all
  show ?thesis unfolding registry_def sel
  proof (intro conjI)
    show "chain (param_next ?s) p (p # ps)" using p new(1) c unfolding chain.simps by blast
    show "map (param_path ?s) (p # ps) = map Some (path # xs)"
      unfolding list.map maps new r'(2) by (rule refl)
    have "rev [0..<length (p # ps)] = length ps # rev [0..<length ps]" by simp
    then show "map (param_number ?s) (p # ps) =
        map (\<lambda>i. Some (word_of_nat i)) (rev [0..<length (p # ps)])"
      using r'(1) unfolding list.map maps new r'(3) by simp
    show "module_num s + 1 = word_of_nat (length (p # ps))" using r'(1) by simp
    show "dom (mp_heap ?s) \<subseteq> live k" "dom (mp_strs ?s) \<subseteq> live k" using dom live by auto
  qed
qed

lemma failed_m4 [simp]: "failed (- 4)"
  by (simp add: failed_def word_sless_alt)

lemma add_path_registry:
  assumes C: "loader_contract E live" and r: "registry live s ps xs"
    and eq: "load_module_add_path E path s = (res, s')"
  shows "(\<exists>p x. res = 0 \<and> path = Some x \<and> x \<noteq> [] \<and> registry live s' (p # ps) (x # xs)) \<or>
    failed res \<and> registry live s' ps xs"
proof (cases path)
  case None
  then show ?thesis using eq r by (simp add: load_module_add_path_def)
next
  case (Some x)
  obtain fd k1 where o: "le_open E (ld_k s) x = (fd, k1)" by (cases "le_open E (ld_k s) x")
  have l1: "live k1 = live (ld_k s)" using C o unfolding loader_contract_def by (metis snd_conv)
  obtain p k2 where m: "le_malloc E (le_close E k1 fd) 0x14 = (p, k2)"
    by (cases "le_malloc E (le_close E k1 fd) 0x14")
  have lc: "live (le_close E k1 fd) = live (ld_k s)" using C l1 by (simp add: loader_contract_def)
  have l2: "if p = NULL then live k2 = live (ld_k s)
      else p \<notin> live (ld_k s) \<and> live k2 = insert p (live (ld_k s))"
    using C m lc unfolding loader_contract_def by metis
  obtain t k3 where t: "le_malloc E k2 (word_of_nat (length x) + 1) = (t, k3)"
    by (cases "le_malloc E k2 (word_of_nat (length x) + 1)")
  have l3: "if t = NULL then live k3 = live k2 else t \<notin> live k2 \<and> live k3 = insert t (live k2)"
    using C t unfolding loader_contract_def by metis
  have idle: "registry live (s\<lparr>ld_k := k\<rparr>) ps xs"
    if "live (ld_k s) \<subseteq> live k" for k
    using registry_k [OF r that] .
  have free: "live k3 - {p} \<subseteq> live (le_free E k3 p)" using C by (simp add: loader_contract_def)
  show ?thesis
  proof (cases "failed fd \<or> p = NULL \<or> (word_of_nat (length x) :: u32) = 0 \<or> t = NULL")
    case True
    note eq' = eq [unfolded load_module_add_path_def Some option.case o Let_def case_prod_conv]
    consider "failed fd" | "\<not> failed fd" "p = NULL" | "\<not> failed fd" "p \<noteq> NULL"
        "(word_of_nat (length x) :: u32) = 0"
      | "\<not> failed fd" "p \<noteq> NULL" "(word_of_nat (length x) :: u32) \<noteq> 0" "t = NULL"
      using True by blast
    then show ?thesis
    proof cases
      case 1
      then show ?thesis using eq' idle [of k1] l1 by auto
    next
      case 2
      then show ?thesis using eq' m l2 idle [of k2] by auto
    next
      case 3
      then show ?thesis using eq' m l2 idle [of k2] by auto
    next
      case 4
      then have "live (ld_k s) \<subseteq> live (le_free E k3 p)" using l2 l3 free by auto
      from idle [OF this] show ?thesis using 4 eq' m t by auto
    qed
  next
    case False
    then have e: "res = 0" "s' = s\<lparr>mp_heap := (mp_heap s)(p \<mapsto>
            \<lparr>mp_next = pModuleLoadParamTree s, mp_path = t, mp_path_length = word_of_nat (length x) + 1,
             mp_modid = -1, mp_number = module_num s\<rparr>), mp_strs := (mp_strs s)(t \<mapsto> x),
            pModuleLoadParamTree := p, module_num := module_num s + 1, ld_k := k3\<rparr>"
      using eq Some o m t by (simp_all add: load_module_add_path_def Let_def)
    have "registry live s' (p # ps) (x # xs)"
      unfolding e(2) using False l2 l3 by (intro registry_push [OF r]) auto
    moreover have "x \<noteq> []" using False by auto
    ultimately show ?thesis using e(1) Some by blast
  qed
qed

section \<open>Reachable states\<close>

definition registered :: "('k \<Rightarrow> addr set) \<Rightarrow> 'k loader \<Rightarrow> bool" where
  "registered live s \<longleftrightarrow> (\<exists>ps xs. registry live s ps xs)"

lemma add_path_registered:
  "loader_contract E live \<Longrightarrow> registered live s \<Longrightarrow> registered live (snd (load_module_add_path E path s))"
  using add_path_registry [of E live s _ _ path "fst (load_module_add_path E path s)"
      "snd (load_module_add_path E path s)"]
  unfolding registered_def by fastforce

lemma registered_k: "registered live s \<Longrightarrow> live (ld_k s) \<subseteq> live k \<Longrightarrow> registered live (s\<lparr>ld_k := k\<rparr>)"
  unfolding registered_def by (elim exE, intro exI) (rule registry_k)

lemma dread_live:
  assumes "loader_contract E live" "le_dread E k dd = (res, d, k')"
  shows "live k' = live k"
proof -
  have "live (snd (snd (le_dread E k dd))) = live k" using assms(1) by (simp add: loader_contract_def)
  then show ?thesis using assms(2) by simp
qed

lemma stdin_live:
  assumes "loader_contract E live" "le_stdin E k n = (res, d, k')"
  shows "live k' = live k"
proof -
  have "live (snd (snd (le_stdin E k n))) = live k" using assms(1) by (simp add: loader_contract_def)
  then show ?thesis using assms(2) by simp
qed

lemma add_dir_registered:
  assumes eq: "add_dir_loop E dir dd s = Some s'"
  shows "loader_contract E live \<longrightarrow> registered live s \<longrightarrow> registered live s'"
proof (rule add_dir_loop.raw_induct [OF _ eq], intro impI)
  fix loop E dir dd s s'
  assume IH: "\<And>E dir dd s s'. loop E dir dd s = Some s' \<Longrightarrow>
      loader_contract E live \<longrightarrow> registered live s \<longrightarrow> registered live s'"
    and eq: "(let (res, d_name, k) = le_dread E (ld_k s) dd;
          s = s\<lparr>ld_k := k\<rparr>;
          s = (if \<not> failed res
               then snd (load_module_add_path E (Some (take 0x3FE (dir @ ''/'' @ d_name))) s)
               else s)
      in if 0 <s res then loop E dir dd s else Some s) = Some s'"
    and C: "loader_contract E live" and r: "registered live s"
  obtain res d_name k where d: "le_dread E (ld_k s) dd = (res, d_name, k)"
    by (cases "le_dread E (ld_k s) dd") auto
  define s1 where "s1 = s\<lparr>ld_k := k\<rparr>"
  define t where "t = snd (load_module_add_path E (Some (take 0x3FE (dir @ ''/'' @ d_name))) s1)"
  define s2 where "s2 = (if \<not> failed res then t else s1)"
  have 1: "registered live s1" unfolding s1_def using registered_k [OF r] dread_live [OF C d] by simp
  then have "registered live t" unfolding t_def by (rule add_path_registered [OF C])
  then have 2: "registered live s2" using 1 by (simp add: s2_def)
  from eq have "(if 0 <s res then loop E dir dd s2 else Some s2) = Some s'"
    unfolding d Let_def case_prod_conv s2_def t_def s1_def .
  then have "s2 = s' \<or> loop E dir dd s2 = Some s'" by (cases "0 <s res") simp_all
  then show "registered live s'" using 2 IH C by blast
qed

lemma map_Some_mem: "map f ps = map Some xs \<Longrightarrow> p \<in> set ps \<Longrightarrow> \<exists>x. f p = Some x"
proof (induction ps arbitrary: xs)
  case (Cons a ps)
  then show ?case by (cases xs) auto
qed simp

lemma registry_params:
  assumes "registry live s ps xs" "p \<in> set ps"
  obtains x n where "param_path s p = Some x" "mp_heap s p = Some n"
proof -
  from assms obtain x where x: "param_path s p = Some x"
    unfolding registry_def by (meson map_Some_mem)
  then show thesis using that by (auto simp: param_path_def bind_eq_Some_conv)
qed

lemma load_param_registry:
  assumes C: "loader_contract E live" and r: "registry live s ps xs" and p: "p \<in> set ps"
  obtains x n s' where "param_path s p = Some x" "mp_heap s p = Some n" "load_param E p s = Some s'"
    "s' = s\<lparr>mp_heap := (mp_heap s)(p \<mapsto> n\<lparr>mp_modid := fst (le_load E (ld_k s) x)\<rparr>),
            ld_k := snd (le_load E (ld_k s) x)\<rparr>"
    "registry live s' ps xs"
proof -
  obtain x n where x: "param_path s p = Some x" and n: "mp_heap s p = Some n"
    using registry_params [OF r p] .
  let ?s = "s\<lparr>mp_heap := (mp_heap s)(p \<mapsto> n\<lparr>mp_modid := fst (le_load E (ld_k s) x)\<rparr>),
            ld_k := snd (le_load E (ld_k s) x)\<rparr>"
  have same: "param_next ?s = param_next s" "param_path ?s = param_path s"
    "param_number ?s = param_number s"
    using n by (auto simp: fun_eq_iff param_next_def param_path_def param_number_def)
  have "live (snd (le_load E (ld_k s) x)) = live (ld_k s)" using C by (simp add: loader_contract_def)
  moreover have "dom (mp_heap ?s) = dom (mp_heap s)" using n by auto
  ultimately have "registry live ?s ps xs" using r unfolding registry_def same by simp
  moreover have "load_param E p s = Some ?s"
    unfolding load_param_def x n bind.bind_lunit case_prod_unfold Let_def by (rule refl)
  ultimately show thesis using that x n by blast
qed

lemma registry_path_search:
  assumes "registry live s ps xs"
  shows "saerch_module_entry s x =
    Some (case find (\<lambda>p. param_path s p = Some x) ps of None \<Rightarrow> NULL | Some p \<Rightarrow> p)"
  unfolding saerch_module_entry_def
proof (rule by_path.search_find)
  show "chain (param_next s) (pModuleLoadParamTree s) ps" using assms by (simp add: registry_def)
  fix p assume "p \<in> set ps"
  from registry_params [OF assms this] show "path_is s x p = Some (param_path s p = Some x)"
    by (auto simp: path_is_def)
qed

lemma registry_number_search:
  assumes "registry live s ps xs"
  shows "saerch_module_entry_by_number s m =
    Some (case find (\<lambda>p. param_number s p = Some m) ps of None \<Rightarrow> NULL | Some p \<Rightarrow> p)"
  unfolding saerch_module_entry_by_number_def
proof (rule by_number.search_find)
  show "chain (param_next s) (pModuleLoadParamTree s) ps" using assms by (simp add: registry_def)
  fix p assume "p \<in> set ps"
  then obtain n where "mp_heap s p = Some n" using registry_params [OF assms] by blast
  then show "number_is s m p = Some (param_number s p = Some m)"
    by (auto simp: number_is_def param_number_def)
qed

lemma find_mem: "find P ps = Some p \<Longrightarrow> p \<in> set ps"
  by (auto simp: find_Some_iff)

lemma registry_not_NULL: "registry live s ps xs \<Longrightarrow> p \<in> set ps \<Longrightarrow> p \<noteq> NULL"
  unfolding registry_def using chain_NULL_notin by blast

text \<open>The command that loads what a search found.\<close>

lemma load_found:
  assumes C: "loader_contract E live" and r: "registry live s ps xs"
  shows "\<exists>s'. (let p = (case find P ps of None \<Rightarrow> NULL | Some p \<Rightarrow> p) in
      if p = NULL then Some (False, s) else do { s \<leftarrow> load_param E p s; Some (False, s) }) =
      Some (False, s') \<and> registry live s' ps xs"
proof (cases "find P ps")
  case None
  then show ?thesis using r by simp
next
  case (Some p)
  note p = find_mem [OF this]
  obtain s' where "load_param E p s = Some s'" "registry live s' ps xs"
    using load_param_registry [OF C r p] by metis
  then show ?thesis using Some registry_not_NULL [OF r p] by simp
qed

lemma starts_exit:
  "starts line ''exit'' \<Longrightarrow> \<not> starts line ''load '' \<and> \<not> starts line ''load_by_number ''"
  by (cases line) (auto simp: starts_def)

lemma tty_command_registry:
  assumes C: "loader_contract E live" and r: "registry live s ps xs"
  shows "\<exists>s'. tty_command E line s = Some (starts line ''exit'', s') \<and> registry live s' ps xs"
proof -
  note F = load_found [OF C r, unfolded Let_def]
  consider (l) "starts line ''load ''" "\<not> starts line ''exit''"
    | (n) "\<not> starts line ''load ''" "starts line ''load_by_number ''" "\<not> starts line ''exit''"
    | (o) "\<not> starts line ''load ''" "\<not> starts line ''load_by_number ''"
    using starts_exit by blast
  then show ?thesis
  proof cases
    case l
    then show ?thesis using F [of "\<lambda>p. param_path s p = Some (drop 5 line)"]
      by (simp add: tty_command_def registry_path_search [OF r])
  next
    case n
    show ?thesis
    proof (cases "cvtStrToDec (drop 15 line)")
      case None
      then show ?thesis using n r by (simp add: tty_command_def)
    next
      case (Some number)
      then show ?thesis using n F [of "\<lambda>p. param_number s p = Some number"]
        by (simp add: tty_command_def registry_number_search [OF r])
    qed
  next
    case o
    then show ?thesis using r by (simp add: tty_command_def)
  qed
qed

text \<open>
  \<open>loader_reach E s0 s\<close>: the program gets from \<open>s0\<close> to \<open>s\<close> by adding paths and directories and by
  reading commands, in any order, whatever the calls of the system return.
\<close>

inductive loader_reach :: "'k loader_env \<Rightarrow> 'k loader \<Rightarrow> 'k loader \<Rightarrow> bool" for E s0 where
  start: "loader_reach E s0 s0"
| path: "loader_reach E s0 s \<Longrightarrow> load_module_add_path E p s = (r, s') \<Longrightarrow> loader_reach E s0 s'"
| dir: "loader_reach E s0 s \<Longrightarrow> load_module_add_path_by_dir E d s = Some (r, s') \<Longrightarrow> loader_reach E s0 s'"
| tty: "loader_reach E s0 s \<Longrightarrow> tty_step E s = Some (stop, s') \<Longrightarrow> loader_reach E s0 s'"

definition loader_initial :: "'k loader \<Rightarrow> bool" where
  "loader_initial s \<longleftrightarrow> pModuleLoadParamTree s = NULL \<and> module_num s = 0 \<and>
     mp_heap s = Map.empty \<and> mp_strs s = Map.empty"

lemma initial_registry: "loader_initial s \<Longrightarrow> registry live s [] []"
  by (simp add: loader_initial_def registry_def)

lemma command_registered:
  "loader_contract E live \<Longrightarrow> registered live s \<Longrightarrow> tty_command E line s = Some (stop, s') \<Longrightarrow>
   registered live s'"
  unfolding registered_def
proof (elim exE)
  fix ps xs assume "loader_contract E live" "registry live s ps xs" "tty_command E line s = Some (stop, s')"
  then have "registry live s' ps xs" using tty_command_registry [of E live s ps xs line] by auto
  then show "\<exists>ps xs. registry live s' ps xs" by (intro exI)
qed

lemma step_registered:
  assumes C: "loader_contract E live" and r: "registered live s" and eq: "tty_step E s = Some (stop, s')"
  shows "registered live s'"
proof -
  obtain res d k where d: "le_stdin E (ld_k s) 0x7F = (res, d, k)"
    by (cases "le_stdin E (ld_k s) 0x7F") auto
  have 1: "registered live (s\<lparr>ld_k := k\<rparr>)" using registered_k [OF r] stdin_live [OF C d] by simp
  from eq d have "s' = s\<lparr>ld_k := k\<rparr> \<or> (\<exists>line. tty_command E line (s\<lparr>ld_k := k\<rparr>) = Some (stop, s'))"
    by (auto simp: tty_step_def Let_def split: if_splits)
  then show ?thesis using 1 command_registered [OF C 1] by blast
qed

lemma dir_registered:
  assumes C: "loader_contract E live" and r: "registered live s"
    and eq: "load_module_add_path_by_dir E d s = Some (res, s')"
  shows "registered live s'"
proof -
  obtain dd k where d: "le_dopen E (ld_k s) d = (dd, k)" by (cases "le_dopen E (ld_k s) d")
  have "live (snd (le_dopen E (ld_k s) d)) = live (ld_k s)" using C by (simp add: loader_contract_def)
  then have 1: "registered live (s\<lparr>ld_k := k\<rparr>)" using registered_k [OF r, of k] d by simp
  have close: "live (le_dclose E k dd) = live k" for k using C by (simp add: loader_contract_def)
  from eq d consider "s' = s\<lparr>ld_k := k\<rparr>"
    | t where "add_dir_loop E d dd (s\<lparr>ld_k := k\<rparr>) = Some t" "s' = t\<lparr>ld_k := le_dclose E (ld_k t) dd\<rparr>"
    by (auto simp: load_module_add_path_by_dir_def Let_def bind_eq_Some_conv split: if_splits)
  then show ?thesis
  proof cases
    case 1
    then show ?thesis using \<open>registered live (s\<lparr>ld_k := k\<rparr>)\<close> by simp
  next
    case 2
    then have "registered live t" using add_dir_registered [OF 2(1)] C 1 by blast
    from registered_k [OF this, of "le_dclose E (ld_k t) dd"] show ?thesis
      using 2(2) close [of "ld_k t"] by simp
  qed
qed

lemma reach_registered:
  "loader_reach E s0 s \<Longrightarrow> loader_contract E live \<Longrightarrow> loader_initial s0 \<Longrightarrow> registered live s"
proof (induction rule: loader_reach.induct)
  case start
  then show ?case using initial_registry unfolding registered_def by blast
next
  case (path s p r s')
  then show ?case using add_path_registered [of E live s p] by simp
next
  case (dir s d r s')
  then show ?case using dir_registered by blast
next
  case (tty s stop s')
  then show ?case using step_registered by blast
qed

section \<open>Decimal numbers\<close>

definition is_digit :: "char \<Rightarrow> bool" where
  "is_digit c \<longleftrightarrow> (48 :: nat) \<le> of_char c \<and> of_char c \<le> (57 :: nat)"

definition dec_from :: "nat \<Rightarrow> string \<Rightarrow> nat" where
  "dec_from v ds = foldl (\<lambda>v c. 10 * v + (of_char c - 48)) v ds"

lemma char8_digit:
  "9 < char8 c - 0x30 \<longleftrightarrow> \<not> is_digit c"
  "is_digit c \<Longrightarrow> unat (char8 c - 0x30) = of_char c - 48"
proof -
  have n: "(of_char c :: nat) < 256" by (simp add: of_char_def horner_sum_foldr)
  then have u: "unat (char8 c) = of_char c" by (simp add: char8_def unsigned_of_nat take_bit_nat_eq_self_iff)
  then have s: "unat (char8 c - 0x30) = (if 48 \<le> (of_char c :: nat) then of_char c - 48 else of_char c + 208)"
    using n by (simp add: unat_sub_if')
  show "9 < char8 c - 0x30 \<longleftrightarrow> \<not> is_digit c" "is_digit c \<Longrightarrow> unat (char8 c - 0x30) = of_char c - 48"
    using n by (auto simp: word_less_nat_alt s is_digit_def)
qed

lemma cvt_loop_dec:
  "cvt_loop str (word_of_nat v) =
   (if list_all is_digit str then Some (word_of_nat (dec_from v str)) else None)"
proof (induction str arbitrary: v)
  case Nil
  then show ?case by (simp add: dec_from_def)
next
  case (Cons c str)
  have "ucast (char8 c - 0x30) + word_of_nat v * 10 = (word_of_nat (10 * v + (of_char c - 48)) :: u32)"
    if "is_digit c"
  proof -
    have "(ucast (char8 c - 0x30) :: u32) = word_of_nat (unat (char8 c - 0x30))"
      by (simp add: unsigned_ucast_eq)
    then show ?thesis using char8_digit(2) [OF that] by (simp add: algebra_simps)
  qed
  then have "is_digit c \<Longrightarrow> cvt_loop (c # str) (word_of_nat v) =
      cvt_loop str (word_of_nat (10 * v + (of_char c - 48)))"
    unfolding cvt_loop.simps Let_def char8_digit(1) by (simp only: not_True_eq_False if_False)
  moreover have "\<not> is_digit c \<Longrightarrow> cvt_loop (c # str) (word_of_nat v) = None"
    by (simp add: Let_def char8_digit(1))
  ultimately show ?case using Cons [of "10 * v + (of_char c - 48)"]
    by (cases "is_digit c") (simp_all add: dec_from_def)
qed

section \<open>The console\<close>

text \<open>
  \<open>pending k\<close> are the inputs that are still to be read; a read delivers the next one, and loading a
  module does not consume input.
\<close>

definition console :: "'k loader_env \<Rightarrow> ('k \<Rightarrow> u8 list list) \<Rightarrow> bool" where
  "console E pending \<longleftrightarrow>
     (\<forall>k d ds. pending k = d # ds \<longrightarrow>
        (\<exists>k'. le_stdin E k 0x7F = (word_of_nat (length d), d, k') \<and> pending k' = ds))
   \<and> (\<forall>k path. pending (snd (le_load E k path)) = pending k)"

text \<open>The last byte of an input, its end of line, is cut off.\<close>

definition line_of :: "u8 list \<Rightarrow> string" where
  "line_of d = buf_string (butlast d)"

lemma load_param_pending:
  "console E pending \<Longrightarrow> load_param E p s = Some s' \<Longrightarrow> pending (ld_k s') = pending (ld_k s)"
  by (auto simp: load_param_def console_def bind_eq_Some_conv Let_def case_prod_unfold)

lemma tty_command_pending:
  assumes "console E pending" "tty_command E line s = Some (stop, s')"
  shows "pending (ld_k s') = pending (ld_k s)"
  using assms(2) load_param_pending [OF assms(1)]
  by (auto simp: tty_command_def bind_eq_Some_conv split: if_splits option.splits)

lemma buffer_line:
  assumes "0 < length d" "length d \<le> 0x7F"
  shows "buf_string ((overwrite 0 d (replicate 0x80 0))[length d - 1 := 0]) = line_of d"
proof -
  have "(overwrite 0 d (replicate 0x80 0))[length d - 1 := 0] =
      butlast d @ 0 # replicate (0x80 - length d) 0"
    using assms(1) by (cases d rule: rev_cases) (simp_all add: overwrite_def list_update_append)
  moreover have "takeWhile (\<lambda>b. b \<noteq> 0) (xs @ 0 # ys) = takeWhile (\<lambda>b. b \<noteq> 0) xs" for xs ys :: "u8 list"
    by (induction xs) auto
  ultimately show ?thesis by (simp add: buf_string_def line_of_def)
qed

lemma tty_step_line:
  assumes I: "console E pending" and p: "pending (ld_k s) = d # ds" and d: "0 < length d" "length d \<le> 0x7F"
  obtains k' where "tty_step E s = tty_command E (line_of d) (s\<lparr>ld_k := k'\<rparr>)" "pending k' = ds"
    "le_stdin E (ld_k s) 0x7F = (word_of_nat (length d), d, k')"
proof -
  obtain k' where k: "le_stdin E (ld_k s) 0x7F = (word_of_nat (length d), d, k')" "pending k' = ds"
    using I p unfolding console_def by blast
  have u: "unat (word_of_nat (length d) :: s32) = length d"
    using d(2) by (simp add: unsigned_of_nat take_bit_nat_eq_self_iff)
  have "\<not> bit (length d) 31" using d(2) by (simp add: bit_iff_odd)
  then have nf: "\<not> failed (word_of_nat (length d))" by (simp add: failed_iff_bit bit_simps)
  have nz: "(word_of_nat (length d) :: s32) \<noteq> 0" using u d(1) by auto
  then have "unat ((word_of_nat (length d) :: s32) - 1) = length d - 1"
    using u by (simp add: unat_minus_one)
  then have "tty_step E s = tty_command E (line_of d) (s\<lparr>ld_k := k'\<rparr>)"
    unfolding tty_step_def k(1) Let_def case_prod_conv using nf nz buffer_line [OF d] by simp
  then show thesis using that k by blast
qed

lemma tty_loop_reads:
  assumes C: "loader_contract E live" and I: "console E pending"
    and e: "0 < length e" "length e \<le> 0x7F" "starts (line_of e) ''exit''"
  shows "registry live s ps xs \<Longrightarrow> pending (ld_k s) = ds @ e # rest \<Longrightarrow>
    list_all (\<lambda>d. 0 < length d \<and> length d \<le> 0x7F \<and> \<not> starts (line_of d) ''exit'') ds \<Longrightarrow>
    \<exists>s'. tty_loop E s = Some s' \<and> pending (ld_k s') = rest \<and> registry live s' ps xs"
proof (induction ds arbitrary: s)
  case Nil
  then have "pending (ld_k s) = e # rest" by simp
  from tty_step_line [OF I this e(1,2)] obtain k' where k:
    "tty_step E s = tty_command E (line_of e) (s\<lparr>ld_k := k'\<rparr>)" "pending k' = rest"
    "le_stdin E (ld_k s) 0x7F = (word_of_nat (length e), e, k')" .
  have "registry live (s\<lparr>ld_k := k'\<rparr>) ps xs"
    using registry_k [OF Nil(1)] stdin_live [OF C k(3)] by simp
  from tty_command_registry [OF C this, of "line_of e"] obtain s' where s':
    "tty_command E (line_of e) (s\<lparr>ld_k := k'\<rparr>) = Some (True, s')" "registry live s' ps xs"
    using e(3) by auto
  have "pending (ld_k s') = rest" using tty_command_pending [OF I s'(1)] k(2) by simp
  then show ?case using s' k(1) by (subst tty_loop.simps) simp
next
  case (Cons d ds)
  then have d: "0 < length d" "length d \<le> 0x7F" "\<not> starts (line_of d) ''exit''"
    and ds: "list_all (\<lambda>d. 0 < length d \<and> length d \<le> 0x7F \<and> \<not> starts (line_of d) ''exit'') ds"
    and p: "pending (ld_k s) = d # ds @ e # rest" by auto
  from tty_step_line [OF I p d(1,2)] obtain k' where k:
    "tty_step E s = tty_command E (line_of d) (s\<lparr>ld_k := k'\<rparr>)" "pending k' = ds @ e # rest"
    "le_stdin E (ld_k s) 0x7F = (word_of_nat (length d), d, k')" .
  have "registry live (s\<lparr>ld_k := k'\<rparr>) ps xs"
    using registry_k [OF Cons.prems(1)] stdin_live [OF C k(3)] by simp
  from tty_command_registry [OF C this, of "line_of d"] obtain s' where s':
    "tty_command E (line_of d) (s\<lparr>ld_k := k'\<rparr>) = Some (False, s')" "registry live s' ps xs"
    using d(3) by auto
  have "pending (ld_k s') = ds @ e # rest" using tty_command_pending [OF I s'(1)] k(2) by simp
  from Cons.IH [OF s'(2) this ds] show ?case using s'(1) k(1) by (subst tty_loop.simps) simp
qed

section \<open>Loading by number\<close>

lemma find_by_number:
  assumes r: "registry live s ps xs" and n: "length xs \<le> 2^32" "m < length xs"
  shows "find (\<lambda>p. param_number s p = Some (word_of_nat m)) ps = Some (ps ! (length xs - 1 - m))"
proof -
  have l: "length ps = length xs" using registry_length [OF r] .
  have num: "param_number s (ps ! i) = Some (word_of_nat (length xs - 1 - i))" if i: "i < length xs" for i
  proof -
    have "map (param_number s) ps = map (\<lambda>i. Some (word_of_nat i)) (rev [0..<length ps])"
      using r by (simp add: registry_def)
    from arg_cong [OF this, of "\<lambda>l. l ! i"]
    have "param_number s (ps ! i) = Some (word_of_nat (rev [0..<length ps] ! i))"
      using i by (simp add: l)
    moreover have "rev [0..<length ps] ! i = length xs - 1 - i" using i by (simp add: rev_nth l)
    ultimately show ?thesis by simp
  qed
  have inj: "(word_of_nat a :: u32) = word_of_nat b \<longleftrightarrow> a = b" if "a < length xs" "b < length xs" for a b
    using that n(1) by (simp add: word_unat_eq_iff unsigned_of_nat take_bit_eq_mod)
  have "param_number s (ps ! j) \<noteq> Some (word_of_nat m)" if j: "j < length xs - 1 - m" for j
  proof -
    have "j < length xs" "length xs - 1 - j < length xs" "length xs - 1 - j \<noteq> m" using j by auto
    then show ?thesis using num [of j] inj [of "length xs - 1 - j" m] n(2) by (simp only: option.inject) blast
  qed
  moreover have "param_number s (ps ! (length xs - 1 - m)) = Some (word_of_nat m)"
  proof -
    have "length xs - 1 - m < length xs" "length xs - 1 - (length xs - 1 - m) = m" using n(2) by auto
    then show ?thesis using num [of "length xs - 1 - m"] by (simp only:)
  qed
  ultimately show ?thesis unfolding find_Some_iff
    using n(2) l by (intro exI [of _ "length xs - 1 - m"]) auto
qed

lemma no_such_number:
  assumes r: "registry live s ps xs" and n: "length xs \<le> m" "m < 2^32"
  shows "find (\<lambda>p. param_number s p = Some (word_of_nat m)) ps = None"
proof -
  have l: "length ps = length xs" using registry_length [OF r] .
  have "param_number s p \<noteq> Some (word_of_nat m)" if "p \<in> set ps" for p
  proof -
    have "map (param_number s) ps = map (\<lambda>i. Some (word_of_nat i)) (rev [0..<length ps])"
      using r by (simp add: registry_def)
    from arg_cong [OF this, of set] have "param_number s p \<in> (\<lambda>i. Some (word_of_nat i)) ` {0..<length ps}"
      using that by (auto simp del: map_map)
    then obtain i where "i < length xs" "param_number s p = Some (word_of_nat i)" using l by auto
    moreover have "(word_of_nat i :: u32) \<noteq> word_of_nat m"
      using calculation(1) n by (simp add: word_unat_eq_iff unsigned_of_nat take_bit_eq_mod)
    ultimately show ?thesis by simp
  qed
  then show ?thesis by (simp add: find_None_iff)
qed

section \<open>Properties\<close>

text \<open>
  C29: in every state that the loader can reach the registry is a finite list of nodes with a path
  each, numbered from its length minus one down to 0, \<open>module_num\<close> is its length, and every node and
  path is allocated.
\<close>

theorem loader_invariant:
  assumes "loader_contract E live" "loader_initial s0" "loader_reach E s0 s"
  shows "\<exists>ps xs. chain (param_next s) (pModuleLoadParamTree s) ps \<and> distinct ps \<and>
    map (param_path s) ps = map Some xs \<and>
    map (param_number s) ps = map (\<lambda>i. Some (word_of_nat i)) (rev [0..<length ps]) \<and>
    module_num s = word_of_nat (length ps) \<and>
    dom (mp_heap s) \<subseteq> live (ld_k s) \<and> dom (mp_strs s) \<subseteq> live (ld_k s)"
proof -
  obtain ps xs where r: "registry live s ps xs"
    using reach_registered [OF assms(3,1,2)] unfolding registered_def by blast
  then have "distinct ps" unfolding registry_def by (blast intro: chain_distinct)
  then show ?thesis using r unfolding registry_def by blast
qed

text \<open>
  The conversion of a number accepts exactly the nonempty strings of digits, and gives their
  decimal value modulo 2^32: a number that is too large is not refused.
\<close>

theorem cvtStrToDec_decimal:
  "cvtStrToDec str =
   (if str \<noteq> [] \<and> list_all is_digit str then Some (word_of_nat (dec_from 0 str)) else None)"
  using cvt_loop_dec [of str 0] by (simp add: cvtStrToDec_def)

text \<open>
  The command \<open>load_by_number N\<close> loads the module that was added as number \<open>N\<close>, stores the
  result in its node, and keeps the registry; a number that was not given out does nothing.  The
  paths \<open>xs\<close> of the registry are in the reverse order of their adding.
\<close>

theorem load_by_number_loads:
  assumes "loader_contract E live" "registry live s ps xs" "length xs \<le> 2^32"
    and "ds \<noteq> []" "list_all is_digit ds" "dec_from 0 ds < 2^32"
  shows "\<exists>s'. tty_command E (''load_by_number '' @ ds) s = Some (False, s') \<and> registry live s' ps xs \<and>
    (if dec_from 0 ds < length xs
     then let (modid, k) = le_load E (ld_k s) (rev xs ! dec_from 0 ds);
              p = ps ! (length xs - 1 - dec_from 0 ds) in
       ld_k s' = k \<and> map_option mp_modid (mp_heap s' p) = Some modid
     else s' = s)"
proof -
  let ?m = "dec_from 0 ds"
  note C = assms(1) and r = assms(2)
  have l: "length ps = length xs" using registry_length [OF r] .
  have cvt: "cvtStrToDec ds = Some (word_of_nat ?m)"
    using cvt_loop_dec [of ds 0] assms(4,5) by (simp add: cvtStrToDec_def)
  have cmd: "tty_command E (''load_by_number '' @ ds) s =
     do { p \<leftarrow> saerch_module_entry_by_number s (word_of_nat ?m);
          if p = NULL then Some (False, s)
          else do { s \<leftarrow> load_param E p s; Some (False, s) } }"
    by (simp add: tty_command_def starts_def cvt)
  show ?thesis
  proof (cases "?m < length xs")
    case True
    let ?p = "ps ! (length xs - 1 - ?m)"
    have i: "length xs - 1 - ?m < length ps" using True l by simp
    then have p: "?p \<in> set ps" by simp
    have "map (param_path s) ps = map Some xs" using r by (simp add: registry_def)
    from arg_cong [OF this, of "\<lambda>q. q ! (length xs - 1 - ?m)"]
    have path: "param_path s ?p = Some (rev xs ! ?m)" using i True l by (simp add: rev_nth)
    obtain x n s' where s': "param_path s ?p = Some x" "load_param E ?p s = Some s'"
      "s' = s\<lparr>mp_heap := (mp_heap s)(?p \<mapsto> n\<lparr>mp_modid := fst (le_load E (ld_k s) x)\<rparr>),
            ld_k := snd (le_load E (ld_k s) x)\<rparr>"
      "registry live s' ps xs"
      using load_param_registry [OF C r p] by metis
    have "saerch_module_entry_by_number s (word_of_nat ?m) = Some ?p"
      unfolding registry_number_search [OF r] find_by_number [OF r assms(3) True] by simp
    then have "tty_command E (''load_by_number '' @ ds) s = Some (False, s')"
      using cmd s'(2) registry_not_NULL [OF r p] by simp
    moreover have "x = rev xs ! ?m" using s'(1) path by simp
    ultimately show ?thesis using s'(3,4) True by (auto simp: case_prod_unfold Let_def)
  next
    case False
    then have "saerch_module_entry_by_number s (word_of_nat ?m) = Some NULL"
      using no_such_number [OF r _ assms(6)] unfolding registry_number_search [OF r] by simp
    then show ?thesis using cmd r False by simp
  qed
qed

text \<open>
  C30: the command line ends.  Whatever the earlier lines are, the thread returns at the first line
  that begins with \<open>exit\<close>, with the later input unread and the registry as it was; an input of 0
  bytes, which would write before the buffer, is excluded.
\<close>

theorem tty_ends_at_exit:
  assumes "loader_contract E live" "console E pending" "registry live s ps xs"
    and "pending (ld_k s) = ds @ e # rest"
    and "list_all (\<lambda>d. 0 < length d \<and> length d \<le> 0x7F \<and> \<not> starts (line_of d) ''exit'') ds"
    and "0 < length e" "length e \<le> 0x7F" "starts (line_of e) ''exit''"
  shows "\<exists>s'. tty_in_thread E s = Some (0, s') \<and> pending (ld_k s') = rest \<and> registry live s' ps xs"
proof -
  obtain s' where "tty_loop E s = Some s'" "pending (ld_k s') = rest" "registry live s' ps xs"
    using tty_loop_reads [OF assms(1,2,6,7,8,3,4,5)] by blast
  then show ?thesis by (simp add: tty_in_thread_def)
qed

end
