(* ===== verification/Malloc_Test.thy ===== *)
theory Malloc_Test
  imports Prelude
begin

text \<open>
  The tests of the allocators of the kernel and of ScePaf
  (\<open>src/kernel/malloc_free_test_kernel/src/main.c\<close>, \<open>src/user/malloc_free_test_user/src/main.c\<close>):
  blocks of many sizes and alignments are allocated one after another and freed in the same order.

  The allocators are parameters; the times that are printed are not modelled.
\<close>

section \<open>The sizes\<close>

text \<open>A pair is the length and the alignment of a block.\<close>

type_synonym AllocFreeTestParam = "SceSize \<times> u32"

definition allocFreeTestParam :: "AllocFreeTestParam list" where
  "allocFreeTestParam =
    [(0x10, 4), (0x16, 8), (0x20, 0x10), (0x80, 0x20), (0x60, 0x40), (0x50, 0x80), (0x90, 0x100),
     (0x110, 0x200), (0x1A0, 0x400), (0x250, 0x800), (0x250, 0x880), (0x20, 0x80), (0x58, 0x4),
     (0x4, 0x4), (0x16, 0x4), (0x1, 0x8), (0x90, 0x100), (0x110, 0x200), (0x1A0, 0x400),
     (0x250, 0x800), (0x250, 0x880), (0x20, 0x80), (0x58, 0x4), (0x4, 0x4), (0x16, 0x4),
     (0x1, 0x8), (0x90, 0x100), (0x110, 0x200), (0x1A0, 0x400), (0x250, 0x800), (0x250, 0x880),
     (0x20, 0x80), (0x58, 0x4), (0x4, 0x4), (0x16, 0x4), (0x1, 0x8), (0x90, 0x100),
     (0x110, 0x200), (0x1A0, 0x400), (0x250, 0x800), (0x250, 0x880), (0x20, 0x80), (0x58, 0x4),
     (0x4, 0x4), (0x16, 0x4), (0x1, 0x8), (0x90, 0x100), (0x110, 0x200), (0x1A0, 0x400),
     (0x250, 0x800), (0x250, 0x880), (0x20, 0x80), (0x58, 0x4), (0x4, 0x4), (0x16, 0x4),
     (0x1, 0x8), (0x90, 0x100), (0x110, 0x200), (0x1A0, 0x400), (0x250, 0x800), (0x250, 0x880),
     (0x20, 0x80), (0x58, 0x4), (0x4, 0x4), (0x16, 0x4), (0x1, 0x8), (0x90, 0x100),
     (0x110, 0x200), (0x1A0, 0x400), (0x250, 0x800), (0x250, 0x880), (0x20, 0x80), (0x58, 0x4),
     (0x4, 0x4), (0x16, 0x4), (0x1, 0x8), (0x90, 0x100), (0x110, 0x200), (0x1A0, 0x400),
     (0x250, 0x800), (0x250, 0x880), (0x20, 0x80), (0x58, 0x4), (0x4, 0x4), (0x16, 0x4),
     (0x1, 0x8), (0x90, 0x100), (0x110, 0x200), (0x1A0, 0x400), (0x250, 0x800), (0x250, 0x880),
     (0x20, 0x80), (0x58, 0x4), (0x4, 0x4), (0x16, 0x4), (0x1, 0x8), (0x90, 0x100),
     (0x110, 0x200), (0x1A0, 0x400), (0x250, 0x800), (0x250, 0x880), (0x20, 0x80), (0x58, 0x4),
     (0x4, 0x4), (0x16, 0x4), (0x1, 0x8), (0x90, 0x100), (0x110, 0x200), (0x1A0, 0x400),
     (0x250, 0x800), (0x250, 0x880), (0x20, 0x80), (0x58, 0x4), (0x4, 0x4), (0x16, 0x4),
     (0x1, 0x8), (0x90, 0x100), (0x110, 0x200), (0x1A0, 0x400), (0x250, 0x800), (0x250, 0x880),
     (0x20, 0x80), (0x58, 0x4), (0x4, 0x4), (0x16, 0x4), (0x1, 0x8), (0x90, 0x100),
     (0x110, 0x200), (0x1A0, 0x400), (0x250, 0x800), (0x250, 0x880), (0x20, 0x80), (0x58, 0x4),
     (0x4, 0x4), (0x16, 0x4), (0x1, 0x8), (0x90, 0x100), (0x110, 0x200), (0x1A0, 0x400),
     (0x250, 0x800), (0x250, 0x880), (0x20, 0x80), (0x58, 0x4), (0x4, 0x4), (0x16, 0x4),
     (0x1, 0x8), (0x90, 0x100), (0x110, 0x200), (0x1A0, 0x400), (0x250, 0x800), (0x250, 0x880),
     (0x20, 0x80), (0x58, 0x4), (0x4, 0x4), (0x16, 0x4), (0x1, 0x8), (0x90, 0x100),
     (0x110, 0x200), (0x1A0, 0x400), (0x250, 0x800), (0x250, 0x880), (0x20, 0x80), (0x58, 0x4),
     (0x4, 0x4), (0x16, 0x4), (0x1, 0x8), (0x90, 0x100), (0x110, 0x200), (0x1A0, 0x400),
     (0x250, 0x800), (0x250, 0x880), (0x20, 0x80), (0x58, 0x4), (0x4, 0x4), (0x16, 0x4),
     (0x1, 0x8)]"

definition user_allocFreeTestParam :: "AllocFreeTestParam list" where
  "user_allocFreeTestParam =
    [(0x10, 4), (0x16, 8), (0x20, 0x10), (0x80, 0x20), (0x60, 0x40), (0x50, 0x80), (0x90, 0x100),
     (0x110, 0x200), (0x1A0, 0x400), (0x250, 0x800), (0x250, 0x880), (0x20, 0x80), (0x58, 0x4),
     (0x4, 0x4), (0x16, 0x4), (0x1, 0x8), (0x20, 0x10), (0x80, 0x20), (0x60, 0x40), (0x50, 0x80),
     (0x90, 0x100), (0x110, 0x200), (0x1A0, 0x400), (0x250, 0x800), (0x250, 0x880), (0x20, 0x80),
     (0x58, 0x4), (0x4, 0x4), (0x16, 0x4), (0x1, 0x8), (0x20, 0x10), (0x80, 0x20), (0x60, 0x40),
     (0x50, 0x80), (0x90, 0x100), (0x110, 0x200), (0x1A0, 0x400), (0x250, 0x800), (0x250, 0x880),
     (0x20, 0x80), (0x58, 0x4), (0x4, 0x4), (0x16, 0x4), (0x1, 0x8), (0x20, 0x10), (0x80, 0x20),
     (0x60, 0x40), (0x50, 0x80), (0x90, 0x100), (0x110, 0x200), (0x1A0, 0x400), (0x250, 0x800),
     (0x250, 0x880), (0x20, 0x80), (0x58, 0x4), (0x4, 0x4), (0x16, 0x4), (0x1, 0x8),
     (0x20, 0x10), (0x80, 0x20), (0x60, 0x40), (0x50, 0x80), (0x90, 0x100), (0x110, 0x200),
     (0x1A0, 0x400), (0x250, 0x800), (0x250, 0x880), (0x20, 0x80), (0x58, 0x4), (0x4, 0x4),
     (0x16, 0x4), (0x1, 0x8), (0x20, 0x10), (0x80, 0x20), (0x60, 0x40), (0x50, 0x80),
     (0x90, 0x100), (0x110, 0x200), (0x1A0, 0x400), (0x250, 0x800), (0x250, 0x880), (0x20, 0x80),
     (0x58, 0x4), (0x4, 0x4), (0x16, 0x4), (0x1, 0x8), (0x20, 0x10), (0x80, 0x20), (0x60, 0x40),
     (0x50, 0x80), (0x90, 0x100), (0x110, 0x200), (0x1A0, 0x400), (0x250, 0x800), (0x250, 0x880),
     (0x20, 0x80), (0x58, 0x4), (0x4, 0x4), (0x16, 0x4), (0x1, 0x8), (0x20, 0x10), (0x80, 0x20),
     (0x60, 0x40), (0x50, 0x80), (0x90, 0x100), (0x110, 0x200), (0x1A0, 0x400), (0x250, 0x800),
     (0x250, 0x880), (0x20, 0x80), (0x58, 0x4), (0x4, 0x4), (0x16, 0x4), (0x1, 0x8),
     (0x20, 0x10), (0x80, 0x20), (0x60, 0x40), (0x50, 0x80), (0x90, 0x100), (0x110, 0x200),
     (0x1A0, 0x400), (0x250, 0x800), (0x250, 0x880), (0x20, 0x80), (0x58, 0x4), (0x4, 0x4),
     (0x16, 0x4), (0x1, 0x8), (0x20, 0x10), (0x80, 0x20), (0x60, 0x40), (0x50, 0x80),
     (0x90, 0x100), (0x110, 0x200), (0x1A0, 0x400), (0x250, 0x800), (0x250, 0x880), (0x20, 0x80),
     (0x58, 0x4), (0x4, 0x4), (0x16, 0x4), (0x1, 0x8), (0x20, 0x10), (0x80, 0x20), (0x60, 0x40),
     (0x50, 0x80), (0x90, 0x100), (0x110, 0x200), (0x1A0, 0x400), (0x250, 0x800), (0x250, 0x880),
     (0x20, 0x80), (0x58, 0x4), (0x4, 0x4), (0x16, 0x4), (0x1, 0x8), (0x20, 0x10), (0x80, 0x20),
     (0x60, 0x40), (0x50, 0x80), (0x90, 0x100), (0x110, 0x200), (0x1A0, 0x400), (0x250, 0x800),
     (0x250, 0x880), (0x20, 0x80), (0x58, 0x4), (0x4, 0x4), (0x16, 0x4), (0x1, 0x8),
     (0x20, 0x10), (0x80, 0x20), (0x60, 0x40), (0x50, 0x80), (0x90, 0x100), (0x110, 0x200),
     (0x1A0, 0x400), (0x250, 0x800), (0x250, 0x880), (0x20, 0x80), (0x58, 0x4), (0x4, 0x4),
     (0x16, 0x4), (0x1, 0x8)]"

section \<open>The loops\<close>

text \<open>
  \<open>for (i = 0; i < n; i++) pResult[i] = alloc(...)\<close>, and then
  \<open>for (i = 0; i < n; i++) { free(pResult[i]); pResult[i] = NULL; }\<close>
\<close>

function alloc_loop ::
    "('k \<Rightarrow> AllocFreeTestParam \<Rightarrow> addr \<times> 'k) \<Rightarrow> AllocFreeTestParam list \<Rightarrow> nat \<Rightarrow>
     addr list \<Rightarrow> 'k \<Rightarrow> addr list \<times> 'k" where
  "alloc_loop alloc ps i pResult k =
     (if i < length ps
      then let (p, k) = alloc k (ps ! i) in alloc_loop alloc ps (i + 1) (pResult[i := p]) k
      else (pResult, k))"
  by pat_completeness auto

termination
  by (relation "measure (\<lambda>(alloc, ps, i, pResult, k). length ps - i)") auto

function free_loop :: "('k \<Rightarrow> addr \<Rightarrow> 'k) \<Rightarrow> nat \<Rightarrow> nat \<Rightarrow> addr list \<Rightarrow> 'k \<Rightarrow> addr list \<times> 'k" where
  "free_loop free n i pResult k =
     (if i < n
      then let k = free k (pResult ! i) in free_loop free n (i + 1) (pResult[i := NULL]) k
      else (pResult, k))"
  by pat_completeness auto

termination
  by (relation "measure (\<lambda>(free, n, i, pResult, k). n - i)") auto

declare alloc_loop.simps [simp del] free_loop.simps [simp del]

definition test_round ::
    "('k \<Rightarrow> AllocFreeTestParam \<Rightarrow> addr \<times> 'k) \<Rightarrow> ('k \<Rightarrow> addr \<Rightarrow> 'k) \<Rightarrow> AllocFreeTestParam list \<Rightarrow>
     addr list \<times> 'k \<Rightarrow> addr list \<times> 'k" where
  "test_round alloc free ps = (\<lambda>(pResult, k).
     let (pResult, k) = alloc_loop alloc ps 0 pResult k in free_loop free (length ps) 0 pResult k)"

section \<open>The kernel tests\<close>

text \<open>
  \<open>kt_search\<close> finds a module by name, \<open>kt_offset\<close> and \<open>kt_export\<close> resolve an address in it.
\<close>

record 'k malloc_env =
  kt_search :: "'k \<Rightarrow> string \<Rightarrow> s32 \<times> 'k"
  kt_offset :: "'k \<Rightarrow> s32 \<Rightarrow> s32 \<Rightarrow> u32 \<Rightarrow> addr \<times> 'k"
  kt_export :: "'k \<Rightarrow> string \<Rightarrow> u32 \<Rightarrow> u32 \<Rightarrow> s32 \<times> 'k"
  kt_alloc :: "'k \<Rightarrow> SceSize \<Rightarrow> addr \<times> 'k"
  kt_alloc_opt :: "'k \<Rightarrow> SceSize \<Rightarrow> u32 \<Rightarrow> addr \<times> 'k"
  kt_free :: "'k \<Rightarrow> addr \<Rightarrow> 'k"
  kt_heap_alloc :: "'k \<Rightarrow> s32 \<Rightarrow> SceSize \<Rightarrow> addr \<times> 'k"
  kt_heap_alloc_opt :: "'k \<Rightarrow> s32 \<Rightarrow> SceSize \<Rightarrow> u32 \<Rightarrow> addr \<times> 'k"
  kt_heap_free :: "'k \<Rightarrow> s32 \<Rightarrow> addr \<Rightarrow> 'k"
  kt_netps_malloc :: "'k \<Rightarrow> SceSize \<Rightarrow> u32 \<Rightarrow> u32 \<Rightarrow> addr \<times> 'k"
  kt_netps_free :: "'k \<Rightarrow> addr \<Rightarrow> 'k"

definition SCE_NETPS_MALLOC_FLAG_NOT_SLEEP :: u32 where
  "SCE_NETPS_MALLOC_FLAG_NOT_SLEEP = push_bit 0 1"

definition get_netps_function :: "'k malloc_env \<Rightarrow> 'k \<Rightarrow> s32 \<times> 'k" where
  "get_netps_function E k =
     (let (module_id, k) = kt_search E k ''SceNetPs'' in
      if failed module_id then (module_id, k)
      else let (_, k) = kt_offset E k module_id 0 (0x56B4 OR 1);
               (_, k) = kt_offset E k module_id 0 (0x598C OR 1)
           in (0, k))"

definition get_sysmem_function :: "'k malloc_env \<Rightarrow> 'k \<Rightarrow> s32 \<times> 'k" where
  "get_sysmem_function E k =
     (let (res, k) = kt_export E k ''SceSysmem'' 0x63A519E5 0xA2CD1697 in
      if failed res then (res, k) else (0, k))"

definition alloc_free_test_system_internal ::
    "'k malloc_env \<Rightarrow> addr list \<times> 'k \<Rightarrow> addr list \<times> 'k" where
  "alloc_free_test_system_internal E s =
     (let s = test_round (\<lambda>k (len, align). kt_alloc E k len) (kt_free E) allocFreeTestParam s
      in test_round (\<lambda>k (len, align). kt_alloc_opt E k len align) (kt_free E) allocFreeTestParam s)"

definition alloc_free_test_system_external ::
    "'k malloc_env \<Rightarrow> addr list \<times> 'k \<Rightarrow> addr list \<times> 'k" where
  "alloc_free_test_system_external E s =
     (let s = test_round (\<lambda>k (len, align). kt_heap_alloc E k 0x1000B len)
            (\<lambda>k. kt_heap_free E k 0x1000B) allocFreeTestParam s
      in test_round (\<lambda>k (len, align). kt_heap_alloc_opt E k 0x1000B len align)
            (\<lambda>k. kt_heap_free E k 0x1000B) allocFreeTestParam s)"

definition alloc_free_test_netps :: "'k malloc_env \<Rightarrow> addr list \<times> 'k \<Rightarrow> addr list \<times> 'k" where
  "alloc_free_test_netps E s =
     (let s = test_round
            (\<lambda>k (len, align). kt_netps_malloc E k len SCE_NETPS_MALLOC_FLAG_NOT_SLEEP 8)
            (kt_netps_free E) allocFreeTestParam s
      in test_round
            (\<lambda>k (len, align). kt_netps_malloc E k len SCE_NETPS_MALLOC_FLAG_NOT_SLEEP align)
            (kt_netps_free E) allocFreeTestParam s)"

text \<open>\<open>True\<close> stands for \<open>SCE_KERNEL_START_NO_RESIDENT\<close>, \<open>False\<close> for \<open>SCE_KERNEL_START_FAILED\<close>.\<close>

definition malloc_module_start ::
    "'k malloc_env \<Rightarrow> addr list \<times> 'k \<Rightarrow> bool \<times> addr list \<times> 'k" where
  "malloc_module_start E = (\<lambda>(pResult, k).
     let (res, k) = get_netps_function E k in
     if failed res then (False, pResult, k)
     else let (res, k) = get_sysmem_function E k in
     if failed res then (False, pResult, k)
     else let s = alloc_free_test_system_internal E (pResult, k);
              s = alloc_free_test_system_external E s;
              s = alloc_free_test_netps E s
          in (True, s))"

section \<open>The test of ScePaf\<close>

record 'k paf_env =
  paf_load :: "'k \<Rightarrow> s32 \<times> 'k"
  paf_malloc :: "'k \<Rightarrow> SceSize \<Rightarrow> addr \<times> 'k"
  paf_memalign :: "'k \<Rightarrow> u32 \<Rightarrow> SceSize \<Rightarrow> addr \<times> 'k"
  paf_free :: "'k \<Rightarrow> addr \<Rightarrow> 'k"
  paf_exit :: "'k \<Rightarrow> 'k"

text \<open>The array is local and holds any values at first.\<close>

definition alloc_free_test_paf :: "'k paf_env \<Rightarrow> addr list \<times> 'k \<Rightarrow> addr list \<times> 'k" where
  "alloc_free_test_paf E s =
     (let s = test_round (\<lambda>k (len, align). paf_malloc E k len) (paf_free E) user_allocFreeTestParam s
      in test_round (\<lambda>k (len, align). paf_memalign E k align len) (paf_free E)
           user_allocFreeTestParam s)"

definition user_malloc_module_start :: "'k paf_env \<Rightarrow> addr list \<Rightarrow> 'k \<Rightarrow> 'k" where
  "user_malloc_module_start E pResult k =
     (let (res, k) = paf_load E k;
          (_, k) = alloc_free_test_paf E (pResult, k)
      in paf_exit E k)"

section \<open>Every block is freed once\<close>

text \<open>
  \<open>live k\<close> are the allocated blocks, each with the heap that it belongs to.  An allocation gives NULL
  or a block that was not allocated; a free takes an allocated block of its heap away, and nothing is
  known of a free of anything else but NULL.
\<close>

datatype heap_id = Sysmem | Heap_1000B | Net_ps | Paf

type_synonym 'k blocks = "'k \<Rightarrow> (heap_id \<times> addr) set"

definition alloc_ok :: "'k blocks \<Rightarrow> heap_id \<Rightarrow> ('k \<Rightarrow> AllocFreeTestParam \<Rightarrow> addr \<times> 'k) \<Rightarrow> bool" where
  "alloc_ok live h alloc \<longleftrightarrow>
     (\<forall>k q p k'. alloc k q = (p, k') \<longrightarrow>
        (if p = NULL then live k' = live k
         else (h, p) \<notin> live k \<and> live k' = insert (h, p) (live k)))"

definition free_ok :: "'k blocks \<Rightarrow> heap_id \<Rightarrow> ('k \<Rightarrow> addr \<Rightarrow> 'k) \<Rightarrow> bool" where
  "free_ok live h free \<longleftrightarrow>
     (\<forall>k. live (free k NULL) = live k) \<and>
     (\<forall>k p. p \<noteq> NULL \<longrightarrow> (h, p) \<in> live k \<longrightarrow> live (free k p) = live k - {(h, p)})"

text \<open>The blocks that a list of results stands for; no block occurs twice.\<close>

definition held :: "heap_id \<Rightarrow> addr list \<Rightarrow> (heap_id \<times> addr) set" where
  "held h ps = (\<lambda>p. (h, p)) ` (set ps - {NULL})"

lemma held_simps [simp]:
  "held h [] = {}"
  "held h (p # ps) = (if p = NULL then held h ps else insert (h, p) (held h ps))"
  by (auto simp: held_def)

fun separate :: "addr list \<Rightarrow> bool" where
  "separate [] \<longleftrightarrow> True"
| "separate (p # ps) \<longleftrightarrow> (p = NULL \<or> p \<notin> set ps) \<and> separate ps"

lemma held_mem: "(h, p) \<in> held h ps \<longleftrightarrow> p \<in> set ps \<and> p \<noteq> NULL"
  by (auto simp: held_def)

lemma alloc_loop_blocks:
  assumes A: "alloc_ok live h alloc"
  shows "length pre = i \<Longrightarrow> length pre + length post = length ps \<Longrightarrow>
    \<exists>qs k'. alloc_loop alloc ps i (pre @ post) k = (pre @ qs, k') \<and> length qs = length post \<and>
      separate qs \<and> held h qs \<inter> live k = {} \<and> live k' = live k \<union> held h qs"
proof (induction post arbitrary: i pre k)
  case Nil
  then show ?case by (subst alloc_loop.simps) simp
next
  case (Cons x post)
  obtain p k1 where a: "alloc k (ps ! i) = (p, k1)" by (cases "alloc k (ps ! i)")
  with A have p: "if p = NULL then live k1 = live k
      else (h, p) \<notin> live k \<and> live k1 = insert (h, p) (live k)"
    unfolding alloc_ok_def by blast
  have "length (pre @ [p]) = i + 1" "length (pre @ [p]) + length post = length ps"
    using Cons.prems by simp_all
  from Cons.IH [OF this, of k1] obtain qs k' where q:
    "alloc_loop alloc ps (i + 1) (pre @ p # post) k1 = (pre @ p # qs, k')" "length qs = length post"
    "separate qs" "held h qs \<inter> live k1 = {}" "live k' = live k1 \<union> held h qs" by auto
  have "alloc_loop alloc ps i (pre @ x # post) k = (pre @ p # qs, k')"
    using Cons.prems a q(1) by (subst alloc_loop.simps) (simp add: list_update_append)
  moreover have "separate (p # qs)" "held h (p # qs) \<inter> live k = {}"
    "live k' = live k \<union> held h (p # qs)"
    using p q(3-5) held_mem [of h p qs] by (auto split: if_splits)
  ultimately show ?case using q(2) by (intro exI [of _ "p # qs"] exI [of _ k']) simp
qed

lemma free_loop_blocks:
  assumes F: "free_ok live h free"
  shows "length pre = i \<Longrightarrow> length pre + length post = n \<Longrightarrow> separate post \<Longrightarrow>
    held h post \<subseteq> live k \<Longrightarrow>
    \<exists>k'. free_loop free n i (pre @ post) k = (pre @ replicate (length post) NULL, k') \<and>
      live k' = live k - held h post"
proof (induction post arbitrary: i pre k)
  case Nil
  then show ?case by (subst free_loop.simps) simp
next
  case (Cons p post)
  have lf: "live (free k p) = (if p = NULL then live k else live k - {(h, p)})"
    using F Cons.prems(4) by (cases "p = NULL") (auto simp: free_ok_def)
  have "length (pre @ [NULL]) = i + 1" "length (pre @ [NULL]) + length post = n" "separate post"
    using Cons.prems by simp_all
  moreover have "held h post \<subseteq> live (free k p)"
    using Cons.prems(3,4) lf held_mem [of h p post] by (auto split: if_splits)
  ultimately obtain k' where
    "free_loop free n (i + 1) (pre @ NULL # post) (free k p) =
      (pre @ NULL # replicate (length post) NULL, k')" "live k' = live (free k p) - held h post"
    using Cons.IH [of "pre @ [NULL]" "i + 1" "free k p"] by auto
  then show ?case using Cons.prems lf
    by (subst free_loop.simps) (auto simp: list_update_append)
qed

lemma test_round_blocks:
  assumes "alloc_ok live h alloc" "free_ok live h free" "length pResult = length ps"
  shows "\<exists>k'. test_round alloc free ps (pResult, k) = (replicate (length ps) NULL, k') \<and> live k' = live k"
proof -
  obtain qs k1 where q: "alloc_loop alloc ps 0 pResult k = (qs, k1)" "length qs = length ps"
    "separate qs" "held h qs \<inter> live k = {}" "live k1 = live k \<union> held h qs"
    using alloc_loop_blocks [OF assms(1), of "[]" 0 pResult ps k] assms(3) by auto
  obtain k' where "free_loop free (length ps) 0 qs k1 = (replicate (length ps) NULL, k')"
    "live k' = live k1 - held h qs"
    using free_loop_blocks [OF assms(2), of "[]" 0 qs "length ps" k1] q by auto
  then show ?thesis using q by (auto simp: test_round_def)
qed

text \<open>Two rounds, as every test makes them.\<close>

lemma two_rounds_blocks:
  assumes "alloc_ok live h a1" "alloc_ok live h a2" "free_ok live h free" "length (fst s) = length ps"
  shows "\<exists>k'. (let s = test_round a1 free ps s in test_round a2 free ps s) =
      (replicate (length ps) NULL, k') \<and> live k' = live (snd s)"
proof -
  obtain k1 where 1: "test_round a1 free ps s = (replicate (length ps) NULL, k1)" "live k1 = live (snd s)"
    using test_round_blocks [OF assms(1,3,4), of "snd s"] by auto
  obtain k2 where "test_round a2 free ps (replicate (length ps) NULL, k1) = (replicate (length ps) NULL, k2)"
    "live k2 = live k1"
    using test_round_blocks [OF assms(2,3), of "replicate (length ps) NULL" ps k1] by auto
  then show ?thesis using 1 by simp
qed

definition malloc_contract :: "'k malloc_env \<Rightarrow> 'k blocks \<Rightarrow> bool" where
  "malloc_contract E live \<longleftrightarrow>
     alloc_ok live Sysmem (\<lambda>k (len, align). kt_alloc E k len) \<and>
     alloc_ok live Sysmem (\<lambda>k (len, align). kt_alloc_opt E k len align) \<and>
     free_ok live Sysmem (kt_free E) \<and>
     alloc_ok live Heap_1000B (\<lambda>k (len, align). kt_heap_alloc E k 0x1000B len) \<and>
     alloc_ok live Heap_1000B (\<lambda>k (len, align). kt_heap_alloc_opt E k 0x1000B len align) \<and>
     free_ok live Heap_1000B (\<lambda>k. kt_heap_free E k 0x1000B) \<and>
     alloc_ok live Net_ps (\<lambda>k (len, align). kt_netps_malloc E k len 1 8) \<and>
     alloc_ok live Net_ps (\<lambda>k (len, align). kt_netps_malloc E k len 1 align) \<and>
     free_ok live Net_ps (kt_netps_free E) \<and>
     (\<forall>k m. live (snd (kt_search E k m)) = live k) \<and>
     (\<forall>k m seg off. live (snd (kt_offset E k m seg off)) = live k) \<and>
     (\<forall>k m lib nid. live (snd (kt_export E k m lib nid)) = live k)"

lemma tests_blocks:
  assumes "malloc_contract E live" "length (fst s) = length allocFreeTestParam"
  shows "\<exists>k'. alloc_free_test_system_internal E s = (replicate (length allocFreeTestParam) NULL, k') \<and>
      live k' = live (snd s)"
    and "\<exists>k'. alloc_free_test_system_external E s = (replicate (length allocFreeTestParam) NULL, k') \<and>
      live k' = live (snd s)"
    and "\<exists>k'. alloc_free_test_netps E s = (replicate (length allocFreeTestParam) NULL, k') \<and>
      live k' = live (snd s)"
proof -
  note C = assms(1) [unfolded malloc_contract_def]
  show "\<exists>k'. alloc_free_test_system_internal E s = (replicate (length allocFreeTestParam) NULL, k') \<and>
      live k' = live (snd s)"
    unfolding alloc_free_test_system_internal_def
    by (rule two_rounds_blocks [where h = Sysmem, OF _ _ _ assms(2)]) (use C in blast)+
  show "\<exists>k'. alloc_free_test_system_external E s = (replicate (length allocFreeTestParam) NULL, k') \<and>
      live k' = live (snd s)"
    unfolding alloc_free_test_system_external_def
    by (rule two_rounds_blocks [where h = Heap_1000B, OF _ _ _ assms(2)]) (use C in blast)+
  have "SCE_NETPS_MALLOC_FLAG_NOT_SLEEP = 1" by (simp add: SCE_NETPS_MALLOC_FLAG_NOT_SLEEP_def)
  note flag = this
  show "\<exists>k'. alloc_free_test_netps E s = (replicate (length allocFreeTestParam) NULL, k') \<and>
      live k' = live (snd s)"
    unfolding alloc_free_test_netps_def flag
    by (rule two_rounds_blocks [where h = Net_ps, OF _ _ _ assms(2)]) (use C in blast)+
qed

lemma get_functions_blocks:
  assumes "malloc_contract E live"
  shows "live (snd (get_netps_function E k)) = live k" "live (snd (get_sysmem_function E k)) = live k"
proof -
  have c: "live (snd (kt_search E k m)) = live k" "live (snd (kt_offset E k i seg off)) = live k"
    "live (snd (kt_export E k m lib nid)) = live k" for k m i seg off lib nid
    using assms by (simp_all add: malloc_contract_def)
  show "live (snd (get_netps_function E k)) = live k" "live (snd (get_sysmem_function E k)) = live k"
    by (simp_all add: get_netps_function_def get_sysmem_function_def case_prod_unfold Let_def c)
qed

text \<open>
  C31: the tests of the kernel's allocators free every block exactly once, through the heap that it
  came from and in the order of the allocations, also when some allocations fail: afterwards no block
  more or less is allocated than before and no pointer to a block is left; when a module cannot be
  found nothing is allocated at all.
\<close>

theorem malloc_tests_balance:
  assumes "malloc_contract E live" "length pResult = length allocFreeTestParam"
  shows "case malloc_module_start E (pResult, k) of (ok, pResult', k') \<Rightarrow>
    live k' = live k \<and>
    pResult' = (if ok then replicate (length allocFreeTestParam) NULL else pResult)"
proof -
  obtain res k1 where n: "get_netps_function E k = (res, k1)" by (cases "get_netps_function E k")
  have l1: "live k1 = live k" using get_functions_blocks(1) [OF assms(1), of k] n by simp
  obtain res2 k2 where s: "get_sysmem_function E k1 = (res2, k2)" by (cases "get_sysmem_function E k1")
  have l2: "live k2 = live k"
    using get_functions_blocks(2) [OF assms(1), of k1] s l1 by simp
  let ?N = "replicate (length allocFreeTestParam) NULL"
  obtain k3 where 3: "alloc_free_test_system_internal E (pResult, k2) = (?N, k3)" "live k3 = live k"
    using tests_blocks(1) [OF assms(1), of "(pResult, k2)"] assms(2) l2 by auto
  obtain k4 where 4: "alloc_free_test_system_external E (?N, k3) = (?N, k4)" "live k4 = live k"
    using tests_blocks(2) [OF assms(1), of "(?N, k3)"] 3(2) by auto
  obtain k5 where 5: "alloc_free_test_netps E (?N, k4) = (?N, k5)" "live k5 = live k"
    using tests_blocks(3) [OF assms(1), of "(?N, k4)"] 4(2) by auto
  show ?thesis
    by (simp add: malloc_module_start_def n s 3 4 5 l1 l2)
qed

text \<open>The test of ScePaf balances in the same way, whether or not the module could be loaded.\<close>

definition paf_contract :: "'k paf_env \<Rightarrow> 'k blocks \<Rightarrow> bool" where
  "paf_contract E live \<longleftrightarrow>
     alloc_ok live Paf (\<lambda>k (len, align). paf_malloc E k len) \<and>
     alloc_ok live Paf (\<lambda>k (len, align). paf_memalign E k align len) \<and>
     free_ok live Paf (paf_free E) \<and>
     (\<forall>k. live (snd (paf_load E k)) = live k) \<and> (\<forall>k. live (paf_exit E k) = live k)"

lemma paf_test_balances:
  assumes "paf_contract E live" "length pResult = length user_allocFreeTestParam"
  shows "live (user_malloc_module_start E pResult k) = live k"
proof -
  note C = assms(1) [unfolded paf_contract_def]
  obtain res k1 where l: "paf_load E k = (res, k1)" by (cases "paf_load E k")
  have "\<exists>k'. alloc_free_test_paf E (pResult, k1) =
      (replicate (length user_allocFreeTestParam) NULL, k') \<and> live k' = live (snd (pResult, k1))"
    unfolding alloc_free_test_paf_def
    by (rule two_rounds_blocks [where h = Paf]) (use C assms(2) in \<open>blast | simp\<close>)+
  then obtain k2 where "alloc_free_test_paf E (pResult, k1) =
      (replicate (length user_allocFreeTestParam) NULL, k2)" "live k2 = live k1" by auto
  moreover have "live (snd (paf_load E k)) = live k" "live (paf_exit E k2) = live k2" using C by simp_all
  then have "live k1 = live k" "live (paf_exit E k2) = live k2" using l by simp_all
  ultimately show ?thesis by (simp add: user_malloc_module_start_def l)
qed

end
