(* ===== verification/Dump_Tools.thy ===== *)
theory Dump_Tools
  imports Sce_Io Emmc_Dumper Loader_Props
begin

text \<open>
  The small dumpers: \<open>src/kernel/nvs_dumper\<close>, \<open>src/kernel/idstorage_dumper\<close> and
  \<open>src/kernel/visible_id_dumper\<close>.  They choose a drive, refuse to replace a dump, and write what the
  storage drivers deliver; the drivers are parameters.
\<close>

section \<open>Shared text\<close>

definition nvs_write_file ::
    "'k sce_io \<Rightarrow> string \<Rightarrow> u8 list option \<Rightarrow> SceSize \<Rightarrow> 'k \<Rightarrow> s32 \<times> 'k" where
  "nvs_write_file IO path data sz k =
     (case data of None \<Rightarrow> (-1, k)
      | Some bs \<Rightarrow>
        if sz = 0 then (-1, k)
        else
          let (fd, k) = io_open IO k path (SCE_O_WRONLY IO OR SCE_O_CREAT IO OR SCE_O_TRUNC IO) 438 in
          if failed fd then (fd, k)
          else
            let (_, k) = io_write IO k fd (take (unat sz) bs);
                (_, k) = io_close IO k fd
            in (0, k))"

text \<open>\<open>write_file\<close> is the same text in the other two dumpers.\<close>

definition idstorage_write_file ::
    "'k sce_io \<Rightarrow> string \<Rightarrow> u8 list option \<Rightarrow> SceSize \<Rightarrow> 'k \<Rightarrow> s32 \<times> 'k" where
  "idstorage_write_file = nvs_write_file"

definition visible_write_file ::
    "'k sce_io \<Rightarrow> string \<Rightarrow> u8 list option \<Rightarrow> SceSize \<Rightarrow> 'k \<Rightarrow> s32 \<times> 'k" where
  "visible_write_file = nvs_write_file"

text \<open>The chain of tests for a drive: the first one whose status can be had.\<close>

fun first_drive :: "'k sce_io \<Rightarrow> string list \<Rightarrow> 'k \<Rightarrow> string option \<times> 'k" where
  "first_drive IO [] k = (None, k)"
| "first_drive IO (d # ds) k =
     (let (r, k) = io_getstat IO k d in
      if \<not> failed r then (Some (snprintf 8 d), k) else first_drive IO ds k)"

section \<open>nvs\_dumper\<close>

record 'k nvs_env =
  nvs_io :: "'k sce_io"
  nvs_alloc :: "'k \<Rightarrow> SceSize \<Rightarrow> addr \<times> 'k"
  nvs_free :: "'k \<Rightarrow> addr \<Rightarrow> 'k"
  nvs_read :: "'k \<Rightarrow> u32 \<Rightarrow> SceSize \<Rightarrow> s32 \<times> u8 list \<times> 'k"

text \<open>
  The loop over the readable part of the storage: a failure is printed, and the part of the buffer
  keeps what it held but for what the driver stored.
\<close>

function nvs_loop :: "'k nvs_env \<Rightarrow> nat \<Rightarrow> u8 list \<Rightarrow> 'k \<Rightarrow> u8 list \<times> 'k" where
  "nvs_loop E i nvs_buffer k =
     (if i < 0xB60
      then let (res, data, k) = nvs_read E k (word_of_nat i) 0x20
           in nvs_loop E (i + 0x20) (overwrite i data nvs_buffer) k
      else (nvs_buffer, k))"
  by pat_completeness auto

termination
  by (relation "measure (\<lambda>(E, i, nvs_buffer, k). 0xB60 - i)") auto

declare nvs_loop.simps [simp del]

definition nvs_module_start :: "'k nvs_env \<Rightarrow> 'k \<Rightarrow> start_result \<times> 'k" where
  "nvs_module_start E k =
     (let IO = nvs_io E;
          (drv, k) = first_drive IO [''host0:'', ''sd0:'', ''ux0:''] k in
      case drv of None \<Rightarrow> (START_FAILED, k)
      | Some drv \<Rightarrow>
        let path = snprintf 0x40 (drv @ ''/NVS_dump.bin'');
            (r, k) = io_getstat IO k path in
        if \<not> failed r then (START_NO_RESIDENT, k)
        else let (nvs_buffer, k) = nvs_alloc E k 0xB60 in
        if nvs_buffer = NULL then (START_FAILED, k)
        else
          let (buf, k) = nvs_loop E 0x400 (replicate 0xB60 0) k;
              (_, k) = nvs_write_file IO path (Some buf) 0xB60 k
          in (START_NO_RESIDENT, nvs_free E k nvs_buffer))"

section \<open>idstorage\_dumper\<close>

text \<open>\<open>%05d\<close> for the numbers of leaves.\<close>

definition dec_digit :: "nat \<Rightarrow> char" where
  "dec_digit d = char_of (48 + d)"

definition fmt_05d :: "nat \<Rightarrow> string" where
  "fmt_05d i =
     [dec_digit (i div 10000 mod 10), dec_digit (i div 1000 mod 10), dec_digit (i div 100 mod 10),
      dec_digit (i div 10 mod 10), dec_digit (i mod 10)]"

record 'k ids_env =
  ids_io :: "'k sce_io"
  ids_thread :: "'k sce_thread"
  ids_alloc :: "'k \<Rightarrow> SceSize \<Rightarrow> addr \<times> 'k"
  ids_free :: "'k \<Rightarrow> addr \<Rightarrow> 'k"
  ids_read_leaf :: "'k \<Rightarrow> u32 \<Rightarrow> s32 \<times> u8 list \<times> 'k"

definition leaf_file :: "string \<Rightarrow> nat \<Rightarrow> string" where
  "leaf_file path i = snprintf 0x80 (path @ ''/leaf'' @ fmt_05d i @ ''.bin'')"

definition dump_leaf :: "'k ids_env \<Rightarrow> string \<Rightarrow> nat \<Rightarrow> u8 list \<Rightarrow> 'k \<Rightarrow> u8 list \<times> 'k" where
  "dump_leaf E path i leaf_buffer k =
     (let (res, data, k) = ids_read_leaf E k (word_of_nat i);
          leaf_buffer = overwrite 0 data leaf_buffer in
      if failed res then (leaf_buffer, k)
      else (leaf_buffer, snd (idstorage_write_file (ids_io E) (leaf_file path i) (Some leaf_buffer) 0x200 k)))"

fun dump_leaves :: "'k ids_env \<Rightarrow> string \<Rightarrow> nat list \<Rightarrow> u8 list \<Rightarrow> 'k \<Rightarrow> u8 list \<times> 'k" where
  "dump_leaves E path [] leaf_buffer k = (leaf_buffer, k)"
| "dump_leaves E path (i # is) leaf_buffer k =
     (let (leaf_buffer, k) = dump_leaf E path i leaf_buffer k
      in dump_leaves E path is leaf_buffer k)"

text \<open>\<open>None\<close> is the plain return value 0 of a dump that was made; \<open>buf0\<close> what the block holds.\<close>

definition dump_entry :: "'k ids_env \<Rightarrow> u8 list \<Rightarrow> 'k \<Rightarrow> start_result option \<times> 'k" where
  "dump_entry E buf0 k =
     (let IO = ids_io E;
          (drv, k) = first_drive IO [''host0:'', ''sd0:'', ''ux0:''] k in
      case drv of None \<Rightarrow> (Some START_FAILED, k)
      | Some drv \<Rightarrow>
        let path = snprintf 0x40 (drv @ ''/idstorage_dump'');
            (r, k) = io_getstat IO k path in
        if \<not> failed r then (Some START_NO_RESIDENT, k)
        else let (leaf_buffer, k) = ids_alloc E k 0x200 in
        if leaf_buffer = NULL then (Some START_FAILED, k)
        else let (res, k) = io_mkdir IO k path 438 in
        if failed res then (Some START_FAILED, ids_free E k leaf_buffer)
        else
          let (_, k) = dump_leaves E path [0..<0xFFF0] buf0 k
          in (None, ids_free E k leaf_buffer))"

definition idstorage_module_start :: "'k ids_env \<Rightarrow> 'k \<Rightarrow> start_result \<times> 'k" where
  "idstorage_module_start E k =
     (let T = ids_thread E;
          (thid, k) = th_create T k;
          (_, k) = th_start T k thid;
          (_, _, k) = th_wait T k thid;
          (_, k) = th_delete T k thid
      in (START_NO_RESIDENT, k))"

section \<open>visible\_id\_dumper\<close>

definition hex_char :: "nat \<Rightarrow> char" where
  "hex_char d = char_of (if d < 10 then 48 + d else 55 + d)"

definition fmt_02X :: "u8 \<Rightarrow> string" where
  "fmt_02X b = [hex_char (unat b div 16), hex_char (unat b mod 16)]"

record 'k vid_env =
  vid_io :: "'k sce_io"
  vid_thread :: "'k sce_thread"
  vid_get :: "'k \<Rightarrow> u8 list \<times> 'k"

text \<open>The tests as the code nests them; \<open>res\<close> is -1 at first.\<close>

definition vid_drive :: "'k sce_io \<Rightarrow> 'k \<Rightarrow> s32 \<times> string \<times> 'k" where
  "vid_drive IO k =
     (let (res, k) = io_getstat IO k ''host0:'';
          dir = (if failed res then ''sd0:'' else ''host0:'');
          (res, dir, k) =
            (if failed res then
               let (res, k) = io_getstat IO k dir in
               (res, if failed res then ''ux0:'' else dir, k)
             else (res, dir, k));
          (res, k) = (if failed res then io_getstat IO k dir else (res, k))
      in (res, dir, k))"

definition vid_path :: "string \<Rightarrow> u8 list \<Rightarrow> string" where
  "vid_path dir visible_id =
     snprintf 0x100 (dir @ ''/visible_id_'' @ fmt_02X (visible_id ! 0x1C) @ fmt_02X (visible_id ! 0x1D) @
       fmt_02X (visible_id ! 0x1E) @ fmt_02X (visible_id ! 0x1F) @ ''.bin'')"

definition dump_visible_id :: "'k vid_env \<Rightarrow> 'k \<Rightarrow> s32 \<times> 'k" where
  "dump_visible_id E k =
     (let IO = vid_io E;
          (res, dir, k) = vid_drive IO k in
      if failed res then (0, k)
      else
        let (data, k) = vid_get E k;
            visible_id = overwrite 0 data (replicate 0x20 0);
            path = vid_path dir visible_id;
            (r, k) = io_getstat IO k path in
        if \<not> failed r then (0, k)
        else (0, snd (visible_write_file IO path (Some visible_id) 0x20 k)))"

definition vid_run_on_thread :: "'k sce_thread \<Rightarrow> 'k \<Rightarrow> s32 \<times> 'k" where
  "vid_run_on_thread = run_on_thread"

definition vid_module_start :: "'k vid_env \<Rightarrow> 'k \<Rightarrow> start_result \<times> 'k" where
  "vid_module_start E k = (let (_, k) = vid_run_on_thread (vid_thread E) k in (START_NO_RESIDENT, k))"

section \<open>What the NVS dump holds\<close>

text \<open>\<open>N\<close> is the storage; a read that fails stores nothing.\<close>

definition nvs_contract :: "'k nvs_env \<Rightarrow> u8 list \<Rightarrow> bool" where
  "nvs_contract E N \<longleftrightarrow> length N = 0xB60 \<and>
     (\<forall>k off. unat off + 0x20 \<le> 0xB60 \<longrightarrow>
        (\<exists>r data k'. nvs_read E k off 0x20 = (r, data, k') \<and>
           data = (if failed r then [] else take 0x20 (drop (unat off) N))))"

definition window :: "nat \<Rightarrow> u8 list \<Rightarrow> u8 list" where
  "window off bs = take 0x20 (drop off bs)"

lemma nvs_loop_blocks:
  assumes C: "nvs_contract E N"
  shows "length buf = 0xB60 \<Longrightarrow> i + 0x20 * n = 0xB60 \<Longrightarrow>
    \<exists>buf' k'. nvs_loop E i buf k = (buf', k') \<and> length buf' = 0xB60 \<and> take i buf' = take i buf \<and>
      (\<forall>j<n. window (i + 0x20 * j) buf' \<in> {window (i + 0x20 * j) buf, window (i + 0x20 * j) N})"
proof (induction n arbitrary: i buf k)
  case 0
  then show ?case by (subst nvs_loop.simps) simp
next
  case (Suc n)
  have i: "i < 0xB60" "i + 0x20 \<le> 0xB60" "i + 0x20 + 0x20 * n = 0xB60" using Suc.prems by simp_all
  have u: "unat (word_of_nat i :: u32) = i"
    using i(1) by (simp add: unsigned_of_nat take_bit_nat_eq_self_iff)
  obtain r data k1 where rd: "nvs_read E k (word_of_nat i) 0x20 = (r, data, k1)"
    "data = (if failed r then [] else window i N)"
    using C i(2) u unfolding nvs_contract_def window_def by metis
  have lN: "length (window i N) = 0x20" using C i(2) by (simp add: nvs_contract_def window_def)
  let ?b = "overwrite i data buf"
  have lb: "length ?b = 0xB60" using rd(2) lN i(2) Suc.prems(1) by simp
  obtain buf' k' where s: "nvs_loop E (i + 0x20) ?b k1 = (buf', k')" "length buf' = 0xB60"
    "take (i + 0x20) buf' = take (i + 0x20) ?b"
    "\<forall>j<n. window (i + 0x20 + 0x20 * j) buf' \<in>
      {window (i + 0x20 + 0x20 * j) ?b, window (i + 0x20 + 0x20 * j) N}"
    using Suc.IH [OF lb i(3)] by blast
  have after: "window (i + 0x20 + m) ?b = window (i + 0x20 + m) buf" for m
    using rd(2) lN i Suc.prems(1) by (cases "failed r") (simp_all add: window_def read_overwrite_after)
  have w0: "window i ?b \<in> {window i buf, window i N}"
    using rd(2) lN i(2) Suc.prems(1) read_overwrite [of i "window i N" buf]
    by (cases "failed r") (simp_all add: window_def)
  have "window i bs = drop i (take (i + 0x20) bs)" for bs by (simp add: window_def drop_take)
  then have w: "window i buf' = window i ?b" using s(3) by simp
  have t: "take i buf' = take i ?b" using arg_cong [OF s(3), where f = "take i"] by (simp add: min_def)
  have "take i ?b = take i buf" using i(1) Suc.prems(1) by (simp add: overwrite_def)
  moreover have "window (i + 0x20 * j) buf' \<in> {window (i + 0x20 * j) buf, window (i + 0x20 * j) N}"
    if j: "j < Suc n" for j
  proof (cases j)
    case 0
    then show ?thesis using w w0 by simp
  next
    case (Suc j')
    have e: "i + 0x20 * j = i + 0x20 + 0x20 * j'" using Suc by simp
    show ?thesis unfolding e using s(4) j Suc after by auto
  qed
  moreover have "nvs_loop E i buf k = (buf', k')"
    using i(1) rd(1) s(1) by (subst nvs_loop.simps) simp
  ultimately show ?case using s(2) t by simp
qed

text \<open>
  The buffer that becomes the dump has zeros for the first 0x400 bytes, which cannot be read, and
  from there on each block of 0x20 bytes is that of the storage, or zeros when its read failed.
\<close>

theorem nvs_dump_blocks:
  assumes "nvs_contract E N" "j < 0x3B"
  shows "case nvs_loop E 0x400 (replicate 0xB60 0) k of (buf, k') \<Rightarrow>
    length buf = 0xB60 \<and> take 0x400 buf = replicate 0x400 0 \<and>
    (window (0x400 + 0x20 * j) buf = window (0x400 + 0x20 * j) N \<or>
     window (0x400 + 0x20 * j) buf = replicate 0x20 0)"
proof -
  obtain buf k' where s: "nvs_loop E 0x400 (replicate 0xB60 0) k = (buf, k')" "length buf = 0xB60"
    "take 0x400 buf = take 0x400 (replicate 0xB60 0)"
    "\<forall>j<0x3B. window (0x400 + 0x20 * j) buf \<in>
      {window (0x400 + 0x20 * j) (replicate 0xB60 0), window (0x400 + 0x20 * j) N}"
    using nvs_loop_blocks [OF assms(1), where buf = "replicate 0xB60 0" and i = "0x400" and n = "0x3B" and k = k]
    by auto
  have "window (0x400 + 0x20 * j) (replicate 0xB60 0) = replicate 0x20 0"
    using assms(2) by (simp add: window_def)
  then show ?thesis using s assms(2) by auto
qed

section \<open>The files of the leaves\<close>

lemma of_char_dec_digit: "d < 10 \<Longrightarrow> (of_char (dec_digit d) :: nat) = 48 + d"
  by (simp add: dec_digit_def)

lemma digits_value:
  assumes "i < 100000"
  shows "10000 * (i div 10000 mod 10) + 1000 * (i div 1000 mod 10) + 100 * (i div 100 mod 10) +
    10 * (i div 10 mod 10) + i mod 10 = (i :: nat)"
proof -
  define a b c d where "a = i div 10" "b = a div 10" "c = b div 10" "d = c div 10"
  have e: "i div 100 = b" "i div 1000 = c" "i div 10000 = d"
    by (simp_all add: a_b_c_d_def div_mult2_eq [symmetric])
  have "i = 10 * a + i mod 10" "a = 10 * b + a mod 10" "b = 10 * c + b mod 10" "c = 10 * d + c mod 10"
    by (simp_all add: a_b_c_d_def)
  moreover have "d < 10" using assms e(3) by auto
  ultimately show ?thesis unfolding e a_b_c_d_def(1) [symmetric] by simp
qed

lemma mod10: "(m :: nat) mod 10 \<le> 9"
  using mod_less_divisor [of 10 m] by linarith

lemma fmt_value:
  assumes "i < 100000"
  shows "dec_from 0 (fmt_05d i) = i"
proof -
  have "dec_from 0 [dec_digit a, dec_digit b, dec_digit c, dec_digit d, dec_digit e] =
      10000 * a + 1000 * b + 100 * c + 10 * d + e"
    if "a < 10" "b < 10" "c < 10" "d < 10" "e < 10" for a b c d e
    using that by (simp add: dec_from_def of_char_dec_digit)
  then show ?thesis using digits_value [OF assms] by (simp add: fmt_05d_def)
qed

lemma fmt_digits: "list_all is_digit (fmt_05d i)"
  by (simp add: fmt_05d_def is_digit_def of_char_dec_digit mod10)

text \<open>
  The five digits of a leaf number read back as that number by the decimal reader of the module
  loader, so two leaves never share a file.
\<close>

theorem leaf_number_roundtrip:
  assumes "i < 100000"
  shows "cvtStrToDec (fmt_05d i) = Some (word_of_nat i) \<and> length (fmt_05d i) = 5"
proof -
  have l: "length (fmt_05d i) = 5" by (simp add: fmt_05d_def)
  then have "fmt_05d i \<noteq> []" by auto
  then show ?thesis
    using cvt_loop_dec [of "fmt_05d i" 0] fmt_value [OF assms] fmt_digits [of i] l
    by (simp add: cvtStrToDec_def)
qed

lemma leaf_file_inj:
  assumes "length path < 0x40" "i < 0xFFF0" "j < 0xFFF0" "leaf_file path i = leaf_file path j"
  shows "i = j"
proof -
  have l: "length (fmt_05d i) = 5" for i by (simp add: fmt_05d_def)
  have v: "dec_from 0 (fmt_05d i) = i" if "i < 0xFFF0" for i using fmt_value [of i] that by simp
  have f: "leaf_file path n = path @ ''/leaf'' @ fmt_05d n @ ''.bin''" for n
    using assms(1) l [of n] by (simp add: leaf_file_def snprintf_def)
  from assms(4) have "fmt_05d i = fmt_05d j" unfolding f by (simp only: append_same_eq same_append_eq)
  then have "dec_from 0 (fmt_05d i) = dec_from 0 (fmt_05d j)" by (rule arg_cong)
  then show ?thesis unfolding v [OF assms(2)] v [OF assms(3)] .
qed

section \<open>The choice of a drive\<close>

text \<open>The nested tests of the visible id dumper choose as the chains of the other dumpers do.\<close>

lemma vid_drive_first:
  "case vid_drive IO k of (res, dir, k') \<Rightarrow>
     first_drive IO [''host0:'', ''sd0:'', ''ux0:''] k = (if failed res then None else Some dir, k')"
  by (auto simp: vid_drive_def snprintf_def Let_def split: prod.splits)

end
