(* ===== verification/Layout_Vfs.thy ===== *)
theory Layout_Vfs
  imports C_Layout
begin

text \<open>
  The structures of the two \<open>vfs.h\<close> headers (\<open>src/kernel/SceVfsMountPoC\<close> and
  \<open>src/kernel/SceVfsMountPoC_old\<close>), member by member.  The work area of a light-weight mutex is a
  type of the SDK and a parameter.
\<close>

section \<open>SceVfsMountPoC: vfs.h\<close>

definition SceVfsPath_layout :: "ctype" where
  "SceVfsPath_layout = Struct [
    (''name'', Ptr), (''name_len'', Int32), (''path'', Ptr)]"

definition SceVfsopSetRootArgs_layout :: "ctype" where
  "SceVfsopSetRootArgs_layout = Struct [
    (''pMount'', Ptr), (''data_0x04'', Int32), (''pNode'', Ptr)]"

definition SceVfsDevctl_layout :: "ctype" where
  "SceVfsDevctl_layout = Struct [
    (''unk_0x00'', Ptr), (''dev'', Ptr), (''cmd'', Int32), (''indata'', Ptr), (''inlen'', Int32),
    (''outdata'', Ptr), (''outlen'', Int32)]"

definition SceVfsTable_layout :: "ctype" where
  "SceVfsTable_layout = Struct [
    (''func00'', Ptr), (''func04'', Ptr), (''vfs_set_root'', Ptr), (''func0C'', Ptr),
    (''func10'', Ptr), (''func14'', Ptr), (''func18'', Ptr), (''func1C'', Ptr),
    (''func20'', Ptr), (''func24'', Ptr), (''func28'', Ptr), (''vfs_devctl'', Ptr),
    (''func30'', Ptr)]"

definition SceVfsOpen_layout :: "ctype" where
  "SceVfsOpen_layout = Struct [
    (''node'', Ptr), (''file_info'', Ptr), (''flags'', Int32), (''pVfsFileObject'', Ptr)]"

definition SceVopCreateArgs_layout :: "ctype" where
  "SceVopCreateArgs_layout = Struct [
    (''pNode'', Ptr), (''ppNewNode'', Ptr), (''file_info'', Ptr), (''flags'', Int32),
    (''mode'', Int32)]"

definition SceVfsClose_layout :: "ctype" where
  "SceVfsClose_layout = Struct [
    (''node'', Ptr), (''pVfsFileObject'', Ptr)]"

definition SceVopPartPath_layout :: "ctype" where
  "SceVopPartPath_layout = Struct [
    (''name'', Ptr), (''msg'', Ptr), (''path'', Ptr), (''name2'', Ptr)]"

definition SceVfsPartInit_layout :: "ctype" where
  "SceVfsPartInit_layout = Struct [
    (''node'', Ptr), (''new_node'', Ptr), (''path_info'', Ptr), (''flags'', Int32)]"

definition SceVfsPartDeinit_layout :: "ctype" where
  "SceVfsPartDeinit_layout = Struct [
    (''node'', Ptr), (''node2'', Ptr), (''file_info'', Ptr), (''flags'', Int32)]"

definition SceVfsRead_layout :: "ctype" where
  "SceVfsRead_layout = Struct [
    (''node'', Ptr), (''pVfsFileObject'', Ptr), (''data'', Ptr), (''nbyte'', Int32)]"

definition SceVfsWrite_layout :: "ctype" where
  "SceVfsWrite_layout = Struct [
    (''node'', Ptr), (''pVfsFileObject'', Ptr), (''data'', Ptr), (''nbyte'', Int32)]"

definition SceVfsDopen_layout :: "ctype" where
  "SceVfsDopen_layout = Struct [
    (''node'', Ptr), (''file_info'', Ptr), (''pVfsFileObject'', Ptr)]"

definition SceVfsDclose_layout :: "ctype" where
  "SceVfsDclose_layout = Struct [
    (''node'', Ptr), (''pVfsFileObject'', Ptr)]"

definition SceVfsDread_layout :: "ctype" where
  "SceVfsDread_layout = Struct [
    (''node'', Ptr), (''pVfsFileObject'', Ptr), (''dir'', Ptr)]"

definition SceVfsStat_layout :: "ctype" where
  "SceVfsStat_layout = Struct [
    (''node'', Ptr), (''file_info'', Ptr), (''stat'', Ptr)]"

definition SceVfsStatByFd_layout :: "ctype" where
  "SceVfsStatByFd_layout = Struct [
    (''node'', Ptr), (''pVfsFileObject'', Ptr), (''stat'', Ptr)]"

definition SceVopInactiveArgs_layout :: "ctype" where
  "SceVopInactiveArgs_layout = Struct [
    (''node'', Ptr)]"

definition SceVopLseekArgs_layout :: "ctype" where
  "SceVopLseekArgs_layout = Struct [
    (''node'', Ptr), (''pVfsFileObject'', Ptr), (''offset'', Int64), (''where'', Int32)]"

definition SceVopIoctlArgs_layout :: "ctype" where
  "SceVopIoctlArgs_layout = Struct [
    (''node'', Ptr), (''pVfsFileObject'', Ptr), (''cmd'', Int32), (''indata'', Ptr),
    (''inlen'', Int32), (''outdata'', Ptr), (''outlen'', Int32)]"

definition SceVopMkdirArgs_layout :: "ctype" where
  "SceVopMkdirArgs_layout = Struct [
    (''node'', Ptr), (''pNewNode'', Ptr), (''file_info'', Ptr), (''mode'', Int32)]"

definition SceVopRmdirArgs_layout :: "ctype" where
  "SceVopRmdirArgs_layout = Struct [
    (''node'', Ptr), (''node2'', Ptr), (''file_info'', Ptr)]"

definition SceVopChstatArgs_layout :: "ctype" where
  "SceVopChstatArgs_layout = Struct [
    (''node'', Ptr), (''file_info'', Ptr), (''stat'', Ptr), (''bit'', Int32)]"

definition SceVopChstatByFdArgs_layout :: "ctype" where
  "SceVopChstatByFdArgs_layout = Struct [
    (''pNode'', Ptr), (''pVfsFileObject'', Ptr), (''stat'', Ptr), (''bit'', Int32)]"

definition SceVopSyncArgs_layout :: "ctype" where
  "SceVopSyncArgs_layout = Struct [
    (''node'', Ptr), (''pVfsFileObject'', Ptr), (''flags'', Int32)]"

definition SceVopRenameArgs_layout :: "ctype" where
  "SceVopRenameArgs_layout = Struct [
    (''node'', Ptr), (''node2'', Ptr), (''file_info_old'', Ptr), (''node3'', Ptr),
    (''ppNewNode'', Ptr), (''file_info_new'', Ptr)]"

definition SceVopPreadArgs_layout :: "ctype" where
  "SceVopPreadArgs_layout = Struct [
    (''node'', Ptr), (''pVfsFileObject'', Ptr), (''data'', Ptr), (''nbyte'', Int32),
    (''offset'', Int64)]"

definition SceVopPwriteArgs_layout :: "ctype" where
  "SceVopPwriteArgs_layout = Struct [
    (''node'', Ptr), (''pVfsFileObject'', Ptr), (''data'', Ptr), (''nbyte'', Int32),
    (''offset'', Int64)]"

definition SceVopTable_layout :: "ctype" where
  "SceVopTable_layout = Struct [
    (''vop_open'', Ptr), (''vop_create'', Ptr), (''vop_close'', Ptr), (''vop_lookup'', Ptr),
    (''vop_read'', Ptr), (''vop_write'', Ptr), (''vop_lseek'', Ptr), (''vop_ioctl'', Ptr),
    (''vop_remove'', Ptr), (''vop_mkdir'', Ptr), (''vop_rmdir'', Ptr), (''vop_dopen'', Ptr),
    (''vop_dclose'', Ptr), (''vop_dread'', Ptr), (''vop_get_stat'', Ptr), (''vop_chstat'', Ptr),
    (''vop_rename'', Ptr), (''func44'', Ptr), (''vop_pread'', Ptr), (''vop_pwrite'', Ptr),
    (''vop_inactive'', Ptr), (''func54'', Ptr), (''func58'', Ptr), (''vop_sync'', Ptr),
    (''vop_get_stat_by_fd'', Ptr), (''vop_chstat_by_fd'', Ptr), (''func68'', Ptr),
    (''func6C'', Ptr), (''func70'', Ptr)]"

definition SceVfsMountInfo_layout :: "ctype \<Rightarrow> ctype" where
  "SceVfsMountInfo_layout lw = Struct [
    (''lw_mtx'', lw), (''data_0x20'', Int32), (''data_0x24'', Int32), (''data_0x28'', Int32),
    (''data_0x2C'', Int32), (''data_0x30'', Int32), (''data_0x34'', Int32),
    (''data_0x38'', Int32), (''data_0x3C'', Int32), (''data_0x40'', Ptr), (''data_0x44'', Int32),
    (''data_0x48'', Int32), (''data_0x4C'', Int32), (''data_0x50'', Int32), (''pNodeTop'', Ptr),
    (''nNodes'', Int32), (''pVfsAddParam'', Ptr), (''data_0x60'', Int32), (''data_0x64'', Int32),
    (''data_0x68'', Int32), (''data_0x6C'', Int32), (''data_0x70'', Int32),
    (''data_0x74'', Int32), (''next'', Ptr), (''pVfsMount2'', Ptr),
    (''device'', (Array Int8 0x40)), (''data_0xC0'', Int32), (''data_0xC4'', Ptr),
    (''data_0xC8'', Ptr), (''prev'', Ptr), (''mutex_id'', Int32), (''cond_id'', Int32),
    (''data_0xD8'', Int32), (''data_0xDC'', Int32), (''data_0xE0'', Int32),
    (''data_0xE4'', Int32), (''data_0xE8'', Ptr), (''data_0xEC'', Ptr), (''data_0xF0'', Int32),
    (''data_0xF4'', Int32), (''data_0xF8'', Int32), (''data_0xFC'', Int32)]"

definition SceVfsNode_core_layout :: ctype where
  "SceVfsNode_core_layout = Struct [
    (''vop_table'', Ptr), (''unk_44'', Int32), (''dev_info'', Ptr), (''mount'', Ptr),
    (''prev_node'', Ptr), (''unk_54'', Ptr), (''some_counter_58'', Int32), (''vfs_table'', Ptr),
    (''unk_60'', Int32), (''unk_64'', Int32), (''unk_68'', Int32), (''pool_uid'', Int32),
    (''unk_70'', Ptr), (''unk_74'', Int32), (''unk_78'', Int32), (''unk_7C'', Int32),
    (''st_size'', Int64), (''st_attr'', Int32), (''unk_8C'', Int32), (''pVfsFileObject'', Ptr),
    (''maybe_internal_obj_count_94'', Int32), (''child_node'', Ptr), (''unk_9C'', Int32),
    (''data2'', (Array Int8 0x30)), (''unk_D0'', Int32), (''unk_D4'', Int32)]"

definition SceVfsNode_layout :: "ctype" where
  "SceVfsNode_layout = Struct [
    (''unk_0'', Int32), (''tid_4'', Int32), (''some_counter_8'', Int32),
    (''event_flag_SceVfsVnode'', Int32), (''evid_bits'', Int32), (''unk_14'', Int32),
    (''unk_18'', Int32), (''unk_1C'', Int32), (''data1'', (Array Int8 0x20)),
    (''core'', SceVfsNode_core_layout), (''data3'', (Array Int8 0x28))]"

definition SceVfsFileObject_layout :: "ctype" where
  "SceVfsFileObject_layout = Struct [
    (''is_dir_handler'', Int32), (''flags'', Int32), (''offset'', Int64), (''flags2'', Int32),
    (''pid'', Int32), (''node'', Ptr), (''prev_obj'', Ptr), (''device_handle'', Ptr),
    (''unk24'', Int16), (''unk26'', Int8), (''unk27'', Int8), (''fd_lock_ptr'', Ptr),
    (''devMinor'', Int32), (''file_info'', Ptr), (''unk34'', (Array Int8 12))]"

definition SceUIDVfsFileObject_layout :: "ctype" where
  "SceUIDVfsFileObject_layout = Struct [
    (''userdata'', Ptr), (''sce_class'', Ptr), (''vfs_object'', SceVfsFileObject_layout)]"

definition SceVfsAddParam_layout :: "ctype" where
  "SceVfsAddParam_layout = Struct [
    (''pVfsTable'', Ptr), (''device'', Ptr), (''data_0x08'', Int32), (''is_mounted'', Int32),
    (''data_0x10'', Int32), (''pVopTable'', Ptr), (''data_0x18'', Int32), (''prev'', Ptr)]"

definition SceVfsMount2_layout :: "ctype" where
  "SceVfsMount2_layout = Struct [
    (''unit'', Ptr), (''device1'', Ptr), (''device2'', Ptr), (''device3'', Ptr),
    (''data_0x10'', Int32)]"

definition SceVfsMountParam_layout :: "ctype" where
  "SceVfsMountParam_layout = Struct [
    (''device'', Ptr), (''data_0x04'', Int32), (''data_0x08'', Int32), (''data_0x0C'', Int32),
    (''data_0x10'', Ptr), (''data_0x14'', Int32), (''pVfsMount2'', Ptr), (''data_0x1C'', Int32)]"

definition SceVfsUmountParam_layout :: "ctype" where
  "SceVfsUmountParam_layout = Struct [
    (''device'', Ptr), (''data_0x04'', Int32)]"

text \<open>The sizes that the header gives in comments.\<close>

definition vfs_sizes :: "ctype \<Rightarrow> (string \<times> ctype \<times> nat) list" where
  "vfs_sizes lw =
    [(''SceVfsPath'', SceVfsPath_layout, 0xC),
     (''SceVfsopSetRootArgs'', SceVfsopSetRootArgs_layout, 0xC),
     (''SceVfsTable'', SceVfsTable_layout, 0x34),
     (''SceVfsOpen'', SceVfsOpen_layout, 0xC),
     (''SceVopCreateArgs'', SceVopCreateArgs_layout, 0x14),
     (''SceVfsClose'', SceVfsClose_layout, 0x8),
     (''SceVopPartPath'', SceVopPartPath_layout, 0x10),
     (''SceVfsPartInit'', SceVfsPartInit_layout, 0x10),
     (''SceVfsPartDeinit'', SceVfsPartDeinit_layout, 0x10),
     (''SceVfsRead'', SceVfsRead_layout, 0x10),
     (''SceVfsWrite'', SceVfsWrite_layout, 0x10),
     (''SceVfsDopen'', SceVfsDopen_layout, 0xC),
     (''SceVfsDclose'', SceVfsDclose_layout, 0x8),
     (''SceVfsDread'', SceVfsDread_layout, 0xC),
     (''SceVfsStat'', SceVfsStat_layout, 0xC),
     (''SceVfsStatByFd'', SceVfsStatByFd_layout, 0xC),
     (''SceVopInactiveArgs'', SceVopInactiveArgs_layout, 0x4),
     (''SceVopLseekArgs'', SceVopLseekArgs_layout, 0x14),
     (''SceVopIoctlArgs'', SceVopIoctlArgs_layout, 0x1C),
     (''SceVopMkdirArgs'', SceVopMkdirArgs_layout, 0x10),
     (''SceVopRmdirArgs'', SceVopRmdirArgs_layout, 0xC),
     (''SceVopChstatArgs'', SceVopChstatArgs_layout, 0x10),
     (''SceVopChstatByFdArgs'', SceVopChstatByFdArgs_layout, 0x10),
     (''SceVopSyncArgs'', SceVopSyncArgs_layout, 0xC),
     (''SceVopRenameArgs'', SceVopRenameArgs_layout, 0x18),
     (''SceVopPreadArgs'', SceVopPreadArgs_layout, 0x18),
     (''SceVopPwriteArgs'', SceVopPwriteArgs_layout, 0x18),
     (''SceVopTable'', SceVopTable_layout, 0x74),
     (''SceVfsMountInfo'', SceVfsMountInfo_layout lw, 0x100),
     (''SceVfsNode'', SceVfsNode_layout, 0x100),
     (''SceVfsFileObject'', SceVfsFileObject_layout, 0x40),
     (''SceVfsAddParam'', SceVfsAddParam_layout, 0x20),
     (''SceVfsMount2'', SceVfsMount2_layout, 0x14),
     (''SceVfsMountParam'', SceVfsMountParam_layout, 0x20)]"

section \<open>SceVfsMountPoC_old: vfs.h\<close>

definition old_SceVfsNode_layout :: "ctype" where
  "old_SceVfsNode_layout = Struct [
    (''unk_0'', Int32), (''tid_4'', Int32), (''some_counter_8'', Int32),
    (''event_flag_SceVfsVnode'', Int32), (''evid_bits'', Int32), (''unk_14'', Int32),
    (''unk_18'', Int32), (''unk_1C'', Int32), (''data1'', (Array Int8 0x20)), (''ops'', Ptr),
    (''unk_44'', Int32), (''dev_info'', Ptr), (''mount'', Ptr), (''prev_node'', Ptr),
    (''unk_54'', Ptr), (''some_counter_58'', Int32), (''unk_5C'', Ptr), (''unk_60'', Int32),
    (''unk_64'', Int32), (''unk_68'', Int32), (''pool_uid'', Int32), (''unk_70'', Ptr),
    (''unk_74'', Int32), (''unk_78'', Int32), (''unk_7C'', Int32), (''unk_80'', Int32),
    (''unk_84'', Int32), (''unk_88'', Int32), (''unk_8C'', Int32), (''obj_internal_90'', Ptr),
    (''maybe_internal_obj_count_94'', Int32), (''child_node'', Ptr), (''unk_9C'', Int32),
    (''data2'', (Array Int8 0x30)), (''unk_D0'', Int32), (''data3'', (Array Int8 0x2C))]"

definition old_SceVfsPath_layout :: "ctype" where
  "old_SceVfsPath_layout = Struct [
    (''path'', Ptr), (''path_len'', Int32), (''path2'', Ptr)]"

definition old_SceVfsPartInit_layout :: "ctype" where
  "old_SceVfsPartInit_layout = Struct [
    (''node'', Ptr), (''new_node'', Ptr), (''opt'', Ptr), (''flags'', Int32)]"

definition old_SceVfsDevctl_layout :: "ctype" where
  "old_SceVfsDevctl_layout = Struct [
    (''unk_0x00'', Ptr), (''dev'', Ptr), (''cmd'', Int32), (''indata'', Ptr), (''inlen'', Int32),
    (''outdata'', Ptr), (''outlen'', Int32)]"

definition old_SceVfsOpen_layout :: "ctype" where
  "old_SceVfsOpen_layout = Struct [
    (''node'', Ptr), (''path_info'', Ptr), (''flags'', Int32), (''opt'', Ptr),
    (''unk_0x10'', Int32)]"

definition old_SceVfsClose_layout :: "ctype" where
  "old_SceVfsClose_layout = Struct [
    (''node'', Ptr), (''objectBase'', Ptr)]"

definition old_SceVfsRead_layout :: "ctype" where
  "old_SceVfsRead_layout = Struct [
    (''node'', Ptr), (''data_0x04'', Int32), (''data'', Ptr), (''size'', Int32),
    (''data_0x10'', Int32)]"

definition old_SceVfsWrite_layout :: "ctype" where
  "old_SceVfsWrite_layout = Struct [
    (''node'', Ptr), (''objectBase'', Ptr), (''data'', Ptr), (''size'', Int32)]"

definition old_SceVfsDopen_layout :: "ctype" where
  "old_SceVfsDopen_layout = Struct [
    (''node'', Ptr), (''opts'', Ptr), (''objectBase'', Ptr)]"

definition old_SceVfsDclose_layout :: "ctype" where
  "old_SceVfsDclose_layout = Struct [
    (''node'', Ptr), (''objectBase'', Ptr)]"

definition old_SceVfsDread_layout :: "ctype" where
  "old_SceVfsDread_layout = Struct [
    (''vfs_node'', Ptr), (''data_0x04'', Ptr), (''dir'', Ptr)]"

definition old_SceVfsStat_layout :: "ctype" where
  "old_SceVfsStat_layout = Struct [
    (''node'', Ptr), (''opts'', Ptr), (''stat'', Ptr)]"

definition old_SceVfsStatByFd_layout :: "ctype" where
  "old_SceVfsStatByFd_layout = Struct [
    (''node'', Ptr), (''objectBase'', Ptr), (''stat'', Ptr)]"

text \<open>The sizes that the header gives in comments.\<close>

definition old_vfs_sizes :: "(string \<times> ctype \<times> nat) list" where
  "old_vfs_sizes =
    [(''SceVfsNode'', old_SceVfsNode_layout, 0x100),
     (''SceVfsPath'', old_SceVfsPath_layout, 0xC),
     (''SceVfsRead'', old_SceVfsRead_layout, 0x14),
     (''SceVfsDread'', old_SceVfsDread_layout, 0xC)]"

section \<open>Sizes and offsets\<close>

lemmas vfs_layouts =
  SceVfsPath_layout_def SceVfsopSetRootArgs_layout_def SceVfsDevctl_layout_def
  SceVfsTable_layout_def SceVfsOpen_layout_def SceVopCreateArgs_layout_def SceVfsClose_layout_def
  SceVopPartPath_layout_def SceVfsPartInit_layout_def SceVfsPartDeinit_layout_def
  SceVfsRead_layout_def SceVfsWrite_layout_def SceVfsDopen_layout_def SceVfsDclose_layout_def
  SceVfsDread_layout_def SceVfsStat_layout_def SceVfsStatByFd_layout_def
  SceVopInactiveArgs_layout_def SceVopLseekArgs_layout_def SceVopIoctlArgs_layout_def
  SceVopMkdirArgs_layout_def SceVopRmdirArgs_layout_def SceVopChstatArgs_layout_def
  SceVopChstatByFdArgs_layout_def SceVopSyncArgs_layout_def SceVopRenameArgs_layout_def
  SceVopPreadArgs_layout_def SceVopPwriteArgs_layout_def SceVopTable_layout_def
  SceVfsMountInfo_layout_def SceVfsNode_core_layout_def SceVfsNode_layout_def
  SceVfsFileObject_layout_def SceUIDVfsFileObject_layout_def SceVfsAddParam_layout_def
  SceVfsMount2_layout_def SceVfsMountParam_layout_def SceVfsUmountParam_layout_def
  old_SceVfsNode_layout_def old_SceVfsPath_layout_def old_SceVfsPartInit_layout_def
  old_SceVfsDevctl_layout_def old_SceVfsOpen_layout_def old_SceVfsClose_layout_def
  old_SceVfsRead_layout_def old_SceVfsWrite_layout_def old_SceVfsDopen_layout_def
  old_SceVfsDclose_layout_def old_SceVfsDread_layout_def old_SceVfsStat_layout_def
  old_SceVfsStatByFd_layout_def

lemma mount_size:
  assumes "csize lw = 0x20"
  shows "csize (SceVfsMountInfo_layout lw) = 0x100"
proof -
  have "calign lw = 1 \<or> calign lw = 2 \<or> calign lw = 4 \<or> calign lw = 8"
    using calign_values [of lw] by simp
  then show ?thesis using assms
    by (elim disjE) (simp_all add: SceVfsMountInfo_layout_def align_up_def)
qed

lemma vfs_sizes_wrong:
  "csize lw = 0x20 \<Longrightarrow>
   wrong_sizes (vfs_sizes lw) = [(''SceVfsOpen'', 0x10), (''SceVopLseekArgs'', 0x18)]"
  using mount_size [of lw] by (simp add: vfs_sizes_def) (simp add: vfs_layouts align_up_def)

lemma vfs_notes:
  "wrong_sizes old_vfs_sizes = []" "misnamed 0 SceVfsTable_layout = []"
  "misnamed 0 SceVopTable_layout = []" "misnamed 0 SceVfsNode_layout = []"
  "offset_of SceVfsNode_layout ''core'' = 0x40" "misnamed 0x40 SceVfsNode_core_layout = []"
  "misnamed 0 old_SceVfsNode_layout = []"
  by code_simp+



end
