(* ===== verification/Layout_Cert.thy ===== *)
theory Layout_Cert
  imports C_Layout
begin

text \<open>
  The certificates of the id storage and the arguments of the security coprocessor
  (\<open>src/kernel/idstorage_verifier/src/cert.h\<close> and \<open>kirk.h\<close>), member by member.
\<close>

section \<open>cert.h\<close>

definition ECDSA160_signature_layout :: "ctype" where
  "ECDSA160_signature_layout = Struct [
    (''r'', (Array Int8 0x14)), (''s'', (Array Int8 0x14))]"

definition ECDSA224_signature_layout :: "ctype" where
  "ECDSA224_signature_layout = Struct [
    (''r'', (Array Int8 0x1C)), (''s'', (Array Int8 0x1C))]"

definition ids_cert_main_psp_layout :: "ctype" where
  "ids_cert_main_psp_layout = Struct [
    (''data'', (Array Int8 0x10)), (''pub_key'', (Array Int8 0x28)),
    (''signature'', ECDSA160_signature_layout), (''constant_pub_key'', (Array Int8 0x28)),
    (''enc_priv_key'', (Array Int8 0x20))]"

definition ids_cert_main_psp2_layout :: "ctype" where
  "ids_cert_main_psp2_layout = Struct [
    (''data'', (Array Int8 0x10)), (''pub_key'', (Array Int8 0x38)),
    (''signature'', ECDSA224_signature_layout), (''constant_pub_key'', (Array Int8 0x38)),
    (''enc_priv_key'', (Array Int8 0x20))]"

definition ids_cert_psp_layout :: "ctype" where
  "ids_cert_psp_layout = Struct [
    (''cert_data'', ids_cert_main_psp_layout), (''aes_cmac'', (Array Int8 0x10))]"

definition ids_cert_ps3_layout :: "ctype" where
  "ids_cert_ps3_layout = Struct [
    (''cert_data'', ids_cert_main_psp_layout), (''enc_aes_cmac'', (Array Int8 0x10))]"

definition ids_cert_psp2_layout :: "ctype" where
  "ids_cert_psp2_layout = Struct [
    (''cert_data'', ids_cert_main_psp2_layout), (''enc_aes_cmac'', (Array Int8 0x10))]"

definition enc_ids_cert_ps3_layout :: "ctype" where
  "enc_ids_cert_ps3_layout = Struct [
    (''plain_cert'', ids_cert_ps3_layout), (''padding'', (Array Int8 0x10))]"

definition ids_certified_leaves_psp_layout :: "ctype" where
  "ids_certified_leaves_psp_layout = Struct [
    (''unk_0'', (Array Int8 0x38)), (''psp_certs'', (Array ids_cert_psp_layout 6))]"

definition ids_certified_leaves_psp2_layout :: "ctype" where
  "ids_certified_leaves_psp2_layout = Struct [
    (''ps3_certs'', (Array ids_cert_ps3_layout 12)),
    (''psp2_certs'', (Array ids_cert_psp2_layout 6))]"

definition ids_certified_leaves_ps3_layout :: "ctype" where
  "ids_certified_leaves_ps3_layout = Struct [
    (''enc_ps3_certs'', (Array enc_ids_cert_ps3_layout 11))]"

definition SceIdStoragePspCertificates_layout :: "ctype" where
  "SceIdStoragePspCertificates_layout = Struct [
    (''unk_0x00'', (Array Int8 0x38)), (''ids'', (Array ids_cert_psp_layout 6)),
    (''unk_488'', (Array Int32 2)), (''unk_0x490'', (Array Int8 0x20)),
    (''unk_0x4A0'', (Array Int32 0x54)), (''unk_0x600'', (Array Int8 0x1E0)),
    (''unk_0x7E0'', (Array Int8 0x20)), (''unk_0x800'', (Array Int8 0x200)),
    (''unk_0xA00'', (Array Int8 0x200)), (''unk_0xC00'', (Array Int8 0x200)),
    (''unk_0xE00'', (Array Int8 0x200))]"

definition SceIdStoragePsp2Certificates_layout :: "ctype" where
  "SceIdStoragePsp2Certificates_layout = Struct [
    (''ps3'', (Array ids_cert_ps3_layout 6)), (''psp'', (Array ids_cert_ps3_layout 6)),
    (''psp2'', (Array ids_cert_psp2_layout 6)), (''unk_0xE10'', (Array Int8 0x1F0))]"

text \<open>The sizes that the header gives in comments.\<close>

definition cert_sizes :: "(string \<times> ctype \<times> nat) list" where
  "cert_sizes =
    [(''ECDSA160_signature'', ECDSA160_signature_layout, 0x28),
     (''ECDSA224_signature'', ECDSA224_signature_layout, 0x38),
     (''ids_cert_main_psp'', ids_cert_main_psp_layout, 0xA8),
     (''ids_cert_main_psp2'', ids_cert_main_psp2_layout, 0xD8),
     (''ids_cert_psp'', ids_cert_psp_layout, 0xB8),
     (''ids_cert_ps3'', ids_cert_ps3_layout, 0xB8),
     (''ids_cert_psp2'', ids_cert_psp2_layout, 0xE8),
     (''enc_ids_cert_ps3'', enc_ids_cert_ps3_layout, 0xC0),
     (''ids_certified_leaves_psp'', ids_certified_leaves_psp_layout, 0x488),
     (''SceIdStoragePsp2Certificates'', SceIdStoragePsp2Certificates_layout, 0x1000)]"

section \<open>kirk.h\<close>

definition SceKirk_0x15_input_layout :: "ctype" where
  "SceKirk_0x15_input_layout = Struct [
    (''scalar'', (Array Int8 0x1C)), (''x'', (Array Int8 0x1C)), (''y'', (Array Int8 0x1C))]"

definition SceKirk_0x15_output_layout :: "ctype" where
  "SceKirk_0x15_output_layout = Struct [
    (''x'', (Array Int8 0x1C)), (''y'', (Array Int8 0x1C))]"

definition SceKirk_0x18_input_layout :: "ctype" where
  "SceKirk_0x18_input_layout = Struct [
    (''x'', (Array Int8 0x1C)), (''y'', (Array Int8 0x1C)), (''hash'', (Array Int8 0x1C)),
    (''r'', (Array Int8 0x1C)), (''s'', (Array Int8 0x1C))]"

definition SceSblSmCommGcData_layout :: "ctype" where
  "SceSblSmCommGcData_layout = Struct [
    (''unk_0'', Int32), (''command'', Int32), (''data'', (Array Int8 0x800)),
    (''key_id'', Int32), (''size'', Int32), (''unk_810'', Int32)]"

text \<open>The sizes that the header gives in comments.\<close>

definition kirk_sizes :: "(string \<times> ctype \<times> nat) list" where
  "kirk_sizes =
    [(''SceSblSmCommGcData'', SceSblSmCommGcData_layout, 0x814)]"

section \<open>Sizes and offsets\<close>

lemmas cert_layouts =
  ECDSA160_signature_layout_def ECDSA224_signature_layout_def ids_cert_main_psp_layout_def
  ids_cert_main_psp2_layout_def ids_cert_psp_layout_def ids_cert_ps3_layout_def
  ids_cert_psp2_layout_def enc_ids_cert_ps3_layout_def ids_certified_leaves_psp_layout_def
  ids_certified_leaves_psp2_layout_def ids_certified_leaves_ps3_layout_def
  SceIdStoragePspCertificates_layout_def SceIdStoragePsp2Certificates_layout_def
  SceKirk_0x15_input_layout_def SceKirk_0x15_output_layout_def SceKirk_0x18_input_layout_def
  SceSblSmCommGcData_layout_def

lemma cert_sizes_wrong:
  "wrong_sizes (cert_sizes @ kirk_sizes) = [(''enc_ids_cert_ps3'', 0xC8)]"
  by (simp add: cert_sizes_def kirk_sizes_def) (simp add: cert_layouts align_up_def)

lemma leaves_sizes:
  "csize SceIdStoragePspCertificates_layout = 0x1000"
  "csize SceIdStoragePsp2Certificates_layout = 0x1000"
  by (simp_all add: cert_layouts align_up_def)

lemma psp_leaf_layout: "members SceIdStoragePspCertificates_layout 0 =
    [(''unk_0x00'', 0), (''ids'', 0x38), (''unk_488'', 0x488), (''unk_0x490'', 0x490),
     (''unk_0x4A0'', 0x4B0), (''unk_0x600'', 0x600), (''unk_0x7E0'', 0x7E0), (''unk_0x800'', 0x800),
     (''unk_0xA00'', 0xA00), (''unk_0xC00'', 0xC00), (''unk_0xE00'', 0xE00)]"
  by (simp add: cert_layouts align_up_def)

lemma psp2_leaf_layout: "members SceIdStoragePsp2Certificates_layout 0 =
    [(''ps3'', 0), (''psp'', 0x450), (''psp2'', 0x8A0), (''unk_0xE10'', 0xE10)]"
  by (simp add: cert_layouts align_up_def)

lemma leaf_names:
  "misnamed 0 SceIdStoragePspCertificates_layout = [''unk_0x4A0'']"
  "misnamed 0 SceIdStoragePsp2Certificates_layout = []"
  unfolding misnamed_def psp_leaf_layout psp2_leaf_layout by code_simp+

text \<open>
  Of the sizes that the headers of the certificates give in comments, only that of an encrypted
  certificate of the PS3 is wrong (0xC8 bytes and not 0xC0); the block of certificates that is read
  from leaf 0x40 fills its eight leaves, and in the block of leaf 0 one member, \<open>unk_0x4A0\<close>,
  stands at another offset than its name gives.
\<close>

theorem cert_header_notes:
  "wrong_sizes (cert_sizes @ kirk_sizes) = [(''enc_ids_cert_ps3'', 0xC8)] \<and>
   csize SceIdStoragePspCertificates_layout = 0x1000 \<and>
   csize SceIdStoragePsp2Certificates_layout = 0x1000 \<and>
   misnamed 0 SceIdStoragePspCertificates_layout = [''unk_0x4A0''] \<and>
   offset_of SceIdStoragePspCertificates_layout ''unk_0x4A0'' = 0x4B0 \<and>
   misnamed 0 SceIdStoragePsp2Certificates_layout = [] \<and>
   offset_of SceIdStoragePsp2Certificates_layout ''psp2'' = 0x8A0"
  using cert_sizes_wrong leaves_sizes leaf_names
  by (simp add: offset_of_def psp_leaf_layout psp2_leaf_layout)

end
