(* ===== verification/Sample_Memory.thy ===== *)
theory Sample_Memory
  imports Sample_Tools Ttbr_Tables Loader_Props Malloc_Test Dump_Tools Layout_Vfs Layout_Cert
begin

text \<open>
  Concrete systems for the table parser, the module loader, the allocator tests and the dumpers, and
  their properties applied to them.
\<close>

section \<open>The table parser\<close>

text \<open>The first megabyte is mapped to the dump, everything else faults.\<close>

definition M0 :: tzs where
  "M0 = \<lparr>pTzs = [0x11, 0x22, 0x33, 0x44], pTTBR0 = 0x40000002 # replicate 0xFFF 0,
     pTTBR1 = replicate 0x1000 0\<rparr>"

lemma M0_ok: "tzs_ok M0"
  by (simp add: tzs_ok_def M0_def)

lemma M0_translate: "va < 2^20 \<Longrightarrow> arm_translate M0 va = Some (0x40000000 + va)"
  by (simp add: arm_translate_def M0_def table_for_def page_base_def)


lemma collect_total: "(\<And>x. x \<in> set xs \<Longrightarrow> f x \<noteq> None) \<Longrightarrow> \<exists>ls. collect f xs = Some ls"
  by (auto simp: collect_Some)

lemma M0_entries:
  assumes "i \<in> set [0..<0x1000]"
  shows "entry_lines M0 (pTTBR0 M0) i \<noteq> None"
proof -
  have i: "i < 0x1000" using assms by simp
  have "entry_at (pTTBR0 M0) (word_of_nat i) = Some (pTTBR0 M0 ! i)"
    using entry_read [OF M0_ok i, of 0] by (simp add: table_for_def)
  moreover have "pTTBR0 M0 ! i = (if i = 0 then 0x40000002 else 0)"
    using i by (cases i) (simp_all add: M0_def)
  ultimately show ?thesis by (simp add: entry_lines_def)
qed


section \<open>The module loader\<close>

text \<open>
  The state is the number of blocks that were handed out and the inputs that are to come; addresses
  are handed out in order, a hundred of them.
\<close>

type_synonym lk = "nat \<times> u8 list list"

definition LE0 :: "lk loader_env" where
  "LE0 = \<lparr>le_open = \<lambda>k path. (3, k), le_close = \<lambda>k fd. k,
     le_malloc = \<lambda>k sz. if fst k < 100 then (word_of_nat (Suc (fst k)), (Suc (fst k), snd k)) else (NULL, k),
     le_free = \<lambda>k p. k, le_dopen = \<lambda>k d. (-1, k), le_dread = \<lambda>k dd. (0, [], k), le_dclose = \<lambda>k dd. k,
     le_load = \<lambda>k path. (7, k),
     le_stdin = \<lambda>k n. case snd k of [] \<Rightarrow> (-1, [], k) | d # ds \<Rightarrow> (word_of_nat (length d), d, (fst k, ds)),
     le_search = \<lambda>k m. (1, k)\<rparr>"

definition live0 :: "lk \<Rightarrow> addr set" where
  "live0 k = {p. 0 < unat p \<and> unat p \<le> fst k}"

lemma LE0_contract: "loader_contract LE0 live0"
proof -
  have u: "unat (word_of_nat (Suc n) :: addr) = Suc n" if "n < 100" for n
    using that by (simp only: unsigned_of_nat) (simp add: take_bit_nat_eq_self_iff)
  have nz: "(word_of_nat (Suc n) :: addr) \<noteq> NULL" if "n < 100" for n using u [OF that] by auto
  have l: "{p. 0 < unat p \<and> unat p \<le> Suc n} =
      insert (word_of_nat (Suc n) :: addr) {p. 0 < unat p \<and> unat p \<le> n}" if "n < 100" for n
    using u [OF that] by (auto simp: le_Suc_eq word_unat_eq_iff)
  show ?thesis
    unfolding loader_contract_def
    by (intro conjI allI impI)
      (auto simp: LE0_def live0_def u nz l simp del: of_nat_Suc split: if_splits list.splits)
qed

definition L0 :: "lk loader" where
  "L0 = \<lparr>mp_heap = Map.empty, mp_strs = Map.empty, module_num = 0, pModuleLoadParamTree = NULL,
     ld_k = (0, [])\<rparr>"

theorem loader_invariant_witness:
  "\<exists>ps xs. chain (param_next (snd (load_module_add_path LE0 (Some ''a'') L0)))
      (pModuleLoadParamTree (snd (load_module_add_path LE0 (Some ''a'') L0))) ps \<and> distinct ps \<and>
    map (param_path (snd (load_module_add_path LE0 (Some ''a'') L0))) ps = map Some xs"
proof -
  let ?s = "snd (load_module_add_path LE0 (Some ''a'') L0)"
  have "loader_initial L0" by (simp add: loader_initial_def L0_def)
  moreover have "loader_reach LE0 L0 ?s"
    by (rule loader_reach.path [OF loader_reach.start]) (rule prod.collapse [symmetric])
  ultimately show ?thesis using loader_invariant [OF LE0_contract, of L0 ?s] by blast
qed

text \<open>Two modules are registered, and the line \<open>exit\<close> is to be read.\<close>

definition L2 :: "lk loader" where
  "L2 = \<lparr>mp_heap = [1 \<mapsto> \<lparr>mp_next = NULL, mp_path = 2, mp_path_length = 2, mp_modid = -1, mp_number = 0\<rparr>,
                    3 \<mapsto> \<lparr>mp_next = 1, mp_path = 4, mp_path_length = 2, mp_modid = -1, mp_number = 1\<rparr>],
     mp_strs = [2 \<mapsto> ''a'', 4 \<mapsto> ''b''], module_num = 2, pModuleLoadParamTree = 3,
     ld_k = (4, [[0x65, 0x78, 0x69, 0x74, 0x0A]])\<rparr>"

lemma L2_registry: "registry live0 L2 [3, 1] [''b'', ''a'']"
  by (auto simp: registry_def L2_def param_next_def param_path_def param_number_def live0_def
      split: if_splits)

lemma LE0_console: "console LE0 snd"
  by (auto simp: console_def LE0_def)

theorem load_by_number_loads_witness:
  "\<exists>s'. tty_command LE0 ''load_by_number 0'' L2 = Some (False, s') \<and>
     map_option mp_modid (mp_heap s' 1) = Some 7"
proof -
  have d: "dec_from 0 ''0'' = 0" "list_all is_digit ''0''" by (simp_all add: dec_from_def is_digit_def)
  have l: "le_load LE0 (ld_k L2) x = (7, ld_k L2)" for x by (simp add: LE0_def)
  show ?thesis using load_by_number_loads [OF LE0_contract L2_registry, of "''0''"] d l by auto
qed

theorem tty_ends_at_exit_witness:
  "\<exists>s'. tty_in_thread LE0 L2 = Some (0, s') \<and> snd (ld_k s') = []"
proof -
  let ?e = "[0x65, 0x78, 0x69, 0x74, 0x0A] :: u8 list"
  have e: "starts (line_of ?e) ''exit''"
    by (simp add: line_of_def buf_string_def starts_def chars_of_def char_of_def bit_iff_odd)
  have p: "snd (ld_k L2) = [] @ ?e # []" by (simp add: L2_def)
  show ?thesis using tty_ends_at_exit [OF LE0_contract LE0_console L2_registry p _ _ _ e] by auto
qed

section \<open>The allocator tests\<close>

text \<open>A heap hands out one address after the other and remembers what is allocated.\<close>

type_synonym hk = "nat \<times> (heap_id \<times> addr) set"

definition h_alloc :: "heap_id \<Rightarrow> hk \<Rightarrow> addr \<times> hk" where
  "h_alloc h k = (let p = word_of_nat (fst k) in
     if p = NULL \<or> (h, p) \<in> snd k then (NULL, k) else (p, (Suc (fst k), insert (h, p) (snd k))))"

definition h_free :: "heap_id \<Rightarrow> hk \<Rightarrow> addr \<Rightarrow> hk" where
  "h_free h k p = (if p = NULL then k else (fst k, snd k - {(h, p)}))"

definition ME0 :: "hk malloc_env" where
  "ME0 = \<lparr>kt_search = \<lambda>k m. (1, k), kt_offset = \<lambda>k m seg off. (1, k), kt_export = \<lambda>k m lib nid. (0, k),
     kt_alloc = \<lambda>k len. h_alloc Sysmem k, kt_alloc_opt = \<lambda>k len al. h_alloc Sysmem k, kt_free = h_free Sysmem,
     kt_heap_alloc = \<lambda>k h len. h_alloc Heap_1000B k, kt_heap_alloc_opt = \<lambda>k h len al. h_alloc Heap_1000B k,
     kt_heap_free = \<lambda>k h. h_free Heap_1000B k,
     kt_netps_malloc = \<lambda>k len fl al. h_alloc Net_ps k, kt_netps_free = h_free Net_ps\<rparr>"

lemma h_ok: "alloc_ok snd h (\<lambda>k q. h_alloc h k)" "free_ok snd h (h_free h)"
  by (auto simp: alloc_ok_def free_ok_def h_alloc_def h_free_def Let_def split: if_splits)

lemma ME0_contract: "malloc_contract ME0 snd"
proof -
  have s: "(\<lambda>k (len, align). h_alloc h k) = (\<lambda>k (q :: AllocFreeTestParam). h_alloc h k)" for h
    by (simp add: fun_eq_iff)
  show ?thesis unfolding malloc_contract_def by (simp add: ME0_def h_ok s)
qed

theorem malloc_tests_balance_witness:
  "\<exists>r k'. malloc_module_start ME0 (replicate (length allocFreeTestParam) 5, (1, {})) =
     (True, r, k') \<and> snd k' = {} \<and> r = replicate (length allocFreeTestParam) NULL"
proof -
  let ?p = "replicate (length allocFreeTestParam) 5 :: addr list"
  have "fst (malloc_module_start ME0 (?p, (1, {})))"
    by (simp add: malloc_module_start_def get_netps_function_def get_sysmem_function_def ME0_def Let_def)
  then show ?thesis
    using malloc_tests_balance [OF ME0_contract, of ?p "(1, {})"]
    by (cases "malloc_module_start ME0 (?p, (1, {}))") auto
qed

section \<open>The dumpers\<close>

definition N0 :: "u8 list" where
  "N0 = replicate 0xB60 0xFF"

definition NE0 :: "file_table nvs_env" where
  "NE0 = \<lparr>nvs_io = IO0, nvs_alloc = \<lambda>k n. (1, k), nvs_free = \<lambda>k p. k,
     nvs_read = \<lambda>k off n. (0, take 0x20 (drop (unat off) N0), k)\<rparr>"

theorem nvs_dump_blocks_witness:
  "\<exists>buf k'. nvs_loop NE0 0x400 (replicate 0xB60 0) Map.empty = (buf, k') \<and> length buf = 0xB60 \<and>
     take 0x400 buf = replicate 0x400 0"
proof -
  have "nvs_contract NE0 N0" by (simp add: nvs_contract_def NE0_def N0_def)
  from nvs_dump_blocks [OF this, of 0 Map.empty] show ?thesis
    by (cases "nvs_loop NE0 0x400 (replicate 0xB60 0) Map.empty") auto
qed

theorem leaf_number_roundtrip_witness:
  "cvtStrToDec (fmt_05d 65519) = Some 65519"
  using leaf_number_roundtrip [of 65519] by simp

end
