(* ===== verification/Zlib_Sample.thy ===== *)
theory Zlib_Sample
  imports Dump_Tools
begin

text \<open>
  The compression sample (\<open>src/kernel/SceZlibSample/src/main.c\<close>): a file is fed to the deflate function
  of the kernel block by block and the result is written to the first drive that can be found.

  The compressor and its stream are a parameter: \<open>z_deflate k input flush\<close> is one call with the
  input as \<open>next_in\<close> and \<open>avail_in\<close>.
\<close>

section \<open>Parameters\<close>

record 'k zlib_env =
  z_io :: "'k sce_io"
  z_export :: "'k \<Rightarrow> string \<Rightarrow> u32 \<Rightarrow> u32 \<Rightarrow> 'k"
  z_create_heap :: "'k \<Rightarrow> SceSize \<Rightarrow> u32 \<Rightarrow> s32 \<times> 'k"
  z_delete_heap :: "'k \<Rightarrow> s32 \<Rightarrow> 'k"
  z_heap_alloc :: "'k \<Rightarrow> s32 \<Rightarrow> SceSize \<Rightarrow> addr \<times> 'k"
  z_heap_free :: "'k \<Rightarrow> s32 \<Rightarrow> addr \<Rightarrow> 'k"
  z_alloc_memblk :: "'k \<Rightarrow> SceSize \<Rightarrow> s32 \<times> 'k"
  z_free_memblk :: "'k \<Rightarrow> s32 \<Rightarrow> 'k"
  z_init :: "'k \<Rightarrow> s32 \<times> 'k"
  z_set_output :: "'k \<Rightarrow> SceSize \<Rightarrow> 'k"
  z_deflate :: "'k \<Rightarrow> u8 list \<Rightarrow> s32 \<Rightarrow> s32 \<times> 'k"
  z_end :: "'k \<Rightarrow> s32 \<times> 'k"
  z_total_out :: "'k \<Rightarrow> SceSize"
  z_output :: "'k \<Rightarrow> u8 list"
  z_fstat :: "'k \<Rightarrow> s32 \<Rightarrow> s32 \<times> SceOff \<times> 'k"

text \<open>The functions that the compressor calls for its own memory; the product may wrap.\<close>

definition my_zlib_alloc :: "'k zlib_env \<Rightarrow> s32 \<Rightarrow> u32 \<Rightarrow> SceSize \<Rightarrow> 'k \<Rightarrow> addr \<times> 'k" where
  "my_zlib_alloc E heapid num sz k = z_heap_alloc E k heapid (num * sz)"

definition my_zlib_free :: "'k zlib_env \<Rightarrow> s32 \<Rightarrow> addr \<Rightarrow> 'k \<Rightarrow> 'k" where
  "my_zlib_free E heapid p k = z_heap_free E k heapid p"

definition zlib_write_file ::
    "'k sce_io \<Rightarrow> string \<Rightarrow> u8 list option \<Rightarrow> SceSize \<Rightarrow> 'k \<Rightarrow> s32 \<times> 'k" where
  "zlib_write_file = nvs_write_file"

section \<open>The pieces that both tests share\<close>

definition get_exports :: "'k zlib_env \<Rightarrow> 'k \<Rightarrow> 'k" where
  "get_exports E k =
     fold (\<lambda>nid k. z_export E k ''SceSblPostSsMgr'' 0xE241534E nid)
       [0x25F28DA7, 0x20A122F8, 0x5492B3F2, 0x5B718E55] k"

text \<open>The output goes to a drive when there is one; \<open>SCE_ZLIB_OUTPUT_GZIP\<close> is 1.\<close>

definition write_output :: "'k zlib_env \<Rightarrow> 'k \<Rightarrow> 'k" where
  "write_output E k =
     (let IO = z_io E;
          ext = snprintf 8 ''gzip'';
          (drv, k) = first_drive IO [''host0:'', ''uma0:'', ''sd0:'', ''ux0:''] k in
      case drv of None \<Rightarrow> k
      | Some drv \<Rightarrow>
        let path = snprintf 0x40 (drv @ ''/zlib_sample_output.'' @ ext)
        in snd (zlib_write_file IO path (Some (z_output E k)) (z_total_out E k) k))"

section \<open>A message\<close>

text \<open>
  \<open>zlib_buf\<close> holds a message and zeros, and is fed three times; \<open>msg\<close> is the message.
\<close>

definition zlib_test :: "'k zlib_env \<Rightarrow> string \<Rightarrow> 'k \<Rightarrow> s32 \<times> 'k" where
  "zlib_test E msg k =
     (let k = get_exports E k;
          (heapid, k) = z_create_heap E k 0x2000 0x1020D006 in
      if failed heapid then (-1, k)
      else
        let (_, k) = z_init E k;
            zlib_buf = overwrite 0 (bytes_of (snprintf 0x2000 msg)) (replicate 0x2000 0);
            k = z_set_output E k 0x10000;
            (_, k) = z_deflate E k (take 0x1900 zlib_buf) 0;
            (_, k) = z_deflate E k (take 0x1800 zlib_buf) 0;
            (res, k) = z_deflate E k (take 0x100 zlib_buf) 4;
            k = (if res = 1 then write_output E k else k);
            (_, k) = z_end E k
        in (0, z_delete_heap E k heapid))"

section \<open>A file\<close>

text \<open>
  The loop that feeds the file: \<open>file_size\<close> counts down what is left, and the block that makes it 0
  is fed with the flag 4 (finish).
\<close>

partial_function (option) feed_loop ::
    "'k zlib_env \<Rightarrow> s32 \<Rightarrow> u32 \<Rightarrow> s32 \<Rightarrow> 'k \<Rightarrow> (s32 \<times> 'k) option" where
  "feed_loop E fd file_size zlib_res k =
     (let (res, buf, k) = sce_read (z_io E) fd 0x10000 (replicate 0x10000 0) k in
      if 0 <s res then
        let file_size = file_size - res;
            (zlib_res, k) = z_deflate E k (take (unat res) buf) (if file_size \<noteq> 0 then 0 else 4) in
        if zlib_res = 0 then feed_loop E fd file_size zlib_res k else Some (zlib_res, k)
      else Some (zlib_res, k))"

definition zlib_test_file :: "'k zlib_env \<Rightarrow> 'k \<Rightarrow> (s32 \<times> 'k) option" where
  "zlib_test_file E k =
     (let IO = z_io E;
          k = get_exports E k;
          (heapid, k) = z_create_heap E k 0x2000 0x10F0D006 in
      if failed heapid then Some (-1, k)
      else
      let (memid, k) = z_alloc_memblk E k 0x800000 in
      if failed memid then Some (0, z_delete_heap E k heapid)
      else
      let (_, k) = z_init E k;
          k = z_set_output E k 0x800000;
          (fd, k) = io_open IO k ''sd0:os0.bin'' (SCE_O_RDONLY IO) 0 in
      if failed fd then Some (0, z_delete_heap E (z_free_memblk E k memid) heapid)
      else
      let (res, st_size, k) = z_fstat E k fd in
      do {
        (zlib_res, k) \<leftarrow> (if failed res then Some (-1, k)
                        else feed_loop E fd (ucast st_size) (-1) k);
        let (_, k) = io_close IO k fd;
            k = (if zlib_res = 1 then write_output E k else k);
            (_, k) = z_end E k
        in Some (0, z_delete_heap E (z_free_memblk E k memid) heapid)
      })"

definition zlib_module_start :: "'k zlib_env \<Rightarrow> 'k \<Rightarrow> (start_result \<times> 'k) option" where
  "zlib_module_start E k = do { (_, k) \<leftarrow> zlib_test_file E k; Some (START_NO_RESIDENT, k) }"

section \<open>The loop ends and feeds the whole file\<close>

text \<open>
  \<open>fed k\<close> are the inputs and flags of the calls so far.  A call adds itself and does not touch the
  files, a read does not touch the compressor, and the end of the stream (1) is reported only to a
  call that asks for it.
\<close>

definition zlib_contract ::
    "'k zlib_env \<Rightarrow> 'k view \<Rightarrow> ('k \<Rightarrow> (u8 list \<times> s32) list) \<Rightarrow> bool" where
  "zlib_contract E view fed \<longleftrightarrow> io_contract (z_io E) view \<and>
     (\<forall>k input flush r k'. z_deflate E k input flush = (r, k') \<longrightarrow>
        fed k' = fed k @ [(input, flush)] \<and> view k' = view k \<and> (r = 1 \<longrightarrow> flush = 4)) \<and>
     (\<forall>k fd n. fed (snd (snd (io_read (z_io E) k fd n))) = fed k)"

lemma sgt_zero: "0 <s (r :: s32) \<longleftrightarrow> \<not> failed r \<and> r \<noteq> 0"
proof -
  have "sint r = 0 \<longleftrightarrow> r = 0" by (metis signed_0 signed_word_eqI)
  then show ?thesis by (auto simp: failed_def word_sless_alt)
qed

text \<open>
  \<open>fed_ok rest cs\<close>: the inputs of the calls \<open>cs\<close> are one after another the next bytes of \<open>rest\<close>, none
  of them empty, and the flag is 4 for the one that takes the last byte and 0 for the others.
\<close>

fun fed_ok :: "u8 list \<Rightarrow> (u8 list \<times> s32) list \<Rightarrow> bool" where
  "fed_ok rest [] \<longleftrightarrow> True"
| "fed_ok rest ((b, f) # cs) \<longleftrightarrow>
     b \<noteq> [] \<and> take (length b) rest = b \<and> f = (if length b = length rest then 4 else 0) \<and>
     fed_ok (drop (length b) rest) cs"

lemma feed_loop_feeds:
  assumes C: "zlib_contract E view fed"
  shows "view k fd = Some (bs, pos) \<Longrightarrow> n = length (drop pos bs) \<Longrightarrow> n < 2^31 \<Longrightarrow>
    \<exists>zres' k' cs. feed_loop E fd (word_of_nat n) zres k = Some (zres', k') \<and>
      fed k' = fed k @ cs \<and> fed_ok (drop pos bs) cs \<and>
      (zres' = 1 \<longrightarrow> zres = 1 \<or> concat (map fst cs) = drop pos bs)"
proof (induction n arbitrary: k pos zres rule: less_induct)
  case (less n)
  have io: "io_contract (z_io E) view" using C by (simp add: zlib_contract_def)
  obtain r data k1 where rd: "io_read (z_io E) k fd 0x10000 = (r, data, k1)"
    by (cases "io_read (z_io E) k fd 0x10000") auto
  have "fed (snd (snd (io_read (z_io E) k fd 0x10000))) = fed k" using C by (simp add: zlib_contract_def)
  then have f1: "fed k1 = fed k" by (simp add: rd)
  have sr: "sce_read (z_io E) fd 0x10000 (replicate 0x10000 0) k =
      (r, overwrite 0 data (replicate 0x10000 0), k1)" by (simp add: sce_read_def rd)
  show ?case
  proof (cases "0 <s r")
    case False
    then have "feed_loop E fd (word_of_nat n) zres k = Some (zres, k1)"
      by (subst feed_loop.simps) (simp add: sr)
    then show ?thesis using f1 by (intro exI [of _ zres] exI [of _ k1] exI [of _ "[]"]) simp
  next
    case True
    then have ok: "\<not> failed r" "r \<noteq> 0" by (simp_all add: sgt_zero)
    from io less.prems(1) rd ok obtain
      d: "unat r = length data" "data = take (length data) (drop pos bs)"
        "view k1 = (view k)(fd \<mapsto> (bs, pos + length data))"
      by (cases rule: io_readE [where n = "0x10000"]) auto
    let ?m = "length data" and ?rest = "drop pos bs"
    have m: "0 < ?m" "?m \<le> n"
    proof -
      have "unat r \<noteq> 0" using ok(2) by (simp add: unat_eq_0)
      then show "0 < ?m" using d(1) by simp
      show "?m \<le> n" unfolding less.prems(2) using d(2) by (metis length_take min.absorb_iff2)
    qed
    have tk: "take (unat r) (overwrite 0 data (replicate 0x10000 0)) = data"
      by (simp add: overwrite_def d(1))
    have "word_of_nat (unat r) = r" by simp
    then have r: "r = word_of_nat ?m" unfolding d(1) by (rule sym)
    have fs: "word_of_nat n - r = (word_of_nat (n - ?m) :: u32)" using r m(2) by (simp add: of_nat_diff)
    have nz: "(word_of_nat (n - ?m) :: u32) \<noteq> 0 \<longleftrightarrow> ?m \<noteq> length ?rest"
    proof -
      have "n - ?m < 2^32" using less.prems(3) by simp
      then have "unat (word_of_nat (n - ?m) :: u32) = n - ?m"
        by (simp add: unsigned_of_nat take_bit_nat_eq_self_iff)
      then have "(word_of_nat (n - ?m) :: u32) = 0 \<longleftrightarrow> n - ?m = 0" by (metis unat_eq_0)
      then show ?thesis using m(2) less.prems(2) by auto
    qed
    define fl :: s32 where "fl = (if ?m \<noteq> length ?rest then 0 else 4)"
    obtain zr k2 where z: "z_deflate E k1 data fl = (zr, k2)" by (cases "z_deflate E k1 data fl")
    have zc: "fed k2 = fed k @ [(data, fl)]" "view k2 = view k1" "zr = 1 \<longrightarrow> fl = 4"
      using C z f1 unfolding zlib_contract_def by auto
    have step: "feed_loop E fd (word_of_nat n) zres k =
        (if zr = 0 then feed_loop E fd (word_of_nat (n - ?m)) zr k2 else Some (zr, k2))"
      using True z nz by (subst feed_loop.simps) (simp add: sr tk fs fl_def)
    have ok1: "fed_ok ?rest ((data, fl) # cs) \<longleftrightarrow> fed_ok (drop (pos + ?m) bs) cs" for cs
      using m(1) d(2) by (auto simp: fl_def add.commute)
    show ?thesis
    proof (cases "zr = 0")
      case zr: True
      have v: "view k2 fd = Some (bs, pos + ?m)" using zc(2) d(3) by simp
      have n': "n - ?m = length (drop (pos + ?m) bs)" "n - ?m < n" "n - ?m < 2^31"
        using less.prems(2,3) m by (simp, linarith, linarith)
      obtain zres' k' cs where IH: "feed_loop E fd (word_of_nat (n - ?m)) zr k2 = Some (zres', k')"
        "fed k' = fed k2 @ cs" "fed_ok (drop (pos + ?m) bs) cs"
        "zres' = 1 \<longrightarrow> zr = 1 \<or> concat (map fst cs) = drop (pos + ?m) bs"
        using less.IH [OF n'(2) v n'(1,3)] by blast
      have "drop (pos + ?m) bs = drop ?m ?rest" by (simp add: add.commute)
      then have "concat (map fst cs) = drop (pos + ?m) bs \<Longrightarrow> data @ concat (map fst cs) = ?rest"
        using d(2) by (metis append_take_drop_id)
      then show ?thesis using IH zr step zc(1) ok1 [of cs]
        by (intro exI [of _ zres'] exI [of _ k'] exI [of _ "(data, fl) # cs"]) simp
    next
      case False
      have "zr = 1 \<longrightarrow> data = ?rest"
      proof
        assume "zr = 1"
        then have "?m = length ?rest" using zc(3) by (simp add: fl_def split: if_splits)
        then show "data = ?rest" using d(2) by simp
      qed
      then show ?thesis using False step zc(1) ok1 [of "[]"]
        by (intro exI [of _ zr] exI [of _ k2] exI [of _ "[(data, fl)]"]) simp
    qed
  qed
qed

text \<open>
  C32: the loop that compresses a file always returns.  Its calls are fed the bytes of the file one
  after another from the start, the last byte and only it with the flag that finishes the stream, and
  the result 1, on which the output is written, means that the whole file was fed.
\<close>

theorem zlib_feeds_file:
  assumes "zlib_contract E view fed" "view k fd = Some (bs, 0)" "length bs < 2^31"
  shows "\<exists>zres k' cs. feed_loop E fd (word_of_nat (length bs)) (-1) k = Some (zres, k') \<and>
    fed k' = fed k @ cs \<and> fed_ok bs cs \<and> (zres = 1 \<longrightarrow> concat (map fst cs) = bs)"
proof -
  obtain zres k' cs where r: "feed_loop E fd (word_of_nat (length bs)) (-1) k = Some (zres, k')"
    "fed k' = fed k @ cs" "fed_ok bs cs" "zres = 1 \<longrightarrow> (-1 :: s32) = 1 \<or> concat (map fst cs) = bs"
    using feed_loop_feeds [OF assms(1,2), of "length bs" "-1"] assms(3) by auto
  have "(-1 :: s32) \<noteq> 1" by simp
  then show ?thesis using r by blast
qed

end
