(* ===== verification/Cert_Verifier.thy ===== *)
theory Cert_Verifier
  imports Layout_Cert Sce_Io
begin

text \<open>
  The verifier of the certificates in the id storage (\<open>src/kernel/idstorage_verifier/src/main.c\<close>).  The
  secure module, AES, SHA-224 and the storage driver are parameters.  A certificate is its bytes, and
  its parts are taken at the offsets of the layout of \<open>cert.h\<close>.  \<open>None\<close> is a copy beyond an array.
\<close>

section \<open>Parameters\<close>

record SceSblSmCommGcData =
  gc_unk_0 :: u32
  gc_command :: u32
  gc_data :: "u8 list"
  gc_key_id :: u32
  gc_size :: u32
  gc_unk_810 :: u32

record 'k sm_env =
  sm_self_info :: "'k \<Rightarrow> s32 \<times> 'k"
  sm_start :: "'k \<Rightarrow> s32 \<times> s32 \<times> 'k"
  sm_call :: "'k \<Rightarrow> s32 \<Rightarrow> u32 \<Rightarrow> SceSblSmCommGcData \<Rightarrow> s32 \<times> s32 \<times> SceSblSmCommGcData \<times> 'k"
  sm_stop :: "'k \<Rightarrow> s32 \<Rightarrow> 'k"
  sm_aes_dec :: "'k \<Rightarrow> u8 list \<Rightarrow> u8 list \<Rightarrow> s32 \<times> u8 list \<times> 'k"
  sm_sha224 :: "u8 list \<Rightarrow> u8 list"
  sm_read_leaf :: "'k \<Rightarrow> u32 \<Rightarrow> s32 \<times> u8 list \<times> 'k"

definition Gx_224 :: "u8 list" where
  "Gx_224 =
    [0x7E, 0x06, 0x09, 0x82, 0x47, 0xE6, 0xB5, 0x9F, 0x31, 0x10, 0xBC, 0xBB, 0x3A, 0xB6, 0xC2, 0x50,
     0xBC, 0x5A, 0xB0, 0x6C, 0x03, 0x2D, 0xAD, 0x43, 0x68, 0x4C, 0x24, 0x8F]"

definition Gy_224 :: "u8 list" where
  "Gy_224 =
    [0x0B, 0xD9, 0x41, 0x8D, 0xE8, 0xE3, 0xE4, 0x5D, 0x2D, 0x70, 0x1E, 0x02, 0x37, 0xFD, 0x7F, 0x2A,
     0xDE, 0x0D, 0x48, 0xB7, 0x4C, 0xEE, 0xF2, 0xF1, 0xC8, 0xAC, 0x48, 0x4E]"

definition zeros :: "u8 list" where
  "zeros = replicate 0x10 0"

section \<open>Reading leaves\<close>

text \<open>
  \<open>for (i = 0; i < leaf_size; i++)\<close>, with the number of leaves that are left; each leaf is stored
  behind the one before.
\<close>

fun read_vector_loop ::
    "'k sm_env \<Rightarrow> u32 \<Rightarrow> nat \<Rightarrow> nat \<Rightarrow> u8 list \<Rightarrow> 'k \<Rightarrow> s32 \<times> u8 list \<times> 'k" where
  "read_vector_loop E leaf_start i 0 leaf_data k = (0, leaf_data, k)"
| "read_vector_loop E leaf_start i (Suc n) leaf_data k =
     (let (res, data, k) = sm_read_leaf E k (leaf_start + word_of_nat i);
          leaf_data = overwrite (0x200 * i) data leaf_data in
      if failed res then (res, leaf_data, k)
      else read_vector_loop E leaf_start (i + 1) n leaf_data k)"

definition idstorage_read_vector ::
    "'k sm_env \<Rightarrow> u32 \<Rightarrow> u8 list \<Rightarrow> u32 \<Rightarrow> 'k \<Rightarrow> s32 \<times> u8 list \<times> 'k" where
  "idstorage_read_vector E leaf_start leaf_data leaf_size k =
     read_vector_loop E leaf_start 0 (unat leaf_size) leaf_data k"

section \<open>The secure module\<close>

text \<open>
  \<open>result\<close> is the array of the caller, if there is one, and \<open>data0\<close> what the local array holds at
  first.  The result is the return value and the array.
\<close>

definition gcauthmgr_sm ::
    "'k sm_env \<Rightarrow> u8 list \<Rightarrow> u8 list option \<Rightarrow> u32 \<Rightarrow> u8 list \<Rightarrow> u32 \<Rightarrow> u32 \<Rightarrow> 'k \<Rightarrow>
     (s32 \<times> u8 list option \<times> 'k) option" where
  "gcauthmgr_sm E data0 result command data data_size key_id k =
     (let (res, k) = sm_self_info E k in
      if failed res then Some (res, result, k)
      else
      let (res, sm_id, k) = sm_start E k in
      if failed res then Some (res, result, k)
      else if 0x800 < unat data_size then None
      else
      let sm_arg = \<lparr>gc_unk_0 = 1, gc_command = command,
                    gc_data = overwrite 0 (take (unat data_size) data) data0,
                    gc_key_id = key_id, gc_size = data_size, gc_unk_810 = 0\<rparr>;
          (res, f00d_resp, sm_arg, k) = sm_call E k sm_id 0x1000B sm_arg;
          f00d_resp = (if failed res then res else f00d_resp) in
      do {
        result \<leftarrow> (case result of None \<Rightarrow> Some None
          | Some buf \<Rightarrow>
            if gc_command sm_arg = 0x15 then
              if unat (gc_size sm_arg) \<le> length buf \<and> unat (gc_size sm_arg) \<le> 0x800
              then Some (Some (overwrite 0 (take (unat (gc_size sm_arg)) (gc_data sm_arg)) buf))
              else None
            else Some (Some buf));
        Some (f00d_resp, result, sm_stop E k sm_id)
      })"

section \<open>The checks\<close>

definition cert_part :: "u8 list \<Rightarrow> string \<Rightarrow> nat \<Rightarrow> nat \<Rightarrow> u8 list" where
  "cert_part cert x off n = take n (drop (offset_of ids_cert_main_psp2_layout x + off) cert)"

text \<open>What is printed, besides error codes.\<close>

datatype verdict =
    Error_code s32
  | Pubkey_x_differs
  | Pubkey_y_differs
  | Private_key_fine
  | Signature_valid
  | Signature_invalid
  | Cmac_valid
  | Cmac_invalid

definition verify_ecdsa_priv_key ::
    "'k sm_env \<Rightarrow> u8 list \<Rightarrow> u8 list \<Rightarrow> u8 list \<Rightarrow> u8 list \<Rightarrow> 'k \<Rightarrow>
     (s32 \<times> verdict list \<times> u8 list \<times> 'k) option" where
  "verify_ecdsa_priv_key E data0 output0 key cert k =
     (let enc = cert_part cert ''enc_priv_key'' 0 0x20;
          (res, dec, k) = sm_aes_dec E k enc key;
          cert = overwrite (offset_of ids_cert_main_psp2_layout ''enc_priv_key'') dec cert in
      if failed res then Some (res, [Error_code res], cert, k)
      else
      let input = cert_part cert ''enc_priv_key'' 0 0x1C @ Gx_224 @ Gy_224 in
      do {
        (res, output, k) \<leftarrow> gcauthmgr_sm E data0 (Some output0) 0x15 input (0x1C * 3) 0 k;
        if failed res then Some (res, [Error_code res], cert, k)
        else
          let output = the output;
              x = (if cert_part cert ''pub_key'' 0 0x1C \<noteq> take 0x1C output then [Pubkey_x_differs] else []);
              y = (if cert_part cert ''pub_key'' 0x1C 0x1C \<noteq> take 0x1C (drop 0x1C output)
                   then [Pubkey_y_differs] else [])
          in Some (0, x @ y @ [Private_key_fine], cert, k)
      })"

definition verify_ecdsa_signature ::
    "'k sm_env \<Rightarrow> u8 list \<Rightarrow> u8 list \<Rightarrow> 'k \<Rightarrow> (s32 \<times> verdict list \<times> 'k) option" where
  "verify_ecdsa_signature E data0 cert k =
     (let input = cert_part cert ''constant_pub_key'' 0 0x1C @ cert_part cert ''constant_pub_key'' 0x1C 0x1C @
                  sm_sha224 E (take 0x48 cert) @
                  cert_part cert ''signature'' 0 0x1C @ cert_part cert ''signature'' 0x1C 0x1C in
      do {
        (res, _, k) \<leftarrow> gcauthmgr_sm E data0 None 0x18 input (word_of_nat (csize SceKirk_0x18_input_layout)) 0 k;
        if failed res then Some (res, [Error_code res], k)
        else Some (0, [if res = 0 then Signature_valid else Signature_invalid], k)
      })"

definition verify_cert_cmac ::
    "'k sm_env \<Rightarrow> u8 list \<Rightarrow> u8 list \<Rightarrow> 'k \<Rightarrow> (s32 \<times> verdict list \<times> 'k) option" where
  "verify_cert_cmac E data0 cert k =
     do {
       (res, _, k) \<leftarrow> gcauthmgr_sm E data0 None 0x19 cert (word_of_nat (csize ids_cert_psp2_layout)) 0 k;
       if failed res then Some (res, [Error_code res], k)
       else Some (0, [if res = 0 then Cmac_valid else Cmac_invalid], k)
     }"

text \<open>\<open>key\<close> is \<open>kirk_0x17_aes_key\<close>, which the user fills in.\<close>

definition verify_psp2_cert ::
    "'k sm_env \<Rightarrow> u8 list \<Rightarrow> u8 list \<Rightarrow> u8 list \<Rightarrow> u8 list \<Rightarrow> 'k \<Rightarrow>
     (s32 \<times> verdict list \<times> u8 list \<times> 'k) option" where
  "verify_psp2_cert E data0 output0 key cert k =
     do {
       (_, out1, k) \<leftarrow> verify_cert_cmac E data0 cert k;
       (out2, cert, k) \<leftarrow>
         (if key \<noteq> zeros
          then do { (_, out, cert, k) \<leftarrow> verify_ecdsa_priv_key E data0 output0 key cert k; Some (out, cert, k) }
          else Some ([], cert, k));
       (_, out3, k) \<leftarrow> verify_ecdsa_signature E data0 cert k;
       Some (0, out1 @ out2 @ out3, cert, k)
     }"

text \<open>The six certificates of the block; \<open>i\<close> of them are done.\<close>

definition psp2_cert_offset :: "nat \<Rightarrow> nat" where
  "psp2_cert_offset i =
     offset_of SceIdStoragePsp2Certificates_layout ''psp2'' + i * csize ids_cert_psp2_layout"

fun verify_certs ::
    "'k sm_env \<Rightarrow> u8 list \<Rightarrow> u8 list \<Rightarrow> u8 list \<Rightarrow> nat list \<Rightarrow> u8 list \<Rightarrow> 'k \<Rightarrow>
     (verdict list \<times> u8 list \<times> 'k) option" where
  "verify_certs E data0 output0 key [] certs k = Some ([], certs, k)"
| "verify_certs E data0 output0 key (i # is) certs k =
     do {
       (_, out, cert, k) \<leftarrow> verify_psp2_cert E data0 output0 key
         (take (csize ids_cert_psp2_layout) (drop (psp2_cert_offset i) certs)) k;
       (outs, certs, k) \<leftarrow> verify_certs E data0 output0 key is
         (overwrite (psp2_cert_offset i) cert certs) k;
       Some (out @ outs, certs, k)
     }"

definition cert_verify_entry ::
    "'k sm_env \<Rightarrow> u8 list \<Rightarrow> u8 list \<Rightarrow> u8 list \<Rightarrow> u8 list \<Rightarrow> u8 list \<Rightarrow> 'k \<Rightarrow>
     (s32 \<times> verdict list \<times> u8 list \<times> u8 list \<times> 'k) option" where
  "cert_verify_entry E data0 output0 key psp_cert psp2_cert k =
     (let (res, psp_cert, k) = idstorage_read_vector E 0 psp_cert 8 k;
          out1 = (if failed res then [Error_code res] else []);
          (res, psp2_cert, k) = idstorage_read_vector E 0x40 psp2_cert 8 k;
          out2 = (if failed res then [Error_code res] else []) in
      do {
        (outs, psp2_cert, k) \<leftarrow> verify_certs E data0 output0 key [0..<6] psp2_cert k;
        Some (0, out1 @ out2 @ outs, psp_cert, psp2_cert, k)
      })"

section \<open>The leaves in memory\<close>

text \<open>\<open>L\<close> gives the 0x200 bytes of a leaf.\<close>

definition leaf_contract :: "'k sm_env \<Rightarrow> (u32 \<Rightarrow> u8 list) \<Rightarrow> bool" where
  "leaf_contract E L \<longleftrightarrow> (\<forall>n. length (L n) = 0x200) \<and>
     (\<forall>k n. \<exists>r k'. sm_read_leaf E k n = (r, (if failed r then [] else L n), k'))"

lemma read_vector_loop_leaves:
  assumes C: "leaf_contract E L"
  shows "length buf = 0x200 * (i + n) \<Longrightarrow> \<exists>m r buf' k'.
    read_vector_loop E a i n buf k = (r, buf', k') \<and> m \<le> n \<and> (failed r \<longleftrightarrow> m < n) \<and>
    buf' = take (0x200 * i) buf @ concat (map (\<lambda>j. L (a + word_of_nat j)) [i..<i + m]) @
      drop (0x200 * (i + m)) buf"
proof (induction n arbitrary: i buf k)
  case 0
  then show ?case by (intro exI [of _ 0]) simp
next
  case (Suc n)
  obtain r k1 where rd: "sm_read_leaf E k (a + word_of_nat i) =
      (r, (if failed r then [] else L (a + word_of_nat i)), k1)"
    using C unfolding leaf_contract_def by blast
  show ?case
  proof (cases "failed r")
    case True
    then show ?thesis using rd Suc.prems
      by (intro exI [of _ 0] exI [of _ r] exI [of _ buf] exI [of _ k1]) simp
  next
    case False
    let ?l = "L (a + word_of_nat i)" and ?b = "overwrite (0x200 * i) (L (a + word_of_nat i)) buf"
    have l: "length ?l = 0x200" using C by (simp add: leaf_contract_def)
    have b: "?b = take (0x200 * i) buf @ ?l @ drop (0x200 * Suc i) buf"
      by (simp add: overwrite_def l add.commute)
    have lb: "length ?b = 0x200 * (Suc i + n)" using Suc.prems l by simp
    obtain m r' buf' k' where IH: "read_vector_loop E a (Suc i) n ?b k1 = (r', buf', k')" "m \<le> n"
      "failed r' \<longleftrightarrow> m < n"
      "buf' = take (0x200 * Suc i) ?b @ concat (map (\<lambda>j. L (a + word_of_nat j)) [Suc i..<Suc i + m]) @
        drop (0x200 * (Suc i + m)) ?b"
      using Suc.IH [OF lb] by blast
    have li: "length (take (0x200 * i) buf) = 0x200 * i" using Suc.prems by simp
    have t: "take (0x200 * Suc i) ?b = take (0x200 * i) buf @ ?l"
      unfolding b using li l by simp
    have d: "drop (0x200 * (Suc i + m)) ?b = drop (0x200 * (i + Suc m)) buf"
      unfolding b using li l by (simp add: algebra_simps)
    have u: "[i..<i + Suc m] = i # [Suc i..<Suc i + m]" by (simp add: upt_rec)
    have "buf' = take (0x200 * i) buf @ concat (map (\<lambda>j. L (a + word_of_nat j)) [i..<i + Suc m]) @
        drop (0x200 * (i + Suc m)) buf"
      unfolding IH(4) t d u by simp
    then show ?thesis using rd False IH(1-3)
      by (intro exI [of _ "Suc m"] exI [of _ r'] exI [of _ buf'] exI [of _ k']) simp
  qed
qed

lemma psp2_offsets:
  "psp2_cert_offset i = 0x8A0 + i * 0xE8" "csize ids_cert_psp2_layout = 0xE8"
proof -
  show "csize ids_cert_psp2_layout = 0xE8" by (simp add: cert_layouts align_up_def)
  then show "psp2_cert_offset i = 0x8A0 + i * 0xE8"
    by (simp add: psp2_cert_offset_def offset_of_def psp2_leaf_layout)
qed

text \<open>
  Reading a run of leaves puts them one behind the other into the buffer.  Without an error all
  of them are there; an error stops the run, is returned, and leaves the rest of the buffer as it was.
  The six certificates that are then checked lie inside the eight leaves, one behind the other.
\<close>

theorem idstorage_read_vector_leaves:
  assumes "leaf_contract E L" "length buf = 0x200 * unat n"
  shows "\<exists>m r buf' k'. idstorage_read_vector E a buf n k = (r, buf', k') \<and> m \<le> unat n \<and>
    (failed r \<longleftrightarrow> m < unat n) \<and>
    buf' = concat (map (\<lambda>j. L (a + word_of_nat j)) [0..<m]) @ drop (0x200 * m) buf \<and>
    psp2_cert_offset 5 + csize ids_cert_psp2_layout \<le> 0x200 * 8 \<and>
    psp2_cert_offset (Suc i) = psp2_cert_offset i + csize ids_cert_psp2_layout"
proof -
  obtain m r buf' k' where "read_vector_loop E a 0 (unat n) buf k = (r, buf', k')" "m \<le> unat n"
    "failed r \<longleftrightarrow> m < unat n"
    "buf' = take (0x200 * 0) buf @ concat (map (\<lambda>j. L (a + word_of_nat j)) [0..<0 + m]) @
      drop (0x200 * (0 + m)) buf"
    using read_vector_loop_leaves [OF assms(1), of buf 0 "unat n" a k] assms(2) by auto
  then show ?thesis
    by (intro exI [of _ m] exI [of _ r] exI [of _ buf'] exI [of _ k'])
      (simp add: idstorage_read_vector_def psp2_offsets)
qed

section \<open>The answer of the secure module\<close>

text \<open>What holds of every answer, given the argument that it answers.\<close>

definition sm_answers :: "'k sm_env \<Rightarrow> (SceSblSmCommGcData \<Rightarrow> SceSblSmCommGcData \<Rightarrow> bool) \<Rightarrow> bool" where
  "sm_answers E P \<longleftrightarrow> (\<forall>k id svc arg. P arg (fst (snd (snd (sm_call E k id svc arg)))))"

text \<open>The preparations of the call succeed.\<close>

definition sm_starts :: "'k sm_env \<Rightarrow> 'k \<Rightarrow> bool" where
  "sm_starts E k \<longleftrightarrow>
     (case sm_self_info E k of (res, k) \<Rightarrow> \<not> failed res \<and> \<not> failed (fst (sm_start E k)))"

lemma gcauthmgr_None:
  assumes "unat n \<le> 0x800" "length buf = 0x38"
  shows "sm_answers E (\<lambda>a a'. unat (gc_size a') \<le> 0x38) \<Longrightarrow> gcauthmgr_sm E d0 (Some buf) 0x15 data n key k \<noteq> None"
    and "sm_answers E (\<lambda>a a'. gc_command a' = gc_command a \<and> gc_size a' = gc_size a) \<Longrightarrow> 0x38 < unat n \<Longrightarrow>
      gcauthmgr_sm E d0 (Some buf) 0x15 data n key k = None \<longleftrightarrow> sm_starts E k"
proof -
  define arg where "arg = \<lparr>gc_unk_0 = 1, gc_command = 0x15,
    gc_data = overwrite 0 (take (unat n) data) d0, gc_key_id = key, gc_size = n, gc_unk_810 = 0\<rparr>"
  obtain r1 k1 where 1: "sm_self_info E k = (r1, k1)" by (cases "sm_self_info E k")
  obtain r2 id k2 where 2: "sm_start E k1 = (r2, id, k2)" by (cases "sm_start E k1") auto
  obtain r3 resp a' k3 where 3: "sm_call E k2 id 0x1000B arg = (r3, resp, a', k3)"
    by (cases "sm_call E k2 id 0x1000B arg") auto
  have P: "P arg a'" if "sm_answers E P" for P
    using that 3 unfolding sm_answers_def by (metis fst_conv snd_conv)
  note unf = gcauthmgr_sm_def Let_def 1 2 3 arg_def [symmetric] case_prod_conv option.case
  show "gcauthmgr_sm E d0 (Some buf) 0x15 data n key k \<noteq> None"
    if "sm_answers E (\<lambda>a a'. unat (gc_size a') \<le> 0x38)"
    using P [OF that] assms unfolding unf by simp
  show "gcauthmgr_sm E d0 (Some buf) 0x15 data n key k = None \<longleftrightarrow> sm_starts E k"
    if a: "sm_answers E (\<lambda>a a'. gc_command a' = gc_command a \<and> gc_size a' = gc_size a)" and n: "0x38 < unat n"
  proof -
    have "gc_command a' = 0x15" "gc_size a' = n" using P [OF a] by (simp_all add: arg_def)
    then show ?thesis using n assms unfolding unf by (simp add: sm_starts_def 1 2)
  qed
qed

text \<open>
  C33: the answer for the private key is copied with the size that comes back from the secure module
  into an array of 0x38 bytes.  When no answer is longer the check never faults; when the module
  leaves the size as it was sent (0x54) the check writes beyond the array whenever the call is
  reached.  And when the check returns 0 it has printed that the key is fine, whatever the comparison
  with the public key gave.
\<close>

theorem priv_key_answer_bound:
  assumes "length output0 = csize SceKirk_0x15_output_layout"
  shows "(sm_answers E (\<lambda>a a'. unat (gc_size a') \<le> 0x38) \<longrightarrow>
      verify_ecdsa_priv_key E data0 output0 key cert k \<noteq> None) \<and>
    (sm_answers E (\<lambda>a a'. gc_command a' = gc_command a \<and> gc_size a' = gc_size a) \<longrightarrow>
      (case sm_aes_dec E k (cert_part cert ''enc_priv_key'' 0 0x20) key of (res, dec, k1) \<Rightarrow>
        verify_ecdsa_priv_key E data0 output0 key cert k = None \<longleftrightarrow> \<not> failed res \<and> sm_starts E k1)) \<and>
    (verify_ecdsa_priv_key E data0 output0 key cert k = Some (0, out, cert', k') \<longrightarrow>
      out \<noteq> [] \<and> last out = Private_key_fine)"
proof -
  have l: "length output0 = 0x38" using assms by (simp add: cert_layouts align_up_def)
  obtain res dec k1 where d: "sm_aes_dec E k (cert_part cert ''enc_priv_key'' 0 0x20) key = (res, dec, k1)"
    by (cases "sm_aes_dec E k (cert_part cert ''enc_priv_key'' 0 0x20) key") auto
  have n: "unat (0x1C * 3 :: u32) = 0x54" by simp
  note unf = verify_ecdsa_priv_key_def Let_def d case_prod_conv
  have neq: "Option.bind x (\<lambda>(res, output, k). if failed res then Some (f res output k) else Some (g res output k))
      = None \<longleftrightarrow> x = None" for x :: "(s32 \<times> u8 list option \<times> 'a) option" and f g
    by (cases x) (auto simp: case_prod_unfold)
  show ?thesis
  proof (intro conjI impI)
    assume "sm_answers E (\<lambda>a a'. unat (gc_size a') \<le> 0x38)"
    note g = gcauthmgr_None(1) [OF _ l this, of "0x1C * 3", unfolded n, simplified]
    show "verify_ecdsa_priv_key E data0 output0 key cert k \<noteq> None"
      unfolding unf by (cases "failed res") (simp_all add: neq g)
  next
    assume "sm_answers E (\<lambda>a a'. gc_command a' = gc_command a \<and> gc_size a' = gc_size a)"
    note g = gcauthmgr_None(2) [OF _ l this, of "0x1C * 3", unfolded n, simplified]
    show "case sm_aes_dec E k (cert_part cert ''enc_priv_key'' 0 0x20) key of (res, dec, k1) \<Rightarrow>
        verify_ecdsa_priv_key E data0 output0 key cert k = None \<longleftrightarrow> \<not> failed res \<and> sm_starts E k1"
      unfolding unf by (cases "failed res") (simp_all add: neq g)
  next
    assume "verify_ecdsa_priv_key E data0 output0 key cert k = Some (0, out, cert', k')"
    then show "out \<noteq> []" "last out = Private_key_fine"
      unfolding unf by (auto simp: bind_eq_Some_conv split: if_splits)
  qed
qed

end
