(* ===== verification/Npdrm_Package.thy ===== *)
theory Npdrm_Package
  imports Sce_Io
begin

text \<open>
  The package lister (\<open>src/user/npdrm_package/src/main.c\<close>): the header of a package is checked, and for
  every item its record and its name are read, decrypted and printed.  The check and the decryption
  are parameters.  \<open>None\<close> is an access beyond an array.
\<close>

record 'k pkg_env =
  pk_io :: "'k sce_io"
  pk_check :: "'k \<Rightarrow> u8 list \<Rightarrow> u32 \<Rightarrow> s32 \<times> 'k"
  pk_decrypt :: "'k \<Rightarrow> u8 list \<Rightarrow> SceOff \<Rightarrow> u32 \<Rightarrow> s32 \<times> u8 list \<times> 'k"

text \<open>Big-endian members: \<open>__builtin_bswap32\<close> and \<open>__builtin_bswap64\<close> of the words as loaded.\<close>

definition be32_at :: "u8 list \<Rightarrow> nat \<Rightarrow> u32" where
  "be32_at bs off = word_of_nat (be_nat (take 4 (drop off bs)))"

definition be64_at :: "u8 list \<Rightarrow> nat \<Rightarrow> u64" where
  "be64_at bs off = word_of_nat (be_nat (take 8 (drop off bs)))"

definition SCE_NPDRM_PACKAGE_CHECK_SIZE :: SceSize where
  "SCE_NPDRM_PACKAGE_CHECK_SIZE = 0x8000"

text \<open>\<open>SCE_PKG_ITEM_SIZE\<close> is \<open>sizeof(ScePkgItemInfo)\<close>, 0x20; the members by their offsets.\<close>

record ScePkgItemInfo =
  pi_file_name_offset :: u32
  pi_file_name_len :: u32
  pi_data_offset :: u64
  pi_data_size :: u64
  pi_flags :: u32

definition pkg_item_info :: "u8 list \<Rightarrow> ScePkgItemInfo" where
  "pkg_item_info item =
     \<lparr>pi_file_name_offset = be32_at item 0, pi_file_name_len = be32_at item 4,
      pi_data_offset = be64_at item 8, pi_data_size = be64_at item 0x10, pi_flags = be32_at item 0x18\<rparr>"

text \<open>The record of item \<open>i\<close>; its position is computed in 32 bits.\<close>

definition pkg_read_item ::
    "'k pkg_env \<Rightarrow> s32 \<Rightarrow> SceOff \<Rightarrow> u32 \<Rightarrow> u8 list \<Rightarrow> 'k \<Rightarrow> s32 \<times> u8 list \<times> 'k" where
  "pkg_read_item E fd encrypted_data_offset i item k =
     (let IO = pk_io E;
          (_, k) = io_lseek IO k fd (encrypted_data_offset + ucast (0x20 * i)) (SCE_SEEK_SET IO);
          (_, item, k) = sce_read IO fd 0x20 item k
      in pk_decrypt E k item (ucast (0x20 * i)) 0x100)"

text \<open>The name goes to \<open>pkg_ent_name\<close>, an array of 0x80 bytes, with the length that the item gives.\<close>

definition pkg_read_name ::
    "'k pkg_env \<Rightarrow> s32 \<Rightarrow> SceOff \<Rightarrow> ScePkgItemInfo \<Rightarrow> 'k \<Rightarrow> (s32 \<times> u8 list \<times> 'k) option" where
  "pkg_read_name E fd encrypted_data_offset info k =
     (let IO = pk_io E;
          pkg_ent_name = replicate 0x80 0;
          file_name_len = pi_file_name_len info;
          (_, k) = io_lseek IO k fd (encrypted_data_offset + ucast (pi_file_name_offset info)) (SCE_SEEK_SET IO);
          (_, data, k) = io_read IO k fd file_name_len in
      if 0x80 < length data then None
      else
        let pkg_ent_name = overwrite 0 data pkg_ent_name in
        if 0x80 < unat file_name_len then None
        else
          let (res, dec, k) = pk_decrypt E k (take (unat file_name_len) pkg_ent_name)
                (ucast (pi_file_name_offset info)) 0x100
          in Some (res, overwrite 0 dec pkg_ent_name, k))"

definition pkg_item_type :: "u32 \<Rightarrow> string" where
  "pkg_item_type flags =
     (let t = flags AND 0x1F in
      if t = 3 then ''file''
      else if t = 4 then ''dir''
      else if t = 0xE then ''SELF''
      else if t = 0x11 then ''sce_pfs file''
      else if t = 0x12 then ''sce_pfs dir''
      else if t = 0x10 \<or> t = 0x13 \<or> t = 0x15 \<or> t = 0x16 \<or> t = 0x18 then ''sce_sys file''
      else ''unknown'')"

text \<open>
  The body of the loop.  The flag is set by \<open>break\<close>; printing a name without a terminator reads
  beyond the array.
\<close>

type_synonym pkg_line = "string \<times> u32 \<times> u64 \<times> u64 \<times> u8 list"

definition pkg_item ::
    "'k pkg_env \<Rightarrow> s32 \<Rightarrow> SceOff \<Rightarrow> u32 \<Rightarrow> u8 list \<Rightarrow> 'k \<Rightarrow>
     (bool \<times> pkg_line list \<times> u8 list \<times> 'k) option" where
  "pkg_item E fd encrypted_data_offset i item k =
     (let (res, item, k) = pkg_read_item E fd encrypted_data_offset i item k in
      if failed res then Some (True, [], item, k)
      else let info = pkg_item_info item in
      do {
        (res, name, k) \<leftarrow> pkg_read_name E fd encrypted_data_offset info k;
        if failed res then Some (True, [], item, k)
        else if 0 \<notin> set name then None
        else Some (False, [(pkg_item_type (pi_flags info), pi_flags info, pi_data_offset info,
               pi_data_size info, takeWhile (\<lambda>b. b \<noteq> 0) name)], item, k)
      })"

fun pkg_loop ::
    "'k pkg_env \<Rightarrow> s32 \<Rightarrow> SceOff \<Rightarrow> nat list \<Rightarrow> u8 list \<Rightarrow> 'k \<Rightarrow> (pkg_line list \<times> 'k) option" where
  "pkg_loop E fd off [] item k = Some ([], k)"
| "pkg_loop E fd off (i # is) item k =
     do {
       (stop, out, item, k) \<leftarrow> pkg_item E fd off (word_of_nat i) item k;
       if stop then Some (out, k)
       else do { (outs, k) \<leftarrow> pkg_loop E fd off is item k; Some (out @ outs, k) }
     }"

definition program_start ::
    "'k pkg_env \<Rightarrow> u8 list \<Rightarrow> u8 list \<Rightarrow> 'k \<Rightarrow> (s32 \<times> pkg_line list \<times> 'k) option" where
  "program_start E pkg_header item k =
     (let IO = pk_io E;
          (fd, k) = io_open IO k ''host0:package/JP0741-PCSG90096_00-BITTERSMILEJPNDM.pkg''
            (SCE_O_RDONLY IO) 0 in
      if failed fd then Some (fd, [], k)
      else
        let (_, pkg_header, k) = sce_read IO fd SCE_NPDRM_PACKAGE_CHECK_SIZE pkg_header k;
            (res, k) = pk_check E k pkg_header 0x100 in
        if failed res then Some (0, [], snd (io_close IO k fd))
        else
          let item_num = be32_at pkg_header 0x14;
              encrypted_data_offset = be64_at pkg_header 0x20 in
          do {
            (out, k) \<leftarrow> pkg_loop E fd encrypted_data_offset
              (if 0 <s item_num then [0..<unat item_num] else []) item k;
            Some (0, out, snd (io_close IO k fd))
          })"

section \<open>The length of a name\<close>


end
