(* ===== verification/Scheduler_Log.thy ===== *)
theory Scheduler_Log
  imports C_Layout
begin

text \<open>
  The log of the I/O scheduler (\<open>src/kernel/iofilemgr_scheduler_log/src/main.c\<close>): a hook on the function
  that executes I/O commands prints each command with its result.  The command is a packed structure
  whose arguments are a union of one structure per command.
\<close>

section \<open>The command\<close>

definition IoOpen_layout :: ctype where
  "IoOpen_layout = Struct [
    (''path'', Ptr), (''flags'', Int32), (''mode'', Int32)]"

definition IoClose_layout :: ctype where
  "IoClose_layout = Struct [
    (''fd'', Int32)]"

definition IoRead_layout :: ctype where
  "IoRead_layout = Struct [
    (''fd'', Int32), (''data'', Ptr), (''length'', Int32)]"

definition IoWrite_layout :: ctype where
  "IoWrite_layout = Struct [
    (''fd'', Int32), (''data'', Ptr), (''length'', Int32)]"

definition IoPread_layout :: ctype where
  "IoPread_layout = Struct [
    (''fd'', Int32), (''data'', Ptr), (''length'', Int32), (''unk_0x70'', Int32),
    (''unk_0x74'', Int32), (''offset'', Int64)]"

definition IoPwrite_layout :: ctype where
  "IoPwrite_layout = Struct [
    (''fd'', Int32), (''data'', Ptr), (''length'', Int32), (''unk_0x70'', Int32),
    (''unk_0x74'', Int32), (''offset'', Int64)]"

definition IoLseek_layout :: ctype where
  "IoLseek_layout = Struct [
    (''fd'', Int32), (''where'', Int32), (''pad_0x6C'', Int32), (''offset_lo'', Int32),
    (''offset_hi'', Int32)]"

definition IoLseek32_layout :: ctype where
  "IoLseek32_layout = Struct [
    (''fd'', Int32), (''where'', Int32), (''pad_0x6C'', Int32), (''offset'', Int32)]"

definition IoSync_layout :: ctype where
  "IoSync_layout = Struct [
    (''path'', Ptr), (''flags'', Int32)]"

definition IoSyncByFd_layout :: ctype where
  "IoSyncByFd_layout = Struct [
    (''fd'', Int32), (''flags'', Int32)]"

definition IoRemove_layout :: ctype where
  "IoRemove_layout = Struct [
    (''path'', Ptr)]"

definition IoMkdir_layout :: ctype where
  "IoMkdir_layout = Struct [
    (''path'', Ptr), (''mode'', Int32)]"

definition IoRmdir_layout :: ctype where
  "IoRmdir_layout = Struct [
    (''path'', Ptr)]"

definition IoRename_layout :: ctype where
  "IoRename_layout = Struct [
    (''old_path'', Ptr), (''new_path'', Ptr)]"

definition IoIoctl_layout :: ctype where
  "IoIoctl_layout = Struct [
    (''fd'', Int32), (''cmd'', Int32), (''indata'', Ptr), (''inlen'', Int32), (''outdata'', Ptr),
    (''outlen'', Int32)]"

definition IoDopen_layout :: ctype where
  "IoDopen_layout = Struct [
    (''path'', Ptr)]"

definition IoDclose_layout :: ctype where
  "IoDclose_layout = Struct [
    (''fd'', Int32)]"

definition IoDread_layout :: ctype where
  "IoDread_layout = Struct [
    (''fd'', Int32), (''dir'', Ptr)]"

definition IoChstat_layout :: ctype where
  "IoChstat_layout = Struct [
    (''path'', Ptr), (''stat'', Ptr), (''bit'', Int32)]"

definition IoChstatByFd_layout :: ctype where
  "IoChstatByFd_layout = Struct [
    (''fd'', Int32), (''stat'', Ptr), (''bit'', Int32)]"

definition IoStat_layout :: ctype where
  "IoStat_layout = Struct [
    (''path'', Ptr), (''stat'', Ptr)]"

definition IoStatByFd_layout :: ctype where
  "IoStatByFd_layout = Struct [
    (''fd'', Int32), (''stat'', Ptr)]"

definition IoDevctl_layout :: ctype where
  "IoDevctl_layout = Struct [
    (''dev'', Ptr), (''cmd'', Int32), (''indata'', Ptr), (''inlen'', Int32), (''outdata'', Ptr),
    (''outlen'', Int32)]"

definition IoRaw_layout :: ctype where
  "IoRaw_layout = Struct [
    (''unk_0x64'', Int32), (''unk_0x68'', Int32), (''unk_0x6C'', Int32), (''unk_0x70'', Int32),
    (''unk_0x74'', Int32), (''unk_0x78'', Int32), (''unk_0x7C'', Int32), (''unk_0x80'', Int32)]"

definition IoArgs_layout :: ctype where
  "IoArgs_layout = Union [
    (''Open'', IoOpen_layout), (''Close'', IoClose_layout), (''Read'', IoRead_layout),
    (''Write'', IoWrite_layout), (''Pread'', IoPread_layout), (''Pwrite'', IoPwrite_layout),
    (''Lseek'', IoLseek_layout), (''Lseek32'', IoLseek32_layout), (''Sync'', IoSync_layout),
    (''SyncByFd'', IoSyncByFd_layout), (''Remove'', IoRemove_layout),
    (''Mkdir'', IoMkdir_layout), (''Rmdir'', IoRmdir_layout), (''Rename'', IoRename_layout),
    (''Ioctl'', IoIoctl_layout), (''Dopen'', IoDopen_layout), (''Dclose'', IoDclose_layout),
    (''Dread'', IoDread_layout), (''Chstat'', IoChstat_layout),
    (''ChstatByFd'', IoChstatByFd_layout), (''Stat'', IoStat_layout),
    (''StatByFd'', IoStatByFd_layout), (''Devctl'', IoDevctl_layout), (''Raw'', IoRaw_layout)]"

definition SceIoSchedulerExecuteIoCommand_layout :: ctype where
  "SceIoSchedulerExecuteIoCommand_layout = Packed [
    (''unk_0x00'', Int32), (''unk_0x04'', Int32), (''unk_0x08'', Int32), (''unk_0x0C'', Int32),
    (''unk_0x10'', Int32), (''unk_0x14'', Int32), (''unk_0x18'', Int32), (''unk_0x1C'', Int32),
    (''unk_0x20'', Int32), (''opcode'', Int32), (''unk_0x28'', Int32), (''unk_0x2C'', Int32),
    (''unk_0x30'', Int8), (''unk_0x31'', Int8), (''unk_0x32'', Int8), (''unk_0x33'', Int8),
    (''pid'', Int32), (''unk_0x38'', Int32), (''impersonateId'', Int32), (''unk_0x40'', Int32),
    (''affinityMask'', Int32), (''prio'', Int32), (''unk_0x4C'', Int32), (''unk_0x50'', Int32),
    (''unk_0x54'', Int32), (''unk_0x58'', Int32), (''unk_0x5C'', Int32), (''unk_0x60'', Int32),
    (''args'', IoArgs_layout), (''unk_0x84'', Int32), (''unk_0x88'', Int32), (''fd'', Int32),
    (''unk_0x90'', Int32), (''unk_0x94'', Int32), (''unk_0x98'', Int32), (''unk_0x9C'', Int32),
    (''unk_0xA0'', Int32), (''unk_0xA4'', Int32), (''unk_0xA8'', Int32), (''unk_0xAC'', Int32),
    (''systemTime'', Int64)]"

section \<open>The hook\<close>

text \<open>The command as the hook reads it: the opcode and the eight words of the union.\<close>

record io_command =
  io_opcode :: u32
  io_words :: "u32 list"

definition io_arg :: "io_command \<Rightarrow> ctype \<Rightarrow> string \<Rightarrow> u32" where
  "io_arg c t x = io_words c ! (offset_of t x div 4)"

text \<open>An argument of \<open>printf\<close> with the type that it is passed with.\<close>

datatype printf_arg = P32 u32 | P64 u64 | PStr addr | PPtr addr

text \<open>The switch over the opcode; the formats are given without their final newline.\<close>

definition scheduler_line :: "io_command \<Rightarrow> u64 \<Rightarrow> (string \<times> printf_arg list) option" where
  "scheduler_line c res =
     (if io_opcode c = 0x1 then Some (''Scheduler 0x%08llX sceIoOpen %s 0x%X 0%03o'',
          [P64 res, PStr (io_arg c IoOpen_layout ''path''),
           P32 (io_arg c IoOpen_layout ''flags''), P32 (io_arg c IoOpen_layout ''mode'')])
      else if io_opcode c = 0x2 then Some (''Scheduler 0x%08llX sceIoClose 0x%08X'',
          [P64 res, P32 (io_arg c IoClose_layout ''fd'')])
      else if io_opcode c = 0x3 then None
      else if io_opcode c = 0x4 then None
      else if io_opcode c = 0x5 then Some (''Scheduler 0x%08llX sceIoLseek 0x%08X 0x%08X%08X %d'',
          [P64 res, P32 (io_arg c IoLseek_layout ''fd''),
           P32 (io_arg c IoLseek_layout ''offset_hi''),
           P32 (io_arg c IoLseek_layout ''offset_lo''), P32 (io_arg c IoLseek_layout ''where'')])
      else if io_opcode c = 0x6 then Some (''Scheduler 0x%08llX sceIoLseek32 0x%08X 0x%016llX %d'',
          [P64 res, P32 (io_arg c IoLseek32_layout ''fd''),
           P32 (io_arg c IoLseek32_layout ''offset''),
           P32 (io_arg c IoLseek32_layout ''where'')])
      else if io_opcode c = 0x7 then Some (''Scheduler 0x%08llX sceIoIoctl 0x%08X 0x%X %p 0x%08X %p 0x%08X'',
          [P64 res, P32 (io_arg c IoIoctl_layout ''fd''),
           P32 (io_arg c IoIoctl_layout ''cmd''), PPtr (io_arg c IoIoctl_layout ''indata''),
           P32 (io_arg c IoIoctl_layout ''inlen''), PPtr (io_arg c IoIoctl_layout ''outdata''),
           P32 (io_arg c IoIoctl_layout ''outlen'')])
      else if io_opcode c = 0x8 then Some (''Scheduler 0x%08llX sceIoRemove %s'',
          [P64 res, PStr (io_arg c IoRemove_layout ''path'')])
      else if io_opcode c = 0x9 then Some (''Scheduler 0x%08llX sceIoDopen %s'',
          [P64 res, PStr (io_arg c IoDopen_layout ''path'')])
      else if io_opcode c = 0xA then Some (''Scheduler 0x%08llX sceIoDclose 0x%08X'',
          [P64 res, P32 (io_arg c IoDclose_layout ''fd'')])
      else if io_opcode c = 0xB then Some (''Scheduler 0x%08llX sceIoDread 0x%08X %p'',
          [P64 res, P32 (io_arg c IoDread_layout ''fd''),
           PPtr (io_arg c IoDread_layout ''dir'')])
      else if io_opcode c = 0xC then Some (''Scheduler 0x%08llX sceIoMkdir %s 0%03o'',
          [P64 res, PStr (io_arg c IoMkdir_layout ''path''),
           P32 (io_arg c IoMkdir_layout ''mode'')])
      else if io_opcode c = 0xD then Some (''Scheduler 0x%08llX sceIoRmdir %s'',
          [P64 res, PStr (io_arg c IoRmdir_layout ''path'')])
      else if io_opcode c = 0xE then Some (''Scheduler 0x%08llX sceIoRename %s %s'',
          [P64 res, PStr (io_arg c IoRename_layout ''old_path''),
           PStr (io_arg c IoRename_layout ''new_path'')])
      else if io_opcode c = 0xF then Some (''Scheduler 0x%08llX sceIoChstat %s %p 0x%X'',
          [P64 res, PStr (io_arg c IoChstat_layout ''path''),
           PPtr (io_arg c IoChstat_layout ''stat''), P32 (io_arg c IoChstat_layout ''bit'')])
      else if io_opcode c = 0x10 then Some (''Scheduler 0x%08llX sceIoChstatByFd 0x%08X %p 0x%X'',
          [P64 res, P32 (io_arg c IoChstatByFd_layout ''fd''),
           PPtr (io_arg c IoChstatByFd_layout ''stat''),
           P32 (io_arg c IoChstatByFd_layout ''bit'')])
      else if io_opcode c = 0x11 then Some (''Scheduler 0x%08llX sceIoGetStat %s %p'',
          [P64 res, PStr (io_arg c IoStat_layout ''path''),
           PPtr (io_arg c IoStat_layout ''stat'')])
      else if io_opcode c = 0x12 then Some (''Scheduler 0x%08llX sceIoGetStatByFd 0x%08X %p'',
          [P64 res, P32 (io_arg c IoStatByFd_layout ''fd''),
           PPtr (io_arg c IoStatByFd_layout ''stat'')])
      else if io_opcode c = 0x13 then Some (''Scheduler 0x%08llX sceIoDevctl %s 0x%X %p 0x%08X %p 0x%08X'',
          [P64 res, PStr (io_arg c IoDevctl_layout ''dev''),
           P32 (io_arg c IoDevctl_layout ''cmd''), PPtr (io_arg c IoDevctl_layout ''indata''),
           P32 (io_arg c IoDevctl_layout ''inlen''),
           PPtr (io_arg c IoDevctl_layout ''outdata''),
           P32 (io_arg c IoDevctl_layout ''outlen'')])
      else if io_opcode c = 0x14 then Some (''Scheduler 0x%08llX sceIoSync %s 0x%X'',
          [P64 res, PStr (io_arg c IoSync_layout ''path''),
           P32 (io_arg c IoSync_layout ''flags'')])
      else if io_opcode c = 0x15 then Some (''Scheduler 0x%08llX sceIoSyncByFd 0x%08X 0x%X'',
          [P64 res, P32 (io_arg c IoSyncByFd_layout ''fd''),
           P32 (io_arg c IoSyncByFd_layout ''flags'')])
      else if io_opcode c = 0x16 then None
      else if io_opcode c = 0x17 then None
      else if io_opcode c = 0x18 then Some (''Scheduler 0x%08llX sceIoGetStat (0x18) %s %p'',
          [P64 res, PStr (io_arg c IoStat_layout ''path''),
           PPtr (io_arg c IoStat_layout ''stat'')])
      else if io_opcode c = 0x19 then Some (''Scheduler 0x%08llX sceIoChstat (0x19) %s %p 0x%X'',
          [P64 res, PStr (io_arg c IoChstat_layout ''path''),
           PPtr (io_arg c IoChstat_layout ''stat''), P32 (io_arg c IoChstat_layout ''bit'')])
      else if io_opcode c = 0x1A then Some (''Scheduler 0x%08llX sceIoDread (0x1A) 0x%08X %p'',
          [P64 res, P32 (io_arg c IoDread_layout ''fd''),
           PPtr (io_arg c IoDread_layout ''dir'')])
      else if io_opcode c = 0x1B then Some (''Scheduler 0x%08llX sceIoDopenInternal %s'',
          [P64 res, PStr (io_arg c IoDopen_layout ''path'')])
      else if io_opcode c = 0x1C then Some (''Scheduler 0x%08llX sceIoDreadInternal 0x%08X %p'',
          [P64 res, P32 (io_arg c IoDread_layout ''fd''),
           PPtr (io_arg c IoDread_layout ''dir'')])
      else if io_opcode c = 0x1D then Some (''Scheduler 0x%08llX sceIoDcloseInternal 0x%08X'',
          [P64 res, P32 (io_arg c IoDclose_layout ''fd'')])
      else Some (''unknown opcode 0x%X'', [P32 (io_opcode c)]))"

text \<open>
  \<open>continue_old\<close> is the hooked function; the command is read after it returned.
\<close>

definition sceIoSchedulerExecuteIoCommand_patch ::
    "(io_command \<Rightarrow> 'k \<Rightarrow> u64 \<times> io_command \<times> 'k) \<Rightarrow> io_command \<Rightarrow> 'k \<Rightarrow>
     (u64 \<times> io_command \<times> 'k) \<times> (string \<times> printf_arg list) option" where
  "sceIoSchedulerExecuteIoCommand_patch continue_old c k =
     (let (res, c, k) = continue_old c k in ((res, c, k), scheduler_line c res))"

definition scheduler_module_start ::
    "('k \<Rightarrow> string \<Rightarrow> s32 \<times> 'k) \<Rightarrow> ('k \<Rightarrow> s32 \<Rightarrow> s32 \<Rightarrow> u32 \<Rightarrow> s32 \<times> 'k) \<Rightarrow> 'k \<Rightarrow> s32 \<times> 'k" where
  "scheduler_module_start search hook k =
     (let (moduleId, k) = search k ''SceIofilemgr'' in hook k moduleId 0 0x1a078)"

section \<open>Formats\<close>

text \<open>The conversions of a format and the types that they take from the arguments.\<close>

datatype conv = C32 | C64 | CStr | CPtr

fun conv_of :: "nat \<Rightarrow> char \<Rightarrow> conv" where
  "conv_of ls c =
     (if c = CHR ''s'' then CStr else if c = CHR ''p'' then CPtr else if ls = 2 then C64 else C32)"

fun convs :: "string \<Rightarrow> conv list" and conv_spec :: "nat \<Rightarrow> string \<Rightarrow> conv list" where
  "convs [] = []"
| "convs (c # s) = (if c = CHR ''%'' then conv_spec 0 s else convs s)"
| "conv_spec ls [] = []"
| "conv_spec ls (c # s) =
     (if c = CHR ''l'' then conv_spec (ls + 1) s
      else if c \<in> set ''0123456789'' then conv_spec ls s
      else conv_of ls c # convs s)"

fun arg_conv :: "printf_arg \<Rightarrow> conv" where
  "arg_conv (P32 _) = C32"
| "arg_conv (P64 _) = C64"
| "arg_conv (PStr _) = CStr"
| "arg_conv (PPtr _) = CPtr"

definition format_fits :: "string \<Rightarrow> printf_arg list \<Rightarrow> bool" where
  "format_fits fmt args \<longleftrightarrow> convs fmt = map arg_conv args"

text \<open>The structure has the size and the offsets that its comments and names give.\<close>

lemma command_layout:
  "csize SceIoSchedulerExecuteIoCommand_layout = 0xB8"
  "offset_of SceIoSchedulerExecuteIoCommand_layout ''args'' = 0x64"
  "misnamed 0 SceIoSchedulerExecuteIoCommand_layout = []"
  "misnamed 0x64 IoRaw_layout = []" "csize IoArgs_layout = 0x20"
  by code_simp+

text \<open>The opcodes that are not printed, and those that have no name.\<close>

lemma scheduler_silent: "scheduler_line c res = None \<longleftrightarrow> io_opcode c \<in> {0x3, 0x4, 0x16, 0x17}"
  by (simp add: scheduler_line_def split: if_split)

text \<open>
  The hook does not disturb the function it watches: its result, the command and the state are
  those of the hooked function.  Nothing is printed exactly for reads, writes and the opcodes 0x16 and
  0x17, and every line that is printed has arguments of the types that its format asks for, but for
  the 32-bit seek, whose offset is passed as 32 bits and printed as 64.
\<close>

theorem scheduler_hook_transparent:
  "case sceIoSchedulerExecuteIoCommand_patch old c k of ((res, c', k'), out) \<Rightarrow>
     (res, c', k') = old c k \<and>
     (case out of None \<Rightarrow> io_opcode c' \<in> {0x3, 0x4, 0x16, 0x17}
      | Some (fmt, args) \<Rightarrow> (format_fits fmt args \<longleftrightarrow> io_opcode c' \<noteq> 6))"
proof -
  have "case scheduler_line c res of None \<Rightarrow> True
      | Some (fmt, args) \<Rightarrow> (format_fits fmt args \<longleftrightarrow> io_opcode c \<noteq> 6)" for c :: io_command and res
    by (simp add: scheduler_line_def format_fits_def)
  then show ?thesis
    using scheduler_silent
    by (fastforce simp: sceIoSchedulerExecuteIoCommand_patch_def split: option.splits prod.splits)
qed

end
