(* ===== verification/Sample_Media.thy ===== *)
theory Sample_Media
  imports Sample_Tools Zlib_Sample Cert_Verifier Npdrm_Package Scheduler_Log
begin

text \<open>
  Concrete systems for the compression sample, the certificate verifier and the package lister, and
  their properties applied to them.
\<close>

section \<open>The compression sample\<close>

text \<open>The state is the table of open files and what the compressor was fed.\<close>

type_synonym zk = "file_table \<times> (u8 list \<times> s32) list"

definition lift1 :: "('a \<times> file_table) \<Rightarrow> (u8 list \<times> s32) list \<Rightarrow> 'a \<times> zk" where
  "lift1 r z = (fst r, (snd r, z))"

definition IOZ :: "zk sce_io" where
  "IOZ = \<lparr>io_open = \<lambda>k path fl md. lift1 (io_open IO0 (fst k) path fl md) (snd k),
     io_read = \<lambda>k fd n. (case io_read IO0 (fst k) fd n of (r, data, k') \<Rightarrow> (r, data, (k', snd k))),
     io_write = \<lambda>k fd d. lift1 (io_write IO0 (fst k) fd d) (snd k),
     io_lseek = \<lambda>k fd off w. lift1 (io_lseek IO0 (fst k) fd off w) (snd k),
     io_close = \<lambda>k fd. lift1 (io_close IO0 (fst k) fd) (snd k),
     io_getstat = \<lambda>k path. (0, k), io_mkdir = \<lambda>k path md. (0, k),
     io_chstat_size = \<lambda>k fd sz. lift1 (io_chstat_size IO0 (fst k) fd sz) (snd k),
     SCE_O_RDONLY = 1, SCE_O_WRONLY = 2, SCE_O_RDWR = 3, SCE_O_CREAT = 0x200, SCE_O_TRUNC = 0x400,
     SCE_O_APPEND = 0x100, SCE_SEEK_SET = 0, SCE_SEEK_END = 2\<rparr>"

definition ZE0 :: "zk zlib_env" where
  "ZE0 = \<lparr>z_io = IOZ, z_export = \<lambda>k m l f. k, z_create_heap = \<lambda>k n u. (1, k), z_delete_heap = \<lambda>k h. k,
     z_heap_alloc = \<lambda>k h n. (1, k), z_heap_free = \<lambda>k h p. k, z_alloc_memblk = \<lambda>k n. (1, k),
     z_free_memblk = \<lambda>k m. k, z_init = \<lambda>k. (0, k), z_set_output = \<lambda>k n. k,
     z_deflate = \<lambda>k input flush. (if flush = 4 then 1 else 0, (fst k, snd k @ [(input, flush)])),
     z_end = \<lambda>k. (0, k), z_total_out = \<lambda>k. 0, z_output = \<lambda>k. [], z_fstat = \<lambda>k fd. (0, 0, k)\<rparr>"

lemma IOZ_contract: "io_contract IOZ fst"
  unfolding io_contract_def
proof (intro conjI allI impI)
  fix k :: zk and fd and n :: SceSize and bs pos assume "fst k fd = Some (bs, pos)"
  then have "\<exists>r data k'. io_read IO0 (fst k) fd n = (r, data, k') \<and> length data \<le> unat n \<and>
      (if failed r then k' = fst k
       else unat r = length data \<and> data = take (length data) (drop pos bs) \<and>
            k' = (fst k)(fd \<mapsto> (bs, pos + length data)))"
    using IO0_contract unfolding io_contract_def by blast
  then show "\<exists>r data k'. io_read IOZ k fd n = (r, data, k') \<and>
      length data \<le> unat n \<and> (if failed r then fst k' = fst k
      else unat r = length data \<and> data = take (length data) (drop pos bs) \<and>
           fst k' = (fst k)(fd \<mapsto> (bs, pos + length data)))"
    by (fastforce simp: IOZ_def)
next
  fix k :: zk and fd and d :: "u8 list" and bs pos
  assume "fst k fd = Some (bs, pos)" "pos \<le> length bs"
  then have "\<exists>r k'. io_write IO0 (fst k) fd d = (r, k') \<and>
      (if failed r then k' = fst k
       else unat r \<le> length d \<and>
            k' = (fst k)(fd \<mapsto> (overwrite pos (take (unat r) d) bs, pos + unat r)))"
    using IO0_contract unfolding io_contract_def by blast
  then show "\<exists>r k'. io_write IOZ k fd d = (r, k') \<and>
      (if failed r then fst k' = fst k
       else unat r \<le> length d \<and>
            fst k' = (fst k)(fd \<mapsto> (overwrite pos (take (unat r) d) bs, pos + unat r)))"
    by (fastforce simp: IOZ_def lift1_def)
qed

lemma ZE0_contract: "zlib_contract ZE0 fst snd"
proof -
  have io: "z_io ZE0 = IOZ" by (simp add: ZE0_def)
  show ?thesis unfolding zlib_contract_def io
  proof (intro conjI allI impI)
    show "io_contract IOZ fst" by (rule IOZ_contract)
  qed (auto simp: ZE0_def IOZ_def split: prod.splits if_splits)
qed

theorem zlib_feeds_file_witness:
  "\<exists>zres k' cs. feed_loop ZE0 5 (word_of_nat 3) (-1) ([5 \<mapsto> ([1, 2, 3], 0)], []) = Some (zres, k') \<and>
    snd k' = cs \<and> fed_ok [1, 2, 3] cs \<and> (zres = 1 \<longrightarrow> concat (map fst cs) = [1, 2, 3])"
  using zlib_feeds_file [OF ZE0_contract, of "([5 \<mapsto> ([1, 2, 3], 0)], [])" 5 "[1, 2, 3]"] by simp

section \<open>The certificate verifier\<close>

text \<open>A storage of zero bytes and a module that gives the argument back.\<close>

definition SE0 :: "unit sm_env" where
  "SE0 = \<lparr>sm_self_info = \<lambda>k. (0, k), sm_start = \<lambda>k. (0, 1, k),
     sm_call = \<lambda>k id svc arg. (0, 0, arg, k), sm_stop = \<lambda>k id. k,
     sm_aes_dec = \<lambda>k enc key. (0, enc, k), sm_sha224 = \<lambda>d. replicate 0x1C 0,
     sm_read_leaf = \<lambda>k n. (0, replicate 0x200 0, k)\<rparr>"

theorem idstorage_read_vector_leaves_witness:
  "\<exists>r buf' k'. idstorage_read_vector SE0 0x40 (replicate 0x1000 1) 8 () = (r, buf', k') \<and>
     \<not> failed r \<and> buf' = concat (replicate 8 (replicate 0x200 0))"
proof -
  have c: "leaf_contract SE0 (\<lambda>n. replicate 0x200 0)" by (simp add: leaf_contract_def SE0_def)
  have l: "length (replicate 0x1000 1 :: u8 list) = 0x200 * unat (8 :: u32)" by simp
  obtain m r buf' k' where s: "idstorage_read_vector SE0 0x40 (replicate 0x1000 1) 8 () = (r, buf', k')"
    "m \<le> unat (8 :: u32)" "failed r \<longleftrightarrow> m < unat (8 :: u32)"
    "buf' = concat (map (\<lambda>j. replicate 0x200 0) [0..<m]) @ drop (0x200 * m) (replicate 0x1000 1)"
    using idstorage_read_vector_leaves [OF c l, of "0x40" "()" 0] by blast
  have f: "failed (fst (read_vector_loop SE0 a i n buf ())) \<longleftrightarrow> False" for a i n buf
    by (induction n arbitrary: i buf) (simp_all add: SE0_def)
  have "\<not> failed r" using f [of "0x40" 0 8 "replicate 0x1000 1"] s(1) by (simp add: idstorage_read_vector_def)
  then have "m = 8" using s(2,3) by simp
  then have "buf' = concat (replicate 8 (replicate 0x200 0))"
    unfolding s(4) by (simp add: map_replicate_const)
  then show ?thesis using s(1) \<open>\<not> failed r\<close> by blast
qed

theorem priv_key_answer_bound_witness:
  "verify_ecdsa_priv_key SE0 [] (replicate 0x38 0) zeros (replicate 0xE8 0) () = None"
proof -
  have l: "length (replicate 0x38 0 :: u8 list) = csize SceKirk_0x15_output_layout"
    by (simp add: cert_layouts align_up_def)
  have s: "sm_answers SE0 (\<lambda>a a'. gc_command a' = gc_command a \<and> gc_size a' = gc_size a)"
    by (simp add: sm_answers_def SE0_def)
  show ?thesis
    using priv_key_answer_bound [OF l, of SE0 "[]" zeros "replicate 0xE8 0" "()"] s
    by (simp add: SE0_def sm_starts_def)
qed

section \<open>The package lister\<close>

definition PE0 :: "file_table pkg_env" where
  "PE0 = \<lparr>pk_io = IO0, pk_check = \<lambda>k h u. (0, k), pk_decrypt = \<lambda>k d off u. (0, d, k)\<rparr>"

text \<open>The package is one item whose name is 0x1000000 bytes long.\<close>

definition p0 :: file_table where
  "p0 = [7 \<mapsto> ([0, 0, 0, 0, 1, 0, 0, 0] @ replicate 0x18 0, 0)]"


end
