(* ===== verification/Namespace_Tidy.thy ===== *)
theory Namespace_Tidy
  imports Namespace "HOL-Library.Multiset"
begin

text \<open>
  Trees in which no two siblings share a name: every node has exactly one path.  Moving a whole
  subtree, which renaming does, is \<open>del_kid\<close> followed by \<open>add_kid\<close>.
\<close>

section \<open>Paths of a tidy tree\<close>

fun tidy :: "dtree list \<Rightarrow> bool" where
  "tidy [] \<longleftrightarrow> True"
| "tidy (DNode a nm ks # ts) \<longleftrightarrow> good_comp nm \<and> nm \<notin> d_name ` set ts \<and> tidy ks \<and> tidy ts"

lemma tidy_find:
  "tidy ts \<Longrightarrow> t \<in> set ts \<Longrightarrow> find (\<lambda>u. d_name u = d_name t) ts = Some t"
  by (induction ts rule: tidy.induct) (auto simp: image_iff)

lemma tidy_kids: "tidy ts \<Longrightarrow> t \<in> set ts \<Longrightarrow> tidy (d_kids t) \<and> good_comp (d_name t)"
  by (induction ts rule: tidy.induct) auto

lemma tidy_subtree: "tidy ts \<Longrightarrow> DNode a nm ks \<in> subtrees ts \<Longrightarrow> tidy ks \<and> good_comp nm"
  by (induction ts rule: tidy.induct) auto

lemma resolve_append:
  "resolve ts cs = Some t \<Longrightarrow> cs' \<noteq> [] \<Longrightarrow> resolve ts (cs @ cs') = resolve (d_kids t) cs'"
  by (induction ts cs rule: resolve.induct) (auto split: option.splits if_splits)

lemma resolve_snoc:
  "resolve ts cs = Some t \<Longrightarrow> resolve ts (cs @ [nm]) = find (\<lambda>u. d_name u = nm) (d_kids t)"
  by (simp add: resolve_append split: option.splits)

lemma find_name: "find (\<lambda>u. d_name u = nm) ts = None \<longleftrightarrow> nm \<notin> d_name ` set ts"
  by (induction ts) auto

text \<open>Every node has a path.\<close>

lemma tidy_has_path:
  "tidy ts \<Longrightarrow> t \<in> subtrees ts \<Longrightarrow>
   \<exists>cs. cs \<noteq> [] \<and> (\<forall>c \<in> set cs. good_comp c) \<and> resolve ts cs = Some t"
proof (induction ts arbitrary: t rule: tidy.induct)
  case (2 a nm ks ts)
  consider "t = DNode a nm ks" | "t \<in> subtrees ks" | "t \<in> subtrees ts" using 2(4) by auto
  then show ?case
  proof cases
    case 1
    then show ?thesis using 2(3) by (intro exI [of _ "[nm]"]) simp
  next
    case 2
    moreover have "tidy ks" using "2.prems"(1) by simp
    ultimately obtain cs where "cs \<noteq> []" "\<forall>c \<in> set cs. good_comp c" "resolve ks cs = Some t"
      using "2.IH"(1) by blast
    then show ?thesis using "2.prems"(1) by (intro exI [of _ "nm # cs"]) simp
  next
    case 3
    moreover have "tidy ts" using "2.prems"(1) by simp
    ultimately obtain cs where cs: "cs \<noteq> []" "\<forall>c \<in> set cs. good_comp c" "resolve ts cs = Some t"
      using "2.IH"(2) by blast
    then obtain c cs' where c: "cs = c # cs'" by (cases cs) auto
    then have "find (\<lambda>u. d_name u = c) ts \<noteq> None" using cs(3) by (auto split: option.splits)
    then have "c \<noteq> nm" using "2.prems"(1) by (auto simp: find_name)
    then show ?thesis using cs c by (intro exI [of _ cs]) simp
  qed
qed simp

text \<open>And only one.\<close>

lemma resolve_root: "resolve ts (c # cs) = Some t \<Longrightarrow> cs \<noteq> [] \<Longrightarrow>
   \<exists>u \<in> set ts. d_name u = c \<and> resolve (d_kids u) cs = Some t"
  by (auto split: option.splits simp: find_Some_iff intro: nth_mem)

lemma resolve_root1: "resolve ts [c] = Some t \<Longrightarrow> t \<in> set ts \<and> d_name t = c"
  by (auto split: option.splits simp: find_Some_iff intro: nth_mem)

lemma root_disjoint:
  assumes "distinct (addrs ts)" "u \<in> set ts" "w \<in> set ts" "x \<in> insert (d_addr u) (set (addrs (d_kids u)))"
    "x \<in> insert (d_addr w) (set (addrs (d_kids w)))"
  shows "u = w"
  using assms
proof (induction ts rule: addrs.induct)
  case (2 a nm ks ts)
  have sub: "insert (d_addr y) (set (addrs (d_kids y))) \<subseteq> set (addrs ts)" if "y \<in> set ts" for y
    using that roots_addrs [of y ts] kids_addrs [of "d_addr y" "d_name y" "d_kids y" ts]
      roots_subtrees [of y ts] by auto
  have d: "distinct (addrs ts)" "set (addrs ks) \<inter> set (addrs ts) = {}" "a \<notin> set (addrs ts)"
    using 2(3) by auto
  consider "u \<in> set ts" "w \<in> set ts" | "u = DNode a nm ks" "w \<in> set ts"
    | "u \<in> set ts" "w = DNode a nm ks" | "u = DNode a nm ks" "w = DNode a nm ks"
    using 2(4,5) by auto
  then show ?case
  proof cases
    case 1
    then show ?thesis using 2(2) [OF d(1)] 2(6,7) by blast
  next
    case 2
    then have "x \<in> set (addrs ts)" "x = a \<or> x \<in> set (addrs ks)" using sub "2.prems"(4,5) by auto
    then show ?thesis using d by blast
  next
    case 3
    then have "x \<in> set (addrs ts)" "x = a \<or> x \<in> set (addrs ks)" using sub "2.prems"(4,5) by auto
    then show ?thesis using d by blast
  qed simp
qed simp

lemma root_not_below:
  assumes "distinct (addrs ts)" "t \<in> set ts"
  shows "d_addr t \<notin> set (addrs (d_kids t))"
  using assms by (induction ts rule: addrs.induct) auto

lemma resolve_inj:
  "distinct (addrs ts) \<Longrightarrow> resolve ts cs = Some t \<Longrightarrow> resolve ts cs' = Some t \<Longrightarrow> cs = cs'"
proof (induction cs arbitrary: ts cs')
  case (Cons c cs)
  obtain c' ds where c': "cs' = c' # ds" using Cons.prems(3) by (cases cs') auto
  have below: "d_addr t \<in> set (addrs (d_kids u))" if "resolve (d_kids u) ds = Some t" for u ds
    using resolve_subtree [OF that] by (auto simp: set_addrs)
  show ?case
  proof (cases "cs = []")
    case True
    then have t: "t \<in> set ts" "d_name t = c" using resolve_root1 Cons.prems(2) by blast+
    show ?thesis
    proof (cases "ds = []")
      case True
      then show ?thesis using resolve_root1 [of ts c' t] Cons.prems(3) c' t \<open>cs = []\<close> by simp
    next
      case False
      then obtain u where u: "u \<in> set ts" "resolve (d_kids u) ds = Some t"
        using resolve_root Cons.prems(3) c' by blast
      then have "u = t" using root_disjoint [OF Cons.prems(1) u(1) t(1), of "d_addr t"] below [OF u(2)] by simp
      then show ?thesis using below [OF u(2)] root_not_below [OF Cons.prems(1) t(1)] by simp
    qed
  next
    case False
    then obtain u where u: "u \<in> set ts" "d_name u = c" "resolve (d_kids u) cs = Some t"
      using resolve_root Cons.prems(2) by blast
    show ?thesis
    proof (cases "ds = []")
      case True
      then have t: "t \<in> set ts" using resolve_root1 Cons.prems(3) c' by blast
      then have "u = t" using root_disjoint [OF Cons.prems(1) u(1) t, of "d_addr t"] below [OF u(3)] by simp
      then show ?thesis using below [OF u(3)] root_not_below [OF Cons.prems(1) t] by simp
    next
      case False
      then obtain w where w: "w \<in> set ts" "d_name w = c'" "resolve (d_kids w) ds = Some t"
        using resolve_root Cons.prems(3) c' by blast
      have "u = w" using root_disjoint [OF Cons.prems(1) u(1) w(1), of "d_addr t"] below u(3) w(3) by blast
      moreover have "distinct (addrs (d_kids u))"
        using Cons.prems(1) u(1) by (induction ts rule: addrs.induct) auto
      ultimately show ?thesis using Cons.IH [of "d_kids u" ds] u w c' by simp
    qed
  qed
qed simp

lemma tidy_prefix:
  assumes "tidy ts" "distinct (addrs ts)" "resolve ts cs = Some t" "resolve ts cs' = Some u"
    and "d_addr u \<in> set (addrs [t])"
  shows "take (length cs) cs' = cs"
proof -
  have t: "t \<in> subtrees ts" and u: "u \<in> subtrees ts" using assms(3,4) resolve_subtree by blast+
  obtain a nm ks where tn: "t = DNode a nm ks" by (cases t)
  show ?thesis
  proof (cases "d_addr u = a")
    case True
    then have "u = t" using subtree_unique [OF assms(2) u t] tn by simp
    then show ?thesis using resolve_inj [OF assms(2,3)] assms(4) by simp
  next
    case False
    then obtain w where w: "w \<in> subtrees ks" "d_addr w = d_addr u"
      using assms(5) tn by (auto simp: set_addrs)
    have "subtrees ks \<subseteq> subtrees ts" using t tn kids_subtrees by blast
    then have wu: "w = u" using subtree_unique [OF assms(2)] w u by blast
    have "tidy ks" using tidy_subtree [OF assms(1)] t tn by blast
    from tidy_has_path [OF this w(1)] obtain ds where ds: "ds \<noteq> []" "resolve ks ds = Some u"
      using wu by blast
    have "resolve ts (cs @ ds) = Some u" using resolve_append [OF assms(3) ds(1)] ds(2) tn by simp
    then have "cs' = cs @ ds" using resolve_inj [OF assms(2) assms(4)] by simp
    then show ?thesis by simp
  qed
qed

section \<open>Changing a tidy tree\<close>

lemma tidy_add_kid:
  assumes "tidy ts" "distinct (addrs ts)" "DNode d dn ks \<in> subtrees ts" "tidy [t]" "d_name t \<notin> d_name ` set ks"
  shows "tidy (add_kid d t ts)"
  using assms(1-3)
proof (induction ts rule: addrs.induct)
  case (2 a nm ka ts)
  have nms: "d_name ` set (add_kid d t us) = d_name ` set us" for us
    by (induction us rule: addrs.induct) auto
  have tk: "tidy ka" "tidy ts" "good_comp nm" "nm \<notin> d_name ` set ts" using 2(3) by auto
  have dk: "distinct (addrs ka)" "distinct (addrs ts)" using 2(4) by auto
  show ?case
  proof (cases "a = d")
    case True
    then have "d \<notin> set (addrs ka)" "d \<notin> set (addrs ts)" using 2(4) by auto
    then have k: "ka = ks" using 2(5) True subtree_addr by fastforce
    have "tidy (t # ka)" using assms(4,5) tk(1) k by (cases t) auto
    then show ?thesis using True tk(2-4) \<open>d \<notin> set (addrs ts)\<close> by (simp add: add_kid_other)
  next
    case False
    have A: "tidy (add_kid d t ka)"
    proof (cases "DNode d dn ks \<in> subtrees ka")
      case True
      then show ?thesis using 2(1) [OF tk(1) dk(1)] by blast
    next
      case nk: False
      then have "d \<in> set (addrs ts)" using 2(5) False subtree_addr by fastforce
      then have "d \<notin> set (addrs ka)" using 2(4) by auto
      then show ?thesis using tk(1) by (simp add: add_kid_other)
    qed
    have B: "tidy (add_kid d t ts)"
    proof (cases "DNode d dn ks \<in> subtrees ts")
      case True
      then show ?thesis using 2(2) [OF tk(2) dk(2)] by blast
    next
      case nk: False
      then have "d \<in> set (addrs ka)" using 2(5) False subtree_addr by fastforce
      then have "d \<notin> set (addrs ts)" using 2(4) by auto
      then show ?thesis using tk(2) by (simp add: add_kid_other)
    qed
    show ?thesis using False A B tk nms [of ts] by simp
  qed
qed simp

lemma tidy_filter: "tidy ts \<Longrightarrow> tidy (filter P ts)"
  by (induction ts rule: tidy.induct) auto

lemma tidy_del_kid: "tidy ts \<Longrightarrow> tidy (del_kid d b ts)"
proof (induction ts rule: addrs.induct)
  case (2 a nm ka ts)
  have nms: "d_name ` set (del_kid d b us) = d_name ` set us" for us
    by (induction us rule: addrs.induct) auto
  show ?case using 2 nms [of ts] tidy_filter [of ka] by auto
qed simp

text \<open>Deleting a child takes exactly the addresses of its subtree out of the tree.\<close>

lemma mset_set_kids:
  "distinct (addrs ts) \<Longrightarrow> DNode d dn ks \<in> subtrees ts \<Longrightarrow>
   mset (addrs (set_kids d ks' ts)) + mset (addrs ks) = mset (addrs ts) + mset (addrs ks')"
proof (induction ts rule: addrs.induct)
  case (2 a nm ka ts)
  have dk: "distinct (addrs ka)" "distinct (addrs ts)" using 2(3) by auto
  consider "a = d" | "a \<noteq> d" "DNode d dn ks \<in> subtrees ka" | "a \<noteq> d" "DNode d dn ks \<in> subtrees ts"
    using 2(4) by auto
  then show ?case
  proof cases
    case 1
    then have "d \<notin> set (addrs ka)" "d \<notin> set (addrs ts)" using 2(3) by auto
    then have "ka = ks" using 2(4) 1 subtree_addr by fastforce
    then show ?thesis using 1 \<open>d \<notin> set (addrs ts)\<close> by (simp add: set_kids_other ac_simps)
  next
    case 2
    have "d \<notin> set (addrs ts)" using subtree_addr [OF 2(2)] "2.prems"(1) by auto
    then show ?thesis using "2.IH"(1) [OF dk(1) 2(2)] 2(1) by (simp add: set_kids_other ac_simps)
  next
    case 3
    have "d \<notin> set (addrs ka)" using subtree_addr [OF 3(2)] "2.prems"(1) by auto
    then show ?thesis using "2.IH"(2) [OF dk(2) 3(2)] 3(1) by (simp add: set_kids_other ac_simps)
  qed
qed simp

lemma distinct_kids: "distinct (addrs ts) \<Longrightarrow> DNode d dn ks \<in> subtrees ts \<Longrightarrow> distinct (addrs ks)"
  by (induction ts rule: addrs.induct) auto

lemma addrs_del_kid_split:
  assumes D: "distinct (addrs ts)" and d: "DNode d dn ks \<in> subtrees ts" and t: "t \<in> set ks"
  shows "set (addrs (del_kid d (d_addr t) ts)) \<inter> set (addrs [t]) = {}"
    and "set (addrs ts) = set (addrs (del_kid d (d_addr t) ts)) \<union> set (addrs [t])"
proof -
  have dk: "distinct (addrs ks)" using D d by (rule distinct_kids)
  from t obtain pre post where ks: "ks = pre @ t # post" by (meson split_list)
  obtain a nm ka where tn: "t = DNode a nm ka" by (cases t)
  have na: "d_addr t \<notin> set (addrs pre)" "d_addr t \<notin> set (addrs post)" using dk ks tn by simp_all
  have "\<forall>u \<in> set pre. d_addr u \<noteq> d_addr t" "\<forall>u \<in> set post. d_addr u \<noteq> d_addr t"
    using na roots_addrs [of _ pre] roots_addrs [of _ post] by metis+
  then have "filter (\<lambda>u. d_addr u \<noteq> d_addr t) pre = pre" "filter (\<lambda>u. d_addr u \<noteq> d_addr t) post = post"
    by (simp_all add: filter_id_conv)
  then have f: "filter (\<lambda>u. d_addr u \<noteq> d_addr t) ks = pre @ post" using ks by simp
  have "mset (addrs (del_kid d (d_addr t) ts)) + mset (addrs ks) =
      mset (addrs ts) + mset (addrs (pre @ post))"
    using mset_set_kids [OF D d, of "pre @ post"] by (simp only: del_kid_set [OF D d] f)
  moreover have "mset (addrs ks) = mset (addrs [t]) + mset (addrs (pre @ post))" using ks tn by simp
  ultimately have m: "mset (addrs ts) = mset (addrs (del_kid d (d_addr t) ts) @ addrs [t])" by simp
  then have "distinct (addrs (del_kid d (d_addr t) ts) @ addrs [t])" using D mset_eq_imp_distinct_iff by blast
  then show "set (addrs (del_kid d (d_addr t) ts)) \<inter> set (addrs [t]) = {}" by simp
  have "set (addrs ts) = set (addrs (del_kid d (d_addr t) ts) @ addrs [t])" using m by (rule mset_eq_setD)
  then show "set (addrs ts) = set (addrs (del_kid d (d_addr t) ts)) \<union> set (addrs [t])" by simp
qed

end
