(* ===== verification/Vop_Rename_Props.thy ===== *)
theory Vop_Rename_Props
  imports Vop_Remove_Props Namespace_Tidy
begin

text \<open>
  Renaming moves an entry with everything below it: in the name space it is \<open>del_kid\<close> at the old
  directory and \<open>add_kid\<close> at the new one.
\<close>

section \<open>Moving an entry in the heap\<close>

text \<open>
  The state \<open>s\<close> after the entry was unlinked: the tree is \<open>ts\<close>, and the entry \<open>a\<close> with what is below
  it stands apart.
\<close>

definition apart :: "'k vfs_state \<Rightarrow> dtree list \<Rightarrow> addr \<Rightarrow> FapsDmassFs \<Rightarrow> dtree list \<Rightarrow> bool" where
  "apart s ts a e ka \<longleftrightarrow> ns s ts \<and> fs_of (heap s) a = Some e \<and> str_of (heap s) (fs_name e) \<noteq> None \<and>
     forest (dview (heap s)) (fs_next_dir e) ka \<and>
     distinct (a # addrs ka) \<and> set (a # addrs ka) \<inter> set (addrs ts) = {} \<and>
     names_owned (heap s) (set (addrs ts) \<union> set (a # addrs ka))"

text \<open>Linking it into the directory \<open>d\<close>, giving its name back and storing a new one.\<close>

lemma relink_entry:
  fixes K :: "'k sce_kernel" and s :: "'k vfs_state"
  assumes K: "alloc_contract K" and A: "apart s ts a e ka" and d: "d \<in> set (addrs ts)"
    and nm: "CHR 0x00 \<notin> set nm"
  obtains s2 s3 p s4 e2 where "link_first d a s = Some s2" "frame s s2" "fs_of (heap s2) a = Some e2"
    "dmass_free K (fs_name e2) s2 = Some s3" "frame s s3"
    "name_cpy K nm s3 = (p, s4)" "frame s s4" "fs_of (heap s4) a = Some e2"
    "fs_data e2 = fs_data e" "fs_stat e2 = fs_stat e" "fs_pNode e2 = fs_pNode e"
    "fs_refer e2 = fs_refer e" "fs_pDmassFsX e2 = fs_pDmassFsX e"
    "\<And>(s' :: 'k vfs_state) q. heap s' = (heap s4)(a \<mapsto> FsObj (e2\<lparr>fs_name := p, fs_pNode := q\<rparr>)) \<Longrightarrow> pTree s' = pTree s \<Longrightarrow>
       p \<noteq> NULL \<Longrightarrow> ns s' (add_kid d (DNode a nm ka) ts)"
proof -
  have N: "ns s ts" and e: "fs_of (heap s) a = Some e" and st: "str_of (heap s) (fs_name e) \<noteq> None"
    and fk: "forest (dview (heap s)) (fs_next_dir e) ka" and da: "distinct (a # addrs ka)"
    and dj: "set (a # addrs ka) \<inter> set (addrs ts) = {}"
    and own: "names_owned (heap s) (set (addrs ts) \<union> set (a # addrs ka))"
    using A by (simp_all add: apart_def)
  have F: "forest (dview (heap s)) (pTree s) ts" and D: "distinct (addrs ts)" using N by (simp_all add: ns_def)
  obtain y where "dview (heap s) d = Some y" using forest_dview_Some [OF F d] by blast
  then obtain ed dn where ed: "fs_of (heap s) d = Some ed" "str_of (heap s) (fs_name ed) = Some dn"
    by (cases y) (auto simp: dview_Some)
  have ad: "a \<noteq> d" using dj d by auto
  let ?e2 = "e\<lparr>fs_next := fs_next_dir ed\<rparr>" and ?ed = "ed\<lparr>fs_next_dir := a\<rparr>"
  obtain s2 where l: "link_first d a s = Some s2" "frame s s2"
    "heap s2 = (heap s)(a \<mapsto> FsObj ?e2, d \<mapsto> FsObj ?ed)"
    using link_first_ok [OF ed(1) e ad] by blast
  obtain on where on: "heap s (fs_name e) = Some (Str on)" "fs_name e \<noteq> NULL"
    using st by (auto dest: str_ofD)
  have na: "fs_name e \<noteq> a" "fs_name e \<noteq> d" using on fs_ofD [OF e] fs_ofD [OF ed(1)] by auto
  obtain s3 where f: "dmass_free K (fs_name e) s2 = Some s3" "frame s2 s3"
    "heap s3 = (heap s2)(fs_name e := None)"
    using free_some [of s2 "fs_name e" K] on na l(3) by auto
  obtain p s4 where c: "name_cpy K nm s3 = (p, s4)" by (cases "name_cpy K nm s3")
  have C: "frame s3 s4 \<and> (p = NULL \<and> heap s4 = heap s3 \<or>
      p \<noteq> NULL \<and> heap s3 p = None \<and> heap s4 = (heap s3)(p \<mapsto> Str nm))"
    using K c by (cases rule: name_cpy_cases) auto
  have fr: "frame s s3" "frame s s4" using frame_trans l(2) f(2) C by blast+
  have a2: "fs_of (heap s2) a = Some ?e2" using ad e by (simp add: l(3) deref fs_ofD)
  have a3: "heap s3 a = Some (FsObj ?e2)" using ad na by (simp add: f(3) l(3))
  then have a4: "fs_of (heap s4) a = Some ?e2" using C fs_ofD [OF e] by (auto simp: fs_of_def)
  show thesis
  proof (rule that [OF l(1,2) a2 _ fr(1) c fr(2) a4])
    show "dmass_free K (fs_name ?e2) s2 = Some s3" using f(1) by simp
    fix s' :: "'k vfs_state" and q
    assume h': "heap s' = (heap s4)(a \<mapsto> FsObj (?e2\<lparr>fs_name := p, fs_pNode := q\<rparr>))"
      and t': "pTree s' = pTree s" and p: "p \<noteq> NULL"
    have h3: "heap s3 p = None" and h4: "heap s4 = (heap s3)(p \<mapsto> Str nm)" using C p by auto
    have pa: "p \<noteq> a" using h3 a3 by auto
    have d3: "heap s3 d = Some (FsObj ?ed)" using ad na by (simp add: f(3) l(3))
    then have pd: "p \<noteq> d" using h3 by auto
    text \<open>Every block but the four that change.\<close>
    have other: "heap s' x = heap s x" if "heap s x \<noteq> None" "x \<noteq> a" "x \<noteq> d" "x \<noteq> fs_name e" for x
    proof -
      have "heap s3 x = heap s x" using that by (simp add: f(3) l(3))
      then have "x \<noteq> p" using h3 that by auto
      then show ?thesis using that \<open>heap s3 x = heap s x\<close> by (simp add: h' h4)
    qed
    have ent: "\<exists>ex xn. fs_of (heap s) x = Some ex \<and> str_of (heap s) (fs_name ex) = Some xn \<and>
        str_of (heap s') (fs_name ex) = Some xn \<and> fs_name ex \<noteq> p \<and>
        dview (heap s) x = Some (fs_next ex, fs_next_dir ex, xn)"
      if x: "x \<in> set (addrs ts) \<union> set (addrs ka)" for x
    proof -
      have "\<exists>y. dview (heap s) x = Some y" using x forest_dview_Some [OF F] forest_dview_Some [OF fk] by blast
      then obtain ex xn where ex: "fs_of (heap s) x = Some ex" "str_of (heap s) (fs_name ex) = Some xn"
        "dview (heap s) x = Some (fs_next ex, fs_next_dir ex, xn)" by (auto simp: dview_Some)
      have "x \<noteq> a" using x dj da by auto
      then have nx: "fs_name ex \<noteq> fs_name e"
        using names_ownedD [OF own, of x a "fs_name e"] x ex(1) e by (auto simp: name_of_def)
      have s: "heap s (fs_name ex) = Some (Str xn)" using str_ofD [OF ex(2)] by simp
      then have sn: "fs_name ex \<noteq> a" "fs_name ex \<noteq> d" using fs_ofD [OF e] fs_ofD [OF ed(1)] by auto
      have "heap s' (fs_name ex) = Some (Str xn)" using other [of "fs_name ex"] s sn nx by simp
      then have "str_of (heap s') (fs_name ex) = Some xn" using ex(2) by (auto simp: str_of_def split: if_splits)
      moreover have "heap s3 (fs_name ex) = Some (Str xn)" using s sn nx by (simp add: f(3) l(3))
      then have "fs_name ex \<noteq> p" using h3 by auto
      ultimately show ?thesis using ex by blast
    qed
    have same: "fs_of (heap s') x = fs_of (heap s) x" if m: "x \<in> set (addrs ts) \<union> set (addrs ka)" "x \<noteq> d" for x
    proof -
      obtain ex where ex: "fs_of (heap s) x = Some ex" using ent [OF m(1)] by blast
      have "x \<noteq> a" using m dj da by auto
      moreover have "x \<noteq> fs_name e" using on fs_ofD [OF ex] by auto
      ultimately have "heap s' x = heap s x" using other [of x] m(2) fs_ofD [OF ex] by simp
      then show ?thesis by (simp add: fs_of_def)
    qed
    have fd: "fs_of (heap s') d = Some ?ed"
      using d3 ad pd fs_ofD [OF ed(1)] by (simp add: h' h4 fs_of_def)
    have fa: "fs_of (heap s') a = Some (?e2\<lparr>fs_name := p, fs_pNode := q\<rparr>)"
      using fs_ofD [OF e] by (simp add: h' fs_of_def)
    have sa: "str_of (heap s') p = Some nm" using p pa by (simp add: h' h4 str_of_def)
    have V: "dview (heap s') x = dview (heap s) x" if "x \<in> set (addrs ts) \<union> set (addrs ka)" "x \<noteq> d" for x
      using ent [OF that(1)] same [OF that] by (auto simp: dview_def)
    have Vd: "dview (heap s) d = Some (fs_next ed, fs_next_dir ed, dn)"
      "dview (heap s') d = Some (fs_next ed, a, dn)"
      using ed fd ent [of d] d by (auto simp: dview_def)
    have Va: "dview (heap s') a = Some (fs_next_dir ed, fs_next_dir e, nm)"
      using fa sa by (simp add: dview_def)
    define v where "v = (dview (heap s'))(d := Some (fs_next ed, fs_next_dir ed, dn))"
    have nk: "d \<notin> set (addrs ka)" using dj d by auto
    have f1: "forest v (pTree s) ts"
      using F forest_cong [of ts v "dview (heap s)"] V Vd by (simp add: v_def)
    have f2: "forest v (fs_next_dir e) ka"
    proof -
      have "v x = dview (heap s) x" if "x \<in> set (addrs ka)" for x using that V nk by (auto simp: v_def)
      then show ?thesis using fk forest_cong [of ka v "dview (heap s)"] by blast
    qed
    have "forest (v(d := Some (fs_next ed, a, dn))) (pTree s) (add_kid d (DNode a nm ka) ts)"
      by (rule forest_add_node [OF f1 D d _ _ _ _ nm f2 nk])
        (use ad dj Va fs_ofD [OF e] in \<open>auto simp: v_def\<close>)
    moreover have "v(d := Some (fs_next ed, a, dn)) = dview (heap s')"
      by (rule ext) (simp add: v_def Vd(2))
    ultimately have FF: "forest (dview (heap s')) (pTree s') (add_kid d (DNode a nm ka) ts)" using t' by simp
    have "distinct (addrs [DNode a nm ka])" "set (addrs [DNode a nm ka]) \<inter> set (addrs ts) = {}"
      using da dj by auto
    then have DD: "distinct (addrs (add_kid d (DNode a nm ka) ts))" by (rule distinct_add_kid [OF D])
    have "names_owned (heap s') (insert a (set (addrs ts) \<union> set (addrs ka)))"
    proof (rule names_owned_insert)
      show "names_owned (heap s) (set (addrs ts) \<union> set (addrs ka))"
        using own by (rule names_owned_mono) auto
      show "\<forall>x \<in> set (addrs ts) \<union> set (addrs ka).
          name_of (heap s') x = name_of (heap s) x \<and> name_of (heap s) x \<noteq> name_of (heap s') a"
      proof
        fix x assume x: "x \<in> set (addrs ts) \<union> set (addrs ka)"
        obtain ex where ex: "fs_of (heap s) x = Some ex" "fs_name ex \<noteq> p" using ent [OF x] by blast
        have "name_of (heap s') x = name_of (heap s) x"
          using same [OF x] fd ed(1) by (cases "x = d") (simp_all add: name_of_def)
        then show "name_of (heap s') x = name_of (heap s) x \<and> name_of (heap s) x \<noteq> name_of (heap s') a"
          using ex fa by (simp add: name_of_def)
      qed
    qed
    moreover have "set (addrs (add_kid d (DNode a nm ka) ts)) = insert a (set (addrs ts) \<union> set (addrs ka))"
      using set_addrs_add_kid [OF d, of "DNode a nm ka"] by auto
    ultimately show "ns s' (add_kid d (DNode a nm ka) ts)" using FF DD by (simp add: ns_def)
  qed simp_all
qed

text \<open>After unlinking the entry stands apart.\<close>

lemma unlink_apart:
  assumes n: "ns s ts" and d: "DNode d dn ks \<in> subtrees ts" and t: "t \<in> set ks"
    and e: "fs_of (heap s) (d_addr t) = Some e"
  obtains l s1 where "find_dir_link (heap s) (d_addr t) (DirHead d) = Some (Some (l, d_addr t))"
    "unlink_dir l (d_addr t) s = Some s1" "frame s s1"
    "apart s1 (del_kid d (d_addr t) ts) (d_addr t) e (d_kids t)"
proof -
  have D: "distinct (addrs ts)" and O: "names_owned (heap s) (set (addrs ts))"
    and F: "forest (dview (heap s)) (pTree s) ts" using n by (simp_all add: ns_def)
  obtain a nm ka where tn: "t = DNode a nm ka" by (cases t)
  have "a \<in> d_addr ` set ks" using t tn by (metis dtree.sel(1) imageI)
  then obtain pre nma kb post where ks: "ks = pre @ DNode a nma kb # post" "a \<notin> d_addr ` set pre"
    by (rule kid_split)
  have split: "set (addrs (del_kid d a ts)) \<inter> set (addrs [t]) = {}"
    "set (addrs ts) = set (addrs (del_kid d a ts)) \<union> set (addrs [t])"
    using addrs_del_kid_split [OF D d t] tn by simp_all
  have st: "DNode a nm ka \<in> subtrees ts" using d t tn kids_subtrees roots_subtrees by blast
  have dt: "distinct (addrs [t])"
  proof -
    have "distinct (addrs ka)" by (rule distinct_kids [OF D st])
    moreover have "a \<notin> set (addrs ka)"
      using D st by (induction ts rule: addrs.induct) auto
    ultimately show ?thesis using tn by simp
  qed
  obtain ea where ea: "fs_of (heap s) a = Some ea" "forest (dview (heap s)) (fs_next_dir ea) ka"
    "str_of (heap s) (fs_name ea) = Some nm" using dir_entry [OF n st] by metis
  have ee: "ea = e" using ea(1) e tn by simp
  show thesis
  proof (rule unlink_kid [OF n d ks])
    fix l s1 el
    assume u: "unlink_dir (if pre = [] then DirHead d else SibNext (d_addr (last pre))) a s = Some s1"
      "ns s1 (del_kid d a ts)" "frame s s1" "l \<in> set (addrs ts)" "l \<noteq> a" "l = d \<or> l \<in> d_addr ` set ks"
      "fs_of (heap s) l = Some el"
      "\<exists>nx nd. heap s1 = (heap s)(l \<mapsto> FsObj (el\<lparr>fs_next := nx, fs_next_dir := nd\<rparr>))"
    then obtain nx nd where h: "heap s1 = (heap s)(l \<mapsto> FsObj (el\<lparr>fs_next := nx, fs_next_dir := nd\<rparr>))" by blast
    have lk: "l \<notin> set (addrs ka)"
    proof
      assume l: "l \<in> set (addrs ka)"
      have "d \<notin> set (addrs ks)" using D d by (induction ts rule: addrs.induct) auto
      moreover have "set (addrs ka) \<subseteq> set (addrs ks)"
        using kids_addrs [of a nm ka ks] roots_subtrees [OF t] tn by blast
      ultimately have "l \<noteq> d" using l by blast
      then obtain w where w: "w \<in> set ks" "d_addr w = l" using u(6) by auto
      then have "t = w" using root_disjoint [OF distinct_kids [OF D d] t w(1), of l] l tn by simp
      then have "l = d_addr t" using w(2) by simp
      then show False using u(5) tn by simp
    qed
    have same: "fs_of (heap s1) x = fs_of (heap s) x" if "x \<noteq> l" for x using that h by (simp add: deref)
    have str: "str_of (heap s1) = str_of (heap s)"
      using u(7) h by (auto simp: fun_eq_iff str_of_def dest!: fs_ofD)
    have e1: "fs_of (heap s1) a = Some e" using same u(5) ea(1) ee by simp
    have "dview (heap s1) x = dview (heap s) x" if "x \<in> set (addrs ka)" for x
      using that lk same [of x] by (cases "x = l"; cases "fs_of (heap s) x") (auto simp: dview_def str)
    then have f1: "forest (dview (heap s1)) (fs_next_dir e) ka"
      using ea(2) ee forest_cong [of ka "dview (heap s1)" "dview (heap s)"] by simp
    have "name_of (heap s1) x = name_of (heap s) x" for x
      using u(7) h fs_ofD [OF u(7)] by (auto simp: name_of_def deref)
    then have o1: "names_owned (heap s1) (set (addrs ts))" using O names_owned_cong by metis
    have at: "set (addrs ts) = set (addrs (del_kid d a ts)) \<union> set (a # addrs ka)" using split(2) tn by simp
    have "apart s1 (del_kid d a ts) a e ka"
      unfolding apart_def at [symmetric]
      using u(2) e1 f1 o1 split(1) dt str ea(3) ee tn by auto
    then show thesis
      using that find_kid(2) [OF n d ks] u(1,3) tn by simp
  qed
qed

section \<open>Rename\<close>

lemma rename_moves:
  fixes K :: "'k sce_kernel" and s :: "'k vfs_state"
  assumes K: "alloc_contract K" "node_contract K" and n: "ns s ts"
    and v: "node_of s node = Some n" "node_of s node2 = Some n2" "vn_mount n = vn_mount n2"
      "vn_mount n \<noteq> NULL" "node_of s node3 = Some n3"
    and d: "DNode (vn_dev_info n) dn ks \<in> subtrees ts" and d3: "vn_dev_info n3 \<in> set (addrs ts)"
    and p: "cs \<noteq> []" "\<forall>c \<in> set cs. good_comp c" and nm: "CHR 0x00 \<notin> set nm"
    and t: "\<forall>t e. resolve ts cs = Some t \<longrightarrow> fs_of (heap s) (d_addr t) = Some e \<longrightarrow>
      vn_dev_info n3 \<notin> set (addrs [t]) \<and> node_of s (fs_pNode e) \<noteq> None"
  shows "case resolve ts cs of
      None \<Rightarrow> vop_rename K (Some (join_path cs)) nm node node2 node3 s = Some (0x80010002, NULL, s)
    | Some t \<Rightarrow> \<exists>e. fs_of (heap s) (d_addr t) = Some e \<and>
       (if d_addr t \<notin> d_addr ` set ks
        then vop_rename K (Some (join_path cs)) nm node node2 node3 s = Some (0x80010002, NULL, s)
        else \<exists>r q s'. vop_rename K (Some (join_path cs)) nm node node2 node3 s = Some (r, q, s') \<and>
          (failed r \<and> heap s' = heap s \<and> pTree s' = pTree s \<or>
           r = 0 \<and> (\<exists>e' w. fs_of (heap s') (d_addr t) = Some e' \<and> fs_data e' = fs_data e \<and>
             fs_stat e' = fs_stat e \<and> fs_refer e' = fs_refer e \<and> fs_pNode e' = q \<and>
             node_of s' q = Some w \<and> vn_dev_info w = d_addr t \<and>
             (fs_name e' = NULL \<or>
              ns s' (add_kid (vn_dev_info n3) (DNode (d_addr t) nm (d_kids t))
                (del_kid (vn_dev_info n) (d_addr t) ts))))))"
proof (cases "resolve ts cs")
  case None
  then show ?thesis using lookup_resolve [OF n p] v by (simp add: vop_rename_def)
next
  case (Some t)
  let ?d = "vn_dev_info n" and ?a = "d_addr t"
  have g: "get_fs_entry (Some (join_path cs)) s = Some (0, ?a)" using lookup_resolve [OF n p] Some by simp
  have sub: "DNode ?a (d_name t) (d_kids t) \<in> subtrees ts" using resolve_subtree [OF Some] by simp
  then obtain e where e: "fs_of (heap s) ?a = Some e" using dir_entry [OF n] by metis
  have D: "distinct (addrs ts)" using n by (simp add: ns_def)
  have t3: "vn_dev_info n3 \<notin> set (addrs [t])" "node_of s (fs_pNode e) \<noteq> None" using t Some e by blast+
  show ?thesis
  proof (cases "?a \<in> d_addr ` set ks")
    case False
    then show ?thesis using find_kid(1) [OF n d False] g v e Some by (simp add: vop_rename_def)
  next
    case True
    then have tk: "t \<in> set ks"
    proof -
      from True obtain u where u: "u \<in> set ks" "d_addr u = ?a" by auto
      have "u \<in> subtrees ts" using u(1) roots_subtrees kids_subtrees [OF d] by blast
      then have "u = t" using subtree_unique [OF D _ resolve_subtree [OF Some] u(2)] by blast
      then show ?thesis using u(1) by simp
    qed
    from K(2) v(4) show ?thesis
    proof (cases rule: new_vnode_cases [of K "vn_mount n" s])
      case (fail r s0)
      obtain l s1 where f: "find_dir_link (heap s) ?a (DirHead ?d) = Some (Some (l, ?a))"
        by (rule unlink_apart [OF n d tk e]) blast
      show ?thesis using f g v e Some fail True by (simp add: vop_rename_def)
    next
      case (ok q s0 v0)
      have n0: "ns s0 ts" using n ns_heap [OF ok(2,3)] by simp
      have e0: "fs_of (heap s0) ?a = Some e" using e ok(2) by simp
      obtain l s1 where f: "find_dir_link (heap s0) ?a (DirHead ?d) = Some (Some (l, ?a))"
          "unlink_dir l ?a s0 = Some s1" "frame s0 s1" "apart s1 (del_kid ?d ?a ts) ?a e (d_kids t)"
        by (rule unlink_apart [OF n0 d tk e0]) blast
      have d3': "vn_dev_info n3 \<in> set (addrs (del_kid ?d ?a ts))"
        using addrs_del_kid_split(2) [OF D d tk] d3 t3(1) by blast
      from K(1) f(4) d3' nm show ?thesis
      proof (rule relink_entry)
        fix s2 s3 x s4 e2
        assume m: "link_first (vn_dev_info n3) ?a s1 = Some s2" "frame s1 s2" "fs_of (heap s2) ?a = Some e2"
          "dmass_free K (fs_name e2) s2 = Some s3" "frame s1 s3" "name_cpy K nm s3 = (x, s4)"
          "frame s1 s4" "fs_of (heap s4) ?a = Some e2" "fs_data e2 = fs_data e" "fs_stat e2 = fs_stat e"
          "fs_pNode e2 = fs_pNode e" "fs_refer e2 = fs_refer e" "fs_pDmassFsX e2 = fs_pDmassFsX e"
          and N: "\<And>(s' :: 'k vfs_state) q. heap s' = (heap s4)(?a \<mapsto> FsObj (e2\<lparr>fs_name := x, fs_pNode := q\<rparr>)) \<Longrightarrow>
             pTree s' = pTree s1 \<Longrightarrow> x \<noteq> NULL \<Longrightarrow>
             ns s' (add_kid (vn_dev_info n3) (DNode ?a nm (d_kids t)) (del_kid ?d ?a ts))"
        have no: "node_of s1 = node_of s0" "node_of s4 = node_of s0"
          using frame_of [OF f(3)] frame_of [OF m(7)] by simp_all
        have n3': "node_of s1 node3 = Some n3" using ok(8) [of node3] v(5) no by simp
        obtain w where w: "node_of s4 (fs_pNode e) = Some w" using ok(8) [OF t3(2)] t3(2) no by auto
        have v4: "node_of s4 q = Some v0" using ok(7) no by simp
        let ?e3 = "e2\<lparr>fs_name := x\<rparr>"
        define s5 where "s5 = put_node q (v0\<lparr>vn_mount := vn_mount w, vn_st_size := vn_st_size w,
             vn_dev_info := ?a, vn_prev_node := fs_pNode e, vn_unk_74 := 1,
             vn_unk_78 := vn_unk_78 w, vn_st_attr := vn_st_attr w, vn_unk_8C := vn_unk_8C w,
             vn_some_counter_58 := 1\<rparr>) (put ?a (FsObj ?e3) s4)"
        define s6 where "s6 = put ?a (FsObj (?e3\<lparr>fs_pNode := q\<rparr>)) s5"
        have fh: "find_dir_link (heap s) ?a (DirHead ?d) = Some (Some (l, ?a))" using f(1) ok(2) by simp
        have R: "vop_rename K (Some (join_path cs)) nm node node2 node3 s = Some (0, q, s6)"
          using g v fh ok(1) f(2) n3' m(1,3,4,6,8,11) w v4 no(1)
          by (simp add: vop_rename_def s5_def s6_def deref Let_def)
        have h6: "heap s6 = (heap s4)(?a \<mapsto> FsObj (e2\<lparr>fs_name := x, fs_pNode := q\<rparr>))"
          by (simp add: s6_def s5_def)
        have p6: "pTree s6 = pTree s1" using m(7) by (simp add: s6_def s5_def frame_def)
        have f6: "fs_of (heap s6) ?a = Some (e2\<lparr>fs_name := x, fs_pNode := q\<rparr>)"
          using fs_ofD [OF e] by (simp add: h6 deref)
        have w6: "\<exists>w. node_of s6 q = Some w \<and> vn_dev_info w = ?a"
          using ok(5) by (simp add: s6_def s5_def deref)
        show ?thesis using R f6 w6 N [OF h6 p6] m(9,10,12) e True Some by auto
      qed
    qed
  qed
qed


end
