(* ===== verification/Vfs_Kept.thy ===== *)
theory Vfs_Kept
  imports Vop_Rename_Props Vop_Stat
begin

text \<open>
  What every operation that does not rename, make or remove an entry keeps: the tree root, the links
  and the names of all entries, and that each entry has its data block for itself.
\<close>

section \<open>Data blocks\<close>

definition sound :: "dheap \<Rightarrow> bool" where
  "sound h \<longleftrightarrow>
     (\<forall>a e. fs_of h a = Some e \<longrightarrow> fs_data e \<noteq> NULL \<longrightarrow> buf_of h (fs_data e) \<noteq> None) \<and>
     (\<forall>a b e e'. fs_of h a = Some e \<longrightarrow> fs_of h b = Some e' \<longrightarrow> fs_data e \<noteq> NULL \<longrightarrow>
        fs_data e = fs_data e' \<longrightarrow> a = b)"

lemma soundD:
  "sound h \<Longrightarrow> fs_of h a = Some e \<Longrightarrow> fs_data e \<noteq> NULL \<Longrightarrow> \<exists>b. buf_of h (fs_data e) = Some b"
  "sound h \<Longrightarrow> fs_of h a = Some e \<Longrightarrow> fs_of h b = Some e' \<Longrightarrow> fs_data e \<noteq> NULL \<Longrightarrow>
     fs_data e = fs_data e' \<Longrightarrow> a = b"
  unfolding sound_def by blast+

text \<open>\<open>h'\<close> has the entries of \<open>h\<close> with data blocks of \<open>h\<close>, or none.\<close>

lemma sound_sub:
  assumes "sound h"
    and "\<And>a e'. fs_of h' a = Some e' \<Longrightarrow> fs_data e' \<noteq> NULL \<Longrightarrow>
      (\<exists>e. fs_of h a = Some e \<and> fs_data e = fs_data e') \<and>
      (\<forall>b. buf_of h (fs_data e') = Some b \<longrightarrow> buf_of h' (fs_data e') \<noteq> None)"
  shows "sound h'"
  unfolding sound_def
proof (intro conjI allI impI)
  fix a e assume "fs_of h' a = Some e" "fs_data e \<noteq> NULL"
  from assms(2) [OF this] this show "buf_of h' (fs_data e) \<noteq> None" using soundD(1) [OF assms(1)] by metis
next
  fix a b e e' assume *: "fs_of h' a = Some e" "fs_of h' b = Some e'" "fs_data e \<noteq> NULL" "fs_data e = fs_data e'"
  have "fs_data e' \<noteq> NULL" using * by simp
  from assms(2) [OF *(1,3)] assms(2) [OF *(2) this] obtain f f'
    where "fs_of h a = Some f" "fs_data f = fs_data e" "fs_of h b = Some f'" "fs_data f' = fs_data e'" by blast
  then show "a = b" using soundD(2) [OF assms(1)] * by metis
qed

section \<open>Links and names\<close>

definition same_links :: "dheap \<Rightarrow> dheap \<Rightarrow> bool" where
  "same_links h h' \<longleftrightarrow>
     (\<forall>a e. fs_of h a = Some e \<longrightarrow> (\<exists>e'. fs_of h' a = Some e' \<and> fs_next e' = fs_next e \<and>
        fs_next_dir e' = fs_next_dir e \<and> fs_name e' = fs_name e)) \<and>
     (\<forall>a x. str_of h a = Some x \<longrightarrow> str_of h' a = Some x)"

lemma same_links_refl [simp]: "same_links h h"
  by (simp add: same_links_def)

lemma same_links_trans: "same_links h h' \<Longrightarrow> same_links h' h'' \<Longrightarrow> same_links h h''"
  unfolding same_links_def by (intro conjI allI impI; elim conjE) (fastforce, blast)

lemma same_links_view:
  assumes "same_links h h'" "dview h a = Some x"
  shows "dview h' a = Some x" "name_of h' a = name_of h a"
proof -
  obtain e nm where e: "fs_of h a = Some e" "str_of h (fs_name e) = Some nm"
    "x = (fs_next e, fs_next_dir e, nm)"
    using assms(2) by (auto simp: dview_def split: option.splits)
  from assms(1) e(1) obtain e' where e': "fs_of h' a = Some e'" "fs_next e' = fs_next e"
    "fs_next_dir e' = fs_next_dir e" "fs_name e' = fs_name e"
    unfolding same_links_def by blast
  have "str_of h' (fs_name e') = Some nm" using assms(1) e(2) e'(4) unfolding same_links_def by simp
  then show "dview h' a = Some x" "name_of h' a = name_of h a"
    using e e' by (simp_all add: dview_def name_of_def)
qed

lemma ns_same_links:
  assumes "ns s ts" "same_links (heap s) (heap s')" "pTree s' = pTree s"
  shows "ns s' ts"
proof -
  have F: "forest (dview (heap s)) (pTree s) ts" using assms(1) by (simp add: ns_def)
  have v: "dview (heap s') a = dview (heap s) a \<and> name_of (heap s') a = name_of (heap s) a"
    if "a \<in> set (addrs ts)" for a
    using forest_dview_Some [OF F that] same_links_view [OF assms(2)] by auto
  have "forest (dview (heap s')) (pTree s') ts"
    using F v assms(3) forest_cong [of ts "dview (heap s')" "dview (heap s)"] by simp
  moreover have "names_owned (heap s') (set (addrs ts))"
    using assms(1) v names_owned_cong [of "set (addrs ts)" "heap s'" "heap s"] by (simp add: ns_def)
  ultimately show ?thesis using assms(1) by (simp add: ns_def)
qed

section \<open>What the operations keep\<close>

definition kept :: "'k vfs_state \<Rightarrow> 'k vfs_state \<Rightarrow> bool" where
  "kept s s' \<longleftrightarrow> pTree s' = pTree s \<and>
     (sound (heap s) \<longrightarrow> sound (heap s') \<and> same_links (heap s) (heap s'))"

named_theorems kept

lemma kept_refl [kept, simp]: "kept s s"
  by (simp add: kept_def)

lemma kept_trans: "kept s s' \<Longrightarrow> kept s' s'' \<Longrightarrow> kept s s''"
  unfolding kept_def using same_links_trans by metis

lemma kept_heap: "heap s' = heap s \<Longrightarrow> pTree s' = pTree s \<Longrightarrow> kept s s'"
  by (simp add: kept_def)

lemma kept_node [simp]: "kept s (put_node p v s') = kept s s'"
  and kept_fobj [simp]: "kept s (put_fobj p f s') = kept s s'"
  by (simp_all add: kept_def)

lemma kept_put:
  assumes "\<And>h. h = (heap s)(p \<mapsto> x) \<Longrightarrow> sound (heap s) \<Longrightarrow> sound h"
    and "same_links (heap s) ((heap s)(p \<mapsto> x))"
  shows "kept s (put p x s)"
  using assms by (simp add: kept_def)

lemma kept_put_fs:
  assumes "fs_of (heap s) p = Some e" "fs_name e' = fs_name e" "fs_next e' = fs_next e"
    "fs_next_dir e' = fs_next_dir e" "fs_data e' = fs_data e"
  shows "kept s (put p (FsObj e') s)"
proof -
  let ?h = "(heap s)(p \<mapsto> FsObj e')"
  have h: "heap s p = Some (FsObj e)" "p \<noteq> NULL" using fs_ofD [OF assms(1)] by auto
  have b: "buf_of ?h = buf_of (heap s)" "str_of ?h = str_of (heap s)"
    using h by (auto simp: fun_eq_iff deref buf_of_def str_of_def)
  have f: "fs_of ?h a = (if a = p then Some e' else fs_of (heap s) a)" for a
    using h by (simp add: deref)
  show ?thesis
  proof (rule kept_put)
    show "sound h" if "h = ?h" "sound (heap s)" for h
      using that(2) by (rule sound_sub) (use assms f b that(1) in \<open>auto split: if_splits\<close>)
    show "same_links (heap s) ?h" using assms by (auto simp: same_links_def f b)
  qed
qed

lemma kept_put_fsx:
  assumes "heap s p = None \<or> fsx_of (heap s) p \<noteq> None"
  shows "kept s (put p (FsXObj x) s)"
proof -
  let ?h = "(heap s)(p \<mapsto> FsXObj x)"
  have n: "fs_of (heap s) p = None" "buf_of (heap s) p = None" "str_of (heap s) p = None"
    using assms by (auto simp: fs_of_def buf_of_def str_of_def dest!: fsx_ofD)
  then have f: "fs_of ?h = fs_of (heap s)" "buf_of ?h = buf_of (heap s)" "str_of ?h = str_of (heap s)"
    by (auto simp: fun_eq_iff deref)
  show ?thesis
  proof (rule kept_put)
    show "sound h" if "h = ?h" "sound (heap s)" for h
      using that(2) by (rule sound_sub) (use f that(1) in auto)
  qed (simp add: same_links_def f)
qed

lemma kept_free_fsx:
  assumes "fsx_of (heap s) p \<noteq> None" "dmass_free K p s = Some s'"
  shows "kept s s'"
proof -
  obtain x where x: "heap s p = Some (FsXObj x)" "p \<noteq> NULL" using assms(1) by (auto dest: fsx_ofD)
  have h: "heap s' = (heap s)(p := None)" "pTree s' = pTree s"
    using assms(2) x by (auto simp: dmass_free_def)
  have f: "fs_of (heap s') = fs_of (heap s)" "buf_of (heap s') = buf_of (heap s)" "str_of (heap s') = str_of (heap s)"
    using x by (auto simp: h fun_eq_iff fs_of_def buf_of_def str_of_def)
  have "sound (heap s')" if "sound (heap s)" using that by (rule sound_sub) (use f in auto)
  then show ?thesis using f h(2) by (auto simp: kept_def same_links_def)
qed

lemma kept_put_buf:
  assumes "buf_of (heap s) p \<noteq> None"
  shows "kept s (put p (Buf b) s)"
proof -
  obtain c where c: "heap s p = Some (Buf c)" "p \<noteq> NULL" using assms by (auto dest: buf_ofD)
  let ?h = "(heap s)(p \<mapsto> Buf b)"
  from c have f: "fs_of ?h = fs_of (heap s)" "str_of ?h = str_of (heap s)"
    by (auto simp: fun_eq_iff fs_of_def str_of_def)
  have g: "buf_of (heap s) q = Some y \<Longrightarrow> buf_of ?h q \<noteq> None" for q y by (auto simp: deref)
  show ?thesis
  proof (rule kept_put)
    show "sound h" if "h = ?h" "sound (heap s)" for h
      using that(2) by (rule sound_sub) (use f(1) g that(1) in auto)
  qed (simp add: same_links_def f)
qed

lemma kept_write_block:
  assumes "write_block p off bs s = Some s'"
  shows "kept s s'"
  using assms kept_put_buf by (auto simp: write_block_def split: if_splits option.splits)


section \<open>A new data block\<close>

text \<open>The entry \<open>a\<close> gets a fresh block, or none, in place of its old one.\<close>

lemma kept_new_data:
  assumes e: "fs_of (heap s) a = Some e" and t: "t = NULL \<or> t \<noteq> NULL \<and> heap s t = None"
    and h: "heap s' = (\<lambda>h. (if fs_data e = NULL then h else h(fs_data e := None))(a \<mapsto> FsObj (e\<lparr>fs_data := t\<rparr>)))
      (if t = NULL then heap s else (heap s)(t \<mapsto> Buf b))"
    and p: "pTree s' = pTree s"
  shows "kept s s'"
proof (cases "sound (heap s)")
  case S: True
  have a: "heap s a = Some (FsObj e)" "a \<noteq> NULL" using fs_ofD [OF e] by auto
  have d: "fs_data e = NULL \<or> (\<exists>b. heap s (fs_data e) = Some (Buf b))"
    using soundD(1) [OF S e] by (auto dest: buf_ofD)
  then have da: "fs_data e \<noteq> a" using a by auto
  have td: "t = NULL \<or> fs_data e \<noteq> t" using t d by auto
  have ta: "t \<noteq> a" using t a by auto
  have fs: "fs_of (heap s') x = (if x = a then Some (e\<lparr>fs_data := t\<rparr>) else fs_of (heap s) x)" for x
    using a d t da by (auto simp: h fs_of_def)
  have str: "str_of (heap s) x = Some y \<Longrightarrow> str_of (heap s') x = Some y" for x y
    using a d t by (auto simp: h str_of_def dest!: str_ofD split: if_splits)
  have buf: "buf_of (heap s') x \<noteq> None" if "buf_of (heap s) x \<noteq> None" "x \<noteq> fs_data e" for x
    using that a t by (auto simp: h buf_of_def dest!: buf_ofD)
  have bt: "t \<noteq> NULL \<Longrightarrow> buf_of (heap s') t \<noteq> None" using td ta by (auto simp: h buf_of_def)
  have "sound (heap s')"
    unfolding sound_def
  proof (intro conjI allI impI)
    fix x f assume f: "fs_of (heap s') x = Some f" "fs_data f \<noteq> NULL"
    show "buf_of (heap s') (fs_data f) \<noteq> None"
    proof (cases "x = a")
      case True
      then show ?thesis using f fs bt by auto
    next
      case False
      then have fx: "fs_of (heap s) x = Some f" using f(1) fs by simp
      then have "fs_data f \<noteq> fs_data e" using soundD(2) [OF S fx e f(2)] False by auto
      then show ?thesis using buf soundD(1) [OF S fx f(2)] by auto
    qed
  next
    fix x y f g assume f: "fs_of (heap s') x = Some f" "fs_of (heap s') y = Some g" "fs_data f \<noteq> NULL"
      "fs_data f = fs_data g"
    have old: "fs_of (heap s) z = Some k \<Longrightarrow> fs_data k \<noteq> NULL \<Longrightarrow> fs_data k \<noteq> t" for z k
      using soundD(1) [OF S, of z k] t by (auto dest!: buf_ofD)
    show "x = y"
    proof (cases "x = a")
      case True
      show ?thesis
      proof (rule ccontr)
        assume "x \<noteq> y"
        then show False using True f fs old [of y g] by auto
      qed
    next
      case False
      then have fx: "fs_of (heap s) x = Some f" using f(1) fs by simp
      show ?thesis
      proof (cases "y = a")
        case True
        then show ?thesis using f fs old [OF fx f(3)] by auto
      next
        case False
        then have fy: "fs_of (heap s) y = Some g" using f(2) fs by simp
        show ?thesis by (rule soundD(2) [OF S fx fy f(3,4)])
      qed
    qed
  qed
  moreover have "same_links (heap s) (heap s')"
    unfolding same_links_def
  proof (intro conjI allI impI)
    fix x f assume "fs_of (heap s) x = Some f"
    then show "\<exists>e'. fs_of (heap s') x = Some e' \<and> fs_next e' = fs_next f \<and>
        fs_next_dir e' = fs_next_dir f \<and> fs_name e' = fs_name f"
      using e fs [of x] by (cases "x = a") simp_all
  qed (rule str)
  ultimately show ?thesis using p by (simp add: kept_def)
qed (simp add: kept_def p)

text \<open>The sequence that growing and resizing share.\<close>

lemma kept_move_data:
  assumes K: "alloc_contract K" and e: "fs_of (heap s) a = Some e"
    and m: "dmass_malloc K n s = (t, s1)" "t \<noteq> NULL"
    and w: "write_block t 0 bs s1 = Some s2" and f: "dmass_free K (fs_data e) s2 = Some s3"
  shows "kept s (put a (FsObj (e\<lparr>fs_data := t\<rparr>)) s3)"
  using K m(1)
proof (cases rule: malloc_cases)
  case (block b)
  have "\<exists>c. heap s2 = (heap s)(t \<mapsto> Buf c) \<and> pTree s2 = pTree s"
    using w block by (auto simp: write_block_def frame_def split: if_splits option.splits)
  then obtain c where c: "heap s2 = (heap s)(t \<mapsto> Buf c)" "pTree s2 = pTree s" by blast
  have h3: "heap s3 = (if fs_data e = NULL then heap s2 else (heap s2)(fs_data e := None))" "pTree s3 = pTree s2"
    using f by (auto simp: dmass_free_def split: if_splits)
  show ?thesis
    by (rule kept_new_data [OF e, of t _ c]) (use block c h3 in auto)
qed (use m(2) in simp)

lemma kept_drop_data:
  assumes e: "fs_of (heap s) a = Some e" and f: "dmass_free K (fs_data e) s = Some s1"
  shows "kept s (put a (FsObj (e\<lparr>fs_data := NULL\<rparr>)) s1)"
proof -
  have "heap s1 = (if fs_data e = NULL then heap s else (heap s)(fs_data e := None))" "pTree s1 = pTree s"
    using f by (auto simp: dmass_free_def split: if_splits)
  then show ?thesis by (intro kept_new_data [OF e, of NULL]) auto
qed

section \<open>Handles\<close>

lemma kept_create_ctl:
  assumes K: "alloc_contract K" and c: "create_dmass_ctl_data K d key s = Some (p, s')"
  shows "kept s s'"
proof -
  obtain q s1 where m: "dmass_malloc K (sizeof_fsx K) s = (q, s1)" by fastforce
  from K m show ?thesis
  proof (cases rule: malloc_cases)
    case null
    then show ?thesis using c m by (auto simp: create_dmass_ctl_data_def frame_def intro: kept_heap)
  next
    case (block b)
    then obtain e where e: "fs_of (heap s1) d = Some e"
      "s' = put d (FsObj (e\<lparr>fs_pDmassFsX := q, fs_refer := fs_refer e + 1\<rparr>))
         (put q (FsXObj \<lparr>fsx_next = fs_pDmassFsX e, fsx_handler_index = key, fsx_current = NULL\<rparr>) s1)"
      using c m by (auto simp: create_dmass_ctl_data_def Let_def bind_eq_Some_conv)
    let ?x = "\<lparr>fsx_next = fs_pDmassFsX e, fsx_handler_index = key, fsx_current = NULL\<rparr>"
    let ?s2 = "put q (FsXObj ?x) s1"
    have "kept s (put q (FsXObj ?x) s)" using block(2) by (intro kept_put_fsx) simp
    then have "kept s ?s2" using block(4,5) by (simp add: kept_def frame_def)
    moreover have "d \<noteq> q" using e(1) block(1,4) by (auto simp: deref)
    then have "fs_of (heap ?s2) d = Some e" using e(1) by (simp add: deref)
    then have "kept ?s2 s'" unfolding e(2) by (rule kept_put_fs) simp_all
    ultimately show ?thesis by (rule kept_trans)
  qed
qed

lemma kept_write_ctl:
  assumes "write_ctl l v s = Some s'"
  shows "kept s s'" "fsx_of (heap s) p \<noteq> None \<Longrightarrow> fsx_of (heap s') p \<noteq> None"
proof -
  show "kept s s'" using assms
    by (cases l) (auto intro!: kept_put_fs kept_put_fsx)
  assume p: "fsx_of (heap s) p \<noteq> None"
  have "fs_of (heap s) p = None" using p fs_not_others by (cases "fs_of (heap s) p") auto
  then show "fsx_of (heap s') p \<noteq> None" using assms p
    by (cases l) (auto simp: deref)
qed

lemma kept_delete_ctl:
  assumes "delete_dmass_ctl_data K d key s = Some (r, s')"
  shows "kept s s'"
proof -
  obtain c where c: "find_ctl_link (heap s) key (CtlHead d) = Some c"
    using assms by (auto simp: delete_dmass_ctl_data_def bind_eq_Some_conv)
  show ?thesis
  proof (cases c)
    case None
    then show ?thesis using assms c by (auto simp: delete_dmass_ctl_data_def)
  next
    case (Some lp)
    obtain l p where lp: "lp = (l, p)" by (cases lp)
    obtain x s1 e where s: "fsx_of (heap s) p = Some x" "write_ctl l (fsx_next x) s = Some s1"
      "fs_of (heap s1) d = Some e"
      "dmass_free K p (put d (FsObj (e\<lparr>fs_refer := fs_refer e - 1\<rparr>)) s1) = Some s'"
      using assms c Some lp by (auto simp: delete_dmass_ctl_data_def bind_eq_Some_conv Let_def)
    let ?s2 = "put d (FsObj (e\<lparr>fs_refer := fs_refer e - 1\<rparr>)) s1"
    have x1: "fsx_of (heap s1) p \<noteq> None" by (rule kept_write_ctl(2) [OF s(2)]) (simp add: s(1))
    then have "d \<noteq> p" using fs_not_others [OF s(3)] by auto
    then have "fsx_of (heap ?s2) p \<noteq> None" using x1 by (simp add: deref)
    then have "kept ?s2 s'" using s(4) by (rule kept_free_fsx)
    moreover have "kept s1 ?s2" using s(3) by (rule kept_put_fs) simp_all
    ultimately show ?thesis using kept_write_ctl(1) [OF s(2)] kept_trans by blast
  qed
qed

section \<open>The operations\<close>

lemma kept_grow_data:
  assumes K: "alloc_contract K" and g: "grow_data K a w s = Some (r, s')"
  shows "kept s s'"
proof -
  obtain e where e: "fs_of (heap s) a = Some e" using g by (auto simp: grow_data_def bind_eq_Some_conv)
  define n :: SceSize where "n = ucast (block_align (st_size (fs_stat e) + ucast w))"
  obtain t s1 where m: "dmass_malloc K n s = (t, s1)" by fastforce
  have n: "kept s s1" if "t = NULL"
    using K m by (cases rule: malloc_cases) (use that in \<open>auto simp: frame_def intro: kept_heap\<close>)
  show ?thesis
  proof (cases "block_align (st_size (fs_stat e)) <s block_align (st_size (fs_stat e) + ucast w) \<and> t \<noteq> NULL")
    case True
    then obtain bs s2 s3 where s: "write_block t 0 bs s1 = Some s2" "dmass_free K (fs_data e) s2 = Some s3"
      "s' = put a (FsObj (e\<lparr>fs_data := t\<rparr>)) s3"
      using g e m by (auto simp: grow_data_def bind_eq_Some_conv Let_def n_def)
    show ?thesis unfolding s(3) using kept_move_data [OF K e m _ s(1,2)] True by blast
  next
    case False
    then show ?thesis using g e m n by (auto simp: grow_data_def Let_def n_def split: if_splits)
  qed
qed

lemma kept_set_stat:
  "fs_of (heap s) p = Some e \<Longrightarrow> kept s (put p (FsObj (e\<lparr>fs_stat := t\<rparr>)) s)"
  by (rule kept_put_fs) simp_all

lemma kept_open: "alloc_contract K \<Longrightarrow> vop_open K node fo s = Some (r, s') \<Longrightarrow> kept s s'"
  by (auto simp: vop_open_def bind_eq_Some_conv Let_def split: if_splits dest: kept_create_ctl)

lemma kept_close: "vop_close K node fo s = Some (r, s') \<Longrightarrow> kept s s'"
  by (auto simp: vop_close_def bind_eq_Some_conv Let_def split: if_splits dest: kept_delete_ctl)

lemma kept_dclose: "vop_dclose K node fo s = Some (r, s') \<Longrightarrow> kept s s'"
  by (auto simp: vop_dclose_def bind_eq_Some_conv Let_def split: if_splits dest: kept_delete_ctl)

lemma kept_dopen:
  assumes "alloc_contract K" "vop_dopen K node fo s = Some (r, s')"
  shows "kept s s'"
  using assms(2) kept_create_ctl [OF assms(1)] kept_put_fsx kept_trans
  by (fastforce simp: vop_dopen_def bind_eq_Some_conv Let_def split: if_splits)

lemma kept_dread: "vop_dread node fo s = Some (r, out, s') \<Longrightarrow> kept s s'"
  by (auto simp: vop_dread_def bind_eq_Some_conv Let_def split: if_splits intro: kept_put_fsx)

lemma kept_read: "vop_read node fo n s = Some (r, out, s') \<Longrightarrow> kept s s'"
  by (auto simp: vop_read_def bind_eq_Some_conv Let_def split: if_splits)

lemma kept_pread: "vop_pread node fo n off s = Some (r, out, s') \<Longrightarrow> s' = s"
  by (auto simp: vop_pread_def bind_eq_Some_conv Let_def split: if_splits)

lemma kept_lseek:
  assumes "vop_lseek K node fo off wh s = Some (r, s')"
  shows "kept s s'"
proof -
  from assms obtain n f where nf: "node_of s node = Some n" "fobj_of s fo = Some f"
    by (auto simp: vop_lseek_def bind_eq_Some_conv)
  define t where "t = (if wh = SEEK_SET K then Some off
      else if wh = SEEK_CUR K then Some (fo_offset f + off)
      else if wh = SEEK_END K then Some (vn_st_size n + off) else None)"
  have "(case t of None \<Rightarrow> Some (0xFFFFFFFF80010016, s)
     | Some offset \<Rightarrow> if vn_st_size n <s offset \<or> offset <s 0 then Some (0xFFFFFFFF80010016, s)
         else Some (offset, put_fobj fo (f\<lparr>fo_offset := offset\<rparr>) s)) = Some (r, s')"
    using assms nf unfolding t_def by (simp add: vop_lseek_def)
  then show ?thesis by (cases t) (auto split: if_splits)
qed

text \<open>The end of both writes.\<close>

lemma put_put_fobj [simp]: "put p x (put_fobj fo f s) = put_fobj fo f (put p x s)"
  by (simp add: put_def put_fobj_def)

lemma kept_write_end:
  assumes "kept s s1" "fs_of (heap s1) a = Some e" "write_block (fs_data e) off bs s1 = Some s2"
  shows "kept s s2" "kept s (put a (FsObj (e\<lparr>fs_stat := t\<rparr>)) s2)"
proof -
  show k: "kept s s2" by (rule kept_trans [OF assms(1) kept_write_block [OF assms(3)]])
  have e2: "fs_of (heap s2) a = Some e"
    using assms(2,3) fs_ofD [OF assms(2)]
    by (auto simp: write_block_def deref dest!: buf_ofD split: if_splits option.splits)
  show "kept s (put a (FsObj (e\<lparr>fs_stat := t\<rparr>)) s2)" by (rule kept_trans [OF k kept_set_stat [OF e2]])
qed

text \<open>Both writes, after their checks: grow, copy, and possibly a new size.\<close>

lemma kept_write_body:
  assumes K: "alloc_contract K"
    and g: "grow_data K a w s = Some (res, s1)"
    and b: "(if failed res then Some (res, s1)
       else if length src < unat w then None
       else do {
         e \<leftarrow> fs_of (heap s1) a;
         s2 \<leftarrow> write_block (fs_data e) off (take (unat w) src) s1;
         F e s2
       }) = Some (r, s')"
    and F: "\<And>e s2. F e s2 = Some (r, s') \<Longrightarrow> \<exists>t. kept s s2 \<longrightarrow> kept s (put a (FsObj (e\<lparr>fs_stat := t\<rparr>)) s2) \<longrightarrow> kept s s'"
  shows "kept s s'"
proof (cases "failed res")
  case True
  then show ?thesis using b kept_grow_data [OF K g] by simp
next
  case False
  then obtain e s2 where e: "fs_of (heap s1) a = Some e"
    "write_block (fs_data e) off (take (unat w) src) s1 = Some s2" "F e s2 = Some (r, s')"
    using b by (auto simp: bind_eq_Some_conv split: if_splits)
  obtain t where "kept s s2 \<longrightarrow> kept s (put a (FsObj (e\<lparr>fs_stat := t\<rparr>)) s2) \<longrightarrow> kept s s'"
    using F [OF e(3)] by blast
  then show ?thesis using kept_write_end [OF kept_grow_data [OF K g] e(1,2)] by blast
qed

lemma kept_write:
  assumes K: "alloc_contract K" and w: "vop_write K node fo src n s = Some (r, s')"
  shows "kept s s'"
proof -
  from w obtain nd f where nf: "node_of s node = Some nd" "fobj_of s fo = Some f"
    by (auto simp: vop_write_def bind_eq_Some_conv)
  note W = w [unfolded vop_write_def Let_def, simplified nf Option.bind.bind_lunit]
  show ?thesis
  proof (cases "s' = s")
    case False
    then obtain g where g: "grow_data K (vn_dev_info nd) n s = Some g"
      using W by (auto simp: bind_eq_Some_conv split: if_splits)
    obtain res s1 where gs: "g = (res, s1)" by (cases g)
    show ?thesis
      by (rule kept_write_body [OF K g [unfolded gs], where src = src and off = "unat (fo_offset f)"
            and r = r and F = "\<lambda>e s2. let off = fo_offset f + ucast n;
               s = put_fobj fo (f\<lparr>fo_offset := off\<rparr>) s2 in
             if st_size (fs_stat e) \<le>s off
             then Some (n, put_node node (nd\<lparr>vn_st_size := off\<rparr>)
                 (put (vn_dev_info nd) (FsObj (e\<lparr>fs_stat := (fs_stat e)\<lparr>st_size := off\<rparr>\<rparr>)) s))
             else Some (n, s)"])
        (use W False g gs in \<open>auto simp: Let_def bind_eq_Some_conv split: if_splits\<close>)
  qed simp
qed

lemma kept_pwrite:
  assumes K: "alloc_contract K" and w: "vop_pwrite K node fo src n offset s = Some (r, s')"
  shows "kept s s'"
proof -
  from w obtain nd f where nf: "node_of s node = Some nd" "fobj_of s fo = Some f"
    by (auto simp: vop_pwrite_def bind_eq_Some_conv)
  note W = w [unfolded vop_pwrite_def Let_def, simplified nf Option.bind.bind_lunit]
  show ?thesis
  proof (cases "s' = s")
    case False
    then obtain g where g: "grow_data K (vn_dev_info nd) n s = Some g"
      using W by (auto simp: bind_eq_Some_conv split: if_splits)
    obtain res s1 where gs: "g = (res, s1)" by (cases g)
    show ?thesis
      by (rule kept_write_body [OF K g [unfolded gs], where src = src and off = "unat offset"
            and r = r and F = "\<lambda>e s. let off = offset + ucast n in
             if st_size (fs_stat e) <s off
             then Some (n, put_node node (nd\<lparr>vn_st_size := off\<rparr>)
                 (put (vn_dev_info nd) (FsObj (e\<lparr>fs_stat := (fs_stat e)\<lparr>st_size := off\<rparr>\<rparr>)) s))
             else Some (n, s)"])
        (use W False g gs in \<open>auto simp: Let_def bind_eq_Some_conv split: if_splits\<close>)
  qed simp
qed

section \<open>Status\<close>

lemma kept_chstat_size:
  assumes K: "alloc_contract K" and c: "chstat_size K a z node s = Some (r, s')"
  shows "kept s s'"
proof (cases "z <s 0")
  case False
  then obtain e where e: "fs_of (heap s) a = Some e"
    using c by (auto simp: chstat_size_def bind_eq_Some_conv)
  obtain t s1 where m: "dmass_malloc K (ucast z) s = (t, s1)" by fastforce
  have n: "kept s s1" if "t = NULL"
    using K m by (cases rule: malloc_cases) (use that in \<open>auto simp: frame_def intro: kept_heap\<close>)
  text \<open>The state after the data block was exchanged.\<close>
  have "\<exists>res s2. kept s s2 \<and> (if failed res then Some (res, s2)
      else do {
        e \<leftarrow> fs_of (heap s2) a;
        let s = put a (FsObj (e\<lparr>fs_stat := (fs_stat e)\<lparr>st_size := z\<rparr>\<rparr>)) s2;
        n \<leftarrow> node_of s node;
        Some (0, put_node node (n\<lparr>vn_st_size := z\<rparr>) s)
      }) = Some (r, s')"
  proof (cases "z = 0")
    case True
    then obtain s2 where "dmass_free K (fs_data e) s = Some s2"
      using c e by (auto simp: chstat_size_def bind_eq_Some_conv)
    then show ?thesis using c e True kept_drop_data [OF e, of K s2]
      by (intro exI [of _ 0] exI [of _ "put a (FsObj (e\<lparr>fs_data := NULL\<rparr>)) s2"]) (simp add: chstat_size_def)
  next
    case z: False
    consider (big) "0xFFFFFFFF <s z" | (null) "\<not> 0xFFFFFFFF <s z" "t = NULL"
      | (ok) "\<not> 0xFFFFFFFF <s z" "t \<noteq> NULL" by blast
    then show ?thesis
    proof cases
      case big
      then show ?thesis using c e z False
        by (intro exI [of _ "-1"] exI [of _ s]) (auto simp: chstat_size_def)
    next
      case null
      then show ?thesis using c e z False m n
        by (intro exI [of _ "-2"] exI [of _ s1]) (simp add: chstat_size_def)
    next
      case ok
      then obtain bs s2 s3 where s: "read_block (heap s1) (fs_data e) 0 (unat (ucast (st_size (fs_stat e)) :: u32)) = Some bs"
        "write_block t 0 bs s1 = Some s2" "dmass_free K (fs_data e) s2 = Some s3"
        using c e z False m by (auto simp: chstat_size_def bind_eq_Some_conv)
      have "kept s (put a (FsObj (e\<lparr>fs_data := t\<rparr>)) s3)"
        by (rule kept_move_data [OF K e m ok(2) s(2,3)])
      then show ?thesis using c e z False m ok s
        by (intro exI [of _ 0] exI [of _ "put a (FsObj (e\<lparr>fs_data := t\<rparr>)) s3"]) (simp add: chstat_size_def)
    qed
  qed
  then obtain res s2 where k: "kept s s2" and R: "(if failed res then Some (res, s2)
      else do {
        e \<leftarrow> fs_of (heap s2) a;
        let s = put a (FsObj (e\<lparr>fs_stat := (fs_stat e)\<lparr>st_size := z\<rparr>\<rparr>)) s2;
        n \<leftarrow> node_of s node;
        Some (0, put_node node (n\<lparr>vn_st_size := z\<rparr>) s)
      }) = Some (r, s')" by blast
  then show ?thesis
    using kept_trans [OF k] kept_set_stat [of s2 a]
    by (auto simp: bind_eq_Some_conv Let_def split: if_splits)
qed (use c in \<open>simp add: chstat_size_def\<close>)

lemma kept_apply_chstat:
  assumes K: "alloc_contract K" and c: "apply_chstat K a b st node s = Some (r, s')"
  shows "kept s s'"
proof -
  obtain e where e: "fs_of (heap s) a = Some e" using c by (auto simp: apply_chstat_def bind_eq_Some_conv)
  define s1 where "s1 = (if b AND SCE_CST_MODE \<noteq> 0
    then put a (FsObj (e\<lparr>fs_stat := (fs_stat e)\<lparr>st_mode := st_mode st\<rparr>\<rparr>)) s else s)"
  have k1: "kept s s1" using kept_set_stat [OF e] by (simp add: s1_def)
  show ?thesis
  proof (cases "b AND SCE_CST_MODE \<noteq> 0 \<and> st_mode (fs_stat e) AND S_IFMT K \<noteq> st_mode st AND S_IFMT K")
    case True
    then show ?thesis using c e by (simp add: apply_chstat_def)
  next
    case False
    note c' = c [unfolded apply_chstat_def e Option.bind.bind_lunit if_not_P [OF False] Let_def, folded s1_def]
    then obtain res s2 where s2: "(if b AND SCE_CST_SIZE \<noteq> 0 then chstat_size K a (st_size st) node s1
        else Some (0, s1)) = Some (res, s2)"
      by (cases "if b AND SCE_CST_SIZE \<noteq> 0 then chstat_size K a (st_size st) node s1 else Some (0, s1)") auto
    have "kept s1 s2" using s2 kept_chstat_size [OF K] by (auto split: if_splits)
    then have k2: "kept s s2" by (rule kept_trans [OF k1])
    have "s' = s2 \<or> (\<exists>e t. fs_of (heap s2) a = Some e \<and> s' = put a (FsObj (e\<lparr>fs_stat := t\<rparr>)) s2)"
    proof (cases "failed res")
      case True
      then show ?thesis using c' unfolding s2 by simp
    next
      case nf: False
      then show ?thesis using c' unfolding s2 by (auto simp only: Option.bind.bind_lunit case_prod_conv
          if_False bind_eq_Some_conv option.inject prod.inject)
    qed
    then show ?thesis using k2 kept_trans [OF k2 kept_set_stat] by blast
  qed
qed

lemma kept_chstat: "alloc_contract K \<Longrightarrow> vop_chstat K path b st node s = Some (r, s') \<Longrightarrow> kept s s'"
  by (auto simp: vop_chstat_def bind_eq_Some_conv split: if_splits intro: kept_apply_chstat)

lemma kept_chstat_by_fd: "alloc_contract K \<Longrightarrow> vop_chstat_by_fd K b st node s = Some (r, s') \<Longrightarrow> kept s s'"
  by (auto simp: vop_chstat_by_fd_def bind_eq_Some_conv split: if_splits intro: kept_apply_chstat)

section \<open>Vnodes\<close>

lemma kept_inactive:
  assumes "vop_inactive node s = Some (r, s')"
  shows "kept s s'"
  using assms
  by (auto simp: vop_inactive_def bind_eq_Some_conv split: if_splits intro!: kept_put_fs)

lemma kept_new_vnode:
  assumes "new_vnode K m s = Some (r, p, s')"
  shows "heap s' = heap s" "pTree s' = pTree s"
  using assms
  by (auto simp: new_vnode_def get_new_node_def node_wait_def free_vnode_def bind_eq_Some_conv Let_def
      split: if_splits prod.splits)

lemma kept_part_init:
  assumes "vop_part_init K path nm node s = Some (r, q, s')"
  shows "kept s s'"
proof (cases "s' = s")
  case False
  then obtain n res a where g: "node_of s node = Some n" "get_fs_entry path s = Some (res, a)"
    using assms by (auto simp: vop_part_init_def Let_def bind_eq_Some_conv split: if_splits)
  obtain r1 p s1 where v: "new_vnode K (vn_mount n) s = Some (r1, p, s1)"
    using assms False g by (auto simp: vop_part_init_def Let_def bind_eq_Some_conv split: if_splits)
  have k: "kept s s1" by (rule kept_heap [OF kept_new_vnode [OF v]])
  show ?thesis
  proof (cases "s' = s1")
    case no: False
    then obtain e w where e: "fs_of (heap s1) a = Some e"
      "s' = put_node p w (put a (FsObj (e\<lparr>fs_pNode := p\<rparr>)) s1)"
      using assms False g v by (auto simp: vop_part_init_def Let_def bind_eq_Some_conv split: if_splits)
    have "kept s1 (put a (FsObj (e\<lparr>fs_pNode := p\<rparr>)) s1)" using e(1) by (rule kept_put_fs) simp_all
    then show ?thesis using kept_trans [OF k] e(2) by simp
  qed (use k in simp)
qed simp

end
