(* ===== verification/Vfs_Machine.thy ===== *)
theory Vfs_Machine
  imports Vfs_Kept
begin

text \<open>
  The file system as a state machine: a step is a call of one of its operations as the kernel makes
  it.  In every state that is reached from a mount the name space is a tidy tree and every entry has
  its data block for itself.
\<close>

section \<open>Data blocks under the name space operations\<close>

lemma sound_put_fs:
  assumes "sound (heap s)" "fs_of (heap s) p = Some e" "fs_data e' = fs_data e"
  shows "sound (heap (put p (FsObj e') s))"
proof -
  have h: "heap s p = Some (FsObj e)" "p \<noteq> NULL" using fs_ofD [OF assms(2)] by auto
  let ?h = "(heap s)(p \<mapsto> FsObj e')"
  have b: "buf_of ?h = buf_of (heap s)" using h by (auto simp: fun_eq_iff deref buf_of_def)
  have f: "fs_of ?h a = (if a = p then Some e' else fs_of (heap s) a)" for a using h by (simp add: deref)
  have "sound ?h" using assms(1) by (rule sound_sub) (use assms f b in \<open>auto split: if_splits\<close>)
  then show ?thesis by simp
qed

text \<open>Blocks that are no entry's data, changed in any way that leaves the entries.\<close>

lemma sound_upd:
  assumes "sound h" "fs_of (h(p := x)) = fs_of h"
    and "\<forall>a e. fs_of h a = Some e \<longrightarrow> fs_data e \<noteq> NULL \<longrightarrow> fs_data e \<noteq> p"
  shows "sound (h(p := x))"
  using assms(1)
proof (rule sound_sub)
  fix a e assume *: "fs_of (h(p := x)) a = Some e" "fs_data e \<noteq> NULL"
  then have "fs_of h a = Some e" "fs_data e \<noteq> p" using assms(2,3) by auto
  then show "(\<exists>f. fs_of h a = Some f \<and> fs_data f = fs_data e) \<and>
      (\<forall>b. buf_of h (fs_data e) = Some b \<longrightarrow> buf_of (h(p := x)) (fs_data e) \<noteq> None)"
    by (auto simp: buf_of_def)
qed

lemma not_data_str:
  assumes "sound h" "str_of h p \<noteq> None \<or> h p = None"
  shows "\<forall>a e. fs_of h a = Some e \<longrightarrow> fs_data e \<noteq> NULL \<longrightarrow> fs_data e \<noteq> p"
  using soundD(1) [OF assms(1)] assms(2) by (fastforce dest: buf_ofD str_ofD)

lemma not_data_fs:
  assumes "sound h" "fs_of h p \<noteq> None"
  shows "\<forall>a e. fs_of h a = Some e \<longrightarrow> fs_data e \<noteq> NULL \<longrightarrow> fs_data e \<noteq> p"
  using soundD(1) [OF assms(1)] assms(2) by (fastforce dest: buf_ofD fs_ofD)

lemma sound_name_cpy:
  assumes "alloc_contract K" "sound (heap s)" "name_cpy K nm s = (p, s')"
  shows "sound (heap s')"
  using assms(1,3)
proof (cases rule: name_cpy_cases)
  case block
  show ?thesis unfolding block(3)
    by (rule sound_upd [OF assms(2)])
      (use block(2) not_data_str [OF assms(2)] in \<open>auto simp: fun_eq_iff fs_of_def\<close>)
qed (use assms(2) in simp)

lemma sound_free_str:
  assumes "sound (heap s)" "str_of (heap s) p \<noteq> None" "dmass_free K p s = Some s'"
  shows "sound (heap s')"
proof -
  obtain x where x: "heap s p = Some (Str x)" "p \<noteq> NULL" using assms(2) by (auto dest: str_ofD)
  then have h: "heap s' = (heap s)(p := None)" using assms(3) by (auto simp: dmass_free_def)
  show ?thesis unfolding h
    by (rule sound_upd [OF assms(1)])
      (use x not_data_str [OF assms(1)] assms(2) in \<open>auto simp: fun_eq_iff fs_of_def\<close>)
qed

lemma sound_create:
  assumes K: "alloc_contract K" and S: "sound (heap s)" and c: "create_dmass_info K mode nm s = Some (p, s')"
  shows "sound (heap s')"
  using K
proof (cases rule: create_info_cases [of K mode nm s])
  case (null s1)
  then show ?thesis using c S by simp
next
  case (entry q s1 e)
  then have s: "s1 = s'" "q = p" using c by simp_all
  show ?thesis using S
  proof (rule sound_sub)
    fix a f assume f: "fs_of (heap s') a = Some f" "fs_data f \<noteq> NULL"
    then have "a \<noteq> p" using entry(6,10) s by auto
    then have o: "fs_of (heap s) a = Some f" using entry(15) f(1) s by simp
    then obtain b where b: "buf_of (heap s) (fs_data f) = Some b" using soundD(1) [OF S o f(2)] by blast
    then have "heap s' (fs_data f) = heap s (fs_data f)"
      using entry(5) s buf_ofD [OF b] by (simp add: untouched_def)
    then show "(\<exists>g. fs_of (heap s) a = Some g \<and> fs_data g = fs_data f) \<and>
        (\<forall>b. buf_of (heap s) (fs_data f) = Some b \<longrightarrow> buf_of (heap s') (fs_data f) \<noteq> None)"
      using o by (simp add: buf_of_def)
  qed
qed

lemma sound_link_first:
  assumes "sound (heap s)" "link_first d p s = Some s'"
  shows "sound (heap s')" "fs_of (heap s) a = Some e \<Longrightarrow> \<exists>e'. fs_of (heap s') a = Some e' \<and> fs_name e' = fs_name e"
    "str_of (heap s') = str_of (heap s)"
proof -
  obtain ed ep ed2 where e: "fs_of (heap s) d = Some ed" "fs_of (heap s) p = Some ep"
    "fs_of (heap (put p (FsObj (ep\<lparr>fs_next := fs_next_dir ed\<rparr>)) s)) d = Some ed2"
    "s' = put d (FsObj (ed2\<lparr>fs_next_dir := p\<rparr>)) (put p (FsObj (ep\<lparr>fs_next := fs_next_dir ed\<rparr>)) s)"
    using assms(2) by (auto simp: link_first_def bind_eq_Some_conv Let_def simp del: heap_put)
  have "sound (heap (put p (FsObj (ep\<lparr>fs_next := fs_next_dir ed\<rparr>)) s))"
    by (rule sound_put_fs [OF assms(1) e(2)]) simp
  then show "sound (heap s')" unfolding e(4) by (rule sound_put_fs [OF _ e(3)]) simp
  have dp: "d \<noteq> NULL" "p \<noteq> NULL" using fs_ofD [OF e(1)] fs_ofD [OF e(2)] by auto
  show "fs_of (heap s) a = Some e \<Longrightarrow> \<exists>e'. fs_of (heap s') a = Some e' \<and> fs_name e' = fs_name e"
    using e dp by (auto simp: deref split: if_splits)
  show "str_of (heap s') = str_of (heap s)"
    using e(1,2,4) fs_ofD [OF e(1)] fs_ofD [OF e(2)] by (auto simp: fun_eq_iff str_of_def)
qed

lemma sound_attach:
  assumes "sound (heap s)" "attach_entry K n parent p u a s = Some (r, q, s')"
  shows "sound (heap s')"
proof -
  obtain s1 r1 q1 s2 where l: "link_first (vn_dev_info n) p s = Some s1"
    "new_vnode K (vn_mount n) s1 = Some (r1, q1, s2)"
    using assms(2) by (auto simp: attach_entry_def bind_eq_Some_conv)
  have S2: "sound (heap s2)" using sound_link_first(1) [OF assms(1) l(1)] kept_new_vnode [OF l(2)] by simp
  show ?thesis
  proof (cases "failed r1")
    case True
    then show ?thesis using assms(2) l S2 by (simp add: attach_entry_def)
  next
    case False
    then obtain e w where e: "fs_of (heap s2) p = Some e"
      "heap s' = heap (put p (FsObj (e\<lparr>fs_pNode := q1\<rparr>)) s2)"
      using assms(2) l by (auto simp: attach_entry_def bind_eq_Some_conv Let_def)
    show ?thesis unfolding e(2) by (rule sound_put_fs [OF S2 e(1)]) simp
  qed
qed

text \<open>The root of the tree stays.\<close>

lemma pTree_create:
  assumes K: "alloc_contract K" and c: "create_dmass_info K mode nm s = Some (p, s')"
  shows "pTree s' = pTree s"
  using K by (cases rule: create_info_cases [of K mode nm s]) (use c in \<open>simp_all add: frame_def\<close>)

lemma pTree_attach:
  assumes "attach_entry K n parent p u a s = Some (r, q, s')"
  shows "pTree s' = pTree s"
proof -
  obtain s1 r1 q1 s2 where l: "link_first (vn_dev_info n) p s = Some s1"
    "new_vnode K (vn_mount n) s1 = Some (r1, q1, s2)"
    using assms by (auto simp: attach_entry_def bind_eq_Some_conv)
  have "pTree s1 = pTree s" using l(1) by (auto simp: link_first_def bind_eq_Some_conv Let_def)
  then show ?thesis using assms l kept_new_vnode(2) [OF l(2)]
    by (auto simp: attach_entry_def bind_eq_Some_conv Let_def split: if_splits)
qed

lemma new_entry_cases:
  assumes "vop_create K path nm node s = Some (r, q, s') \<or> vop_mkdir K path nm node s = Some (r, q, s')"
  shows "s' = s \<or> (\<exists>mode p s1. create_dmass_info K mode nm s = Some (p, s1) \<and>
    (s' = s1 \<or> (\<exists>n u a. attach_entry K n node p u a s1 = Some (r, q, s'))))"
  using assms
proof
  assume c: "vop_create K path nm node s = Some (r, q, s')"
  then obtain res a where g: "get_fs_entry path s = Some (res, a)"
    by (auto simp: vop_create_def bind_eq_Some_conv)
  show ?thesis
  proof (cases "failed res")
    case True
    then obtain p s1 where m: "create_dmass_info K (S_IWUSR K OR S_IRUSR K OR S_IFREG K) nm s = Some (p, s1)"
      using c g by (auto simp: vop_create_def create_dmass_file_info_def bind_eq_Some_conv)
    have "s' = s1 \<or> (\<exists>n u a. attach_entry K n node p u a s1 = Some (r, q, s'))"
      using c g True m by (auto simp: vop_create_def create_dmass_file_info_def bind_eq_Some_conv split: if_splits)
    then show ?thesis using m by blast
  qed (use c g in \<open>simp add: vop_create_def\<close>)
next
  assume c: "vop_mkdir K path nm node s = Some (r, q, s')"
  then obtain n d where n: "node_of s node = Some n" "fs_of (heap s) (vn_dev_info n) = Some d"
    by (auto simp: vop_mkdir_def bind_eq_Some_conv)
  show ?thesis
  proof (cases "S_ISDIR K (st_mode (fs_stat d))")
    case D: True
    then obtain res a where g: "get_fs_entry path s = Some (res, a)"
      using c n by (auto simp: vop_mkdir_def bind_eq_Some_conv)
    show ?thesis
    proof (cases "failed res")
      case True
      then obtain p s1 where m: "create_dmass_info K (S_IWUSR K OR S_IRUSR K OR S_IFDIR K) nm s = Some (p, s1)"
        using c n D g by (auto simp: vop_mkdir_def create_dmass_dir_info_def bind_eq_Some_conv)
      have "s' = s1 \<or> (\<exists>n u a. attach_entry K n node p u a s1 = Some (r, q, s'))"
        using c n D g True m by (auto simp: vop_mkdir_def create_dmass_dir_info_def bind_eq_Some_conv split: if_splits)
      then show ?thesis using m by blast
    qed (use c n D g in \<open>simp add: vop_mkdir_def\<close>)
  qed (use c n in \<open>simp add: vop_mkdir_def\<close>)
qed

lemma new_entry_keeps:
  assumes K: "alloc_contract K" and S: "sound (heap s)"
    and c: "vop_create K path nm node s = Some (r, q, s') \<or> vop_mkdir K path nm node s = Some (r, q, s')"
  shows "pTree s' = pTree s" "sound (heap s')"
proof -
  from new_entry_cases [OF c] have "pTree s' = pTree s \<and> sound (heap s')"
  proof (elim disjE exE conjE)
    fix mode p s1 assume m: "create_dmass_info K mode nm s = Some (p, s1)" and "s' = s1"
    then show ?thesis using pTree_create [OF K m] sound_create [OF K S m] by simp
  next
    fix mode p s1 n u a
    assume m: "create_dmass_info K mode nm s = Some (p, s1)" and "attach_entry K n node p u a s1 = Some (r, q, s')"
    then show ?thesis using pTree_create [OF K m] sound_create [OF K S m] pTree_attach sound_attach by metis
  qed (use S in simp)
  then show "pTree s' = pTree s" "sound (heap s')" by simp_all
qed

lemma sound_unlink:
  assumes "sound (heap s)" "unlink_dir l p s = Some s'"
  shows "sound (heap s')" "fs_of (heap s) a = Some e \<Longrightarrow> \<exists>e'. fs_of (heap s') a = Some e' \<and> fs_name e' = fs_name e"
    "str_of (heap s') = str_of (heap s)"
proof -
  obtain x ex ex' where x: "fs_of (heap s) x = Some ex" "s' = put x (FsObj ex') s" "fs_data ex' = fs_data ex"
    "fs_name ex' = fs_name ex"
    using assms(2) by (cases l) (auto simp: unlink_dir_def bind_eq_Some_conv)
  show "sound (heap s')" unfolding x(2) by (rule sound_put_fs [OF assms(1) x(1,3)])
  show "fs_of (heap s) a = Some e \<Longrightarrow> \<exists>e'. fs_of (heap s') a = Some e' \<and> fs_name e' = fs_name e"
    using x fs_ofD [OF x(1)] by (auto simp: deref)
  show "str_of (heap s') = str_of (heap s)"
    using x fs_ofD [OF x(1)] by (auto simp: fun_eq_iff str_of_def)
qed

lemma sound_delete:
  assumes S: "sound (heap s)" and e: "fs_of (heap s) p = Some e" "str_of (heap s) (fs_name e) \<noteq> None"
    and d: "delete_dmass_info K p s = Some (r, s')"
  shows "sound (heap s')"
proof (cases "fs_refer e \<noteq> 0 \<or> fs_pDmassFsX e \<noteq> NULL")
  case True
  then show ?thesis using d e S by (auto simp: delete_dmass_info_def split: if_splits)
next
  case False
  let ?n = "fs_name e"
  have pn: "?n \<noteq> p" "?n \<noteq> NULL" using e fs_not_others [OF e(1)] by (auto dest: str_ofD)
  obtain s1 where 1: "dmass_free K ?n s = Some s1" using d e(1) False
    by (auto simp: delete_dmass_info_def bind_eq_Some_conv)
  have h1: "heap s1 = (heap s)(?n := None)" using 1 pn(2) by (auto simp: dmass_free_def split: if_splits)
  have S1: "sound (heap s1)" by (rule sound_free_str [OF S e(2) 1])
  have e1: "fs_of (heap s1) p = Some e" using e(1) pn(1) by (simp add: h1 deref)
  let ?s2 = "put p (FsObj (e\<lparr>fs_name := NULL\<rparr>)) s1"
  have S2: "sound (heap ?s2)" by (rule sound_put_fs [OF S1 e1]) simp
  have e2: "fs_of (heap ?s2) p = Some (e\<lparr>fs_name := NULL\<rparr>)" using fs_ofD [OF e1] by (simp add: deref)
  obtain s3 where 3: "dmass_free K (fs_data e) ?s2 = Some s3" using d e(1) False 1
    by (auto simp: delete_dmass_info_def bind_eq_Some_conv Let_def)
  let ?s4 = "put p (FsObj (e\<lparr>fs_name := NULL, fs_data := NULL\<rparr>)) s3"
  have "kept ?s2 (put p (FsObj ((e\<lparr>fs_name := NULL\<rparr>)\<lparr>fs_data := NULL\<rparr>)) s3)"
    by (rule kept_drop_data [OF e2, of K]) (use 3 in simp)
  then have S4: "sound (heap ?s4)" using S2 by (simp add: kept_def)
  have p: "p \<noteq> NULL" using fs_ofD [OF e(1)] by simp
  have h: "heap s' = (heap ?s4)(p := None)"
    using d e(1) False 1 3 p by (auto simp: delete_dmass_info_def dmass_free_def bind_eq_Some_conv Let_def)
  have f4: "fs_of (heap ?s4) p = Some (e\<lparr>fs_name := NULL, fs_data := NULL\<rparr>)" using p by (simp add: deref)
  show ?thesis unfolding h using S4
  proof (rule sound_sub)
    fix a f assume f: "fs_of ((heap ?s4)(p := None)) a = Some f" "fs_data f \<noteq> NULL"
    then have "a \<noteq> p" "fs_of (heap ?s4) a = Some f" by (auto simp: deref split: if_splits)
    moreover then have "fs_data f \<noteq> p" using not_data_fs [OF S4, of p] f4 f(2) by simp
    ultimately show "(\<exists>g. fs_of (heap ?s4) a = Some g \<and> fs_data g = fs_data f) \<and>
        (\<forall>b. buf_of (heap ?s4) (fs_data f) = Some b \<longrightarrow> buf_of ((heap ?s4)(p := None)) (fs_data f) \<noteq> None)"
      by (auto simp: buf_of_def)
  qed
qed

lemma sound_unlink_and_delete:
  assumes n: "ns s ts" and S: "sound (heap s)" and a: "a \<in> set (addrs ts)"
    and u: "unlink_and_delete K d a s = Some (r, s')"
  shows "sound (heap s')"
proof -
  obtain c where c: "find_dir_link (heap s) a (DirHead d) = Some c"
    using u by (auto simp: unlink_and_delete_def bind_eq_Some_conv)
  show ?thesis
  proof (cases c)
    case (Some lp)
    obtain l p where lp: "lp = (l, p)" by (cases lp)
    then obtain s1 where s1: "unlink_dir l p s = Some s1" "delete_dmass_info K a s1 = Some (r, s')"
      using u c Some by (auto simp: unlink_and_delete_def bind_eq_Some_conv)
    obtain y where "dview (heap s) a = Some y"
      using forest_dview_Some [of "dview (heap s)" "pTree s" ts a] n a by (auto simp: ns_def)
    then obtain e nm where e: "fs_of (heap s) a = Some e" "str_of (heap s) (fs_name e) = Some nm"
      by (cases y) (auto simp: dview_Some)
    note U = sound_unlink [OF S s1(1)]
    obtain e1 where "fs_of (heap s1) a = Some e1" "fs_name e1 = fs_name e" using U(2) [OF e(1)] by blast
    then show ?thesis using sound_delete [OF U(1) _ _ s1(2)] U(3) e(2) by simp
  qed (use u c S in \<open>simp add: unlink_and_delete_def\<close>)
qed

section \<open>Steps\<close>

text \<open>
  \<open>dir_at s cs node\<close>: the vnode is that of the directory with the path \<open>cs\<close>; the kernel has looked it
  up.  \<open>named s\<close>: every entry has a name.
\<close>

definition dir_at :: "'k vfs_state \<Rightarrow> string list \<Rightarrow> addr \<Rightarrow> bool" where
  "dir_at s cs node \<longleftrightarrow> cs \<noteq> [] \<and> (\<forall>c \<in> set cs. good_comp c) \<and>
     (\<exists>n. node_of s node = Some n \<and> vn_mount n \<noteq> NULL \<and>
        get_fs_entry (Some (join_path cs)) s = Some (0, vn_dev_info n))"

definition named :: "'k vfs_state \<Rightarrow> bool" where
  "named s \<longleftrightarrow> (\<forall>a e. fs_of (heap s) a = Some e \<longrightarrow> fs_name e \<noteq> NULL)"

text \<open>
  The operations that change the state, each with any result.  Making, removing and renaming get a
  path of good components and the vnode of its directory.  Renaming also gets the vnode of the new
  directory, which is not below the entry, a new path that does not exist and an entry whose vnode
  is live: the code checks none of these.  After a step that stores a name the copy is there.
\<close>

inductive vfs_step :: "'k sce_kernel \<Rightarrow> 'k vfs_state \<Rightarrow> 'k vfs_state \<Rightarrow> bool" for K where
  creates: "dir_at s cs node \<Longrightarrow> good_comp nm \<Longrightarrow>
    vop_create K (Some (join_path (cs @ [nm]))) nm node s = Some (r, q, s') \<Longrightarrow> named s' \<Longrightarrow> vfs_step K s s'"
| mkdirs: "dir_at s cs node \<Longrightarrow> good_comp nm \<Longrightarrow>
    vop_mkdir K (Some (join_path (cs @ [nm]))) nm node s = Some (r, q, s') \<Longrightarrow> named s' \<Longrightarrow> vfs_step K s s'"
| removes: "dir_at s cs node \<Longrightarrow> good_comp nm \<Longrightarrow>
    vop_remove K (Some (join_path (cs @ [nm]))) node s = Some (r, s') \<Longrightarrow> vfs_step K s s'"
| rmdirs: "dir_at s cs node \<Longrightarrow> good_comp nm \<Longrightarrow>
    vop_rmdir K (Some (join_path (cs @ [nm]))) node s = Some (r, s') \<Longrightarrow> vfs_step K s s'"
| renames: "dir_at s cs node \<Longrightarrow> good_comp nm \<Longrightarrow> dir_at s cs3 node3 \<Longrightarrow> good_comp nm3 \<Longrightarrow>
    take (length (cs @ [nm])) cs3 \<noteq> cs @ [nm] \<Longrightarrow>
    get_fs_entry (Some (join_path (cs3 @ [nm3]))) s = Some (0x80010002, NULL) \<Longrightarrow>
    (\<forall>a e. get_fs_entry (Some (join_path (cs @ [nm]))) s = Some (0, a) \<longrightarrow> fs_of (heap s) a = Some e \<longrightarrow>
       node_of s (fs_pNode e) \<noteq> None) \<Longrightarrow>
    vop_rename K (Some (join_path (cs @ [nm]))) nm3 node node2 node3 s = Some (r, q, s') \<Longrightarrow>
    named s' \<Longrightarrow> vfs_step K s s'"
| part_init: "vop_part_init K path nm node s = Some (r, q, s') \<Longrightarrow> vfs_step K s s'"
| inactive: "vop_inactive node s = Some (r, s') \<Longrightarrow> vfs_step K s s'"
| opens: "vop_open K node fo s = Some (r, s') \<Longrightarrow> vfs_step K s s'"
| closes: "vop_close K node fo s = Some (r, s') \<Longrightarrow> vfs_step K s s'"
| reads: "vop_read node fo sz s = Some (r, out, s') \<Longrightarrow> vfs_step K s s'"
| writes: "vop_write K node fo src sz s = Some (r, s') \<Longrightarrow> vfs_step K s s'"
| lseek: "vop_lseek K node fo off wh s = Some (r', s') \<Longrightarrow> vfs_step K s s'"
| pwrite: "vop_pwrite K node fo src sz off s = Some (r, s') \<Longrightarrow> vfs_step K s s'"
| dopen: "vop_dopen K node fo s = Some (r, s') \<Longrightarrow> vfs_step K s s'"
| dread: "vop_dread node fo s = Some (r, dirent, s') \<Longrightarrow> vfs_step K s s'"
| dclose: "vop_dclose K node fo s = Some (r, s') \<Longrightarrow> vfs_step K s s'"
| chstat: "vop_chstat K path b st node s = Some (r, s') \<Longrightarrow> vfs_step K s s'"
| chstat_by_fd: "vop_chstat_by_fd K b st node s = Some (r, s') \<Longrightarrow> vfs_step K s s'"

inductive vfs_reach :: "'k sce_kernel \<Rightarrow> 'k vfs_state \<Rightarrow> bool" for K where
  mount: "\<forall>a. fs_of (heap s) a = None \<Longrightarrow> pTree s = NULL \<Longrightarrow>
    vfs_set_root K (Some (m, node)) s = Some (0, s') \<Longrightarrow> named s' \<Longrightarrow> vfs_reach K s'"
| step: "vfs_reach K s \<Longrightarrow> vfs_step K s s' \<Longrightarrow> vfs_reach K s'"

section \<open>The invariant\<close>

definition vfs_ok :: "'k vfs_state \<Rightarrow> dtree list \<Rightarrow> bool" where
  "vfs_ok s ts \<longleftrightarrow> ns s ts \<and> tidy ts \<and> sound (heap s)"

lemma vfs_ok_kept: "vfs_ok s ts \<Longrightarrow> kept s s' \<Longrightarrow> vfs_ok s' ts"
  unfolding vfs_ok_def kept_def using ns_same_links by blast

lemma vfs_ok_dir:
  assumes ok: "vfs_ok s ts" and d: "dir_at s cs node"
  obtains n t where "node_of s node = Some n" "vn_mount n \<noteq> NULL" "resolve ts cs = Some t" "d_addr t = vn_dev_info n"
    "DNode (vn_dev_info n) (d_name t) (d_kids t) \<in> subtrees ts" "vn_dev_info n \<in> set (addrs ts)"
    "cs \<noteq> []" "\<forall>c \<in> set cs. good_comp c"
proof -
  from d obtain n where n: "node_of s node = Some n" "vn_mount n \<noteq> NULL" "cs \<noteq> []" "\<forall>c \<in> set cs. good_comp c"
    "get_fs_entry (Some (join_path cs)) s = Some (0, vn_dev_info n)" by (auto simp: dir_at_def)
  have "ns s ts" using ok by (simp add: vfs_ok_def)
  from lookup_resolve [OF this n(3,4)] n(5) obtain t where t: "resolve ts cs = Some t" "d_addr t = vn_dev_info n"
    by (auto split: option.splits)
  have "DNode (d_addr t) (d_name t) (d_kids t) \<in> subtrees ts" using resolve_subtree [OF t(1)] by simp
  then have "DNode (vn_dev_info n) (d_name t) (d_kids t) \<in> subtrees ts" unfolding t(2) .
  then show thesis using that [OF n(1,2) t _ _ n(3,4)] subtree_addr by blast
qed

lemma good_comp_nul: "good_comp nm \<Longrightarrow> CHR 0x00 \<notin> set nm"
  by (simp add: good_comp_def)

text \<open>A new entry at a path that does not exist keeps the tree tidy.\<close>

lemma tidy_new:
  assumes "vfs_ok s ts" "resolve ts cs = Some t" "resolve ts (cs @ [nm]) = None" "good_comp nm" "tidy ks"
  shows "tidy (add_kid (d_addr t) (DNode a nm ks) ts)"
proof -
  have "DNode (d_addr t) (d_name t) (d_kids t) \<in> subtrees ts" using resolve_subtree [OF assms(2)] by simp
  moreover have "nm \<notin> d_name ` set (d_kids t)"
    using assms(3) resolve_snoc [OF assms(2), of nm] by (simp add: find_name)
  ultimately show ?thesis
    using tidy_add_kid [of ts "d_addr t" "d_name t" "d_kids t" "DNode a nm ks"] assms
    by (simp add: vfs_ok_def ns_def)
qed

text \<open>Create and mkdir: nothing, only the heap unchanged, or a new entry.\<close>

lemma vfs_ok_new:
  assumes ok: "vfs_ok s ts" and t: "resolve ts cs = Some t" and nm: "good_comp nm"
    and S: "sound (heap s')" and N: "named s'" and p: "pTree s' = pTree s"
    and r: "heap s' = heap s \<or>
      resolve ts (cs @ [nm]) = None \<and> (\<exists>node x e mode r q. attached s ts (d_addr t) nm node x e mode r q s')"
  shows "\<exists>ts'. vfs_ok s' ts'"
  using r
proof (elim disjE conjE exE)
  assume "heap s' = heap s"
  then show ?thesis using ok ns_heap [of s' s ts] p by (auto simp: vfs_ok_def)
next
  fix node x e mode r q
  assume n: "resolve ts (cs @ [nm]) = None" and a: "attached s ts (d_addr t) nm node x e mode r q s'"
  have "fs_name e \<noteq> NULL" using a N by (auto simp: attached_def named_def)
  then have "ns s' (add_kid (d_addr t) (DNode x nm []) ts)" using a by (simp add: attached_def)
  then show ?thesis using tidy_new [OF ok t n nm, of "[]" x] S by (auto simp: vfs_ok_def)
qed

lemma vfs_ok_create:
  assumes K: "alloc_contract K" "node_contract K" and ok: "vfs_ok s ts" and d: "dir_at s cs node"
    and nm: "good_comp nm" and c: "vop_create K (Some (join_path (cs @ [nm]))) nm node s = Some (r, q, s')"
    and N: "named s'"
  shows "\<exists>ts'. vfs_ok s' ts'"
  using ok d
proof (rule vfs_ok_dir)
  fix n t
  assume n: "node_of s node = Some n" "vn_mount n \<noteq> NULL" and t: "resolve ts cs = Some t" "d_addr t = vn_dev_info n"
    and D: "vn_dev_info n \<in> set (addrs ts)" and cs: "\<forall>c \<in> set cs. good_comp c"
  have ns: "ns s ts" and S: "sound (heap s)" using ok by (simp_all add: vfs_ok_def)
  have p: "cs @ [nm] \<noteq> []" "\<forall>c \<in> set (cs @ [nm]). good_comp c" using cs nm by auto
  from create_attached [OF K ns n(1) D n(2) p good_comp_nul [OF nm]] c
  have "heap s' = heap s \<or>
      resolve ts (cs @ [nm]) = None \<and> (\<exists>node x e mode r q. attached s ts (d_addr t) nm node x e mode r q s')"
    unfolding t(2) by (auto split: if_splits)
  then show ?thesis
    using vfs_ok_new [OF ok t(1) nm] new_entry_keeps [OF K(1) S] c N by blast
qed

lemma vfs_ok_mkdir:
  assumes K: "alloc_contract K" "node_contract K" and ok: "vfs_ok s ts" and d: "dir_at s cs node"
    and nm: "good_comp nm" and c: "vop_mkdir K (Some (join_path (cs @ [nm]))) nm node s = Some (r, q, s')"
    and N: "named s'"
  shows "\<exists>ts'. vfs_ok s' ts'"
  using ok d
proof (rule vfs_ok_dir)
  fix n t
  assume n: "node_of s node = Some n" "vn_mount n \<noteq> NULL" and t: "resolve ts cs = Some t" "d_addr t = vn_dev_info n"
    and D: "vn_dev_info n \<in> set (addrs ts)" "DNode (vn_dev_info n) (d_name t) (d_kids t) \<in> subtrees ts"
    and cs: "\<forall>c \<in> set cs. good_comp c"
  have ns: "ns s ts" and S: "sound (heap s)" using ok by (simp_all add: vfs_ok_def)
  have p: "cs @ [nm] \<noteq> []" "\<forall>c \<in> set (cs @ [nm]). good_comp c" using cs nm by auto
  obtain ed where ed: "fs_of (heap s) (vn_dev_info n) = Some ed" using dir_entry [OF ns D(2)] by metis
  from vop_mkdir_spec [OF K ns n(1) D(1) n(2) p good_comp_nul [OF nm] ed] c
  have "heap s' = heap s \<or>
      resolve ts (cs @ [nm]) = None \<and> (\<exists>node x e mode r q. attached s ts (d_addr t) nm node x e mode r q s')"
    unfolding t(2) by (auto split: if_splits)
  then show ?thesis
    using vfs_ok_new [OF ok t(1) nm] new_entry_keeps [OF K(1) S] c N by blast
qed

text \<open>Remove and rmdir.\<close>

lemma vfs_ok_unlink:
  assumes ok: "vfs_ok s ts" and d: "DNode d dn ks \<in> subtrees ts" and a: "a \<in> set (addrs ts)"
    and u: "unlink_and_delete K d a s = Some (r, s')"
  shows "\<exists>ts'. vfs_ok s' ts'"
proof -
  have ns: "ns s ts" and S: "sound (heap s)" and T: "tidy ts" using ok by (simp_all add: vfs_ok_def)
  have S': "sound (heap s')" by (rule sound_unlink_and_delete [OF ns S a u])
  show ?thesis
  proof (cases "a \<in> d_addr ` set ks")
    case True
    obtain y where "dview (heap s) a = Some y"
      using forest_dview_Some [of "dview (heap s)" "pTree s" ts a] ns a by (auto simp: ns_def)
    then obtain e nm where e: "fs_of (heap s) a = Some e" "str_of (heap s) (fs_name e) = Some nm"
      by (cases y) (auto simp: dview_Some)
    have "entry_ok (heap s) e" using e(2) soundD(1) [OF S e(1)] by (auto simp: entry_ok_def)
    from unlink_and_delete_kid [OF ns d True e(1) this, of K] u have "ns s' (del_kid d a ts)" by auto
    then show ?thesis using tidy_del_kid [OF T] S' by (auto simp: vfs_ok_def)
  next
    case False
    then have "s' = s" using u find_kid(1) [OF ns d] by (simp add: unlink_and_delete_def)
    then show ?thesis using ok by blast
  qed
qed

lemma vfs_ok_remove:
  assumes ok: "vfs_ok s ts" and d: "dir_at s cs node" and nm: "good_comp nm"
    and c: "vop_remove K (Some (join_path (cs @ [nm]))) node s = Some (r, s') \<or>
      vop_rmdir K (Some (join_path (cs @ [nm]))) node s = Some (r, s')"
  shows "\<exists>ts'. vfs_ok s' ts'"
  using ok d
proof (rule vfs_ok_dir)
  fix n t
  assume n: "node_of s node = Some n" and D: "DNode (vn_dev_info n) (d_name t) (d_kids t) \<in> subtrees ts"
    and cs: "\<forall>c \<in> set cs. good_comp c"
  have ns: "ns s ts" using ok by (simp add: vfs_ok_def)
  have p: "cs @ [nm] \<noteq> []" "\<forall>c \<in> set (cs @ [nm]). good_comp c" using cs nm by auto
  show ?thesis
  proof (cases "resolve ts (cs @ [nm])")
    case None
    then have "s' = s" using c lookup_resolve [OF ns p] by (auto simp: vop_remove_def vop_rmdir_def)
    then show ?thesis using ok by blast
  next
    case (Some u)
    then have g: "get_fs_entry (Some (join_path (cs @ [nm]))) s = Some (0, d_addr u)"
      using lookup_resolve [OF ns p] by simp
    have a: "d_addr u \<in> set (addrs ts)" using resolve_subtree [OF Some] by (auto simp: set_addrs)
    have "s' = s \<or> unlink_and_delete K (vn_dev_info n) (d_addr u) s = Some (r, s')"
      using c g n by (auto simp: vop_remove_def vop_rmdir_def bind_eq_Some_conv split: if_splits)
    then show ?thesis using ok vfs_ok_unlink [OF ok D a] by blast
  qed
qed

text \<open>Rename.\<close>

lemma sound_rename:
  assumes K: "alloc_contract K" and S: "sound (heap s)" and g: "get_fs_entry path s = Some (res, a)"
    and e: "fs_of (heap s) a = Some e" "str_of (heap s) (fs_name e) \<noteq> None"
    and c: "vop_rename K path nm node node2 node3 s = Some (0, q, s')"
  shows "sound (heap s')"
proof -
  obtain n n2 where n: "node_of s node = Some n" "node_of s node2 = Some n2"
    using c by (auto simp: vop_rename_def bind_eq_Some_conv)
  have m: "vn_mount n = vn_mount n2" "\<not> failed res" using c n g
    by (auto simp: vop_rename_def split: if_splits)
  obtain l p where f: "find_dir_link (heap s) a (DirHead (vn_dev_info n)) = Some (Some (l, p))"
    using c n g m by (auto simp: vop_rename_def bind_eq_Some_conv split: option.splits)
  obtain r1 pn s1 where v: "new_vnode K (vn_mount n2) s = Some (r1, pn, s1)"
    using c n g m f by (auto simp: vop_rename_def bind_eq_Some_conv)
  have nf: "\<not> failed r1" using c n g m f v by (auto simp: vop_rename_def split: if_splits)
  obtain s2 n3 s3 e3 s4 where s: "unlink_dir l p s1 = Some s2" "node_of s2 node3 = Some n3"
    "link_first (vn_dev_info n3) a s2 = Some s3" "fs_of (heap s3) a = Some e3" "dmass_free K (fs_name e3) s3 = Some s4"
    using c n g m f v nf by (auto simp: vop_rename_def bind_eq_Some_conv)
  obtain nmp s5 where cp: "name_cpy K nm s4 = (nmp, s5)" by (cases "name_cpy K nm s4")
  obtain e5 where e5: "fs_of (heap s5) a = Some e5"
    using c n g m f v nf s cp by (auto simp: vop_rename_def bind_eq_Some_conv)
  have h: "heap s' = (heap s5)(a \<mapsto> FsObj (e5\<lparr>fs_name := nmp, fs_pNode := pn\<rparr>))"
    using c n g m f v nf s cp e5 by (auto simp: vop_rename_def bind_eq_Some_conv Let_def)
  have h1: "heap s1 = heap s" by (rule kept_new_vnode(1) [OF v])
  have S1: "sound (heap s1)" using S h1 by simp
  note U = sound_unlink [OF S1 s(1)]
  note L = sound_link_first [OF U(1) s(3)]
  obtain e2 where e2: "fs_of (heap s2) a = Some e2" "fs_name e2 = fs_name e" using U(2) [of a e] e(1) h1 by auto
  have "fs_name e3 = fs_name e" using L(2) [OF e2(1)] e2(2) s(4) by auto
  then have "str_of (heap s3) (fs_name e3) \<noteq> None" using e(2) L(3) U(3) h1 by simp
  from sound_free_str [OF L(1) this s(5)] have "sound (heap s4)" .
  from sound_name_cpy [OF K this cp] have S5: "sound (heap s5)" .
  have "sound (heap (put a (FsObj (e5\<lparr>fs_name := nmp, fs_pNode := pn\<rparr>)) s5))"
    by (rule sound_put_fs [OF S5 e5]) simp
  then show ?thesis by (simp add: h)
qed

lemma subtrees_del_kid:
  "DNode x nx kx \<in> subtrees (del_kid d b ts) \<Longrightarrow>
   \<exists>ky. DNode x nx ky \<in> subtrees ts \<and> d_name ` set kx \<subseteq> d_name ` set ky"
proof (induction ts rule: addrs.induct)
  case (2 a nm ks ts)
  have nms: "d_name ` set (del_kid d b us) = d_name ` set us" for us
    by (induction us rule: addrs.induct) auto
  have fs: "subtrees (filter P us) \<subseteq> subtrees us" for P us
    by (induction us rule: subtrees.induct) auto
  show ?case
  proof (cases "a = d")
    case True
    then consider "x = a" "nx = nm" "kx = filter (\<lambda>t. d_addr t \<noteq> b) ks" | "DNode x nx kx \<in> subtrees ks"
      | "DNode x nx kx \<in> subtrees (del_kid d b ts)"
      using 2(3) fs [of _ ks] by auto
    then show ?thesis
    proof cases
      case 3
      then show ?thesis using 2(2) by auto
    qed auto
  next
    case False
    then consider "x = a" "nx = nm" "kx = del_kid d b ks" | "DNode x nx kx \<in> subtrees (del_kid d b ks)"
      | "DNode x nx kx \<in> subtrees (del_kid d b ts)"
      using 2(3) by auto
    then show ?thesis
    proof cases
      case 1
      then show ?thesis using nms [of ks] by auto
    next
      case 2
      then show ?thesis using "2.IH"(1) by auto
    next
      case 3
      then show ?thesis using "2.IH"(2) by auto
    qed
  qed
qed simp

lemma vfs_ok_rename:
  fixes K :: "'k sce_kernel" and s :: "'k vfs_state"
  assumes K: "alloc_contract K" "node_contract K" and ok: "vfs_ok s ts" and d: "dir_at s cs node" "dir_at s cs3 node3"
    and nm: "good_comp nm" "good_comp nm3" and pre: "take (length (cs @ [nm])) cs3 \<noteq> cs @ [nm]"
    and new: "get_fs_entry (Some (join_path (cs3 @ [nm3]))) s = Some (0x80010002, NULL)"
    and live: "\<forall>a e. get_fs_entry (Some (join_path (cs @ [nm]))) s = Some (0, a) \<longrightarrow> fs_of (heap s) a = Some e \<longrightarrow>
       node_of s (fs_pNode e) \<noteq> None"
    and c: "vop_rename K (Some (join_path (cs @ [nm]))) nm3 node node2 node3 s = Some (r, q, s')"
    and N: "named s'"
  shows "\<exists>ts'. vfs_ok s' ts'"
proof -
  have ns: "ns s ts" and S: "sound (heap s)" and T: "tidy ts" and D: "distinct (addrs ts)"
    using ok by (simp_all add: vfs_ok_def ns_def)
  obtain n t where n: "node_of s node = Some n" "vn_mount n \<noteq> NULL" and t: "resolve ts cs = Some t"
    and dt: "DNode (vn_dev_info n) (d_name t) (d_kids t) \<in> subtrees ts" and cs: "\<forall>c \<in> set cs. good_comp c"
    by (rule vfs_ok_dir [OF ok d(1)]) blast
  obtain n3 t3 where n3: "node_of s node3 = Some n3" and t3: "resolve ts cs3 = Some t3" "d_addr t3 = vn_dev_info n3"
    and d3: "vn_dev_info n3 \<in> set (addrs ts)" and cs3: "\<forall>c \<in> set cs3. good_comp c"
    by (rule vfs_ok_dir [OF ok d(2)]) blast
  have p: "cs @ [nm] \<noteq> []" "\<forall>c \<in> set (cs @ [nm]). good_comp c" using cs nm by auto
  have p3: "cs3 @ [nm3] \<noteq> []" "\<forall>c \<in> set (cs3 @ [nm3]). good_comp c" using cs3 nm by auto
  obtain n2 where n2: "node_of s node2 = Some n2" using c n by (auto simp: vop_rename_def bind_eq_Some_conv)
  show ?thesis
  proof (cases "vn_mount n = vn_mount n2 \<and> resolve ts (cs @ [nm]) \<noteq> None")
    case False
    then have "s' = s" using c n(1) n2 lookup_resolve [OF ns p]
      by (auto simp: vop_rename_def split: if_splits)
    then show ?thesis using ok by blast
  next
    case True
    then obtain u where m: "vn_mount n = vn_mount n2" and u: "resolve ts (cs @ [nm]) = Some u" by blast
    have g: "get_fs_entry (Some (join_path (cs @ [nm]))) s = Some (0, d_addr u)"
      using lookup_resolve [OF ns p] u by simp
    have us: "DNode (d_addr u) (d_name u) (d_kids u) \<in> subtrees ts" using resolve_subtree [OF u] by simp
    have nb: "vn_dev_info n3 \<notin> set (addrs [u])" using tidy_prefix [OF T D u t3(1)] pre t3(2) by auto
    have lv: "\<forall>t e. resolve ts (cs @ [nm]) = Some t \<longrightarrow> fs_of (heap s) (d_addr t) = Some e \<longrightarrow>
      vn_dev_info n3 \<notin> set (addrs [t]) \<and> node_of s (fs_pNode e) \<noteq> None"
      using live g u nb by auto
    have uk: "u \<in> set (d_kids t)" using u resolve_snoc [OF t] by (auto simp: find_Some_iff intro: nth_mem)
    note R = rename_moves [OF K ns n(1) n2 m n(2) n3 dt d3 p good_comp_nul [OF nm(2)] lv, unfolded u, simplified]
    obtain e where e: "fs_of (heap s) (d_addr u) = Some e" "str_of (heap s) (fs_name e) \<noteq> None"
      using dir_entry [OF ns us] by (metis option.discI)
    let ?ts1 = "del_kid (vn_dev_info n) (d_addr u) ts"
    let ?ts2 = "add_kid (vn_dev_info n3) (DNode (d_addr u) nm3 (d_kids u)) ?ts1"
    have cases: "heap s' = heap s \<and> pTree s' = pTree s \<or>
        r = 0 \<and> (\<exists>e'. fs_of (heap s') (d_addr u) = Some e' \<and> (fs_name e' = NULL \<or> ns s' ?ts2))"
      using R c uk by fastforce
    show ?thesis
    proof (cases "heap s' = heap s \<and> pTree s' = pTree s")
      case True
      then show ?thesis using ok ns_heap [of s' s ts] by (auto simp: vfs_ok_def)
    next
      case False
      then have r: "r = 0" and n2: "ns s' ?ts2" using cases N by (auto simp: named_def)
      have S': "sound (heap s')" using sound_rename [OF K(1) S g e] c r by blast
      have D1: "distinct (addrs ?ts1)" using addrs_del_kid D by blast
      have T1: "tidy ?ts1" by (rule tidy_del_kid [OF T])
      have "vn_dev_info n3 \<in> set (addrs ?ts1)"
        using addrs_del_kid_split(2) [OF D dt uk] d3 nb by blast
      then obtain w where w: "w \<in> subtrees ?ts1" "d_addr w = vn_dev_info n3" by (auto simp: set_addrs)
      then have wn: "DNode (vn_dev_info n3) (d_name w) (d_kids w) \<in> subtrees ?ts1" by (cases w) simp
      from subtrees_del_kid [OF this] obtain ky where ky: "DNode (vn_dev_info n3) (d_name w) ky \<in> subtrees ts"
        "d_name ` set (d_kids w) \<subseteq> d_name ` set ky" by blast
      have "DNode (vn_dev_info n3) (d_name w) ky = t3"
        using subtree_unique [OF D ky(1) resolve_subtree [OF t3(1)]] t3(2) by simp
      then have "ky = d_kids t3" by auto
      moreover have "resolve ts (cs3 @ [nm3]) = None" using new lookup_resolve [OF ns p3] by (auto split: option.splits)
      then have "nm3 \<notin> d_name ` set (d_kids t3)" using resolve_snoc [OF t3(1), of nm3] by (simp add: find_name)
      ultimately have "nm3 \<notin> d_name ` set (d_kids w)" using ky(2) by blast
      then have "tidy ?ts2"
        using tidy_add_kid [OF T1 D1 wn, of "DNode (d_addr u) nm3 (d_kids u)"] nm(2) tidy_subtree [OF T us] by simp
      then show ?thesis using n2 S' by (auto simp: vfs_ok_def)
    qed
  qed
qed

text \<open>The mount makes a tree of the one directory \<open>md\<close>.\<close>

lemma vfs_ok_mount:
  assumes K: "alloc_contract K" and e: "\<forall>a. fs_of (heap s) a = None" and t: "pTree s = NULL"
    and c: "vfs_set_root K (Some (m, node)) s = Some (0, s')" and N: "named s'"
  shows "\<exists>ts. vfs_ok s' ts"
proof -
  have S: "sound (heap s)" using e by (simp add: sound_def)
  have m: "m \<noteq> NULL" using c by (auto simp: vfs_set_root_def)
  from K show ?thesis
  proof (cases rule: create_info_cases [of K "S_IWUSR K OR S_IRUSR K OR S_IFDIR K" "''md''" s])
    case (null s1)
    then show ?thesis using c m by (simp add: vfs_set_root_def create_dmass_dir_info_def)
  next
    case (entry p s1 ee)
    let ?s2 = "put p (FsObj (ee\<lparr>fs_pNode := node\<rparr>)) s1"
    have p1: "pTree s1 = NULL" using entry(4) t by (simp add: frame_def)
    have h: "heap s' = heap ?s2" "pTree s' = p"
      using c m entry p1
      by (auto simp: vfs_set_root_def create_dmass_dir_info_def set_fs_root_def bind_eq_Some_conv Let_def)
    have f: "fs_of (heap s') p = Some (ee\<lparr>fs_pNode := node\<rparr>)" using entry(2) by (simp add: h deref)
    have "fs_name ee \<noteq> NULL"
    proof
      assume "fs_name ee = NULL"
      moreover have "fs_name (ee\<lparr>fs_pNode := node\<rparr>) \<noteq> NULL" using N f unfolding named_def by blast
      ultimately show False by simp
    qed
    then have "str_of (heap s1) (fs_name ee) = Some ''md''" using entry(13) by auto
    moreover have "fs_name ee \<noteq> p" using calculation fs_not_others [OF entry(6)] by auto
    ultimately have st: "str_of (heap s') (fs_name ee) = Some ''md''" by (simp add: h deref)
    have "dview (heap s') p = Some (NULL, NULL, ''md'')"
      using f st entry(7,14) by (simp add: dview_def)
    then have "ns s' [DNode p ''md'' []]"
      using entry(2) h(2) by (simp add: ns_def names_owned_def)
    moreover have "sound (heap s')"
      unfolding h(1) by (rule sound_put_fs [OF sound_create [OF K S entry(1)] entry(6)]) simp
    ultimately show ?thesis
      by (intro exI [of _ "[DNode p ''md'' []]"]) (simp add: vfs_ok_def good_comp_def)
  qed
qed

lemma vfs_ok_step:
  assumes K: "alloc_contract K" "node_contract K" and s: "vfs_step K s s'" and ok: "vfs_ok s ts"
  shows "\<exists>ts'. vfs_ok s' ts'"
  using s
proof cases
  case creates
  then show ?thesis by (rule vfs_ok_create [OF K ok])
next
  case mkdirs
  then show ?thesis by (rule vfs_ok_mkdir [OF K ok])
next
  case removes
  then show ?thesis using vfs_ok_remove [OF ok removes(1,2), of K] by blast
next
  case rmdirs
  then show ?thesis using vfs_ok_remove [OF ok rmdirs(1,2), of K] by blast
next
  case (renames cs node nm cs3 node3 nm3 node2 r q)
  then show ?thesis by (intro vfs_ok_rename [OF K ok, of cs node cs3 node3 nm nm3 node2 r q])
qed (rule exI, rule vfs_ok_kept [OF ok], erule kept_part_init kept_inactive kept_open [OF K(1)] kept_close
    kept_read kept_write [OF K(1)] kept_lseek kept_pwrite [OF K(1)] kept_dopen [OF K(1)] kept_dread
    kept_dclose kept_chstat [OF K(1)] kept_chstat_by_fd [OF K(1)])+

lemma vfs_reach_ok:
  assumes K: "alloc_contract K" "node_contract K"
  shows "vfs_reach K s \<Longrightarrow> \<exists>ts. vfs_ok s ts"
proof (induction rule: vfs_reach.induct)
  case (mount s m node s')
  then show ?case using vfs_ok_mount [OF K(1)] by blast
next
  case (step s s')
  then show ?case using vfs_ok_step [OF K] by blast
qed

text \<open>In a tidy tree every entry is found, and under one path only.\<close>

lemma one_path:
  assumes ok: "vfs_ok s ts" and a: "a \<in> set (addrs ts)"
  shows "\<exists>!cs. cs \<noteq> [] \<and> (\<forall>c \<in> set cs. good_comp c) \<and> get_fs_entry (Some (join_path cs)) s = Some (0, a)"
proof -
  have ns: "ns s ts" and T: "tidy ts" and D: "distinct (addrs ts)" using ok by (simp_all add: vfs_ok_def ns_def)
  obtain t where t: "t \<in> subtrees ts" "d_addr t = a" using a by (auto simp: set_addrs)
  obtain cs where cs: "cs \<noteq> []" "\<forall>c \<in> set cs. good_comp c" "resolve ts cs = Some t"
    using tidy_has_path [OF T t(1)] by blast
  show ?thesis
  proof (rule ex1I [of _ cs])
    show "cs \<noteq> [] \<and> (\<forall>c \<in> set cs. good_comp c) \<and> get_fs_entry (Some (join_path cs)) s = Some (0, a)"
      using lookup_resolve [OF ns cs(1,2)] cs t(2) by simp
  next
    fix ds assume d: "ds \<noteq> [] \<and> (\<forall>c \<in> set ds. good_comp c) \<and> get_fs_entry (Some (join_path ds)) s = Some (0, a)"
    then obtain u where u: "resolve ts ds = Some u" "d_addr u = a"
      using lookup_resolve [OF ns, of ds] by (auto split: option.splits)
    have "u = t" using subtree_unique [OF D resolve_subtree [OF u(1)] t(1)] u(2) t(2) by simp
    then show "ds = cs" using resolve_inj [OF D u(1)] cs(3) by simp
  qed
qed


end
