(* ===== verification/Sample_Machine.thy ===== *)
theory Sample_Machine
  imports Sample_State Vfs_Machine
begin

text \<open>
  Renaming on the sample file system, and a mount of an empty file system followed by a call that
  makes a file: a run of the state machine.
\<close>

section \<open>Moving a file into a directory\<close>

text \<open>The file \<open>a\<close> has its vnode 11, and the directory \<open>d\<close> the vnode 16.\<close>

definition R0 :: "nat vfs_state" where
  "R0 = put_node 16 (vnode0\<lparr>vn_dev_info := 9, vn_mount := 99\<rparr>)
     (put 3 (FsObj ((entry0 0 0 5 1 4 (stat0 0x2180 3) 6)\<lparr>fs_pNode := 11\<rparr>)) S0)"

lemma R0_ns: "ns R0 ts0"
proof -
  have "ns (put 3 (FsObj ((entry0 0 0 5 1 4 (stat0 0x2180 3) 6)\<lparr>fs_pNode := 11\<rparr>)) S0) ts0"
    using ns0 ns_put_same [of S0 3 "entry0 0 0 5 1 4 (stat0 0x2180 3) 6"] by simp
  then show ?thesis by (simp add: R0_def ns_def)
qed

lemma R0_sel:
  "node_of R0 10 = Some (vnode0\<lparr>vn_dev_info := 1, vn_mount := 99\<rparr>)"
  "node_of R0 16 = Some (vnode0\<lparr>vn_dev_info := 9, vn_mount := 99\<rparr>)"
  "node_of R0 11 \<noteq> None"
  "fs_of (heap R0) 3 = Some ((entry0 0 0 5 1 4 (stat0 0x2180 3) 6)\<lparr>fs_pNode := 11\<rparr>)"
  by (simp_all add: R0_def deref)


section \<open>A run\<close>

definition E0 :: "nat vfs_state" where
  "E0 = \<lparr>heap = Map.empty, vnodes = [10 \<mapsto> vnode0], fobjs = Map.empty, pTree = 0, test_heap_uid = 5,
     pProcContextTop = 0, kst = 0\<rparr>"

definition Mnt0 :: "nat vfs_state" where
  "Mnt0 = E0\<lparr>
     heap := [0x1001 \<mapsto> Str ''md'', 0x1002 \<mapsto> Str ''md'',
       0x1000 \<mapsto> FsObj ((entry0 0 0 0 0 0x1002 (stat0 0x1180 0) 0)\<lparr>fs_pNode := 10\<rparr>)],
     vnodes := [10 \<mapsto> vnode0\<lparr>vn_dev_info := 0x1000, vn_mount := 99, vn_unk_74 := 1, vn_unk_78 := 0x1002\<rparr>],
     pTree := 0x1000, kst := 3\<rparr>"

lemmas eval = create_dmass_dir_info_def create_dmass_file_info_def create_dmass_info_def name_cpy_def
  dmass_malloc_def init_entry_date_def K0_def Let_def deref node_of_def zero_stat_def set_fs_root_def
  entry0_def stat0_def vnode0_def put_def put_node_def

lemma Mnt0_mounted: "vfs_set_root K0 (Some (99, 10)) E0 = Some (0, Mnt0)"
  by (simp add: vfs_set_root_def Mnt0_def E0_def eval)

lemma Mnt0_ns: "ns Mnt0 [DNode 0x1000 ''md'' []]"
  by (simp add: ns_def names_owned_def name_of_def dview_def Mnt0_def E0_def fs_of_def str_of_def entry0_def)

lemma Mnt0_reach: "vfs_reach K0 Mnt0"
proof (rule vfs_reach.mount [OF _ _ Mnt0_mounted])
  show "named Mnt0" by (simp add: named_def Mnt0_def E0_def fs_of_def entry0_def split: if_splits)
qed (simp_all add: E0_def fs_of_def)

text \<open>The file \<open>b\<close> is made in the root directory.\<close>

definition Mnt1 :: "nat vfs_state" where
  "Mnt1 = (case vop_create K0 (Some (join_path ([''md''] @ [''b'']))) ''b'' 10 Mnt0 of Some (r, q, s) \<Rightarrow> s)"

lemma Mnt1_created:
  "\<exists>r q. vop_create K0 (Some (join_path ([''md''] @ [''b'']))) ''b'' 10 Mnt0 = Some (r, q, Mnt1)" "named Mnt1"
proof -
  have "get_fs_entry (Some (join_path [''md'', ''b''])) Mnt0 = Some (0x80010002, NULL)"
    using lookup_resolve [OF Mnt0_ns, of "[''md'', ''b'']"] by (simp add: good_comp_def)
  then have g: "get_fs_entry (Some ''/md/b'') Mnt0 = Some (0x80010002, NULL)" by simp
  have "\<exists>r q s. vop_create K0 (Some ''/md/b'') ''b'' 10 Mnt0 = Some (r, q, s) \<and> named s"
    by (simp add: vop_create_def g) (simp add: Mnt0_def E0_def eval attach_entry_def link_first_def new_vnode_def get_new_node_def node_wait_def named_def fs_of_def)
  then show "\<exists>r q. vop_create K0 (Some (join_path ([''md''] @ [''b'']))) ''b'' 10 Mnt0 = Some (r, q, Mnt1)" "named Mnt1"
    unfolding Mnt1_def by auto
qed

lemma Mnt1_reach: "vfs_reach K0 Mnt1"
proof -
  obtain r q where c: "vop_create K0 (Some (join_path ([''md''] @ [''b'']))) ''b'' 10 Mnt0 = Some (r, q, Mnt1)"
    using Mnt1_created(1) by blast
  have "dir_at Mnt0 [''md''] 10"
    using lookup_resolve [OF Mnt0_ns, of "[''md'']"]
    by (simp add: dir_at_def good_comp_def) (simp add: Mnt0_def E0_def node_of_def)
  then have "vfs_step K0 Mnt0 Mnt1" by (rule vfs_step.creates [OF _ _ c Mnt1_created(2)]) (simp add: good_comp_def)
  then show ?thesis by (rule vfs_reach.step [OF Mnt0_reach])
qed


end
