(* ===== verification/Printf.thy ===== *)
theory Printf
  imports Bytes
begin

text \<open>
  The formatted output that the tools print and log, as far as their formats use it: the flags
  \<open>-\<close> and \<open>0\<close>, a width, the length \<open>ll\<close> and the conversions \<open>d\<close>, \<open>u\<close>, \<open>o\<close>, \<open>X\<close>, \<open>s\<close>, \<open>c\<close> and
  \<open>p\<close>.  How a pointer is written is up to the library, a parameter \<open>pp\<close>.

  \<open>None\<close> is a conversion that does not fit its argument, undefined behaviour in C.
\<close>

section \<open>Arguments and formats\<close>

datatype farg = Num32 u32 | Num64 u64 | Text string | Pointer addr

record fspec =
  fs_left :: bool
  fs_zero :: bool
  fs_width :: nat
  fs_wide :: bool

datatype piece = Lit char | Dir fspec char

definition spec0 :: fspec where
  "spec0 = \<lparr>fs_left = False, fs_zero = False, fs_width = 0, fs_wide = False\<rparr>"

definition digit_of :: "char \<Rightarrow> nat option" where
  "digit_of c = (let n = of_char c in if 48 \<le> n \<and> n \<le> 57 then Some (n - 48) else None)"

fun scan :: "fspec option \<Rightarrow> string \<Rightarrow> piece list option" where
  "scan None [] = Some []"
| "scan (Some d) [] = None"
| "scan None (c # cs) =
     (if c = CHR ''%'' then scan (Some spec0) cs else map_option (Cons (Lit c)) (scan None cs))"
| "scan (Some d) (c # cs) =
     (if c = CHR ''-'' then scan (Some (d\<lparr>fs_left := True\<rparr>)) cs
      else if c = CHR ''0'' \<and> fs_width d = 0 then scan (Some (d\<lparr>fs_zero := True\<rparr>)) cs
      else if c = CHR ''l'' then scan (Some (d\<lparr>fs_wide := True\<rparr>)) cs
      else case digit_of c of
          Some n \<Rightarrow> scan (Some (d\<lparr>fs_width := 10 * fs_width d + n\<rparr>)) cs
        | None \<Rightarrow> map_option (Cons (Dir d c)) (scan None cs))"

section \<open>Numbers\<close>

definition digit_char :: "nat \<Rightarrow> char" where
  "digit_char n = char_of (if n < 10 then 48 + n else 55 + n)"

fun digits :: "nat \<Rightarrow> nat \<Rightarrow> string" where
  "digits b n = (if b < 2 \<or> n < b then [digit_char n] else digits b (n div b) @ [digit_char (n mod b)])"

declare digits.simps [simp del]

definition signed_digits :: "int \<Rightarrow> string" where
  "signed_digits i = (if i < 0 then CHR ''-'' # digits 10 (nat (- i)) else digits 10 (nat i))"

lemma length_digits: "2 \<le> b \<Longrightarrow> n < b ^ k \<Longrightarrow> 0 < k \<Longrightarrow> length (digits b n) \<le> k"
proof (induction k arbitrary: n)
  case (Suc k)
  show ?case
  proof (cases "n < b")
    case True
    then show ?thesis by (simp add: digits.simps [of b n])
  next
    case False
    then have k: "0 < k" using Suc.prems(2) by (cases k) auto
    have "n div b < b ^ k"
      using Suc.prems(2) by (simp add: less_mult_imp_div_less mult.commute)
    then show ?thesis using Suc.IH [of "n div b"] Suc.prems(1) False k by (simp add: digits.simps [of b n])
  qed
qed simp

text \<open>The digits are those of the number: reading them back gives it.\<close>

definition char_digit :: "char \<Rightarrow> nat" where
  "char_digit c = (if of_char c < (58 :: nat) then of_char c - 48 else of_char c - 55)"

lemma of_char_digit: "n < 16 \<Longrightarrow> of_char (digit_char n) = (if n < 10 then 48 + n else 55 + n)"
  by (simp add: digit_char_def)

lemma digit_char_neq:
  "n < 16 \<Longrightarrow> digit_char n \<noteq> CHR ''-''" "n < 16 \<Longrightarrow> digit_char n \<noteq> CHR '' ''"
  "n < 16 \<Longrightarrow> digit_char n \<noteq> CHR ''\<newline>''"
  using of_char_digit [of n] by (auto split: if_splits)

lemma char_digit_char: "n < 16 \<Longrightarrow> char_digit (digit_char n) = n"
  by (simp add: char_digit_def of_char_digit)

definition value_of :: "nat \<Rightarrow> string \<Rightarrow> nat" where
  "value_of b s = foldl (\<lambda>v c. b * v + char_digit c) 0 s"

lemma value_of_digits: "2 \<le> b \<Longrightarrow> b \<le> 16 \<Longrightarrow> value_of b (digits b n) = n"
proof (induction b n rule: digits.induct)
  case (1 b n)
  show ?case
  proof (cases "n < b")
    case True
    then show ?thesis using 1 by (simp add: digits.simps [of b n] value_of_def char_digit_char)
  next
    case False
    have "n mod b < 16" using 1(2,3) mod_less_divisor [of b n] by linarith
    then show ?thesis using 1 False
      by (simp add: digits.simps [of b n] value_of_def char_digit_char)
  qed
qed

section \<open>Rendering\<close>

definition pad :: "fspec \<Rightarrow> bool \<Rightarrow> string \<Rightarrow> string" where
  "pad d num s =
     (let n = fs_width d - length s in
      if fs_left d then s @ replicate n CHR '' ''
      else if fs_zero d \<and> num
      then (case s of c # cs \<Rightarrow> if c = CHR ''-'' then c # replicate n CHR ''0'' @ cs
                                else replicate n CHR ''0'' @ s
            | [] \<Rightarrow> replicate n CHR ''0'')
      else replicate n CHR '' '' @ s)"

definition render_dir :: "(addr \<Rightarrow> string) \<Rightarrow> fspec \<Rightarrow> char \<Rightarrow> farg \<Rightarrow> string option" where
  "render_dir pp d c a =
     (case a of
        Num32 w \<Rightarrow>
          if fs_wide d then None
          else if c = CHR ''X'' then Some (pad d True (digits 16 (unat w)))
          else if c = CHR ''u'' then Some (pad d True (digits 10 (unat w)))
          else if c = CHR ''o'' then Some (pad d True (digits 8 (unat w)))
          else if c = CHR ''d'' then Some (pad d True (signed_digits (sint w)))
          else if c = CHR ''c'' then Some (pad d False [char_of (unat w)])
          else None
      | Num64 w \<Rightarrow>
          if \<not> fs_wide d then None
          else if c = CHR ''X'' then Some (pad d True (digits 16 (unat w)))
          else if c = CHR ''u'' then Some (pad d True (digits 10 (unat w)))
          else if c = CHR ''d'' then Some (pad d True (signed_digits (sint w)))
          else None
      | Text s \<Rightarrow> if c = CHR ''s'' then Some (pad d False s) else None
      | Pointer p \<Rightarrow> if c = CHR ''p'' then Some (pad d False (pp p)) else None)"

fun render :: "(addr \<Rightarrow> string) \<Rightarrow> piece list \<Rightarrow> farg list \<Rightarrow> string option" where
  "render pp [] as = Some []"
| "render pp (Lit c # ps) as = map_option (Cons c) (render pp ps as)"
| "render pp (Dir d c # ps) [] = None"
| "render pp (Dir d c # ps) (a # as) =
     Option.bind (render_dir pp d c a) (\<lambda>s. map_option (\<lambda>t. s @ t) (render pp ps as))"

definition format :: "(addr \<Rightarrow> string) \<Rightarrow> string \<Rightarrow> farg list \<Rightarrow> string option" where
  "format pp f as = Option.bind (scan None f) (\<lambda>ps. render pp ps as)"

section \<open>How long a text can get\<close>

fun arg_length :: "(addr \<Rightarrow> string) \<Rightarrow> farg \<Rightarrow> nat" where
  "arg_length pp (Num32 w) = 12"
| "arg_length pp (Num64 w) = 24"
| "arg_length pp (Text s) = length s"
| "arg_length pp (Pointer p) = length (pp p)"

fun piece_width :: "piece \<Rightarrow> nat" where
  "piece_width (Lit c) = 1"
| "piece_width (Dir d c) = fs_width d"

lemma length_pad: "length (pad d num s) \<le> fs_width d + length s"
  by (auto simp: pad_def Let_def split: list.split)

lemma length_signed_digits:
  assumes "i < 10 ^ k" "- (10 ^ k) < i" "0 < k"
  shows "length (signed_digits i) \<le> k + 1"
proof -
  have "nat i < 10 ^ k" "nat (- i) < 10 ^ k" using assms by (simp_all add: nat_less_iff)
  then show ?thesis using length_digits [of 10 "nat i" k] length_digits [of 10 "nat (- i)" k] assms(3)
    by (auto simp: signed_digits_def)
qed

lemma num32_lengths:
  "length (digits 16 (unat (w :: u32))) \<le> 12" "length (digits 10 (unat w)) \<le> 12"
  "length (digits 8 (unat w)) \<le> 12" "length (signed_digits (sint w)) \<le> 12"
proof -
  note l = unat_lt_32 [of w]
  show "length (digits 16 (unat w)) \<le> 12" using l by (intro length_digits) simp_all
  show "length (digits 10 (unat w)) \<le> 12" using l by (intro length_digits) simp_all
  show "length (digits 8 (unat w)) \<le> 12" using l by (intro length_digits) simp_all
  have "sint w < 2 ^ 31" "- (2 ^ 31) \<le> sint w" using sint_lt [of w] sint_ge [of w] by simp_all
  then show "length (signed_digits (sint w)) \<le> 12"
    using length_signed_digits [of "sint w" 11] by simp
qed

lemma num64_lengths:
  "length (digits 16 (unat (w :: u64))) \<le> 24" "length (digits 10 (unat w)) \<le> 24"
  "length (signed_digits (sint w)) \<le> 24"
proof -
  have l: "unat w < 18446744073709551616" using unsigned_less [of w, where 'a = nat] by simp
  show "length (digits 16 (unat w)) \<le> 24" using l by (intro length_digits) simp_all
  show "length (digits 10 (unat w)) \<le> 24" using l by (intro length_digits) simp_all
  have "sint w < 2 ^ 63" "- (2 ^ 63) \<le> sint w" using sint_lt [of w] sint_ge [of w] by simp_all
  then show "length (signed_digits (sint w)) \<le> 24"
    using length_signed_digits [of "sint w" 23] by simp
qed

lemma length_render_dir:
  assumes "render_dir pp d c a = Some s"
  shows "length s \<le> fs_width d + arg_length pp a"
proof -
  have p: "length t \<le> n \<Longrightarrow> length (pad d num t) \<le> fs_width d + n" for num t n
    using length_pad [of d num t] by linarith
  show ?thesis using assms
    by (cases a) (auto simp: render_dir_def intro!: p num32_lengths num64_lengths split: if_splits)
qed

lemma length_render:
  "render pp ps as = Some s \<Longrightarrow>
   length s \<le> sum_list (map piece_width ps) + sum_list (map (arg_length pp) as)"
proof (induction pp ps as arbitrary: s rule: render.induct)
  case (4 pp d c ps a as)
  then obtain u t where u: "render_dir pp d c a = Some u" "render pp ps as = Some t" "s = u @ t"
    by (auto split: Option.bind_splits)
  then show ?case using 4(1) [OF u(1,2)] length_render_dir [OF u(1)] by simp
qed auto

text \<open>The widths of a format, for the bound on a whole text.\<close>

definition format_width :: "string \<Rightarrow> nat" where
  "format_width f = (case scan None f of None \<Rightarrow> 0 | Some ps \<Rightarrow> sum_list (map piece_width ps))"

lemma length_format:
  "format pp f as = Some s \<Longrightarrow> length s \<le> format_width f + sum_list (map (arg_length pp) as)"
  by (auto simp: format_def format_width_def dest: length_render split: Option.bind_splits)

text \<open>The text exists whenever the arguments have the types that the format asks for.\<close>

fun fits :: "fspec \<Rightarrow> char \<Rightarrow> farg \<Rightarrow> bool" where
  "fits d c (Num32 w) \<longleftrightarrow> \<not> fs_wide d \<and> c \<in> {CHR ''X'', CHR ''u'', CHR ''o'', CHR ''d'', CHR ''c''}"
| "fits d c (Num64 w) \<longleftrightarrow> fs_wide d \<and> c \<in> {CHR ''X'', CHR ''u'', CHR ''d''}"
| "fits d c (Text s) \<longleftrightarrow> c = CHR ''s''"
| "fits d c (Pointer p) \<longleftrightarrow> c = CHR ''p''"

fun fits_all :: "piece list \<Rightarrow> farg list \<Rightarrow> bool" where
  "fits_all [] as \<longleftrightarrow> True"
| "fits_all (Lit c # ps) as \<longleftrightarrow> fits_all ps as"
| "fits_all (Dir d c # ps) [] \<longleftrightarrow> False"
| "fits_all (Dir d c # ps) (a # as) \<longleftrightarrow> fits d c a \<and> fits_all ps as"

lemma render_dir_defined: "render_dir pp d c a \<noteq> None \<longleftrightarrow> fits d c a"
  by (cases a) (auto simp: render_dir_def)

lemma render_defined: "render pp ps as \<noteq> None \<longleftrightarrow> fits_all ps as"
proof (induction pp ps as rule: render.induct)
  case (4 pp d c ps a as)
  then show ?case using render_dir_defined [of pp d c a]
    by (cases "render_dir pp d c a") auto
qed auto

definition well_typed :: "string \<Rightarrow> farg list \<Rightarrow> bool" where
  "well_typed f as \<longleftrightarrow> (case scan None f of None \<Rightarrow> False | Some ps \<Rightarrow> fits_all ps as)"

lemma format_defined: "format pp f as \<noteq> None \<longleftrightarrow> well_typed f as"
proof (cases "scan None f")
  case (Some ps)
  then show ?thesis using render_defined [of pp ps as] by (simp add: format_def well_typed_def)
qed (simp add: format_def well_typed_def)

lemma format_exists: "well_typed f as \<Longrightarrow> \<exists>s. format pp f as = Some s"
  using format_defined [of pp f as] by auto

end
