(* ===== verification/Tool_Base.thy ===== *)
theory Tool_Base
  imports Printf Sce_Log
begin

text \<open>
  What the analysis modules and the smaller tools have in common:
  messages, arrays of characters read as strings, and a session of the log made of formatted lines.
\<close>

section \<open>Messages\<close>

type_synonym message = "string \<times> farg list"

text \<open>A loaded segment of a module, as \<open>ksceKernelGetModuleInfo\<close> tells it.\<close>

record segment =
  sg_vaddr :: addr
  sg_memsz :: u32

text \<open>The string in an array of characters; without a terminator the read leaves the array.\<close>

definition array_string :: "u8 list \<Rightarrow> string option" where
  "array_string bs = (if 0 \<in> set bs then Some (chars_of (takeWhile (\<lambda>b. b \<noteq> 0) bs)) else None)"

lemma array_string_append:
  "0 \<notin> set bs \<Longrightarrow> array_string (bs @ 0 # cs) = Some (chars_of bs)"
proof -
  assume b: "0 \<notin> set bs"
  then have "takeWhile (\<lambda>b. b \<noteq> 0) (bs @ 0 # cs) = bs"
    by (subst takeWhile_append2) auto
  then show ?thesis by (simp add: array_string_def)
qed

lemma array_string_overwrite:
  assumes "0 \<notin> set bs" "length bs < n"
  shows "array_string (overwrite 0 bs (replicate n 0)) = Some (chars_of bs)"
proof -
  obtain m where "n = length bs + Suc m" using assms(2) less_iff_Suc_add by auto
  then have "drop (length bs) (replicate n (0 :: u8)) = replicate (Suc m) 0" by (simp only: drop_replicate) simp
  then have "overwrite 0 bs (replicate n 0) = bs @ 0 # replicate m 0"
    by (simp add: overwrite_def)
  then show ?thesis using array_string_append [OF assms(1)] by simp
qed

lemma array_string_full: "0 \<notin> set bs \<Longrightarrow> array_string (overwrite 0 bs (replicate (length bs) 0)) = None"
  by (simp add: array_string_def overwrite_def)

lemma length_chars_of [simp]: "length (chars_of bs) = length bs"
  by (simp add: chars_of_def)

lemma length_bytes_of [simp]: "length (bytes_of s) = length s"
  by (simp add: bytes_of_def)

section \<open>A log of formatted lines\<close>

text \<open>\<open>LogWrite\<close> formats its message only when the log is open.\<close>

fun log_formats :: "'k sce_io \<Rightarrow> (addr \<Rightarrow> string) \<Rightarrow> message list \<Rightarrow> 'k log_state \<Rightarrow> 'k log_state option" where
  "log_formats IO pp [] s = Some s"
| "log_formats IO pp ((f, as) # ms) s =
     (if 0 <s log_fd s
      then do {
        t \<leftarrow> format pp f as;
        (_, s) \<leftarrow> LogWrite IO (bytes_of t) s;
        log_formats IO pp ms s
      }
      else log_formats IO pp ms s)"

definition log_file :: "'k sce_io \<Rightarrow> (addr \<Rightarrow> string) \<Rightarrow> string \<Rightarrow> message list \<Rightarrow> 'k log_state \<Rightarrow> 'k log_state option" where
  "log_file IO pp path ms s = do {
     let (_, s) = LogOpen IO path s;
     s \<leftarrow> log_formats IO pp ms s;
     Some (snd (LogClose IO s))
   }"

text \<open>The text of a line, and the lines that fit the array of \<open>LogWrite\<close>.\<close>

definition line_text :: "(addr \<Rightarrow> string) \<Rightarrow> message \<Rightarrow> string" where
  "line_text pp m = (case format pp (fst m) (snd m) of None \<Rightarrow> [] | Some t \<Rightarrow> t)"

definition line_bound :: "(addr \<Rightarrow> string) \<Rightarrow> message \<Rightarrow> nat" where
  "line_bound pp m = format_width (fst m) + sum_list (map (arg_length pp) (snd m))"

definition line_ok :: "(addr \<Rightarrow> string) \<Rightarrow> message \<Rightarrow> bool" where
  "line_ok pp m \<longleftrightarrow> well_typed (fst m) (snd m) \<and> line_bound pp m \<le> 0x1FE"

lemma line_ok_text:
  assumes "line_ok pp (f, as)"
  shows "format pp f as = Some (line_text pp (f, as))" "length (line_text pp (f, as)) \<le> 0x1FE"
proof -
  from assms obtain t where t: "format pp f as = Some t"
    using format_exists [of f as pp] by (auto simp: line_ok_def)
  then show "format pp f as = Some (line_text pp (f, as))" by (simp add: line_text_def)
  show "length (line_text pp (f, as)) \<le> 0x1FE"
    using length_format [OF t] assms t by (simp add: line_text_def line_ok_def line_bound_def)
qed

lemma log_formats_ok:
  assumes "append_contract IO out"
  shows "log_ok s \<Longrightarrow> \<forall>m \<in> set ms. line_ok pp m \<Longrightarrow>
    \<exists>s'. log_formats IO pp ms s = Some s' \<and> log_ok s' \<and>
      log_bytes out s' = log_bytes out s @ bytes_of (concat (map (line_text pp) ms))"
proof (induction ms arbitrary: s)
  case Nil
  then show ?case by (simp add: bytes_of_def)
next
  case (Cons m ms)
  obtain f as where m: "m = (f, as)" by (cases m)
  have l: "line_ok pp (f, as)" using Cons.prems(2) m by simp
  obtain s1 where 1: "LogWrite IO (bytes_of (line_text pp m)) s = Some (0, s1)" "log_ok s1"
    "log_bytes out s1 = log_bytes out s @ bytes_of (line_text pp m)"
    using log_write_ok [OF assms Cons.prems(1), of "bytes_of (line_text pp m)"] line_ok_text(2) [OF l] m by auto
  have fd: "0 <s log_fd s" using Cons.prems(1) by (simp add: log_ok_def)
  obtain s2 where 2: "log_formats IO pp ms s1 = Some s2" "log_ok s2"
    "log_bytes out s2 = log_bytes out s1 @ bytes_of (concat (map (line_text pp) ms))"
    using Cons.IH [OF 1(2)] Cons.prems(2) by auto
  have "log_formats IO pp (m # ms) s = Some s2"
    using 1(1) 2(1) fd line_ok_text(1) [OF l] m by simp
  moreover have "log_bytes out s2 = log_bytes out s @ bytes_of (concat (map (line_text pp) (m # ms)))"
    using 1(3) 2(3) by (simp add: bytes_of_def)
  ultimately show ?case using 2(2) by blast
qed

text \<open>A whole session writes the texts of its lines, in their order.\<close>

lemma log_file_ok:
  assumes A: "append_contract IO out" and s: "log_fd s = 0" "length (log_buff s) = LOG_BUFF_SIZE"
    and o: "0 <s log_fd (snd (LogOpen IO path s))" and l: "\<forall>m \<in> set ms. line_ok pp m"
  shows "\<exists>s'. log_file IO pp path ms s = Some s' \<and> log_fd s' = 0 \<and>
    out (log_kst s') = out (log_kst s) @ bytes_of (concat (map (line_text pp) ms))"
proof -
  obtain fd k where fk: "io_open IO (log_kst s) path (SCE_O_WRONLY IO OR SCE_O_CREAT IO OR SCE_O_APPEND IO) 438
      = (fd, k)" by force
  define s1 where "s1 = s\<lparr>log_fd := fd, log_pos := 0, log_kst := k\<rparr>"
  have o1: "LogOpen IO path s = (0, s1)" using fk s(1) by (simp add: LogOpen_def s1_def)
  have "out k = out (log_kst s)" using A fk unfolding append_contract_def by (metis snd_conv)
  then have b: "log_bytes out s1 = out (log_kst s)" by (simp add: s1_def log_bytes_def)
  have ok: "log_ok s1" using o o1 s(2) by (simp add: s1_def log_ok_def LOG_BUFF_SIZE_def)
  obtain s2 where 2: "log_formats IO pp ms s1 = Some s2" "log_ok s2"
    "log_bytes out s2 = log_bytes out s1 @ bytes_of (concat (map (line_text pp) ms))"
    using log_formats_ok [OF A ok l] by blast
  show ?thesis using log_close_ok [OF A 2(2)] 2 b o1 by (simp add: log_file_def)
qed

text \<open>A line that does not fit is a fault, wherever it stands.\<close>

lemma LogWrite_fd: "LogWrite IO msg s = Some (r, s') \<Longrightarrow> log_fd s' = log_fd s"
  by (auto simp: LogWrite_def Let_def log_flush_def split_beta split: if_splits)

lemma log_formats_long:
  assumes t: "format pp f as = Some t" "STRING_SIZE < length t" "length t < 2 ^ 31"
  shows "(f, as) \<in> set ms \<Longrightarrow> 0 <s log_fd s \<Longrightarrow> log_formats IO pp ms s = None"
proof (induction ms arbitrary: s)
  case (Cons m ms)
  obtain g bs where m: "m = (g, bs)" by (cases m)
  show ?case
  proof (cases "m = (f, as)")
    case True
    have "unat (word_of_nat (length t) :: s32) = length t"
      using t(3) by (simp add: unsigned_of_nat take_bit_nat_eq_self_iff)
    then have "LogWrite IO (bytes_of t) s = None"
      using t(2) Cons.prems by (simp add: LogWrite_def Let_def)
    then show ?thesis using True t(1) Cons.prems(2) by simp
  next
    case False
    then have i: "(f, as) \<in> set ms" using Cons.prems(1) by simp
    show ?thesis
    proof (cases "format pp g bs")
      case None
      then show ?thesis using m Cons.prems(2) by simp
    next
      case (Some u)
      show ?thesis
      proof (cases "LogWrite IO (bytes_of u) s")
        case None
        then show ?thesis using m Some Cons.prems(2) by simp
      next
        case w: (Some rs)
        obtain r s1 where rs: "rs = (r, s1)" by (cases rs)
        then have "log_formats IO pp ms s1 = None"
          using Cons.IH [OF i] LogWrite_fd [of IO "bytes_of u" s r s1] w Cons.prems(2) by simp
        then show ?thesis using m Some w rs Cons.prems(2) by simp
      qed
    qed
  qed
qed simp

lemma log_file_long:
  assumes "format pp f as = Some t" "STRING_SIZE < length t" "length t < 2 ^ 31"
    and "(f, as) \<in> set ms" "0 <s log_fd (snd (LogOpen IO path s))"
  shows "log_file IO pp path ms s = None"
  using log_formats_long [OF assms(1-4), of "snd (LogOpen IO path s)" IO] assms(5)
  by (simp add: log_file_def split_beta)

text \<open>Evaluation of the format checks.\<close>

lemmas line_defs = line_ok_def line_bound_def well_typed_def format_width_def spec0_def digit_of_def

end
