(* ===== verification/Exfatfs_Analysis.thy ===== *)
theory Exfatfs_Analysis
  imports Tool_Base
begin

text \<open>
  \<open>src/kernel/SceExfatfsAnalysis/src/main.c\<close>: the conversion of the 16-bit paths of SceExfatfs to
  characters, the three hooks on its functions, and the module entry, which writes the partitions and
  the cached files to a log.

  The data segment of SceExfatfs, which the entry reads, is a parameter of type \<open>exfat_view\<close>; the
  hooked functions are parameters as well.  The structures with all their members are in
  \<open>Layout_Analysis\<close>; the records here have the members that the code reads or sets.
  Code under \<open>if(0)\<close> is not modelled.
\<close>

section \<open>Paths\<close>

text \<open>
  \<open>*dst++ = x\<close> into an array, and the loop over the units of \<open>src\<close>.  Reading behind \<open>src\<close> or
  writing behind \<open>dst\<close> is a fault.
\<close>

definition put_char :: "u8 \<Rightarrow> u8 list \<times> nat \<Rightarrow> (u8 list \<times> nat) option" where
  "put_char c = (\<lambda>(dst, pos). if pos < length dst then Some (dst[pos := c], pos + 1) else None)"

function wchar_loop :: "u16 list \<Rightarrow> s32 \<Rightarrow> nat \<Rightarrow> u8 list \<times> nat \<Rightarrow> (u8 list \<times> nat) option" where
  "wchar_loop src len idx d =
     (if int idx < sint len
      then if length src \<le> idx then None
        else if src ! idx = 0 then Some d
        else do {
          d \<leftarrow> put_char (ucast (src ! idx)) d;
          d \<leftarrow> (if 0x100 \<le> src ! idx then put_char (ucast (drop_bit 8 (src ! idx))) d else Some d);
          wchar_loop src len (idx + 1) d
        }
      else Some d)"
  by pat_completeness auto

termination
  by (relation "measure (\<lambda>(src, len, idx, d). length src - idx)") auto

declare wchar_loop.simps [simp del]

definition WCharToChar :: "u8 list \<Rightarrow> u16 list \<Rightarrow> s32 \<Rightarrow> (s32 \<times> u8 list) option" where
  "WCharToChar dst src len = map_option (\<lambda>(dst, _). (0, dst)) (wchar_loop src len 0 (dst, 0))"

text \<open>The bytes of a path: one for a unit below 0x100, two for any other, up to the first 0.\<close>

definition unit_bytes :: "u16 \<Rightarrow> u8 list" where
  "unit_bytes u = (if 0x100 \<le> u then [ucast u, ucast (drop_bit 8 u)] else [ucast u])"

definition path_bytes :: "u16 list \<Rightarrow> u8 list" where
  "path_bytes us = concat (map unit_bytes (takeWhile (\<lambda>u. u \<noteq> 0) us))"

lemma path_bytes_Cons:
  "path_bytes (u # us) = (if u = 0 then [] else unit_bytes u @ path_bytes us)"
  by (simp add: path_bytes_def)

lemma path_bytes_Nil [simp]: "path_bytes [] = []"
  by (simp add: path_bytes_def)

lemma put_char_at: "put_char c (dst, p) =
    (if p < length dst then Some (overwrite p [c] dst, p + 1) else None)"
  by (simp add: put_char_def overwrite_def upd_conv_take_nth_drop)

lemma overwrite_more:
  assumes "p + length as + length bs \<le> length d"
  shows "overwrite (p + length as) bs (overwrite p as d) = overwrite p (as @ bs) d"
  using assms by (simp add: overwrite_def ac_simps)

lemma wchar_loop_bytes:
  assumes p: "p \<le> length d"
  shows "nat (sint len) \<le> length src \<or> 0 \<in> set (drop idx src) \<Longrightarrow> p + length bs \<le> length d \<Longrightarrow>
    wchar_loop src len idx (overwrite p bs d, p + length bs) =
     (let cs = path_bytes (take (nat (sint len) - idx) (drop idx src)) in
      if p + length bs + length cs \<le> length d
      then Some (overwrite p (bs @ cs) d, p + length bs + length cs) else None)"
proof (induction "length src - idx" arbitrary: idx bs rule: less_induct)
  case less
  show ?case
  proof (cases "int idx < sint len")
    case False
    then show ?thesis using less.prems(2) by (subst wchar_loop.simps) simp
  next
    case True
    then have i: "idx < length src" using less.prems(1) by (cases "idx < length src") auto
    have dr: "drop idx src = src ! idx # drop (Suc idx) src" using i by (simp add: Cons_nth_drop_Suc)
    obtain m where m: "nat (sint len) - idx = Suc m" using True by (cases "nat (sint len) - idx") auto
    have m': "nat (sint len) - Suc idx = m" using m by simp
    have t: "take (nat (sint len) - idx) (drop idx src) = src ! idx # take m (drop (Suc idx) src)"
      using i m by (simp add: Cons_nth_drop_Suc [symmetric])
    show ?thesis
    proof (cases "src ! idx = 0")
      case z: True
      then show ?thesis using True i less.prems(2) by (subst wchar_loop.simps) (simp add: t path_bytes_Cons)
    next
      case nz: False
      let ?u = "src ! idx"
      let ?ub = "unit_bytes ?u"
      have pr: "nat (sint len) \<le> length src \<or> 0 \<in> set (drop (idx + 1) src)"
        using less.prems(1) nz dr by auto
      have l: "length (overwrite p bs d) = length d" using less.prems(2) by simp
      have step: "Option.bind (put_char (ucast ?u) (overwrite p bs d, p + length bs))
          (\<lambda>d. if 0x100 \<le> ?u then put_char (ucast (drop_bit 8 ?u)) d else Some d) =
         (if p + length bs + length ?ub \<le> length d
          then Some (overwrite p (bs @ ?ub) d, p + length (bs @ ?ub)) else None)"
      proof (cases "p + length bs < length d")
        case True
        have o1: "overwrite (p + length bs) [ucast ?u] (overwrite p bs d) = overwrite p (bs @ [ucast ?u]) d"
          using overwrite_more [of p bs "[ucast ?u]" d] True by simp
        have o2: "overwrite (p + length (bs @ [ucast ?u])) [ucast (drop_bit 8 ?u)]
            (overwrite p (bs @ [ucast ?u]) d) = overwrite p (bs @ [ucast ?u, ucast (drop_bit 8 ?u)]) d"
          if "p + length bs + 1 < length d"
          using overwrite_more [of p "bs @ [ucast ?u]" "[ucast (drop_bit 8 ?u)]" d] that by simp
        show ?thesis using True l o1 o2 by (auto simp: put_char_at unit_bytes_def)
      next
        case False
        then show ?thesis using l by (auto simp: put_char_at unit_bytes_def)
      qed
      show ?thesis
      proof (cases "p + length bs + length ?ub \<le> length d")
        case le: True
        then have le': "p + length (bs @ ?ub) \<le> length d" by simp
        have "wchar_loop src len idx (overwrite p bs d, p + length bs) =
            wchar_loop src len (idx + 1) (overwrite p (bs @ ?ub) d, p + length (bs @ ?ub))"
          using True i nz step le by (subst wchar_loop.simps) (simp add: Option.bind_assoc [symmetric])
        then show ?thesis using less.hyps [of "idx + 1" "bs @ ?ub"] i le' nz m' pr
          by (simp add: t path_bytes_Cons Let_def add.assoc)
      next
        case gt: False
        have "wchar_loop src len idx (overwrite p bs d, p + length bs) = None"
          using True i nz step gt by (subst wchar_loop.simps) (simp add: Option.bind_assoc [symmetric])
        then show ?thesis using gt nz by (simp add: t path_bytes_Cons Let_def)
      qed
    qed
  qed
qed

text \<open>
  The conversion writes the bytes of the path and nothing else, and it faults exactly when the array
  is too short for them; it writes no terminator.
\<close>

lemma WCharToChar_writes:
  assumes "nat (sint len) \<le> length src \<or> 0 \<in> set src"
  shows "WCharToChar dst src len =
    (let bs = path_bytes (take (nat (sint len)) src) in
     if length bs \<le> length dst then Some (0, overwrite 0 bs dst) else None)"
  using wchar_loop_bytes [of 0 dst len src 0 "[]"] assms by (simp add: WCharToChar_def Let_def)

lemma length_path_bytes: "length (path_bytes us) \<le> 2 * length us"
  by (induction us) (auto simp: path_bytes_Cons unit_bytes_def)

lemma path_bytes_low: "\<forall>u \<in> set us. u < 0x100 \<Longrightarrow> length (path_bytes us) \<le> length us"
  by (induction us) (auto simp: path_bytes_Cons unit_bytes_def not_le)


section \<open>Data of SceExfatfs\<close>

record SceExfatfsDateTime =
  dt_year :: u16
  dt_month :: u16
  dt_day :: u16
  dt_hour :: u16
  dt_minute :: u16
  dt_second :: u16

record SceExfatfsPartCtx =
  pc_blk_name :: addr
  pc_unk_4 :: u32
  pc_unk_8 :: u32
  pc_rsvd_sector :: u32
  pc_unk_10 :: u32
  pc_available_clusters :: u32
  pc_unk_1C :: u32
  pc_unk_B4 :: u32
  pc_blk_size :: u32

text \<open>\<open>fc_words\<close> are the eighteen words from \<open>data_0x248\<close> to \<open>data_0x28C\<close>.\<close>

record SceExfatfsFileCache =
  fc_path :: "u16 list"
  fc_pFileName :: addr
  fc_ctx :: addr
  fc_mode :: u32
  fc_attr :: u32
  fc_size :: u64
  fc_ctime :: SceExfatfsDateTime
  fc_atime :: SceExfatfsDateTime
  fc_mtime :: SceExfatfsDateTime
  fc_cluster_start :: s32
  fc_words :: "u32 list"

record 'k exfat_state =
  ef_fnodes :: "addr \<Rightarrow> SceExfatfsFileCache option"
  ef_parts :: "addr \<Rightarrow> SceExfatfsPartCtx option"
  ef_paths :: "addr \<Rightarrow> u16 list option"
  ef_names :: "addr \<Rightarrow> string option"
  ef_debug :: "message list"
  ef_k :: 'k

definition date0 :: SceExfatfsDateTime where
  "date0 = \<lparr>dt_year = 0, dt_month = 0, dt_day = 0, dt_hour = 0, dt_minute = 0, dt_second = 0\<rparr>"

definition debug :: "message \<Rightarrow> 'k exfat_state \<Rightarrow> 'k exfat_state" where
  "debug m s = s\<lparr>ef_debug := ef_debug s @ [m]\<rparr>"

section \<open>The hooks\<close>

text \<open>\<open>memset(res, 0, sizeof(*res))\<close> and the members that are set afterwards.\<close>

definition unused_entry :: "addr \<Rightarrow> SceExfatfsFileCache" where
  "unused_entry res = \<lparr>fc_path = replicate 0x104 0, fc_pFileName = res, fc_ctx = NULL, fc_mode = 0,
     fc_attr = 0, fc_size = 0, fc_ctime = date0, fc_atime = date0, fc_mtime = date0,
     fc_cluster_start = -1,
     fc_words = (replicate 18 0)[2 := NOT 1, 6 := NOT 1, 14 := NOT 1, 15 := NOT 1]\<rparr>"

definition sub_81006BB0_patch ::
    "(addr \<Rightarrow> addr \<Rightarrow> addr \<Rightarrow> 'k exfat_state \<Rightarrow> addr \<times> 'k exfat_state) \<Rightarrow> addr \<Rightarrow> addr \<Rightarrow> addr \<Rightarrow> addr \<Rightarrow>
     'k exfat_state \<Rightarrow> (addr \<times> 'k exfat_state) option" where
  "sub_81006BB0_patch continue_to lr pData pCtx path s = do {
     let (res, s) = continue_to pData pCtx path s;
     us \<leftarrow> ef_paths s path;
     (_, loc_path) \<leftarrow> WCharToChar (replicate 0x204 0) us 0x104;
     c \<leftarrow> ef_parts s pCtx;
     nm \<leftarrow> ef_names s (pc_blk_name c);
     t \<leftarrow> array_string loc_path;
     let s = debug (''sub_81006BB0:lr(0x%X):0x%X %-27s:%s\<newline>'', [Num32 lr, Num32 res, Text nm, Text t]) s;
     if res \<noteq> NULL \<and> nm = ''sdstor0:uma-pp-act-a'' then do {
       _ \<leftarrow> ef_fnodes s res;
       Some (NULL, s\<lparr>ef_fnodes := (ef_fnodes s)(res \<mapsto> unused_entry res)\<rparr>)
     }
     else Some (res, s)
   }"

text \<open>\<open>name\<close> is a string, \<open>name_length\<close> and \<open>a4\<close> are passed on.\<close>

definition sub_81003384_patch ::
    "(addr \<Rightarrow> addr \<Rightarrow> SceSize \<Rightarrow> addr \<Rightarrow> 'k exfat_state \<Rightarrow> s32 \<times> 'k exfat_state) \<Rightarrow> addr \<Rightarrow> addr \<Rightarrow> addr \<Rightarrow>
     SceSize \<Rightarrow> addr \<Rightarrow> 'k exfat_state \<Rightarrow> (s32 \<times> 'k exfat_state) option" where
  "sub_81003384_patch continue_to lr info name name_length a4 s = do {
     i \<leftarrow> ef_fnodes s info;
     (_, loc_path) \<leftarrow> WCharToChar (replicate 0x204 0) (fc_path i) 0x104;
     let (res, s) = continue_to info name name_length a4 s;
     i \<leftarrow> ef_fnodes s info;
     c \<leftarrow> ef_parts s (fc_ctx i);
     blk \<leftarrow> ef_names s (pc_blk_name c);
     t \<leftarrow> array_string loc_path;
     nm \<leftarrow> ef_names s name;
     Some (res, debug (''sub_81003348:lr(0x%X):0x%X %s %s:%s:0x%08X:0x%08X\<newline>'',
       [Num32 lr, Num32 res, Text blk, Text t, Text nm, Num32 name_length, Num32 a4]) s)
   }"

text \<open>\<open>deref a1\<close> is the word at the address that the hooked function got.\<close>

definition sub_81009CA0_patch ::
    "(addr \<Rightarrow> 'k exfat_state \<Rightarrow> s32 \<times> 'k exfat_state) \<Rightarrow> ('k \<Rightarrow> addr \<Rightarrow> u32 option) \<Rightarrow> addr \<Rightarrow> addr \<Rightarrow>
     'k exfat_state \<Rightarrow> (s32 \<times> 'k exfat_state) option" where
  "sub_81009CA0_patch continue_to word_of lr a1 s = do {
     let (res, s) = continue_to a1 s;
     w \<leftarrow> word_of (ef_k s) a1;
     Some (res, debug (''sub_81009CA0:lr(0x%X):0x%X 0x%08X\<newline>'', [Num32 lr, Num32 res, Num32 w]) s)
   }"


text \<open>
  The hook on the creation of a cache entry faults when the path takes 0x204 bytes or more, which up to
  0x102 units above 0xFF already do; otherwise it gives up exactly the entries of the \<open>uma\<close> partition.
\<close>

lemma cache_hook_fault:
  assumes "continue_to pData pCtx path s = (res, s1)" "ef_paths s1 path = Some us"
    and "0x104 \<le> length us" "0 \<notin> set (path_bytes (take 0x104 us))" "0x204 \<le> length (path_bytes (take 0x104 us))"
  shows "sub_81006BB0_patch continue_to lr pData pCtx path s = None"
proof -
  let ?b = "path_bytes (take 0x104 us)"
  have w: "WCharToChar (replicate 0x204 0) us 0x104 =
      (if length ?b \<le> 0x204 then Some (0, overwrite 0 ?b (replicate 0x204 0)) else None)"
    using WCharToChar_writes [of "0x104" us "replicate 0x204 0"] assms(3) by (simp add: Let_def)
  have "array_string (overwrite 0 ?b (replicate 0x204 0)) = None" if "length ?b = 0x204"
    using array_string_full [OF assms(4)] that by simp
  then show ?thesis using assms(1,2,5) w
    by (auto simp: sub_81006BB0_patch_def split: Option.bind_split)
qed

lemma cache_hook_entry:
  assumes "continue_to pData pCtx path s = (res, s1)" "ef_paths s1 path = Some us" "length us = 0x104"
    and "0 \<notin> set (path_bytes us)" "length (path_bytes us) < 0x204"
    and "ef_parts s1 pCtx = Some c" "ef_names s1 (pc_blk_name c) = Some nm" "ef_fnodes s1 res = Some e"
  shows "\<exists>s2. sub_81006BB0_patch continue_to lr pData pCtx path s =
      Some (if nm = ''sdstor0:uma-pp-act-a'' then NULL else res, s2) \<and>
    ef_fnodes s2 = (if res \<noteq> NULL \<and> nm = ''sdstor0:uma-pp-act-a''
      then (ef_fnodes s1)(res \<mapsto> unused_entry res) else ef_fnodes s1)"
proof -
  have "WCharToChar (replicate 0x204 0) us 0x104 = Some (0, overwrite 0 (path_bytes us) (replicate 0x204 0))"
    using WCharToChar_writes [of "0x104" us "replicate 0x204 0"] assms(3,5) by (simp add: Let_def)
  then show ?thesis using assms array_string_overwrite [OF assms(4,5)]
    by (simp add: sub_81006BB0_patch_def debug_def)
qed

section \<open>The listing\<close>

text \<open>
  What \<open>module_start\<close> reads of SceExfatfs: its segments, the list of 8 strings, the 15 partition
  contexts and the 0x400 cached files of the shared resource, and the objects behind their pointers.
\<close>

record exfat_view =
  ev_text :: segment
  ev_data :: segment
  ev_list :: "addr list"
  ev_part_ctx :: "SceExfatfsPartCtx list"
  ev_fnode :: "SceExfatfsFileCache list"
  ev_ctx :: "addr \<Rightarrow> SceExfatfsPartCtx option"
  ev_str :: "addr \<Rightarrow> string option"

definition list_line :: "exfat_view \<Rightarrow> nat \<Rightarrow> message list option" where
  "list_line v i =
     (if ev_list v ! i = NULL then Some []
      else do { t \<leftarrow> ev_str v (ev_list v ! i); Some [(''%s\<newline>'', [Text t])] })"

definition part_lines :: "nat \<Rightarrow> SceExfatfsPartCtx \<Rightarrow> string \<Rightarrow> message list" where
  "part_lines i p nm =
     [(''%02d\<newline>'', [Num32 (of_nat i)]),
      (''%s\<newline>'', [Text nm]),
      (''unk_4             :0x%08X\<newline>'', [Num32 (pc_unk_4 p)]),
      (''unk_8             :0x%08X\<newline>'', [Num32 (pc_unk_8 p)]),
      (''rsvd_sector       :0x%08X\<newline>'', [Num32 (pc_rsvd_sector p)]),
      (''unk_10            :0x%08X\<newline>'', [Num32 (pc_unk_10 p)]),
      (''available_clusters:0x%08X\<newline>'', [Num32 (pc_available_clusters p)]),
      (''unk_1C            :0x%08X\<newline>'', [Num32 (pc_unk_1C p)]),
      (if pc_unk_B4 p = 1 then (''FAT16\<newline>'', [])
       else if pc_unk_B4 p = 2 then (''exFAT\<newline>'', [])
       else (''unk_B4:0x%08X\<newline>'', [Num32 (pc_unk_B4 p)])),
      (''blk_size:0x%08X(0x%08X%08X byte)\<newline>'',
        [Num32 (pc_blk_size p), Num32 (drop_bit 23 (pc_blk_size p)), Num32 (push_bit 9 (pc_blk_size p))]),
      (''\<newline>'', [])]"

definition part_entry :: "exfat_view \<Rightarrow> nat \<Rightarrow> message list option" where
  "part_entry v i =
     (let p = ev_part_ctx v ! i in
      if pc_blk_name p = NULL then Some []
      else do { nm \<leftarrow> ev_str v (pc_blk_name p); Some (part_lines i p nm) })"

definition date_args :: "SceExfatfsDateTime \<Rightarrow> farg list" where
  "date_args d = [Num32 (ucast (dt_year d)), Num32 (ucast (dt_month d)), Num32 (ucast (dt_day d)),
     Num32 (ucast (dt_hour d)), Num32 (ucast (dt_minute d)), Num32 (ucast (dt_second d))]"

text \<open>The line with the path, for a path that starts with a slash: a local array of 0x208 bytes.\<close>

definition path_line :: "SceExfatfsFileCache \<Rightarrow> message list option" where
  "path_line f =
     (if fc_path f ! 0 = 0x2F
      then do {
        (_, path) \<leftarrow> WCharToChar (replicate 0x208 0) (fc_path f) 0x104;
        t \<leftarrow> array_string path;
        Some [(''path:%s\<newline>'', [Text t])]
      }
      else Some [])"

definition entry_sector :: "SceExfatfsPartCtx \<Rightarrow> s32 \<Rightarrow> u32" where
  "entry_sector c cluster_start = pc_rsvd_sector c + push_bit 3 (cluster_start - 2) + 0x20"

definition offset_lines :: "SceExfatfsPartCtx \<Rightarrow> s32 \<Rightarrow> message list" where
  "offset_lines c cluster_start =
     (if pc_unk_B4 c = 1
      then if cluster_start = 0
        then [(''entry offset : 0x%08X%08X [B]\<newline>'', [Num32 0, Num32 (push_bit 9 (pc_rsvd_sector c))])]
        else [(''entry offset : 0x%08X%08X [B]\<newline>'',
               [Num32 (drop_bit 23 (entry_sector c cluster_start)), Num32 (push_bit 9 (entry_sector c cluster_start))])]
      else [])"

definition fnode_lines :: "exfat_view \<Rightarrow> nat \<Rightarrow> message list option" where
  "fnode_lines v i =
     (let f = ev_fnode v ! i in
      if fc_path f ! 0 \<noteq> 0
      then do {
        pl \<leftarrow> path_line f;
        c \<leftarrow> ev_ctx v (fc_ctx f);
        nm \<leftarrow> ev_str v (pc_blk_name c);
        Some ([(''%03d\<newline>'', [Num32 (of_nat i)])] @ pl @
          [(''0x%llX byte\<newline>'', [Num64 (fc_size f)]),
           (''blk_name:%s\<newline>'', [Text nm]),
           (''ctime:%04d/%02d/%02d %02d/%02d/%02d '', date_args (fc_ctime f)),
           (''atime:%04d/%02d/%02d %02d/%02d/%02d '', date_args (fc_atime f)),
           (''mtime:%04d/%02d/%02d %02d/%02d/%02d\<newline>'', date_args (fc_mtime f)),
           (''cluster_start : 0x%08X\<newline>'', [Num32 (fc_cluster_start f)])] @
          offset_lines c (fc_cluster_start f) @ [(''\<newline>'', [])])
      }
      else Some [])"

definition exfat_head :: "exfat_view \<Rightarrow> message list" where
  "exfat_head v =
     [(''text %p, 0x%X\<newline>'', [Pointer (sg_vaddr (ev_text v)), Num32 (sg_memsz (ev_text v))]),
      (''data %p, 0x%X\<newline>'', [Pointer (sg_vaddr (ev_data v)), Num32 (sg_memsz (ev_data v))]),
      (''\<newline>'', []),
      (''SceExfatfsSharedResource size : 0x%X\<newline>'', [Num32 0x295D60]),
      (''\<newline>'', [])]"

definition exfat_lines :: "exfat_view \<Rightarrow> message list option" where
  "exfat_lines v = do {
     ls \<leftarrow> collect (list_line v) [0 ..< 8];
     ps \<leftarrow> collect (part_entry v) [0 ..< 15];
     fs \<leftarrow> collect (fnode_lines v) [0 ..< 0x400];
     Some (exfat_head v @ ls @ [(''\<newline>'', [])] @ ps @ fs @ [(''\<newline>'', [])])
   }"

text \<open>\<open>io_remove\<close> is \<open>ksceIoRemove\<close>; its result is not looked at.\<close>

definition exfat_module_start ::
    "'k sce_io \<Rightarrow> ('k \<Rightarrow> string \<Rightarrow> 'k) \<Rightarrow> (addr \<Rightarrow> string) \<Rightarrow> exfat_view \<Rightarrow> 'k log_state \<Rightarrow>
     (start_result \<times> 'k log_state) option" where
  "exfat_module_start IO io_remove pp v s = do {
     ms \<leftarrow> exfat_lines v;
     s \<leftarrow> log_file IO pp ''uma0:sce_exfatfs.txt'' ms
       (s\<lparr>log_kst := io_remove (log_kst s) ''uma0:sce_exfatfs.txt''\<rparr>);
     Some (START_SUCCESS, s)
   }"

section \<open>What is listed\<close>

text \<open>The two words that are printed are the halves of the number of bytes.\<close>

lemma sector_halves:
  "unat (drop_bit 23 (n :: u32)) * 2 ^ 32 + unat (push_bit 9 n) = unat n * 512"
proof -
  have "unat (push_bit 9 n) = unat n * 512 mod 2 ^ 32"
    by (simp add: push_bit_eq_mult unat_word_ariths)
  moreover have "unat n * 512 div 2 ^ 32 = unat n div 2 ^ 23" by simp
  moreover have "unat (drop_bit 23 n) = unat n div 2 ^ 23" by (rule unat_drop)
  ultimately show ?thesis using div_mult_mod_eq [of "unat n * 512" "2 ^ 32"] by simp
qed

text \<open>
  A view is well formed when its arrays have their lengths, its pointers lead to objects, its names
  have at most 0x100 characters, and every path takes at most \<open>n\<close> bytes none of which is 0.
\<close>

definition view_ok :: "exfat_view \<Rightarrow> nat \<Rightarrow> bool" where
  "view_ok v n \<longleftrightarrow> length (ev_list v) = 8 \<and> length (ev_part_ctx v) = 15 \<and> length (ev_fnode v) = 0x400 \<and>
     (\<forall>p \<in> set (ev_list v) - {NULL}. \<exists>t. ev_str v p = Some t \<and> length t \<le> 0x100) \<and>
     (\<forall>c \<in> set (ev_part_ctx v). pc_blk_name c \<noteq> NULL \<longrightarrow> (\<exists>t. ev_str v (pc_blk_name c) = Some t \<and> length t \<le> 0x100)) \<and>
     (\<forall>f \<in> set (ev_fnode v). fc_path f ! 0 \<noteq> 0 \<longrightarrow> length (fc_path f) = 0x104 \<and> 0 \<notin> set (path_bytes (fc_path f)) \<and>
        length (path_bytes (fc_path f)) \<le> n \<and>
        (\<exists>c t. ev_ctx v (fc_ctx f) = Some c \<and> ev_str v (pc_blk_name c) = Some t \<and> length t \<le> 0x100))"

lemma path_line_ok:
  assumes "length (fc_path f) = 0x104" "0 \<notin> set (path_bytes (fc_path f))" "length (path_bytes (fc_path f)) < 0x208"
  shows "path_line f = Some (if fc_path f ! 0 = 0x2F
    then [(''path:%s\<newline>'', [Text (chars_of (path_bytes (fc_path f)))])] else [])"
proof -
  have l: "nat (sint (0x104 :: s32)) = 0x104" by simp
  have "WCharToChar (replicate 0x208 0) (fc_path f) 0x104 =
      Some (0, overwrite 0 (path_bytes (fc_path f)) (replicate 0x208 0))"
    using WCharToChar_writes [of "0x104" "fc_path f" "replicate 0x208 0"] assms by (simp add: Let_def)
  then show ?thesis using array_string_overwrite [OF assms(2,3)] by (simp add: path_line_def)
qed


lemma part_lines_ok:
  assumes "length nm \<le> 0x100" "m \<in> set (part_lines i p nm)"
  shows "line_ok pp m"
  using assms by (auto simp: part_lines_def line_defs split: if_splits)

lemma offset_lines_ok: "m \<in> set (offset_lines c n) \<Longrightarrow> line_ok pp m"
  by (auto simp: offset_lines_def line_defs split: if_splits)

lemma fnode_lines_ok:
  assumes v: "view_ok v n" "n \<le> 0x1F0" and i: "i < 0x400"
  shows "\<exists>ls. fnode_lines v i = Some ls \<and> (\<forall>m \<in> set ls. line_ok pp m)"
proof -
  let ?f = "ev_fnode v ! i"
  have mem: "?f \<in> set (ev_fnode v)" using v(1) i by (simp add: view_ok_def)
  show ?thesis
  proof (cases "fc_path ?f ! 0 = 0")
    case True
    then show ?thesis by (simp add: fnode_lines_def Let_def)
  next
    case nz: False
    from mem nz obtain c t where f: "length (fc_path ?f) = 0x104" "0 \<notin> set (path_bytes (fc_path ?f))"
      "length (path_bytes (fc_path ?f)) \<le> n" "ev_ctx v (fc_ctx ?f) = Some c"
      "ev_str v (pc_blk_name c) = Some t" "length t \<le> 0x100"
      using v(1) unfolding view_ok_def by blast
    have "length (path_bytes (fc_path ?f)) < 0x208" using f(3) v(2) by simp
    note pl = path_line_ok [OF f(1,2) this]
    have p: "line_ok pp (''path:%s\<newline>'', [Text (chars_of (path_bytes (fc_path ?f)))])"
      using f(3) v(2) by (simp add: line_defs)
    show ?thesis
      using f(4,5,6) p offset_lines_ok [of _ c "fc_cluster_start ?f" pp]
      by (auto simp: fnode_lines_def Let_def pl date_args_def line_defs)
  qed
qed

lemma view_ok_names:
  assumes "view_ok v n"
  shows "i < 8 \<Longrightarrow> ev_list v ! i \<noteq> NULL \<Longrightarrow> \<exists>t. ev_str v (ev_list v ! i) = Some t \<and> length t \<le> 0x100"
    and "i < 15 \<Longrightarrow> pc_blk_name (ev_part_ctx v ! i) \<noteq> NULL \<Longrightarrow>
      \<exists>t. ev_str v (pc_blk_name (ev_part_ctx v ! i)) = Some t \<and> length t \<le> 0x100"
proof -
  have l: "length (ev_list v) = 8" "length (ev_part_ctx v) = 15" using assms by (simp_all add: view_ok_def)
  have "ev_list v ! i \<in> set (ev_list v)" if "i < 8" using l that by simp
  then show "i < 8 \<Longrightarrow> ev_list v ! i \<noteq> NULL \<Longrightarrow> \<exists>t. ev_str v (ev_list v ! i) = Some t \<and> length t \<le> 0x100"
    using assms unfolding view_ok_def by blast
  have "ev_part_ctx v ! i \<in> set (ev_part_ctx v)" if "i < 15" using l that by simp
  then show "i < 15 \<Longrightarrow> pc_blk_name (ev_part_ctx v ! i) \<noteq> NULL \<Longrightarrow>
      \<exists>t. ev_str v (pc_blk_name (ev_part_ctx v ! i)) = Some t \<and> length t \<le> 0x100"
    using assms unfolding view_ok_def by blast
qed

lemma exfat_lines_ok:
  assumes v: "view_ok v n" "n \<le> 0x1F0" and pp: "\<And>p. length (pp p) \<le> 0x20"
  shows "\<exists>ms. exfat_lines v = Some ms \<and> (\<forall>m \<in> set ms. line_ok pp m)"
proof -
  have ls: "\<exists>ls. list_line v i = Some ls \<and> (\<forall>m \<in> set ls. line_ok pp m)" if i: "i < 8" for i
  proof (cases "ev_list v ! i = NULL")
    case False
    then obtain t where "ev_str v (ev_list v ! i) = Some t" "length t \<le> 0x100"
      using view_ok_names(1) [OF v(1) i] by blast
    then show ?thesis using False by (simp add: list_line_def line_defs)
  qed (simp add: list_line_def)
  have ps: "\<exists>ls. part_entry v i = Some ls \<and> (\<forall>m \<in> set ls. line_ok pp m)" if i: "i < 15" for i
  proof (cases "pc_blk_name (ev_part_ctx v ! i) = NULL")
    case False
    then obtain t where "ev_str v (pc_blk_name (ev_part_ctx v ! i)) = Some t" "length t \<le> 0x100"
      using view_ok_names(2) [OF v(1) i] by blast
    then show ?thesis using False part_lines_ok [of t _ i "ev_part_ctx v ! i" pp]
      by (auto simp: part_entry_def Let_def)
  qed (simp add: part_entry_def)
  obtain l where l: "collect (list_line v) [0 ..< 8] = Some l" "\<forall>m \<in> set l. line_ok pp m"
    using collect_lines [of "8" "list_line v" "line_ok pp", OF ls] by blast
  obtain q where q: "collect (part_entry v) [0 ..< 15] = Some q" "\<forall>m \<in> set q. line_ok pp m"
    using collect_lines [of "15" "part_entry v" "line_ok pp", OF ps] by blast
  obtain f where f: "collect (fnode_lines v) [0 ..< 0x400] = Some f" "\<forall>m \<in> set f. line_ok pp m"
    using collect_lines [of "0x400" "fnode_lines v" "line_ok pp", OF fnode_lines_ok [OF v]] by blast
  have h: "\<forall>m \<in> set (exfat_head v). line_ok pp m"
    using pp [of "sg_vaddr (ev_text v)"] pp [of "sg_vaddr (ev_data v)"]
    by (simp add: exfat_head_def line_defs)
  have "line_ok pp (''\<newline>'', [])" by (simp add: line_defs)
  then show ?thesis using l q f h by (auto simp: exfat_lines_def)
qed

text \<open>A path that is too long for the line that prints it.\<close>

lemma exfat_long_path:
  assumes i: "i < 0x400" "length (fc_path (ev_fnode v ! i)) = 0x104" "fc_path (ev_fnode v ! i) ! 0 = 0x2F"
    and b: "0 \<notin> set (path_bytes (fc_path (ev_fnode v ! i)))" "0x1FB \<le> length (path_bytes (fc_path (ev_fnode v ! i)))"
    and ms: "exfat_lines v = Some ms"
  shows "\<exists>t. format pp ''path:%s\<newline>'' [Text t] = Some (''path:'' @ t @ ''\<newline>'') \<and>
    (''path:%s\<newline>'', [Text t]) \<in> set ms \<and> length t = length (path_bytes (fc_path (ev_fnode v ! i)))"
proof -
  let ?f = "ev_fnode v ! i"
  let ?b = "path_bytes (fc_path ?f)"
  from ms obtain l q fs where e: "collect (fnode_lines v) [0 ..< 0x400] = Some fs"
    "ms = exfat_head v @ l @ [(''\<newline>'', [])] @ q @ fs @ [(''\<newline>'', [])]"
    unfolding exfat_lines_def by (auto split: Option.bind_splits simp del: append.simps)
  then have fs: "collect (fnode_lines v) [0 ..< 0x400] = Some fs" "set fs \<subseteq> set ms" by auto
  obtain ls where ls: "fnode_lines v i = Some ls" "set ls \<subseteq> set fs"
    using collect_set [OF fs(1), of i] i(1) by auto
  then obtain pl where pl: "path_line ?f = Some pl" "\<exists>us vs. ls = us @ pl @ vs"
    using i(3) unfolding fnode_lines_def Let_def
    by (simp del: append.simps split: Option.bind_split_asm) blast
  have "length ?b \<le> 0x208" using length_path_bytes [of "fc_path ?f"] i(2) by simp
  moreover have "length ?b \<noteq> 0x208"
  proof
    assume e: "length ?b = 0x208"
    have "WCharToChar (replicate 0x208 0) (fc_path ?f) 0x104 = Some (0, overwrite 0 ?b (replicate (length ?b) 0))"
      using WCharToChar_writes [of "0x104" "fc_path ?f" "replicate 0x208 0"] i(2) e by (simp add: Let_def)
    then show False using pl(1) i(3) array_string_full [OF b(1)] by (simp add: path_line_def)
  qed
  ultimately have "length ?b < 0x208" by simp
  from path_line_ok [OF i(2) b(1) this] have "(''path:%s\<newline>'', [Text (chars_of ?b)]) \<in> set ms"
    using pl ls(2) fs(2) i(3) by auto
  moreover have "format pp ''path:%s\<newline>'' [Text t] = Some (''path:'' @ t @ ''\<newline>'')" for t
    by (simp add: format_def spec0_def digit_of_def render_dir_def pad_def)
  ultimately show ?thesis by auto
qed

text \<open>
  C35: the listing of SceExfatfs.  When every cached path takes at most 0x1F0 bytes and the names are
  short, the log gets the texts of all lines in their order and is closed.  A cached path that takes
  0x1FB bytes or more makes the module fault, in the array of the path or in that of the log line.
\<close>

theorem exfat_listing:
  assumes A: "append_contract IO out" and s: "log_fd s = 0" "length (log_buff s) = LOG_BUFF_SIZE"
    and o: "0 <s log_fd (snd (LogOpen IO ''uma0:sce_exfatfs.txt''
      (s\<lparr>log_kst := io_remove (log_kst s) ''uma0:sce_exfatfs.txt''\<rparr>)))"
    and pp: "\<And>p. length (pp p) \<le> 0x20"
  shows "(view_ok v 0x1F0 \<longrightarrow> (\<exists>ms s'. exfat_lines v = Some ms \<and>
      exfat_module_start IO io_remove pp v s = Some (START_SUCCESS, s') \<and> log_fd s' = 0 \<and>
      out (log_kst s') = out (io_remove (log_kst s) ''uma0:sce_exfatfs.txt'') @
        bytes_of (concat (map (line_text pp) ms)))) \<and>
    (\<forall>i < 0x400. let f = ev_fnode v ! i in
      length (fc_path f) = 0x104 \<and> fc_path f ! 0 = 0x2F \<and> 0 \<notin> set (path_bytes (fc_path f)) \<and>
      0x1FB \<le> length (path_bytes (fc_path f)) \<longrightarrow> exfat_module_start IO io_remove pp v s = None)"
proof -
  let ?s = "s\<lparr>log_kst := io_remove (log_kst s) ''uma0:sce_exfatfs.txt''\<rparr>"
  have s': "log_fd ?s = 0" "length (log_buff ?s) = LOG_BUFF_SIZE" using s by simp_all
  have 1: "\<exists>ms s'. exfat_lines v = Some ms \<and>
      exfat_module_start IO io_remove pp v s = Some (START_SUCCESS, s') \<and> log_fd s' = 0 \<and>
      out (log_kst s') = out (io_remove (log_kst s) ''uma0:sce_exfatfs.txt'') @
        bytes_of (concat (map (line_text pp) ms))" if v: "view_ok v 0x1F0"
  proof -
    obtain ms where ms: "exfat_lines v = Some ms" "\<forall>m \<in> set ms. line_ok pp m"
      using exfat_lines_ok [OF v order_refl, of pp] pp by blast
    from log_file_ok [OF A s' o ms(2)] ms(1) show ?thesis by (auto simp: exfat_module_start_def)
  qed
  have 2: "exfat_module_start IO io_remove pp v s = None"
    if f: "i < 0x400" "length (fc_path (ev_fnode v ! i)) = 0x104" "fc_path (ev_fnode v ! i) ! 0 = 0x2F"
      "0 \<notin> set (path_bytes (fc_path (ev_fnode v ! i)))"
      "0x1FB \<le> length (path_bytes (fc_path (ev_fnode v ! i)))" for i
  proof (cases "exfat_lines v")
    case None
    then show ?thesis by (simp add: exfat_module_start_def)
  next
    case (Some ms)
    obtain t where t: "format pp ''path:%s\<newline>'' [Text t] = Some (''path:'' @ t @ ''\<newline>'')"
      "(''path:%s\<newline>'', [Text t]) \<in> set ms" "length t = length (path_bytes (fc_path (ev_fnode v ! i)))"
      using exfat_long_path [OF f Some, of pp] by blast
    have "length t \<le> 0x208" using t(3) length_path_bytes [of "fc_path (ev_fnode v ! i)"] f(2) by simp
    then have "log_file IO pp ''uma0:sce_exfatfs.txt'' ms ?s = None"
      using t f(5) by (intro log_file_long [OF t(1) _ _ t(2) o]) (simp_all add: STRING_SIZE_def)
    then show ?thesis using Some by (simp add: exfat_module_start_def)
  qed
  show ?thesis using 1 2 by (auto simp: Let_def)
qed

end
