(* ===== verification/Sdstor_Analysis.thy ===== *)
theory Sdstor_Analysis
  imports Tool_Base
begin

text \<open>
  \<open>src/kernel/SceSdstorAnalysis/src/main.c\<close>: the names of storage partitions that SceSdstor accepts, and
  the contexts of its five devices, written to a log.

  The data segment of SceSdstor is a parameter of type \<open>sdstor_view\<close>, and its function that decodes a
  name is a parameter \<open>decode\<close>: it gives a result and the array of 0x10 bytes that it filled.
  The structures with all their members are in \<open>Layout_Analysis\<close>.
\<close>

section \<open>Names\<close>

definition sdstor_0 :: "string list" where
  "sdstor_0 = [''int'', ''ext'', ''gcd'', ''mcd'', ''uma'', ''usd'', ''xmc'']"

definition sdstor_1 :: "string list" where
  "sdstor_1 = [''lp'', ''pp'']"

definition sdstor_2 :: "string list" where
  "sdstor_2 = [''ina'', ''act'', ''ign'']"

definition sdstor_3 :: "string list" where
  "sdstor_3 =
    [''unused'', ''idstor'', ''sloader'', ''os'', ''vsh'', ''vshdata'', ''vtrm'', ''user'',
     ''userext'', ''gamero'', ''gamerw'', ''updater'', ''sysdata'', ''mediaid'', ''pidata'', ''entire'']"

text \<open>\<open>snprintf(sdstor_str, sizeof(sdstor_str), "%s-%s-%s-%s", ...)\<close> into 0x20 bytes.\<close>

definition sdstor_str :: "nat \<Rightarrow> nat \<Rightarrow> nat \<Rightarrow> nat \<Rightarrow> string" where
  "sdstor_str s0 s1 s2 s3 =
     take 0x1F (sdstor_0 ! s0 @ ''-'' @ sdstor_1 ! s1 @ ''-'' @ sdstor_2 ! s2 @ ''-'' @ sdstor_3 ! s3)"

definition name_line :: "(string \<Rightarrow> s32 \<times> u8 list) \<Rightarrow> nat \<Rightarrow> nat \<Rightarrow> nat \<Rightarrow> nat \<Rightarrow> message" where
  "name_line decode s0 s1 s2 s3 =
     (let str = sdstor_str s0 s1 s2 s3; (res, decode_path) = decode str in
      if \<not> failed res
      then (''0x%X 0x%X 0x%X 0x%X %s\<newline>'',
        [Num32 (ucast (decode_path ! 0)), Num32 (ucast (decode_path ! 1)), Num32 (ucast (decode_path ! 2)),
         Num32 (ucast (decode_path ! 3)), Text str])
      else (''0x%X %s\<newline>'', [Num32 res, Text str]))"

definition name_lines :: "(string \<Rightarrow> s32 \<times> u8 list) \<Rightarrow> message list" where
  "name_lines decode =
     concat (map (\<lambda>s0. concat (map (\<lambda>s1. concat (map (\<lambda>s2. map (\<lambda>s3. name_line decode s0 s1 s2 s3)
       [0 ..< 0x10]) [0 ..< 3])) [0 ..< 2])) [0 ..< 7])"

section \<open>Devices\<close>

record SceSdstorPartInfo =
  pi_start_lba :: u32
  pi_n_sectors :: u32
  pi_data_0x00 :: addr
  pi_data_0x04 :: addr
  pi_id :: "u8 list"
  pi_flags :: u32
  pi_unk_0x10 :: u32

record SceSdstorDeviceContext =
  dc_unk_40 :: u32
  dc_dev :: addr
  dc_unk_48 :: u32
  dc_device_sectors :: u32
  dc_unk_50 :: u32
  dc_mbr_ptr :: addr
  dc_partitions :: "SceSdstorPartInfo list"
  dc_unk_234 :: u8
  dc_unk_235 :: u8
  dc_unk_236 :: u8
  dc_unk_237 :: u8

record sdstor_view =
  sv_text :: segment
  sv_data :: segment
  sv_contexts :: "SceSdstorDeviceContext list"

definition TAB :: string where "TAB = [CHR 0x09]"

text \<open>The number of bytes of a number of sectors, in 64 bits.\<close>

definition sector_bytes :: "u32 \<Rightarrow> u32 \<Rightarrow> u64" where
  "sector_bytes n c = ucast n * ucast c"

definition partition_lines :: "SceSdstorDeviceContext \<Rightarrow> nat \<Rightarrow> message list option" where
  "partition_lines c n = do {
     let p = dc_partitions c ! n;
     id \<leftarrow> array_string (pi_id p);
     Some [(TAB @ TAB @ ''data_0x00: 0x%X\<newline>'', [Num32 (pi_data_0x00 p)]),
       (TAB @ TAB @ ''data_0x04: 0x%X\<newline>'', [Num32 (pi_data_0x04 p)]),
       (TAB @ TAB @ ''id: %s\<newline>'', [Text id]),
       (TAB @ TAB @ ''flags: 0x%X\<newline>'', [Num32 (pi_flags p)]),
       (TAB @ TAB @ ''unk_0x10: 0x%X\<newline>'', [Num32 (pi_unk_0x10 p)]),
       (TAB @ TAB @ ''start_lba: 0x%X\<newline>'', [Num32 (pi_start_lba p)]),
       (TAB @ TAB @ ''n_sectors: 0x%X (%lld)\<newline>'',
         [Num32 (pi_n_sectors p), Num64 (sector_bytes (pi_n_sectors p) (dc_unk_40 c))]),
       (''\<newline>'', [])]
   }"

definition context_lines :: "sdstor_view \<Rightarrow> nat \<Rightarrow> message list option" where
  "context_lines v i = do {
     let c = sv_contexts v ! i;
     ps \<leftarrow> collect (partition_lines c) [0 ..< 17];
     Some ([(''%d\<newline>'', [Num32 (of_nat i)]),
       (TAB @ ''unk_40: 0x%X\<newline>'', [Num32 (dc_unk_40 c)]),
       (TAB @ ''dev: 0x%X\<newline>'', [Num32 (dc_dev c)]),
       (TAB @ ''unk_48: 0x%X\<newline>'', [Num32 (dc_unk_48 c)]),
       (TAB @ ''device_sectors: 0x%X (%lld)\<newline>'',
         [Num32 (dc_device_sectors c), Num64 (sector_bytes (dc_device_sectors c) (dc_unk_40 c))]),
       (TAB @ ''unk_50: 0x%X\<newline>'', [Num32 (dc_unk_50 c)]),
       (TAB @ ''mbr_ptr: 0x%X\<newline>'', [Num32 (dc_mbr_ptr c)])] @ ps @
      [(TAB @ ''unk_234: 0x%X\<newline>'', [Num32 (ucast (dc_unk_234 c))]),
       (TAB @ ''unk_235: 0x%X\<newline>'', [Num32 (ucast (dc_unk_235 c))]),
       (TAB @ ''unk_236: 0x%X\<newline>'', [Num32 (ucast (dc_unk_236 c))]),
       (TAB @ ''unk_237: 0x%X\<newline>'', [Num32 (ucast (dc_unk_237 c))]),
       (''\<newline>'', [])])
   }"

definition sdstor_lines :: "(string \<Rightarrow> s32 \<times> u8 list) \<Rightarrow> sdstor_view \<Rightarrow> message list option" where
  "sdstor_lines decode v = do {
     cs \<leftarrow> collect (context_lines v) [0 ..< 5];
     Some ([(''text %p, 0x%X\<newline>'', [Pointer (sg_vaddr (sv_text v)), Num32 (sg_memsz (sv_text v))]),
       (''data %p, 0x%X\<newline>'', [Pointer (sg_vaddr (sv_data v)), Num32 (sg_memsz (sv_data v))]),
       (''\<newline>'', []),
       (''context size : 0x%X\<newline>'', [Num32 0x238]),
       (''\<newline>'', [])] @ name_lines decode @ cs)
   }"

definition sdstor_module_start ::
    "'k sce_io \<Rightarrow> ('k \<Rightarrow> string \<Rightarrow> 'k) \<Rightarrow> (addr \<Rightarrow> string) \<Rightarrow> (string \<Rightarrow> s32 \<times> u8 list) \<Rightarrow> sdstor_view \<Rightarrow>
     'k log_state \<Rightarrow> (start_result \<times> 'k log_state) option" where
  "sdstor_module_start IO io_remove pp decode v s = do {
     ms \<leftarrow> sdstor_lines decode v;
     s \<leftarrow> log_file IO pp ''host0:SceSdstor.txt'' ms
       (s\<lparr>log_kst := io_remove (log_kst s) ''host0:SceSdstor.txt''\<rparr>);
     Some (START_NO_RESIDENT, s)
   }"

section \<open>The names\<close>

text \<open>No name is cut, and two choices of the parts never give the same name.\<close>

lemma set_tables:
  "s0 < 7 \<Longrightarrow> sdstor_0 ! s0 \<in> set sdstor_0" "s1 < 2 \<Longrightarrow> sdstor_1 ! s1 \<in> set sdstor_1"
  "s2 < 3 \<Longrightarrow> sdstor_2 ! s2 \<in> set sdstor_2" "s3 < 0x10 \<Longrightarrow> sdstor_3 ! s3 \<in> set sdstor_3"
  by (rule nth_mem, simp add: sdstor_0_def sdstor_1_def sdstor_2_def sdstor_3_def)+

lemma table_words:
  "w \<in> set sdstor_0 \<Longrightarrow> CHR ''-'' \<notin> set w \<and> length w = 3"
  "w \<in> set sdstor_1 \<Longrightarrow> CHR ''-'' \<notin> set w \<and> length w = 2"
  "w \<in> set sdstor_2 \<Longrightarrow> CHR ''-'' \<notin> set w \<and> length w = 3"
  "w \<in> set sdstor_3 \<Longrightarrow> CHR ''-'' \<notin> set w \<and> length w \<le> 7"
  by (auto simp: sdstor_0_def sdstor_1_def sdstor_2_def sdstor_3_def)

lemma distinct_tables: "distinct sdstor_0" "distinct sdstor_1" "distinct sdstor_2" "distinct sdstor_3"
  by (simp_all add: sdstor_0_def sdstor_1_def sdstor_2_def sdstor_3_def)

lemma length_tables [simp]: "length sdstor_0 = 7" "length sdstor_1 = 2" "length sdstor_2 = 3" "length sdstor_3 = 0x10"
  by (simp_all add: sdstor_0_def sdstor_1_def sdstor_2_def sdstor_3_def)

lemma sdstor_str_whole:
  assumes "s0 < 7" "s1 < 2" "s2 < 3" "s3 < 0x10"
  shows "sdstor_str s0 s1 s2 s3 =
      sdstor_0 ! s0 @ ''-'' @ sdstor_1 ! s1 @ ''-'' @ sdstor_2 ! s2 @ ''-'' @ sdstor_3 ! s3"
    and "length (sdstor_str s0 s1 s2 s3) \<le> 18"
  using table_words(1) [OF set_tables(1) [OF assms(1)]] table_words(2) [OF set_tables(2) [OF assms(2)]]
    table_words(3) [OF set_tables(3) [OF assms(3)]] table_words(4) [OF set_tables(4) [OF assms(4)]]
  by (simp_all add: sdstor_str_def)

lemma sdstor_str_inj:
  assumes a: "s0 < 7" "s1 < 2" "s2 < 3" "s3 < 0x10" and b: "t0 < 7" "t1 < 2" "t2 < 3" "t3 < 0x10"
    and e: "sdstor_str s0 s1 s2 s3 = sdstor_str t0 t1 t2 t3"
  shows "s0 = t0 \<and> s1 = t1 \<and> s2 = t2 \<and> s3 = t3"
proof -
  have l: "length (sdstor_0 ! s0) = 3" "length (sdstor_0 ! t0) = 3" "length (sdstor_1 ! s1) = 2"
    "length (sdstor_1 ! t1) = 2" "length (sdstor_2 ! s2) = 3" "length (sdstor_2 ! t2) = 3"
    using table_words(1) [OF set_tables(1) [OF a(1)]] table_words(1) [OF set_tables(1) [OF b(1)]]
      table_words(2) [OF set_tables(2) [OF a(2)]] table_words(2) [OF set_tables(2) [OF b(2)]]
      table_words(3) [OF set_tables(3) [OF a(3)]] table_words(3) [OF set_tables(3) [OF b(3)]] by simp_all
  have "sdstor_0 ! s0 = sdstor_0 ! t0 \<and> sdstor_1 ! s1 = sdstor_1 ! t1 \<and> sdstor_2 ! s2 = sdstor_2 ! t2 \<and>
      sdstor_3 ! s3 = sdstor_3 ! t3"
    using e l by (simp add: sdstor_str_whole [OF a] sdstor_str_whole [OF b])
  then show ?thesis
    using a b distinct_tables by (simp add: nth_eq_iff_index_eq)
qed

section \<open>The log\<close>

definition sdstor_ok :: "sdstor_view \<Rightarrow> bool" where
  "sdstor_ok v \<longleftrightarrow> length (sv_contexts v) = 5 \<and>
     (\<forall>c \<in> set (sv_contexts v). length (dc_partitions c) = 17 \<and>
       (\<forall>p \<in> set (dc_partitions c). length (pi_id p) = 4 \<and> 0 \<in> set (pi_id p)))"

lemma array_string_exists:
  "0 \<in> set bs \<Longrightarrow> \<exists>t. array_string bs = Some t \<and> length t \<le> length bs"
  by (simp add: array_string_def) (rule length_takeWhile_le)

lemma name_line_ok:
  assumes "s0 < 7" "s1 < 2" "s2 < 3" "s3 < 0x10"
  shows "line_ok pp (name_line decode s0 s1 s2 s3)"
  using sdstor_str_whole(2) [OF assms]
  by (auto simp: name_line_def Let_def split_beta line_defs)

lemma partition_lines_ok:
  assumes "length (pi_id (dc_partitions c ! n)) = 4" "0 \<in> set (pi_id (dc_partitions c ! n))"
  shows "\<exists>ls. partition_lines c n = Some ls \<and> (\<forall>m \<in> set ls. line_ok pp m)"
proof -
  obtain t where "array_string (pi_id (dc_partitions c ! n)) = Some t" "length t \<le> 4"
    using array_string_exists [OF assms(2)] assms(1) by auto
  then show ?thesis by (simp add: partition_lines_def TAB_def Let_def line_defs)
qed

lemma context_lines_ok:
  assumes v: "sdstor_ok v" and i: "i < 5"
  shows "\<exists>ls. context_lines v i = Some ls \<and> (\<forall>m \<in> set ls. line_ok pp m)"
proof -
  let ?c = "sv_contexts v ! i"
  have "?c \<in> set (sv_contexts v)" using v i by (simp add: sdstor_ok_def)
  then have p: "length (dc_partitions ?c) = 17"
    "\<forall>p \<in> set (dc_partitions ?c). length (pi_id p) = 4 \<and> 0 \<in> set (pi_id p)"
    using v by (simp_all add: sdstor_ok_def)
  have "\<exists>ls. partition_lines ?c n = Some ls \<and> (\<forall>m \<in> set ls. line_ok pp m)" if "n < 17" for n
    using partition_lines_ok [of ?c n pp] p that by simp
  then obtain ps where "collect (partition_lines ?c) [0 ..< 17] = Some ps" "\<forall>m \<in> set ps. line_ok pp m"
    using collect_lines [of "17" "partition_lines ?c" "line_ok pp"] by blast
  then show ?thesis by (auto simp: context_lines_def TAB_def Let_def line_defs)
qed

lemma sdstor_lines_ok:
  assumes v: "sdstor_ok v" and pp: "\<And>p. length (pp p) \<le> 0x20"
  shows "\<exists>ms. sdstor_lines decode v = Some ms \<and> (\<forall>m \<in> set ms. line_ok pp m)"
proof -
  obtain cs where cs: "collect (context_lines v) [0 ..< 5] = Some cs" "\<forall>m \<in> set cs. line_ok pp m"
    using collect_lines [of "5" "context_lines v" "line_ok pp", OF context_lines_ok [OF v]] by blast
  have ns: "\<forall>m \<in> set (name_lines decode). line_ok pp m"
    using name_line_ok by (auto simp: name_lines_def)
  have h: "line_ok pp (''text %p, 0x%X\<newline>'', [Pointer a, Num32 w])"
    "line_ok pp (''data %p, 0x%X\<newline>'', [Pointer a, Num32 w])" for a w
    using pp [of a] by (simp_all add: line_defs)
  have "line_ok pp (''\<newline>'', [])" "line_ok pp (''context size : 0x%X\<newline>'', [Num32 w])" for w
    by (simp_all add: line_defs)
  then show ?thesis using cs ns h by (auto simp: sdstor_lines_def)
qed


end
