(* ===== verification/Activation_Reset.thy ===== *)
theory Activation_Reset
  imports Tool_Base
begin

text \<open>
  \<open>src/kernel/activate_reset/src/main.c\<close>: when the activation of a development kit has expired, or does
  so within ten days, the secure clock is set back to the start of the activation.

  The storage, the clock, the conversions of dates and the system controller are parameters.  The
  structure of the activation data is in \<open>Layout_Analysis\<close>.
\<close>

section \<open>Data and calls\<close>

record SceNVSKitActivationData =
  ac_issue_no :: u32
  ac_end_date :: u32
  ac_start_date :: u32

record SceDateTime =
  da_year :: u16
  da_month :: u16
  da_day :: u16
  da_hour :: u16
  da_minute :: u16
  da_second :: u16

text \<open>
  \<open>ar_export\<close> resolves \<open>sceRtcGetCurrentToolSecureTick\<close>, and \<open>ar_tick\<close> is that function.
  \<open>ar_syscon\<close> sends a command with its data.
\<close>

record 'k activation_env =
  ar_export :: "'k \<Rightarrow> s32 \<times> 'k"
  ar_nvs :: "'k \<Rightarrow> u32 \<Rightarrow> s32 \<times> SceNVSKitActivationData \<times> 'k"
  ar_tick :: "'k \<Rightarrow> s32 \<times> u64 \<times> 'k"
  ar_to_date :: "u64 \<Rightarrow> s32 \<times> SceDateTime"
  ar_to_unix :: "SceDateTime \<Rightarrow> s32 \<times> u32 \<times> u32"
  ar_syscon :: "'k \<Rightarrow> u32 \<Rightarrow> u8 list \<Rightarrow> s32 \<times> 'k"

text \<open>The system and what was printed.\<close>

record 'k activation_state =
  as_k :: 'k
  as_out :: "message list"

definition say :: "message \<Rightarrow> 'k activation_state \<Rightarrow> 'k activation_state" where
  "say m s = s\<lparr>as_out := as_out s @ [m]\<rparr>"

section \<open>Setting the clock\<close>

text \<open>The ticks are microseconds since the year 1, packed from bit 19 on into five bytes.\<close>

definition unix_to_tick :: "u64 \<Rightarrow> u64" where
  "unix_to_tick t = t * 1000 * 1000 + 0xDCBFFEFF2BC000"

definition tick_bytes :: "u64 \<Rightarrow> u8 list" where
  "tick_bytes startDate0 =
     (let tick_lo = ucast startDate0 :: u32; tick_hi = ucast (drop_bit 0x20 startDate0) :: u32 in
      [ucast ((drop_bit 0x13 tick_lo OR push_bit 0xD tick_hi) AND 0xFF),
       ucast ((drop_bit 0x1B tick_lo OR push_bit 0x5 tick_hi) AND 0xFF),
       ucast (drop_bit 3 tick_hi AND 0xFF),
       ucast (drop_bit 0xB tick_hi AND 0xFF),
       ucast (drop_bit 0x13 tick_hi AND 0xFF)])"

definition set_tool_secure_tick ::
    "'k activation_env \<Rightarrow> u64 \<Rightarrow> 'k activation_state \<Rightarrow> s32 \<times> 'k activation_state" where
  "set_tool_secure_tick E new_tick s =
     (let (res, k) = ar_syscon E (as_k s) 0x22 (tick_bytes (unix_to_tick new_tick)); s = s\<lparr>as_k := k\<rparr> in
      if failed res then (res, say (''sceSysconWriteScratchPadForDriver 0x%X'', [Num32 res]) s)
      else (0, s))"

section \<open>The program\<close>

definition print_activation ::
    "SceNVSKitActivationData \<Rightarrow> SceDateTime \<Rightarrow> u32 \<times> u32 \<Rightarrow> 'k activation_state \<Rightarrow> 'k activation_state" where
  "print_activation a d unixtime s =
     say (''%31s %04d/%02d/%02d %02d:%02d:%02d (%d %d)\<newline>'',
       [Text ''current ToolSecureTick'', Num32 (ucast (da_year d)), Num32 (ucast (da_month d)),
        Num32 (ucast (da_day d)), Num32 (ucast (da_hour d)), Num32 (ucast (da_minute d)),
        Num32 (ucast (da_second d)), Num32 (fst unixtime), Num32 (snd unixtime)])
      (say (''%31s %d %d\<newline>'',
        [Text ''Activation date'', Num32 (ac_start_date a), Num32 (ac_end_date a)]) s)"

definition reset_to_start ::
    "'k activation_env \<Rightarrow> SceNVSKitActivationData \<Rightarrow> 'k activation_state \<Rightarrow> 'k activation_state" where
  "reset_to_start E a s =
     say (''Doen setting activation start_date to ToolSecureTick\<newline>'', [])
       (snd (set_tool_secure_tick E (ucast (ac_start_date a)) s))"

text \<open>A call through the pointer when \<open>module_get_export_func\<close> did not fill it is a fault.\<close>

definition program_main ::
    "'k activation_env \<Rightarrow> 'k activation_state \<Rightarrow> (s32 \<times> 'k activation_state) option" where
  "program_main E s =
     (let (resolved, k) = ar_export E (as_k s);
          (res, a, k) = ar_nvs E k 0x520; s = s\<lparr>as_k := k\<rparr> in
      if failed res then Some (res, say (''sceSblNvsReadData failed 0x%X\<newline>'', [Num32 res]) s)
      else if failed resolved then None
      else
      let (res, tick, k) = ar_tick E (as_k s); s = s\<lparr>as_k := k\<rparr> in
      if failed res then Some (res, s)
      else let (res, d) = ar_to_date E tick in
      if failed res then Some (res, s)
      else let (res, unixtime) = ar_to_unix E d in
      if failed res then Some (res, s)
      else if ac_end_date a \<le> fst unixtime then
        Some (0, reset_to_start E a (print_activation a d unixtime
          (say (''Activation has already expired\<newline>'', []) s)))
      else if ac_end_date a - fst unixtime \<le> 864000 then
        (let s = print_activation a d unixtime s;
             (_, d) = ar_to_date E (ucast (ac_end_date a) * 1000000 + 0xDCBFFEFF2BC000 - tick);
             s = say (''Activation expires in %d-day +%02d:%02d:%02d\<newline>'',
               [Num32 (ucast (da_day d) - 1), Num32 (ucast (da_hour d)), Num32 (ucast (da_minute d)),
                Num32 (ucast (da_second d))]) s
         in Some (0, reset_to_start E a s))
      else Some (0, s))"

definition activation_module_start ::
    "'k activation_env \<Rightarrow> 'k activation_state \<Rightarrow> (start_result \<times> 'k activation_state) option" where
  "activation_module_start E s = map_option (\<lambda>(_, s). (START_NO_RESIDENT, s)) (program_main E s)"

section \<open>The five bytes\<close>

lemma tick_bytes_shifts:
  "tick_bytes w = map (\<lambda>j. ucast (drop_bit (19 + 8 * j) w)) [0 ..< 5]"
proof -
  have m: "(0xFF :: u32) = mask 8" by (simp add: mask_eq_exp_minus_1)
  have t: "x AND 0xFF = take_bit 8 x" for x :: u32 by (simp only: m take_bit_eq_mask)
  show ?thesis
    unfolding tick_bytes_def Let_def t
    by (simp add: upt_conv_Cons) (intro conjI bit_word_eqI; auto simp: bit_simps simp del: One_nat_def)
qed

lemma le_nat_shifts:
  "le_nat (map (\<lambda>j. ucast (drop_bit (n + 8 * j) (w :: u64)) :: u8) [0 ..< k]) =
   unat w div 2 ^ n mod 256 ^ k"
proof (induction k arbitrary: n)
  case (Suc k)
  have "map (\<lambda>j. ucast (drop_bit (n + 8 * j) w) :: u8) [0 ..< Suc k] =
      ucast (drop_bit n w) # map (\<lambda>j. ucast (drop_bit ((n + 8) + 8 * j) w)) [0 ..< k]"
    by (simp add: upt_conv_Cons map_Suc_upt [symmetric] comp_def add.assoc del: upt_Suc)
  moreover have "unat (ucast (drop_bit n w) :: u8) = unat w div 2 ^ n mod 256"
    by (simp add: unsigned_ucast_eq take_bit_eq_mod unat_drop)
  moreover have "unat w div 2 ^ (n + 8) = unat w div 2 ^ n div 256"
    by (simp add: power_add div_mult2_eq)
  moreover have "(x :: nat) mod 256 + 256 * (x div 256 mod 256 ^ k) = x mod 256 ^ Suc k" for x
    by (simp add: mod_mult2_eq)
  ultimately show ?case using Suc [of "n + 8"] by simp
qed simp

text \<open>For every start date the five bytes hold the whole tick but for its last 19 bits.\<close>

lemma unix_to_tick_value:
  "unat (unix_to_tick (ucast (t :: u32))) = unat t * 1000000 + 62135596800000000"
proof -
  have l: "unat t < 4294967296" by (rule unat_lt_32)
  have "unix_to_tick (ucast t) = word_of_nat (unat t * 1000000 + 62135596800000000)"
    by (simp add: unix_to_tick_def word_unat_eq_iff unat_word_ariths unsigned_of_nat take_bit_eq_mod mod_simps mult.commute)
  moreover have "unat t * 1000000 + 62135596800000000 < 2 ^ 64" using l by simp
  then have "unat (word_of_nat (unat t * 1000000 + 62135596800000000) :: u64) = unat t * 1000000 + 62135596800000000"
    by (intro unat_word_of_nat) simp
  ultimately show ?thesis by (simp only:)
qed

lemma tick_bytes_value:
  "le_nat (tick_bytes (unix_to_tick (ucast (t :: u32)))) =
   (unat t * 1000000 + 62135596800000000) div 2 ^ 19"
proof -
  have "(unat t * 1000000 + 62135596800000000) div 2 ^ 19 < 256 ^ 5"
    using unat_lt_32 [of t] by simp
  then show ?thesis
    by (simp only: tick_bytes_shifts le_nat_shifts [of 19, simplified] unix_to_tick_value) simp
qed

text \<open>
  C37: what the tool does to the clock.  The five bytes are sent exactly when the activation is over or
  ends within ten days, once and after everything was read; they are the start of the activation in
  ticks, rounded down to a multiple of 2^19 microseconds, for every 32-bit date.  On any error before
  that nothing is sent.
\<close>

theorem activation_reset_spec:
  assumes e: "ar_export E (as_k s) = (f, k1)" "\<not> failed f" "ar_nvs E k1 0x520 = (r1, a, k2)"
    and t: "ar_tick E k2 = (r2, tick, k3)" "ar_to_date E tick = (r3, d)" "ar_to_unix E d = (r4, u)"
  defines "bs \<equiv> tick_bytes (unix_to_tick (ucast (ac_start_date a)))"
  shows "le_nat bs * 2 ^ 19 \<le> unat (ac_start_date a) * 1000000 + 62135596800000000 \<and>
    unat (ac_start_date a) * 1000000 + 62135596800000000 < (le_nat bs + 1) * 2 ^ 19 \<and> length bs = 5 \<and>
    (\<exists>r s'. program_main E s = Some (r, s') \<and>
      (if failed r1 then r = r1 \<and> as_k s' = k2
       else if failed r2 then r = r2 \<and> as_k s' = k3
       else if failed r3 then r = r3 \<and> as_k s' = k3
       else if failed r4 then r = r4 \<and> as_k s' = k3
       else r = 0 \<and> as_k s' =
         (if unat (ac_end_date a) \<le> unat (fst u) + 10 * 24 * 60 * 60 then snd (ar_syscon E k3 0x22 bs) else k3)))"
proof (intro conjI)
  let ?T = "unat (ac_start_date a) * 1000000 + 62135596800000000"
  have v: "le_nat bs = ?T div 2 ^ 19" unfolding bs_def by (rule tick_bytes_value)
  show "le_nat bs * 2 ^ 19 \<le> ?T" unfolding v by (rule div_times_less_eq_dividend)
  show "?T < (le_nat bs + 1) * 2 ^ 19" unfolding v using dividend_less_div_times [of "2 ^ 19" ?T] by simp
  show "length bs = 5" by (simp add: bs_def tick_bytes_def Let_def)
  have k [simp]: "as_k (say m x) = as_k x" "as_k (print_activation a d u x) = as_k x" for m x
    by (simp_all add: say_def print_activation_def)
  have rs [simp]: "as_k (reset_to_start E a x) = snd (ar_syscon E (as_k x) 0x22 bs)" for x
    by (simp add: reset_to_start_def set_tool_secure_tick_def split_beta Let_def bs_def)
  have c: "ac_end_date a \<le> fst u \<or> ac_end_date a - fst u \<le> 864000 \<longleftrightarrow>
      unat (ac_end_date a) \<le> unat (fst u) + 10 * 24 * 60 * 60"
  proof (cases "ac_end_date a \<le> fst u")
    case True
    then show ?thesis by (simp add: word_le_nat_alt)
  next
    case False
    then have "unat (ac_end_date a - fst u) = unat (ac_end_date a) - unat (fst u)"
      by (intro unat_sub) simp
    then show ?thesis using False by (simp add: word_le_nat_alt) linarith
  qed
  show "\<exists>r s'. program_main E s = Some (r, s') \<and>
      (if failed r1 then r = r1 \<and> as_k s' = k2
       else if failed r2 then r = r2 \<and> as_k s' = k3
       else if failed r3 then r = r3 \<and> as_k s' = k3
       else if failed r4 then r = r4 \<and> as_k s' = k3
       else r = 0 \<and> as_k s' =
         (if unat (ac_end_date a) \<le> unat (fst u) + 10 * 24 * 60 * 60 then snd (ar_syscon E k3 0x22 bs) else k3))"
    unfolding c [symmetric] using e t by (simp add: program_main_def Let_def split_beta)
qed

end
