(* ===== verification/Network_Patches.thy ===== *)
theory Network_Patches
  imports Tool_Base
begin

text \<open>
  Two tools that change SceNetPs: the fix of its receive function
  (\<open>src/kernel/netps_kernel_recv_fix/src/main.c\<close>), which patches one stretch of code when its digest is the
  known one, and the spoofer of the address of the network device
  (\<open>src/kernel/mac_address_spoofer/src/main.c\<close>).

  The calls of the system are parameters.  The memory of SceNetPs is the part of the state that the
  tools read or write: the list of devices, the words that hold pointers, and bytes.
\<close>

section \<open>The fix of the receive function\<close>

definition point_sha256 :: "u8 list" where
  "point_sha256 =
    [0x3C, 0x48, 0x10, 0x8F, 0x3B, 0x53, 0x15, 0x94, 0x3B, 0x4A, 0xDB, 0x97, 0xD6, 0x9F, 0x2A, 0xCC,
     0x55, 0x9D, 0x21, 0x4B, 0x80, 0xC8, 0x95, 0xA0, 0x0D, 0xFD, 0x43, 0xB2, 0x3A, 0x11, 0x8B, 0x63]"

definition point_sha256_patched :: "u8 list" where
  "point_sha256_patched =
    [0x63, 0x35, 0xA6, 0xB2, 0x6E, 0x41, 0x7D, 0xF5, 0x9B, 0xB2, 0x56, 0xCD, 0xD1, 0x2E, 0x2F, 0x65,
     0xFE, 0xEF, 0xA9, 0x73, 0xD7, 0x53, 0x44, 0x17, 0xEE, 0x39, 0xBB, 0x17, 0xE5, 0x72, 0x0C, 0xC5]"

text \<open>\<open>nf_code\<close> is the code at an address, \<open>nf_sha256\<close> the digest of \<open>ksceSha256Digest\<close>.\<close>

record 'k netps_env =
  nf_search :: "'k \<Rightarrow> string \<Rightarrow> s32"
  nf_offset :: "'k \<Rightarrow> s32 \<Rightarrow> nat \<Rightarrow> u32 \<Rightarrow> addr"
  nf_code :: "'k \<Rightarrow> addr \<Rightarrow> nat \<Rightarrow> u8 list"
  nf_sha256 :: "u8 list \<Rightarrow> s32 \<times> u8 list"
  nf_inject :: "'k \<Rightarrow> s32 \<Rightarrow> u32 \<Rightarrow> u8 list \<Rightarrow> s32 \<times> 'k"

text \<open>The three instructions that are replaced.\<close>

definition patch_inst :: "u8 list \<Rightarrow> u8 list" where
  "patch_inst inst =
     overwrite 0x16 [0xC4, 0xE9, 0x04, 0x55] (overwrite 0xC [0xC4, 0xE9, 0x07, 0xC5]
       (overwrite 0 [0xDD, 0xF8, 0x30, 0xC0] inst))"

definition do_patch :: "'k netps_env \<Rightarrow> 'k \<Rightarrow> s32 \<times> 'k" where
  "do_patch E k =
     (let module_id = nf_search E k ''SceNetPs'' in
      if failed module_id then (module_id, k)
      else
      let patch_point = nf_offset E k module_id 0 0x67b2;
          inst = nf_code E k patch_point 0x1A;
          (res, hash) = nf_sha256 E inst in
      if failed res then (res, k)
      else if hash \<noteq> point_sha256 then (-1, k)
      else
      let inst = patch_inst inst; (res, hash) = nf_sha256 E inst in
      if failed res then (res, k)
      else if hash \<noteq> point_sha256_patched then (-2, k)
      else
      let (res, k) = nf_inject E k module_id 0x67b2 inst in
      if failed res then (res, k) else (0, k))"

definition recv_fix_module_start :: "'k netps_env \<Rightarrow> 'k \<Rightarrow> start_result \<times> 'k" where
  "recv_fix_module_start E k = (START_NO_RESIDENT, snd (do_patch E k))"

text \<open>The patch keeps the length and the fourteen bytes between the three instructions.\<close>

lemma patch_inst_bytes:
  assumes "length inst = 0x1A"
  shows "length (patch_inst inst) = 0x1A"
    and "patch_inst inst = [0xDD, 0xF8, 0x30, 0xC0] @ take 8 (drop 4 inst) @ [0xC4, 0xE9, 0x07, 0xC5] @
      take 6 (drop 0x10 inst) @ [0xC4, 0xE9, 0x04, 0x55]"
  using assms by (simp_all add: patch_inst_def overwrite_def drop_take) (simp add: eval_nat_numeral)

text \<open>
  Code is injected only when the digest of what is there is the known one and the digest of what is
  to be injected is the expected one; what is injected is then the same 26 bytes but for the three
  instructions.  In every other case the system is as before and the result is negative.
\<close>

theorem do_patch_spec:
  assumes "nf_search E k ''SceNetPs'' = m" "nf_code E k (nf_offset E k m 0 0x67b2) 0x1A = inst" "length inst = 0x1A"
    and "nf_sha256 E inst = (r1, h1)" "nf_sha256 E new = (r2, h2)"
    and "new = [0xDD, 0xF8, 0x30, 0xC0] @ take 8 (drop 4 inst) @ [0xC4, 0xE9, 0x07, 0xC5] @
      take 6 (drop 0x10 inst) @ [0xC4, 0xE9, 0x04, 0x55]"
  shows "if \<not> failed m \<and> \<not> failed r1 \<and> h1 = point_sha256 \<and> \<not> failed r2 \<and> h2 = point_sha256_patched
    then snd (do_patch E k) = snd (nf_inject E k m 0x67b2 new) \<and> length new = 0x1A \<and>
      (fst (do_patch E k) = 0 \<longleftrightarrow> \<not> failed (fst (nf_inject E k m 0x67b2 new)))
    else snd (do_patch E k) = k \<and> failed (fst (do_patch E k))"
proof -
  note p = patch_inst_bytes [OF assms(3)]
  have n: "patch_inst inst = new" using p(2) assms(6) by simp
  have f: "x \<noteq> 0" if "failed x" for x :: s32 using that by (auto simp: failed_def)
  show ?thesis
    using assms(1,2,4,5) p(1) f by (auto simp: do_patch_def Let_def split_beta n)
qed

section \<open>The address of the network device\<close>

record SceNetPsDeviceConfig =
  nc_data_0x00 :: addr
  nc_next :: addr
  nc_device :: "u8 list"
  nc_data_0x38 :: u16

record 'k netps_state =
  ns_configs :: "addr \<Rightarrow> SceNetPsDeviceConfig option"
  ns_words :: "addr \<Rightarrow> addr option"
  ns_bytes :: "addr \<Rightarrow> u8 option"
  ns_mac :: "u8 list"
  ns_k :: 'k

text \<open>\<open>memcpy(p + 0x5C, mac_address, 6)\<close>: each of the bytes has to be there.\<close>

fun store_bytes :: "addr \<Rightarrow> u8 list \<Rightarrow> (addr \<Rightarrow> u8 option) \<Rightarrow> (addr \<Rightarrow> u8 option) option" where
  "store_bytes p [] m = Some m"
| "store_bytes p (b # bs) m =
     (case m p of None \<Rightarrow> None | Some _ \<Rightarrow> store_bytes (p + 1) bs (m(p \<mapsto> b)))"

definition store_mac :: "addr \<Rightarrow> 'k netps_state \<Rightarrow> 'k netps_state option" where
  "store_mac p s = do { m \<leftarrow> store_bytes (p + 0x5C) (take 6 (ns_mac s)) (ns_bytes s); Some (s\<lparr>ns_bytes := m\<rparr>) }"

definition config_next :: "'k netps_state \<Rightarrow> addr \<Rightarrow> addr option" where
  "config_next s p = map_option nc_next (ns_configs s p)"

text \<open>\<open>strncmp(device, "wlan", 4) == 0\<close> on an array of 0x10 characters.\<close>

definition wlan_config :: "SceNetPsDeviceConfig \<Rightarrow> bool" where
  "wlan_config c \<longleftrightarrow> nc_data_0x38 c \<noteq> 0x17 \<and> nc_data_0x38 c \<noteq> 0x18 \<and> take 4 (nc_device c) = bytes_of ''wlan''"

definition is_wlan :: "'k netps_state \<Rightarrow> unit \<Rightarrow> addr \<Rightarrow> bool option" where
  "is_wlan s u p = map_option wlan_config (ns_configs s p)"

text \<open>The loop: it stops at the end of the list or at the first device that fits.\<close>

partial_function (option) config_search :: "'k netps_state \<Rightarrow> unit \<Rightarrow> addr \<Rightarrow> addr option" where
  "config_search s u p =
     (if p = NULL then Some NULL
      else case is_wlan s u p of None \<Rightarrow> None
        | Some b \<Rightarrow> if b then Some p
          else case config_next s p of None \<Rightarrow> None | Some q \<Rightarrow> config_search s u q)"

interpretation configs: chain_search config_next is_wlan config_search
  by unfold_locales (rule config_search.simps)

text \<open>\<open>list\<close> is the address of the pointer to the first device, as \<open>module_get_offset\<close> finds it.\<close>

definition clear_netps_mac_address :: "addr \<Rightarrow> 'k netps_state \<Rightarrow> (s32 \<times> 'k netps_state) option" where
  "clear_netps_mac_address list s = do {
     pDeviceConfig \<leftarrow> ns_words s list;
     p \<leftarrow> config_search s () pDeviceConfig;
     if p = NULL then Some (0, s)
     else do {
       c \<leftarrow> ns_configs s p;
       d \<leftarrow> ns_words s (nc_data_0x00 c);
       s \<leftarrow> store_mac d s;
       Some (0, s)
     }
   }"

text \<open>The hook; \<open>continue_to\<close> is the hooked function.\<close>

definition SceNetPsForDriver_1ABF937D_patch ::
    "(addr \<Rightarrow> 'k netps_state \<Rightarrow> (s32 \<times> 'k netps_state) option) \<Rightarrow> addr \<Rightarrow> 'k netps_state \<Rightarrow>
     (s32 \<times> 'k netps_state) option" where
  "SceNetPsForDriver_1ABF937D_patch continue_to pConfig s = do {
     s \<leftarrow> (if pConfig \<noteq> NULL then store_mac pConfig s else Some s);
     continue_to pConfig s
   }"

text \<open>The first of three files that can be opened is read over the start of \<open>dst\<close>.\<close>

definition load_mac_address ::
    "'k sce_io \<Rightarrow> u8 list \<Rightarrow> SceSize \<Rightarrow> 'k \<Rightarrow> s32 \<times> u8 list \<times> 'k" where
  "load_mac_address IO dst sz k =
     (let (fd, k) = io_open IO k ''host0:data/spoof/mac_address.bin'' (SCE_O_RDONLY IO) 0;
          (fd, k) = (if failed fd then io_open IO k ''sd0:data/spoof/mac_address.bin'' (SCE_O_RDONLY IO) 0 else (fd, k));
          (fd, k) = (if failed fd then io_open IO k ''ux0:data/spoof/mac_address.bin'' (SCE_O_RDONLY IO) 0 else (fd, k))
      in if failed fd then (fd, dst, k)
      else let (_, bs, k) = io_read IO k fd sz; (_, k) = io_close IO k fd in (0, overwrite 0 bs dst, k))"

text \<open>\<open>search\<close> finds a module by name, \<open>delay\<close> waits, \<open>hook\<close> installs the hook.\<close>

definition spoofer_module_start ::
    "'k sce_io \<Rightarrow> ('k \<Rightarrow> string \<Rightarrow> s32) \<Rightarrow> ('k \<Rightarrow> u32 \<Rightarrow> 'k) \<Rightarrow> ('k \<Rightarrow> 'k) \<Rightarrow> addr \<Rightarrow>
     'k netps_state \<Rightarrow> (start_result \<times> 'k netps_state) option" where
  "spoofer_module_start IO search delay hook list s =
     (let (res, mac, k) = load_mac_address IO (ns_mac s) 6 (ns_k s);
          mac = (if failed res then replicate 6 0xA5 else mac);
          s = s\<lparr>ns_mac := mac, ns_k := k\<rparr>
      in if \<not> failed (search (ns_k s) ''SceWlanBt'') then do {
        let k = (if \<not> failed (search (ns_k s) ''SceSysStateMgr'') then delay (ns_k s) 2000000 else ns_k s);
        (_, s) \<leftarrow> clear_netps_mac_address list (s\<lparr>ns_k := k\<rparr>);
        Some (START_NO_RESIDENT, s)
      }
      else Some (START_SUCCESS, s\<lparr>ns_k := hook (ns_k s)\<rparr>))"

section \<open>Which device is changed\<close>

definition shift_map :: "addr \<Rightarrow> u8 list \<Rightarrow> (addr \<Rightarrow> u8 option) \<Rightarrow> addr \<Rightarrow> u8 option" where
  "shift_map p bs m = (\<lambda>a. if unat (a - p) < length bs then Some (bs ! unat (a - p)) else m a)"

lemma store_bytes_map:
  "length bs \<le> 2 ^ 31 \<Longrightarrow> (\<And>i. i < length bs \<Longrightarrow> m (p + of_nat i) \<noteq> None) \<Longrightarrow>
   store_bytes p bs m = Some (shift_map p bs m)"
proof (induction bs arbitrary: p m)
  case Nil
  then show ?case by (simp add: shift_map_def)
next
  case (Cons b bs)
  have 0: "m p \<noteq> None" using Cons.prems(2) [of 0] by simp
  have r: "(m(p \<mapsto> b)) (p + 1 + of_nat i) \<noteq> None" if "i < length bs" for i
    using Cons.prems(2) [of "Suc i"] that by (simp add: add.commute add.left_commute)
  have "store_bytes (p + 1) bs (m(p \<mapsto> b)) = Some (shift_map (p + 1) bs (m(p \<mapsto> b)))"
    by (rule Cons.IH) (use r Cons.prems(1) in simp_all)
  moreover have "shift_map (p + 1) bs (m(p \<mapsto> b)) = shift_map p (b # bs) m"
  proof (rule ext)
    fix a
    show "shift_map (p + 1) bs (m(p \<mapsto> b)) a = shift_map p (b # bs) m a"
    proof (cases "a = p")
      case True
      have "p - (p + 1) = word_of_nat 4294967295" by simp
      then have "unat (p - (p + 1)) = 4294967295" by (simp only: unat_word_of_nat) simp
      then show ?thesis using True Cons.prems(1) by (simp add: shift_map_def)
    next
      case False
      then have "a - p \<noteq> 0" by simp
      then have "unat (a - (p + 1)) = unat (a - p) - 1"
        using unat_sub [of 1 "a - p"] by (simp add: diff_diff_eq word_le_nat_alt unat_gt_0 Suc_le_eq)
      moreover have "0 < unat (a - p)" using \<open>a - p \<noteq> 0\<close> by (simp add: unat_gt_0)
      ultimately show ?thesis using False by (cases "unat (a - p)") (auto simp: shift_map_def)
    qed
  qed
  ultimately show ?case using 0 by auto
qed

text \<open>
  C38: on a list of devices that ends, only the first one that is not of the kinds 0x17 and 0x18 and whose
  name starts with \<open>wlan\<close> is changed: the six bytes at offset 0x5C of its data become the new address, and
  every other byte stays.  Without such a device nothing changes.  The walk ends in both cases.
\<close>

theorem clear_netps_mac_address_spec:
  assumes l: "ns_words s list = Some q" "chain (config_next s) q ps"
    and c: "\<And>p c. p \<in> set ps \<Longrightarrow> ns_configs s p = Some c \<Longrightarrow>
      \<exists>d. ns_words s (nc_data_0x00 c) = Some d \<and> (\<forall>i < 6. ns_bytes s (d + 0x5C + of_nat i) \<noteq> None)"
    and m: "length (ns_mac s) = 6"
  shows "case List.find (\<lambda>p. \<exists>c. ns_configs s p = Some c \<and> wlan_config c) ps of
      None \<Rightarrow> clear_netps_mac_address list s = Some (0, s)
    | Some p \<Rightarrow> \<exists>c d. ns_configs s p = Some c \<and> ns_words s (nc_data_0x00 c) = Some d \<and>
        clear_netps_mac_address list s =
          Some (0, s\<lparr>ns_bytes := \<lambda>a. if unat (a - (d + 0x5C)) < 6 then Some (ns_mac s ! unat (a - (d + 0x5C)))
            else ns_bytes s a\<rparr>)"
proof -
  let ?P = "\<lambda>p. \<exists>c. ns_configs s p = Some c \<and> wlan_config c"
  have ex: "ns_configs s x \<noteq> None" if x: "x \<in> set ps" for x
  proof -
    from x obtain us vs where "ps = us @ x # vs" by (meson split_list)
    then show ?thesis using chain_suffix [of "config_next s" q us x vs] l(2) by (auto simp: config_next_def)
  qed
  have hit: "is_wlan s () x = Some (?P x)" if "x \<in> set ps" for x
    using ex [OF that] by (auto simp: is_wlan_def)
  show ?thesis
  proof (cases "List.find ?P ps")
    case None
    then have "is_wlan s () x = Some False" if "x \<in> set ps" for x
      using hit [OF that] that by (auto simp: find_None_iff)
    then have "config_search s () q = Some NULL" using configs.not_found [OF l(2)] by blast
    then show ?thesis using None l(1) by (simp add: clear_netps_mac_address_def)
  next
    case (Some p)
    then obtain i where i: "i < length ps" "?P (ps ! i)" "p = ps ! i" "\<forall>j < i. \<not> ?P (ps ! j)"
      by (auto simp: find_Some_iff)
    have ps: "ps = take i ps @ p # drop (Suc i) ps" using i(1,3) by (simp add: id_take_nth_drop)
    have p: "p \<in> set ps" using i(1,3) by simp
    have "is_wlan s () x = Some False" if x: "x \<in> set (take i ps)" for x
    proof -
      from x obtain j where "j < i" "x = ps ! j" "j < length ps" by (auto simp: in_set_conv_nth)
      then show ?thesis using hit [of x] i(4) by auto
    qed
    moreover have "is_wlan s () p = Some True" using hit [OF p] i(2,3) by simp
    ultimately have f: "config_search s () q = Some p"
      using configs.found [of s q "take i ps" p "drop (Suc i) ps" "()"] l(2) ps by simp
    obtain cc where cc: "ns_configs s p = Some cc" using ex [OF p] by auto
    obtain d where d: "ns_words s (nc_data_0x00 cc) = Some d" "\<forall>i < 6. ns_bytes s (d + 0x5C + of_nat i) \<noteq> None"
      using c [OF p cc] by auto
    have "store_bytes (d + 0x5C) (ns_mac s) (ns_bytes s) = Some (shift_map (d + 0x5C) (ns_mac s) (ns_bytes s))"
      by (rule store_bytes_map) (use d(2) m in auto)
    moreover have "p \<noteq> NULL" using chain_NULL_notin [OF l(2)] p by auto
    ultimately show ?thesis
      using f cc d(1) l(1) m Some
      by (simp add: clear_netps_mac_address_def store_mac_def shift_map_def)
  qed
qed

end
