(* ===== verification/Guid_Tester.thy ===== *)
theory Guid_Tester
  imports Tool_Base
begin

text \<open>
  \<open>src/kernel/sysmem_guid_tester/src/main.c\<close>, which prints the objects in the table of the system memory
  manager, with its dump of bytes, and \<open>src/kernel/sysmem_print_guid_info/src/main.c\<close>, which prints the
  names of a range of objects.

  What is printed is the list of messages; the memory of the kernel is a parameter.  The structures
  with all their members are in \<open>Layout_Analysis\<close>.  \<open>module_start\<close> of the first returns under
  \<open>if(1)\<close>; what follows there is not modelled.
\<close>

section \<open>Bytes as text\<close>

definition row_format :: string where
  "row_format =
     ''%02X %02X %02X %02X %02X %02X %02X %02X %02X %02X %02X %02X %02X %02X %02X %02X\<newline>''"

definition byte_args :: "u8 list \<Rightarrow> farg list" where
  "byte_args bs = map (\<lambda>b. Num32 (ucast b)) bs"

text \<open>The loop over what is left of the last row.\<close>

fun hex_tail :: "u8 list \<Rightarrow> nat \<Rightarrow> message list option" where
  "hex_tail bs 0 = Some []"
| "hex_tail [] (Suc n) = None"
| "hex_tail (b # bs) (Suc n) = map_option (Cons (''%02X '', byte_args [b])) (hex_tail bs n)"

text \<open>The loops from an address with the bytes \<open>bs\<close> behind it; reading past them is a fault.\<close>

function hex_rows :: "u8 list \<Rightarrow> int \<Rightarrow> message list option" where
  "hex_rows bs len =
     (if 0x10 \<le> len
      then if length bs < 0x10 then None
        else map_option (Cons (row_format, byte_args (take 0x10 bs))) (hex_rows (drop 0x10 bs) (len - 0x10))
      else if len \<noteq> 0
      then map_option (\<lambda>ms. ms @ [(''\<newline>'', [])]) (hex_tail bs (nat len))
      else Some [])"
  by pat_completeness auto

termination
  by (relation "measure (\<lambda>(bs, len). nat len)") auto

declare hex_rows.simps [simp del]

definition hex_dump :: "u8 list option \<Rightarrow> s32 \<Rightarrow> message list option" where
  "hex_dump addr len =
     (case addr of None \<Rightarrow> Some []
      | Some bs \<Rightarrow> if len = 0 then Some [] else hex_rows bs (sint len))"

section \<open>The table of objects\<close>

record SceGUIDEntry =
  ge_pObject :: addr
  ge_attr :: u32
  ge_guid :: u32
  ge_name :: addr

text \<open>The pages of entries by their addresses, and the strings.\<close>

record guid_memory =
  gm_data_0x34 :: s32
  gm_data_0x38 :: "addr list"
  gm_data_0x3C :: addr
  gm_data_0x44 :: u16
  gm_data_0x46 :: u16
  gm_page :: "addr \<Rightarrow> SceGUIDEntry list"
  gm_str :: "addr \<Rightarrow> string option"

definition entry_line :: "guid_memory \<Rightarrow> addr \<Rightarrow> nat \<Rightarrow> message list option" where
  "entry_line m pSVar5 n =
     (if length (gm_page m pSVar5) \<le> n then None
      else let e = gm_page m pSVar5 ! n in
        if 0x300000 AND ge_attr e \<noteq> 0 \<and> ge_pObject e \<noteq> NULL
        then do {
          nm \<leftarrow> gm_str m (ge_name e);
          Some [(''UID: 0x%08X, attr: 0x%08X, name: %s\<newline>'', [Num32 (ge_guid e), Num32 (ge_attr e), Text nm])]
        }
        else Some [])"

text \<open>The numbers of entries are signed 16-bit integers.\<close>

definition page_lines :: "guid_memory \<Rightarrow> nat \<Rightarrow> message list option" where
  "page_lines m i =
     (if length (gm_data_0x38 m) \<le> i then None
      else let pSVar5 = gm_data_0x38 m ! i;
               uVar1 = (if gm_data_0x3C m = pSVar5 then gm_data_0x44 m else gm_data_0x46 m)
        in collect (entry_line m pSVar5) [0 ..< nat (sint uVar1)])"

definition uid_entry_test :: "guid_memory \<Rightarrow> message list option" where
  "uid_entry_test m = collect (page_lines m) [0 ..< nat (sint (gm_data_0x34 m))]"

text \<open>\<open>pp\<close> is the address found for \<open>ppModulePrivate3\<close> and \<open>private3\<close> the pointer there.\<close>

definition guid_tester_module_start :: "addr \<Rightarrow> addr \<Rightarrow> guid_memory \<Rightarrow> (start_result \<times> message list) option" where
  "guid_tester_module_start pp private3 m = do {
     ms \<leftarrow> uid_entry_test m;
     Some (START_NO_RESIDENT, [(''%p\<newline>'', [Pointer pp]), (''%p\<newline>'', [Pointer private3])] @ ms)
   }"

section \<open>sysmem_print_guid_info\<close>

text \<open>\<open>cls\<close> gives the name of the class of an object, \<open>None\<close> when there is none; \<open>nm\<close> its own name.\<close>

definition print_guid_info :: "(u32 \<Rightarrow> string option) \<Rightarrow> (u32 \<Rightarrow> string) \<Rightarrow> u32 \<Rightarrow> message" where
  "print_guid_info cls nm uid =
     (case cls uid of
        None \<Rightarrow> (''0x%X : %s\<newline>'', [Num32 uid, Text ''failed''])
      | Some c \<Rightarrow> (''0x%X : %-31s %-31s\<newline>'', [Num32 uid, Text c, Text (nm uid)]))"

definition guid_info_module_start :: "(u32 \<Rightarrow> string option) \<Rightarrow> (u32 \<Rightarrow> string) \<Rightarrow> start_result \<times> message list" where
  "guid_info_module_start cls nm =
     (START_SUCCESS, map (\<lambda>i. print_guid_info cls nm (0x10005 + push_bit 1 (of_nat i))) [0 ..< 0x400])"

section \<open>The dump\<close>

text \<open>The two digits of a byte.\<close>

definition hex2 :: "u8 \<Rightarrow> string" where
  "hex2 b = [digit_char (unat b div 16), digit_char (unat b mod 16)]"

lemma pad_hex2:
  "pad \<lparr>fs_left = False, fs_zero = True, fs_width = 2, fs_wide = False\<rparr> True (digits 16 (unat b)) = hex2 b"
proof -
  have l: "unat b < 256" by (rule unat_lt_256)
  note m = digit_char_neq(1)
  have "of_char CHR ''0'' = (48 :: nat)" by simp
  then have z: "char_of (48 :: nat) = CHR ''0''" by (metis char_of_char)
  show ?thesis
  proof (cases "unat b < 16")
    case True
    then show ?thesis using m [OF True] by (simp add: digits.simps [of 16] pad_def hex2_def digit_char_def z)
  next
    case False
    then have "unat b div 16 < 16" using l by simp
    then show ?thesis using False m [of "unat b div 16"]
      by (simp add: digits.simps [of 16] pad_def hex2_def)
  qed
qed

lemma render_hex2:
  "render_dir pp \<lparr>fs_left = False, fs_zero = True, fs_width = 2, fs_wide = False\<rparr> CHR ''X'' (Num32 (ucast (b :: u8))) =
   Some (hex2 b)"
proof -
  have "unat (ucast b :: u32) = unat b"
    using unat_lt_256 [of b] by (simp add: unsigned_ucast_eq take_bit_nat_eq_self)
  then show ?thesis by (simp add: render_dir_def pad_hex2)
qed

text \<open>The dump of bytes without spaces and line ends.\<close>

definition compact :: "string \<Rightarrow> string" where
  "compact t = filter (\<lambda>c. c \<noteq> CHR '' '' \<and> c \<noteq> CHR ''\<newline>'') t"

lemma compact_sep [simp]:
  "compact [] = []" "compact (CHR '' '' # t) = compact t" "compact (CHR ''\<newline>'' # t) = compact t"
  by (simp_all add: compact_def)

definition line_ends :: "string \<Rightarrow> nat" where
  "line_ends t = length (filter (\<lambda>c. c = CHR ''\<newline>'') t)"

lemma line_ends_simps [simp]:
  "line_ends [] = 0" "line_ends (s @ t) = line_ends s + line_ends t"
  "line_ends (CHR '' '' # t) = line_ends t" "line_ends (CHR ''\<newline>'' # t) = Suc (line_ends t)"
  by (simp_all add: line_ends_def)

lemma line_ends_hex2 [simp]: "line_ends (hex2 b) = 0"
proof -
  have "unat b div 16 < 16" using unat_lt_256 [of b] by simp
  then show ?thesis using digit_char_neq(3) by (simp add: line_ends_def hex2_def)
qed

lemma compact_append [simp]: "compact (s @ t) = compact s @ compact t"
  by (simp add: compact_def)

lemma compact_hex2 [simp]: "compact (hex2 b) = hex2 b"
proof -
  have "unat b div 16 < 16" using unat_lt_256 [of b] by simp
  then show ?thesis using digit_char_neq by (simp add: compact_def hex2_def)
qed

lemma tail_text: "line_text pp (''%02X '', byte_args [b]) = hex2 b @ '' ''"
  by (simp add: line_text_def format_def spec0_def digit_of_def byte_args_def render_hex2 render_hex2 [unfolded numeral_2_eq_2])

lemma row_text:
  assumes "length bs = 0x10"
  shows "compact (line_text pp (row_format, byte_args bs)) = concat (map hex2 bs)"
    and "line_ends (line_text pp (row_format, byte_args bs)) = 1"
proof -
  from assms obtain b0 b1 b2 b3 b4 b5 b6 b7 b8 b9 b10 b11 b12 b13 b14 b15
    where bs: "bs = [b0, b1, b2, b3, b4, b5, b6, b7, b8, b9, b10, b11, b12, b13, b14, b15]"
    by (auto simp: length_Suc_conv eval_nat_numeral)
  show "compact (line_text pp (row_format, byte_args bs)) = concat (map hex2 bs)"
    by (simp add: bs line_text_def format_def row_format_def spec0_def digit_of_def byte_args_def render_hex2
        render_hex2 [unfolded numeral_2_eq_2])
  show "line_ends (line_text pp (row_format, byte_args bs)) = 1"
    by (simp add: bs line_text_def format_def row_format_def spec0_def digit_of_def byte_args_def render_hex2
        render_hex2 [unfolded numeral_2_eq_2])
qed

definition dump_text :: "(addr \<Rightarrow> string) \<Rightarrow> message list \<Rightarrow> string" where
  "dump_text pp ms = concat (map (line_text pp) ms)"

lemma hex_tail_text:
  "(n \<le> length bs \<longrightarrow> (\<exists>ms. hex_tail bs n = Some ms \<and>
      compact (dump_text pp ms) = concat (map hex2 (take n bs)) \<and> line_ends (dump_text pp ms) = 0)) \<and>
   (length bs < n \<longrightarrow> hex_tail bs n = None)"
proof (induction bs n rule: hex_tail.induct)
  case (3 b bs n)
  then show ?case using tail_text [of pp b] by (auto simp: dump_text_def)
qed (simp_all add: dump_text_def)

lemma newline_text: "line_text pp (''\<newline>'', []) = ''\<newline>''"
  by (simp add: line_text_def format_def)

lemma hex_rows_text:
  "0 \<le> len \<Longrightarrow>
   (nat len \<le> length bs \<longrightarrow> (\<exists>ms. hex_rows bs len = Some ms \<and>
      compact (dump_text pp ms) = concat (map hex2 (take (nat len) bs)) \<and>
      line_ends (dump_text pp ms) = (nat len + 15) div 16)) \<and>
   (length bs < nat len \<longrightarrow> hex_rows bs len = None)"
proof (induction bs len rule: hex_rows.induct)
  case (1 bs len)
  show ?case
  proof (cases "0x10 \<le> len")
    case True
    show ?thesis
    proof (cases "length bs < 0x10")
      case short: True
      then have "length bs < nat len" using True by simp
      moreover have "hex_rows bs len = None" using True short by (subst hex_rows.simps) simp
      ultimately show ?thesis by simp
    next
      case False
      have n: "nat len = 0x10 + nat (len - 0x10)" using True by simp
      have t: "take (nat len) bs = take 0x10 bs @ take (nat (len - 0x10)) (drop 0x10 bs)"
        by (simp add: n take_add)
      have d: "(nat len + 15) div 16 = 1 + (nat (len - 0x10) + 15) div 16" by (simp add: n)
      have r: "hex_rows bs len = map_option (Cons (row_format, byte_args (take 0x10 bs))) (hex_rows (drop 0x10 bs) (len - 0x10))"
        using True False by (subst hex_rows.simps) simp
      have l: "nat len \<le> length bs \<longleftrightarrow> nat (len - 0x10) \<le> length (drop 0x10 bs)"
        "length bs < nat len \<longleftrightarrow> length (drop 0x10 bs) < nat (len - 0x10)"
        using False n by auto
      have "length (take 0x10 bs) = 0x10" using False by simp
      note row = row_text [OF this, of pp]
      show ?thesis
        using 1(1) [OF True False] True row unfolding r t d l by (auto simp: dump_text_def)
    qed
  next
    case False
    show ?thesis
    proof (cases "len = 0")
      case True
      then show ?thesis by (subst (1 2) hex_rows.simps) (simp add: dump_text_def)
    next
      case nz: False
      have r: "hex_rows bs len = map_option (\<lambda>ms. ms @ [(''\<newline>'', [])]) (hex_tail bs (nat len))"
        using False nz by (subst hex_rows.simps) simp
      have "0 < nat len" "nat len < 16" using False nz 1(2) by simp_all
      then have d: "(nat len + 15) div 16 = 1" by simp
      show ?thesis using hex_tail_text [of "nat len" bs pp] unfolding r d
        by (auto simp: dump_text_def newline_text)
    qed
  qed
qed

text \<open>
  C39: the dump of \<open>len\<close> bytes.  When they are all there the loops end, the text without its spaces and line
  ends is the two digits of each byte in order, from which the bytes can be read back, and there is one
  line for every 16 bytes begun.  When memory ends before, the dump is a fault.
\<close>

theorem hex_dump_spec:
  assumes "0 \<le> sint len"
  shows "if nat (sint len) \<le> length bs
    then \<exists>ms. hex_dump (Some bs) len = Some ms \<and>
      compact (concat (map (line_text pp) ms)) = concat (map hex2 (take (nat (sint len)) bs)) \<and>
      line_ends (concat (map (line_text pp) ms)) = (nat (sint len) + 15) div 16 \<and>
      (\<forall>b \<in> set bs. value_of 16 (hex2 b) = unat b)
    else hex_dump (Some bs) len = None"
proof -
  have v: "value_of 16 (hex2 b) = unat b" for b
  proof -
    have "unat b div 16 < 16" using unat_lt_256 [of b] by simp
    then show ?thesis by (simp add: value_of_def hex2_def char_digit_char)
  qed
  show ?thesis
  proof (cases "len = 0")
    case True
    then show ?thesis using v by (simp add: hex_dump_def)
  next
    case False
    then show ?thesis using hex_rows_text [OF assms, of bs pp] v
      by (auto simp: hex_dump_def dump_text_def)
  qed
qed

end
