(* ===== verification/Small_Tools.thy ===== *)
theory Small_Tools
  imports Tool_Base
begin

text \<open>
  The small tools: dumps of one piece of data (\<open>kblparam_dumper\<close>, \<open>syscon_vs_dumper\<close>,
  \<open>SceIofilemgrAnalysis\<close>, \<open>iofilemgr_test\<close>), listings (\<open>qaf_show\<close>, \<open>dipsw_show\<close>, \<open>update_sw_list\<close>),
  single changes of the system (\<open>qaf_host0\<close>, \<open>kpanic_debug\<close>, \<open>SceSysRw\<close>, \<open>noSuspend\<close>,
  \<open>noSuspendMini\<close>), and samples (\<open>pmu_test\<close>, \<open>sce_fios2kernel_tester\<close>, \<open>CorelockSample\<close>).

  The calls of the system are parameters; what is printed is a list of messages.
\<close>

section \<open>Writing a file\<close>

definition dump_file :: "'k sce_io \<Rightarrow> string \<Rightarrow> u8 list option \<Rightarrow> 'k \<Rightarrow> s32 \<times> 'k" where
  "dump_file IO path data k =
     (case data of None \<Rightarrow> (-1, k)
      | Some d \<Rightarrow>
        if d = [] then (-1, k)
        else let (fd, k) = io_open IO k path (SCE_O_WRONLY IO OR SCE_O_CREAT IO OR SCE_O_TRUNC IO) 438 in
        if failed fd then (fd, k)
        else let (_, k) = io_write IO k fd d; (_, k) = io_close IO k fd in (0, k))"

text \<open>\<open>kblparam_dumper\<close>: the first device that is there gets the file.\<close>

definition kblparam_module_start :: "'k sce_io \<Rightarrow> u8 list \<Rightarrow> 'k \<Rightarrow> start_result \<times> 'k" where
  "kblparam_module_start IO param k =
     (START_NO_RESIDENT,
      let (r, k) = io_getstat IO k ''host0:'' in
      if \<not> failed r then snd (dump_file IO ''host0:kblparam.bin'' (Some (take 0x200 param)) k)
      else let (r, k) = io_getstat IO k ''sd0:'' in
      if \<not> failed r then snd (dump_file IO ''sd0:kblparam.bin'' (Some (take 0x200 param)) k)
      else let (r, k) = io_getstat IO k ''ux0:'' in
      if \<not> failed r then snd (dump_file IO ''ux0:kblparam.bin'' (Some (take 0x200 param)) k)
      else k)"

text \<open>\<open>syscon_vs_dumper\<close>: 0x100 bytes are read in pieces of 8; \<open>vs\<close> gives a piece.\<close>

function vs_loop :: "('k \<Rightarrow> nat \<Rightarrow> u8 list \<times> 'k) \<Rightarrow> nat \<Rightarrow> u8 list \<Rightarrow> 'k \<Rightarrow> u8 list \<times> 'k" where
  "vs_loop vs i storage k =
     (if i < 0x100
      then let (bs, k) = vs k i in vs_loop vs (i + 8) (overwrite i (take 8 bs) storage) k
      else (storage, k))"
  by pat_completeness auto

termination
  by (relation "measure (\<lambda>(vs, i, s, k). 0x100 - i)") auto

declare vs_loop.simps [simp del]

definition syscon_vs_module_start ::
    "'k sce_io \<Rightarrow> ('k \<Rightarrow> nat \<Rightarrow> u8 list \<times> 'k) \<Rightarrow> 'k \<Rightarrow> start_result \<times> 'k" where
  "syscon_vs_module_start IO vs k =
     (let (vs_storage, k) = vs_loop vs 0 (replicate 0x100 0) k;
          fl = SCE_O_WRONLY IO OR SCE_O_CREAT IO OR SCE_O_TRUNC IO;
          (fd, k) = io_open IO k ''uma0:syscon_vs_dump.bin'' fl 438;
          (fd, k) = (if failed fd then io_open IO k ''sd0:syscon_vs_dump.bin'' fl 438 else (fd, k));
          (fd, k) = (if failed fd then io_open IO k ''ux0:syscon_vs_dump.bin'' fl 438 else (fd, k))
      in if \<not> failed fd
      then let (_, k) = io_write IO k fd vs_storage; (_, k) = io_close IO k fd in (START_NO_RESIDENT, k)
      else (START_NO_RESIDENT, k))"

text \<open>The dump is the pieces in order when the controller answers every read with its 8 bytes.\<close>

lemma vs_loop_pieces:
  assumes "\<And>k i. vs k i = (bs i, k)" "\<And>i. length (bs i) = 8" "length storage = 0x100"
  shows "n \<le> 32 \<Longrightarrow> i = 8 * n \<Longrightarrow>
    vs_loop vs i (overwrite 0 (concat (map (\<lambda>j. bs (8 * j)) [0 ..< n])) storage) k =
    (concat (map (\<lambda>j. bs (8 * j)) [0 ..< 32]), k)"
proof (induction "32 - n" arbitrary: n i rule: less_induct)
  case less
  let ?c = "\<lambda>n. concat (map (\<lambda>j. bs (8 * j)) [0 ..< n])"
  have l: "length (?c m) = 8 * m" for m by (induction m) (simp_all add: assms(2))
  show ?case
  proof (cases "n < 32")
    case True
    have "overwrite (8 * n) (bs (8 * n)) (overwrite 0 (?c n) storage) = overwrite 0 (?c (Suc n)) storage"
      using assms(2,3) True l [of n] by (simp add: overwrite_def ac_simps)
    then have "vs_loop vs i (overwrite 0 (?c n) storage) k =
        vs_loop vs (8 * Suc n) (overwrite 0 (?c (Suc n)) storage) k"
      using less.prems True assms(1,2) by (subst vs_loop.simps) (simp add: add.commute)
    then show ?thesis using less.hyps [of "Suc n" "8 * Suc n"] True by simp
  next
    case False
    then have "n = 32" using less.prems by simp
    then show ?thesis using less.prems l [of 32] assms(3) by (subst vs_loop.simps) (simp add: overwrite_def)
  qed
qed

text \<open>
  \<open>SceIofilemgrAnalysis\<close>: after a delay the local storage of the shell process is written to a file;
  \<open>kpls\<close> gives it by the key of the module.
\<close>

record 'k iofile_view =
  iv_delay :: "'k \<Rightarrow> u32 \<Rightarrow> 'k"
  iv_remove :: "'k \<Rightarrow> string \<Rightarrow> 'k"
  iv_text :: segment
  iv_data :: segment
  iv_key :: s32
  iv_shell_pid :: s32
  iv_kpls :: "'k \<Rightarrow> s32 \<Rightarrow> s32 \<Rightarrow> s32 \<times> u8 list option"

definition sceIofilemgrAnalysisThread ::
    "'k sce_io \<Rightarrow> (addr \<Rightarrow> string) \<Rightarrow> 'k iofile_view \<Rightarrow> 'k log_state \<Rightarrow> (s32 \<times> 'k log_state) option" where
  "sceIofilemgrAnalysisThread IO pp V s = do {
     let k = iv_delay V (log_kst s) 17000000;
     let s = s\<lparr>log_kst := iv_remove V k ''uma0:SceIofilemgr.txt''\<rparr>;
     let (_, s) = LogOpen IO ''uma0:SceIofilemgr.txt'' s;
     s \<leftarrow> log_formats IO pp
       [(''text %p, 0x%X\<newline>'', [Pointer (sg_vaddr (iv_text V)), Num32 (sg_memsz (iv_text V))]),
        (''data %p, 0x%X\<newline>'', [Pointer (sg_vaddr (iv_data V)), Num32 (sg_memsz (iv_data V))]),
        (''\<newline>'', [])] s;
     let (res, pKpls) = iv_kpls V (log_kst s) (iv_shell_pid V) (iv_key V);
     s \<leftarrow> (if \<not> failed res
          then Some (s\<lparr>log_kst := snd (dump_file IO ''uma0:SceIofilemgr_Kpls.bin'' (map_option (take 0x28) pKpls) (log_kst s))\<rparr>)
          else log_formats IO pp [(''sceKernelGetRemoteKPLS failed : 0x%X\<newline>'', [Num32 res])] s);
     Some (0, snd (LogClose IO s))
   }"

definition iofilemgr_analysis_module_start :: "('k \<Rightarrow> string \<Rightarrow> s32 \<times> 'k) \<Rightarrow> ('k \<Rightarrow> s32 \<Rightarrow> 'k) \<Rightarrow> 'k \<Rightarrow> start_result \<times> 'k" where
  "iofilemgr_analysis_module_start create start k =
     (let (thid, k) = create k ''SceIofilemgrAnalysisThread'' in (START_SUCCESS, start k thid))"

text \<open>
  \<open>iofilemgr_test\<close>: the object of an open file is looked up, and the operations of its vnode are written
  to a file; \<open>obj\<close> gives the address of the object, and the mount, the name and the operations of its vnode.
\<close>

definition iofilemgr_test_module_start ::
    "'k sce_io \<Rightarrow> ('k \<Rightarrow> s32 \<Rightarrow> (addr \<times> addr \<times> string \<times> u8 list) option) \<Rightarrow> 'k \<Rightarrow>
     (start_result \<times> message list \<times> 'k) option" where
  "iofilemgr_test_module_start IO obj k = do {
     let (fd, k) = io_open IO k ''os0:kd/bootimage.skprx'' (SCE_O_RDONLY IO) 0;
     (obj, mount, file_name, ops) \<leftarrow> obj k fd;
     let (_, k) = dump_file IO ''sd0:SceUIDVfsFileClass_obj.bin'' (Some (take 0x100 ops)) k;
     let (_, k) = io_close IO k fd;
     Some (START_SUCCESS,
       [(''fd   : 0x%X\<newline>'', [Num32 fd]), (''obj  :0x%X\<newline>'', [Num32 obj]),
        (''mount:0x%X\<newline>'', [Num32 mount]), (''%s\<newline>'', [Text file_name])], k)
   }"

section \<open>Listings\<close>

definition qaf_names :: "string list" where
  "qaf_names =
    [''sceSblQafMgrIsAllowControlIduAutoUpdate   :%d\<newline>'',
     ''sceSblQafMgrIsAllowDecryptedBootConfigLoad:%d\<newline>'',
     ''sceSblQafMgrIsAllowDtcpIpReset            :%d\<newline>'',
     ''sceSblQafMgrIsAllowHost0Access            :%d\<newline>'',
     ''sceSblQafMgrIsAllowKeepCoreFile           :%d\<newline>'',
     ''sceSblQafMgrIsAllowLoadMagicGate          :%d\<newline>'',
     ''sceSblQafMgrIsAllowMarlinTest             :%d\<newline>'',
     ''sceSblQafMgrIsAllowNearTest               :%d\<newline>'',
     ''sceSblQafMgrIsAllowPSPEmuShowQAInfo       :%d\<newline>'',
     ''sceSblQafMgrIsAllowRemotePlayDebug        :%d\<newline>'',
     ''sceSblQafMgrIsAllowSystemAppDebug         :%d\<newline>'']"

text \<open>\<open>qaf i\<close> is the answer of the function named in the line \<open>i\<close>.\<close>

definition qaf_module_start :: "(nat \<Rightarrow> s32) \<Rightarrow> start_result \<times> message list" where
  "qaf_module_start qaf = (START_NO_RESIDENT, map (\<lambda>i. (qaf_names ! i, [Num32 (qaf i)])) [0 ..< 11])"

definition dipsw_test :: "u8 \<Rightarrow> message" where
  "dipsw_test b =
     (''0x%X -> byte:0x%X/bit:0x%X'',
      [Num32 (ucast b), Num32 (push_bit 2 (drop_bit 5 (ucast b))), Num32 (push_bit (unat (b AND 0x1F)) 1)])"

definition dipsw_module_start :: "(u32 \<Rightarrow> s32) \<Rightarrow> start_result \<times> message list" where
  "dipsw_module_start dipsw =
     (START_NO_RESIDENT,
      map (\<lambda>i. (''Dipsw 0x%X(%d):%d\<newline>'',
        [Num32 (of_nat i), Num32 (of_nat i), Num32 (dipsw (of_nat i))])) [0x80 ..< 0x100])"

text \<open>The byte offset and the mask of a switch name exactly its bit of an array of words.\<close>

lemma dipsw_test_bit:
  "unat (push_bit 2 (drop_bit 5 (ucast (b :: u8))) :: u32) = unat b div 32 * 4"
  "unat (b AND 0x1F) = unat b mod 32"
proof -
  have u: "unat (ucast b :: u32) = unat b"
    using unat_lt_256 [of b] by (simp add: unsigned_ucast_eq take_bit_nat_eq_self)
  have "unat (drop_bit 5 (ucast b :: u32)) = unat b div 32" by (simp add: unat_drop u)
  moreover have "unat b div 32 \<le> 256" using unat_lt_256 [of b] by simp
  ultimately show "unat (push_bit 2 (drop_bit 5 (ucast b)) :: u32) = unat b div 32 * 4"
    by (subst unat_push) simp_all
  have "b AND 0x1F = take_bit 5 b" by (simp add: take_bit_eq_mask mask_eq_exp_minus_1)
  then show "unat (b AND 0x1F) = unat b mod 32" by (simp add: unat_take)
qed

record SceSblUsSwPscode =
  sp_product_code_upper :: u16
  sp_product_code_lower :: u16
  sp_product_sub_code :: u16
  sp_number :: u32

record SceSblUsSwFw =
  sf_fw1 :: u32
  sf_fw2 :: u32
  sf_flags :: u32

text \<open>The tables in the text segment of SceSblUpdateMgr; a number behind the second one is a fault.\<close>

definition sw_line :: "SceSblUsSwPscode list \<Rightarrow> SceSblUsSwFw list \<Rightarrow> nat \<Rightarrow> message list option" where
  "sw_line ps fws i =
     (if i < length ps \<and> unat (sp_number (ps ! i)) < length fws
      then let p = ps ! i; f = fws ! unat (sp_number p) in
        Some [(''%03d: product_code_upper=0x%X product_code_lower=0x%X product_sub_code=0x%03X fw1=0x%08X fw2=0x%08X flags=0x%08X\<newline>'',
          [Num32 (of_nat i), Num32 (ucast (sp_product_code_upper p)), Num32 (ucast (sp_product_code_lower p)),
           Num32 (ucast (sp_product_sub_code p)), Num32 (sf_fw1 f), Num32 (sf_fw2 f), Num32 (sf_flags f)])]
      else None)"

definition update_sw_list_test ::
    "s32 \<Rightarrow> SceSblUsSwPscode list \<Rightarrow> SceSblUsSwFw list \<Rightarrow> (s32 \<times> message list) option" where
  "update_sw_list_test module_id ps fws =
     (if failed module_id
      then Some (module_id, [(''%s:Target module not found : 0x%X\<newline>'', [Text ''update_sw_list_test'', Num32 module_id])])
      else map_option (\<lambda>ms. (0, ms)) (collect (sw_line ps fws) [0 ..< 0x59]))"

definition update_sw_module_start ::
    "s32 \<Rightarrow> SceSblUsSwPscode list \<Rightarrow> SceSblUsSwFw list \<Rightarrow> (start_result \<times> message list) option" where
  "update_sw_module_start module_id ps fws =
     map_option (\<lambda>(_, ms). (START_NO_RESIDENT, ms)) (update_sw_list_test module_id ps fws)"

section \<open>Single changes\<close>

text \<open>\<open>qaf_host0\<close>: one bit of the QA flags.\<close>

definition qaf_host0_module_start :: "u8 list \<Rightarrow> start_result \<times> u8 list" where
  "qaf_host0_module_start qa_flags = (START_NO_RESIDENT, qa_flags[0xE := qa_flags ! 0xE OR 1])"

definition qaf_patch :: "u8 list" where "qaf_patch = [0x01, 0x20, 0x00, 0xBF]"

text \<open>\<open>kpanic_debug\<close>: \<open>or_byte\<close> sets bits of a byte of memory.\<close>

definition kpanic_module_start ::
    "('k \<Rightarrow> string \<Rightarrow> s32) \<Rightarrow> ('k \<Rightarrow> s32 \<Rightarrow> u32 \<Rightarrow> u8 list \<Rightarrow> 'k) \<Rightarrow> ('k \<Rightarrow> s32 \<Rightarrow> addr) \<Rightarrow>
     ('k \<Rightarrow> addr \<Rightarrow> u8 \<Rightarrow> 'k) \<Rightarrow> 'k \<Rightarrow> start_result \<times> 'k" where
  "kpanic_module_start search inject data_segment or_byte k =
     (let k = inject k (search k ''SceKernelModulemgr'') 0xA73E qaf_patch;
          bsod = search k ''SceKernelBlueScreenOfDeath''
      in (START_SUCCESS, if 0 <s bsod then or_byte k (data_segment k bsod + 8) 1 else k))"

text \<open>\<open>SceSysRw\<close>: two partitions are mounted again, and all applications are ended.\<close>

definition sysrw_module_start ::
    "('k \<Rightarrow> u32 \<Rightarrow> u32 \<Rightarrow> 'k) \<Rightarrow> ('k \<Rightarrow> u32 \<Rightarrow> u32 \<Rightarrow> s32 list \<Rightarrow> 'k) \<Rightarrow> ('k \<Rightarrow> s32 \<Rightarrow> 'k) \<Rightarrow> 'k \<Rightarrow> start_result \<times> 'k" where
  "sysrw_module_start umount mount destroy k =
     (let k = umount k 0x200 1; k = mount k 0x200 2 (replicate 6 0);
          k = umount k 0x300 1; k = mount k 0x300 2 (replicate 6 0)
      in (START_SUCCESS, destroy k (NOT 2)))"

text \<open>\<open>noSuspend\<close>: the idle callback is cleared and replaced by one that does nothing.\<close>

definition scePowerSuspendCallback :: "s32 \<Rightarrow> s32 \<Rightarrow> s32 \<Rightarrow> 'k \<Rightarrow> 'k" where
  "scePowerSuspendCallback a1 a2 a3 k = k"

definition nosuspend_module_start ::
    "('k \<Rightarrow> (s32 \<Rightarrow> s32 \<Rightarrow> s32 \<Rightarrow> 'k \<Rightarrow> 'k) option \<Rightarrow> 'k) \<Rightarrow> 'k \<Rightarrow> start_result \<times> 'k" where
  "nosuspend_module_start idle_callback k =
     (START_SUCCESS, idle_callback (idle_callback k None) (Some scePowerSuspendCallback))"

text \<open>\<open>noSuspendMini\<close>: the thread never ends; \<open>n\<close> is the number of its turns so far.\<close>

definition nosuspend_turns :: "('k \<Rightarrow> u32 \<Rightarrow> 'k) \<Rightarrow> ('k \<Rightarrow> 'k) \<Rightarrow> nat \<Rightarrow> 'k \<Rightarrow> 'k" where
  "nosuspend_turns delay tick n k = ((\<lambda>k. tick (delay k 1000000)) ^^ n) k"

definition nosuspend_mini_module_start ::
    "('k \<Rightarrow> string \<Rightarrow> s32 \<times> 'k) \<Rightarrow> ('k \<Rightarrow> s32 \<Rightarrow> s32 \<times> 'k) \<Rightarrow> 'k \<Rightarrow> start_result \<times> message list \<times> 'k" where
  "nosuspend_mini_module_start create start k =
     (let (thid, k) = create k ''NoSuspendThread'' in
      if failed thid then (START_FAILED, [(''sceKernelCreateThread failed : 0x%X\<newline>'', [Num32 thid])], k)
      else let (res, k) = start k thid in
      if failed res then (START_FAILED, [(''sceKernelStartThread failed : 0x%X\<newline>'', [Num32 res])], k)
      else (START_SUCCESS, [], k))"

section \<open>Samples\<close>

definition testa :: "s32 \<Rightarrow> s32 \<Rightarrow> s32" where "testa a1 a2 = a1 + a2"

text \<open>\<open>start\<close> and \<open>stop\<close> are the two values of the counter.\<close>

definition pmu_test :: "u32 \<Rightarrow> u32 \<Rightarrow> s32 \<times> message list" where
  "pmu_test start stop =
     (let val = 0 + testa 0x100 0x500; val = val + testa 0x200 0x500 in
      (0, [(''0x100 + 0x500 + 0x200 + 0x500 = 0x%X\<newline>'', [Num32 val]), (''pmu : 0x%X\<newline>'', [Num32 (stop - start)])]))"

lemma pmu_test_sum: "snd (pmu_test a b) ! 0 = (''0x100 + 0x500 + 0x200 + 0x500 = 0x%X\<newline>'', [Num32 0xD00])"
  by (simp add: pmu_test_def testa_def Let_def)

text \<open>\<open>info\<close> gives the fingerprint of SceFios2Kernel, \<open>sanitize\<close> is its function.\<close>

definition sce_fios2kernel_test_main ::
    "s32 \<times> u32 \<Rightarrow> (string \<Rightarrow> nat \<Rightarrow> s32 \<times> string) \<Rightarrow> s32 \<times> message list" where
  "sce_fios2kernel_test_main info sanitize =
     (let (res, nid) = info in
      if failed res then (res, [])
      else if nid = 0x10ECF2D0 then
        let (res, resolved) = sanitize ''host0:data/./test/kernel/memory/../build/'' 0x400 in
        (0, [(''resolve res : 0x%X\<newline>'', [Num32 res]), (''%s\<newline>'', [Text resolved])])
      else (-1, [(''Unknown SceFios2Kernel fingerprint : 0x%08X\<newline>'', [Num32 nid])]))"

text \<open>\<open>CorelockSample\<close>: what one core does; the lock, the delays and the clock are calls.\<close>

record 'k corelock_env =
  cl_core :: "'k \<Rightarrow> s32"
  cl_thread :: "'k \<Rightarrow> s32"
  cl_delay :: "'k \<Rightarrow> u32 \<Rightarrow> 'k"
  cl_lock :: "'k \<Rightarrow> s32 \<Rightarrow> 'k"
  cl_unlock :: "'k \<Rightarrow> 'k"
  cl_time :: "'k \<Rightarrow> u64"
  cl_print :: "'k \<Rightarrow> message \<Rightarrow> 'k"
  cl_init :: "'k \<Rightarrow> 'k"
  cl_create :: "'k \<Rightarrow> string \<Rightarrow> u32 \<Rightarrow> s32 \<times> 'k"
  cl_start :: "'k \<Rightarrow> s32 \<Rightarrow> 'k"

definition sceCorelockThread :: "'k corelock_env \<Rightarrow> 'k \<Rightarrow> s32 \<times> 'k" where
  "sceCorelockThread E k =
     (let this_cpu_core = cl_core E k;
          say = (\<lambda>t k. cl_print E k (''[%d] '' @ t @ ''\<newline>'', [Num32 this_cpu_core]));
          k = cl_print E k (''[%d] sceCorelockThread 0x%X\<newline>'', [Num32 this_cpu_core, Num32 (cl_thread E k)]);
          k = (if this_cpu_core = 1
               then say ''after 1000 usec'' (cl_delay E (say ''waiting 1000 usec'' k) 1000) else k);
          k = cl_lock E (say ''invoke sceKernelCorelockLock'' k) 0;
          k = say ''after  sceKernelCorelockLock'' k;
          k = (if this_cpu_core = 0
               then say ''after 5 second'' (cl_delay E (say ''waiting 5 second'' k) 5000000) else k);
          k = cl_unlock E (say ''invoke sceKernelCorelockUnlock'' k);
          k = say ''after  sceKernelCorelockUnlock'' k;
          k = cl_print E k (''[%d] Corelock time %lld [usec]\<newline>'', [Num32 this_cpu_core, Num64 (cl_time E k)]);
          k = say ''sceCorelockThread exit'' k
      in (0, k))"

definition corelock_module_start :: "'k corelock_env \<Rightarrow> 'k \<Rightarrow> start_result \<times> 'k" where
  "corelock_module_start E k =
     (let k = cl_print E k (''[%d] module_start\<newline>'', [Num32 (cl_core E k)]) in
      if cl_core E k \<noteq> 0
      then (START_NO_RESIDENT, cl_print E k (''Make sure the module_start call is core0\<newline>'', []))
      else
      let k = cl_init E k;
          (t1, k) = cl_create E k ''SceSyncThreadCore1'' (push_bit 1 1);
          (t2, k) = cl_create E k ''SceSyncThreadCore2'' (push_bit 2 1);
          (t3, k) = cl_create E k ''SceSyncThreadCore3'' (push_bit 3 1);
          k = cl_print E k (''thid_core1 : 0x%X\<newline>'', [Num32 t1]);
          k = cl_print E k (''thid_core2 : 0x%X\<newline>'', [Num32 t2]);
          k = cl_print E k (''thid_core3 : 0x%X\<newline>'', [Num32 t3]);
          k = cl_start E k t1; k = cl_start E k t2; k = cl_start E k t3;
          (_, k) = sceCorelockThread E k
      in (START_SUCCESS, k))"

end
