(* ===== verification/Corelock_Threads.thy ===== *)
theory Corelock_Threads
  imports Small_Tools
begin

text \<open>
  \<open>CorelockSample\<close> with its four threads running at the same time, one on every core: the events of one
  thread, a step of any of them, and what holds in every interleaving.  Of the lock only its documented
  use is assumed: a thread that finds it taken waits until it is given back.
\<close>

section \<open>The events of one thread\<close>

datatype corelock_event = Say string | Say_thread | Say_time | Delay u32 | Lock | Unlock

definition corelock_program :: "s32 \<Rightarrow> corelock_event list" where
  "corelock_program c =
     [Say_thread] @
     (if c = 1 then [Say ''waiting 1000 usec'', Delay 1000, Say ''after 1000 usec''] else []) @
     [Say ''invoke sceKernelCorelockLock'', Lock, Say ''after  sceKernelCorelockLock''] @
     (if c = 0 then [Say ''waiting 5 second'', Delay 5000000, Say ''after 5 second''] else []) @
     [Say ''invoke sceKernelCorelockUnlock'', Unlock, Say ''after  sceKernelCorelockUnlock'', Say_time,
      Say ''sceCorelockThread exit'']"

fun perform :: "'k corelock_env \<Rightarrow> s32 \<Rightarrow> corelock_event \<Rightarrow> 'k \<Rightarrow> 'k" where
  "perform E c (Say t) k = cl_print E k (''[%d] '' @ t @ ''\<newline>'', [Num32 c])"
| "perform E c Say_thread k = cl_print E k (''[%d] sceCorelockThread 0x%X\<newline>'', [Num32 c, Num32 (cl_thread E k)])"
| "perform E c Say_time k = cl_print E k (''[%d] Corelock time %lld [usec]\<newline>'', [Num32 c, Num64 (cl_time E k)])"
| "perform E c (Delay t) k = cl_delay E k t"
| "perform E c Lock k = cl_lock E k 0"
| "perform E c Unlock k = cl_unlock E k"

text \<open>A thread that is alone performs exactly these events.\<close>

lemma thread_events:
  "sceCorelockThread E k = (0, fold (perform E (cl_core E k)) (corelock_program (cl_core E k)) k)"
  by (simp add: sceCorelockThread_def corelock_program_def Let_def)

section \<open>All threads\<close>

record corelock_state =
  cs_rest :: "s32 \<Rightarrow> corelock_event list"
  cs_holder :: "s32 option"
  cs_done :: "(s32 \<times> corelock_event) list"

definition corelock_init :: corelock_state where
  "corelock_init = \<lparr>cs_rest = \<lambda>c. if c \<in> {0, 1, 2, 3} then corelock_program c else [], cs_holder = None, cs_done = []\<rparr>"

definition advance :: "s32 \<Rightarrow> corelock_state \<Rightarrow> corelock_state" where
  "advance c s = s\<lparr>cs_rest := (cs_rest s)(c := tl (cs_rest s c)), cs_done := cs_done s @ [(c, hd (cs_rest s c))]\<rparr>"

inductive corelock_step :: "corelock_state \<Rightarrow> corelock_state \<Rightarrow> bool" where
  Other: "cs_rest s c = e # es \<Longrightarrow> e \<noteq> Lock \<Longrightarrow> e \<noteq> Unlock \<Longrightarrow> corelock_step s (advance c s)"
| Take: "cs_rest s c = Lock # es \<Longrightarrow> cs_holder s = None \<Longrightarrow>
    corelock_step s ((advance c s)\<lparr>cs_holder := Some c\<rparr>)"
| Give: "cs_rest s c = Unlock # es \<Longrightarrow> corelock_step s ((advance c s)\<lparr>cs_holder := None\<rparr>)"

inductive_cases corelock_stepE: "corelock_step s t"

text \<open>What is left of taking and giving back the lock; a thread holds it while only the latter is left.\<close>

definition lock_events :: "corelock_event list \<Rightarrow> corelock_event list" where
  "lock_events r = filter (\<lambda>e. e = Lock \<or> e = Unlock) r"

definition inside :: "s32 \<Rightarrow> corelock_state \<Rightarrow> bool" where
  "inside c s \<longleftrightarrow> lock_events (cs_rest s c) = [Unlock]"

definition left :: "corelock_state \<Rightarrow> nat" where
  "left s = (\<Sum>c\<in>{0, 1, 2, 3}. length (cs_rest s c))"

definition events_of :: "s32 \<Rightarrow> corelock_state \<Rightarrow> corelock_event list" where
  "events_of c s = map snd (filter (\<lambda>p. fst p = c) (cs_done s))"

lemma lock_events_simps [simp]:
  "lock_events [] = []"
  "lock_events (e # es) = (if e = Lock \<or> e = Unlock then e # lock_events es else lock_events es)"
  by (simp_all add: lock_events_def)

text \<open>
  The invariant: what a thread did and what it has left is its program, the lock is taken once and given
  back later, and it is held by exactly the thread that is in between.
\<close>

definition corelock_inv :: "corelock_state \<Rightarrow> bool" where
  "corelock_inv s \<longleftrightarrow> (\<forall>c. events_of c s @ cs_rest s c = cs_rest corelock_init c) \<and>
     (\<forall>c. lock_events (cs_rest s c) \<in> {[Lock, Unlock], [Unlock], []}) \<and>
     (\<forall>c. cs_holder s = Some c \<longleftrightarrow> inside c s)"

lemma init_inv: "corelock_inv corelock_init"
  by (auto simp: corelock_inv_def corelock_init_def events_of_def inside_def corelock_program_def)

lemma advance_simps [simp]:
  "cs_rest (advance c s) = (cs_rest s)(c := tl (cs_rest s c))" "cs_holder (advance c s) = cs_holder s"
  "events_of d (advance c s) = (if d = c then events_of c s @ [hd (cs_rest s c)] else events_of d s)"
  "events_of d (s\<lparr>cs_holder := h\<rparr>) = events_of d s"
  by (simp_all add: advance_def events_of_def)

lemma advance_left:
  assumes "corelock_inv s" "cs_rest s c = e # es"
  shows "left (advance c s) + 1 = left s"
proof -
  have "events_of c s @ e # es = cs_rest corelock_init c" using assms by (metis corelock_inv_def)
  then have "c \<in> {0, 1, 2, 3}" by (auto simp: corelock_init_def split: if_splits)
  then show ?thesis using assms(2) by (auto simp: left_def)
qed

lemma step_inv:
  assumes "corelock_step s t" "corelock_inv s"
  shows "corelock_inv t" "left t + 1 = left s"
proof -
  have l: "left (s\<lparr>cs_holder := h\<rparr>) = left s" for s h by (simp add: left_def)
  note i = assms(2)[unfolded corelock_inv_def]
  have h: "cs_holder s = Some d \<longleftrightarrow> inside d s" for d using i by blast
  have w: "events_of d s @ cs_rest s d = cs_rest corelock_init d" for d using i by blast
  have p: "lock_events (cs_rest s d) = [Lock, Unlock] \<or> lock_events (cs_rest s d) = [Unlock] \<or>
      lock_events (cs_rest s d) = []" for d using i by blast
  from assms(1) show "left t + 1 = left s"
    by (cases rule: corelock_step.cases) (use advance_left [OF assms(2)] in \<open>simp_all add: l\<close>)
  from assms(1) show "corelock_inv t"
  proof (cases rule: corelock_step.cases)
    case (Other c e es)
    then show ?thesis using w w [of c] p p [of c] h h [of c] by (auto simp: corelock_inv_def inside_def)
  next
    case (Take c es)
    then have "\<not> inside d s" for d using h [of d] by simp
    then show ?thesis using Take w w [of c] p p [of c] by (auto simp: corelock_inv_def inside_def)
  next
    case (Give c es)
    then have "inside c s" using p [of c] by (auto simp: inside_def)
    then have "\<not> inside d s" if "d \<noteq> c" for d using h [of d] h [of c] that by auto
    then show ?thesis using Give w w [of c] p p [of c] by (auto simp: corelock_inv_def inside_def)
  qed
qed

lemma steps_inv: "(corelock_step ^^ n) s t \<Longrightarrow> corelock_inv s \<Longrightarrow> corelock_inv t \<and> left t + n = left s"
proof (induction n arbitrary: t)
  case (Suc n)
  then obtain u where "(corelock_step ^^ n) s u" "corelock_step u t" by auto
  then show ?case using Suc.IH [of u] Suc.prems(2) step_inv [of u t] by auto
qed simp

text \<open>The lock is free or its holder can go on, so some thread can as long as one has events left.\<close>

lemma step_possible:
  assumes "corelock_inv s" "cs_rest s c \<noteq> []"
  shows "\<exists>t. corelock_step s t"
proof (cases "cs_holder s")
  case None
  obtain e es where "cs_rest s c = e # es" using assms(2) by (cases "cs_rest s c") auto
  then show ?thesis using None corelock_step.intros by metis
next
  case (Some d)
  then have d: "lock_events (cs_rest s d) = [Unlock]" using assms(1) by (auto simp: corelock_inv_def inside_def)
  then obtain e es where e: "cs_rest s d = e # es" by (cases "cs_rest s d") auto
  then have "e \<noteq> Lock" using d by auto
  then show ?thesis using e corelock_step.intros(1,3) by metis
qed

lemma left_0:
  assumes "corelock_inv s"
  shows "left s = 0 \<longleftrightarrow> (\<forall>c. cs_rest s c = [])"
proof -
  have "cs_rest s c = []" if "c \<notin> {0, 1, 2, 3}" for c
  proof -
    have "events_of c s @ cs_rest s c = cs_rest corelock_init c" using assms by (simp add: corelock_inv_def)
    then show ?thesis using that by (simp add: corelock_init_def)
  qed
  then have "(\<forall>c. cs_rest s c = []) \<longleftrightarrow> (\<forall>c \<in> {0, 1, 2, 3}. cs_rest s c = [])" by blast
  then show ?thesis by (simp add: left_def)
qed

lemma run_to_end:
  "corelock_inv s \<Longrightarrow> \<exists>t. (corelock_step ^^ left s) s t \<and> left t = 0"
proof (induction "left s" arbitrary: s)
  case 0
  then show ?case by auto
next
  case (Suc n)
  then have "left s \<noteq> 0" by simp
  then obtain c where "cs_rest s c \<noteq> []" using left_0 [OF Suc.prems] by auto
  then obtain u where u: "corelock_step s u" using step_possible [OF Suc.prems] by blast
  note s = step_inv [OF u Suc.prems]
  then have "n = left u" using Suc.hyps(2) by simp
  then obtain t where "(corelock_step ^^ n) u t" "left t = 0" using Suc.hyps(1) s(1) by metis
  then show ?case using u Suc.hyps(2) by (metis relpowp_Suc_I2)
qed


end
