(* ===== verification/Sample_Analysis.thy ===== *)
theory Sample_Analysis
  imports Sample_Tools Exfatfs_Analysis Sdstor_Analysis Activation_Reset Network_Patches Guid_Tester
    Corelock_Threads
begin

text \<open>
  Concrete runs of the analysis modules and of the patches: a file that collects what is written to it,
  a cache with a short path and one with a long path, five device contexts, a clock, and a list of two
  network devices, and the first steps of threads that share a lock.
\<close>

section \<open>Listings\<close>

definition cache_of :: "u16 list \<Rightarrow> SceExfatfsFileCache" where
  "cache_of path = \<lparr>fc_path = path, fc_pFileName = 0, fc_ctx = 0x100, fc_mode = 1, fc_attr = 0x20, fc_size = 0x200,
     fc_ctime = date0, fc_atime = date0, fc_mtime = date0, fc_cluster_start = 5, fc_words = replicate 18 0\<rparr>"

definition part0 :: SceExfatfsPartCtx where
  "part0 = \<lparr>pc_blk_name = 0x200, pc_unk_4 = 0, pc_unk_8 = 0, pc_rsvd_sector = 0x20, pc_unk_10 = 0,
     pc_available_clusters = 0x1000, pc_unk_1C = 0x40, pc_unk_B4 = 0, pc_blk_size = 0x8000\<rparr>"

text \<open>Every cache has the same path; one partition and one name.\<close>

definition view_of :: "u16 list \<Rightarrow> exfat_view" where
  "view_of path = \<lparr>ev_text = \<lparr>sg_vaddr = 0x1000, sg_memsz = 0x2000\<rparr>, ev_data = \<lparr>sg_vaddr = 0x4000, sg_memsz = 0x100\<rparr>,
     ev_list = 0x200 # replicate 7 0, ev_part_ctx = part0 # replicate 14 (part0\<lparr>pc_blk_name := 0\<rparr>),
     ev_fnode = replicate 0x400 (cache_of path),
     ev_ctx = \<lambda>p. if p = 0x100 then Some part0 else None, ev_str = \<lambda>p. if p = 0x200 then Some ''uma0:'' else None\<rparr>"

definition short_path :: "u16 list" where
  "short_path = [0x2F, 0x61] @ replicate 0x102 0"

definition long_path :: "u16 list" where
  "long_path = 0x2F # replicate 0xFE 0x3042 @ replicate 5 0"

lemma path_bytes_replicate:
  "path_bytes (replicate n 0x3042 @ 0 # us) = concat (replicate n [0x42, 0x30])"
  by (induction n) (simp_all add: path_bytes_Cons unit_bytes_def)

lemma view_of_short: "view_ok (view_of short_path) 0x1F0"
proof -
  have "path_bytes (replicate 0x102 0) = []" by (simp add: path_bytes_def takeWhile_eq_Nil_iff)
  then have "path_bytes short_path = [0x2F, 0x61]"
    by (simp add: short_path_def path_bytes_Cons unit_bytes_def)
  then show ?thesis by (auto simp: view_ok_def view_of_def cache_of_def part0_def short_path_def)
qed

lemma long_path_bytes: "path_bytes long_path = 0x2F # concat (replicate 0xFE [0x42, 0x30])"
proof -
  have "replicate 5 (0 :: u16) = 0 # replicate 4 0" by (simp add: eval_nat_numeral)
  then show ?thesis using path_bytes_replicate [of "0xFE" "replicate 4 0"]
    by (simp add: long_path_def path_bytes_Cons unit_bytes_def)
qed

lemma exfat_listing_witness:
  "(\<exists>ms s'. exfat_lines (view_of short_path) = Some ms \<and>
      exfat_module_start IOL (\<lambda>k _. []) (\<lambda>_. ''0x00000000'') (view_of short_path) L0 = Some (START_SUCCESS, s') \<and>
      log_kst s' = bytes_of (concat (map (line_text (\<lambda>_. ''0x00000000'')) ms))) \<and>
   exfat_module_start IOL (\<lambda>k _. []) (\<lambda>_. ''0x00000000'') (view_of long_path) L0 = None"
proof -
  have A: "append_contract IOL (\<lambda>k. k)" by (simp add: append_contract_def IOL_def)
  have s: "log_fd L0 = 0" "length (log_buff L0) = LOG_BUFF_SIZE"
    "0 <s log_fd (snd (LogOpen IOL ''uma0:sce_exfatfs.txt'' (L0\<lparr>log_kst := (\<lambda>k _. []) (log_kst L0) ''uma0:sce_exfatfs.txt''\<rparr>)))"
    "\<And>p :: addr. length ((\<lambda>_. ''0x00000000'') p) \<le> 0x20"
    by (simp_all add: L0_def LOG_BUFF_SIZE_def LogOpen_def IOL_def word_sless_alt)
  note run = exfat_listing [OF A s]
  have l: "length (path_bytes long_path) = 0x1FD" "0 \<notin> set (path_bytes long_path)" "length long_path = 0x104"
    "long_path ! 0 = 0x2F"
    by (simp_all add: long_path_bytes length_concat sum_list_replicate) (simp_all add: long_path_def)
  have f: "ev_fnode (view_of long_path) ! 0 = cache_of long_path" by (simp add: view_of_def)
  have "exfat_module_start IOL (\<lambda>k _. []) (\<lambda>_. ''0x00000000'') (view_of long_path) L0 = None"
    using run [of "view_of long_path"] l unfolding Let_def
    by (elim conjE allE [of _ 0]) (simp add: f cache_of_def)
  moreover note run [of "view_of short_path"]
  ultimately show ?thesis using view_of_short by auto
qed

definition context0 :: SceSdstorDeviceContext where
  "context0 = \<lparr>dc_unk_40 = 1, dc_dev = 0, dc_unk_48 = 0, dc_device_sectors = 0x1000, dc_unk_50 = 0, dc_mbr_ptr = 0,
     dc_partitions = replicate 17 \<lparr>pi_start_lba = 0x20, pi_n_sectors = 0x100, pi_data_0x00 = 0, pi_data_0x04 = 0,
       pi_id = [0x73, 0x64, 0x30, 0], pi_flags = 0, pi_unk_0x10 = 0\<rparr>,
     dc_unk_234 = 0, dc_unk_235 = 0, dc_unk_236 = 0, dc_unk_237 = 0\<rparr>"

definition sdview0 :: sdstor_view where
  "sdview0 = \<lparr>sv_text = \<lparr>sg_vaddr = 0x1000, sg_memsz = 0x2000\<rparr>, sv_data = \<lparr>sg_vaddr = 0x4000, sg_memsz = 0x100\<rparr>,
     sv_contexts = replicate 5 context0\<rparr>"


section \<open>Clock and network\<close>

text \<open>The state holds what was sent to the system controller.\<close>

definition AE :: "u32 \<Rightarrow> u8 list list activation_env" where
  "AE now = \<lparr>ar_export = \<lambda>k. (0, k),
     ar_nvs = \<lambda>k off. (0, \<lparr>ac_issue_no = 1, ac_end_date = 0x60000000, ac_start_date = 0x5F000000\<rparr>, k),
     ar_tick = \<lambda>k. (0, 0, k),
     ar_to_date = \<lambda>t. (0, \<lparr>da_year = 2021, da_month = 1, da_day = 1, da_hour = 0, da_minute = 0, da_second = 0\<rparr>),
     ar_to_unix = \<lambda>d. (0, now, 0), ar_syscon = \<lambda>k cmd bs. (0, k @ [bs])\<rparr>"

lemma activation_reset_spec_witness:
  "(\<exists>r s'. program_main (AE 0x60000000) \<lparr>as_k = [], as_out = []\<rparr> = Some (r, s') \<and>
      as_k s' = [tick_bytes (unix_to_tick 0x5F000000)]) \<and>
   (\<exists>r s'. program_main (AE 0x5F000000) \<lparr>as_k = [], as_out = []\<rparr> = Some (r, s') \<and> as_k s' = [])"
proof -
  have "ar_export (AE u) (as_k \<lparr>as_k = [], as_out = []\<rparr>) = (0, [])" "\<not> failed (0 :: s32)"
    "ar_nvs (AE u) [] 0x520 = (0, \<lparr>ac_issue_no = 1, ac_end_date = 0x60000000, ac_start_date = 0x5F000000\<rparr>, [])"
    "ar_tick (AE u) [] = (0, 0, [])"
    "ar_to_date (AE u) 0 = (0, \<lparr>da_year = 2021, da_month = 1, da_day = 1, da_hour = 0, da_minute = 0, da_second = 0\<rparr>)"
    "ar_to_unix (AE u) \<lparr>da_year = 2021, da_month = 1, da_day = 1, da_hour = 0, da_minute = 0, da_second = 0\<rparr> =
      (0, u, 0)" for u
    by (simp_all add: AE_def)
  note run = activation_reset_spec [OF this]
  show ?thesis using run [of "0x60000000"] run [of "0x5F000000"] by (auto simp: AE_def)
qed

definition device :: "string \<Rightarrow> addr \<Rightarrow> addr \<Rightarrow> SceNetPsDeviceConfig" where
  "device name d nx = \<lparr>nc_data_0x00 = d, nc_next = nx, nc_device = bytes_of name @ replicate (0x10 - length name) 0,
     nc_data_0x38 = 0x10\<rparr>"

text \<open>Two devices: \<open>lo0\<close> at 0x100 and \<open>wlan0\<close> at 0x200.\<close>

definition net0 :: "unit netps_state" where
  "net0 = \<lparr>ns_configs = [0x100 \<mapsto> device ''lo0'' 0x300 0x200, 0x200 \<mapsto> device ''wlan0'' 0x304 0],
     ns_words = [0x40 \<mapsto> 0x100, 0x300 \<mapsto> 0x1000, 0x304 \<mapsto> 0x2000], ns_bytes = \<lambda>_. Some 0xFF,
     ns_mac = [2, 0, 0, 0, 0, 1], ns_k = ()\<rparr>"

lemma clear_netps_mac_address_spec_witness:
  "\<exists>s'. clear_netps_mac_address 0x40 net0 = Some (0, s') \<and> ns_bytes s' 0x2061 = Some 1 \<and>
     ns_bytes s' 0x2062 = Some 0xFF \<and> ns_bytes s' 0x105C = Some 0xFF"
proof -
  have n: "ns_words net0 0x40 = Some 0x100" "chain (config_next net0) 0x100 [0x100, 0x200]" "length (ns_mac net0) = 6"
    by (simp_all add: net0_def config_next_def device_def)
  have c: "\<exists>d. ns_words net0 (nc_data_0x00 c) = Some d \<and> (\<forall>i < 6. ns_bytes net0 (d + 0x5C + of_nat i) \<noteq> None)"
    if "p \<in> set [0x100, 0x200]" "ns_configs net0 p = Some c" for p c
    using that by (auto simp: net0_def device_def)
  have f: "List.find (\<lambda>p. \<exists>c. ns_configs net0 p = Some c \<and> wlan_config c) [0x100, 0x200] = Some 0x200"
    by (simp add: net0_def device_def wlan_config_def bytes_of_def)
  from clear_netps_mac_address_spec [OF n(1,2) c n(3)]
  show ?thesis unfolding f by (auto simp: net0_def device_def)
qed

section \<open>A dump\<close>

lemma hex_dump_spec_witness:
  "(\<exists>ms. hex_dump (Some [0x12, 0xA0, 0x0F]) 2 = Some ms \<and>
     compact (concat (map (line_text (\<lambda>_. [])) ms)) = hex2 0x12 @ hex2 0xA0) \<and>
   hex_dump (Some [0x12, 0xA0, 0x0F]) 4 = None"
proof -
  have "0 \<le> sint (2 :: s32)" "0 \<le> sint (4 :: s32)" by simp_all
  from hex_dump_spec [OF this(1), of "[0x12, 0xA0, 0x0F]" "\<lambda>_. []"]
    hex_dump_spec [OF this(2), of "[0x12, 0xA0, 0x0F]" "\<lambda>_. []"]
  show ?thesis by (auto simp: numeral_2_eq_2)
qed

section \<open>Threads\<close>


end
