(* ===== verification/Layout_Analysis.thy ===== *)
theory Layout_Analysis
  imports C_Layout
begin

text \<open>
  The structures that the analysis modules and the smaller tools declare for data of the kernel, member
  by member.  The class object of the system memory manager is a type of the SDK and a parameter.
\<close>

section \<open>SceExfatfsAnalysis\<close>

definition SceExfatfsPartCtx_layout :: "ctype" where
  "SceExfatfsPartCtx_layout = Struct [
    (''blk_name'', Ptr), (''unk_4'', Int32), (''unk_8'', Int32), (''rsvd_sector'', Int32),
    (''unk_10'', Int32), (''available_clusters'', Int32), (''pMbr'', Ptr), (''unk_1C'', Int32),
    (''unk_20'', Int32), (''unk_24'', Int32), (''unk_28'', Ptr), (''unk_2C'', Int32),
    (''unk_30'', Int32), (''unk_34'', Int32), (''unk_38'', Int32), (''unk_3C'', Int32),
    (''unk_40'', Int32), (''unk_44'', Int32), (''unk_48'', Int32), (''unk_4C'', Int32),
    (''unk_50'', Int32), (''unk_54'', Int32), (''unk_58'', Int32), (''unk_5C'', Int32),
    (''unk_60'', Int32), (''unk_64'', Int32), (''unk_68'', Int32), (''unk_6C'', Int32),
    (''unk_70'', Int32), (''unk_74'', Int32), (''unk_78'', Int32), (''unk_7C'', Int32),
    (''unk_80'', Int32), (''unk_84'', Int32), (''unk_88'', Int32), (''unk_8C'', Int32),
    (''unk_90'', Int32), (''unk_94'', Int32), (''unk_98'', Int32), (''unk_9C'', Int32),
    (''unk_A0'', Int32), (''unk_A4'', Int32), (''unk_A8'', Int32), (''unk_AC'', Int32),
    (''unk_B0'', Int32), (''unk_B4'', Int32), (''unk_B8'', Int32), (''unk_BC'', Int32),
    (''unk_C0'', Int32), (''unk_C4'', Int32), (''blk_size'', Int32), (''unk_CC'', Int32),
    (''data_0xD0'', (Array Int8 0x80)), (''data_0x150'', (Array Int8 0x208)),
    (''data_0x358'', (Array Int8 0x8)), (''data_0x360'', (Array Int8 0x40)),
    (''data_0x3A0'', (Array Int8 0x40)), (''fast_mutex_SceExfatfsRoot'', Int32),
    (''unk_0x3E4'', Ptr), (''unk_0x3E8'', Int32), (''unk_0x3EC'', Ptr),
    (''data2'', (Array Int8 0x40))]"

definition SceExfatfsDateTime_layout :: "ctype" where
  "SceExfatfsDateTime_layout = Struct [
    (''year'', Int16), (''month'', Int16), (''day'', Int16), (''hour'', Int16),
    (''minute'', Int16), (''second'', Int16)]"

definition SceExfatfsFileCache_layout :: "ctype" where
  "SceExfatfsFileCache_layout = Struct [
    (''path'', (Array Int16 0x104)), (''pFileName'', Ptr), (''data_0x20C'', Ptr),
    (''mode'', Int32), (''attr'', Int32), (''size'', Int64),
    (''ctime'', SceExfatfsDateTime_layout), (''atime'', SceExfatfsDateTime_layout),
    (''mtime'', SceExfatfsDateTime_layout), (''cluster_start'', Int32), (''data_0x248'', Int32),
    (''data_0x24C'', Int32), (''data_0x250'', Int32), (''data_0x254'', Int32),
    (''data_0x258'', Int32), (''data_0x25C'', Int32), (''data_0x260'', Int32),
    (''data_0x264'', Int32), (''data_0x268'', Int32), (''data_0x26C'', Int32),
    (''data_0x270'', Int32), (''data_0x274'', Int32), (''data_0x278'', Int32),
    (''data_0x27C'', Ptr), (''data_0x280'', Int32), (''data_0x284'', Int32),
    (''data_0x288'', Int32), (''data_0x28C'', Int32)]"

definition SceExfatfsMbr_layout :: "ctype" where
  "SceExfatfsMbr_layout = Struct [
    (''data'', (Array Int8 0x200))]"

definition SceExfatfsSharedResource_layout :: "ctype" where
  "SceExfatfsSharedResource_layout = Struct [
    (''part_ctx'', (Array SceExfatfsPartCtx_layout 0xF)),
    (''mbr'', (Array SceExfatfsMbr_layout 0xF)), (''data_0x5CD0'', Ptr),
    (''data_0x5CD4'', Int32), (''fnode'', (Array SceExfatfsFileCache_layout 0x400)),
    (''fnode_ReserveUnusedFd'', (Array SceExfatfsFileCache_layout 0xC00)),
    (''data_0x295CD8'', (Array Int32 0x1E)), (''data_0x295D50'', Int32),
    (''data_0x295D54'', Int32), (''data_0x295D58'', Int32), (''data_0x295D5C'', Int32)]"

definition SceVfsAdd_layout :: "ctype" where
  "SceVfsAdd_layout = Struct [
    (''func_ptr1'', Ptr), (''device'', Ptr), (''data_0x08'', Int32), (''data_0x0C'', Int32),
    (''data_0x10'', Int32), (''func_ptr2'', Ptr), (''data_0x18'', Int32), (''prev'', Ptr)]"

definition SceUIDIoMountEventClass_layout :: "ctype" where
  "SceUIDIoMountEventClass_layout = Struct [
    (''sce_rsvd'', (Array Int32 2)), (''data_0x08'', Int32), (''data_0x0C'', Ptr),
    (''data_0x10'', Ptr), (''data_0x14'', Ptr), (''data_0x18'', Int32), (''data_0x1C'', Int32),
    (''data_0x20'', Int32), (''data_0x24'', Int32), (''data_0x28'', Ptr), (''data_0x2C'', Ptr),
    (''data_0x30'', Int32), (''data_0x34'', Int32), (''data_0x38'', Int32),
    (''data_0x3C'', Int32), (''data_0x40'', Int32), (''data_0x44'', Ptr), (''next'', Ptr)]"

definition SceIoPartConfig_layout :: "ctype" where
  "SceIoPartConfig_layout = Struct [
    (''device'', Ptr), (''blockdev_fs'', Ptr), (''device_block'', (Array Ptr 2)),
    (''mount_id'', Int32)]"

definition SceIoPartEntry_ent_layout :: ctype where
  "SceIoPartEntry_ent_layout = Struct [
    (''unk'', Int32), (''config'', Ptr)]"

definition SceIoPartEntry_layout :: "ctype" where
  "SceIoPartEntry_layout = Struct [
    (''mount_id'', Int32), (''dev_unix'', Ptr), (''data_0x0C'', Int32),
    (''dev_major'', (Array Int16 2)), (''dev_minor'', (Array Int8 4)), (''dev_fs'', Ptr),
    (''ent'', (Array SceIoPartEntry_ent_layout 2)), (''mount_event'', Ptr),
    (''data_0x2C'', Int32), (''data_0x30'', Int32), (''data_0x34'', Int32)]"

text \<open>The sizes that the source gives in comments.\<close>

definition exfat_sizes :: "(string \<times> ctype \<times> nat) list" where
  "exfat_sizes =
    [(''SceExfatfsPartCtx'', SceExfatfsPartCtx_layout, 0x430),
     (''SceExfatfsDateTime'', SceExfatfsDateTime_layout, 0xC),
     (''SceExfatfsFileCache'', SceExfatfsFileCache_layout, 0x290),
     (''SceExfatfsMbr'', SceExfatfsMbr_layout, 0x200),
     (''SceExfatfsSharedResource'', SceExfatfsSharedResource_layout, 0x295D60),
     (''SceVfsAdd'', SceVfsAdd_layout, 0x20),
     (''SceUIDIoMountEventClass'', SceUIDIoMountEventClass_layout, 0x4C),
     (''SceIoPartEntry'', SceIoPartEntry_layout, 0x38)]"

section \<open>SceSdstorAnalysis\<close>

definition SceSdstorMbr_layout :: "ctype" where
  "SceSdstorMbr_layout = Struct [
    (''data'', (Array Int8 0x200))]"

definition ScePartitionEntrie_layout :: "ctype" where
  "ScePartitionEntrie_layout = Packed [
    (''start_lba'', Int32), (''n_sectors'', Int32), (''part_id'', Int8), (''part_type'', Int8),
    (''part_flag'', Int8), (''flag'', Int16), (''unused'', Int32)]"

definition SceSdstorPartInfo_layout :: "ctype" where
  "SceSdstorPartInfo_layout = Struct [
    (''start_lba'', Int32), (''n_sectors'', Int32), (''data_0x00'', Ptr), (''data_0x04'', Ptr),
    (''id'', (Array Int8 4)), (''flags'', Int32), (''unk_0x10'', Int32)]"

definition SceSdstorDeviceContext_layout :: "ctype" where
  "SceSdstorDeviceContext_layout = Struct [
    (''fast_mutex_SceSdStorPartitionTable'', (Array Int8 0x40)), (''unk_40'', Int32),
    (''dev'', Ptr), (''unk_48'', Int32), (''device_sectors'', Int32), (''unk_50'', Int32),
    (''mbr_ptr'', Ptr), (''partitions'', (Array SceSdstorPartInfo_layout 17)),
    (''unk_234'', Int8), (''unk_235'', Int8), (''unk_236'', Int8), (''unk_237'', Int8)]"

text \<open>The sizes that the source gives in comments.\<close>

definition sdstor_sizes :: "(string \<times> ctype \<times> nat) list" where
  "sdstor_sizes =
    [(''SceSdstorMbr'', SceSdstorMbr_layout, 0x200),
     (''ScePartitionEntrie'', ScePartitionEntrie_layout, 0x11),
     (''SceSdstorPartInfo'', SceSdstorPartInfo_layout, 0x1C),
     (''SceSdstorDeviceContext'', SceSdstorDeviceContext_layout, 0x238)]"

section \<open>SceIofilemgrAnalysis\<close>

definition SceIofilemgrKpls_layout :: "ctype" where
  "SceIofilemgrKpls_layout = Struct [
    (''file_open_max_num'', Int32), (''cpu_atomic_0x04'', Int32), (''data_0x08'', Int32),
    (''cpu_atomic_0x0C'', Int32), (''process_status'', Int32),
    (''process_default_priority'', Int32), (''data_0x18'', Int32),
    (''dir_open_max_level'', Int32), (''cpu_atomic_0x20'', Int32), (''cpu_atomic_0x24'', Int32)]"

text \<open>The sizes that the source gives in comments.\<close>

definition kpls_sizes :: "(string \<times> ctype \<times> nat) list" where
  "kpls_sizes =
    [(''SceIofilemgrKpls'', SceIofilemgrKpls_layout, 0x28)]"

section \<open>iofilemgr_test\<close>

definition iot_vfs_fd_lock_layout :: "ctype" where
  "iot_vfs_fd_lock_layout = Struct [
    (''mutex_SceVfsFdLock'', Int32), (''cond_SceVfsFdCond'', Int32), (''unk_8'', Int32),
    (''toggle'', Int32)]"

definition iot_SceVfsObjFileInfo_layout :: "ctype" where
  "iot_SceVfsObjFileInfo_layout = Struct [
    (''file'', Ptr), (''file_len'', Int32), (''some_index'', Int32), (''unkC'', Int32),
    (''unk10'', Int32), (''unk14'', Int32), (''flags'', Int32), (''mode'', Int32)]"

definition iot_vfs_node_70_layout :: "ctype" where
  "iot_vfs_node_70_layout = Struct [
    (''unk_0'', Ptr), (''unk_4'', Ptr), (''unk_8'', Ptr), (''unk_C'', Ptr), (''unk_10'', Ptr),
    (''unk_14'', Int32), (''file_name_len'', Int32), (''file_name'', Ptr)]"

definition iot_SceVfsNode_layout :: "ctype" where
  "iot_SceVfsNode_layout = Struct [
    (''unk_0'', Int32), (''tid_4'', Int32), (''some_counter_8'', Int32),
    (''event_flag_SceVfsVnode'', Int32), (''evid_bits'', Int32), (''unk_14'', Int32),
    (''unk_18'', Int32), (''unk_1C'', Int32), (''data1'', (Array Int8 0x20)), (''ops'', Ptr),
    (''unk_44'', Int32), (''dev_info'', Ptr), (''mount'', Ptr), (''prev_node'', Ptr),
    (''unk_54'', Ptr), (''some_counter_58'', Int32), (''unk_5C'', Ptr), (''path'', Ptr),
    (''unk_64'', Int32), (''unk_68'', Int32), (''pool_uid'', Int32), (''unk_70'', Ptr),
    (''unk_74'', Int32), (''unk_78'', Int32), (''unk_7C'', Int32), (''unk_80'', Int32),
    (''unk_84'', Int32), (''unk_88'', Int32), (''unk_8C'', Int32), (''obj_internal_90'', Ptr),
    (''maybe_internal_obj_count_94'', Int32), (''child_node'', Ptr), (''unk_9C'', Int32),
    (''data2'', (Array Int8 0x30)), (''unk_D0'', Int32), (''data3'', (Array Int8 0x2C))]"

definition iot_SceUIDVfsFileClassInternal_layout :: "ctype" where
  "iot_SceUIDVfsFileClassInternal_layout = Struct [
    (''unk0'', Int32), (''unk4'', Int32), (''offset'', Int64), (''flags'', Int32),
    (''pid1'', Int32), (''node'', Ptr), (''prev_obj'', Ptr), (''device_handle'', Ptr),
    (''unk24'', Int16), (''unk26'', Int8), (''unk27'', Int8), (''fd_lock_ptr'', Ptr),
    (''devMinor'', Int32), (''pFileInfo'', Ptr), (''unk_0x34'', Int32), (''unk_0x38'', Int32),
    (''pid2'', Int32)]"

definition iot_SceUIDVfsFileClassObj_layout :: "ctype" where
  "iot_SceUIDVfsFileClassObj_layout = Struct [
    (''sce_rsvd'', (Array Int32 2)), (''info'', iot_SceUIDVfsFileClassInternal_layout)]"

text \<open>The sizes that the source gives in comments.\<close>

definition iot_sizes :: "(string \<times> ctype \<times> nat) list" where
  "iot_sizes =
    [(''vfs_node_70'', iot_vfs_node_70_layout, 0x20),
     (''SceVfsNode'', iot_SceVfsNode_layout, 0x100),
     (''SceUIDVfsFileClassInternal'', iot_SceUIDVfsFileClassInternal_layout, 0x40),
     (''SceUIDVfsFileClassObj'', iot_SceUIDVfsFileClassObj_layout, 0x48)]"

section \<open>sysmem_guid_tester\<close>

definition SceKernelUIDHeapClass_layout :: "ctype \<Rightarrow> ctype" where
  "SceKernelUIDHeapClass_layout cls = Struct [
    (''sceUIDHeapClass'', cls), (''data_0x2C'', Int32), (''data_0x30'', Int32)]"

definition SceKernelUIDFixedHeapClass_layout :: "ctype \<Rightarrow> ctype" where
  "SceKernelUIDFixedHeapClass_layout cls = Struct [
    (''sceUIDFixedHeapClass'', cls), (''data_0x2C'', Int32), (''data_0x30'', Int32),
    (''data_0x34'', Int32), (''data_0x38'', Int32)]"

definition SceKernelSystemMemory_address_base_layout :: ctype where
  "SceKernelSystemMemory_address_base_layout = Struct [
    (''base'', Int32), (''length'', Int32)]"

definition SceKernelSystemMemory_layout :: "ctype" where
  "SceKernelSystemMemory_layout = Struct [
    (''size'', Int32), (''data_0x04'', Int32), (''data_0x08'', Ptr), (''data_0x0C'', Ptr),
    (''data_0x10'', Ptr), (''data_0x14'', Ptr), (''data_0x18'', Int32), (''data_0x1C'', Int32),
    (''data_0x20'', Int32), (''data_0x24'', Int32), (''data_0x28'', Int32),
    (''data_0x2C'', Int32), (''data_0x30'', Int32), (''data_0x34'', Int32), (''data_0x38'', Ptr),
    (''data_0x3C'', Int32), (''data_0x40'', Ptr), (''pKernelHeapObject'', Ptr),
    (''data_0x48'', Ptr), (''number_of_memory_base_list'', Int32),
    (''address_base'', (Array SceKernelSystemMemory_address_base_layout 4)),
    (''data_0x70'', Int32), (''data_0x74'', Int32), (''data_0x78'', Int32),
    (''data_0x7C'', Int32), (''data_0x80'', Int32), (''data_0x84'', Int32),
    (''data_0x88'', Int32), (''data_0x8C'', Int32), (''data_0x90'', Int32),
    (''data_0x94'', Int32), (''pUIDClass'', Ptr), (''pUIDDLinkClass'', Ptr),
    (''pKernelUIDHeapClass'', Ptr), (''pKernelUIDFixedHeapClass'', Ptr), (''data_0xA8'', Ptr),
    (''data_0xAC'', Int32), (''pUIDMemBlockClass'', Ptr), (''pUIDTinyPartitionClass'', Ptr),
    (''pUIDPartitionClass'', Ptr), (''data_0xBC'', Ptr), (''data_0xC0'', Ptr),
    (''data_0xC4'', Int32), (''data_0xC8'', Int32), (''kernelHeapUncachedId'', Int32),
    (''data_0xD0'', Ptr), (''data_0xD4'', Ptr), (''data_0xD8'', Int32)]"

definition SceGUIDEntry_layout :: "ctype" where
  "SceGUIDEntry_layout = Struct [
    (''pObject'', Ptr), (''pid'', Int32), (''attr'', Int32), (''unused'', Int8),
    (''uid_register'', Int8), (''level'', Int16), (''guid'', Int32), (''unk_0x14'', Int32),
    (''unk_0x18'', Ptr), (''name'', Ptr)]"

definition SceUIDEntryHeapObject_layout :: "ctype" where
  "SceUIDEntryHeapObject_layout = Struct [
    (''pUserdata'', Ptr), (''pClass'', Ptr), (''data_0x08'', Int32), (''data_0x0C'', Int32),
    (''data_0x10'', Int32), (''data_0x14'', Int32), (''data_0x18'', Int32),
    (''data_0x1C'', Int32), (''entrySize'', Int16), (''data_0x22'', Int16),
    (''data_0x24'', Int16), (''data_0x26'', Int16), (''data_0x28'', Int32), (''magic'', Int32),
    (''data_0x30'', Int32), (''data_0x34'', Int32), (''data_0x38'', Ptr), (''data_0x3C'', Ptr),
    (''data_0x40'', Int32), (''data_0x44'', Int16), (''data_0x46'', Int16),
    (''data_0x48'', Int32), (''data_0x4C'', Int32), (''data_0x50'', (Array Int32 24))]"

text \<open>The sizes that the source gives in comments.\<close>

definition guid_sizes :: "ctype \<Rightarrow> (string \<times> ctype \<times> nat) list" where
  "guid_sizes cls =
    [(''SceKernelUIDHeapClass'', SceKernelUIDHeapClass_layout cls, 0x34),
     (''SceKernelUIDFixedHeapClass'', SceKernelUIDFixedHeapClass_layout cls, 0x3C),
     (''SceKernelSystemMemory'', SceKernelSystemMemory_layout, 0xDC),
     (''SceGUIDEntry'', SceGUIDEntry_layout, 0x20),
     (''SceUIDEntryHeapObject'', SceUIDEntryHeapObject_layout, 0xB0)]"

section \<open>SceUsbstorVstorFat16\<close>

definition SceUsbstorContext_layout :: "ctype" where
  "SceUsbstorContext_layout = Struct [
    (''data_0x00'', (Array Int32 3)), (''fd'', Int32), (''nSector'', Int32),
    (''data_0x14'', (Array Int32 3)), (''data_0x20'', (Array Int32 4)),
    (''data_0x30'', (Array Int32 2)), (''evf_id'', Int32), (''usbstorVstor_memid'', Int32),
    (''usbstorExt_memid'', Int32), (''usbstorExt_base'', Ptr), (''data_0x48'', Int32),
    (''usbstorVstor_base'', Ptr), (''data_0x50'', Int32), (''usb_type'', Int32),
    (''path'', (Array Int8 0x100))]"

text \<open>The sizes that the source gives in comments.\<close>

definition usbstor_sizes :: "(string \<times> ctype \<times> nat) list" where
  "usbstor_sizes =
    [(''SceUsbstorContext'', SceUsbstorContext_layout, 0x158)]"

section \<open>mac_address_spoofer\<close>

definition SceNetPsDeviceConfig_layout :: "ctype" where
  "SceNetPsDeviceConfig_layout = Struct [
    (''data_0x00'', Ptr), (''next'', Ptr), (''data_0x08'', Ptr), (''data_0x0C'', Ptr),
    (''data_0x10'', Ptr), (''device'', (Array Int8 0x10)), (''data_0x24'', Int32),
    (''data_0x28'', Int32), (''data_0x2C'', Int32), (''data_0x30'', Int32),
    (''data_0x34'', Int32), (''data_0x38'', Int16), (''data_0x3A'', Int8), (''data_0x3B'', Int8)]"

section \<open>activate_reset\<close>

definition SceNVSKitActivationData_layout :: "ctype" where
  "SceNVSKitActivationData_layout = Struct [
    (''magic'', (Array Int8 4)), (''issue_no'', Int32), (''end_date'', Int32),
    (''start_date'', Int32), (''cmac_hash'', (Array Int8 0x10))]"

text \<open>The sizes that the source gives in comments.\<close>

definition activation_sizes :: "(string \<times> ctype \<times> nat) list" where
  "activation_sizes =
    [(''SceNVSKitActivationData'', SceNVSKitActivationData_layout, 0x20)]"

section \<open>update_sw_list\<close>

definition SceSblUsSwPscode_layout :: "ctype" where
  "SceSblUsSwPscode_layout = Struct [
    (''product_code_upper'', Int16), (''product_code_lower'', Int16),
    (''product_sub_code'', Int16), (''data_0x06'', Int16), (''number'', Int32)]"

definition SceSblUsSwFw_layout :: "ctype" where
  "SceSblUsSwFw_layout = Struct [
    (''fw1'', Int32), (''fw2'', Int32), (''flags'', Int32)]"

text \<open>The sizes that the source gives in comments.\<close>

definition sw_list_sizes :: "(string \<times> ctype \<times> nat) list" where
  "sw_list_sizes =
    [(''SceSblUsSwPscode'', SceSblUsSwPscode_layout, 0xC),
     (''SceSblUsSwFw'', SceSblUsSwFw_layout, 0xC)]"

section \<open>FixedHeap-Test\<close>

definition SceKernelFixedHeapHook_layout :: "ctype" where
  "SceKernelFixedHeapHook_layout = Struct [
    (''unk_0x00'', Int32), (''funcAlloc'', Ptr), (''funcFree'', Ptr)]"

text \<open>The sizes that the source gives in comments.\<close>

definition fixed_heap_sizes :: "(string \<times> ctype \<times> nat) list" where
  "fixed_heap_sizes =
    [(''SceKernelFixedHeapHook'', SceKernelFixedHeapHook_layout, 0xC)]"

section \<open>PafCustomMalloc\<close>

definition ScePafInitParam_layout :: "ctype" where
  "ScePafInitParam_layout = Struct [
    (''global_heap_size'', Int32), (''unk_0x04'', Int32), (''unk_0x08'', Int32),
    (''is_cdialog_mode'', Int32), (''heap_option_align'', Int32), (''heap_option_unk'', Int32)]"

text \<open>The sizes that the source gives in comments.\<close>

definition paf_sizes :: "(string \<times> ctype \<times> nat) list" where
  "paf_sizes =
    [(''ScePafInitParam'', ScePafInitParam_layout, 0x18)]"

section \<open>Sizes and offsets\<close>

lemmas analysis_layouts =
  SceExfatfsPartCtx_layout_def SceExfatfsDateTime_layout_def SceExfatfsFileCache_layout_def
  SceExfatfsMbr_layout_def SceExfatfsSharedResource_layout_def SceVfsAdd_layout_def
  SceUIDIoMountEventClass_layout_def SceIoPartConfig_layout_def SceIoPartEntry_ent_layout_def
  SceIoPartEntry_layout_def SceSdstorMbr_layout_def ScePartitionEntrie_layout_def
  SceSdstorPartInfo_layout_def SceSdstorDeviceContext_layout_def SceIofilemgrKpls_layout_def
  iot_vfs_fd_lock_layout_def iot_SceVfsObjFileInfo_layout_def iot_vfs_node_70_layout_def
  iot_SceVfsNode_layout_def iot_SceUIDVfsFileClassInternal_layout_def
  iot_SceUIDVfsFileClassObj_layout_def SceKernelUIDHeapClass_layout_def
  SceKernelUIDFixedHeapClass_layout_def SceKernelSystemMemory_address_base_layout_def
  SceKernelSystemMemory_layout_def SceGUIDEntry_layout_def SceUIDEntryHeapObject_layout_def
  SceUsbstorContext_layout_def SceNetPsDeviceConfig_layout_def SceNVSKitActivationData_layout_def
  SceSblUsSwPscode_layout_def SceSblUsSwFw_layout_def SceKernelFixedHeapHook_layout_def
  ScePafInitParam_layout_def

definition analysis_sizes :: "(string \<times> ctype \<times> nat) list" where
  "analysis_sizes = exfat_sizes @ sdstor_sizes @ kpls_sizes @ iot_sizes @ usbstor_sizes @ activation_sizes @
     sw_list_sizes @ fixed_heap_sizes @ paf_sizes"

lemmas analysis_size_lists = analysis_sizes_def exfat_sizes_def sdstor_sizes_def kpls_sizes_def iot_sizes_def
  usbstor_sizes_def activation_sizes_def sw_list_sizes_def fixed_heap_sizes_def paf_sizes_def

text \<open>
  Every size that a comment gives is right, and every member whose name gives an offset stands there,
  but for the three of \<open>SceSdstorPartInfo\<close> whose names count from its third member.
\<close>

lemma SceExfatfsPartCtx_size [simp]: "csize SceExfatfsPartCtx_layout = 0x430" "calign SceExfatfsPartCtx_layout = 4"
  by (simp_all add: SceExfatfsPartCtx_layout_def align_up_def)

lemma SceExfatfsDateTime_size [simp]: "csize SceExfatfsDateTime_layout = 0xC" "calign SceExfatfsDateTime_layout = 2"
  by (simp_all add: SceExfatfsDateTime_layout_def align_up_def numeral_2_eq_2 [symmetric])

lemma SceExfatfsFileCache_size [simp]: "csize SceExfatfsFileCache_layout = 0x290" "calign SceExfatfsFileCache_layout = 8"
  by (simp_all add: SceExfatfsFileCache_layout_def align_up_def)

lemma SceExfatfsMbr_size [simp]: "csize SceExfatfsMbr_layout = 0x200" "calign SceExfatfsMbr_layout = 1"
  by (simp_all add: SceExfatfsMbr_layout_def align_up_def)

lemma SceExfatfsSharedResource_size [simp]: "csize SceExfatfsSharedResource_layout = 0x295D60" "calign SceExfatfsSharedResource_layout = 8"
  by (simp_all add: SceExfatfsSharedResource_layout_def align_up_def)

lemma SceVfsAdd_size [simp]: "csize SceVfsAdd_layout = 0x20" "calign SceVfsAdd_layout = 4"
  by (simp_all add: SceVfsAdd_layout_def align_up_def)

lemma SceUIDIoMountEventClass_size [simp]: "csize SceUIDIoMountEventClass_layout = 0x4C" "calign SceUIDIoMountEventClass_layout = 4"
  by (simp_all add: SceUIDIoMountEventClass_layout_def align_up_def)

lemma SceIoPartEntry_size [simp]: "csize SceIoPartEntry_layout = 0x38" "calign SceIoPartEntry_layout = 4"
  by (simp_all add: SceIoPartEntry_layout_def SceIoPartEntry_ent_layout_def align_up_def)

lemma SceSdstorMbr_size [simp]: "csize SceSdstorMbr_layout = 0x200" "calign SceSdstorMbr_layout = 1"
  by (simp_all add: SceSdstorMbr_layout_def align_up_def)

lemma ScePartitionEntrie_size [simp]: "csize ScePartitionEntrie_layout = 0x11" "calign ScePartitionEntrie_layout = 1"
  by (simp_all add: ScePartitionEntrie_layout_def align_up_def)

lemma SceSdstorPartInfo_size [simp]: "csize SceSdstorPartInfo_layout = 0x1C" "calign SceSdstorPartInfo_layout = 4"
  by (simp_all add: SceSdstorPartInfo_layout_def align_up_def)

lemma SceSdstorDeviceContext_size [simp]: "csize SceSdstorDeviceContext_layout = 0x238" "calign SceSdstorDeviceContext_layout = 4"
  by (simp_all add: SceSdstorDeviceContext_layout_def align_up_def)

lemma SceIofilemgrKpls_size [simp]: "csize SceIofilemgrKpls_layout = 0x28" "calign SceIofilemgrKpls_layout = 4"
  by (simp_all add: SceIofilemgrKpls_layout_def align_up_def)

lemma iot_vfs_node_70_size [simp]: "csize iot_vfs_node_70_layout = 0x20" "calign iot_vfs_node_70_layout = 4"
  by (simp_all add: iot_vfs_node_70_layout_def align_up_def)

lemma iot_SceVfsNode_size [simp]: "csize iot_SceVfsNode_layout = 0x100" "calign iot_SceVfsNode_layout = 4"
  by (simp_all add: iot_SceVfsNode_layout_def align_up_def)

lemma iot_SceUIDVfsFileClassInternal_size [simp]: "csize iot_SceUIDVfsFileClassInternal_layout = 0x40" "calign iot_SceUIDVfsFileClassInternal_layout = 8"
  by (simp_all add: iot_SceUIDVfsFileClassInternal_layout_def align_up_def)

lemma iot_SceUIDVfsFileClassObj_size [simp]: "csize iot_SceUIDVfsFileClassObj_layout = 0x48" "calign iot_SceUIDVfsFileClassObj_layout = 8"
  by (simp_all add: iot_SceUIDVfsFileClassObj_layout_def align_up_def)

lemma SceKernelSystemMemory_size [simp]: "csize SceKernelSystemMemory_layout = 0xDC" "calign SceKernelSystemMemory_layout = 4"
  by (simp_all add: SceKernelSystemMemory_layout_def SceKernelSystemMemory_address_base_layout_def align_up_def)

lemma SceGUIDEntry_size [simp]: "csize SceGUIDEntry_layout = 0x20" "calign SceGUIDEntry_layout = 4"
  by (simp_all add: SceGUIDEntry_layout_def align_up_def)

lemma SceUIDEntryHeapObject_size [simp]: "csize SceUIDEntryHeapObject_layout = 0xB0" "calign SceUIDEntryHeapObject_layout = 4"
  by (simp_all add: SceUIDEntryHeapObject_layout_def align_up_def)

lemma SceUsbstorContext_size [simp]: "csize SceUsbstorContext_layout = 0x158" "calign SceUsbstorContext_layout = 4"
  by (simp_all add: SceUsbstorContext_layout_def align_up_def)

lemma SceNVSKitActivationData_size [simp]: "csize SceNVSKitActivationData_layout = 0x20" "calign SceNVSKitActivationData_layout = 4"
  by (simp_all add: SceNVSKitActivationData_layout_def align_up_def)

lemma SceSblUsSwPscode_size [simp]: "csize SceSblUsSwPscode_layout = 0xC" "calign SceSblUsSwPscode_layout = 4"
  by (simp_all add: SceSblUsSwPscode_layout_def align_up_def)

lemma SceSblUsSwFw_size [simp]: "csize SceSblUsSwFw_layout = 0xC" "calign SceSblUsSwFw_layout = 4"
  by (simp_all add: SceSblUsSwFw_layout_def align_up_def)

lemma SceKernelFixedHeapHook_size [simp]: "csize SceKernelFixedHeapHook_layout = 0xC" "calign SceKernelFixedHeapHook_layout = 4"
  by (simp_all add: SceKernelFixedHeapHook_layout_def align_up_def)

lemma ScePafInitParam_size [simp]: "csize ScePafInitParam_layout = 0x18" "calign ScePafInitParam_layout = 4"
  by (simp_all add: ScePafInitParam_layout_def align_up_def)

lemma analysis_sizes_right: "wrong_sizes analysis_sizes = []"
  by (simp add: analysis_size_lists)

lemma guid_class_sizes:
  assumes "csize cls = 0x2C" "calign cls = 4"
  shows "csize (SceKernelUIDHeapClass_layout cls) = 0x34"
    "csize (SceKernelUIDFixedHeapClass_layout cls) = 0x3C"
  using assms by (simp_all add: SceKernelUIDHeapClass_layout_def SceKernelUIDFixedHeapClass_layout_def
    align_up_def)


text \<open>The names that give an offset.\<close>

lemmas name_defs = misnamed_def named_offset_def hex_digit_def Let_def align_up_def

lemma part_info_names: "misnamed 0 SceSdstorPartInfo_layout = [''data_0x00'', ''data_0x04'', ''unk_0x10'']"
  by (simp add: SceSdstorPartInfo_layout_def name_defs)

lemma file_cache_names: "misnamed 0 SceExfatfsFileCache_layout = []"
  by (simp add: SceExfatfsFileCache_layout_def name_defs)

lemma guid_entry_names: "misnamed 0 SceGUIDEntry_layout = []"
  by (simp add: SceGUIDEntry_layout_def name_defs)

lemma entry_heap_names: "misnamed 0 SceUIDEntryHeapObject_layout = []"
  by (simp add: SceUIDEntryHeapObject_layout_def name_defs)

lemma system_memory_names: "misnamed 0 SceKernelSystemMemory_layout = []"
  by (simp add: SceKernelSystemMemory_layout_def SceKernelSystemMemory_address_base_layout_def name_defs)

end
