(* ===== verification/Op_Tables.thy ===== *)
theory Op_Tables
  imports Layout_Vfs
begin

text \<open>
  The tables of operations with which both virtual file systems register themselves, on the layouts of
  the table structures, and the layouts of the other structures that the programs declare in their
  main files.
\<close>

section \<open>Structures of SceVfsMountPoC\_old\<close>

definition poc_SceVfsMount2_layout :: "ctype" where
  "poc_SceVfsMount2_layout = Struct [
    (''unit'', Ptr), (''device1'', Ptr), (''device2'', Ptr), (''data_0x0C'', Int32),
    (''data_0x10'', Int32)]"

definition poc_SceVfsMount_layout :: "ctype" where
  "poc_SceVfsMount_layout = Struct [
    (''device'', Ptr), (''data_0x04'', Int32), (''data_0x08'', Int32), (''data_0x0C'', Int32),
    (''data_0x10'', Ptr), (''data_0x14'', Int32), (''data_0x18'', Ptr), (''data_0x1C'', Int32)]"

definition poc_SceVfsUmount_layout :: "ctype" where
  "poc_SceVfsUmount_layout = Struct [
    (''device'', Ptr), (''data_0x04'', Int32)]"

definition poc_SceVfsTable_layout :: "ctype" where
  "poc_SceVfsTable_layout = Struct [
    (''func00'', Ptr), (''func04'', Ptr), (''func08'', Ptr), (''func0C'', Ptr),
    (''func10'', Ptr), (''func14'', Ptr), (''func18'', Ptr), (''func1C'', Ptr),
    (''func20'', Ptr), (''func24'', Ptr), (''func28'', Ptr), (''func2C'', Ptr), (''func30'', Ptr)]"

definition poc_SceVfsTable2_layout :: "ctype" where
  "poc_SceVfsTable2_layout = Struct [
    (''func00'', Ptr), (''func04'', Ptr), (''func08'', Ptr), (''func0C'', Ptr),
    (''func10'', Ptr), (''func14'', Ptr), (''func18'', Ptr), (''func1C'', Ptr),
    (''func20'', Ptr), (''func24'', Ptr), (''func28'', Ptr), (''func2C'', Ptr),
    (''func30'', Ptr), (''func34'', Ptr), (''func38'', Ptr), (''func3C'', Ptr),
    (''func40'', Ptr), (''func44'', Ptr), (''func48'', Ptr), (''func4C'', Ptr),
    (''func50'', Ptr), (''func54'', Ptr), (''func58'', Ptr), (''func5C'', Ptr),
    (''func60'', Ptr), (''func64'', Ptr), (''func68'', Ptr), (''func6C'', Ptr), (''func70'', Ptr)]"

definition poc_SceVfsAdd_layout :: "ctype" where
  "poc_SceVfsAdd_layout = Struct [
    (''func_ptr1'', Ptr), (''device'', Ptr), (''data_0x08'', Int32), (''data_0x0C'', Int32),
    (''data_0x10'', Int32), (''func_ptr2'', Ptr), (''data_0x18'', Int32), (''prev'', Ptr)]"

section \<open>Tables of operations\<close>

text \<open>
  The initialisers of the tables: members with the function that is stored there, or NULL.  Members that
  are not named are NULL too, and of a member that is named twice the last initialiser counts.
\<close>

type_synonym op_table = "(string \<times> string option) list"

definition vfs_table_2 :: op_table where
  "vfs_table_2 = [
    (''func00'', Some ''sub_81000008''), (''func04'', Some ''sub_81000020''),
    (''func08'', Some ''sub_81000024''), (''func0C'', None), (''func10'', None),
    (''func14'', None), (''func18'', None), (''func1C'', None),
    (''func20'', Some ''sub_81000000''), (''func24'', Some ''sub_81000004''), (''func28'', None),
    (''func2C'', Some ''vfs_devctl''), (''func30'', None)]"

definition vfs_table2_2 :: op_table where
  "vfs_table2_2 = [
    (''func00'', Some ''vfs_open''), (''func04'', Some ''sub_81001E42''),
    (''func08'', Some ''vfs_close''), (''func0C'', Some ''vfs_part_init''),
    (''func10'', Some ''vfs_read''), (''func14'', Some ''vfs_write''), (''func18'', None),
    (''func1C'', Some ''sub_8100006C''), (''func20'', Some ''vfs_part_deinit''),
    (''func24'', None), (''func28'', None), (''func2C'', Some ''vfs_dopen''),
    (''func30'', Some ''vfs_dclose''), (''func34'', Some ''vfs_dread''),
    (''func38'', Some ''vfs_get_stat''), (''func3C'', None), (''func40'', None),
    (''func44'', None), (''func48'', None), (''func4C'', None),
    (''func50'', Some ''sub_81000070''), (''func54'', None), (''func58'', None),
    (''func5C'', Some ''vfs_sync''), (''func60'', Some ''vfs_get_stat_by_fd''),
    (''func64'', None), (''func64'', None), (''func68'', None), (''func70'', None)]"

definition vfs_table_test :: op_table where
  "vfs_table_test = [
    (''func00'', Some ''vfs_mount_func''), (''func04'', Some ''vfs_umount_func''),
    (''vfs_set_root'', Some ''vfs_set_root''), (''func0C'', None), (''func10'', None),
    (''func14'', None), (''func18'', None), (''func1C'', None), (''func20'', Some ''vfs_init''),
    (''func24'', Some ''vfs_deinit''), (''func28'', None), (''vfs_devctl'', Some ''vfs_devctl''),
    (''func30'', None)]"

definition vop_table_test :: op_table where
  "vop_table_test = [
    (''vop_open'', Some ''vop_open''), (''vop_create'', Some ''vop_create''),
    (''vop_close'', Some ''vop_close''), (''vop_lookup'', Some ''vop_part_init''),
    (''vop_read'', Some ''vop_read''), (''vop_write'', Some ''vop_write''),
    (''vop_lseek'', Some ''vop_lseek''), (''vop_ioctl'', Some ''vop_ioctl''),
    (''vop_remove'', Some ''vop_remove''), (''vop_mkdir'', Some ''vop_mkdir''),
    (''vop_rmdir'', Some ''vop_rmdir''), (''vop_dopen'', Some ''vop_dopen''),
    (''vop_dclose'', Some ''vop_dclose''), (''vop_dread'', Some ''vop_dread''),
    (''vop_get_stat'', Some ''vop_get_stat''), (''vop_chstat'', Some ''vop_chstat''),
    (''vop_rename'', Some ''vop_rename''), (''func44'', None),
    (''vop_pread'', Some ''vop_pread''), (''vop_pwrite'', Some ''vop_pwrite''),
    (''vop_inactive'', Some ''vop_inactive''), (''func54'', Some ''vop_func54''),
    (''func58'', Some ''vop_func58''), (''vop_sync'', Some ''vop_sync''),
    (''vop_get_stat_by_fd'', Some ''vop_get_stat_by_fd''),
    (''vop_chstat_by_fd'', Some ''vop_chstat_by_fd''), (''func68'', Some ''vop_func68''),
    (''func6C'', Some ''vop_func6C''), (''func70'', None)]"

section \<open>SceZlibSample\<close>

definition SceZlibStream_layout :: "ctype" where
  "SceZlibStream_layout = Packed [
    (''next_in'', Ptr), (''avail_in'', Int32), (''total_in'', Int32), (''next_out'', Ptr),
    (''avail_out'', Int32), (''total_out'', Int32), (''msg'', Ptr), (''state'', Ptr),
    (''zalloc'', Ptr), (''zfree'', Ptr), (''opaque'', Ptr), (''data_type'', Int32),
    (''adler'', Int32), (''reserved'', Int32)]"

section \<open>act\_verifier and np\_act\_verifier\<close>

definition act_SceNpDrmRsaKey_layout :: "ctype" where
  "act_SceNpDrmRsaKey_layout = Struct [
    (''n'', Ptr), (''k'', Ptr)]"

definition act_SceKitActivationDataToken_layout :: "ctype" where
  "act_SceKitActivationDataToken_layout = Struct [
    (''magic'', (Array Int8 4)), (''issue_no'', Int32), (''format_version'', Int32),
    (''start_date'', Int32), (''end_date'', Int32), (''open_psid'', (Array Int8 0x10)),
    (''padding'', (Array Int8 0xC)), (''cmac'', (Array Int8 0x10))]"

definition act_SceKitActivationData_layout :: "ctype" where
  "act_SceKitActivationData_layout = Struct [
    (''plain'', act_SceKitActivationDataToken_layout),
    (''enced'', act_SceKitActivationDataToken_layout)]"

definition act_SceNVSKitActivationData_layout :: "ctype" where
  "act_SceNVSKitActivationData_layout = Struct [
    (''magic'', (Array Int8 4)), (''issue_no'', Int32), (''end_date'', Int32),
    (''start_date'', Int32), (''cmac_hash'', (Array Int8 0x10))]"

definition np_SceNpDrmRsaKey_layout :: "ctype" where
  "np_SceNpDrmRsaKey_layout = Struct [
    (''n'', Ptr), (''k'', Ptr)]"

definition np_SceNpDrmEcdsaParam_layout :: "ctype" where
  "np_SceNpDrmEcdsaParam_layout = Struct [
    (''hash'', Ptr), (''sign'', Ptr), (''type'', Int32)]"

section \<open>slb2\_dumper\<close>

definition SceSlb2Entry_layout :: "ctype" where
  "SceSlb2Entry_layout = Packed [
    (''sector_pos'', Int32), (''size'', Int32), (''unk_0x8'', Int32), (''unk_0xC'', Int32),
    (''file_name'', (Array Int8 0x20))]"

definition SceSlb2Header_layout :: "ctype" where
  "SceSlb2Header_layout = Packed [
    (''magic'', (Array Int8 4)), (''version'', Int32), (''header_size'', Int32),
    (''file_count'', Int32), (''file_align'', Int32), (''unk'', (Array Int32 3)),
    (''entry'', (Array SceSlb2Entry_layout 10))]"

section \<open>kernel\_module\_loader\<close>

definition ScePafInit_layout :: "ctype" where
  "ScePafInit_layout = Struct [
    (''global_heap_size'', Int32), (''a2'', Int32), (''a3'', Int32), (''use_gxm'', Int32),
    (''heap_opt_param1'', Int32), (''heap_opt_param2'', Int32)]"

definition ModuleLoadParam_layout :: "ctype" where
  "ModuleLoadParam_layout = Struct [
    (''next'', Ptr), (''path'', Ptr), (''path_length'', Int32), (''modid'', Int32),
    (''number'', Int32)]"

definition program_sizes :: "(string \<times> ctype \<times> nat) list" where
  "program_sizes =
    [(''poc_SceVfsMount2'', poc_SceVfsMount2_layout, 0x14),
     (''poc_SceVfsMount'', poc_SceVfsMount_layout, 0x20),
     (''poc_SceVfsTable'', poc_SceVfsTable_layout, 0x34),
     (''poc_SceVfsTable2'', poc_SceVfsTable2_layout, 0x74),
     (''poc_SceVfsAdd'', poc_SceVfsAdd_layout, 0x20),
     (''SceZlibStream'', SceZlibStream_layout, 0x38),
     (''act_SceKitActivationDataToken'', act_SceKitActivationDataToken_layout, 0x40),
     (''act_SceKitActivationData'', act_SceKitActivationData_layout, 0x80),
     (''act_SceNVSKitActivationData'', act_SceNVSKitActivationData_layout, 0x20),
     (''np_SceNpDrmEcdsaParam'', np_SceNpDrmEcdsaParam_layout, 0xC),
     (''SceSlb2Entry'', SceSlb2Entry_layout, 0x30),
     (''SceSlb2Header'', SceSlb2Header_layout, 0x200),
     (''ScePafInit'', ScePafInit_layout, 0x18)]"

section \<open>Sizes\<close>

text \<open>Every size that a comment gives is right.\<close>

lemma poc_SceVfsMount2_size [simp]: "csize poc_SceVfsMount2_layout = 0x14" "calign poc_SceVfsMount2_layout = 4"
  by (simp_all add: poc_SceVfsMount2_layout_def align_up_def)

lemma poc_SceVfsMount_size [simp]: "csize poc_SceVfsMount_layout = 0x20" "calign poc_SceVfsMount_layout = 4"
  by (simp_all add: poc_SceVfsMount_layout_def align_up_def)

lemma poc_SceVfsTable_size [simp]: "csize poc_SceVfsTable_layout = 0x34" "calign poc_SceVfsTable_layout = 4"
  by (simp_all add: poc_SceVfsTable_layout_def align_up_def)

lemma poc_SceVfsTable2_size [simp]: "csize poc_SceVfsTable2_layout = 0x74" "calign poc_SceVfsTable2_layout = 4"
  by (simp_all add: poc_SceVfsTable2_layout_def align_up_def)

lemma poc_SceVfsAdd_size [simp]: "csize poc_SceVfsAdd_layout = 0x20" "calign poc_SceVfsAdd_layout = 4"
  by (simp_all add: poc_SceVfsAdd_layout_def align_up_def)

lemma SceZlibStream_size [simp]: "csize SceZlibStream_layout = 0x38" "calign SceZlibStream_layout = 1"
  by (simp_all add: SceZlibStream_layout_def align_up_def)

lemma act_SceKitActivationDataToken_size [simp]: "csize act_SceKitActivationDataToken_layout = 0x40" "calign act_SceKitActivationDataToken_layout = 4"
  by (simp_all add: act_SceKitActivationDataToken_layout_def align_up_def)

lemma act_SceKitActivationData_size [simp]: "csize act_SceKitActivationData_layout = 0x80" "calign act_SceKitActivationData_layout = 4"
  by (simp_all add: act_SceKitActivationData_layout_def align_up_def)

lemma act_SceNVSKitActivationData_size [simp]: "csize act_SceNVSKitActivationData_layout = 0x20" "calign act_SceNVSKitActivationData_layout = 4"
  by (simp_all add: act_SceNVSKitActivationData_layout_def align_up_def)

lemma np_SceNpDrmEcdsaParam_size [simp]: "csize np_SceNpDrmEcdsaParam_layout = 0xC" "calign np_SceNpDrmEcdsaParam_layout = 4"
  by (simp_all add: np_SceNpDrmEcdsaParam_layout_def align_up_def)

lemma SceSlb2Entry_size [simp]: "csize SceSlb2Entry_layout = 0x30" "calign SceSlb2Entry_layout = 1"
  by (simp_all add: SceSlb2Entry_layout_def align_up_def)

lemma SceSlb2Header_size [simp]: "csize SceSlb2Header_layout = 0x200" "calign SceSlb2Header_layout = 1"
  by (simp_all add: SceSlb2Header_layout_def align_up_def)

lemma ScePafInit_size [simp]: "csize ScePafInit_layout = 0x18" "calign ScePafInit_layout = 4"
  by (simp_all add: ScePafInit_layout_def align_up_def)

lemma program_sizes_right: "wrong_sizes program_sizes = []"
  by (simp add: program_sizes_def)

text \<open>Where \<open>Slb2_Dumper\<close> reads the header: the number of files and the entries.\<close>

lemma slb2_offsets:
  "offset_of SceSlb2Header_layout ''file_count'' = 0xC" "offset_of SceSlb2Header_layout ''entry'' = 0x20"
  by (simp_all add: offset_of_def SceSlb2Header_layout_def)

section \<open>Which operation is called\<close>

text \<open>
  The function in a table at an offset, and the functions of a table by the names that the members of
  another structure have at their offsets.
\<close>

definition handler :: "ctype \<Rightarrow> op_table \<Rightarrow> nat \<Rightarrow> string option" where
  "handler L tb off =
     (case find (\<lambda>(n, i). i = off) (members L 0) of None \<Rightarrow> None
      | Some (n, _) \<Rightarrow> (case map_of (rev tb) n of None \<Rightarrow> None | Some f \<Rightarrow> f))"

definition handlers_as :: "ctype \<Rightarrow> ctype \<Rightarrow> op_table \<Rightarrow> (string \<times> string) list" where
  "handlers_as names L tb =
     concat (map (\<lambda>(n, i). case handler L tb i of None \<Rightarrow> [] | Some f \<Rightarrow> [(n, f)]) (members names 0))"

text \<open>
  The numbered members of the older table stand where \<open>vfs.h\<close> of the newer module names the operation
  that is stored there; deinitialising a partition is what \<open>vfs.h\<close> calls a remove.
\<close>

lemma old_handlers:
  "handlers_as SceVopTable_layout poc_SceVfsTable2_layout vfs_table2_2 =
    [(''vop_open'', ''vfs_open''), (''vop_create'', ''sub_81001E42''), (''vop_close'', ''vfs_close''),
     (''vop_lookup'', ''vfs_part_init''), (''vop_read'', ''vfs_read''), (''vop_write'', ''vfs_write''),
     (''vop_ioctl'', ''sub_8100006C''), (''vop_remove'', ''vfs_part_deinit''), (''vop_dopen'', ''vfs_dopen''),
     (''vop_dclose'', ''vfs_dclose''), (''vop_dread'', ''vfs_dread''), (''vop_get_stat'', ''vfs_get_stat''),
     (''vop_inactive'', ''sub_81000070''), (''vop_sync'', ''vfs_sync''),
     (''vop_get_stat_by_fd'', ''vfs_get_stat_by_fd'')]"
  by (simp add: handlers_as_def handler_def SceVopTable_layout_def poc_SceVfsTable2_layout_def vfs_table2_2_def align_up_def)

lemma old_vfs_handlers:
  "handlers_as SceVfsTable_layout poc_SceVfsTable_layout vfs_table_2 =
    [(''func00'', ''sub_81000008''), (''func04'', ''sub_81000020''), (''vfs_set_root'', ''sub_81000024''),
     (''func20'', ''sub_81000000''), (''func24'', ''sub_81000004''), (''vfs_devctl'', ''vfs_devctl'')]"
  by (simp add: handlers_as_def handler_def SceVfsTable_layout_def poc_SceVfsTable_layout_def vfs_table_2_def align_up_def)

text \<open>Every named operation of the newer table is the function of that name, but for the lookup.\<close>

lemma new_handlers:
  "\<forall>(n, f) \<in> set (handlers_as SceVopTable_layout SceVopTable_layout vop_table_test).
    f = n \<or> (n, f) = (''vop_lookup'', ''vop_part_init'') \<or> take 4 n = ''func''"
  by (simp add: handlers_as_def handler_def SceVopTable_layout_def vop_table_test_def align_up_def)

end
