(* ===== verification/Usb_Fat16.thy ===== *)
theory Usb_Fat16
  imports Tool_Base
begin

text \<open>
  \<open>src/kernel/SceUsbstorVstorFat16/src/main.c\<close>: the device initialisation of the virtual USB storage
  refuses an image of a FAT16 file system; the hook takes the number of sectors from the boot sector of
  the image instead and finishes the initialisation.

  The original function, files, memory blocks and event flags are parameters, and so is the value of
  \<open>SCE_USBSTOR_VSTOR_TYPE_FAT\<close>.  The structure with all its members is in \<open>Layout_Analysis\<close>.
\<close>

section \<open>State\<close>

record 'k usbstor =
  us_fd :: s32
  us_nSector :: u32
  us_evf_id :: s32
  us_usbstorExt_memid :: s32
  us_usbstorExt_base :: addr
  us_usb_type :: s32
  us_mbr :: "u8 list"
  us_k :: 'k

record 'k usbstor_env =
  ue_device_init :: "'k \<Rightarrow> s32 \<times> 'k"
  ue_lseek :: "'k \<Rightarrow> s32 \<Rightarrow> SceOff \<Rightarrow> 'k"
  ue_read :: "'k \<Rightarrow> s32 \<Rightarrow> SceSize \<Rightarrow> s32 \<times> u8 list \<times> 'k"
  ue_alloc :: "'k \<Rightarrow> string \<Rightarrow> u32 \<Rightarrow> SceSize \<Rightarrow> u32 \<Rightarrow> s32 \<times> 'k"
  ue_base :: "'k \<Rightarrow> s32 \<Rightarrow> addr \<times> 'k"
  ue_set_event :: "'k \<Rightarrow> s32 \<Rightarrow> u32 \<Rightarrow> 'k"
  ue_type_fat :: s32

text \<open>Little-endian values in a sector.\<close>

definition mbr16 :: "u8 list \<Rightarrow> nat \<Rightarrow> u16" where
  "mbr16 bs i = ucast (bs ! i) OR push_bit 8 (ucast (bs ! (i + 1)))"

definition mbr32 :: "u8 list \<Rightarrow> nat \<Rightarrow> u32" where
  "mbr32 bs i = le32 (bs ! i) (bs ! (i + 1)) (bs ! (i + 2)) (bs ! (i + 3))"

section \<open>The hook\<close>

text \<open>The sector: filled with the letter A, then what the read gives.\<close>

definition read_mbr :: "'k usbstor_env \<Rightarrow> 'k usbstor \<Rightarrow> 'k usbstor" where
  "read_mbr E s =
     (let k = ue_lseek E (us_k s) (us_fd s) 0; (res, bs, k) = ue_read E k (us_fd s) 0x200
      in s\<lparr>us_mbr := overwrite 0 bs (replicate 0x200 0x41), us_k := k\<rparr>)"

definition sector_count :: "u8 list \<Rightarrow> u32 option" where
  "sector_count bs =
     (if mbr16 bs 0x13 \<noteq> 0 then Some (ucast (mbr16 bs 0x13))
      else if mbr32 bs 0x20 \<noteq> 0 then Some (mbr32 bs 0x20)
      else None)"

definition device_init_patch :: "'k usbstor_env \<Rightarrow> 'k usbstor \<Rightarrow> s32 \<times> 'k usbstor" where
  "device_init_patch E s =
     (let (res, k) = ue_device_init E (us_k s); s = s\<lparr>us_k := k\<rparr> in
      if res = 0x80244112 \<and> us_usb_type s = ue_type_fat E then
        let s = read_mbr E s in
        if take 5 (drop 0x36 (us_mbr s)) \<noteq> bytes_of ''FAT16'' then (res, s)
        else case sector_count (us_mbr s) of
            None \<Rightarrow> (res, s)
          | Some n \<Rightarrow>
            let s = s\<lparr>us_nSector := n\<rparr>;
                (memid, k) = ue_alloc E (us_k s) ''SceUsbstorExt'' 0x10208006 0x20000 0x200000;
                (base, k) = ue_base E k memid;
                s = s\<lparr>us_usbstorExt_memid := memid, us_usbstorExt_base := base,
                      us_k := ue_set_event E k (us_evf_id s) 0x200\<rparr>
            in (0, s)
      else (res, s))"

section \<open>What the hook does\<close>

text \<open>\<open>unat\<close> of the two values is the little-endian number of the bytes.\<close>

lemma mbr16_value:
  "unat (mbr16 bs i) = unat (bs ! i) + 256 * unat (bs ! (i + 1))"
proof -
  have d: "ucast a OR push_bit 8 (ucast b) = (ucast a + push_bit 8 (ucast b) :: u16)" for a b :: u8
    by (rule disjunctive_add [symmetric]) (auto simp: bit_simps dest: bit_imp_le_length)
  have "mbr16 bs i = word_of_nat (unat (bs ! i) + 256 * unat (bs ! (i + 1)))"
    unfolding mbr16_def d by (simp add: push_bit_eq_mult)
  moreover have "unat (bs ! i) + 256 * unat (bs ! (i + 1)) < 2 ^ LENGTH(16)"
    using unat_lt_256 [of "bs ! i"] unat_lt_256 [of "bs ! (i + 1)"] by simp
  ultimately show ?thesis by (simp only: unat_word_of_nat)
qed

text \<open>
  The hook.  Any result but 0x80244112, or an image that is not a FAT one, is passed on and nothing
  of the context changes.  Otherwise the boot sector decides: without the mark FAT16, or with both sector
  counts 0, the error stays and the context is as before; else the count is the 16-bit one when that is
  not 0 and the 32-bit one otherwise, the block and its address are stored, the event is set and the
  result is 0.
\<close>

theorem device_init_patch_spec:
  assumes i: "ue_device_init E (us_k s) = (res, k1)" and r: "ue_read E (ue_lseek E k1 (us_fd s) 0) (us_fd s) 0x200 = (n, bs, k2)"
    and l: "length bs \<le> 0x200"
  defines "mbr \<equiv> bs @ replicate (0x200 - length bs) 0x41"
  shows "if res \<noteq> 0x80244112 \<or> us_usb_type s \<noteq> ue_type_fat E
    then device_init_patch E s = (res, s\<lparr>us_k := k1\<rparr>)
    else if take 5 (drop 0x36 mbr) \<noteq> bytes_of ''FAT16'' \<or>
      le_nat (take 2 (drop 0x13 mbr)) = 0 \<and> le_nat (take 4 (drop 0x20 mbr)) = 0
    then device_init_patch E s = (0x80244112, s\<lparr>us_mbr := mbr, us_k := k2\<rparr>)
    else \<exists>s' memid k3. device_init_patch E s = (0, s') \<and>
      unat (us_nSector s') = (if le_nat (take 2 (drop 0x13 mbr)) \<noteq> 0 then le_nat (take 2 (drop 0x13 mbr))
        else le_nat (take 4 (drop 0x20 mbr))) \<and>
      ue_alloc E k2 ''SceUsbstorExt'' 0x10208006 0x20000 0x200000 = (memid, k3) \<and>
      us_usbstorExt_memid s' = memid \<and> us_usbstorExt_base s' = fst (ue_base E k3 memid) \<and>
      us_k s' = ue_set_event E (snd (ue_base E k3 memid)) (us_evf_id s) 0x200 \<and>
      us_fd s' = us_fd s \<and> us_evf_id s' = us_evf_id s \<and> us_usb_type s' = us_usb_type s"
proof -
  have lm: "length mbr = 0x200" using l by (simp add: mbr_def)
  have m: "overwrite 0 bs (replicate 0x200 0x41) = mbr" by (simp add: overwrite_def mbr_def)
  have rd: "read_mbr E (s\<lparr>us_k := k1\<rparr>) = s\<lparr>us_mbr := mbr, us_k := k2\<rparr>"
    using r m by (simp add: read_mbr_def)
  have t2: "take 2 (drop 0x13 mbr) = [mbr ! 0x13, mbr ! 0x14]"
    using lm by (simp add: Cons_nth_drop_Suc [symmetric] numeral_2_eq_2)
  have t4: "take 4 (drop 0x20 mbr) = [mbr ! 0x20, mbr ! 0x21, mbr ! 0x22, mbr ! 0x23]"
    using lm by (simp add: Cons_nth_drop_Suc [symmetric] eval_nat_numeral)
  have v16: "unat (mbr16 mbr 0x13) = le_nat (take 2 (drop 0x13 mbr))"
    using mbr16_value [of mbr "0x13"] by (simp add: t2)
  have v32: "unat (mbr32 mbr 0x20) = le_nat (take 4 (drop 0x20 mbr))"
    by (simp add: t4 mbr32_def unat_le32)
  have z: "mbr16 mbr 0x13 = 0 \<longleftrightarrow> le_nat (take 2 (drop 0x13 mbr)) = 0"
    "mbr32 mbr 0x20 = 0 \<longleftrightarrow> le_nat (take 4 (drop 0x20 mbr)) = 0"
    unfolding v16 [symmetric] v32 [symmetric] by (simp_all add: unsigned_eq_0_iff)
  have w: "unat (ucast (mbr16 mbr 0x13) :: u32) = unat (mbr16 mbr 0x13)"
    using unsigned_less [of "mbr16 mbr 0x13", where 'a = nat]
    by (simp add: unsigned_ucast_eq take_bit_nat_eq_self_iff)
  obtain memid k3 where al: "ue_alloc E k2 ''SceUsbstorExt'' 0x10208006 0x20000 0x200000 = (memid, k3)" by force
  show ?thesis
    using i rd al z w v16 v32
    by (auto simp: device_init_patch_def sector_count_def Let_def split_beta)
qed

section \<open>Installing it\<close>

text \<open>
  \<open>module_start\<close> lets SceUsbstorVStorDriver read images of any path, finds its context, and puts the
  hook into its table of functions.
\<close>

record 'k usbstor_module =
  um_inject :: "'k \<Rightarrow> s32 \<Rightarrow> u32 \<Rightarrow> u8 list \<Rightarrow> 'k"
  um_search :: "'k \<Rightarrow> string \<Rightarrow> s32 \<times> 'k"
  um_offset :: "'k \<Rightarrow> s32 \<Rightarrow> nat \<Rightarrow> u32 \<Rightarrow> addr \<times> 'k"
  um_load :: "'k \<Rightarrow> addr \<Rightarrow> addr option"
  um_store :: "'k \<Rightarrow> addr \<Rightarrow> addr \<Rightarrow> 'k option"

definition path_check_patch :: "u8 list" where
  "path_check_patch = [0x35, 0xE0]"

text \<open>The result has the context and the saved function; \<open>hook\<close> is the address of the hook.\<close>

definition usbstor_module_start ::
    "'k usbstor_module \<Rightarrow> addr \<Rightarrow> 'k \<Rightarrow> (start_result \<times> addr \<times> addr \<times> 'k) option" where
  "usbstor_module_start M hook k = do {
     let (moduleid, k) = um_search M k ''SceUsbstorVStorDriver'';
     let k = um_inject M k moduleid 0x1738 path_check_patch;
     let (pUsbstorContext, k) = um_offset M k moduleid 1 0;
     let (p, k) = um_offset M k moduleid 1 0x164;
     device_init \<leftarrow> um_load M k p;
     k \<leftarrow> um_store M k p hook;
     Some (START_SUCCESS, pUsbstorContext, device_init, k)
   }"

end
