(* ===== verification/Function_Hooks.thy ===== *)
theory Function_Hooks
  imports Tool_Base
begin

text \<open>
  Modules that consist of a hook on a function of the system:

  \<^item> \<open>src/kernel/SceErrorHelper\<close>: the string of an error is its number;
  \<^item> \<open>src/user/npdrm_act_guard\<close>: the parameters of a check are copied and two bits of them set;
  \<^item> \<open>src/user/VideoDebugger\<close>: one key of the registry reads as 1;
  \<^item> \<open>src/user/repaf\<close>: ScePaf is loaded from another file;
  \<^item> \<open>src/kernel/appmgr_test\<close>: the parameters of a started application are written to a file;
  \<^item> \<open>src/kernel/ScePfsMgrAllowDbgPfsPatch\<close>: the question for a CEX console is answered with no;
  \<^item> \<open>src/kernel/DevkitTV\<close>: the panel is switched with the HDMI connection.

  \<open>TAI_CONTINUE\<close>, the call of the hooked function, is a parameter \<open>continue_to\<close>.
\<close>

section \<open>SceErrorHelper\<close>

text \<open>The array of 0x10 characters that \<open>snprintf\<close> fills, and the copy of it to the user.\<close>

definition error_text :: "u32 \<Rightarrow> string" where
  "error_text error_code = ''0x'' @ digits 16 (unat error_code)"

definition sceErrorGetExternalString_patch ::
    "(addr \<Rightarrow> s32 \<Rightarrow> 'k \<Rightarrow> s32 \<times> 'k) \<Rightarrow> ('k \<Rightarrow> addr \<Rightarrow> u8 list \<Rightarrow> s32 \<times> 'k) \<Rightarrow> addr \<Rightarrow> s32 \<Rightarrow> 'k \<Rightarrow> s32 \<times> 'k" where
  "sceErrorGetExternalString_patch continue_to copy_to_user error_strings error_code k =
     (let (res, k) = continue_to error_strings error_code k in
      if \<not> failed res
      then copy_to_user k error_strings (overwrite 0 (bytes_of (take 0xF (error_text error_code))) (replicate 0x10 0))
      else (res, k))"

text \<open>The number always fits, and reading it back gives the error.\<close>

lemma error_text_fits:
  "length (error_text e) \<le> 10" "value_of 16 (drop 2 (error_text e)) = unat e"
proof -
  have "length (digits 16 (unat e)) \<le> 8"
    using unat_lt_32 [of e] by (intro length_digits) simp_all
  then show "length (error_text e) \<le> 10" by (simp add: error_text_def)
  show "value_of 16 (drop 2 (error_text e)) = unat e" by (simp add: error_text_def value_of_digits)
qed

section \<open>npdrm_act_guard\<close>

text \<open>
  \<open>a1\<close> are the bytes that the caller passes, \<open>n\<close> the word \<open>option[3]\<close>, and \<open>stack\<close> what the local
  array of 0x40 bytes holds before; \<open>continue_to\<close> gets the array.
\<close>

definition sceNpDrmCheckDrmReset_patch ::
    "(u8 list \<Rightarrow> 'k \<Rightarrow> s32 \<times> 'k) \<Rightarrow> u8 list \<Rightarrow> u32 \<Rightarrow> u8 list \<Rightarrow> 'k \<Rightarrow> (s32 \<times> 'k) option" where
  "sceNpDrmCheckDrmReset_patch continue_to a1 n stack k =
     (if unat n \<le> length a1 \<and> unat n \<le> length stack
      then let param = overwrite 0 (take (unat n) a1) stack in
        Some (continue_to (param[1 := param ! 1 OR 0xC0]) k)
      else None)"

text \<open>The size is not checked: the copy leaves the array exactly when it is above 0x40.\<close>

lemma act_guard_bound:
  assumes "length stack = 0x40" "unat n \<le> length a1"
  shows "sceNpDrmCheckDrmReset_patch continue_to a1 n stack k =
    (if 0x40 < unat n then None
     else Some (continue_to ((take (unat n) a1 @ drop (unat n) stack)
       [1 := (take (unat n) a1 @ drop (unat n) stack) ! 1 OR 0xC0]) k))"
  using assms by (simp add: sceNpDrmCheckDrmReset_patch_def overwrite_def min_absorb2 Let_def)

section \<open>VideoDebugger\<close>

text \<open>\<open>value\<close> is \<open>None\<close> for a NULL pointer, and otherwise the integer that it points to.\<close>

definition sceRegMgrGetKeyInt_patch ::
    "(string \<Rightarrow> string \<Rightarrow> s32 option \<Rightarrow> 'k \<Rightarrow> s32 \<times> s32 option \<times> 'k) \<Rightarrow> string \<Rightarrow> string \<Rightarrow> s32 option \<Rightarrow> 'k \<Rightarrow>
     s32 \<times> s32 option \<times> 'k" where
  "sceRegMgrGetKeyInt_patch continue_to category name pValue k =
     (let (res, v, k) = continue_to category name pValue k in
      if pValue \<noteq> None \<and> category = ''/CONFIG/VIDEO/'' \<and> name = ''debug_videoplayer'' then (0, Some 1, k)
      else (res, v, k))"

section \<open>repaf\<close>

text \<open>
  \<open>rp_ints\<close> are the integers in memory that a result can be stored to.  The numbers of the SDK for ScePaf
  and for the error of a module that is not loaded are parameters.
\<close>

record 'k repaf =
  rp_moduleId :: s32
  rp_ints :: "addr \<Rightarrow> s32 option"
  rp_k :: 'k

record 'k repaf_env =
  re_load_start :: "'k \<Rightarrow> string \<Rightarrow> SceSize \<Rightarrow> addr \<Rightarrow> s32 \<times> s32 \<times> 'k"
  re_load_internal :: "u32 \<Rightarrow> SceSize \<Rightarrow> addr \<Rightarrow> addr option \<Rightarrow> 'k repaf \<Rightarrow> s32 \<times> 'k repaf"
  re_is_loaded :: "u32 \<Rightarrow> 'k repaf \<Rightarrow> s32"
  SCE_SYSMODULE_INTERNAL_PAF :: u32
  SCE_SYSMODULE_ERROR_UNLOADED :: s32

text \<open>\<open>opt\<close> is the pointer \<open>option->result\<close>, \<open>None\<close> when \<open>option\<close> is NULL.\<close>

definition sceSysmoduleLoadModuleInternalWithArg_patch ::
    "'k repaf_env \<Rightarrow> u32 \<Rightarrow> SceSize \<Rightarrow> addr \<Rightarrow> addr option \<Rightarrow> 'k repaf \<Rightarrow> (s32 \<times> 'k repaf) option" where
  "sceSysmoduleLoadModuleInternalWithArg_patch E mid args argp opt s =
     (if mid = SCE_SYSMODULE_INTERNAL_PAF E then
        let (m, stat, k) = re_load_start E (rp_k s) ''ux0:data/libpaf.suprx'' args argp;
            s = s\<lparr>rp_moduleId := m, rp_k := k\<rparr>;
            res = (if failed m then m else 0)
        in if res = 0 then do {
             r \<leftarrow> opt;
             _ \<leftarrow> rp_ints s r;
             Some (res, s\<lparr>rp_ints := (rp_ints s)(r \<mapsto> stat)\<rparr>)
           }
           else Some (res, s)
      else Some (re_load_internal E mid args argp opt s))"

definition sceSysmoduleIsLoadedInternal_patch :: "'k repaf_env \<Rightarrow> u32 \<Rightarrow> 'k repaf \<Rightarrow> s32" where
  "sceSysmoduleIsLoadedInternal_patch E mid s =
     (if mid = SCE_SYSMODULE_INTERNAL_PAF E
      then (if failed (rp_moduleId s) then SCE_SYSMODULE_ERROR_UNLOADED E else 0)
      else re_is_loaded E mid s)"

text \<open>The two hooks agree: right after a call that loads ScePaf, it counts as loaded iff that call succeeded.\<close>

lemma repaf_agree:
  assumes "sceSysmoduleLoadModuleInternalWithArg_patch E (SCE_SYSMODULE_INTERNAL_PAF E) args argp opt s = Some (r, s')"
    and "SCE_SYSMODULE_ERROR_UNLOADED E \<noteq> 0"
  shows "(sceSysmoduleIsLoadedInternal_patch E (SCE_SYSMODULE_INTERNAL_PAF E) s' = 0 \<longleftrightarrow> r = 0) \<and>
    (failed r \<or> r = 0)"
  using assms by (auto simp: sceSysmoduleLoadModuleInternalWithArg_patch_def
      sceSysmoduleIsLoadedInternal_patch_def Let_def split_beta split: if_splits Option.bind_splits)

section \<open>appmgr_test\<close>

definition write_file :: "'k sce_io \<Rightarrow> string \<Rightarrow> u8 list option \<Rightarrow> 'k \<Rightarrow> s32 \<times> 'k" where
  "write_file IO path data k =
     (case data of None \<Rightarrow> (-1, k)
      | Some d \<Rightarrow>
        if d = [] then (-1, k)
        else let (fd, k) = io_open IO k path (SCE_O_WRONLY IO OR SCE_O_CREAT IO OR SCE_O_TRUNC IO) 438 in
        if failed fd then (fd, k)
        else let (_, k) = io_write IO k fd d; (_, k) = io_close IO k fd in (0, k))"

text \<open>\<open>a8\<close> are the bytes that the last argument points to; the title is the string at offset 0xA4.\<close>

definition FUN_81022684_maybe_launch_app_patch ::
    "'k sce_io \<Rightarrow> ('k \<Rightarrow> s32 \<times> u8 list \<times> 'k) \<Rightarrow> 'k \<Rightarrow> (s32 \<times> 'k) option" where
  "FUN_81022684_maybe_launch_app_patch IO continue_to k = do {
     let (res, a8, k) = continue_to k;
     title \<leftarrow> array_string (drop 0xA4 a8);
     let path = take 0x7E (''uma0:SceAppMgr_obj_'' @ title @ ''.bin'');
     if length a8 < 0x100 then None
     else do { let (_, k) = write_file IO path (Some (take 0x100 a8)) k; Some (res, k) }
   }"

section \<open>ScePfsMgrAllowDbgPfsPatch\<close>

definition ksceSblAimgrIsCEX_patch :: "('k \<Rightarrow> s32 \<times> 'k) \<Rightarrow> 'k \<Rightarrow> s32 \<times> 'k" where
  "ksceSblAimgrIsCEX_patch continue_to k = (let (_, k) = continue_to k in (0, k))"

section \<open>Installing the hooks\<close>

text \<open>
  The entries of the modules above each install their hooks: \<open>hook\<close> is the call of taiHEN, with the
  name of the module (\<open>main\<close> for \<open>TAI_MAIN_MODULE\<close>) and the numbers of library and function.
\<close>

type_synonym 'k hook_call = "'k \<Rightarrow> string \<Rightarrow> u32 \<Rightarrow> u32 \<Rightarrow> 'k"

definition error_helper_module_start :: "'k hook_call \<Rightarrow> 'k \<Rightarrow> start_result \<times> 'k" where
  "error_helper_module_start hook k = (START_SUCCESS, hook k ''SceError'' 0x5CD2CAD1 0x85747003)"

definition act_guard_module_start :: "'k hook_call \<Rightarrow> 'k \<Rightarrow> start_result \<times> 'k" where
  "act_guard_module_start hook k = (START_SUCCESS, hook k ''SceShell'' 0xF2799B1B 0x4458812B)"

definition video_debugger_module_start :: "'k hook_call \<Rightarrow> 'k \<Rightarrow> start_result \<times> 'k" where
  "video_debugger_module_start hook k = (START_SUCCESS, hook k ''SceVideoPlayer'' 0xC436F916 0x16DDF3DC)"

definition repaf_module_start :: "'k hook_call \<Rightarrow> string \<Rightarrow> 'k \<Rightarrow> start_result \<times> 'k" where
  "repaf_module_start hook main k =
     (START_SUCCESS, hook (hook k main 0x03FCF19D 0x09A4AF1D) main 0x03FCF19D 0xC3C26339)"

definition pfs_patch_module_start :: "'k hook_call \<Rightarrow> 'k \<Rightarrow> start_result \<times> 'k" where
  "pfs_patch_module_start hook k = (START_SUCCESS, hook k ''ScePfsMgr'' 0xFD00C69A 0xD78B04A2)"

text \<open>\<open>hook_offset\<close> hooks the code at an offset of a module that \<open>search\<close> finds.\<close>

definition appmgr_test_module_start ::
    "('k \<Rightarrow> string \<Rightarrow> s32) \<Rightarrow> ('k \<Rightarrow> s32 \<Rightarrow> u32 \<Rightarrow> 'k) \<Rightarrow> 'k \<Rightarrow> start_result \<times> 'k" where
  "appmgr_test_module_start search hook_offset k =
     (START_SUCCESS, hook_offset k (search k ''SceAppMgr'') 0x22684)"

section \<open>DevkitTV\<close>

text \<open>The panel, the state of HDMI and the callbacks; the two functions found in modules are calls.\<close>

record 'k tv_env =
  tv_oled_on :: "'k \<Rightarrow> s32 \<times> 'k"
  tv_oled_off :: "'k \<Rightarrow> s32 \<times> 'k"
  tv_hdmi_state :: "'k \<Rightarrow> s32 \<times> s32"
  tv_dimming :: "'k \<Rightarrow> s32 \<Rightarrow> s32 \<Rightarrow> s32 \<Rightarrow> 'k"
  tv_set_state :: "'k \<Rightarrow> s32 \<Rightarrow> s32 \<times> 'k"
  tv_update_mask :: "'k \<Rightarrow> s32 \<Rightarrow> s32 \<Rightarrow> s32 \<times> 'k"
  tv_enqueue :: "'k \<Rightarrow> string \<Rightarrow> 'k"
  tv_delay :: "'k \<Rightarrow> u32 \<Rightarrow> 'k"
  tv_exit_thread :: "'k \<Rightarrow> 'k"
  tv_print :: "'k \<Rightarrow> message \<Rightarrow> 'k"

definition update_screen_with_state :: "'k tv_env \<Rightarrow> s32 \<Rightarrow> 'k \<Rightarrow> s32 \<times> 'k" where
  "update_screen_with_state E state k =
     (if state = 0
      then let (res, k) = tv_oled_on E k in
        (res, if \<not> failed res then tv_dimming E k 1 0 0 else k)
      else tv_oled_off E k)"

definition update_screen :: "'k tv_env \<Rightarrow> 'k \<Rightarrow> s32 \<times> 'k" where
  "update_screen E k =
     (let (res, state) = tv_hdmi_state E k in
      if failed res then (res, tv_print E k (''Failed sceHdmiGetState\<newline>'', []))
      else let (_, k) = update_screen_with_state E state k in (res, k))"

definition sceHdmiSetState_patch :: "'k tv_env \<Rightarrow> s32 \<Rightarrow> 'k \<Rightarrow> s32 \<times> 'k" where
  "sceHdmiSetState_patch E state k =
     (let (res, k) = tv_set_state E k state in
      (res, if res = 0 then snd (update_screen E k) else k))"

definition screen_update_thread :: "'k tv_env \<Rightarrow> 'k \<Rightarrow> s32 \<times> 'k" where
  "screen_update_thread E k =
     (let k = tv_delay E k 5000000; (_, k) = update_screen E k in (0, tv_exit_thread E k))"

definition scePowerDimmingCallbackHook :: "'k tv_env \<Rightarrow> s32 \<Rightarrow> s32 \<Rightarrow> s32 \<Rightarrow> 'k \<Rightarrow> 'k" where
  "scePowerDimmingCallbackHook E a1 a2 a3 k =
     (let (res, state) = tv_hdmi_state E k in
      if failed res then tv_print E k (''Failed sceHdmiGetState\<newline>'', [])
      else if a1 = 1 \<and> state = 0 then tv_dimming E k a1 a2 a3 else k)"

definition screen_workqueue :: "'k tv_env \<Rightarrow> 'k \<Rightarrow> s32 \<times> 'k" where
  "screen_workqueue E k = (let k = tv_delay E k 1000000; (_, k) = update_screen E k in (0, k))"

definition ksceCtrlUpdateMaskForAll_patch :: "'k tv_env \<Rightarrow> s32 \<Rightarrow> s32 \<Rightarrow> 'k \<Rightarrow> s32 \<times> 'k" where
  "ksceCtrlUpdateMaskForAll_patch E clear_mask set_mask k =
     (let (res, state) = tv_hdmi_state E k;
          k = (if \<not> failed res \<and> state \<noteq> 0 \<and> set_mask \<noteq> 0 then tv_enqueue E k ''ScreenUpdateQueue'' else k)
      in tv_update_mask E k clear_mask set_mask)"

text \<open>The calls of the installation.\<close>

record 'k tv_module =
  tm_search :: "'k \<Rightarrow> string \<Rightarrow> s32"
  tm_offset :: "'k \<Rightarrow> s32 \<Rightarrow> u32 \<Rightarrow> s32"
  tm_create_thread :: "'k \<Rightarrow> s32 \<times> 'k"
  tm_start_thread :: "'k \<Rightarrow> s32 \<Rightarrow> s32 \<times> 'k"
  tm_delete_thread :: "'k \<Rightarrow> s32 \<Rightarrow> 'k"
  tm_hook_import :: "'k \<Rightarrow> 'k"
  tm_hook_offset :: "'k \<Rightarrow> s32 \<Rightarrow> u32 \<Rightarrow> 'k"
  tm_idle_callback :: "'k \<Rightarrow> s32 \<Rightarrow> s32 \<Rightarrow> u64 \<Rightarrow> bool \<Rightarrow> 'k"

definition devkit_tv_module_start :: "'k tv_env \<Rightarrow> 'k tv_module \<Rightarrow> 'k \<Rightarrow> start_result \<times> 'k" where
  "devkit_tv_module_start E M k =
     (let power = tm_search M k ''ScePower'' in
      if failed power then (START_FAILED, tv_print E k (''Failed found %s\<newline>'', [Text ''ScePower'']))
      else if failed (tm_offset M k power 0x667D)
      then (START_FAILED, tv_print E k (''Failed get scePowerDimmingCallback\<newline>'', []))
      else let hdmi = tm_search M k ''SceHdmi'' in
      if failed hdmi then (START_FAILED, tv_print E k (''Failed found %s\<newline>'', [Text ''SceHdmi'']))
      else if failed (tm_offset M k hdmi 0x5235)
      then (START_FAILED, tv_print E k (''Failed get SceHdmi internal function\<newline>'', []))
      else
      let (ok, k) =
        (if \<not> failed (tm_search M k ''SceSysStateMgr'') then
           let (thid, k) = tm_create_thread M k in
           if failed thid then (False, k)
           else let (res, k) = tm_start_thread M k thid in
             if failed res then (False, tm_delete_thread M k thid) else (True, k)
         else (True, snd (update_screen E k)))
      in if \<not> ok then (START_FAILED, k)
      else
        let k = tm_hook_import M k;
            k = tm_hook_offset M k hdmi 0x5250;
            k = tm_idle_callback M k 1 0 0 False;
            k = tm_idle_callback M k 1 0x400 45000000 True
        in (START_SUCCESS, k))"

text \<open>
  On a system whose panel follows the two calls, every path that updates the screen leaves the panel off
  when HDMI is connected and on when it is not.
\<close>

definition panel_contract :: "'k tv_env \<Rightarrow> ('k \<Rightarrow> bool) \<Rightarrow> bool" where
  "panel_contract E lit \<longleftrightarrow>
     (\<forall>k. \<not> failed (fst (tv_oled_on E k)) \<and> lit (snd (tv_oled_on E k)) \<and>
          tv_hdmi_state E (snd (tv_oled_on E k)) = tv_hdmi_state E k) \<and>
     (\<forall>k. \<not> lit (snd (tv_oled_off E k)) \<and> tv_hdmi_state E (snd (tv_oled_off E k)) = tv_hdmi_state E k) \<and>
     (\<forall>k a b c. lit (tv_dimming E k a b c) = lit k \<and> tv_hdmi_state E (tv_dimming E k a b c) = tv_hdmi_state E k)"

lemma panel_follows_hdmi:
  assumes "panel_contract E lit" "\<not> failed (fst (tv_hdmi_state E k))"
  shows "lit (snd (update_screen E k)) \<longleftrightarrow> snd (tv_hdmi_state E (snd (update_screen E k))) = 0"
  using assms by (auto simp: panel_contract_def update_screen_def update_screen_with_state_def Let_def split_beta)

lemma panel_follows_set_state:
  assumes "panel_contract E lit" "tv_set_state E k state = (0, k1)" "tv_hdmi_state E k1 = (0, state)"
  shows "lit (snd (sceHdmiSetState_patch E state k)) \<longleftrightarrow> state = 0"
  using assms by (auto simp: sceHdmiSetState_patch_def panel_contract_def update_screen_def
      update_screen_with_state_def Let_def split_beta)

end
