(* ===== verification/Debug_Tools.thy ===== *)
theory Debug_Tools
  imports Tool_Base
begin

text \<open>
  The two debugging modules: \<open>src/kernel/SceKernelPanicDebugger\<close>, which prints the registers of an
  exception before the handler of the debugger runs, and \<open>src/kernel/SceHwbkptTest\<close>, which sets a
  hardware break or watch point when the settings application starts.

  What is printed is the list of messages; the registers, the calls of the kernel and the hooked
  handlers are parameters.
\<close>

section \<open>Registers of an exception\<close>

record excp_context =
  ec_r :: "u32 list"
  ec_sp :: u32
  ec_lr :: u32
  ec_address_of_faulting_instruction :: u32
  ec_SPSR :: u32
  ec_VFP_registers :: "u64 list"
  ec_FPSCR :: u32
  ec_FPEXC :: u32
  ec_CONTEXTIDR :: u32
  ec_TPIDRURW :: u32
  ec_TPIDRURO :: u32
  ec_TPIDRPRW :: u32
  ec_TTBR1 :: u32
  ec_DACR :: u32
  ec_DFSR :: u32
  ec_IFSR :: u32
  ec_DFAR :: u32
  ec_IFAR :: u32
  ec_DBGSCRext :: u32

definition cpu_reg_name :: "string list" where
  "cpu_reg_name =
    [''r0'', ''r1'', ''r2'', ''r3'', ''r4'', ''r5'', ''r6'', ''r7'', ''r8'', ''r9'', ''r10'', ''r11'',
     ''ip'', ''sp'', ''lr'', ''pc'']"

definition dbg_event_string_list :: "string list" where
  "dbg_event_string_list =
    [''Halt Request debug event'', ''Breakpoint debug event'', ''Asynchronous Watchpoint debug event'',
     ''BKPT Instruction debug event'', ''External Debug Request debug event'', ''Vector Catch debug event'',
     ''0x6'', ''0x7'', ''OS Unlock Catch debug event'', ''0x9'', ''Synchronous Watchpoint debug event'', ''0xB'',
     ''0xC'', ''0xD'', ''0xE'', ''0xF'']"

definition row4 :: "excp_context \<Rightarrow> nat \<Rightarrow> message" where
  "row4 c i =
     (''%-02s-%-03s : 0x%08X 0x%08X 0x%08X 0x%08X\<newline>'',
      [Text (cpu_reg_name ! i), Text (cpu_reg_name ! (i + 3)), Num32 (ec_r c ! i), Num32 (ec_r c ! (i + 1)),
       Num32 (ec_r c ! (i + 2)), Num32 (ec_r c ! (i + 3))])"

definition reg_line :: "nat \<Rightarrow> u32 \<Rightarrow> message" where
  "reg_line i w = (''%s     : 0x%08X\<newline>'', [Text (cpu_reg_name ! i), Num32 w])"

text \<open>One turn of the loop over the floating point registers.\<close>

definition vfp_line :: "excp_context \<Rightarrow> nat \<Rightarrow> message" where
  "vfp_line c i =
     (''d%-02d-d%-02d : 0x%016llX 0x%016llX 0x%016llX 0x%016llX\<newline>'',
      [Num32 (of_nat (i * 4)), Num32 (of_nat (i * 4 + 3)),
       Num64 (ec_VFP_registers c ! (i + 0)), Num64 (ec_VFP_registers c ! (i + 1)),
       Num64 (ec_VFP_registers c ! (i + 2)), Num64 (ec_VFP_registers c ! (i + 3))])"

definition event_name :: "u32 \<Rightarrow> string" where
  "event_name w = dbg_event_string_list ! unat (drop_bit 2 w AND 0xF)"

definition print_excp_info :: "excp_context \<Rightarrow> message list" where
  "print_excp_info c =
     [(''\<newline>**** Exception info ****\<newline>\<newline>'', []), row4 c 0, row4 c 4, row4 c 8,
      reg_line 12 (ec_r c ! 12), reg_line 13 (ec_sp c), reg_line 14 (ec_lr c),
      reg_line 15 (ec_address_of_faulting_instruction c),
      (''CPSR   : 0x%08X\<newline>'', [Num32 (ec_SPSR c)]), (''\<newline>'', [])] @
     map (vfp_line c) [0 ..< 8] @
     [(''FPSCR : 0x%08X\<newline>'', [Num32 (ec_FPSCR c)]), (''FPEXC : 0x%08X\<newline>'', [Num32 (ec_FPEXC c)]),
      (''\<newline>'', []),
      (''CONTEXTIDR : 0x%08X\<newline>'', [Num32 (ec_CONTEXTIDR c)]),
      (''TPIDRURW   : 0x%08X\<newline>'', [Num32 (ec_TPIDRURW c)]),
      (''TPIDRURO   : 0x%08X\<newline>'', [Num32 (ec_TPIDRURO c)]),
      (''TPIDRPRW   : 0x%08X\<newline>'', [Num32 (ec_TPIDRPRW c)]),
      (''TTBR1      : 0x%08X\<newline>'', [Num32 (ec_TTBR1 c)]),
      (''DACR       : 0x%08X\<newline>'', [Num32 (ec_DACR c)]),
      (''\<newline>'', []),
      (''DFSR : 0x%08X\<newline>'', [Num32 (ec_DFSR c)]), (''IFSR : 0x%08X\<newline>'', [Num32 (ec_IFSR c)]),
      (''DFAR : 0x%08X\<newline>'', [Num32 (ec_DFAR c)]), (''IFAR : 0x%08X\<newline>'', [Num32 (ec_IFAR c)])] @
     (if ec_IFSR c AND 0x140F = 2
      then [(''DBGDSCR : 0x%08X [ %s ]\<newline>'', [Num32 (ec_DBGSCRext c), Text (event_name (ec_DBGSCRext c))])]
      else [])"

text \<open>The three hooks have the same body; \<open>print\<close> prints messages and \<open>continue_to\<close> is the handler.\<close>

definition sceSDfMgrDbgExcpPabtHandler_patch ::
    "('k \<Rightarrow> message list \<Rightarrow> 'k) \<Rightarrow> (excp_context \<Rightarrow> u32 \<Rightarrow> u32 \<Rightarrow> 'k \<Rightarrow> s32 \<times> 'k) \<Rightarrow> excp_context \<Rightarrow> u32 \<Rightarrow> u32 \<Rightarrow>
     'k \<Rightarrow> s32 \<times> 'k" where
  "sceSDfMgrDbgExcpPabtHandler_patch print continue_to c pc cpsr k =
     continue_to c pc cpsr (print k (print_excp_info c))"

definition sceSDfMgrDbgExcpDabtHandler_patch ::
    "('k \<Rightarrow> message list \<Rightarrow> 'k) \<Rightarrow> (excp_context \<Rightarrow> u32 \<Rightarrow> u32 \<Rightarrow> 'k \<Rightarrow> s32 \<times> 'k) \<Rightarrow> excp_context \<Rightarrow> u32 \<Rightarrow> u32 \<Rightarrow>
     'k \<Rightarrow> s32 \<times> 'k" where
  "sceSDfMgrDbgExcpDabtHandler_patch print continue_to c pc cpsr k =
     continue_to c pc cpsr (print k (print_excp_info c))"

definition sceSDfMgrDbgExcpUndefHandler_patch ::
    "('k \<Rightarrow> message list \<Rightarrow> 'k) \<Rightarrow> (excp_context \<Rightarrow> u32 \<Rightarrow> u32 \<Rightarrow> 'k \<Rightarrow> s32 \<times> 'k) \<Rightarrow> excp_context \<Rightarrow> u32 \<Rightarrow> u32 \<Rightarrow>
     'k \<Rightarrow> s32 \<times> 'k" where
  "sceSDfMgrDbgExcpUndefHandler_patch print continue_to c pc cpsr k =
     continue_to c pc cpsr (print k (print_excp_info c))"

text \<open>
  \<open>info\<close> gives the number and the fingerprint of a module, \<open>hook\<close> hooks an offset in it.  The entry
  returns its result, the three hooks and the messages about those that failed.
\<close>

definition panic_module_start ::
    "(string \<Rightarrow> s32) \<Rightarrow> (string \<Rightarrow> (s32 \<times> u32) option) \<Rightarrow> ('k \<Rightarrow> s32 \<Rightarrow> u32 \<Rightarrow> s32 \<times> 'k) \<Rightarrow> 'k \<Rightarrow>
     start_result \<times> s32 list \<times> message list \<times> 'k" where
  "panic_module_start search info hook k =
     (if failed (search ''SceDeci4pSDfMgr'') then (START_NO_RESIDENT, [], [], k)
      else case info ''SceDeci4pSDfMgr'' of
        None \<Rightarrow> (START_NO_RESIDENT, [], [], k)
      | Some (modid, nid) \<Rightarrow>
        if nid = 0xC7A13F58 then
          let (h0, k) = hook k modid 0x2234; (h1, k) = hook k modid 0x22F0; (h2, k) = hook k modid 0x23AC;
              hs = [h0, h1, h2]
          in (START_SUCCESS, hs,
              concat (map (\<lambda>i. if failed (hs ! i)
                then [(''Failed hook(%d) = 0x%X\<newline>'', [Num32 (of_nat i), Num32 (hs ! i)])] else []) [0 ..< 3]), k)
        else (START_NO_RESIDENT, [], [(''Unknown module fingerprint=0x%08X\<newline>'', [Num32 nid])], k))"

text \<open>The name of the event is always in the table.\<close>

lemma event_name_listed: "event_name w \<in> set dbg_event_string_list"
proof -
  have "drop_bit 2 w AND 0xF = take_bit 4 (drop_bit 2 w)"
    by (simp add: take_bit_eq_mask mask_eq_exp_minus_1)
  then have "unat (drop_bit 2 w AND 0xF) < 16" by (simp add: unat_take)
  then show ?thesis unfolding event_name_def by (intro nth_mem) (simp add: dbg_event_string_list_def)
qed

text \<open>
  The row labelled with the registers \<open>4 * i\<close> to \<open>4 * i + 3\<close> holds the registers \<open>i\<close> to \<open>i + 3\<close>: only the
  first row is right, and the registers from 11 on are not printed at all.
\<close>

definition vfp_shown :: "nat list" where
  "vfp_shown = concat (map (\<lambda>i. [i, i + 1, i + 2, i + 3]) [0 ..< 8])"

lemma vfp_rows:
  "snd (vfp_line c i) ! 0 = Num32 (of_nat (4 * i)) \<and> drop 2 (snd (vfp_line c i)) =
     map (\<lambda>r. Num64 (ec_VFP_registers c ! r)) [i, i + 1, i + 2, i + 3]"
  "concat (map (\<lambda>i. drop 2 (snd (vfp_line c i))) [0 ..< 8]) = map (\<lambda>r. Num64 (ec_VFP_registers c ! r)) vfp_shown"
  "set vfp_shown = {0 ..< 11}"
proof -
  show "snd (vfp_line c i) ! 0 = Num32 (of_nat (4 * i)) \<and> drop 2 (snd (vfp_line c i)) =
     map (\<lambda>r. Num64 (ec_VFP_registers c ! r)) [i, i + 1, i + 2, i + 3]"
    by (simp add: vfp_line_def mult.commute numeral_2_eq_2)
  show "concat (map (\<lambda>i. drop 2 (snd (vfp_line c i))) [0 ..< 8]) = map (\<lambda>r. Num64 (ec_VFP_registers c ! r)) vfp_shown"
    by (simp add: vfp_line_def vfp_shown_def map_concat comp_def)
  show "set vfp_shown = {0 ..< 11}" by (auto simp: vfp_shown_def upt_conv_Cons; presburger)
qed

section \<open>Hardware break points\<close>

text \<open>The control words, composed as the code does.\<close>

definition watch_control :: u32 where
  "watch_control =
     (1 AND 1) OR push_bit 1 (3 AND 3) OR push_bit 3 (3 AND 3) OR push_bit 5 (0xF AND 0xF) OR push_bit 14 (1 AND 3)"

definition break_control :: u32 where
  "break_control =
     (1 AND 1) OR push_bit 1 (3 AND 3) OR push_bit 5 (0xF AND 0xF) OR push_bit 14 (1 AND 3) OR push_bit 20 (0 AND 7)"

lemma control_words: "watch_control = 0x41FF" "break_control = 0x41E7"
  by (simp_all add: watch_control_def break_control_def push_bit_eq_mult)

record 'k bkpt_env =
  hb_title :: "'k \<Rightarrow> s32 \<Rightarrow> string"
  hb_main_thread :: "'k \<Rightarrow> s32 \<Rightarrow> s32"
  hb_segment :: "'k \<Rightarrow> s32 \<Rightarrow> nat \<Rightarrow> addr"
  hb_controls :: "'k \<Rightarrow> u32"
  hb_is_tool :: "'k \<Rightarrow> s32"
  hb_is_cex :: "'k \<Rightarrow> s32"
  hb_set_PHWP :: "'k \<Rightarrow> s32 \<Rightarrow> u32 \<Rightarrow> addr \<Rightarrow> u32 \<Rightarrow> 'k"
  hb_set_PHBP :: "'k \<Rightarrow> s32 \<Rightarrow> u32 \<Rightarrow> addr \<Rightarrow> u32 \<Rightarrow> 'k"
  hb_set_THBP :: "'k \<Rightarrow> s32 \<Rightarrow> u32 \<Rightarrow> addr \<Rightarrow> u32 \<Rightarrow> 'k"
  hb_print :: "'k \<Rightarrow> message \<Rightarrow> 'k"
  hb_select :: u32
  hb_start :: u32

text \<open>
  The handler of a new process.  \<open>hb_select\<close> and \<open>hb_start\<close> are the masks of the two buttons, whose
  bits are 0 while they are held.
\<close>

definition proc_create :: "'k bkpt_env \<Rightarrow> s32 \<Rightarrow> 'k \<Rightarrow> s32 \<times> 'k" where
  "proc_create E pid k =
     (if take 0x1F (hb_title E k pid) = ''NPXS10015'' then
        let thread_id = hb_main_thread E k pid; ctrl = hb_controls E k in
        if NOT ctrl AND hb_select E \<noteq> 0
        then (0, hb_set_PHWP E k pid 3 (hb_segment E k pid 1 + 0x3C) watch_control)
        else if NOT ctrl AND hb_start E \<noteq> 0
        then (0, hb_set_PHBP E k pid 4 (hb_segment E k pid 0 + 0x110) break_control)
        else
          let bkpt_address = (if hb_is_tool E k \<noteq> 0 then hb_segment E k pid 0 + 0x2749a
                else if hb_is_cex E k \<noteq> 0 then hb_segment E k pid 0 + 0x2737e else NULL);
              k = (if bkpt_address = NULL then hb_print E k (''[hwbkpt] Not supported device\<newline>'', []) else k)
          in (0, hb_set_THBP E k thread_id 5 bkpt_address break_control)
      else (0, k))"

text \<open>
  \<open>export\<close> resolves a function, \<open>register\<close> registers the handler.  The messages about failures, which
  only name a line of the source, are left out.
\<close>

definition hwbkpt_module_start ::
    "('k \<Rightarrow> u32 \<Rightarrow> s32) \<Rightarrow> ('k \<Rightarrow> string \<Rightarrow> u32 \<Rightarrow> u32 \<Rightarrow> s32) \<Rightarrow> ('k \<Rightarrow> s32 \<times> 'k) \<Rightarrow> s32 \<Rightarrow> 'k \<Rightarrow>
     start_result \<times> s32 \<times> 'k" where
  "hwbkpt_module_start dipsw export register proc_event_guid k =
     (if dipsw k 0xE4 = 0 then (START_NO_RESIDENT, proc_event_guid, k)
      else if failed (export k ''SceKernelThreadMgr'' 0xe2c40624 0x385831A1) \<or>
         failed (export k ''SceKernelThreadMgr'' 0xe2c40624 0x453B764A) \<or>
         failed (export k ''SceProcessmgr'' 0x7A69DE86 0x54D7B16A) \<or>
         failed (export k ''SceProcessmgr'' 0x7A69DE86 0xC55BF6C3) \<or>
         failed (export k ''SceProcessmgr'' 0x7A69DE86 0x59FA3216) \<or>
         failed (export k ''SceProcessmgr'' 0x7A69DE86 0xA9C20202)
      then (START_NO_RESIDENT, proc_event_guid, k)
      else let (res, k) = register k in
        if failed res then (START_NO_RESIDENT, proc_event_guid, k) else (START_SUCCESS, res, k))"

text \<open>Without either button on a console that is neither kind, a break point is set at address 0.\<close>

lemma proc_create_unsupported:
  assumes "hb_title E k pid = ''NPXS10015''" "NOT (hb_controls E k) AND hb_select E = 0"
    "NOT (hb_controls E k) AND hb_start E = 0" "hb_is_tool E k = 0" "hb_is_cex E k = 0"
  shows "proc_create E pid k =
    (0, hb_set_THBP E (hb_print E k (''[hwbkpt] Not supported device\<newline>'', [])) (hb_main_thread E k pid) 5 NULL 0x41E7)"
  using assms by (simp add: proc_create_def Let_def control_words)

lemma proc_create_other:
  "take 0x1F (hb_title E k pid) \<noteq> ''NPXS10015'' \<Longrightarrow> proc_create E pid k = (0, k)"
  by (simp add: proc_create_def)

end
