(* ===== verification/Custom_Heaps.thy ===== *)
theory Custom_Heaps
  imports Tool_Base Malloc_Test
begin

text \<open>
  Three samples that build a heap of their own and try it: \<open>src/user/PafCustomMalloc\<close>,
  \<open>src/kernel/KernelCustomMalloc\<close> and \<open>src/kernel/FixedHeap-Test\<close>.

  The allocators, the calls that find internal functions and the printing of messages are parameters.
  The loops over arrays of pointers and the notion of an allocated block are those of \<open>Malloc_Test\<close>.
\<close>

section \<open>PafCustomMalloc\<close>

record 'k paf_heap_env =
  ph_load :: "'k \<Rightarrow> s32 \<times> 'k"
  ph_create :: "'k \<Rightarrow> SceSize \<Rightarrow> string \<Rightarrow> 'k"
  ph_malloc :: "'k \<Rightarrow> SceSize \<Rightarrow> addr \<times> 'k"
  ph_realloc :: "'k \<Rightarrow> addr \<Rightarrow> SceSize \<Rightarrow> addr \<times> 'k"
  ph_memalign :: "'k \<Rightarrow> SceSize \<Rightarrow> SceSize \<Rightarrow> addr \<times> 'k"
  ph_free :: "'k \<Rightarrow> addr \<Rightarrow> 'k"
  ph_delete :: "'k \<Rightarrow> 'k"
  ph_unload :: "'k \<Rightarrow> 'k"
  ph_exit :: "'k \<Rightarrow> 'k"
  ph_print :: "'k \<Rightarrow> message \<Rightarrow> 'k"

definition paf_sizes_list :: "SceSize list" where
  "paf_sizes_list = [0x10000, 0x200, 0x400, 0x800, 0x100, 0x80, 0x40, 0x20, 0x10]"

text \<open>One turn of the first loop for a size; the pointer that is left in the array.\<close>

definition paf_round :: "'k paf_heap_env \<Rightarrow> 'k \<Rightarrow> AllocFreeTestParam \<Rightarrow> addr \<times> 'k" where
  "paf_round E k = (\<lambda>(len, align).
     let (p, k) = ph_malloc E k len;
         (p, k) = ph_realloc E k p (len + 0x123);
         k = ph_print E k (''malloc test    : 0x%08X/0x%X\<newline>'', [Num32 p, Num32 len]);
         k = ph_free E k p;
         (p, k) = ph_memalign E k align len;
         k = ph_print E k (''malloc test    : 0x%08X/0x%X(with align)\<newline>'', [Num32 p, Num32 len])
     in (p, k))"

text \<open>\<open>ptr_list\<close> is the local array with any values, \<open>test_heap\<close> the address of the memory of the heap.\<close>

definition paf_main :: "'k paf_heap_env \<Rightarrow> addr \<Rightarrow> addr list \<Rightarrow> 'k \<Rightarrow> s32 \<times> addr list \<times> 'k" where
  "paf_main E test_heap ptr_list k =
     (let (_, k) = ph_load E k;
          k = ph_create E k 0x8000 ''ScePafHeap'';
          k = ph_print E k (''test_heap ptr  : 0x%X\<newline>'', [Num32 test_heap]);
          (ptr_list, k) = alloc_loop (paf_round E) (map (\<lambda>l. (l, 0x400)) paf_sizes_list) 0 ptr_list k;
          (ptr_list, k) = free_loop (ph_free E) (length paf_sizes_list) 0 ptr_list k;
          k = ph_delete E k;
          k = ph_unload E k;
          k = ph_exit E k
      in (0, ptr_list, k))"

section \<open>KernelCustomMalloc\<close>

record 'k custom_malloc_env =
  cm_info :: "string \<Rightarrow> s32"
  cm_offset :: "'k \<Rightarrow> u32 \<Rightarrow> 'k"
  cm_export :: "'k \<Rightarrow> u32 \<Rightarrow> u32 \<Rightarrow> s32 \<times> 'k"
  cm_create_heap :: "'k \<Rightarrow> string \<Rightarrow> SceSize \<Rightarrow> s32 \<times> 'k"
  cm_object :: "'k \<Rightarrow> s32 \<Rightarrow> addr"
  cm_init :: "'k \<Rightarrow> addr \<Rightarrow> 'k"
  cm_alloc :: "'k \<Rightarrow> addr \<Rightarrow> SceSize \<Rightarrow> SceSize \<Rightarrow> addr \<times> 'k"
  cm_free :: "'k \<Rightarrow> addr \<Rightarrow> addr \<Rightarrow> 'k"
  cm_print :: "'k \<Rightarrow> message \<Rightarrow> 'k"

definition malloc_test :: "'k custom_malloc_env \<Rightarrow> addr \<Rightarrow> SceSize \<Rightarrow> SceSize \<Rightarrow> 'k \<Rightarrow> s32 \<times> 'k" where
  "malloc_test E ctx len align k =
     (let (p, k) = cm_alloc E k ctx len align in
      if p \<noteq> NULL
      then let k = cm_print E k (''sceKernelAllocInternal 0x%X(align:0x%X)\<newline>'', [Num32 p, Num32 align])
           in (0, cm_free E k ctx p)
      else (0, cm_print E k (''sceKernelAllocInternal failed\<newline>'', [])))"

definition test_aligns :: "SceSize list" where
  "test_aligns = [0x10, 0x20, 0x40, 0x80, 0x100, 0x200, 0x400, 0x800]"

text \<open>\<open>cm_init\<close> are the two calls that build the context of the heap from its object.\<close>

definition custom_malloc_module_start :: "'k custom_malloc_env \<Rightarrow> 'k \<Rightarrow> start_result \<times> 'k" where
  "custom_malloc_module_start E k =
     (if failed (cm_info E ''SceSysmem'')
      then (START_FAILED, cm_print E k (''taiGetModuleInfoForKernel failed\<newline>'', []))
      else
      let k = foldl (cm_offset E) k [0xD21, 0xD7D, 0x1557D, 0x15609];
          (r, k) = cm_export E k 0x63A519E5 0x4D38F861 in
      if failed r then (START_FAILED, k)
      else let (r, k) = cm_export E k 0x63A519E5 0xED221825 in
      if failed r then (START_FAILED, k)
      else let (heap_uid, k) = cm_create_heap E k ''SceKernelHeapForTest'' 0x2000 in
      if failed heap_uid
      then (START_FAILED, cm_print E k (''sceKernelCreateHeap failed : 0x%X\<newline>'', [Num32 heap_uid]))
      else let ctx = cm_object E k heap_uid; k = cm_init E k ctx in
        (START_SUCCESS, foldl (\<lambda>k align. snd (malloc_test E ctx 0x100 align k)) k test_aligns))"

section \<open>FixedHeap-Test\<close>

record 'k fixed_heap_env =
  fh_export :: "'k \<Rightarrow> u32 \<Rightarrow> u32 \<Rightarrow> 'k"
  fh_create :: "'k \<Rightarrow> s32 \<times> addr \<times> 'k"
  fh_word :: "'k \<Rightarrow> addr \<Rightarrow> addr"
  fh_alloc :: "'k \<Rightarrow> addr \<Rightarrow> addr \<times> 'k"
  fh_free :: "'k \<Rightarrow> addr \<Rightarrow> addr \<Rightarrow> 'k"
  fh_kernel_alloc :: "'k \<Rightarrow> SceSize \<Rightarrow> addr \<times> 'k"
  fh_kernel_free :: "'k \<Rightarrow> addr \<Rightarrow> 'k"
  fh_print :: "'k \<Rightarrow> message \<Rightarrow> 'k"

text \<open>The two functions that the heap calls for its pages; they are passed to \<open>fh_create\<close>.\<close>

definition my_funcAlloc :: "'k fixed_heap_env \<Rightarrow> s32 \<Rightarrow> SceSize \<Rightarrow> 'k \<Rightarrow> addr \<times> 'k" where
  "my_funcAlloc E a1 len k = fh_kernel_alloc E k len"

definition my_funcFree :: "'k fixed_heap_env \<Rightarrow> s32 \<Rightarrow> addr \<Rightarrow> 'k \<Rightarrow> 'k" where
  "my_funcFree E a1 ptr k = fh_kernel_free E k ptr"

definition fixed_alloc_print :: "'k fixed_heap_env \<Rightarrow> addr \<Rightarrow> 'k \<Rightarrow> addr \<times> 'k" where
  "fixed_alloc_print E pFixedHeap k =
     (let (p, k) = fh_alloc E k pFixedHeap in (p, fh_print E k (''alloc_res: 0x%X\<newline>'', [Num32 p])))"

function fixed_alloc_loop :: "'k fixed_heap_env \<Rightarrow> addr \<Rightarrow> nat \<Rightarrow> addr list \<Rightarrow> 'k \<Rightarrow> addr list \<times> 'k" where
  "fixed_alloc_loop E pFixedHeap i alloc_res k =
     (if i < 0x40
      then let (p, k) = fh_alloc E k pFixedHeap;
               k = fh_print E k (''alloc_res: %d-0x%X\<newline>'', [Num32 (of_nat i), Num32 p])
        in fixed_alloc_loop E pFixedHeap (i + 1) (alloc_res[i := p]) k
      else (alloc_res, k))"
  by pat_completeness auto

termination
  by (relation "measure (\<lambda>(E, h, i, r, k). 0x40 - i)") auto

declare fixed_alloc_loop.simps [simp del]

definition fixed_heap_module_start :: "'k fixed_heap_env \<Rightarrow> addr list \<Rightarrow> 'k \<Rightarrow> start_result \<times> addr list \<times> 'k" where
  "fixed_heap_module_start E alloc_res k =
     (let k = fh_print E k (''AAA\<newline>'', []);
          k = fh_export E k 0x63A519E5 0x36830F46;
          k = fh_export E k 0x63A519E5 0xC8672A3D;
          k = fh_export E k 0x63A519E5 0x571660AA;
          (res, result, k) = fh_create E k;
          k = fh_print E k (''sceKernelCreateObjectHeap: 0x%X\<newline>'', [Num32 res])
      in if \<not> failed res then
        let k = fh_print E k (''result: 0x%X\<newline>'', [Num32 result]);
            pFixedHeap = fh_word E k (result + 0x18);
            (alloc_res, k) = fixed_alloc_loop E pFixedHeap 0 alloc_res k;
            k = fh_free E k pFixedHeap (alloc_res ! 2);
            (p, k) = fixed_alloc_print E pFixedHeap k; alloc_res = alloc_res[2 := p];
            (p, k) = fixed_alloc_print E pFixedHeap k; alloc_res = alloc_res[2 := p]
        in (START_SUCCESS, alloc_res, k)
      else (START_SUCCESS, alloc_res, k))"

section \<open>Balance\<close>

text \<open>
  \<open>ph_realloc\<close> on a block gives another block in its place, or NULL and then the old block stays.
\<close>

definition paf_heap_contract :: "'k paf_heap_env \<Rightarrow> 'k blocks \<Rightarrow> bool" where
  "paf_heap_contract E live \<longleftrightarrow>
     alloc_ok live Paf (\<lambda>k (len, align). ph_malloc E k len) \<and>
     alloc_ok live Paf (\<lambda>k (len, align). ph_memalign E k align len) \<and> free_ok live Paf (ph_free E) \<and>
     (\<forall>k p n q k'. ph_realloc E k p n = (q, k') \<longrightarrow> p = NULL \<or> (Paf, p) \<in> live k \<longrightarrow>
        (if q = NULL then live k' = live k
         else live k' = insert (Paf, q) (live k - {(Paf, p)}) \<and> (Paf, q) \<notin> live k - {(Paf, p)} \<and>
              (p = NULL \<longrightarrow> (Paf, q) \<notin> live k))) \<and>
     (\<forall>k m. live (ph_print E k m) = live k) \<and> (\<forall>k. live (snd (ph_load E k)) = live k) \<and>
     (\<forall>k n x. live (ph_create E k n x) = live k)"

lemma alloc_okD:
  "alloc_ok live h alloc \<Longrightarrow> alloc k q = (p, k') \<Longrightarrow>
   if p = NULL then live k' = live k else (h, p) \<notin> live k \<and> live k' = insert (h, p) (live k)"
  unfolding alloc_ok_def by blast

text \<open>
  A turn keeps exactly its aligned block, unless \<open>ph_realloc\<close> fails on a block: the pointer to that one is
  overwritten with NULL and the block stays allocated.
\<close>

lemma paf_round_blocks:
  assumes C: "paf_heap_contract E live" and nz: "(Paf, NULL) \<notin> live k"
    and m: "ph_malloc E k len = (p, k1)" and r: "ph_realloc E k1 p (len + 0x123) = (q, k2)"
    and w: "paf_round E k (len, align) = (x, k')"
  shows "live k' = (if x = NULL then {} else {(Paf, x)}) \<union>
      (if p \<noteq> NULL \<and> q = NULL then {(Paf, p)} else {}) \<union> live k"
    and "\<not> (p \<noteq> NULL \<and> q = NULL) \<Longrightarrow> x \<noteq> NULL \<Longrightarrow> (Paf, x) \<notin> live k"
proof -
  note c = C [unfolded paf_heap_contract_def]
  have pr: "live (ph_print E s y) = live s" for s y using c by blast
  have fr: "live (ph_free E s NULL) = live s" "y \<noteq> NULL \<Longrightarrow> (Paf, y) \<in> live s \<Longrightarrow> live (ph_free E s y) = live s - {(Paf, y)}"
    for s y using c by (auto simp: free_ok_def)
  have 1: "if p = NULL then live k1 = live k else (Paf, p) \<notin> live k \<and> live k1 = insert (Paf, p) (live k)"
    using alloc_okD [of live Paf "\<lambda>k (len, align). ph_malloc E k len" k "(len, align)" p k1] c m by simp
  have "p = NULL \<or> (Paf, p) \<in> live k1" using 1 by (auto split: if_splits)
  then have 2: "if q = NULL then live k2 = live k1
      else live k2 = insert (Paf, q) (live k1 - {(Paf, p)}) \<and> (Paf, q) \<notin> live k1 - {(Paf, p)} \<and>
        (p = NULL \<longrightarrow> (Paf, q) \<notin> live k1)"
    using c r by blast
  define k3 where "k3 = ph_print E k2 (''malloc test    : 0x%08X/0x%X\<newline>'', [Num32 q, Num32 len])"
  have l3: "live k3 = live k2" by (simp add: k3_def pr)
  have 4: "live (ph_free E k3 q) = (if q = NULL then live k2 else live k2 - {(Paf, q)})"
  proof (cases "q = NULL")
    case True
    then show ?thesis using fr(1) l3 by simp
  next
    case False
    then have "(Paf, q) \<in> live k3" using 2 l3 by simp
    then show ?thesis using fr(2) False l3 by simp
  qed
  obtain y k5 where y: "ph_memalign E (ph_free E k3 q) align len = (y, k5)" by force
  then have 5: "ph_memalign E (ph_free E k3 q) align len = (x, k5)" "live k' = live k5"
    using w m r pr by (auto simp: paf_round_def Let_def k3_def)
  have "if x = NULL then live k5 = live (ph_free E k3 q)
      else (Paf, x) \<notin> live (ph_free E k3 q) \<and> live k5 = insert (Paf, x) (live (ph_free E k3 q))"
    using alloc_okD [of live Paf "\<lambda>k (len, align). ph_memalign E k align len" "ph_free E k3 q" "(len, align)" x k5]
      c 5(1) by simp
  note 6 = this
  show "live k' = (if x = NULL then {} else {(Paf, x)}) \<union>
      (if p \<noteq> NULL \<and> q = NULL then {(Paf, p)} else {}) \<union> live k"
    using 1 2 4 5(2) 6 nz by (auto split: if_splits)
  show "\<not> (p \<noteq> NULL \<and> q = NULL) \<Longrightarrow> x \<noteq> NULL \<Longrightarrow> (Paf, x) \<notin> live k"
    using 1 2 4 6 nz by (auto split: if_splits)
qed

text \<open>When no reallocation of a block fails, the sample frees everything before it deletes the heap.\<close>

lemma paf_rounds_balance:
  assumes C: "paf_heap_contract E live" and nz: "\<And>k. (Paf, NULL) \<notin> live k"
    and R: "\<And>k p n. p \<noteq> NULL \<Longrightarrow> (Paf, p) \<in> live k \<Longrightarrow> fst (ph_realloc E k p n) \<noteq> NULL"
    and l: "length ptr_list = length paf_sizes_list"
  shows "\<exists>k'. test_round (paf_round E) (ph_free E) (map (\<lambda>l. (l, 0x400)) paf_sizes_list) (ptr_list, k) =
    (replicate (length paf_sizes_list) NULL, k') \<and> live k' = live k"
proof -
  have A: "alloc_ok live Paf (paf_round E)"
    unfolding alloc_ok_def
  proof (intro allI impI)
    fix k :: 'a and qa :: AllocFreeTestParam and x k'
    assume w: "paf_round E k qa = (x, k')"
    obtain len align where qa: "qa = (len, align)" by (cases qa)
    obtain p k1 where m: "ph_malloc E k len = (p, k1)" by force
    obtain q k2 where r: "ph_realloc E k1 p (len + 0x123) = (q, k2)" by force
    have "p \<noteq> NULL \<Longrightarrow> (Paf, p) \<in> live k1"
      using alloc_okD [of live Paf "\<lambda>k (len, align). ph_malloc E k len" k "(len, align)" p k1] C m
      by (simp add: paf_heap_contract_def)
    then have nf: "\<not> (p \<noteq> NULL \<and> q = NULL)" using R [of p k1 "len + 0x123"] r by auto
    from paf_round_blocks(1) [OF C nz m r] w nf qa
    have lv: "live k' = (if x = NULL then {} else {(Paf, x)}) \<union> live k" by simp
    have "x \<noteq> NULL \<Longrightarrow> (Paf, x) \<notin> live k"
      using paf_round_blocks(2) [OF C nz m r _ nf] w qa by simp
    then show "if x = NULL then live k' = live k else (Paf, x) \<notin> live k \<and> live k' = insert (Paf, x) (live k)"
      using lv by simp
  qed
  show ?thesis
    using test_round_blocks [OF A, of "ph_free E" ptr_list "map (\<lambda>l. (l, 0x400)) paf_sizes_list" k] C l
    by (simp add: paf_heap_contract_def)
qed

text \<open>The tests of \<open>KernelCustomMalloc\<close> free each block that they get.\<close>

definition custom_contract :: "'k custom_malloc_env \<Rightarrow> addr \<Rightarrow> ('k \<Rightarrow> addr set) \<Rightarrow> bool" where
  "custom_contract E ctx live \<longleftrightarrow>
     (\<forall>k len align p k'. cm_alloc E k ctx len align = (p, k') \<longrightarrow>
        (if p = NULL then live k' = live k else p \<notin> live k \<and> live k' = insert p (live k))) \<and>
     (\<forall>k p. p \<in> live k \<longrightarrow> live (cm_free E k ctx p) = live k - {p}) \<and>
     (\<forall>k m. live (cm_print E k m) = live k)"

lemma malloc_test_balance:
  assumes "custom_contract E ctx live"
  shows "live (snd (malloc_test E ctx len align k)) = live k"
proof -
  obtain p k1 where a: "cm_alloc E k ctx len align = (p, k1)" by force
  have "if p = NULL then live k1 = live k else p \<notin> live k \<and> live k1 = insert p (live k)"
    by (rule assms [unfolded custom_contract_def, THEN conjunct1, rule_format, OF a])
  moreover have "live (cm_print E s m) = live s" for s m
    using assms [unfolded custom_contract_def, THEN conjunct2, THEN conjunct2] by blast
  moreover have "q \<in> live s \<Longrightarrow> live (cm_free E s ctx q) = live s - {q}" for q s
    using assms [unfolded custom_contract_def, THEN conjunct2, THEN conjunct1] by blast
  ultimately show ?thesis using a by (auto simp: malloc_test_def Let_def split: if_splits)
qed

lemma malloc_tests_foldl:
  "custom_contract E ctx live \<Longrightarrow>
   live (foldl (\<lambda>k align. snd (malloc_test E ctx n align k)) k as) = live k"
  by (induction as arbitrary: k) (simp_all add: malloc_test_balance)

end
