(* ===== verification/Address_Mapping.thy ===== *)
theory Address_Mapping
  imports Tool_Base
begin

text \<open>
  Samples about physical and virtual addresses: \<open>src/kernel/MappingVaddrSample\<close>, which finds the
  translation tables of the processor and maps a megabyte, \<open>src/kernel/map_user_memblk_by_paddr\<close>, which
  maps one physical page many times into a new process, and \<open>src/kernel/ArmMemoryAccessTester\<close>, which
  reads memory of a process in its address space.

  \<open>translate\<close> is the address translation instruction of the processor; the calls of the kernel are
  parameters.
\<close>

section \<open>From a physical address to a virtual one\<close>

function pa2va_loop :: "(u32 \<Rightarrow> u32) \<Rightarrow> u32 \<Rightarrow> nat \<Rightarrow> u32" where
  "pa2va_loop translate pa i =
     (if i < 0x100000
      then let vaddr = push_bit 12 (word_of_nat i); paddr = translate vaddr in
        if pa AND NOT 0xFFF = paddr AND NOT 0xFFF then vaddr + (pa AND 0xFFF)
        else pa2va_loop translate pa (i + 1)
      else 0)"
  by pat_completeness auto

termination
  by (relation "measure (\<lambda>(t, pa, i). 0x100000 - i)") auto

declare pa2va_loop.simps [simp del]

definition pa2va :: "(u32 \<Rightarrow> u32) \<Rightarrow> u32 \<Rightarrow> addr" where
  "pa2va translate pa = pa2va_loop translate pa 0"

text \<open>Pages by their numbers.\<close>

definition page_va :: "nat \<Rightarrow> u32" where "page_va i = push_bit 12 (word_of_nat i)"

definition same_page :: "u32 \<Rightarrow> u32 \<Rightarrow> bool" where
  "same_page a b \<longleftrightarrow> unat a div 4096 = unat b div 4096"

lemma same_page_mask: "a AND NOT 0xFFF = b AND NOT 0xFFF \<longleftrightarrow> same_page a b"
proof -
  have m: "(0xFFF :: u32) = mask 12" by (simp add: mask_eq_exp_minus_1)
  have "unat (x AND NOT 0xFFF) = unat x div 4096 * 4096" for x :: u32
    unfolding m by (simp only: unat_and_not_mask) simp
  then have "a AND NOT 0xFFF = b AND NOT 0xFFF \<longleftrightarrow> unat a div 4096 * 4096 = unat b div 4096 * 4096"
    unfolding word_unat_eq_iff by simp
  then show ?thesis by (simp add: same_page_def)
qed

lemma pa2va_loop_step:
  "pa2va_loop translate pa i =
     (if i < 0x100000
      then if same_page pa (translate (page_va i)) then page_va i + (pa AND 0xFFF)
        else pa2va_loop translate pa (i + 1)
      else 0)"
  by (subst pa2va_loop.simps) (simp only: same_page_mask page_va_def Let_def)

lemma pa2va_loop_first:
  "(\<forall>j. i \<le> j \<and> j < 0x100000 \<longrightarrow> \<not> same_page pa (translate (page_va j))) \<and> pa2va_loop translate pa i = 0 \<or>
   (\<exists>j. i \<le> j \<and> j < 0x100000 \<and> same_page pa (translate (page_va j)) \<and>
     (\<forall>l. i \<le> l \<and> l < j \<longrightarrow> \<not> same_page pa (translate (page_va l))) \<and>
     pa2va_loop translate pa i = page_va j + (pa AND 0xFFF))"
proof (induction "0x100000 - i" arbitrary: i rule: less_induct)
  case less
  show ?case
  proof (cases "i < 0x100000")
    case False
    then show ?thesis using pa2va_loop_step [of translate pa i] by auto
  next
    case True
    show ?thesis
    proof (cases "same_page pa (translate (page_va i))")
      case hit: True
      then have "pa2va_loop translate pa i = page_va i + (pa AND 0xFFF)"
        using True by (subst pa2va_loop_step) simp
      then show ?thesis using True hit by (intro disjI2 exI [of _ i]) auto
    next
      case miss: False
      then have e: "pa2va_loop translate pa i = pa2va_loop translate pa (i + 1)"
        using True by (subst pa2va_loop_step) simp
      have "0x100000 - (i + 1) < 0x100000 - i" using True by simp
      from less.hyps [OF this] show ?thesis
      proof (elim disjE conjE exE)
        assume n: "\<forall>j. i + 1 \<le> j \<and> j < 0x100000 \<longrightarrow> \<not> same_page pa (translate (page_va j))"
          and z: "pa2va_loop translate pa (i + 1) = 0"
        have "\<not> same_page pa (translate (page_va j))" if "i \<le> j" "j < 0x100000" for j
          using n miss that by (cases "j = i") auto
        then show ?thesis using e z by auto
      next
        fix j
        assume j: "i + 1 \<le> j" "j < 0x100000" "same_page pa (translate (page_va j))"
          "\<forall>l. i + 1 \<le> l \<and> l < j \<longrightarrow> \<not> same_page pa (translate (page_va l))"
          "pa2va_loop translate pa (i + 1) = page_va j + (pa AND 0xFFF)"
        have "\<not> same_page pa (translate (page_va l))" if "i \<le> l" "l < j" for l
          using j(4) miss that by (cases "l = i") auto
        then show ?thesis using e j by (intro disjI2 exI [of _ j]) simp
      qed
    qed
  qed
qed

text \<open>
  The search returns; its result is the first page that translates to the page of \<open>pa\<close>, with the same
  offset in the page, or NULL when there is none.
\<close>

lemma pa2va_first:
  "(\<forall>j < 0x100000. \<not> same_page pa (translate (page_va j))) \<and> pa2va translate pa = 0 \<or>
   (\<exists>j < 0x100000. same_page pa (translate (page_va j)) \<and>
     (\<forall>l < j. \<not> same_page pa (translate (page_va l))) \<and>
     unat (pa2va translate pa) = j * 4096 + unat pa mod 4096)"
proof -
  have v: "unat (page_va j + (pa AND 0xFFF)) = j * 4096 + unat pa mod 4096" if j: "j < 0x100000" for j
  proof -
    have "pa AND 0xFFF = take_bit 12 pa" by (simp add: take_bit_eq_mask mask_eq_exp_minus_1)
    then have o: "unat (pa AND 0xFFF) = unat pa mod 4096" by (simp add: unat_take)
    have "unat (word_of_nat j :: u32) = j" using j by (intro unat_word_of_nat) simp
    then have p: "unat (page_va j) = j * 4096"
      unfolding page_va_def using j by (subst unat_push) simp_all
    have "unat pa mod 4096 < 4096" by simp
    moreover have "j * 4096 \<le> 1048575 * 4096" using j by simp
    ultimately have "unat (page_va j) + unat (pa AND 0xFFF) < 4294967296" unfolding o p by linarith
    then show ?thesis using o p by (simp add: unat_word_ariths)
  qed
  show ?thesis using pa2va_loop_first [of 0 pa translate] v unfolding pa2va_def by fastforce
qed

section \<open>Mapping\<close>

record 'k mapping_env =
  me_info :: "string \<Rightarrow> s32"
  me_offset :: "'k \<Rightarrow> u32 \<Rightarrow> 'k"
  me_translate :: "u32 \<Rightarrow> u32"
  me_ttbr0 :: u32
  me_ttbr1 :: u32
  me_map :: "'k \<Rightarrow> addr \<Rightarrow> u32 \<Rightarrow> u32 \<Rightarrow> u32 \<Rightarrow> SceSize \<Rightarrow> u32 \<Rightarrow> 'k"
  me_clean :: "'k \<Rightarrow> addr \<Rightarrow> 'k"
  me_memory :: "'k \<Rightarrow> addr \<Rightarrow> nat \<Rightarrow> u8 list"
  me_print :: "'k \<Rightarrow> message \<Rightarrow> 'k"

text \<open>Entries of a table are words: the address of the entry is \<open>pTTBR + 4 * index\<close>.\<close>

definition map_vaddr ::
    "'k mapping_env \<Rightarrow> addr \<Rightarrow> addr \<Rightarrow> u32 \<Rightarrow> u32 \<Rightarrow> u32 \<Rightarrow> SceSize \<Rightarrow> u32 \<Rightarrow> 'k \<Rightarrow> s32 \<times> 'k" where
  "map_vaddr E pTTBR0 pTTBR1 memtype domain vaddr sz paddr k =
     (let pTTBR = (if vaddr < 0x40000000 then pTTBR0 else pTTBR1);
          k = me_map E k pTTBR memtype domain vaddr sz paddr;
          k = me_clean E k (pTTBR + 4 * (drop_bit 20 vaddr AND 0xFFF))
      in (0, k))"

text \<open>The mapped megabyte is written to the first of three files that can be opened.\<close>

definition mapping_module_start :: "'k mapping_env \<Rightarrow> 'k sce_io \<Rightarrow> 'k \<Rightarrow> start_result \<times> 'k" where
  "mapping_module_start E IO k =
     (if failed (me_info E ''SceSysmem'')
      then (START_SUCCESS, me_print E k (''taiGetModuleInfoForKernel failed\<newline>'', []))
      else
      let k = me_offset E k 0x2364D;
          ttbr0 = me_ttbr0 E AND NOT 0xFFF; ttbr1 = me_ttbr1 E AND NOT 0xFFF;
          pTTBR0 = pa2va (me_translate E) ttbr0; pTTBR1 = pa2va (me_translate E) ttbr1;
          k = me_print E k (''ttbr0 : 0x%X\<newline>'', [Num32 ttbr0]);
          k = me_print E k (''ttbr1 : 0x%X\<newline>'', [Num32 ttbr1]);
          (_, k) = map_vaddr E pTTBR0 pTTBR1 0x10200206 0xC 0x51000000 0x100000 0x51000000 k;
          fl = SCE_O_WRONLY IO OR SCE_O_CREAT IO OR SCE_O_TRUNC IO;
          (fd, k) = io_open IO k ''host0:nskbl_dump.bin'' fl 438;
          (fd, k) = (if failed fd then io_open IO k ''sd0:nskbl_dump.bin'' fl 438 else (fd, k));
          (fd, k) = (if failed fd then io_open IO k ''ux0:nskbl_dump.bin'' fl 438 else (fd, k))
      in if \<not> failed fd then
        let (_, k) = io_write IO k fd (me_memory E k 0x51000000 0x100000); (_, k) = io_close IO k fd
        in (START_NO_RESIDENT, k)
      else (START_NO_RESIDENT, k))"

section \<open>One page many times\<close>

text \<open>
  \<open>pm_base\<close> is the address of the block; \<open>um_output\<close> the array of 0x20 pairs of an address and a length.
  \<open>mb_paddr_list\<close> fills its first entries.
\<close>

record 'k paddr_module =
  pm_proc_event_id :: s32
  pm_memid :: s32
  pm_base :: addr
  pm_output :: "(u32 \<times> SceSize) list"
  pm_k :: 'k

record 'k paddr_env =
  mb_register :: "'k \<Rightarrow> s32 \<times> 'k"
  mb_unregister :: "'k \<Rightarrow> s32 \<Rightarrow> 'k"
  mb_alloc :: "'k \<Rightarrow> string \<Rightarrow> SceSize \<Rightarrow> s32 \<times> 'k"
  mb_free :: "'k \<Rightarrow> s32 \<Rightarrow> 'k"
  mb_get_base :: "'k \<Rightarrow> s32 \<Rightarrow> s32 \<times> addr"
  mb_fill :: "'k \<Rightarrow> addr \<Rightarrow> u8 list \<Rightarrow> 'k"
  mb_paddr_list :: "'k \<Rightarrow> u32 \<times> SceSize \<Rightarrow> s32 \<times> (u32 \<times> SceSize) list \<times> u32 \<times> u32"
  mb_alloc_user :: "'k \<Rightarrow> s32 \<Rightarrow> (u32 \<times> SceSize) list \<Rightarrow> s32 \<times> 'k"
  mb_user_uid :: "'k \<Rightarrow> s32 \<Rightarrow> s32 \<Rightarrow> 'k"
  mb_print :: "'k \<Rightarrow> message \<Rightarrow> 'k"

text \<open>The handler of a new process: every entry becomes the first one, and the list is mapped.\<close>

definition create_proc :: "'k paddr_env \<Rightarrow> s32 \<Rightarrow> 'k paddr_module \<Rightarrow> s32 \<times> 'k paddr_module" where
  "create_proc E pid s =
     (let (res, got, ret_length, ret_count) = mb_paddr_list E (pm_k s) (pm_base s, 0x1000);
          output = overwrite 0 (take 0x20 got) (pm_output s);
          k = mb_print E (pm_k s) (''sceKernelGetPaddrList : 0x%X\<newline>'', [Num32 res]);
          k = mb_print E k (''        ret_length : 0x%X\<newline>'', [Num32 ret_length]);
          k = mb_print E k (''        ret_count  : 0x%X\<newline>'', [Num32 ret_count]);
          output = foldl (\<lambda>out i. out[i := out ! 0]) output [1 ..< 0x20];
          (memid, k) = mb_alloc_user E k pid output;
          (_, user_base) = mb_get_base E k memid;
          k = mb_user_uid E k pid memid;
          k = mb_print E k (''user_base : 0x%X\<newline>'', [Num32 user_base])
      in (0, s\<lparr>pm_output := output, pm_k := k\<rparr>))"

definition fill_pattern :: "'k paddr_env \<Rightarrow> addr \<Rightarrow> 'k \<Rightarrow> 'k" where
  "fill_pattern E base k =
     foldl (\<lambda>k i. mb_fill E k (base + of_nat (i * 0x100)) (replicate 0x100 (of_nat (0x11 * i)))) k [0 ..< 0x10]"

text \<open>What the label \<open>error\<close> does.\<close>

definition paddr_cleanup :: "'k paddr_env \<Rightarrow> 'k paddr_module \<Rightarrow> start_result \<times> 'k paddr_module" where
  "paddr_cleanup E s =
     (let s = (if \<not> failed (pm_memid s) then s\<lparr>pm_memid := -1, pm_k := mb_free E (pm_k s) (pm_memid s)\<rparr> else s);
          s = (if \<not> failed (pm_proc_event_id s)
               then s\<lparr>pm_proc_event_id := -1, pm_k := mb_unregister E (pm_k s) (pm_proc_event_id s)\<rparr> else s)
      in (START_FAILED, s))"

definition paddr_module_start :: "'k paddr_env \<Rightarrow> 'k paddr_module \<Rightarrow> start_result \<times> 'k paddr_module" where
  "paddr_module_start E s =
     (let (res, k) = mb_register E (pm_k s); s = s\<lparr>pm_k := k\<rparr> in
      if failed res then paddr_cleanup E s
      else let s = s\<lparr>pm_proc_event_id := res\<rparr>;
               (res, k) = mb_alloc E (pm_k s) ''SceKernelMemoryMap'' 0x1000; s = s\<lparr>pm_k := k\<rparr> in
      if failed res then paddr_cleanup E s
      else let s = s\<lparr>pm_memid := res\<rparr>; (res, base) = mb_get_base E (pm_k s) (pm_memid s); s = s\<lparr>pm_base := base\<rparr> in
      if failed res then paddr_cleanup E s
      else (START_SUCCESS, s\<lparr>pm_k := fill_pattern E base (pm_k s)\<rparr>))"

text \<open>All entries are the first one.\<close>

lemma repeat_first:
  "n \<le> length out \<Longrightarrow> 0 < length out \<Longrightarrow>
   take n (foldl (\<lambda>out i. out[i := out ! 0]) out [1 ..< n]) = replicate n (out ! 0) \<and>
   length (foldl (\<lambda>out i. out[i := out ! 0]) out [1 ..< n]) = length out \<and>
   foldl (\<lambda>out i. out[i := out ! 0]) out [1 ..< n] ! 0 = out ! 0"
proof (induction n)
  case (Suc n)
  show ?case
  proof (cases "n = 0")
    case True
    then show ?thesis using Suc.prems by (simp add: take_Suc hd_conv_nth)
  next
    case False
    let ?o = "foldl (\<lambda>out i. out[i := out ! 0]) out [1 ..< n]"
    have IH: "take n ?o = replicate n (out ! 0)" "length ?o = length out" "?o ! 0 = out ! 0"
      using Suc False by simp_all
    have u: "[1 ..< Suc n] = [1 ..< n] @ [n]" using False by simp
    have "take (Suc n) (?o[n := ?o ! 0]) = take n ?o @ [out ! 0]"
      using IH Suc.prems by (simp add: take_Suc_conv_app_nth)
    then show ?thesis using IH False unfolding u foldl_append by (simp add: replicate_append_same)
  qed
qed simp

text \<open>
  The entry of the module keeps either both of its resources or none: when it fails, everything that it
  registered or allocated is given back.
\<close>

lemma paddr_start_resources:
  assumes "pm_memid s = -1" "pm_proc_event_id s = -1"
    and reg: "\<And>k r k'. mb_register E k = (r, k') \<Longrightarrow> held k' = (if failed r then held k else insert (True, r) (held k)) \<and> (True, r) \<notin> held k"
    and al: "\<And>k x n r k'. mb_alloc E k x n = (r, k') \<Longrightarrow> held k' = (if failed r then held k else insert (False, r) (held k)) \<and> (False, r) \<notin> held k"
    and un: "\<And>k r. held (mb_unregister E k r) = held k - {(True, r)}"
    and fr: "\<And>k r. held (mb_free E k r) = held k - {(False, r)}"
    and fi: "\<And>k p bs. held (mb_fill E k p bs) = (held k :: (bool \<times> s32) set)"
    and st: "paddr_module_start E s = (r, s')"
  shows "if r = START_SUCCESS
    then held (pm_k s') = insert (False, pm_memid s') (insert (True, pm_proc_event_id s') (held (pm_k s)))
    else r = START_FAILED \<and> held (pm_k s') = held (pm_k s) \<and> pm_memid s' = -1 \<and> pm_proc_event_id s' = -1"
proof -
  have fp: "held (fill_pattern E base k) = held k" for base k
  proof -
    have "held (foldl (\<lambda>k i. mb_fill E k (base + of_nat (i * 0x100)) (replicate 0x100 (of_nat (0x11 * i)))) k is) = held k"
      for "is" :: "nat list" and k
      by (induction "is" arbitrary: k) (simp_all add: fi)
    then show ?thesis by (simp only: fill_pattern_def)
  qed
  obtain r1 k1 where 1: "mb_register E (pm_k s) = (r1, k1)" by force
  note h1 = reg [OF 1]
  show ?thesis
  proof (cases "failed r1")
    case True
    then have "paddr_module_start E s = (START_FAILED, s\<lparr>pm_k := k1\<rparr>)"
      using assms(1,2) 1 by (simp add: paddr_module_start_def paddr_cleanup_def)
    then have "r = START_FAILED" "s' = s\<lparr>pm_k := k1\<rparr>" using st by simp_all
    then show ?thesis using assms(1,2) h1 True by simp
  next
    case n1: False
    obtain r2 k2 where 2: "mb_alloc E k1 ''SceKernelMemoryMap'' 0x1000 = (r2, k2)" by force
    note h2 = al [OF 2]
    obtain r3 base where 3: "mb_get_base E k2 r2 = (r3, base)" by force
    show ?thesis
    proof (cases "failed r2")
      case True
      then have "paddr_module_start E s =
          (START_FAILED, s\<lparr>pm_proc_event_id := -1, pm_k := mb_unregister E k2 r1\<rparr>)"
        using assms(1) 1 2 n1 by (simp add: paddr_module_start_def paddr_cleanup_def)
      then have "r = START_FAILED" "s' = s\<lparr>pm_proc_event_id := -1, pm_k := mb_unregister E k2 r1\<rparr>" using st by simp_all
      then show ?thesis using True assms(1) h1 h2 n1 un by simp
    next
      case n2: False
      show ?thesis
      proof (cases "failed r3")
        case True
        then have "paddr_module_start E s = (START_FAILED, s\<lparr>pm_proc_event_id := -1, pm_memid := -1, pm_base := base,
            pm_k := mb_unregister E (mb_free E k2 r2) r1\<rparr>)"
          using 1 2 3 n1 n2 by (simp add: paddr_module_start_def paddr_cleanup_def)
        then have "r = START_FAILED" "s' = s\<lparr>pm_proc_event_id := -1, pm_memid := -1, pm_base := base,
            pm_k := mb_unregister E (mb_free E k2 r2) r1\<rparr>" using st by simp_all
        then show ?thesis using h1 h2 n1 n2 un fr by simp
      next
        case False
        then have "paddr_module_start E s = (START_SUCCESS, s\<lparr>pm_proc_event_id := r1, pm_memid := r2, pm_base := base,
            pm_k := fill_pattern E base k2\<rparr>)"
          using 1 2 3 n1 n2 by (simp add: paddr_module_start_def)
        then have "r = START_SUCCESS" "s' = s\<lparr>pm_proc_event_id := r1, pm_memid := r2, pm_base := base,
            pm_k := fill_pattern E base k2\<rparr>" using st by simp_all
        then show ?thesis using h1 h2 n1 n2 fp by simp
      qed
    qed
  qed
qed

section \<open>Reading in the address space of a process\<close>

record ('k, 'c) access_env =
  ae_disable :: "'k \<Rightarrow> s32 \<times> 'k"
  ae_enable :: "'k \<Rightarrow> s32 \<Rightarrow> 'k"
  ae_current :: "'k \<Rightarrow> 'c"
  ae_set :: "'k \<Rightarrow> 'c \<Rightarrow> 'k"
  ae_process :: "'k \<Rightarrow> s32 \<Rightarrow> 'c"
  ae_set_process :: "'k \<Rightarrow> 'c \<Rightarrow> 'k"
  ae_word :: "'k \<Rightarrow> addr \<Rightarrow> u32 option"
  ae_print :: "'k \<Rightarrow> message \<Rightarrow> 'k"

definition process_create :: "('k, 'c) access_env \<Rightarrow> s32 \<Rightarrow> 'k \<Rightarrow> (s32 \<times> 'k) option" where
  "process_create E pid k = do {
     let k = ae_print E k (''AAAAAA\<newline>'', []);
     let (a1, k) = ae_disable E k;
     let ctx = ae_current E k;
     let as_ctx = ae_process E k pid;
     let k = ae_set_process E k as_ctx;
     value \<leftarrow> ae_word E k 0x81000000;
     let k = ae_set E k ctx;
     let k = ae_enable E k a1;
     Some (0, ae_print E k (''value:0x%08X\<newline>'', [Num32 value]))
   }"

text \<open>\<open>register\<close> registers the handler, \<open>offset\<close> finds an internal function of SceSysmem.\<close>

definition arm_access_module_start :: "('k \<Rightarrow> string \<Rightarrow> 'k) \<Rightarrow> ('k \<Rightarrow> u32 \<Rightarrow> 'k) \<Rightarrow> 'k \<Rightarrow> start_result \<times> 'k" where
  "arm_access_module_start register offset k =
     (START_SUCCESS, foldl offset (register k ''SceMemoryProcEvent'') [0x233B9, 0x233D9, 0x1FF21, 0xCC81])"

end
