(* ===== verification/Spec2Isabelle.thy ===== *)
theory Spec2Isabelle
  imports Sample_Runs Sample_Tools Sample_Old Sample_Memory Sample_Media Sample_Machine Sample_Analysis
    Layout_Analysis Op_Tables Usb_Fat16 Function_Hooks Debug_Tools Custom_Heaps Address_Mapping Small_Tools
begin

text \<open>
  A verification library of the PS Vita utilities of this repository: some fifty programs in C under
  \<open>src/kernel\<close>, \<open>src/user\<close> and \<open>src/tzs\<close>.  Most are modules of the kernel that are loaded, do one thing and
  end; the largest are two virtual file systems.  They share no code but the log and a few functions that
  are copied from one to the other, and they talk to the rest of the system through calls of the kernel
  and of taiHEN.

  \<^bold>\<open>How the programs are modelled.\<close>  A function of the source is a definition of the same name, or of that
  name after a prefix where it clashes with another one (\<open>old_vfs_open\<close>, \<open>nvs_write_file\<close>,
  \<open>usbstor_module_start\<close>).  It takes the state and returns the new one; \<open>option\<close> stands for memory faults: a
  result \<open>None\<close> means that the code reads or writes where nothing is, leaves an array, or does not return.  An error is
  the code that the source returns.  Integers are machine words of their width, so wrap-around and signed
  comparison are those of the code.  Code that is not under \<open>src/\<close> (the kernel, taiHEN, drivers, ciphers, hashes,
  zlib) is a record of functions on a state \<open>'k\<close> of the system, an argument of the definitions; what the theorems
  rely on of it are the predicates named \<open>..._contract\<close>.  What is printed is a list of messages, a format with its
  arguments; \<open>Printf\<close> gives the text.

  \<^bold>\<open>Shared theories.\<close>
  \<^item> \<open>Prelude\<close>: the word types, overwriting a part of a buffer, \<open>collect\<close> for loops that print, linked lists
    (\<open>chain\<close>), and the locales \<open>chain_search\<close> and \<open>link_walk\<close> for the two loops that the sources use on them,
    and \<open>random_access\<close> for positioned reads and writes.
  \<^item> \<open>Bytes\<close>: little-endian words and strings in byte arrays.  \<open>Sce_Io\<close>: the calls on files and threads, and
    their contract.  \<open>Printf\<close>, \<open>Tool_Base\<close>: formatted output, and a session of the log made of lines.
  \<^item> \<open>C_Layout\<close>: sizes, alignments and offsets of C structures.

  \<^bold>\<open>\<open>SceVfsMountPoC\<close>: a file system in memory.\<close>  A tree of entries \<open>FapsDmassFs\<close> with the first child, the next
  sibling and the parent, the data of a file in one block, and a control object for every open file.
  \<^item> \<open>Dmass_Types\<close>: the typed heap and the kernel's calls.  \<open>Dmass_Fs_Tool\<close>: \<open>fs_tool.c\<close>.  \<open>Vop_File\<close>, \<open>Vop_Dir\<close>,
    \<open>Vop_Stat\<close>: the operations of \<open>main.c\<close>.  \<open>Dmass_Process\<close>: \<open>dmass_process.c\<close> and the process resources.
  \<^item> \<open>Namespace\<close>, \<open>Namespace_Tidy\<close>: the abstract forest of names; the pointer walk over a path is resolution there.
  \<^item> \<open>Vop_File_Props\<close>, \<open>Vop_File_Laws\<close>, \<open>Vop_Handles\<close>: reads and writes refine those of a list of bytes with an
    offset; the list of handles of an entry.  \<open>Vop_Dir_Props\<close>, \<open>Vop_Remove_Props\<close>, \<open>Vop_Rename_Props\<close>,
    \<open>Vop_Dread_Props\<close>, \<open>Vop_Stat_Props\<close>: what the operations do to the forest, on every branch.
  \<^item> \<open>Vfs_Kept\<close>, \<open>Vfs_Machine\<close>: the file system as a state machine, and its invariant.

  \<^bold>\<open>\<open>SceVfsMountPoC_old\<close>: files made by callbacks.\<close>
  \<^item> \<open>Old_Vfs\<close> (\<open>fs_mgr.c\<close>, \<open>item_mgr.c\<close>), \<open>Old_Vfs_Files\<close> (the callbacks of the memory, cache and module files),
    \<open>Old_Vfs_Ops\<close> (\<open>main.c\<close>); \<open>Old_Vfs_Items\<close>: the doubly linked list of open items, opening, closing and
    bounds of reads; \<open>Old_Vfs_Tree\<close>: when the prefix walk over names is resolution by components, and when not
    (locale \<open>name_walk\<close>).
  \<^item> \<open>Op_Tables\<close>: the tables of operations of both file systems on the layouts of their structures.

  \<^bold>\<open>Verifiers, dumpers and parsers.\<close>
  \<^item> \<open>Aes_Cmac\<close>, \<open>Act_Verifier\<close>: \<open>act_verifier\<close> and \<open>np_act_verifier\<close>; the CMAC equals the one of RFC 4493.
    \<open>Cert_Verifier\<close>: \<open>idstorage_verifier\<close>.  \<open>Npdrm_Package\<close>: \<open>npdrm_package\<close>.
  \<^item> \<open>Emmc_Dumper\<close> (also \<open>idstorage_raw_dumper\<close>), \<open>Slb2_Dumper\<close>, \<open>Dump_Tools\<close> (\<open>nvs_dumper\<close>,
    \<open>idstorage_dumper\<close>, \<open>visible_id_dumper\<close>): what the files written hold.
  \<^item> \<open>Ttbr_Parser\<close>, \<open>Ttbr_Props\<close>, \<open>Ttbr_Tables\<close>: \<open>SceTTBRParser\<close>; its reads and its printed tables are the
    address translation of the processor.
  \<^item> \<open>Module_Loader\<close>, \<open>Loader_Props\<close>: \<open>kernel_module_loader\<close>; the registry of modules and its command line.
  \<^item> \<open>Malloc_Test\<close>, \<open>Custom_Heaps\<close>: the tests of allocators (\<open>malloc_free_test_kernel\<close>,
    \<open>malloc_free_test_user\<close>, \<open>PafCustomMalloc\<close>, \<open>KernelCustomMalloc\<close>, \<open>FixedHeap-Test\<close>) and what they give back.
  \<^item> \<open>Zlib_Sample\<close>: \<open>SceZlibSample\<close>.  \<open>Scheduler_Log\<close>: \<open>iofilemgr_scheduler_log\<close>.

  \<^bold>\<open>Analysis modules, patches and small tools.\<close>
  \<^item> \<open>Sce_Log\<close>: \<open>log.c\<close>.  \<open>Exfatfs_Analysis\<close>, \<open>Sdstor_Analysis\<close>: the listings that \<open>SceExfatfsAnalysis\<close> and
    \<open>SceSdstorAnalysis\<close> write through it, with the lengths for which no line leaves the log's array.
  \<^item> \<open>Activation_Reset\<close> (\<open>activate_reset\<close>), \<open>Usb_Fat16\<close> (\<open>SceUsbstorVstorFat16\<close>), \<open>Network_Patches\<close>
    (\<open>netps_kernel_recv_fix\<close>, \<open>mac_address_spoofer\<close>), \<open>Function_Hooks\<close> (seven modules that hook a function).
  \<^item> \<open>Guid_Tester\<close>, \<open>Debug_Tools\<close>, \<open>Address_Mapping\<close>, \<open>Small_Tools\<close>: the remaining programs;
    \<open>Corelock_Threads\<close>: the threads of \<open>CorelockSample\<close> in every interleaving.
  \<^item> \<open>Layout_Vfs\<close>, \<open>Layout_Module\<close>, \<open>Layout_Cert\<close>, \<open>Layout_Analysis\<close>: the structures that the headers and main
    files describe member by member, with the sizes and offsets that their comments give.

  \<^bold>\<open>Concrete runs.\<close>  \<open>Sample_State\<close>, \<open>Sample_Runs\<close>, \<open>Sample_Machine\<close>, \<open>Sample_Old\<close>, \<open>Sample_Tools\<close>,
  \<open>Sample_Memory\<close>, \<open>Sample_Media\<close> and \<open>Sample_Analysis\<close> define concrete systems and apply every property that has
  hypotheses to one of them, so the hypotheses can be met together.

  \<^bold>\<open>Interfaces.\<close>  The walks of the sources are interpretations of the two list locales (\<open>sibling\<close>, \<open>ctl\<close>,
  \<open>ctl_link\<close>, \<open>dir\<close>, \<open>proc\<close>, \<open>proc_link\<close>, \<open>by_path\<close>, \<open>by_number\<close>, \<open>pack\<close>, \<open>entries\<close>, \<open>configs\<close>); the positioned
  accesses of the file system interpret \<open>random_access\<close> (\<open>positioned\<close>); the two walks over names of the older file
  system interpret \<open>name_walk\<close> (\<open>filew\<close>, \<open>dirw\<close>).

  \<^bold>\<open>Termination.\<close>  No definition has fuel.  Loops whose end the code guarantees are functions with a measure.  Loops
  over linked lists, over the directory of the loader, over the command line and over the compressor's input are
  \<open>partial_function (option)\<close>: not returning is \<open>None\<close>, and the theorems state that the result is \<open>Some\<close>.  An endless
  thread is modelled by a number of its turns (\<open>nosuspend_turns\<close>).

  \<^bold>\<open>Not modelled.\<close>
  \<^item> What concurrent calls of one file system would do to each other: its steps are whole operations.  The
    threads of \<open>CorelockSample\<close> are the exception.
  \<^item> The assembly of \<open>pmu_test\<close> and \<open>SceVfsMountPoC_old\<close>; declarations of functions and macros that only name
    calls of the SDK; build files and scripts.
  \<^item> Code that is never executed: functions inside comments, branches under \<open>if(0)\<close>, and what follows the
    unconditional return in \<open>sysmem_guid_tester\<close>.
  \<^item> Effects that no result depends on: LEDs, the frame buffer, cache maintenance and the time measurement of the
    allocator tests.
\<close>

end
